(* ===== verification/Prelude.thy ===== *)
theory Prelude
  imports Main "HOL-Library.Word" "HOL-Library.Multiset" "HOL-Library.List_Lexorder" "HOL-Library.Char_ord"
begin

text \<open>
  What every other theory of the development shares: the machine types, the result type of
  the code's fallible functions, the combinators that stand for the \<open>?\<close> operator, checked
  and wrapping arithmetic on \<open>usize\<close>/\<open>u64\<close> values kept as naturals, and generic lemmas on
  lists. Strings are Isabelle \<^typ>\<open>string\<close>s read as the bytes of a Rust string (UTF-8).
\<close>

section \<open>Types\<close>

type_synonym u8 = "8 word"
type_synonym u16 = "16 word"
type_synonym u32 = "32 word"
type_synonym u64 = "64 word"
type_synonym bytes = "u8 list"

text \<open>
  A fallible function returns \<open>Inl\<close> a fault or \<open>Inr\<close> a value. \<open>Fail\<close> is an \<open>Err\<close> with its
  message (the outermost context of an \<open>anyhow\<close> error), \<open>Panic\<close> an aborted thread.
\<close>

datatype fault = Fail string | Panic string

type_synonym 'a res = "fault + 'a"

named_theorems res_simps \<open>unfolding of the result combinators\<close>
named_theorems byte_simps \<open>byte lists: slices, padding, little-endian integers\<close>
named_theorems text_simps \<open>string functions of the standard library\<close>

section \<open>The result monad\<close>

fun bnd :: "'e + 'a \<Rightarrow> ('a \<Rightarrow> 'e + 'b) \<Rightarrow> 'e + 'b" where
  "bnd (Inl e) k = Inl e"
| "bnd (Inr x) k = k x"

definition need :: "fault \<Rightarrow> 'a option \<Rightarrow> 'a res" where
  "need e m = (case m of None \<Rightarrow> Inl e | Some x \<Rightarrow> Inr x)"

definition guard :: "bool \<Rightarrow> fault \<Rightarrow> unit res" where
  "guard c e = (if c then Inr () else Inl e)"

fun map_ok :: "('a \<Rightarrow> 'b) \<Rightarrow> 'e + 'a \<Rightarrow> 'e + 'b" where
  "map_ok f (Inl e) = Inl e"
| "map_ok f (Inr x) = Inr (f x)"

fun map_err :: "('e \<Rightarrow> 'f) \<Rightarrow> 'e + 'a \<Rightarrow> 'f + 'a" where
  "map_err f (Inl e) = Inl (f e)"
| "map_err f (Inr x) = Inr x"

text \<open>A \<open>for\<close> loop whose body may leave the function with an error.\<close>

fun mapM :: "('a \<Rightarrow> 'e + 'b) \<Rightarrow> 'a list \<Rightarrow> 'e + 'b list" where
  "mapM f [] = Inr []"
| "mapM f (x # xs) = bnd (f x) (\<lambda>y. bnd (mapM f xs) (\<lambda>ys. Inr (y # ys)))"

fun foldM :: "('a \<Rightarrow> 's \<Rightarrow> 'e + 's) \<Rightarrow> 'a list \<Rightarrow> 's \<Rightarrow> 'e + 's" where
  "foldM f [] s = Inr s"
| "foldM f (x # xs) s = bnd (f x s) (foldM f xs)"

definition is_ok :: "'e + 'a \<Rightarrow> bool" where
  "is_ok r = (case r of Inl _ \<Rightarrow> False | Inr _ \<Rightarrow> True)"

definition panics :: "'a res \<Rightarrow> bool" where
  "panics r = (case r of Inl (Panic _) \<Rightarrow> True | _ \<Rightarrow> False)"

lemma bnd_eq_Inr [simp]: "bnd m k = Inr y \<longleftrightarrow> (\<exists>x. m = Inr x \<and> k x = Inr y)"
  by (cases m) auto

lemma bnd_eq_Inl: "bnd m k = Inl e \<longleftrightarrow> m = Inl e \<or> (\<exists>x. m = Inr x \<and> k x = Inl e)"
  by (cases m) auto

lemma bnd_assoc [simp]: "bnd (bnd m f) g = bnd m (\<lambda>x. bnd (f x) g)"
  by (cases m) auto

lemma map_ok_eq_Inr [simp]: "map_ok f m = Inr y \<longleftrightarrow> (\<exists>x. m = Inr x \<and> y = f x)"
  by (cases m) auto

lemma map_err_eq_Inr [simp]: "map_err f m = Inr y \<longleftrightarrow> m = Inr y"
  by (cases m) auto

lemma need_simps [simp]: "need e None = Inl e" "need e (Some x) = Inr x"
  by (simp_all add: need_def)

lemma need_eq_Inr [simp]: "need e m = Inr x \<longleftrightarrow> m = Some x"
  by (cases m) auto

lemma guard_simps [simp]: "guard True e = Inr ()" "guard False e = Inl e"
  by (simp_all add: guard_def)

lemma guard_eq_Inr [simp]: "guard c e = Inr u \<longleftrightarrow> c"
  by (simp add: guard_def)

lemma is_ok_simps [simp]: "is_ok (Inl e) = False" "is_ok (Inr x) = True"
  by (simp_all add: is_ok_def)

lemma is_ok_iff: "is_ok r \<longleftrightarrow> (\<exists>x. r = Inr x)"
  by (cases r) auto

lemma is_ok_bnd1 [simp]: "is_ok (bnd m (\<lambda>x. Inr (f x))) \<longleftrightarrow> is_ok m"
  by (cases m) auto

lemma is_ok_bnd2 [simp]: "is_ok (bnd m (\<lambda>x. bnd n (\<lambda>y. Inr (f x y)))) \<longleftrightarrow> is_ok m \<and> is_ok n"
  by (cases m; cases n) auto

lemma is_ok_map_err [simp]: "is_ok (map_err f m) = is_ok m"
  by (cases m) auto

lemma panics_simps [simp]: "panics (Inr x) = False" "panics (Inl (Panic s)) = True"
    "panics (Inl (Fail s)) = False"
  by (simp_all add: panics_def)

lemma panics_bnd: "panics (bnd m k) \<longleftrightarrow> panics m \<or> (\<exists>x. m = Inr x \<and> panics (k x))"
  by (cases m) (auto simp: panics_def split: fault.splits)

lemma panics_need [simp]: "panics (need (Fail s) m) = False"
  by (cases m) auto

lemma panics_guard [simp]: "panics (guard c (Fail s)) = False"
  by (simp add: guard_def)

lemma panics_map_ok [simp]: "panics (map_ok f m) = panics m"
  by (cases m) (auto simp: panics_def split: fault.splits)

lemma mapM_eq_Inr: "mapM f xs = Inr ys \<longleftrightarrow> list_all2 (\<lambda>x y. f x = Inr y) xs ys"
  by (induction xs arbitrary: ys) (auto simp: list_all2_Cons1)

lemma mapM_append:
  "mapM f (xs @ ys) = bnd (mapM f xs) (\<lambda>a. bnd (mapM f ys) (\<lambda>b. Inr (a @ b)))"
proof (induction xs)
  case Nil
  show ?case by (cases "mapM f ys") auto
next
  case (Cons a xs)
  then show ?case by (cases "f a"; cases "mapM f xs"; cases "mapM f ys") auto
qed

lemma mapM_Inr_map: "(\<And>x. x \<in> set xs \<Longrightarrow> f x = Inr (g x)) \<Longrightarrow> mapM f xs = Inr (map g xs)"
  by (induction xs) auto

lemma is_ok_mapM: "is_ok (mapM f xs) \<longleftrightarrow> (\<forall>x \<in> set xs. is_ok (f x))"
  by (induction xs) (auto simp: is_ok_iff)

lemma panics_mapM: "panics (mapM f xs) \<Longrightarrow> \<exists>x \<in> set xs. panics (f x)"
  by (induction xs) (auto simp: panics_bnd)

lemma not_panics_mapM [simp]: "(\<And>x. \<not> panics (f x)) \<Longrightarrow> \<not> panics (mapM f xs)"
  using panics_mapM [of f xs] by blast

lemma foldM_append: "foldM f (xs @ ys) s = bnd (foldM f xs s) (foldM f ys)"
proof (induction xs arbitrary: s)
  case (Cons a xs)
  then show ?case by (cases "f a s") auto
qed simp

text \<open>The loop invariant rule for \<^const>\<open>foldM\<close>.\<close>

lemma foldM_invariant:
  assumes "foldM f xs s = Inr t" and "P s"
    and "\<And>x u v. x \<in> set xs \<Longrightarrow> P u \<Longrightarrow> f x u = Inr v \<Longrightarrow> P v"
  shows "P t"
  using assms by (induction xs arbitrary: s) auto

section \<open>Checked and wrapping arithmetic on 64-bit values\<close>

text \<open>
  A build with overflow checks (\<open>oc = True\<close>, the debug profile) panics when \<open>+\<close> or \<open>*\<close>
  leaves 64 bits; the release profile wraps around.
\<close>

definition word_max :: nat where
  "word_max = 2 ^ 64"

definition wrap64 :: "nat \<Rightarrow> nat" where
  "wrap64 n = n mod word_max"

definition arith64 :: "bool \<Rightarrow> nat \<Rightarrow> nat res" where
  "arith64 oc n =
     (if n < word_max then Inr n
      else if oc then Inl (Panic ''attempt to overflow'') else Inr (wrap64 n))"

definition checked64 :: "nat \<Rightarrow> nat option" where
  "checked64 n = (if n < word_max then Some n else None)"

lemma word_max_eq: "word_max = 18446744073709551616"
  by (simp add: word_max_def)

lemma wrap64_less [simp]: "wrap64 n < word_max"
  by (simp add: wrap64_def word_max_def)

lemma wrap64_id [simp]: "n < word_max \<Longrightarrow> wrap64 n = n"
  by (simp add: wrap64_def)

lemma arith64_small [simp]: "n < word_max \<Longrightarrow> arith64 oc n = Inr n"
  by (simp add: arith64_def)

lemma arith64_release: "arith64 False n = Inr (wrap64 n)"
  by (simp add: arith64_def)

lemma panics_arith64_release [simp]: "panics (arith64 False n) = False"
  by (simp add: arith64_release)

lemma panics_arith64: "panics (arith64 oc n) \<longleftrightarrow> oc \<and> word_max \<le> n"
  by (auto simp: arith64_def)

lemma arith64_bound: "arith64 oc n = Inr m \<Longrightarrow> m < word_max"
  by (auto simp: arith64_def split: if_splits)

lemma checked64_eq_Some [simp]: "checked64 n = Some m \<longleftrightarrow> n < word_max \<and> m = n"
  by (auto simp: checked64_def)

section \<open>Stable sorting\<close>

text \<open>
  \<open>sort_by\<close>, \<open>sort_by_cached_key\<close> and \<open>BTreeMap\<close> iteration are stable sorts by a key. The
  contract of the code's sorted lists is stated once, for any key.
\<close>

definition sorted_by :: "('a \<Rightarrow> 'k::linorder) \<Rightarrow> 'a list \<Rightarrow> bool" where
  "sorted_by f xs = sorted (map f xs)"

lemma sorted_by_sort_key [simp]: "sorted_by f (sort_key f xs)"
  by (simp add: sorted_by_def)

locale stable_sorter =
  fixes sorter :: "'a list \<Rightarrow> 'a list" and rank :: "'a \<Rightarrow> 'k::linorder"
  assumes sorter_sorted: "sorted_by rank (sorter xs)"
    and sorter_mset: "mset (sorter xs) = mset xs"
    and sorter_stable: "filter (\<lambda>x. rank x = k) (sorter xs) = filter (\<lambda>x. rank x = k) xs"
begin

lemma sorter_set: "set (sorter xs) = set xs"
  by (metis sorter_mset set_mset_mset)

lemma sorter_length: "length (sorter xs) = length xs"
  by (metis sorter_mset size_mset)

text \<open>The contract determines the result: any stable sort by this key is this one.\<close>

lemma sorter_is_sort_key: "sorter xs = sort_key rank xs"
proof (rule properties_for_sort_key [symmetric])
  show "mset (sorter xs) = mset xs" by (rule sorter_mset)
  show "filter (\<lambda>x. rank k = rank x) (sorter xs) = filter (\<lambda>x. rank k = rank x) xs" for k
    using sorter_stable [of "rank k" xs] by (simp add: eq_commute)
  show "sorted (map rank (sorter xs))"
    using sorter_sorted [of xs] by (simp add: sorted_by_def)
qed

text \<open>Sorting a sorted list changes nothing.\<close>

lemma sorter_idem: "sorter (sorter xs) = sorter xs"
  using sorter_sorted [of xs] by (simp add: sorter_is_sort_key sorted_by_def sort_key_id_if_sorted)

end

lemma stable_sorter_sort_key: "stable_sorter (sort_key f) f"
  by unfold_locales (simp_all add: sort_key_stable)

end
