(* ===== verification/Bytes.thy ===== *)
theory Bytes
  imports Prelude
begin

text \<open>
  Byte buffers as the code uses them: \<open>slice::get(lo..hi)\<close>, the panicking index \<open>&b[lo..hi]\<close>,
  \<open>copy_from_slice\<close> into a zeroed buffer, \<open>from_le_bytes\<close>/\<open>to_le_bytes\<close> for \<open>u16\<close>, \<open>u32\<close> and
  \<open>u64\<close>, \<open>slice::chunks\<close>, and the stripping of trailing null bytes done by the attestation
  library. The little-endian integers share one interface, the locale \<open>fixed_codec\<close>.
\<close>

section \<open>Slices\<close>

definition get_range :: "'a list \<Rightarrow> nat \<Rightarrow> nat \<Rightarrow> 'a list option" where
  "get_range b lo hi =
     (if lo \<le> hi \<and> hi \<le> length b then Some (take (hi - lo) (drop lo b)) else None)"

definition slice_at :: "'a list \<Rightarrow> nat \<Rightarrow> nat \<Rightarrow> 'a list res" where
  "slice_at b lo hi = need (Panic ''slice index out of range'') (get_range b lo hi)"

definition get_at :: "'a list \<Rightarrow> nat \<Rightarrow> 'a option" where
  "get_at b i = (if i < length b then Some (b ! i) else None)"

lemma get_range_eq_Some:
  "get_range b lo hi = Some s \<longleftrightarrow> lo \<le> hi \<and> hi \<le> length b \<and> s = take (hi - lo) (drop lo b)"
  by (auto simp: get_range_def)

lemma get_range_eq_None: "get_range b lo hi = None \<longleftrightarrow> hi < lo \<or> length b < hi"
  by (auto simp: get_range_def)

lemma get_range_length: "get_range b lo hi = Some s \<Longrightarrow> length s = hi - lo"
  by (auto simp: get_range_def split: if_splits)

lemma get_range_append3: "get_range (a @ s @ c) (length a) (length a + length s) = Some s"
  by (simp add: get_range_def)

lemma get_range_in [simp, byte_simps]:
  "lo \<le> hi \<Longrightarrow> hi \<le> length b \<Longrightarrow> get_range b lo hi = Some (take (hi - lo) (drop lo b))"
  by (simp add: get_range_def)

lemma get_range_nth:
  "get_range b lo hi = Some s \<Longrightarrow> i < hi - lo \<Longrightarrow> s ! i = b ! (lo + i)"
  by (auto simp: get_range_def split: if_splits)

lemma slice_at_in [simp, byte_simps]:
  "lo \<le> hi \<Longrightarrow> hi \<le> length b \<Longrightarrow> slice_at b lo hi = Inr (take (hi - lo) (drop lo b))"
  by (simp add: slice_at_def)

lemma panics_slice_at: "panics (slice_at b lo hi) \<longleftrightarrow> hi < lo \<or> length b < hi"
  by (auto simp: slice_at_def get_range_def panics_def)

section \<open>Zeroed buffers and copies\<close>

text \<open>\<open>let mut p = vec![0u8; n]; p[..k].copy_from_slice(&d[..k])\<close> with \<open>k = d.len().min(n)\<close>.\<close>

definition pad_to :: "nat \<Rightarrow> bytes \<Rightarrow> bytes" where
  "pad_to n d = take n d @ replicate (n - length d) 0"

text \<open>\<open>buf[off..off + s.len()].copy_from_slice(s)\<close>, in range.\<close>

definition put_at :: "nat \<Rightarrow> 'a list \<Rightarrow> 'a list \<Rightarrow> 'a list" where
  "put_at off s buf = take off buf @ s @ drop (off + length s) buf"

lemma pad_to_length [simp]: "length (pad_to n d) = n"
  by (simp add: pad_to_def)

lemma pad_to_full [simp]: "length d = n \<Longrightarrow> pad_to n d = d"
  by (simp add: pad_to_def)

lemma pad_to_idem [simp]: "pad_to n (pad_to n d) = pad_to n d"
  by (rule pad_to_full) simp

lemma pad_to_Nil [simp]: "pad_to n [] = replicate n 0"
  by (simp add: pad_to_def)

lemma pad_to_nth: "i < n \<Longrightarrow> pad_to n d ! i = (if i < length d then d ! i else 0)"
  by (auto simp: pad_to_def nth_append)

lemma put_at_length [simp]: "off + length s \<le> length buf \<Longrightarrow> length (put_at off s buf) = length buf"
  by (simp add: put_at_def)

lemma put_at_get:
  "off + length s \<le> length buf \<Longrightarrow> get_range (put_at off s buf) off (off + length s) = Some s"
  by (simp add: put_at_def get_range_def)

lemma put_at_nth:
  assumes "off + length s \<le> length buf" and "i < length buf"
  shows "put_at off s buf ! i = (if off \<le> i \<and> i < off + length s then s ! (i - off) else buf ! i)"
  using assms by (auto simp: put_at_def nth_append min_def)

lemma put_at_get_other:
  assumes "off + length s \<le> length buf" and "hi \<le> off \<or> off + length s \<le> lo"
  shows "get_range (put_at off s buf) lo hi = get_range buf lo hi"
proof (cases "lo \<le> hi \<and> hi \<le> length buf")
  case True
  then have "take (hi - lo) (drop lo (put_at off s buf)) = take (hi - lo) (drop lo buf)"
    using assms by (intro nth_equalityI) (auto simp: put_at_nth)
  then show ?thesis using True assms by (simp add: get_range_def)
qed (use assms in \<open>auto simp: get_range_def\<close>)

section \<open>Little-endian integers\<close>

fun le_nat :: "bytes \<Rightarrow> nat" where
  "le_nat [] = 0"
| "le_nat (b # bs) = unat b + 256 * le_nat bs"

fun le_bytes :: "nat \<Rightarrow> nat \<Rightarrow> bytes" where
  "le_bytes 0 n = []"
| "le_bytes (Suc w) n = of_nat n # le_bytes w (n div 256)"

lemma le_bytes_length [simp]: "length (le_bytes w n) = w"
  by (induction w arbitrary: n) auto

lemma unat_of_nat8: "unat (of_nat n :: u8) = n mod 256"
  by (simp add: unat_of_nat)

lemma le_nat_le_bytes [simp]: "le_nat (le_bytes w n) = n mod 256 ^ w"
proof (induction w arbitrary: n)
  case (Suc w)
  have "n mod (256 * 256 ^ w) = 256 * (n div 256 mod 256 ^ w) + n mod 256"
    by (rule mod_mult2_eq)
  then show ?case using Suc by (simp add: unat_of_nat8)
qed simp

lemma le_nat_less: "le_nat bs < 256 ^ length bs"
proof (induction bs)
  case (Cons b bs)
  have "unat b < 256" using unsigned_less [of b] by simp
  then show ?case using Cons by simp
qed simp

lemma le_bytes_le_nat: "le_bytes (length bs) (le_nat bs) = bs"
proof (induction bs)
  case (Cons b bs)
  have "unat b < 256" using unsigned_less [of b] by simp
  then show ?case using Cons by (simp add: word_unat_eq_iff unat_of_nat8 flip: of_nat_add of_nat_mult)
qed simp

text \<open>
  The interface of a fixed-width integer codec: decoding inverts encoding, every buffer of
  the width is the encoding of the value it decodes to.
\<close>

locale fixed_codec =
  fixes enc :: "'a \<Rightarrow> bytes" and dec :: "bytes \<Rightarrow> 'a" and width :: nat
  assumes dec_enc: "dec (enc x) = x"
    and enc_length: "length (enc x) = width"
    and enc_dec: "length b = width \<Longrightarrow> enc (dec b) = b"
begin

lemma enc_inject: "enc x = enc y \<longleftrightarrow> x = y"
  by (metis dec_enc)

lemma dec_inject: "length a = width \<Longrightarrow> length b = width \<Longrightarrow> dec a = dec b \<longleftrightarrow> a = b"
  by (metis enc_dec)

text \<open>A field written into a buffer is read back; the fields beside it are left alone.\<close>

lemma read_written:
  assumes "off + width \<le> length buf"
  shows "map_option dec (get_range (put_at off (enc x) buf) off (off + width)) = Some x"
  using put_at_get [of off "enc x" buf] assms by (simp add: enc_length dec_enc)

lemma read_beside:
  assumes "off + width \<le> length buf" and "hi \<le> off \<or> off + width \<le> lo"
  shows "get_range (put_at off (enc x) buf) lo hi = get_range buf lo hi"
  using assms by (intro put_at_get_other) (auto simp: enc_length)

lemma append_inject: "enc x @ r = enc y @ s \<longleftrightarrow> x = y \<and> r = s"
  by (metis append_eq_append_conv enc_inject enc_length)

end

definition u16_le :: "u16 \<Rightarrow> bytes" where "u16_le x = le_bytes 2 (unat x)"
definition u32_le :: "u32 \<Rightarrow> bytes" where "u32_le x = le_bytes 4 (unat x)"
definition u64_le :: "u64 \<Rightarrow> bytes" where "u64_le x = le_bytes 8 (unat x)"
definition le_u16 :: "bytes \<Rightarrow> u16" where "le_u16 b = of_nat (le_nat b)"
definition le_u32 :: "bytes \<Rightarrow> u32" where "le_u32 b = of_nat (le_nat b)"
definition le_u64 :: "bytes \<Rightarrow> u64" where "le_u64 b = of_nat (le_nat b)"

interpretation le16: fixed_codec u16_le le_u16 2
proof unfold_locales
  show "u16_le (le_u16 b) = b" if "length b = 2" for b
    using that le_nat_less [of b] le_bytes_le_nat [of b]
    by (simp add: u16_le_def le_u16_def unat_of_nat)
  show "le_u16 (u16_le x) = x" for x
    using unsigned_less [of x, where 'a = nat] by (simp add: u16_le_def le_u16_def)
qed (simp add: u16_le_def)

interpretation le32: fixed_codec u32_le le_u32 4
proof unfold_locales
  show "u32_le (le_u32 b) = b" if "length b = 4" for b
    using that le_nat_less [of b] le_bytes_le_nat [of b]
    by (simp add: u32_le_def le_u32_def unat_of_nat)
  show "le_u32 (u32_le x) = x" for x
    using unsigned_less [of x, where 'a = nat] by (simp add: u32_le_def le_u32_def)
qed (simp add: u32_le_def)

interpretation le64: fixed_codec u64_le le_u64 8
proof unfold_locales
  show "u64_le (le_u64 b) = b" if "length b = 8" for b
    using that le_nat_less [of b] le_bytes_le_nat [of b]
    by (simp add: u64_le_def le_u64_def unat_of_nat)
  show "le_u64 (u64_le x) = x" for x
    using unsigned_less [of x, where 'a = nat] by (simp add: u64_le_def le_u64_def)
qed (simp add: u64_le_def)

lemma le_u16_nat: "length b = 2 \<Longrightarrow> unat (le_u16 b) = le_nat b"
  using le_nat_less [of b] by (simp add: le_u16_def unat_of_nat)

lemma le_u32_nat: "length b = 4 \<Longrightarrow> unat (le_u32 b) = le_nat b"
  using le_nat_less [of b] by (simp add: le_u32_def unat_of_nat)

lemma le_u64_nat: "length b = 8 \<Longrightarrow> unat (le_u64 b) = le_nat b"
  using le_nat_less [of b] by (simp add: le_u64_def unat_of_nat)

section \<open>Trailing null bytes\<close>

definition strip_trailing_nulls :: "bytes \<Rightarrow> bytes" where
  "strip_trailing_nulls b = rev (dropWhile (\<lambda>x. x = 0) (rev b))"

lemma strip_split: "\<exists>k. b = strip_trailing_nulls b @ replicate k 0"
proof -
  have "rev b = takeWhile (\<lambda>x. x = 0) (rev b) @ dropWhile (\<lambda>x. x = 0) (rev b)" by simp
  moreover have "takeWhile (\<lambda>x. x = 0) (rev b) = replicate (length (takeWhile (\<lambda>x. x = 0) (rev b))) 0"
    by (intro replicate_eqI) (auto dest: set_takeWhileD)
  ultimately have "rev b = replicate (length (takeWhile (\<lambda>x. x = 0) (rev b))) 0 @ dropWhile (\<lambda>x. x = 0) (rev b)"
    by metis
  then have "b = rev (dropWhile (\<lambda>x. x = 0) (rev b)) @ replicate (length (takeWhile (\<lambda>x. x = 0) (rev b))) 0"
    by (metis rev_append rev_replicate rev_rev_ident)
  then show ?thesis unfolding strip_trailing_nulls_def by blast
qed

lemma strip_length_le: "length (strip_trailing_nulls b) \<le> length b"
  using length_dropWhile_le [of "\<lambda>x. x = 0" "rev b"] by (simp add: strip_trailing_nulls_def)

text \<open>Zero-extending to the original width undoes the stripping, on every prefix.\<close>

lemma pad_strip: "n \<le> length b \<Longrightarrow> pad_to n (strip_trailing_nulls b) = take n b"
proof -
  assume "n \<le> length b"
  obtain k where k: "b = strip_trailing_nulls b @ replicate k 0" using strip_split by blast
  let ?s = "strip_trailing_nulls b"
  have "take n b = take n ?s @ take (n - length ?s) (replicate k 0)"
    by (subst k) simp
  moreover have "take (n - length ?s) (replicate k (0::u8)) = replicate (n - length ?s) 0"
    using \<open>n \<le> length b\<close> arg_cong[OF k, of length] by (simp add: min_absorb2 take_replicate min_absorb1)
  ultimately show ?thesis by (simp add: pad_to_def)
qed

lemma pad_strip_drop:
  assumes "m \<le> length (strip_trailing_nulls b)"
  shows "pad_to (length b - m) (drop m (strip_trailing_nulls b)) = drop m b"
proof -
  obtain k where k: "b = strip_trailing_nulls b @ replicate k 0" using strip_split by blast
  let ?s = "strip_trailing_nulls b"
  have "drop m b = drop m ?s @ replicate k 0" using assms by (subst k) simp
  moreover have "length b = length ?s + k" using arg_cong[OF k, of length] by simp
  ultimately show ?thesis using assms by (simp add: pad_to_def)
qed

section \<open>Chunks\<close>

fun chunks :: "nat \<Rightarrow> 'a list \<Rightarrow> 'a list list" where
  "chunks n [] = []"
| "chunks n (x # xs) = (if n = 0 then [] else take n (x # xs) # chunks n (drop n (x # xs)))"

lemma chunks_concat: "0 < n \<Longrightarrow> concat (chunks n xs) = xs"
  by (induction n xs rule: chunks.induct) auto

lemma chunks_lengths: "c \<in> set (chunks n xs) \<Longrightarrow> 0 < length c \<and> length c \<le> n"
  by (induction n xs rule: chunks.induct) (auto split: if_splits)

end
