(* ===== verification/Text.thy ===== *)
theory Text
  imports Bytes
begin

text \<open>
  The string functions of the standard library that the code calls. A Rust string is the list
  of its UTF-8 bytes, held as characters, so \<open>as_bytes\<close> is a renaming; whitespace is
  recognised by the UTF-8 encodings of the characters with the Unicode property White_Space,
  as \<open>char::is_whitespace\<close> does.
\<close>

section \<open>Strings and bytes\<close>

definition as_bytes :: "string \<Rightarrow> bytes" where
  "as_bytes s = map (\<lambda>c. of_nat (of_char c)) s"

definition str_of :: "bytes \<Rightarrow> string" where
  "str_of b = map (\<lambda>w. char_of (unat w)) b"

lemma char_byte [simp]: "char_of (unat (of_nat (of_char c) :: u8)) = c"
proof -
  have "(of_char c :: nat) < 256" by simp
  then show ?thesis by (simp add: unat_of_nat8)
qed

lemma byte_char [simp]: "of_nat (of_char (char_of (unat (w :: u8)))) = w"
  using unsigned_less [of w, where 'a = nat] by simp

lemma str_of_as_bytes [simp]: "str_of (as_bytes s) = s"
  by (induction s) (auto simp: as_bytes_def str_of_def)

lemma as_bytes_str_of [simp]: "as_bytes (str_of b) = b"
  by (simp add: as_bytes_def str_of_def o_def map_idI del: of_char_of)

lemma as_bytes_inject [simp]: "as_bytes s = as_bytes t \<longleftrightarrow> s = t"
  by (metis str_of_as_bytes)

lemma as_bytes_length [simp]: "length (as_bytes s) = length s"
  by (simp add: as_bytes_def)

lemma str_of_length [simp]: "length (str_of b) = length b"
  by (simp add: str_of_def)

lemma as_bytes_append [simp]: "as_bytes (s @ t) = as_bytes s @ as_bytes t"
  by (simp add: as_bytes_def)

section \<open>UTF-8\<close>

definition cont :: "u8 \<Rightarrow> bool" where
  "cont b = (0x80 \<le> b \<and> b \<le> 0xBF)"

definition second3 :: "u8 \<Rightarrow> u8 \<Rightarrow> bool" where
  "second3 b c = (if b = 0xE0 then 0xA0 \<le> c \<and> c \<le> 0xBF
                  else if b = 0xED then 0x80 \<le> c \<and> c \<le> 0x9F else cont c)"

definition second4 :: "u8 \<Rightarrow> u8 \<Rightarrow> bool" where
  "second4 b c = (if b = 0xF0 then 0x90 \<le> c \<and> c \<le> 0xBF
                  else if b = 0xF4 then 0x80 \<le> c \<and> c \<le> 0x8F else cont c)"

text \<open>
  The sequence at the front of a buffer: whether it is a well-formed character, and how many
  bytes it takes (for an ill-formed one the maximal subpart \<open>from_utf8_lossy\<close> replaces).
\<close>

fun utf8_step :: "bytes \<Rightarrow> bool \<times> nat" where
  "utf8_step [] = (False, 0)"
| "utf8_step (b # r) =
    (if b < 0x80 then (True, 1)
     else if 0xC2 \<le> b \<and> b \<le> 0xDF then
       (case r of c # _ \<Rightarrow> if cont c then (True, 2) else (False, 1) | [] \<Rightarrow> (False, 1))
     else if 0xE0 \<le> b \<and> b \<le> 0xEF then
       (case r of
          [] \<Rightarrow> (False, 1)
        | c # r2 \<Rightarrow>
            if second3 b c then (case r2 of d # _ \<Rightarrow> if cont d then (True, 3) else (False, 2)
                                 | [] \<Rightarrow> (False, 2))
            else (False, 1))
     else if 0xF0 \<le> b \<and> b \<le> 0xF4 then
       (case r of
          [] \<Rightarrow> (False, 1)
        | c # r2 \<Rightarrow>
            if second4 b c then
              (case r2 of
                 [] \<Rightarrow> (False, 2)
               | d # r3 \<Rightarrow>
                   if cont d then (case r3 of e # _ \<Rightarrow> if cont e then (True, 4) else (False, 3)
                                   | [] \<Rightarrow> (False, 3))
                   else (False, 2))
            else (False, 1))
     else (False, 1))"

lemma utf8_step_pos: "0 < snd (utf8_step (b # r))"
  by (auto split: list.splits)

lemma utf8_step_shrinks: "b \<noteq> [] \<Longrightarrow> length b - snd (utf8_step b) < length b"
  using utf8_step_pos by (cases b) (auto simp del: utf8_step.simps)

function utf8_valid :: "bytes \<Rightarrow> bool" where
  "utf8_valid b =
     (if b = [] then True else fst (utf8_step b) \<and> utf8_valid (drop (snd (utf8_step b)) b))"
  by pat_completeness auto
termination
  by (relation "measure length") (auto simp: utf8_step_shrinks)

declare utf8_valid.simps [simp del]

text \<open>U+FFFD, the replacement character, is \<open>EF BF BD\<close>.\<close>

function utf8_lossy :: "bytes \<Rightarrow> bytes" where
  "utf8_lossy b =
     (if b = [] then []
      else (let (ok, n) = utf8_step b in
            (if ok then take n b else [0xEF, 0xBF, 0xBD]) @ utf8_lossy (drop n b)))"
  by pat_completeness auto
termination
proof (relation "measure length")
  fix b x ok n
  assume "b \<noteq> []" and "x = utf8_step b" and "(ok, n) = x"
  then show "(drop n b, b) \<in> measure length"
    using utf8_step_shrinks [of b] by (metis in_measure length_drop snd_conv)
qed simp

declare utf8_lossy.simps [simp del]

definition from_utf8 :: "bytes \<Rightarrow> string option" where
  "from_utf8 b = (if utf8_valid b then Some (str_of b) else None)"

definition from_utf8_lossy :: "bytes \<Rightarrow> string" where
  "from_utf8_lossy b = str_of (utf8_lossy b)"

lemma utf8_lossy_valid: "utf8_valid b \<Longrightarrow> utf8_lossy b = b"
proof (induction b rule: utf8_lossy.induct)
  case (1 b)
  show ?case
  proof (cases "b = []")
    case False
    obtain ok n where st: "utf8_step b = (ok, n)" by fastforce
    then have "ok" and v: "utf8_valid (drop n b)"
      using "1.prems" False by (simp_all add: utf8_valid.simps [of b])
    then have "utf8_lossy (drop n b) = drop n b"
      using "1.IH" [OF False st [symmetric]] by simp
    then show ?thesis using \<open>ok\<close> False st by (simp add: utf8_lossy.simps [of b])
  qed (simp add: utf8_lossy.simps)
qed

lemma from_utf8_lossy_valid: "from_utf8 b = Some s \<Longrightarrow> from_utf8_lossy b = s"
  by (auto simp: from_utf8_def from_utf8_lossy_def utf8_lossy_valid split: if_splits)

text \<open>ASCII text is valid UTF-8.\<close>

lemma utf8_valid_ascii: "\<forall>x \<in> set b. x < 0x80 \<Longrightarrow> utf8_valid b"
proof (induction b)
  case (Cons x b)
  then show ?case by (subst utf8_valid.simps) simp
qed (simp add: utf8_valid.simps)

lemma from_utf8_lossy_ascii:
  "\<forall>x \<in> set (as_bytes s). x < 0x80 \<Longrightarrow> from_utf8_lossy (as_bytes s) = s"
  by (simp add: from_utf8_lossy_def utf8_lossy_valid utf8_valid_ascii)

section \<open>Whitespace\<close>

definition ws_len :: "string \<Rightarrow> nat" where
  "ws_len s =
     (case map of_char (take 3 s) :: nat list of
        [] \<Rightarrow> 0
      | b # r \<Rightarrow>
          if (9 \<le> b \<and> b \<le> 13) \<or> b = 32 then 1
          else if b = 0xC2 \<and> (take 1 r = [0x85] \<or> take 1 r = [0xA0]) then 2
          else if b = 0xE1 \<and> r = [0x9A, 0x80] then 3
          else if b = 0xE2 \<and> (case r of [c, d] \<Rightarrow>
                 (c = 0x80 \<and> ((0x80 \<le> d \<and> d \<le> 0x8A) \<or> d = 0xA8 \<or> d = 0xA9 \<or> d = 0xAF))
                 \<or> (c = 0x81 \<and> d = 0x9F) | _ \<Rightarrow> False) then 3
          else if b = 0xE3 \<and> r = [0x80, 0x80] then 3
          else 0)"

lemma ws_len_Nil [simp]: "ws_len [] = 0"
  by (simp add: ws_len_def)

lemma ws_len_ascii: "of_char c < (128::nat) \<Longrightarrow>
    ws_len (c # s) =
      (if (9 \<le> (of_char c :: nat) \<and> of_char c \<le> (13::nat)) \<or> of_char c = (32::nat) then 1 else 0)"
  by (simp add: ws_len_def)

function trim_start :: "string \<Rightarrow> string" where
  "trim_start s = (if ws_len s = 0 then s else trim_start (drop (ws_len s) s))"
  by pat_completeness auto
termination
proof (relation "measure length")
  show "ws_len s \<noteq> 0 \<Longrightarrow> (drop (ws_len s) s, s) \<in> measure length" for s
    by (cases s) auto
qed simp

declare trim_start.simps [simp del]

text \<open>The white-space character a string ends with, if any.\<close>

definition ws_end_len :: "string \<Rightarrow> nat" where
  "ws_end_len s =
     (let last_k = (\<lambda>k. drop (length s - k) s) in
      if s \<noteq> [] \<and> ws_len (last_k 1) = 1 then 1
      else if 2 \<le> length s \<and> ws_len (last_k 2) = 2 then 2
      else if 3 \<le> length s \<and> ws_len (last_k 3) = 3 then 3 else 0)"

function trim_end :: "string \<Rightarrow> string" where
  "trim_end s = (if ws_end_len s = 0 then s else trim_end (take (length s - ws_end_len s) s))"
  by pat_completeness auto
termination
  by (relation "measure length") (auto simp: ws_end_len_def Let_def split: if_splits)

declare trim_end.simps [simp del]

definition trim :: "string \<Rightarrow> string" where
  "trim s = trim_end (trim_start s)"

function split_ws_from :: "string \<Rightarrow> string \<Rightarrow> string list" where
  "split_ws_from acc s =
     (if s = [] then (if acc = [] then [] else [rev acc])
      else if 0 < ws_len s then
        (if acc = [] then [] else [rev acc]) @ split_ws_from [] (drop (ws_len s) s)
      else split_ws_from (hd s # acc) (tl s))"
  by pat_completeness auto
termination
  by (relation "measure (\<lambda>(_, s). length s)") auto

declare split_ws_from.simps [simp del]

definition split_whitespace :: "string \<Rightarrow> string list" where
  "split_whitespace s = split_ws_from [] s"

lemma split_ws_from_nonempty: "t \<in> set (split_ws_from acc s) \<Longrightarrow> t \<noteq> []"
proof (induction acc s rule: split_ws_from.induct)
  case (1 acc s)
  from "1.prems" show ?case
    by (subst (asm) split_ws_from.simps) (auto split: if_splits dest: "1.IH")
qed

section \<open>Prefixes, suffixes, splitting\<close>

fun strip_prefix :: "string \<Rightarrow> string \<Rightarrow> string option" where
  "strip_prefix [] s = Some s"
| "strip_prefix (p # ps) [] = None"
| "strip_prefix (p # ps) (c # s) = (if p = c then strip_prefix ps s else None)"

definition starts_with :: "string \<Rightarrow> string \<Rightarrow> bool" where
  "starts_with p s = (strip_prefix p s \<noteq> None)"

definition strip_suffix :: "string \<Rightarrow> string \<Rightarrow> string option" where
  "strip_suffix p s = map_option rev (strip_prefix (rev p) (rev s))"

definition ends_with :: "string \<Rightarrow> string \<Rightarrow> bool" where
  "ends_with p s = (strip_suffix p s \<noteq> None)"

lemma strip_prefix_eq_Some [simp]: "strip_prefix p s = Some r \<longleftrightarrow> s = p @ r"
  by (induction p s rule: strip_prefix.induct) auto

lemma starts_with_iff: "starts_with p s \<longleftrightarrow> (\<exists>r. s = p @ r)"
  by (auto simp: starts_with_def)

lemma strip_suffix_eq_Some [simp]: "strip_suffix p s = Some r \<longleftrightarrow> s = r @ p"
  by (auto simp: strip_suffix_def) (metis rev_append rev_rev_ident)+

lemma ends_with_iff: "ends_with p s \<longleftrightarrow> (\<exists>r. s = r @ p)"
  by (auto simp: ends_with_def)

text \<open>\<open>s.split_once(pat)\<close> for a string pattern; \<open>find_str\<close> is the offset of its first match.\<close>

fun split_once_str :: "string \<Rightarrow> string \<Rightarrow> (string \<times> string) option" where
  "split_once_str p [] = (if p = [] then Some ([], []) else None)"
| "split_once_str p (c # s) =
     (case strip_prefix p (c # s) of
        Some r \<Rightarrow> Some ([], r)
      | None \<Rightarrow> map_option (\<lambda>(a, b). (c # a, b)) (split_once_str p s))"

fun split_once :: "char \<Rightarrow> string \<Rightarrow> (string \<times> string) option" where
  "split_once d [] = None"
| "split_once d (c # s) =
     (if c = d then Some ([], s) else map_option (\<lambda>(a, b). (c # a, b)) (split_once d s))"

definition rsplit_once :: "char \<Rightarrow> string \<Rightarrow> (string \<times> string) option" where
  "rsplit_once d s = map_option (\<lambda>(a, b). (rev b, rev a)) (split_once d (rev s))"

definition contains_str :: "string \<Rightarrow> string \<Rightarrow> bool" where
  "contains_str p s = (split_once_str p s \<noteq> None)"

fun split_on :: "char \<Rightarrow> string \<Rightarrow> string list" where
  "split_on d [] = [[]]"
| "split_on d (c # s) =
     (if c = d then [] # split_on d s
      else (case split_on d s of [] \<Rightarrow> [[c]] | p # ps \<Rightarrow> (c # p) # ps))"

fun join :: "string \<Rightarrow> string list \<Rightarrow> string" where
  "join sep [] = []"
| "join sep [s] = s"
| "join sep (s # t # r) = s @ sep @ join sep (t # r)"

lemma split_once_str_Some: "split_once_str p s = Some (a, b) \<Longrightarrow> s = a @ p @ b"
  by (induction p s arbitrary: a rule: split_once_str.induct) (auto split: option.splits if_splits)

lemma split_once_Some_iff:
  "split_once d s = Some (a, b) \<longleftrightarrow> s = a @ d # b \<and> d \<notin> set a"
proof (induction d s arbitrary: a rule: split_once.induct)
  case (2 d c s)
  then show ?case by (cases a) auto
qed simp

lemma split_once_None_iff: "split_once d s = None \<longleftrightarrow> d \<notin> set s"
  by (induction d s rule: split_once.induct) auto

lemma rsplit_once_Some_iff:
  "rsplit_once d s = Some (a, b) \<longleftrightarrow> s = a @ d # b \<and> d \<notin> set b"
proof -
  have "rsplit_once d s = Some (a, b) \<longleftrightarrow> split_once d (rev s) = Some (rev b, rev a)"
    by (auto simp: rsplit_once_def)
  also have "\<dots> \<longleftrightarrow> rev s = rev (a @ d # b) \<and> d \<notin> set b"
    by (simp add: split_once_Some_iff)
  finally show ?thesis by (simp only: rev_is_rev_conv)
qed

lemma split_on_not_Nil [simp]: "split_on d s \<noteq> []"
  by (induction d s rule: split_on.induct) (auto split: list.splits)

lemma split_on_join: "join [d] (split_on d s) = s"
proof (induction d s rule: split_on.induct)
  case (2 d c s)
  then show ?case
    by (cases "split_on d s"; cases "tl (split_on d s)") (auto simp: neq_Nil_conv)
qed simp

lemma split_on_parts: "p \<in> set (split_on d s) \<Longrightarrow> d \<notin> set p"
  by (induction d s arbitrary: p rule: split_on.induct) (fastforce split: if_splits list.splits)+

lemma split_on_absent: "d \<notin> set s \<Longrightarrow> split_on d s = [s]"
  by (induction d s rule: split_on.induct) auto

lemma split_on_append: "d \<notin> set p \<Longrightarrow> split_on d (p @ d # s) = p # split_on d s"
  by (induction p) auto

section \<open>Case folding, characters\<close>

definition to_ascii_lower :: "char \<Rightarrow> char" where
  "to_ascii_lower c =
     (let n = of_char c :: nat in if 65 \<le> n \<and> n \<le> 90 then char_of (n + 32) else c)"

definition eq_ignore_ascii_case :: "string \<Rightarrow> string \<Rightarrow> bool" where
  "eq_ignore_ascii_case a b = (map to_ascii_lower a = map to_ascii_lower b)"

definition is_ascii_hexdigit :: "char \<Rightarrow> bool" where
  "is_ascii_hexdigit c =
     (let n = of_char c :: nat in
      (48 \<le> n \<and> n \<le> 57) \<or> (65 \<le> n \<and> n \<le> 70) \<or> (97 \<le> n \<and> n \<le> 102))"

definition is_ascii_digit :: "char \<Rightarrow> bool" where
  "is_ascii_digit c = (let n = of_char c :: nat in 48 \<le> n \<and> n \<le> 57)"

definition is_ascii_alphanumeric :: "char \<Rightarrow> bool" where
  "is_ascii_alphanumeric c =
     (let n = of_char c :: nat in
      (48 \<le> n \<and> n \<le> 57) \<or> (65 \<le> n \<and> n \<le> 90) \<or> (97 \<le> n \<and> n \<le> 122))"

definition remove_char :: "char \<Rightarrow> string \<Rightarrow> string" where
  "remove_char c s = filter (\<lambda>d. d \<noteq> c) s"

definition replace_char :: "char \<Rightarrow> string \<Rightarrow> string \<Rightarrow> string" where
  "replace_char c r s = concat (map (\<lambda>d. if d = c then r else [d]) s)"

lemma eq_ignore_refl [simp]: "eq_ignore_ascii_case a a"
  by (simp add: eq_ignore_ascii_case_def)

lemma eq_ignore_sym: "eq_ignore_ascii_case a b \<longleftrightarrow> eq_ignore_ascii_case b a"
  by (auto simp: eq_ignore_ascii_case_def)

lemma eq_ignore_length: "eq_ignore_ascii_case a b \<Longrightarrow> length a = length b"
  by (metis eq_ignore_ascii_case_def length_map)

definition lower_text :: "string \<Rightarrow> bool" where
  "lower_text s = (\<forall>c \<in> set s. to_ascii_lower c = c)"

lemma eq_ignore_lower:
  "lower_text a \<Longrightarrow> lower_text b \<Longrightarrow> eq_ignore_ascii_case a b \<longleftrightarrow> a = b"
  by (simp add: eq_ignore_ascii_case_def lower_text_def map_idI)

lemma remove_char_absent [simp]: "c \<notin> set s \<Longrightarrow> remove_char c s = s"
  by (auto simp: remove_char_def intro: filter_True)

section \<open>Numbers\<close>

function dec :: "nat \<Rightarrow> string" where
  "dec n = (if n < 10 then [char_of (n + 48)] else dec (n div 10) @ [char_of (n mod 10 + 48)])"
  by pat_completeness auto
termination by (relation "measure id") auto

function hexlow :: "nat \<Rightarrow> string" where
  "hexlow n = (let d = (\<lambda>k. char_of (if k < 10 then k + 48 else k + 87)) in
     if n < 16 then [d n] else hexlow (n div 16) @ [d (n mod 16)])"
  by pat_completeness auto
termination by (relation "measure id") auto

declare dec.simps [simp del] hexlow.simps [simp del]

lemma dec_not_Nil [simp]: "dec n \<noteq> []"
  by (simp add: dec.simps [of n])

text \<open>Double quotes cannot stand in an inner string literal; this is the character.\<close>

definition dquote :: char where
  "dquote = CHR 0x22"

end
