(* ===== verification/Paths.thy ===== *)
theory Paths
  imports Text
begin

text \<open>
  Unix paths as \<open>std::path\<close> treats them: \<open>push\<close>/\<open>join\<close>, \<open>components\<close>, \<open>starts_with\<close>, \<open>parent\<close>,
  \<open>extension\<close>, and \<open>relative_path\<close> of \<open>src/src/toolchain/cargo_lock.rs\<close>. A path is the string of its
  bytes; two paths are equal when their components are.
\<close>

section \<open>Joining and components\<close>

abbreviation slash :: char where "slash \<equiv> CHR ''/''"

text \<open>An absolute right-hand side replaces the path, else one separator is put between the two.\<close>

definition path_join :: "string \<Rightarrow> string \<Rightarrow> string" where
  "path_join a b =
     (if starts_with [slash] b then b
      else if a = [] \<or> last a = slash then a @ b else a @ slash # b)"

datatype comp = RootDir | CurDir | ParentDir | Normal string

fun as_os_str :: "comp \<Rightarrow> string" where
  "as_os_str RootDir = [slash]"
| "as_os_str CurDir = ''.''"
| "as_os_str ParentDir = ''..''"
| "as_os_str (Normal s) = s"

text \<open>One piece between separators: empty pieces and \<open>.\<close> vanish.\<close>

definition piece :: "string \<Rightarrow> comp list" where
  "piece s = (if s = [] \<or> s = ''.'' then [] else if s = ''..'' then [ParentDir] else [Normal s])"

text \<open>A \<open>.\<close> counts only at the very front of a relative path.\<close>

definition components :: "string \<Rightarrow> comp list" where
  "components p =
     (let ps = split_on slash p in
      (if starts_with [slash] p then [RootDir] else if hd ps = ''.'' then [CurDir] else [])
      @ concat (map piece ps))"

fun list_prefix :: "'a list \<Rightarrow> 'a list \<Rightarrow> bool" where
  "list_prefix [] ys = True"
| "list_prefix (x # xs) [] = False"
| "list_prefix (x # xs) (y # ys) = (x = y \<and> list_prefix xs ys)"

definition path_starts_with :: "string \<Rightarrow> string \<Rightarrow> bool" where
  "path_starts_with p base = list_prefix (components base) (components p)"

definition path_eq :: "string \<Rightarrow> string \<Rightarrow> bool" where
  "path_eq p q = (components p = components q)"

lemma list_prefix_iff: "list_prefix xs ys \<longleftrightarrow> (\<exists>zs. ys = xs @ zs)"
  by (induction xs ys rule: list_prefix.induct) auto

section \<open>Parent and extension\<close>

text \<open>
  The length of what stands before the body (the root or a leading \<open>.\<close>), the last piece of the
  body with its separator, and the removal of empty and \<open>.\<close> pieces at the end.
\<close>

definition before_body :: "string \<Rightarrow> nat" where
  "before_body p = (if starts_with [slash] p \<or> hd (split_on slash p) = ''.'' then 1 else 0)"

definition last_piece :: "nat \<Rightarrow> string \<Rightarrow> nat \<times> string" where
  "last_piece start p =
     (let body = drop start p;
          name = rev (takeWhile (\<lambda>c. c \<noteq> slash) (rev body))
      in (length name + (if length name < length body then 1 else 0), name))"

lemma last_piece_pos: "start < length p \<Longrightarrow> 0 < fst (last_piece start p)"
  by (cases "drop start p" rule: rev_cases) (auto simp: last_piece_def Let_def)

function trim_right :: "nat \<Rightarrow> string \<Rightarrow> string" where
  "trim_right start p =
     (if start < length p \<and> (snd (last_piece start p) = [] \<or> snd (last_piece start p) = ''.'')
      then trim_right start (take (length p - fst (last_piece start p)) p) else p)"
  by pat_completeness auto
termination
proof (relation "measure (\<lambda>(_, p). length p)")
  show "((start, take (length p - fst (last_piece start p)) p), (start, p)) \<in> measure (\<lambda>(_, p). length p)"
    if "start < length p \<and> (snd (last_piece start p) = [] \<or> snd (last_piece start p) = ''.'')" for start p
    using that last_piece_pos [of start p] diff_less [of "fst (last_piece start p)" "length p"]
    by (simp add: length_greater_0_conv [symmetric] del: length_greater_0_conv)
qed simp

declare trim_right.simps [simp del]

definition path_parent :: "string \<Rightarrow> string option" where
  "path_parent p =
     (let start = before_body p; q = trim_right start p in
      if start < length q
      then Some (trim_right start (take (length q - fst (last_piece start q)) q))
      else if q = ''.'' then Some [] else None)"

text \<open>The extension of a file name; a name whose only dot is its first character has none.\<close>

definition extension :: "string \<Rightarrow> string option" where
  "extension name =
     (if name = ''..'' then None
      else (case rsplit_once CHR ''.'' name of
              None \<Rightarrow> None
            | Some (stem, ext) \<Rightarrow> if stem = [] then None else Some ext))"

section \<open>Relative paths\<close>

fun skip_common :: "comp list \<Rightarrow> comp list \<Rightarrow> comp list \<times> comp list" where
  "skip_common (f # fs) (t # ts) = (if f = t then skip_common fs ts else (f # fs, t # ts))"
| "skip_common fs ts = (fs, ts)"

definition relative_path :: "string \<Rightarrow> string \<Rightarrow> string" where
  "relative_path base dest =
     (let (fs, ts) = skip_common (components base) (components dest) in
      foldl path_join [] (map (\<lambda>_. ''..'') fs @ map as_os_str ts))"

text \<open>Walking a path from a directory, \<open>..\<close> dropping the last component.\<close>

fun walk :: "comp list \<Rightarrow> comp list \<Rightarrow> comp list" where
  "walk at [] = at"
| "walk at (RootDir # cs) = walk [RootDir] cs"
| "walk at (CurDir # cs) = walk at cs"
| "walk at (ParentDir # cs) = walk (butlast at) cs"
| "walk at (Normal s # cs) = walk (at @ [Normal s]) cs"

definition plain_piece :: "string \<Rightarrow> bool" where
  "plain_piece s = (s \<noteq> [] \<and> s \<noteq> ''.'' \<and> slash \<notin> set s)"

text \<open>A canonical absolute path: the root followed by plain names.\<close>

definition canonical :: "string \<Rightarrow> bool" where
  "canonical p = (\<exists>ns. components p = RootDir # map Normal ns)"

lemma skip_common_split:
  "skip_common fs ts = (a, b) \<Longrightarrow> \<exists>c. fs = c @ a \<and> ts = c @ b"
proof (induction fs ts arbitrary: a b rule: skip_common.induct)
  case (1 f fs t ts)
  show ?case
  proof (cases "f = t")
    case True
    then obtain c where "fs = c @ a \<and> ts = c @ b" using 1 by auto
    then show ?thesis using True by (intro exI [of _ "f # c"]) simp
  qed (use 1 in simp)
qed auto

lemma skip_common_diverges:
  "skip_common fs ts = (x # a, y # b) \<Longrightarrow> x \<noteq> y"
  by (induction fs ts rule: skip_common.induct) (auto split: if_splits)

lemma piece_Normal: "Normal s \<in> set (piece t) \<Longrightarrow> s = t \<and> t \<noteq> [] \<and> t \<noteq> ''.'' \<and> t \<noteq> ''..''"
  by (auto simp: piece_def split: if_splits)

lemma components_Normal:
  assumes "Normal s \<in> set (components p)"
  shows "plain_piece s \<and> s \<noteq> ''..''"
proof -
  obtain t where t: "t \<in> set (split_on slash p)" "Normal s \<in> set (piece t)"
    using assms by (auto simp: components_def Let_def split: if_splits)
  then show ?thesis using piece_Normal [OF t(2)] split_on_parts [OF t(1)] by (auto simp: plain_piece_def)
qed

text \<open>Joining plain pieces, and reading the components back.\<close>

lemma foldl_join:
  "\<forall>s \<in> set ss. plain_piece s \<Longrightarrow> p \<noteq> [] \<Longrightarrow> last p \<noteq> slash \<Longrightarrow>
     foldl path_join p ss = p @ concat (map (\<lambda>s. slash # s) ss)"
proof (induction ss arbitrary: p)
  case (Cons s ss)
  have s: "s \<noteq> []" "slash \<notin> set s" using Cons.prems(1) by (simp_all add: plain_piece_def)
  have j: "path_join p s = p @ slash # s"
    using s Cons.prems by (cases s) (auto simp: path_join_def starts_with_iff)
  have "last (p @ slash # s) \<noteq> slash" using s by (metis last_ConsR last_appendR last_in_set list.distinct(1))
  then show ?case using Cons.IH [of "p @ slash # s"] Cons.prems by (simp add: j)
qed simp

lemma split_on_pieces:
  "slash \<notin> set s \<Longrightarrow> \<forall>t \<in> set ss. plain_piece t \<Longrightarrow>
     split_on slash (s @ concat (map (\<lambda>s. slash # s) ss)) = s # ss"
proof (induction ss arbitrary: s)
  case (Cons t ss)
  then show ?case by (simp add: split_on_append plain_piece_def)
qed (simp add: split_on_absent)

lemma components_join:
  assumes "\<forall>s \<in> set ss. plain_piece s"
  shows "components (foldl path_join [] ss) = concat (map piece ss)"
proof (cases ss)
  case Nil
  then show ?thesis by (simp add: components_def piece_def starts_with_iff)
next
  case (Cons s rest)
  have s: "s \<noteq> []" "s \<noteq> ''.''" "slash \<notin> set s" using assms Cons by (simp_all add: plain_piece_def)
  then have "last s \<noteq> slash" using last_in_set by metis
  have "path_join [] s = s" by (simp add: path_join_def)
  then have j: "foldl path_join [] ss = s @ concat (map (\<lambda>s. slash # s) rest)"
    using foldl_join [of rest s] assms Cons s \<open>last s \<noteq> slash\<close> by simp
  have "\<not> starts_with [slash] (s @ concat (map (\<lambda>s. slash # s) rest))"
    using s by (cases s) (auto simp: starts_with_iff)
  then show ?thesis
    using split_on_pieces [of s rest] assms Cons s
    unfolding j components_def Let_def by (simp add: piece_def)
qed

lemma walk_append: "walk at (xs @ ys) = walk (walk at xs) ys"
  by (induction at xs rule: walk.induct) auto

lemma parents_replicate: "map (\<lambda>_. ParentDir) fs = replicate (length fs) ParentDir"
  by (induction fs) auto

lemma walk_parents: "walk at (replicate n ParentDir) = take (length at - n) at"
  by (induction n arbitrary: at) (auto simp: butlast_conv_take min_def)

lemma walk_up: "walk (at @ fs) (map (\<lambda>_. ParentDir) fs) = at"
  by (simp add: parents_replicate walk_parents)

lemma walk_down: "walk at (map Normal ns) = at @ map Normal ns"
  by (induction ns arbitrary: at) auto

text \<open>
  The relative path recorded for a path dependency leads back to it. Between two canonical
  absolute paths \<open>relative_path\<close> climbs exactly out of what they do not share and descends to the
  target: walked from the first directory, its components end at the second path; it is empty exactly
  when the two paths are the same, and no component of it is a root.
\<close>

lemma relative_path_resolves:
  assumes "canonical base" and "canonical dest"
  shows "walk (components base) (components (relative_path base dest)) = components dest
    \<and> (relative_path base dest = [] \<longleftrightarrow> components base = components dest)
    \<and> RootDir \<notin> set (components (relative_path base dest))"
proof -
  obtain ns ms where base: "components base = RootDir # map Normal ns"
    and dest: "components dest = RootDir # map Normal ms"
    using assms by (auto simp: canonical_def)
  obtain fs ts where sc: "skip_common (components base) (components dest) = (fs, ts)" by fastforce
  obtain c where c: "components base = c @ fs" "components dest = c @ ts"
    using skip_common_split [OF sc] by blast
  have "c \<noteq> []" using sc c by (auto simp: base dest dest: skip_common_diverges)
  then obtain c' where c': "c = RootDir # c'" using c(1) base by (cases c) auto
  have "set ts \<subseteq> set (map Normal ms)" using c(2) dest c' by auto
  then obtain ks where ks: "ts = map Normal ks"
    by (metis ex_map_conv imageE list.set_map subsetD)
  have plain: "\<forall>s \<in> set ks. plain_piece s \<and> s \<noteq> ''..''"
  proof
    fix s assume "s \<in> set ks"
    then have "Normal s \<in> set (components dest)" by (simp add: c(2) ks)
    then show "plain_piece s \<and> s \<noteq> ''..''" by (rule components_Normal)
  qed
  have dots: "plain_piece ''..''" by (simp add: plain_piece_def)
  have segs: "\<forall>s \<in> set (map (\<lambda>_. ''..'') fs @ ks). plain_piece s"
    using plain dots by (simp add: ball_Un)
  have rp: "relative_path base dest = foldl path_join [] (map (\<lambda>_. ''..'') fs @ ks)"
    by (simp add: relative_path_def sc) (simp add: ks o_def)
  have up: "concat (map piece (map (\<lambda>_. ''..'') fs)) = map (\<lambda>_. ParentDir) fs"
    by (induction fs) (simp_all add: piece_def)
  have down: "concat (map piece ks) = map Normal ks"
    using plain by (induction ks) (simp_all add: piece_def plain_piece_def)
  have comps: "components (relative_path base dest) = map (\<lambda>_. ParentDir) fs @ map Normal ks"
    unfolding rp components_join [OF segs] map_append concat_append up down by (rule refl)
  have "walk (components base) (components (relative_path base dest)) = components dest"
    unfolding comps walk_append c walk_up by (simp add: walk_down ks)
  moreover have "relative_path base dest = [] \<longleftrightarrow> fs = [] \<and> ks = []"
  proof
    assume "relative_path base dest = []"
    then have "components (relative_path base dest) = []" by (simp add: components_def piece_def starts_with_iff)
    then show "fs = [] \<and> ks = []" using comps by (cases fs) auto
  qed (simp add: rp)
  moreover have "components base = components dest \<longleftrightarrow> fs = [] \<and> ks = []"
  proof
    assume "components base = components dest"
    then have "fs = ts" using c by simp
    then show "fs = [] \<and> ks = []"
      using skip_common_diverges [of "components base" "components dest" "hd fs" "tl fs" "hd ts" "tl ts"] sc ks
      by (cases fs) auto
  qed (use c ks in simp)
  moreover have "RootDir \<notin> set (components (relative_path base dest))"
    unfolding comps by auto
  ultimately show ?thesis by simp
qed

lemma relative_path_resolves_witness:
  "walk [RootDir, Normal ''w'', Normal ''app''] (components (relative_path ''/w/app'' ''/w/dep/x''))
     = [RootDir, Normal ''w'', Normal ''dep'', Normal ''x'']
   \<and> relative_path ''/w/app'' ''/w/dep/x'' = ''../dep/x''"
proof -
  have f: "components ''/w/app'' = RootDir # map Normal [''w'', ''app'']"
    by (simp add: components_def piece_def starts_with_def)
  have t: "components ''/w/dep/x'' = RootDir # map Normal [''w'', ''dep'', ''x'']"
    by (simp add: components_def piece_def starts_with_def)
  have "relative_path ''/w/app'' ''/w/dep/x'' = ''../dep/x''"
    by (simp add: relative_path_def f t path_join_def starts_with_def)
  moreover have "canonical ''/w/app''" "canonical ''/w/dep/x''" using f t unfolding canonical_def by blast+
  ultimately show ?thesis
    using relative_path_resolves [of "''/w/app''" "''/w/dep/x''", THEN conjunct1] f t by simp
qed

end
