(* ===== verification/Json.thy ===== *)
theory Json
  imports Text
begin

text \<open>
  JSON values and the part of serde the code's derived \<open>Serialize\<close>/\<open>Deserialize\<close> instances
  use. An object is the list of its members in order; a derived struct reads each field by its
  (renamed) key, ignores unknown keys, refuses a key that occurs twice, takes a missing
  \<open>Option\<close> field as \<open>None\<close>, and also accepts an array of its fields in order. A struct variant
  of an untagged enum accepts an object only. The text layer of \<open>serde_json\<close> is a parameter
  (theory \<open>Externals\<close>).
\<close>

section \<open>Values\<close>

datatype number = PosInt u64 | NegInt u64 | Float u64

datatype json =
    JNull
  | JBool bool
  | JNum number
  | JStr string
  | JArr "json list"
  | JObj "(string \<times> json) list"

text \<open>
  What \<open>serde_json\<close> can write and read back: UTF-8 strings, distinct keys, integers, a \<open>NegInt\<close> being
  negative. A \<open>Float\<close> is not promised to be read back exactly without the feature \<open>float_roundtrip\<close>,
  which the crate does not ask for.
\<close>

definition number_wf :: "number \<Rightarrow> bool" where
  "number_wf n = (case n of
      PosInt w \<Rightarrow> True
    | NegInt w \<Rightarrow> sint w < 0
    | Float w \<Rightarrow> False)"

fun json_wf :: "json \<Rightarrow> bool" where
  "json_wf JNull = True"
| "json_wf (JBool b) = True"
| "json_wf (JNum n) = number_wf n"
| "json_wf (JStr s) = utf8_valid (as_bytes s)"
| "json_wf (JArr vs) = (\<forall>v \<in> set vs. json_wf v)"
| "json_wf (JObj kvs) =
     (distinct (map fst kvs) \<and> (\<forall>kv \<in> set kvs. utf8_valid (as_bytes (fst kv)) \<and> json_wf (snd kv)))"

text \<open>At most \<open>n\<close> arrays and objects within one another.\<close>

fun nests_within :: "nat \<Rightarrow> json \<Rightarrow> bool" where
  "nests_within n (JArr vs) = (0 < n \<and> (\<forall>v \<in> set vs. nests_within (n - 1) v))"
| "nests_within n (JObj kvs) = (0 < n \<and> (\<forall>kv \<in> set kvs. nests_within (n - 1) (snd kv)))"
| "nests_within n v = True"

section \<open>Reading structs\<close>

text \<open>The member with a key: absent, present once, or a duplicate (an error).\<close>

datatype member = Absent | Once json | Duplicate

definition member_of :: "string \<Rightarrow> (string \<times> json) list \<Rightarrow> member" where
  "member_of k kvs =
     (case filter (\<lambda>kv. fst kv = k) kvs of
        [] \<Rightarrow> Absent
      | [kv] \<Rightarrow> Once (snd kv)
      | _ \<Rightarrow> Duplicate)"

definition req_field :: "(json \<Rightarrow> 'a option) \<Rightarrow> string \<Rightarrow> (string \<times> json) list \<Rightarrow> 'a option" where
  "req_field of_j k kvs = (case member_of k kvs of Once v \<Rightarrow> of_j v | _ \<Rightarrow> None)"

definition opt_of :: "(json \<Rightarrow> 'a option) \<Rightarrow> json \<Rightarrow> 'a option option" where
  "opt_of of_j v = (if v = JNull then Some None else map_option Some (of_j v))"

definition opt_field :: "(json \<Rightarrow> 'a option) \<Rightarrow> string \<Rightarrow> (string \<times> json) list \<Rightarrow> 'a option option" where
  "opt_field of_j k kvs =
     (case member_of k kvs of Absent \<Rightarrow> Some None | Once v \<Rightarrow> opt_of of_j v | Duplicate \<Rightarrow> None)"

text \<open>
  A derived struct reads an object, or an array of exactly its fields. \<open>as_members\<close> turns the
  array into the members it stands for; a field absent from an array is an error even when it
  is an \<open>Option\<close>, which the length test gives.
\<close>

definition as_members :: "string list \<Rightarrow> json \<Rightarrow> (string \<times> json) list option" where
  "as_members keys v =
     (case v of
        JObj kvs \<Rightarrow> Some kvs
      | JArr vs \<Rightarrow> if length vs = length keys then Some (zip keys vs) else None
      | _ \<Rightarrow> None)"

definition as_object :: "json \<Rightarrow> (string \<times> json) list option" where
  "as_object v = (case v of JObj kvs \<Rightarrow> Some kvs | _ \<Rightarrow> None)"

definition str_to_j :: "string \<Rightarrow> json" where "str_to_j s = JStr s"

definition str_of_j :: "json \<Rightarrow> string option" where
  "str_of_j v = (case v of JStr s \<Rightarrow> Some s | _ \<Rightarrow> None)"

definition num_to_j :: "number \<Rightarrow> json" where "num_to_j n = JNum n"

definition num_of_j :: "json \<Rightarrow> number option" where
  "num_of_j v = (case v of JNum n \<Rightarrow> Some n | _ \<Rightarrow> None)"

definition vec_to_j :: "('a \<Rightarrow> json) \<Rightarrow> 'a list \<Rightarrow> json" where
  "vec_to_j to_j xs = JArr (map to_j xs)"

fun all_some :: "'a option list \<Rightarrow> 'a list option" where
  "all_some [] = Some []"
| "all_some (None # xs) = None"
| "all_some (Some x # xs) = map_option ((#) x) (all_some xs)"

definition vec_of_j :: "(json \<Rightarrow> 'a option) \<Rightarrow> json \<Rightarrow> 'a list option" where
  "vec_of_j of_j v = (case v of JArr vs \<Rightarrow> all_some (map of_j vs) | _ \<Rightarrow> None)"

text \<open>\<open>skip_serializing_if = "Option::is_none"\<close>, and an \<open>Option\<close> written without it.\<close>

definition skip_none :: "string \<Rightarrow> ('a \<Rightarrow> json) \<Rightarrow> 'a option \<Rightarrow> (string \<times> json) list" where
  "skip_none k to_j m = (case m of None \<Rightarrow> [] | Some x \<Rightarrow> [(k, to_j x)])"

definition opt_to_j :: "('a \<Rightarrow> json) \<Rightarrow> 'a option \<Rightarrow> json" where
  "opt_to_j to_j m = (case m of None \<Rightarrow> JNull | Some x \<Rightarrow> to_j x)"

section \<open>The interface of a serialisable type\<close>

locale serde_codec =
  fixes to_j :: "'a \<Rightarrow> json" and of_j :: "json \<Rightarrow> 'a option"
  assumes of_to: "of_j (to_j x) = Some x"
    and to_not_null: "to_j x \<noteq> JNull"
begin

lemma to_inject: "to_j x = to_j y \<longleftrightarrow> x = y"
  by (metis of_to option.inject)

lemma vec_roundtrip: "vec_of_j of_j (vec_to_j to_j xs) = Some xs"
  by (induction xs) (simp_all add: vec_of_j_def vec_to_j_def of_to)

lemma opt_roundtrip: "opt_of of_j (opt_to_j to_j m) = Some m"
  by (cases m) (simp_all add: opt_of_def opt_to_j_def of_to to_not_null)

lemma opt_some: "opt_of of_j (to_j x) = Some (Some x)"
  by (simp add: opt_of_def of_to to_not_null)

end

lemma vec_serde_codec:
  assumes "serde_codec t f"
  shows "serde_codec (vec_to_j t) (vec_of_j f)"
proof -
  from assms have "vec_of_j f (vec_to_j t xs) = Some xs" for xs
    by (rule serde_codec.vec_roundtrip)
  then show ?thesis by unfold_locales (auto simp: vec_to_j_def)
qed

interpretation str_serde: serde_codec str_to_j str_of_j
  by unfold_locales (simp_all add: str_to_j_def str_of_j_def)

interpretation num_serde: serde_codec num_to_j num_of_j
  by unfold_locales (simp_all add: num_to_j_def num_of_j_def)

text \<open>Looking a key up in a list of members built by a derived \<open>Serialize\<close>.\<close>

lemma member_of_Nil [simp]: "member_of k [] = Absent"
  by (simp add: member_of_def)

lemma member_of_distinct:
  "distinct (map fst kvs) \<Longrightarrow>
     member_of k kvs = (case map_of kvs k of None \<Rightarrow> Absent | Some v \<Rightarrow> Once v)"
proof (induction kvs)
  case (Cons kv kvs)
  have "filter (\<lambda>kv. fst kv = k) kvs = []" if "fst kv = k"
    using Cons.prems that by (intro filter_False) (auto simp: rev_image_eqI)
  then show ?case using Cons by (cases kv) (auto simp: member_of_def)
qed simp

lemma member_of_Cons_other [simp]: "k' \<noteq> k \<Longrightarrow> member_of k ((k', v) # kvs) = member_of k kvs"
  by (simp add: member_of_def)

lemma member_of_Cons_same: "member_of k kvs = Absent \<Longrightarrow> member_of k ((k, v) # kvs) = Once v"
  by (auto simp: member_of_def split: list.splits)

lemma member_of_skip_none_other [simp]:
  "k' \<noteq> k \<Longrightarrow> member_of k (skip_none k' t m @ kvs) = member_of k kvs"
  by (cases m) (simp_all add: skip_none_def)

lemma member_of_absent: "k \<notin> set (map fst kvs) \<Longrightarrow> member_of k kvs = Absent"
  by (force simp: member_of_def split: list.splits dest: filter_eq_ConsD)

end
