(* ===== verification/Externals.thy ===== *)
theory Externals
  imports Json
begin

text \<open>
  Code outside the repository, as a parameter of the model: the digests of \<open>sha2\<close>, the
  \<open>hex\<close> codec and the text layer of \<open>serde_json\<close> are the fields of a record \<open>lib\<close> that
  definitions take as an argument. What the code relies on is stated by \<open>digest_ok\<close>,
  \<open>hex_ok\<close> and \<open>json_ok\<close>. The second half builds a concrete \<open>lib\<close> with a real hexadecimal
  codec, a tag-length-value JSON text and toy digests, and proves the three hypotheses of it;
  theorems about the program never use it, only their instances at concrete inputs do.
\<close>

section \<open>The parameter\<close>

record lib =
  sha256 :: "bytes \<Rightarrow> bytes"
  sha384 :: "bytes \<Rightarrow> bytes"
  sha512 :: "bytes \<Rightarrow> bytes"
  hex_encode :: "bytes \<Rightarrow> string"
  hex_decode :: "string \<Rightarrow> string + bytes"
  json_pretty :: "json \<Rightarrow> string"
  json_compact :: "json \<Rightarrow> string"
  json_parse :: "bytes \<Rightarrow> json option"
  serde_msg :: "bytes \<Rightarrow> string"

text \<open>Digests have their fixed lengths.\<close>

definition digest_ok :: "lib \<Rightarrow> bool" where
  "digest_ok L = (\<forall>b. length (sha256 L b) = 32 \<and> length (sha384 L b) = 48 \<and> length (sha512 L b) = 64)"

text \<open>
  \<open>hex::encode\<close> writes two lower-case hexadecimal digits per byte, \<open>hex::decode\<close> reads digits of
  either case and nothing else.
\<close>

definition hex_ok :: "lib \<Rightarrow> bool" where
  "hex_ok L =
     ((\<forall>b. hex_decode L (hex_encode L b) = Inr b \<and> lower_text (hex_encode L b))
      \<and> (\<forall>s b. hex_decode L s = Inr b \<longrightarrow>
           length s = 2 * length b \<and> (\<forall>c \<in> set s. is_ascii_hexdigit c)
           \<and> eq_ignore_ascii_case s (hex_encode L b)))"

text \<open>A value \<open>serde_json\<close> can write, within its limit of 127 open containers, is read back from its
  pretty and its compact text.\<close>

definition json_ok :: "lib \<Rightarrow> bool" where
  "json_ok L = (\<forall>v. json_wf v \<and> nests_within 127 v \<longrightarrow>
     json_parse L (as_bytes (json_pretty L v)) = Some v \<and>
     json_parse L (as_bytes (json_compact L v)) = Some v)"

lemma digest_lengths:
  assumes "digest_ok L"
  shows "length (sha256 L b) = 32" "length (sha384 L b) = 48" "length (sha512 L b) = 64"
  using assms by (simp_all add: digest_ok_def)

lemma hex_roundtrip: "hex_ok L \<Longrightarrow> hex_decode L (hex_encode L b) = Inr b"
  by (simp add: hex_ok_def)

lemma hex_inject: "hex_ok L \<Longrightarrow> hex_encode L a = hex_encode L b \<longleftrightarrow> a = b"
  by (metis hex_roundtrip Inr_inject)

lemma hex_lower: "hex_ok L \<Longrightarrow> lower_text (hex_encode L b)"
  by (simp add: hex_ok_def)

lemma hex_eq_ignore: "hex_ok L \<Longrightarrow> eq_ignore_ascii_case (hex_encode L a) (hex_encode L b) \<longleftrightarrow> a = b"
  by (simp add: eq_ignore_lower hex_lower hex_inject)

lemma hex_decode_length: "hex_ok L \<Longrightarrow> hex_decode L s = Inr b \<Longrightarrow> length s = 2 * length b"
  by (simp add: hex_ok_def)

lemma hex_encode_length: "hex_ok L \<Longrightarrow> length (hex_encode L b) = 2 * length b"
  using hex_decode_length hex_roundtrip by blast

lemma hex_decode_no_dash:
  assumes "hex_ok L" and "hex_decode L s = Inr b"
  shows "CHR ''-'' \<notin> set s"
proof
  assume "CHR ''-'' \<in> set s"
  then have "is_ascii_hexdigit CHR ''-''" using assms by (simp add: hex_ok_def)
  then show False by (simp add: is_ascii_hexdigit_def)
qed

section \<open>A concrete instance\<close>

subsection \<open>Hexadecimal\<close>

definition hex_digit :: "nat \<Rightarrow> char" where
  "hex_digit n = char_of (if n < 10 then n + 48 else n + 87)"

definition digit_val :: "char \<Rightarrow> nat option" where
  "digit_val c =
     (let n = of_char c :: nat in
      if 48 \<le> n \<and> n \<le> 57 then Some (n - 48)
      else if 65 \<le> n \<and> n \<le> 70 then Some (n - 55)
      else if 97 \<le> n \<and> n \<le> 102 then Some (n - 87) else None)"

definition hex_of :: "bytes \<Rightarrow> string" where
  "hex_of b = concat (map (\<lambda>w. [hex_digit (unat w div 16), hex_digit (unat w mod 16)]) b)"

fun hex_to :: "string \<Rightarrow> bytes option" where
  "hex_to [] = Some []"
| "hex_to [c] = None"
| "hex_to (c # d # s) =
     (case (digit_val c, digit_val d, hex_to s) of
        (Some x, Some y, Some b) \<Rightarrow> Some (of_nat (16 * x + y) # b)
      | _ \<Rightarrow> None)"

lemma hex_digit_table:
  "list_all (\<lambda>n. digit_val (hex_digit n) = Some n \<and> to_ascii_lower (hex_digit n) = hex_digit n)
     [0, 1, 2, 3, 4, 5, 6, 7, 8, 9, 10, 11, 12, 13, 14, 15]"
  by (simp add: hex_digit_def digit_val_def to_ascii_lower_def)

lemma hex_digit_facts:
  assumes "n < 16"
  shows "digit_val (hex_digit n) = Some n" "to_ascii_lower (hex_digit n) = hex_digit n"
proof -
  have "n \<in> set [0, 1, 2, 3, 4, 5, 6, 7, 8, 9, 10, 11, 12, 13, 14, 15]" using assms by simp presburger
  then have "digit_val (hex_digit n) = Some n \<and> to_ascii_lower (hex_digit n) = hex_digit n"
    using hex_digit_table unfolding list_all_iff by blast
  then show "digit_val (hex_digit n) = Some n" "to_ascii_lower (hex_digit n) = hex_digit n" by blast+
qed

lemma digit_val_facts:
  assumes "digit_val c = Some x"
  shows "x < 16 \<and> is_ascii_hexdigit c \<and> hex_digit x = to_ascii_lower c"
  using assms
  by (auto simp: digit_val_def is_ascii_hexdigit_def hex_digit_def to_ascii_lower_def Let_def
      split: if_splits)

lemma unat8_div: "unat (w :: u8) div 16 < 16"
  using unsigned_less [of w, where 'a = nat] by simp

lemma hex_to_hex_of: "hex_to (hex_of b) = Some b"
proof (induction b)
  case (Cons w b)
  have "(of_nat (16 * (unat w div 16) + unat w mod 16) :: u8) = of_nat (unat w)"
    by (simp only: mult_div_mod_eq)
  then show ?case using Cons
    by (simp add: hex_of_def hex_digit_facts unat8_div del: of_nat_add of_nat_mult)
qed (simp add: hex_of_def)

lemma hex_of_lower: "lower_text (hex_of b)"
  by (auto simp: lower_text_def hex_of_def hex_digit_facts unat8_div)

lemma hex_to_facts:
  "hex_to s = Some b \<Longrightarrow> length s = 2 * length b \<and> (\<forall>c \<in> set s. is_ascii_hexdigit c)
     \<and> map to_ascii_lower s = hex_of b"
proof (induction s arbitrary: b rule: hex_to.induct)
  case (3 c d s)
  then obtain x y r where xy: "digit_val c = Some x" "digit_val d = Some y" "hex_to s = Some r"
      and b: "b = of_nat (16 * x + y) # r"
    by (auto split: option.splits)
  have lt: "x < 16" "y < 16" using xy digit_val_facts by blast+
  then have "unat (of_nat (16 * x + y) :: u8) = 16 * x + y"
    by (simp add: unat_of_nat8 del: of_nat_add of_nat_mult)
  then show ?case using 3 xy b lt digit_val_facts [OF xy(1)] digit_val_facts [OF xy(2)]
    by (simp add: hex_of_def del: of_nat_add of_nat_mult)
qed (auto simp: hex_of_def)

subsection \<open>A JSON text\<close>

definition tlv_str :: "string \<Rightarrow> string" where
  "tlv_str s = replicate (length s) CHR ''1'' @ CHR ''.'' # s"

definition tlv_num :: "number \<Rightarrow> string" where
  "tlv_num n = (case n of
      PosInt w \<Rightarrow> CHR ''p'' # str_of (u64_le w)
    | NegInt w \<Rightarrow> CHR ''m'' # str_of (u64_le w)
    | Float w \<Rightarrow> CHR ''r'' # str_of (u64_le w))"

fun tlv :: "json \<Rightarrow> string" where
  "tlv JNull = ''n''"
| "tlv (JBool b) = (if b then ''t'' else ''f'')"
| "tlv (JNum n) = tlv_num n"
| "tlv (JStr s) = CHR ''s'' # tlv_str s"
| "tlv (JArr vs) = CHR ''a'' # concat (map (\<lambda>v. CHR ''+'' # tlv v) vs) @ ''.''"
| "tlv (JObj kvs) = CHR ''o'' # concat (map (\<lambda>(k, v). CHR ''+'' # tlv_str k @ tlv v) kvs) @ ''.''"

fun untlv_str :: "nat \<Rightarrow> string \<Rightarrow> (string \<times> string) option" where
  "untlv_str k [] = None"
| "untlv_str k (c # s) =
     (if c = CHR ''1'' then untlv_str (Suc k) s
      else if c = CHR ''.'' \<and> k \<le> length s then Some (take k s, drop k s) else None)"

text \<open>The fuel bounds the nesting plus the number of members; the text's length is enough.\<close>

fun untlv :: "nat \<Rightarrow> string \<Rightarrow> (json \<times> string) option"
  and untlv_arr :: "nat \<Rightarrow> string \<Rightarrow> (json list \<times> string) option"
  and untlv_obj :: "nat \<Rightarrow> string \<Rightarrow> ((string \<times> json) list \<times> string) option" where
  "untlv 0 s = None"
| "untlv (Suc f) s =
    (case s of
       [] \<Rightarrow> None
     | c # r \<Rightarrow>
        if c = CHR ''n'' then Some (JNull, r)
        else if c = CHR ''t'' then Some (JBool True, r)
        else if c = CHR ''f'' then Some (JBool False, r)
        else if c = CHR ''p'' then Some (JNum (PosInt (le_u64 (as_bytes (take 8 r)))), drop 8 r)
        else if c = CHR ''m'' then Some (JNum (NegInt (le_u64 (as_bytes (take 8 r)))), drop 8 r)
        else if c = CHR ''r'' then Some (JNum (Float (le_u64 (as_bytes (take 8 r)))), drop 8 r)
        else if c = CHR ''s'' then map_option (\<lambda>(x, q). (JStr x, q)) (untlv_str 0 r)
        else if c = CHR ''a'' then map_option (\<lambda>(x, q). (JArr x, q)) (untlv_arr f r)
        else if c = CHR ''o'' then map_option (\<lambda>(x, q). (JObj x, q)) (untlv_obj f r)
        else None)"
| "untlv_arr 0 s = None"
| "untlv_arr (Suc f) s =
    (case s of
       [] \<Rightarrow> None
     | c # r \<Rightarrow>
        if c = CHR ''.'' then Some ([], r)
        else (case untlv f r of
            None \<Rightarrow> None
          | Some (v, q) \<Rightarrow> map_option (\<lambda>(vs, z). (v # vs, z)) (untlv_arr f q)))"
| "untlv_obj 0 s = None"
| "untlv_obj (Suc f) s =
    (case s of
       [] \<Rightarrow> None
     | c # r \<Rightarrow>
        if c = CHR ''.'' then Some ([], r)
        else (case untlv_str 0 r of
            None \<Rightarrow> None
          | Some (k, q) \<Rightarrow>
             (case untlv f q of
                None \<Rightarrow> None
              | Some (v, z) \<Rightarrow> map_option (\<lambda>(kvs, y). ((k, v) # kvs, y)) (untlv_obj f z))))"

definition tlv_parse :: "bytes \<Rightarrow> json option" where
  "tlv_parse b =
     (case untlv (Suc (length b)) (str_of b) of Some (v, []) \<Rightarrow> Some v | _ \<Rightarrow> None)"

lemma untlv_str_tlv: "untlv_str 0 (tlv_str s @ r) = Some (s, r)"
proof -
  have "untlv_str k (replicate n CHR ''1'' @ CHR ''.'' # s @ r) = Some (s, r)"
    if "k + n = length s" for k n
    using that by (induction n arbitrary: k) auto
  then show ?thesis by (simp add: tlv_str_def)
qed

lemma tlv_str_length: "0 < length (tlv_str s)"
  by (simp add: tlv_str_def)

lemma tlv_num_pos [simp]: "tlv_num n \<noteq> []"
  by (cases n) (simp_all add: tlv_num_def)

lemma untlv_num: "untlv (Suc f) (tlv_num n @ r) = Some (JNum n, r)"
  by (cases n) (simp_all add: tlv_num_def le64.dec_enc le64.enc_length)

lemma untlv_tlv: "length (tlv v) \<le> f \<Longrightarrow> untlv f (tlv v @ r) = Some (v, r)"
proof (induction v arbitrary: f r)
  case (JNum n)
  then show ?case by (cases f) (simp_all add: untlv_num tlv_num_pos del: untlv.simps(2))
next
  case (JArr vs)
  have arr: "untlv_arr g (concat (map (\<lambda>v. CHR ''+'' # tlv v) ws) @ CHR ''.'' # r) = Some (ws, r)"
    if "set ws \<subseteq> set vs" "length (concat (map (\<lambda>v. CHR ''+'' # tlv v) ws)) < g" for ws g
    using that
  proof (induction ws arbitrary: g)
    case Nil
    then show ?case by (cases g) auto
  next
    case (Cons w ws)
    then obtain h where "g = Suc h" by (cases g) auto
    then show ?case using Cons JArr.IH [of w h] by simp
  qed
  show ?case using arr [of vs] JArr.prems by (cases f) auto
next
  case (JObj kvs)
  have obj: "untlv_obj g (concat (map (\<lambda>(k, v). CHR ''+'' # tlv_str k @ tlv v) ws) @ CHR ''.'' # r)
      = Some (ws, r)"
    if "set ws \<subseteq> set kvs" "length (concat (map (\<lambda>(k, v). CHR ''+'' # tlv_str k @ tlv v) ws)) < g" for ws g
    using that
  proof (induction ws arbitrary: g)
    case Nil
    then show ?case by (cases g) auto
  next
    case (Cons w ws)
    obtain k v where w: "w = (k, v)" by fastforce
    obtain h where h: "g = Suc h" using Cons.prems by (cases g) auto
    have "untlv h (tlv v @ q) = Some (v, q)" for q
      using JObj.IH [of w v h q] Cons.prems w h by simp
    then show ?case using Cons w h tlv_str_length [of k] by (simp add: untlv_str_tlv)
  qed
  show ?case using obj [of kvs] JObj.prems by (cases f) auto
next
  case (JStr s)
  then show ?case by (cases f) (auto simp: untlv_str_tlv)
qed (case_tac [!] f, auto split: if_splits)

lemma tlv_roundtrip: "tlv_parse (as_bytes (tlv v)) = Some v"
  using untlv_tlv [of v "Suc (length (tlv v))" "[]"] by (simp add: tlv_parse_def del: untlv.simps)

subsection \<open>The instance\<close>

text \<open>
  The digests of the instance keep the last bytes of their input; they are no hash functions,
  but short enough to evaluate and different on the inputs the instances use.
\<close>

definition toy_digest :: "nat \<Rightarrow> bytes \<Rightarrow> bytes" where
  "toy_digest n b = pad_to n (rev b)"

definition sample_lib :: lib where
  "sample_lib = \<lparr>
     sha256 = toy_digest 32, sha384 = toy_digest 48, sha512 = toy_digest 64,
     hex_encode = hex_of,
     hex_decode = (\<lambda>s. case hex_to s of None \<Rightarrow> Inl ''Invalid string'' | Some b \<Rightarrow> Inr b),
     json_pretty = tlv, json_compact = tlv, json_parse = tlv_parse,
     serde_msg = (\<lambda>b. ''invalid JSON'') \<rparr>"

lemma sample_lib_simps [simp]:
  "sha256 sample_lib = toy_digest 32" "sha384 sample_lib = toy_digest 48"
  "sha512 sample_lib = toy_digest 64" "hex_encode sample_lib = hex_of"
  "hex_decode sample_lib s = (case hex_to s of None \<Rightarrow> Inl ''Invalid string'' | Some b \<Rightarrow> Inr b)"
  "json_pretty sample_lib = tlv" "json_compact sample_lib = tlv" "json_parse sample_lib = tlv_parse"
  "serde_msg sample_lib b = ''invalid JSON''"
  by (simp_all add: sample_lib_def)

lemma sample_digest_ok: "digest_ok sample_lib"
  by (simp add: digest_ok_def toy_digest_def)

lemma sample_hex_ok: "hex_ok sample_lib"
proof -
  have "map to_ascii_lower (hex_of b) = hex_of b" for b
    using hex_of_lower [of b] by (simp add: lower_text_def map_idI)
  then show ?thesis
    by (auto simp: hex_ok_def hex_to_hex_of hex_of_lower eq_ignore_ascii_case_def
        dest: hex_to_facts split: option.splits)
qed

lemma sample_json_ok: "json_ok sample_lib"
  by (simp add: json_ok_def tlv_roundtrip)

end
