(* ===== verification/Provenance.thy ===== *)
theory Provenance
  imports Externals "HOL-Library.Monad_Syntax"
begin

text \<open>
  The provenance statement of \<open>src/src/provenance.rs\<close>: its data with the derived JSON
  encoding, \<open>checksum\<close>, \<open>verify_predicate\<close>, \<open>check_artifact\<close> and \<open>verify_artifacts\<close>. A
  directory entry is its name and what reading the file gives.
\<close>

section \<open>Verdicts\<close>

datatype verification = Success string | Failure string string

definition is_success :: "verification \<Rightarrow> bool" where
  "is_success v = (case v of Success _ \<Rightarrow> True | Failure _ _ \<Rightarrow> False)"

lemma is_success_simps [simp]: "is_success (Success m)" "\<not> is_success (Failure m d)"
  by (simp_all add: is_success_def)

text \<open>
  \<open>{:?}\<close> of a string: quoted, with the escapes of \<open>str::escape_debug\<close>; characters outside
  ASCII are taken to be printable.
\<close>

definition debug_char :: "char \<Rightarrow> string" where
  "debug_char c =
     (let n = of_char c :: nat in
      if n = 0 then [CHR 0x5C, CHR ''0'']
      else if n = 9 then [CHR 0x5C, CHR ''t'']
      else if n = 10 then [CHR 0x5C, CHR ''n'']
      else if n = 13 then [CHR 0x5C, CHR ''r'']
      else if n = 34 \<or> n = 92 then [CHR 0x5C, c]
      else if n < 32 \<or> n = 127 then [CHR 0x5C, CHR ''u'', CHR ''{''] @ hexlow n @ ''}''
      else [c])"

definition debug_str :: "string \<Rightarrow> string" where
  "debug_str s = dquote # concat (map debug_char s) @ [dquote]"

abbreviation nl :: string where "nl \<equiv> [CHR 0x0A]"

section \<open>Data\<close>

datatype digest = Sha256 string | Sha512 string | GitCommit string

fun digest_text :: "digest \<Rightarrow> string" where
  "digest_text (Sha256 s) = s"
| "digest_text (Sha512 s) = s"
| "digest_text (GitCommit s) = s"

record subject =
  sub_digest :: digest
  sub_name :: string

record toolchain_version =
  tv_digest :: digest
  tv_version :: string

text \<open>The fields in the order of the source: nix, kettle; cargo, rustc, kettle; pnpm, node, kettle.\<close>

datatype toolchain =
    NixToolchain toolchain_version toolchain_version
  | RustToolchain toolchain_version toolchain_version toolchain_version
  | PnpmToolchain toolchain_version toolchain_version toolchain_version

record annotation =
  an_drv_path :: string
  an_output_hash_mode :: "string option"
  an_url :: "string option"
  an_urls :: "string option"

record resolved_dependency =
  rd_annotations :: "annotation option"
  rd_digest :: digest
  rd_name :: string
  rd_uri :: string

record source_digest =
  sd_git_commit :: string
  sd_git_tree :: string

record source =
  src_digest :: source_digest
  src_uri :: string

record external_parameters =
  ep_build_command :: string
  ep_source :: source

record evaluation =
  ev_derivation_count :: number
  ev_fetch_count :: number

record flake_input =
  fi_name :: string
  fi_nar_hash :: string

record internal_parameters =
  ip_evaluation :: "evaluation option"
  ip_flake_inputs :: "flake_input list option"
  ip_lockfile_hash :: digest
  ip_toolchain :: toolchain

record build_definition =
  bd_build_type :: string
  bd_external_parameters :: external_parameters
  bd_internal_parameters :: internal_parameters
  bd_resolved_dependencies :: "resolved_dependency list"

record builder_id =
  bi_id :: string

record byproduct =
  by_digest :: digest
  by_name :: string

record metadata =
  md_invocation_id :: string
  md_started_on :: string
  md_finished_on :: "string option"

record run_details =
  rn_builder :: builder_id
  rn_byproducts :: "byproduct list"
  rn_metadata :: metadata

record predicate =
  pr_build_definition :: build_definition
  pr_run_details :: run_details

record provenance =
  pv_type :: string
  pv_predicate :: predicate
  pv_predicate_type :: string
  pv_subject :: "subject list"

definition toolchain_display :: "toolchain \<Rightarrow> string" where
  "toolchain_display t = (case t of
      NixToolchain nix kettle \<Rightarrow> tv_version nix
    | RustToolchain cargo rustc kettle \<Rightarrow> tv_version rustc
    | PnpmToolchain pnpm node kettle \<Rightarrow> tv_version pnpm)"

section \<open>The derived encoding\<close>

definition digest_to_j :: "digest \<Rightarrow> json" where
  "digest_to_j d = (case d of
      Sha256 s \<Rightarrow> JObj [(''sha256'', JStr s)]
    | Sha512 s \<Rightarrow> JObj [(''sha512'', JStr s)]
    | GitCommit s \<Rightarrow> JObj [(''gitCommit'', JStr s)])"

text \<open>Untagged: the variants are tried in order, the first that reads is the result.\<close>

definition digest_of_j :: "json \<Rightarrow> digest option" where
  "digest_of_j v =
     (case as_object v of
        None \<Rightarrow> None
      | Some m \<Rightarrow>
         (case req_field str_of_j ''sha256'' m of
            Some s \<Rightarrow> Some (Sha256 s)
          | None \<Rightarrow>
             (case req_field str_of_j ''sha512'' m of
                Some s \<Rightarrow> Some (Sha512 s)
              | None \<Rightarrow> map_option GitCommit (req_field str_of_j ''gitCommit'' m))))"

definition subject_to_j :: "subject \<Rightarrow> json" where
  "subject_to_j s = JObj [(''digest'', digest_to_j (sub_digest s)), (''name'', JStr (sub_name s))]"

definition subject_of_j :: "json \<Rightarrow> subject option" where
  "subject_of_j v = do {
     m \<leftarrow> as_members [''digest'', ''name''] v;
     d \<leftarrow> req_field digest_of_j ''digest'' m;
     n \<leftarrow> req_field str_of_j ''name'' m;
     Some \<lparr>sub_digest = d, sub_name = n\<rparr> }"

definition tv_to_j :: "toolchain_version \<Rightarrow> json" where
  "tv_to_j t = JObj [(''digest'', digest_to_j (tv_digest t)), (''version'', JStr (tv_version t))]"

definition tv_of_j :: "json \<Rightarrow> toolchain_version option" where
  "tv_of_j v = do {
     m \<leftarrow> as_members [''digest'', ''version''] v;
     d \<leftarrow> req_field digest_of_j ''digest'' m;
     s \<leftarrow> req_field str_of_j ''version'' m;
     Some \<lparr>tv_digest = d, tv_version = s\<rparr> }"

definition toolchain_to_j :: "toolchain \<Rightarrow> json" where
  "toolchain_to_j t = (case t of
      NixToolchain nix kettle \<Rightarrow> JObj [(''nix'', tv_to_j nix), (''kettle'', tv_to_j kettle)]
    | RustToolchain cargo rustc kettle \<Rightarrow>
        JObj [(''cargo'', tv_to_j cargo), (''rustc'', tv_to_j rustc), (''kettle'', tv_to_j kettle)]
    | PnpmToolchain pnpm node kettle \<Rightarrow>
        JObj [(''pnpm'', tv_to_j pnpm), (''node'', tv_to_j node), (''kettle'', tv_to_j kettle)])"

definition nix_of_members :: "(string \<times> json) list \<Rightarrow> toolchain option" where
  "nix_of_members m = do {
     nix \<leftarrow> req_field tv_of_j ''nix'' m;
     kettle \<leftarrow> req_field tv_of_j ''kettle'' m;
     Some (NixToolchain nix kettle) }"

definition rust_of_members :: "(string \<times> json) list \<Rightarrow> toolchain option" where
  "rust_of_members m = do {
     cargo \<leftarrow> req_field tv_of_j ''cargo'' m;
     rustc \<leftarrow> req_field tv_of_j ''rustc'' m;
     kettle \<leftarrow> req_field tv_of_j ''kettle'' m;
     Some (RustToolchain cargo rustc kettle) }"

definition pnpm_of_members :: "(string \<times> json) list \<Rightarrow> toolchain option" where
  "pnpm_of_members m = do {
     pnpm \<leftarrow> req_field tv_of_j ''pnpm'' m;
     node \<leftarrow> req_field tv_of_j ''node'' m;
     kettle \<leftarrow> req_field tv_of_j ''kettle'' m;
     Some (PnpmToolchain pnpm node kettle) }"

definition toolchain_of_j :: "json \<Rightarrow> toolchain option" where
  "toolchain_of_j v =
     (case as_object v of
        None \<Rightarrow> None
      | Some m \<Rightarrow>
         (case nix_of_members m of
            Some t \<Rightarrow> Some t
          | None \<Rightarrow>
             (case rust_of_members m of Some t \<Rightarrow> Some t | None \<Rightarrow> pnpm_of_members m)))"

definition annotation_to_j :: "annotation \<Rightarrow> json" where
  "annotation_to_j a = JObj ((''drvPath'', JStr (an_drv_path a))
     # skip_none ''outputHashMode'' str_to_j (an_output_hash_mode a)
     @ skip_none ''url'' str_to_j (an_url a)
     @ skip_none ''urls'' str_to_j (an_urls a))"

definition annotation_of_j :: "json \<Rightarrow> annotation option" where
  "annotation_of_j v = do {
     m \<leftarrow> as_members [''drvPath'', ''outputHashMode'', ''url'', ''urls''] v;
     d \<leftarrow> req_field str_of_j ''drvPath'' m;
     h \<leftarrow> opt_field str_of_j ''outputHashMode'' m;
     u \<leftarrow> opt_field str_of_j ''url'' m;
     us \<leftarrow> opt_field str_of_j ''urls'' m;
     Some \<lparr>an_drv_path = d, an_output_hash_mode = h, an_url = u, an_urls = us\<rparr> }"

definition dependency_to_j :: "resolved_dependency \<Rightarrow> json" where
  "dependency_to_j r = JObj (skip_none ''annotations'' annotation_to_j (rd_annotations r)
     @ [(''digest'', digest_to_j (rd_digest r)), (''name'', JStr (rd_name r)), (''uri'', JStr (rd_uri r))])"

definition dependency_of_j :: "json \<Rightarrow> resolved_dependency option" where
  "dependency_of_j v = do {
     m \<leftarrow> as_members [''annotations'', ''digest'', ''name'', ''uri''] v;
     a \<leftarrow> opt_field annotation_of_j ''annotations'' m;
     d \<leftarrow> req_field digest_of_j ''digest'' m;
     n \<leftarrow> req_field str_of_j ''name'' m;
     u \<leftarrow> req_field str_of_j ''uri'' m;
     Some \<lparr>rd_annotations = a, rd_digest = d, rd_name = n, rd_uri = u\<rparr> }"

definition external_to_j :: "external_parameters \<Rightarrow> json" where
  "external_to_j e = JObj
     [(''buildCommand'', JStr (ep_build_command e)),
      (''source'', JObj
        [(''digest'', JObj
           [(''gitCommit'', JStr (sd_git_commit (src_digest (ep_source e)))),
            (''gitTree'', JStr (sd_git_tree (src_digest (ep_source e))))]),
         (''uri'', JStr (src_uri (ep_source e)))])]"

definition source_digest_of_j :: "json \<Rightarrow> source_digest option" where
  "source_digest_of_j v = do {
     m \<leftarrow> as_members [''gitCommit'', ''gitTree''] v;
     c \<leftarrow> req_field str_of_j ''gitCommit'' m;
     t \<leftarrow> req_field str_of_j ''gitTree'' m;
     Some \<lparr>sd_git_commit = c, sd_git_tree = t\<rparr> }"

definition source_of_j :: "json \<Rightarrow> source option" where
  "source_of_j v = do {
     m \<leftarrow> as_members [''digest'', ''uri''] v;
     d \<leftarrow> req_field source_digest_of_j ''digest'' m;
     u \<leftarrow> req_field str_of_j ''uri'' m;
     Some \<lparr>src_digest = d, src_uri = u\<rparr> }"

definition external_of_j :: "json \<Rightarrow> external_parameters option" where
  "external_of_j v = do {
     m \<leftarrow> as_members [''buildCommand'', ''source''] v;
     c \<leftarrow> req_field str_of_j ''buildCommand'' m;
     s \<leftarrow> req_field source_of_j ''source'' m;
     Some \<lparr>ep_build_command = c, ep_source = s\<rparr> }"

definition evaluation_to_j :: "evaluation \<Rightarrow> json" where
  "evaluation_to_j e = JObj
     [(''derivationCount'', JNum (ev_derivation_count e)), (''fetchCount'', JNum (ev_fetch_count e))]"

definition evaluation_of_j :: "json \<Rightarrow> evaluation option" where
  "evaluation_of_j v = do {
     m \<leftarrow> as_members [''derivationCount'', ''fetchCount''] v;
     d \<leftarrow> req_field num_of_j ''derivationCount'' m;
     f \<leftarrow> req_field num_of_j ''fetchCount'' m;
     Some \<lparr>ev_derivation_count = d, ev_fetch_count = f\<rparr> }"

definition flake_input_to_j :: "flake_input \<Rightarrow> json" where
  "flake_input_to_j f = JObj [(''name'', JStr (fi_name f)), (''narHash'', JStr (fi_nar_hash f))]"

definition flake_input_of_j :: "json \<Rightarrow> flake_input option" where
  "flake_input_of_j v = do {
     m \<leftarrow> as_members [''name'', ''narHash''] v;
     n \<leftarrow> req_field str_of_j ''name'' m;
     h \<leftarrow> req_field str_of_j ''narHash'' m;
     Some \<lparr>fi_name = n, fi_nar_hash = h\<rparr> }"

definition internal_to_j :: "internal_parameters \<Rightarrow> json" where
  "internal_to_j i = JObj (skip_none ''evaluation'' evaluation_to_j (ip_evaluation i)
     @ skip_none ''flakeInputs'' (vec_to_j flake_input_to_j) (ip_flake_inputs i)
     @ [(''lockfileHash'', digest_to_j (ip_lockfile_hash i)),
        (''toolchain'', toolchain_to_j (ip_toolchain i))])"

definition internal_of_j :: "json \<Rightarrow> internal_parameters option" where
  "internal_of_j v = do {
     m \<leftarrow> as_members [''evaluation'', ''flakeInputs'', ''lockfileHash'', ''toolchain''] v;
     e \<leftarrow> opt_field evaluation_of_j ''evaluation'' m;
     f \<leftarrow> opt_field (vec_of_j flake_input_of_j) ''flakeInputs'' m;
     l \<leftarrow> req_field digest_of_j ''lockfileHash'' m;
     t \<leftarrow> req_field toolchain_of_j ''toolchain'' m;
     Some \<lparr>ip_evaluation = e, ip_flake_inputs = f, ip_lockfile_hash = l, ip_toolchain = t\<rparr> }"

definition build_definition_to_j :: "build_definition \<Rightarrow> json" where
  "build_definition_to_j b = JObj
     [(''buildType'', JStr (bd_build_type b)),
      (''externalParameters'', external_to_j (bd_external_parameters b)),
      (''internalParameters'', internal_to_j (bd_internal_parameters b)),
      (''resolvedDependencies'', vec_to_j dependency_to_j (bd_resolved_dependencies b))]"

definition build_definition_of_j :: "json \<Rightarrow> build_definition option" where
  "build_definition_of_j v = do {
     m \<leftarrow> as_members [''buildType'', ''externalParameters'', ''internalParameters'', ''resolvedDependencies''] v;
     b \<leftarrow> req_field str_of_j ''buildType'' m;
     e \<leftarrow> req_field external_of_j ''externalParameters'' m;
     i \<leftarrow> req_field internal_of_j ''internalParameters'' m;
     r \<leftarrow> req_field (vec_of_j dependency_of_j) ''resolvedDependencies'' m;
     Some \<lparr>bd_build_type = b, bd_external_parameters = e, bd_internal_parameters = i,
           bd_resolved_dependencies = r\<rparr> }"

definition byproduct_to_j :: "byproduct \<Rightarrow> json" where
  "byproduct_to_j b = JObj [(''digest'', digest_to_j (by_digest b)), (''name'', JStr (by_name b))]"

definition byproduct_of_j :: "json \<Rightarrow> byproduct option" where
  "byproduct_of_j v = do {
     m \<leftarrow> as_members [''digest'', ''name''] v;
     d \<leftarrow> req_field digest_of_j ''digest'' m;
     n \<leftarrow> req_field str_of_j ''name'' m;
     Some \<lparr>by_digest = d, by_name = n\<rparr> }"

text \<open>\<open>finished_on\<close> is written as \<open>null\<close> when it is \<open>None\<close>.\<close>

definition metadata_to_j :: "metadata \<Rightarrow> json" where
  "metadata_to_j m = JObj
     [(''invocationId'', JStr (md_invocation_id m)), (''startedOn'', JStr (md_started_on m)),
      (''finishedOn'', opt_to_j str_to_j (md_finished_on m))]"

definition metadata_of_j :: "json \<Rightarrow> metadata option" where
  "metadata_of_j v = do {
     m \<leftarrow> as_members [''invocationId'', ''startedOn'', ''finishedOn''] v;
     i \<leftarrow> req_field str_of_j ''invocationId'' m;
     s \<leftarrow> req_field str_of_j ''startedOn'' m;
     f \<leftarrow> opt_field str_of_j ''finishedOn'' m;
     Some \<lparr>md_invocation_id = i, md_started_on = s, md_finished_on = f\<rparr> }"

definition builder_id_of_j :: "json \<Rightarrow> builder_id option" where
  "builder_id_of_j v = do {
     m \<leftarrow> as_members [''id''] v;
     i \<leftarrow> req_field str_of_j ''id'' m;
     Some \<lparr>bi_id = i\<rparr> }"

definition run_details_to_j :: "run_details \<Rightarrow> json" where
  "run_details_to_j r = JObj
     [(''builder'', JObj [(''id'', JStr (bi_id (rn_builder r)))]),
      (''byproducts'', vec_to_j byproduct_to_j (rn_byproducts r)),
      (''metadata'', metadata_to_j (rn_metadata r))]"

definition run_details_of_j :: "json \<Rightarrow> run_details option" where
  "run_details_of_j v = do {
     m \<leftarrow> as_members [''builder'', ''byproducts'', ''metadata''] v;
     b \<leftarrow> req_field builder_id_of_j ''builder'' m;
     y \<leftarrow> req_field (vec_of_j byproduct_of_j) ''byproducts'' m;
     d \<leftarrow> req_field metadata_of_j ''metadata'' m;
     Some \<lparr>rn_builder = b, rn_byproducts = y, rn_metadata = d\<rparr> }"

definition predicate_to_j :: "predicate \<Rightarrow> json" where
  "predicate_to_j p = JObj
     [(''buildDefinition'', build_definition_to_j (pr_build_definition p)),
      (''runDetails'', run_details_to_j (pr_run_details p))]"

definition predicate_of_j :: "json \<Rightarrow> predicate option" where
  "predicate_of_j v = do {
     m \<leftarrow> as_members [''buildDefinition'', ''runDetails''] v;
     b \<leftarrow> req_field build_definition_of_j ''buildDefinition'' m;
     r \<leftarrow> req_field run_details_of_j ''runDetails'' m;
     Some \<lparr>pr_build_definition = b, pr_run_details = r\<rparr> }"

definition provenance_to_j :: "provenance \<Rightarrow> json" where
  "provenance_to_j p = JObj
     [(''_type'', JStr (pv_type p)),
      (''predicate'', predicate_to_j (pv_predicate p)),
      (''predicateType'', JStr (pv_predicate_type p)),
      (''subject'', vec_to_j subject_to_j (pv_subject p))]"

definition provenance_of_j :: "json \<Rightarrow> provenance option" where
  "provenance_of_j v = do {
     m \<leftarrow> as_members [''_type'', ''predicate'', ''predicateType'', ''subject''] v;
     t \<leftarrow> req_field str_of_j ''_type'' m;
     p \<leftarrow> req_field predicate_of_j ''predicate'' m;
     y \<leftarrow> req_field str_of_j ''predicateType'' m;
     s \<leftarrow> req_field (vec_of_j subject_of_j) ''subject'' m;
     Some \<lparr>pv_type = t, pv_predicate = p, pv_predicate_type = y, pv_subject = s\<rparr> }"

section \<open>The encoding is read back\<close>

lemmas serde_defs = as_members_def as_object_def req_field_def opt_field_def member_of_def skip_none_def
  str_of_j_def num_of_j_def

interpretation digest_serde: serde_codec digest_to_j digest_of_j
proof unfold_locales
  show "digest_of_j (digest_to_j d) = Some d" for d
    by (cases d) (simp_all add: digest_to_j_def digest_of_j_def serde_defs)
qed (simp add: digest_to_j_def split: digest.splits)

lemma vec_of_map [simp]:
  "serde_codec t f \<Longrightarrow> vec_of_j f (vec_to_j t xs) = Some xs"
  by (rule serde_codec.vec_roundtrip)

interpretation subject_serde: serde_codec subject_to_j subject_of_j
  by unfold_locales (simp_all add: subject_to_j_def subject_of_j_def serde_defs digest_serde.of_to)

interpretation tv_serde: serde_codec tv_to_j tv_of_j
  by unfold_locales (simp_all add: tv_to_j_def tv_of_j_def serde_defs digest_serde.of_to)

interpretation toolchain_serde: serde_codec toolchain_to_j toolchain_of_j
proof unfold_locales
  show "toolchain_of_j (toolchain_to_j t) = Some t" for t
    by (cases t) (simp_all add: toolchain_to_j_def toolchain_of_j_def nix_of_members_def
        rust_of_members_def pnpm_of_members_def serde_defs tv_serde.of_to)
qed (simp add: toolchain_to_j_def split: toolchain.splits)

interpretation annotation_serde: serde_codec annotation_to_j annotation_of_j
proof unfold_locales
  show "annotation_of_j (annotation_to_j a) = Some a" for a
    by (cases "an_output_hash_mode a"; cases "an_url a"; cases "an_urls a")
      (simp_all add: annotation_to_j_def annotation_of_j_def serde_defs str_to_j_def opt_of_def)
qed (simp add: annotation_to_j_def)

interpretation dependency_serde: serde_codec dependency_to_j dependency_of_j
proof unfold_locales
  show "dependency_of_j (dependency_to_j r) = Some r" for r
    by (cases "rd_annotations r")
      (simp_all add: dependency_to_j_def dependency_of_j_def serde_defs digest_serde.of_to
        annotation_serde.opt_some)
qed (simp add: dependency_to_j_def)

interpretation external_serde: serde_codec external_to_j external_of_j
  by unfold_locales (simp_all add: external_to_j_def external_of_j_def source_of_j_def
      source_digest_of_j_def serde_defs)

interpretation evaluation_serde: serde_codec evaluation_to_j evaluation_of_j
  by unfold_locales (simp_all add: evaluation_to_j_def evaluation_of_j_def serde_defs)

interpretation flake_input_serde: serde_codec flake_input_to_j flake_input_of_j
  by unfold_locales (simp_all add: flake_input_to_j_def flake_input_of_j_def serde_defs)

interpretation flake_inputs_serde: serde_codec "vec_to_j flake_input_to_j" "vec_of_j flake_input_of_j"
  by (rule vec_serde_codec) (rule flake_input_serde.serde_codec_axioms)

interpretation internal_serde: serde_codec internal_to_j internal_of_j
proof unfold_locales
  show "internal_of_j (internal_to_j i) = Some i" for i
    by (cases "ip_evaluation i"; cases "ip_flake_inputs i")
      (simp_all add: internal_to_j_def internal_of_j_def serde_defs digest_serde.of_to
        toolchain_serde.of_to evaluation_serde.opt_some flake_inputs_serde.opt_some)
qed (simp add: internal_to_j_def)

interpretation build_definition_serde: serde_codec build_definition_to_j build_definition_of_j
  by unfold_locales
    (simp_all add: build_definition_to_j_def build_definition_of_j_def serde_defs external_serde.of_to
      internal_serde.of_to dependency_serde.vec_roundtrip)

interpretation byproduct_serde: serde_codec byproduct_to_j byproduct_of_j
  by unfold_locales (simp_all add: byproduct_to_j_def byproduct_of_j_def serde_defs digest_serde.of_to)

interpretation metadata_serde: serde_codec metadata_to_j metadata_of_j
  by unfold_locales (simp_all add: metadata_to_j_def metadata_of_j_def serde_defs opt_to_j_def
      opt_of_def str_to_j_def split: option.splits)

interpretation run_details_serde: serde_codec run_details_to_j run_details_of_j
  by unfold_locales
    (simp_all add: run_details_to_j_def run_details_of_j_def builder_id_of_j_def serde_defs
      byproduct_serde.vec_roundtrip metadata_serde.of_to)

interpretation predicate_serde: serde_codec predicate_to_j predicate_of_j
  by unfold_locales
    (simp_all add: predicate_to_j_def predicate_of_j_def serde_defs build_definition_serde.of_to
      run_details_serde.of_to)

interpretation provenance_serde: serde_codec provenance_to_j provenance_of_j
  by unfold_locales
    (simp_all add: provenance_to_j_def provenance_of_j_def serde_defs predicate_serde.of_to
      subject_serde.vec_roundtrip)

section \<open>Operations\<close>

definition from_json :: "lib \<Rightarrow> bytes \<Rightarrow> provenance res" where
  "from_json L b = need (Fail (serde_msg L b)) (Option.bind (json_parse L b) provenance_of_j)"

definition to_json :: "lib \<Rightarrow> provenance \<Rightarrow> string" where
  "to_json L p = json_pretty L (provenance_to_j p)"

definition checksum :: "lib \<Rightarrow> provenance \<Rightarrow> bytes" where
  "checksum L p = sha256 L (as_bytes (to_json L p))"

definition toolchain_ref :: "provenance \<Rightarrow> toolchain" where
  "toolchain_ref p = ip_toolchain (bd_internal_parameters (pr_build_definition (pv_predicate p)))"

definition build_id :: "provenance \<Rightarrow> string" where
  "build_id p = md_invocation_id (rn_metadata (pr_run_details (pv_predicate p)))"

definition timestamp :: "provenance \<Rightarrow> string" where
  "timestamp p = md_started_on (rn_metadata (pr_run_details (pv_predicate p)))"

definition git_commit_ref :: "provenance \<Rightarrow> string" where
  "git_commit_ref p =
     sd_git_commit (src_digest (ep_source (bd_external_parameters (pr_build_definition (pv_predicate p)))))"

definition statement_type :: string where
  "statement_type = ''https://in-toto.io/Statement/v1''"

definition slsa_predicate_type :: string where
  "slsa_predicate_type = ''https://slsa.dev/provenance/v1''"

definition verify_predicate :: "provenance \<Rightarrow> verification" where
  "verify_predicate p =
     (if pv_predicate_type p = slsa_predicate_type \<and> pv_type p = statement_type
      then Success ''Provenance is valid SLSA v1.2''
      else Failure ''Provenance not valid SLSA v1.2''
        (''Expected _type '' @ statement_type @ '' and predicateType '' @ debug_str slsa_predicate_type
         @ nl @ ''Actual _type '' @ debug_str (pv_type p) @ '' and predicateType   ''
         @ debug_str (pv_predicate_type p)))"

text \<open>A directory entry: the bytes of its name and the outcome of reading the file.\<close>

record dir_entry =
  de_name :: bytes
  de_read :: "string + bytes"

definition entry_name :: "dir_entry \<Rightarrow> string" where
  "entry_name e = from_utf8_lossy (de_name e)"

record artifact_report =
  ar_results :: "verification list"
  ar_warnings :: "string list"

definition backquoted :: "string \<Rightarrow> string" where
  "backquoted s = CHR 0x60 # s @ [CHR 0x60]"

definition check_artifact :: "lib \<Rightarrow> subject \<Rightarrow> dir_entry \<Rightarrow> string \<Rightarrow> verification res" where
  "check_artifact L s e display =
     bnd (map_err Fail (de_read e)) (\<lambda>content.
       let actual = hex_encode L (sha256 L content); expected = digest_text (sub_digest s) in
       Inr (if actual = expected
            then Success (''Checksum match for binary '' @ backquoted display)
            else Failure (''Checksum mismatch for '' @ backquoted display @ ''!'')
              (''Expected checksum '' @ expected @ nl @ ''Actual checksum   '' @ actual)))"

definition check_subject ::
  "lib \<Rightarrow> dir_entry list \<Rightarrow> dir_entry list \<Rightarrow> subject \<Rightarrow> verification list res" where
  "check_subject L top_level artifacts s =
     (let here = (\<lambda>e. entry_name e = sub_name s) in
      bnd (mapM (\<lambda>e. check_artifact L s e (sub_name s)) (filter here top_level)) (\<lambda>r1.
      bnd (mapM (\<lambda>e. check_artifact L s e (''artifacts/'' @ sub_name s)) (filter here artifacts)) (\<lambda>r2.
      Inr (if filter here top_level = [] \<and> filter here artifacts = []
           then [Failure (''Artifact missing for '' @ backquoted (sub_name s) @ ''!'')
                  (''Provenance lists '' @ backquoted (sub_name s) @
                   '' as a subject but no matching file was found in the build directory or artifacts/'')]
           else r1 @ r2))))"

definition verify_artifacts ::
  "lib \<Rightarrow> provenance \<Rightarrow> dir_entry list \<Rightarrow> dir_entry list \<Rightarrow> artifact_report res" where
  "verify_artifacts L p top_level artifacts =
     bnd (mapM (check_subject L top_level artifacts) (pv_subject p)) (\<lambda>rs.
       Inr \<lparr>ar_results = concat rs,
            ar_warnings = map (\<lambda>e. ''artifacts/'' @ entry_name e @ '' is not listed in provenance.json'')
              (filter (\<lambda>e. \<not> list_ex (\<lambda>s. sub_name s = entry_name e) (pv_subject p)) artifacts)\<rparr>)"

section \<open>Lemmas\<close>

definition copies :: "dir_entry list \<Rightarrow> dir_entry list \<Rightarrow> subject \<Rightarrow> dir_entry list" where
  "copies top_level artifacts s = filter (\<lambda>e. entry_name e = sub_name s) (top_level @ artifacts)"

definition copy_matches :: "lib \<Rightarrow> subject \<Rightarrow> dir_entry \<Rightarrow> bool" where
  "copy_matches L s e =
     (case de_read e of Inl _ \<Rightarrow> False | Inr b \<Rightarrow> hex_encode L (sha256 L b) = digest_text (sub_digest s))"

lemma check_artifact_Inr:
  "check_artifact L s e d = Inr v \<Longrightarrow> is_success v \<longleftrightarrow> copy_matches L s e"
  by (cases "hex_encode L (sha256 L (projr (de_read e))) = digest_text (sub_digest s)")
    (auto simp: check_artifact_def copy_matches_def Let_def)

lemma is_ok_check_artifact: "is_ok (check_artifact L s e d) \<longleftrightarrow> is_ok (de_read e)"
  by (cases "de_read e") (simp_all add: check_artifact_def Let_def)

lemma mapM_check_artifact:
  "mapM (\<lambda>e. check_artifact L s e d) es = Inr vs \<Longrightarrow>
     list_all is_success vs \<longleftrightarrow> list_all (copy_matches L s) es"
  by (induction es arbitrary: vs) (auto simp: check_artifact_Inr)

lemma check_subject_Inr:
  assumes "check_subject L top_level artifacts s = Inr vs"
  shows "list_all is_success vs \<longleftrightarrow>
    copies top_level artifacts s \<noteq> [] \<and> list_all (copy_matches L s) (copies top_level artifacts s)"
proof -
  let ?t = "filter (\<lambda>e. entry_name e = sub_name s) top_level"
  let ?a = "filter (\<lambda>e. entry_name e = sub_name s) artifacts"
  obtain r1 r2 where r: "mapM (\<lambda>e. check_artifact L s e (sub_name s)) ?t = Inr r1"
      "mapM (\<lambda>e. check_artifact L s e (''artifacts/'' @ sub_name s)) ?a = Inr r2"
    and vs: "if ?t = [] \<and> ?a = [] then \<exists>m d. vs = [Failure m d] else vs = r1 @ r2"
    using assms unfolding check_subject_def Let_def bnd_eq_Inr by fastforce
  show ?thesis
  proof (cases "?t = [] \<and> ?a = []")
    case True
    then show ?thesis using vs by (auto simp: copies_def)
  next
    case False
    then show ?thesis using vs mapM_check_artifact [OF r(1)] mapM_check_artifact [OF r(2)]
      by (simp add: copies_def)
  qed
qed

lemma is_ok_check_subject:
  "is_ok (check_subject L top_level artifacts s) \<longleftrightarrow>
     (\<forall>e \<in> set (copies top_level artifacts s). is_ok (de_read e))"
  by (auto simp: check_subject_def copies_def Let_def is_ok_mapM is_ok_check_artifact)

lemma is_ok_verify_artifacts:
  "is_ok (verify_artifacts L p top_level artifacts) \<longleftrightarrow>
     (\<forall>s \<in> set (pv_subject p). \<forall>e \<in> set (copies top_level artifacts s). is_ok (de_read e))"
  by (simp add: verify_artifacts_def is_ok_mapM is_ok_check_subject)

lemma mapM_check_subject:
  "mapM (check_subject L top_level artifacts) ss = Inr rs \<Longrightarrow>
     list_all is_success (concat rs) \<longleftrightarrow>
     (\<forall>s \<in> set ss. copies top_level artifacts s \<noteq> [] \<and>
        list_all (copy_matches L s) (copies top_level artifacts s))"
  by (induction ss arbitrary: rs) (auto simp: check_subject_Inr)

lemma verify_artifacts_success:
  "verify_artifacts L p top_level artifacts = Inr rep \<Longrightarrow>
     list_all is_success (ar_results rep) \<longleftrightarrow>
     (\<forall>s \<in> set (pv_subject p). copies top_level artifacts s \<noteq> [] \<and>
        list_all (copy_matches L s) (copies top_level artifacts s))"
  using mapM_check_subject by (auto simp: verify_artifacts_def)

lemma panics_verify_artifacts: "\<not> panics (verify_artifacts L p top_level artifacts)"
proof -
  have ca: "\<not> panics (check_artifact L s e d)" for s e d
    by (cases "de_read e") (simp_all add: check_artifact_def Let_def)
  have cs: "\<not> panics (check_subject L top_level artifacts s)" for s
    by (auto simp: check_subject_def Let_def panics_bnd ca)
  show ?thesis by (simp add: verify_artifacts_def panics_bnd cs)
qed

text \<open>A statement nests seven deep.\<close>

lemma nests_digest [simp]: "0 < n \<Longrightarrow> nests_within n (digest_to_j d)"
  by (simp add: digest_to_j_def split: digest.split)

lemma nests_toolchain [simp]: "2 < n \<Longrightarrow> nests_within n (toolchain_to_j t)"
  by (simp add: toolchain_to_j_def tv_to_j_def split: toolchain.split)

lemma nests_dependency [simp]: "1 < n \<Longrightarrow> nests_within n (dependency_to_j d)"
  by (auto simp: dependency_to_j_def annotation_to_j_def skip_none_def str_to_j_def split: option.splits)

lemma nests_internal [simp]: "3 < n \<Longrightarrow> nests_within n (internal_to_j i)"
  by (auto simp: internal_to_j_def evaluation_to_j_def flake_input_to_j_def vec_to_j_def skip_none_def split: option.splits)

lemma nests_run_details [simp]: "3 < n \<Longrightarrow> nests_within n (run_details_to_j r)"
  by (auto simp: run_details_to_j_def byproduct_to_j_def metadata_to_j_def vec_to_j_def opt_to_j_def str_to_j_def split: option.splits)

lemma nests_provenance: "nests_within 127 (provenance_to_j p)"
  by (auto simp: provenance_to_j_def predicate_to_j_def build_definition_to_j_def external_to_j_def subject_to_j_def vec_to_j_def)

lemma to_json_inject:
  assumes "json_ok L" and "json_wf (provenance_to_j p)" and "json_wf (provenance_to_j q)"
    and "to_json L p = to_json L q"
  shows "p = q"
proof -
  have "Some (provenance_to_j p) = Some (provenance_to_j q)"
    using assms nests_provenance unfolding json_ok_def to_json_def by metis
  then show ?thesis by (simp add: provenance_serde.to_inject)
qed

lemma from_json_to_json:
  assumes "json_ok L" and "json_wf (provenance_to_j p)"
  shows "from_json L (as_bytes (to_json L p)) = Inr p"
  using assms nests_provenance by (simp add: from_json_def to_json_def json_ok_def provenance_serde.of_to)

section \<open>Sample values\<close>

text \<open>Concrete values the instances of the theorems are evaluated at.\<close>

definition sample_digest :: digest where
  "sample_digest = Sha256 (hex_of (toy_digest 32 [1, 2]))"

definition sample_tv :: toolchain_version where
  "sample_tv = \<lparr>tv_digest = sample_digest, tv_version = ''1.0''\<rparr>"

definition sample_provenance :: provenance where
  "sample_provenance = \<lparr>
     pv_type = statement_type,
     pv_predicate = \<lparr>
       pr_build_definition = \<lparr>
         bd_build_type = ''t'',
         bd_external_parameters = \<lparr>ep_build_command = ''c'',
           ep_source = \<lparr>src_digest = \<lparr>sd_git_commit = ''c0'', sd_git_tree = ''d0''\<rparr>, src_uri = ''u''\<rparr>\<rparr>,
         bd_internal_parameters = \<lparr>ip_evaluation = None, ip_flake_inputs = None,
           ip_lockfile_hash = sample_digest, ip_toolchain = RustToolchain sample_tv sample_tv sample_tv\<rparr>,
         bd_resolved_dependencies = []\<rparr>,
       pr_run_details = \<lparr>rn_builder = \<lparr>bi_id = ''b''\<rparr>, rn_byproducts = [],
         rn_metadata = \<lparr>md_invocation_id = ''i'', md_started_on = ''s'', md_finished_on = None\<rparr>\<rparr>\<rparr>,
     pv_predicate_type = slsa_predicate_type,
     pv_subject = [\<lparr>sub_digest = sample_digest, sub_name = ''app''\<rparr>]\<rparr>"

definition sample_entry :: dir_entry where
  "sample_entry = \<lparr>de_name = as_bytes ''app'', de_read = Inr [1, 2]\<rparr>"

lemma sample_entry_name: "entry_name sample_entry = ''app''"
  unfolding entry_name_def sample_entry_def dir_entry.simps
  by (rule from_utf8_lossy_ascii) (simp add: as_bytes_def)

lemma sample_copies: "copies [sample_entry] [] (hd (pv_subject sample_provenance)) = [sample_entry]"
  by (simp add: copies_def sample_provenance_def sample_entry_name)

lemma sample_copy_matches: "copy_matches sample_lib (hd (pv_subject sample_provenance)) sample_entry"
  by (simp add: copy_matches_def sample_provenance_def sample_entry_def sample_digest_def)

lemma sample_subjects: "pv_subject sample_provenance = [hd (pv_subject sample_provenance)]"
  by (simp add: sample_provenance_def)

lemma ascii_wf: "list_all (\<lambda>x. x < 0x80) (as_bytes s) \<Longrightarrow> utf8_valid (as_bytes s)"
  by (simp add: utf8_valid_ascii list_all_iff)

lemma ascii_wf_Cons [simp]:
  "list_all (\<lambda>x. x < (0x80 :: u8)) (as_bytes (c # s)) \<longleftrightarrow>
     (of_nat (of_char c) :: u8) < 0x80 \<and> list_all (\<lambda>x. x < 0x80) (as_bytes s)"
  by (simp add: as_bytes_def)

lemma ascii_wf_Nil [simp]: "list_all P (as_bytes [])"
  by (simp add: as_bytes_def)

lemma sample_hex_ascii: "list_all (\<lambda>x. x < 0x80) (as_bytes (hex_of b))"
proof -
  have "(of_nat (of_char (hex_digit n)) :: u8) < 0x80" if "n < 16" for n
    using that by (auto simp: hex_digit_def word_less_nat_alt unat_of_nat8)
  then show ?thesis
    by (induction b) (auto simp: hex_of_def as_bytes_def unat8_div)
qed

lemma sample_wf: "json_wf (provenance_to_j sample_provenance)"
  by (simp add: sample_provenance_def provenance_to_j_def predicate_to_j_def build_definition_to_j_def
      external_to_j_def internal_to_j_def run_details_to_j_def metadata_to_j_def toolchain_to_j_def
      sample_tv_def sample_digest_def tv_to_j_def digest_to_j_def skip_none_def vec_to_j_def
      subject_to_j_def opt_to_j_def ascii_wf sample_hex_ascii statement_type_def slsa_predicate_type_def)

section \<open>Properties\<close>

text \<open>
  C22. The artifact verdict is exact. When \<open>verify_artifacts\<close> returns, all its results are
  successes iff every subject of the provenance has at least one file of its name in the build
  directory or in \<open>artifacts/\<close> and the SHA-256 of every such copy is the recorded digest; the
  warnings are the files of \<open>artifacts/\<close> that no subject names, and they do not touch the verdict.
\<close>

theorem verify_artifacts_verdict:
  assumes "verify_artifacts L p top_level artifacts = Inr rep"
  shows "(list_all is_success (ar_results rep) \<longleftrightarrow>
      (\<forall>s \<in> set (pv_subject p). copies top_level artifacts s \<noteq> [] \<and>
         (\<forall>e \<in> set (copies top_level artifacts s).
            \<exists>b. de_read e = Inr b \<and> hex_encode L (sha256 L b) = digest_text (sub_digest s))))
    \<and> ar_warnings rep =
        [''artifacts/'' @ entry_name e @ '' is not listed in provenance.json'' .
           e \<leftarrow> artifacts, entry_name e \<notin> sub_name ` set (pv_subject p)]"
proof -
  obtain rs where rs: "mapM (check_subject L top_level artifacts) (pv_subject p) = Inr rs"
    and rep: "ar_results rep = concat rs"
    and w: "ar_warnings rep = map (\<lambda>e. ''artifacts/'' @ entry_name e @ '' is not listed in provenance.json'')
              (filter (\<lambda>e. \<not> list_ex (\<lambda>s. sub_name s = entry_name e) (pv_subject p)) artifacts)"
    using assms unfolding verify_artifacts_def by auto
  have m: "copy_matches L s e \<longleftrightarrow>
      (\<exists>b. de_read e = Inr b \<and> hex_encode L (sha256 L b) = digest_text (sub_digest s))" for s e
    by (auto simp: copy_matches_def split: sum.splits)
  have listed: "list_ex (\<lambda>s. sub_name s = n) (pv_subject p) \<longleftrightarrow> n \<in> sub_name ` set (pv_subject p)" for n
    by (force simp: list_ex_iff)
  have "ar_warnings rep =
      [''artifacts/'' @ entry_name e @ '' is not listed in provenance.json'' .
         e \<leftarrow> artifacts, entry_name e \<notin> sub_name ` set (pv_subject p)]"
    unfolding w by (induction artifacts) (simp_all add: listed)
  then show ?thesis
    unfolding rep mapM_check_subject [OF rs] by (simp add: list_all_iff m)
qed

theorem verify_artifacts_verdict_witness:
  "\<exists>rep. verify_artifacts sample_lib sample_provenance [sample_entry] [] = Inr rep \<and>
     list_all is_success (ar_results rep) \<and> ar_warnings rep = []"
proof -
  have "is_ok (verify_artifacts sample_lib sample_provenance [sample_entry] [])"
    unfolding is_ok_verify_artifacts
    by (subst sample_subjects) (simp add: sample_copies, simp add: sample_entry_def)
  then obtain rep where rep: "verify_artifacts sample_lib sample_provenance [sample_entry] [] = Inr rep"
    by (auto simp: is_ok_iff)
  have "list_all is_success (ar_results rep)"
    using sample_copy_matches
    unfolding verify_artifacts_verdict [OF rep, THEN conjunct1]
    by (subst sample_subjects) (auto simp: sample_copies copy_matches_def split: sum.splits)
  then show ?thesis using rep verify_artifacts_verdict [OF rep, THEN conjunct2] by simp
qed

text \<open>
  \<open>verify_artifacts\<close> gives up with an error exactly when some file that a subject names
  cannot be read, and it never panics.
\<close>

theorem verify_artifacts_errors:
  "(is_ok (verify_artifacts L p top_level artifacts) \<longleftrightarrow>
      (\<forall>s \<in> set (pv_subject p). \<forall>e \<in> set (copies top_level artifacts s). is_ok (de_read e)))
   \<and> \<not> panics (verify_artifacts L p top_level artifacts)"
  using is_ok_verify_artifacts panics_verify_artifacts by blast

theorem verify_artifacts_errors_witness:
  "\<not> is_ok (verify_artifacts sample_lib sample_provenance [sample_entry\<lparr>de_read := Inl ''EIO''\<rparr>] [])"
proof -
  let ?e = "sample_entry\<lparr>de_read := Inl ''EIO''\<rparr>"
  have "entry_name ?e = ''app''" using sample_entry_name by (simp add: entry_name_def)
  then have "copies [?e] [] (hd (pv_subject sample_provenance)) = [?e]"
    by (simp add: copies_def sample_provenance_def)
  then show ?thesis
    unfolding verify_artifacts_errors [THEN conjunct1] by (subst sample_subjects) simp
qed

text \<open>
  A provenance statement survives its JSON text: \<open>from_json\<close> of \<open>to_json\<close> is the statement,
  with every field, optional field and variant of the untagged enums, when its strings are UTF-8
  and its counts are integers, as those of a build are.
\<close>

theorem provenance_json_roundtrip:
  assumes "json_ok L" and "json_wf (provenance_to_j p)"
  shows "from_json L (as_bytes (to_json L p)) = Inr p"
  using assms by (rule from_json_to_json)

theorem provenance_json_roundtrip_witness:
  "from_json sample_lib (as_bytes (to_json sample_lib sample_provenance)) = Inr sample_provenance"
  by (rule provenance_json_roundtrip [OF sample_json_ok sample_wf])

text \<open>
  C23. The checksum binds the statement: if SHA-256 does not collide on the two JSON texts, two
  statements with the same checksum are the same statement, so every field the verifier prints or
  compares is the attested one.
\<close>

theorem checksum_binds_statement:
  assumes "json_ok L" and "json_wf (provenance_to_j p)" and "json_wf (provenance_to_j q)"
    and "inj_on (sha256 L) {as_bytes (to_json L p), as_bytes (to_json L q)}"
    and "p \<noteq> q"
  shows "checksum L p \<noteq> checksum L q"
  using assms to_json_inject [of L p q] by (auto simp: checksum_def)

lemma sample_checksums_differ:
  "checksum sample_lib sample_provenance \<noteq> checksum sample_lib (sample_provenance\<lparr>pv_subject := []\<rparr>)"
  by (simp add: checksum_def to_json_def sample_provenance_def provenance_to_j_def vec_to_j_def
      subject_to_j_def toy_digest_def pad_to_def as_bytes_def tlv_str_def rev_map)

theorem checksum_binds_statement_witness:
  "checksum sample_lib sample_provenance \<noteq> checksum sample_lib (sample_provenance\<lparr>pv_subject := []\<rparr>)"
proof (rule checksum_binds_statement [OF sample_json_ok sample_wf])
  show "json_wf (provenance_to_j (sample_provenance\<lparr>pv_subject := []\<rparr>))"
    using sample_wf by (simp add: provenance_to_j_def vec_to_j_def sample_provenance_def)
  show "sample_provenance \<noteq> sample_provenance\<lparr>pv_subject := []\<rparr>"
    by (simp add: sample_provenance_def)
  show "inj_on (sha256 sample_lib) {as_bytes (to_json sample_lib sample_provenance),
      as_bytes (to_json sample_lib (sample_provenance\<lparr>pv_subject := []\<rparr>))}"
    using sample_checksums_differ by (auto simp: inj_on_def checksum_def)
qed

end
