(* ===== verification/Api.thy ===== *)
theory Api
  imports Json
begin

text \<open>
  The messages of \<open>src/src/api.rs\<close> with their JSON form (internally tagged enums, \<open>None\<close> fields
  skipped), and the event sink of \<open>src/src/toolchain.rs\<close>: a bounded channel or nothing.
\<close>

record build_request =
  rq_nonce :: string
  rq_repo_url :: "string option"
  rq_repo_ref :: "string option"
  rq_source_data :: "bytes option"
  rq_source_name :: "string option"

datatype build_result = BuildOk | BuildFailed string string

datatype event =
    Queued nat
  | Vm string
  | Init string
  | Detect string
  | Build string
  | ProvenanceEvent string
  | Attest string
  | Complete build_result
  | Host string "string option"

definition build_result_to_j :: "build_result \<Rightarrow> json" where
  "build_result_to_j r = (case r of
      BuildOk \<Rightarrow> JObj [(''status'', JStr ''ok'')]
    | BuildFailed err kind \<Rightarrow>
        JObj [(''status'', JStr ''failed''), (''error'', JStr err), (''error_type'', JStr kind)])"

definition tagged :: "string \<Rightarrow> (string \<times> json) list \<Rightarrow> json" where
  "tagged t ms = JObj ((''type'', JStr t) # ms)"

definition event_to_j :: "event \<Rightarrow> json" where
  "event_to_j e = (case e of
      Queued position \<Rightarrow> tagged ''queued'' [(''position'', JNum (PosInt (of_nat position)))]
    | Vm msg \<Rightarrow> tagged ''vm'' [(''msg'', JStr msg)]
    | Init msg \<Rightarrow> tagged ''init'' [(''msg'', JStr msg)]
    | Detect msg \<Rightarrow> tagged ''detect'' [(''msg'', JStr msg)]
    | Build msg \<Rightarrow> tagged ''build'' [(''msg'', JStr msg)]
    | ProvenanceEvent msg \<Rightarrow> tagged ''provenance'' [(''msg'', JStr msg)]
    | Attest msg \<Rightarrow> tagged ''attest'' [(''msg'', JStr msg)]
    | Complete result \<Rightarrow> tagged ''complete'' [(''result'', build_result_to_j result)]
    | Host msg url \<Rightarrow> tagged ''host'' ((''msg'', JStr msg) # skip_none ''url'' str_to_j url))"

text \<open>
  \<open>EventSink\<close>: \<open>emit\<close> waits for room and drops the event only when the receiver is gone;
  \<open>try_emit\<close> drops it also when the channel is full.
\<close>

record channel =
  ch_capacity :: nat
  ch_open :: bool
  ch_queue :: "event list"

type_synonym event_sink = "channel option"

definition try_emit :: "event \<Rightarrow> event_sink \<Rightarrow> event_sink" where
  "try_emit e sink =
     (case sink of
        None \<Rightarrow> None
      | Some ch \<Rightarrow>
         if ch_open ch \<and> length (ch_queue ch) < ch_capacity ch
         then Some (ch\<lparr>ch_queue := ch_queue ch @ [e]\<rparr>) else Some ch)"

text \<open>\<open>emit\<close> once there is room; \<open>None\<close> while the sender waits.\<close>

definition emit :: "event \<Rightarrow> event_sink \<Rightarrow> event_sink option" where
  "emit e sink =
     (case sink of
        None \<Rightarrow> Some None
      | Some ch \<Rightarrow>
         if \<not> ch_open ch then Some (Some ch)
         else if length (ch_queue ch) < ch_capacity ch
         then Some (Some (ch\<lparr>ch_queue := ch_queue ch @ [e]\<rparr>))
         else None)"

lemma try_emit_bound:
  "try_emit e (Some ch) = Some ch' \<Longrightarrow> length (ch_queue ch) \<le> ch_capacity ch \<Longrightarrow>
     length (ch_queue ch') \<le> ch_capacity ch'"
  by (auto simp: try_emit_def split: if_splits)

lemma event_to_j_inject: "event_to_j e = event_to_j e' \<Longrightarrow> (\<forall>n. e = Queued n \<or> e' = Queued n \<longrightarrow> n < word_max) \<Longrightarrow> e = e'"
  by (cases e; cases e')
    (auto simp: event_to_j_def tagged_def build_result_to_j_def skip_none_def str_to_j_def word_max_def
      unat_of_nat dest!: arg_cong [where f = unat] split: build_result.splits option.splits)

end
