(* ===== verification/Driver.thy ===== *)
theory Driver
  imports Paths Provenance Api
begin

text \<open>
  What a build driver works with: \<open>src/src/toolchain/driver.rs\<close> (git context, tool binaries,
  artifacts, build metadata, the driver trait) and \<open>src/src/toolchain/confine.rs\<close> (the confinement of
  build children). The machine is a parameter: a \<open>host\<close> answers the queries (files, directories,
  commands that only report), an \<open>env\<close> holds the host before and after the build, the children that
  run repository code and the outcome of the writes under \<open>kettle-build\<close>. What the build writes there
  is an explicit state, \<open>world\<close>.
\<close>

section \<open>The host\<close>

text \<open>\<open>co_writes\<close> are the files a command leaves behind.\<close>

record cmd_output =
  co_success :: bool
  co_code :: "nat option"
  co_stdout :: bytes
  co_stderr :: bytes
  co_writes :: "string \<Rightarrow> bytes option"

record host =
  h_output :: "string \<Rightarrow> string list \<Rightarrow> string + cmd_output"
  h_read :: "string \<Rightarrow> string + bytes"
  h_exists :: "string \<Rightarrow> string + bool"
  h_is_file :: "string \<Rightarrow> bool"
  h_is_dir :: "string \<Rightarrow> bool"
  h_file_type_dir :: "string \<Rightarrow> string + bool"
  h_read_dir :: "string \<Rightarrow> string + (string + string) list"
  h_canonicalize :: "string \<Rightarrow> string + string"
  h_mode :: "string \<Rightarrow> string + nat"
  h_current_exe :: "string + string"

text \<open>\<open>Path::exists\<close> takes an error for absence.\<close>

definition path_exists :: "host \<Rightarrow> string \<Rightarrow> bool" where
  "path_exists h p = (case h_exists h p of Inl _ \<Rightarrow> False | Inr b \<Rightarrow> b)"

definition utf8_res :: "bytes \<Rightarrow> string res" where
  "utf8_res b = need (Fail ''invalid utf-8 sequence'') (from_utf8 b)"

definition to_string_lossy :: "string \<Rightarrow> string" where
  "to_string_lossy s = from_utf8_lossy (as_bytes s)"

lemma panics_utf8_res [simp]: "panics (utf8_res b) = False"
  by (simp add: utf8_res_def)

section \<open>Git\<close>

definition git_cmd :: "host \<Rightarrow> string \<Rightarrow> string list \<Rightarrow> string res" where
  "git_cmd h path args =
     bnd (map_err (\<lambda>_. Fail ''git not found'') (h_output h ''git'' ([''-C'', path] @ args))) (\<lambda>out.
     if \<not> co_success out
     then Inl (Fail (''git '' @ join '' '' args @ '' failed: '' @ trim (from_utf8_lossy (co_stderr out))))
     else map_ok trim (utf8_res (co_stdout out)))"

record git_context =
  gc_commit :: string
  gc_tree :: string
  gc_source_uri :: string

definition git_context_from_dir :: "host \<Rightarrow> string \<Rightarrow> git_context res" where
  "git_context_from_dir h path =
     (let source_uri = (case git_cmd h path [''remote'', ''get-url'', ''origin''] of Inl _ \<Rightarrow> [] | Inr s \<Rightarrow> s) in
      bnd (git_cmd h path [''rev-parse'', ''HEAD'']) (\<lambda>commit.
      bnd (git_cmd h path [''rev-parse'', ''HEAD^{tree}'']) (\<lambda>tree.
      Inr \<lparr>gc_commit = commit, gc_tree = tree, gc_source_uri = source_uri\<rparr>)))"

section \<open>Tool binaries\<close>

record tool_info =
  ti_version :: string
  ti_sha256 :: string

definition hash_file :: "lib \<Rightarrow> host \<Rightarrow> string \<Rightarrow> string res" where
  "hash_file L h p = map_ok (\<lambda>b. hex_encode L (sha256 L b)) (map_err Fail (h_read h p))"

definition via_rustup :: "lib \<Rightarrow> host \<Rightarrow> string \<Rightarrow> tool_info res" where
  "via_rustup L h cmd =
     bnd (map_err (\<lambda>_. Fail (cmd @ '' not found'')) (h_output h cmd [''--version''])) (\<lambda>ver.
     bnd (map_ok trim (utf8_res (co_stdout ver))) (\<lambda>version.
     bnd (let fallback = map_err (\<lambda>_. Fail (''which '' @ cmd @ '' failed'')) (h_output h ''which'' [cmd]) in
          case h_output h ''rustup'' [''which'', cmd] of
            Inl _ \<Rightarrow> fallback
          | Inr out \<Rightarrow> if co_stdout out \<noteq> [] then Inr out else fallback) (\<lambda>which.
     bnd (map_ok trim (utf8_res (co_stdout which))) (\<lambda>bin.
     bnd (hash_file L h bin) (\<lambda>digest.
     Inr \<lparr>ti_version = version, ti_sha256 = digest\<rparr>)))))"

definition via_which :: "lib \<Rightarrow> host \<Rightarrow> string \<Rightarrow> tool_info res" where
  "via_which L h cmd =
     bnd (map_err (\<lambda>_. Fail (''which '' @ cmd @ '' failed'')) (h_output h ''which'' [cmd])) (\<lambda>which.
     if co_stdout which = [] then Inl (Fail (''could not find command named '' @ backquoted cmd))
     else
       bnd (map_ok trim (utf8_res (co_stdout which))) (\<lambda>bin.
       bnd (hash_file L h bin) (\<lambda>digest.
       bnd (map_err (\<lambda>_. Fail (cmd @ '' --version failed'')) (h_output h cmd [''--version''])) (\<lambda>ver.
       bnd (map_ok trim (utf8_res (co_stdout ver))) (\<lambda>version.
       Inr \<lparr>ti_version = version, ti_sha256 = digest\<rparr>)))))"

text \<open>The version of the package, \<open>version\<close> of \<open>Cargo.toml\<close>.\<close>

definition pkg_version :: string where "pkg_version = ''1.1.1''"

definition kettle_info :: "lib \<Rightarrow> host \<Rightarrow> tool_info res" where
  "kettle_info L h =
     bnd (map_err (\<lambda>_. Fail ''locating current kettle binary'') (h_current_exe h)) (\<lambda>bin.
     bnd (hash_file L h bin) (\<lambda>digest.
     Inr \<lparr>ti_version = pkg_version, ti_sha256 = digest\<rparr>))"

section \<open>Artifacts\<close>

record artifact =
  art_name :: string
  art_path :: string
  art_checksum :: string

text \<open>One entry of the directory: skipped, or hashed when it has no extension or \<open>exe\<close>.\<close>

definition in_dir_entry :: "lib \<Rightarrow> host \<Rightarrow> string \<Rightarrow> string + string \<Rightarrow> artifact option res" where
  "in_dir_entry L h dir entry =
     bnd (map_err Fail entry) (\<lambda>name.
     let path = path_join dir name;
         is_dotfile = starts_with ''.'' (to_string_lossy name);
         ext = (case Option.bind (extension name) (\<lambda>e. from_utf8 (as_bytes e)) of None \<Rightarrow> [] | Some e \<Rightarrow> e) in
     if \<not> h_is_file h path \<or> is_dotfile then Inr None
     else if ext = [] \<or> ext = ''exe''
     then map_ok (\<lambda>c. Some \<lparr>art_name = to_string_lossy name, art_path = path, art_checksum = c\<rparr>)
            (hash_file L h path)
     else Inr None)"

fun somes :: "'a option list \<Rightarrow> 'a list" where
  "somes [] = []"
| "somes (None # xs) = somes xs"
| "somes (Some x # xs) = x # somes xs"

definition artifacts_in_dir :: "lib \<Rightarrow> host \<Rightarrow> string \<Rightarrow> artifact list res" where
  "artifacts_in_dir L h dir =
     bnd (map_err Fail (h_read_dir h dir)) (\<lambda>entries. map_ok somes (mapM (in_dir_entry L h dir) entries))"

lemma in_somes: "x \<in> set (somes xs) \<longleftrightarrow> Some x \<in> set xs"
  by (induction xs rule: somes.induct) auto

text \<open>Every artifact found is the hash of the file at its path.\<close>

lemma artifacts_in_dir_hashed:
  assumes "artifacts_in_dir L h dir = Inr arts" and "a \<in> set arts"
  shows "\<exists>b. h_read h (art_path a) = Inr b \<and> art_checksum a = hex_encode L (sha256 L b)"
proof -
  obtain es rs where es: "h_read_dir h dir = Inr es" "mapM (in_dir_entry L h dir) es = Inr rs"
    and arts: "arts = somes rs"
    using assms(1) by (auto simp: artifacts_in_dir_def)
  have "Some a \<in> set rs" using assms(2) by (simp add: arts in_somes)
  then obtain e where "in_dir_entry L h dir e = Inr (Some a)"
    using es(2) by (auto simp: mapM_eq_Inr list_all2_conv_all_nth in_set_conv_nth)
  then show ?thesis by (auto simp: in_dir_entry_def hash_file_def Let_def split: if_splits)
qed

section \<open>Build metadata\<close>

record build_metadata =
  bm_invocation_id :: string
  bm_started_on :: string
  bm_finished_on :: "string option"

text \<open>The clock reading is the compact stamp of the id and the RFC 3339 text.\<close>

definition metadata_start :: "lib \<Rightarrow> bytes \<Rightarrow> string \<times> string \<Rightarrow> build_metadata" where
  "metadata_start L uuid now = \<lparr>
     bm_invocation_id = ''build-'' @ fst now @ ''-'' @ take 8 (hex_encode L uuid),
     bm_started_on = snd now, bm_finished_on = None\<rparr>"

definition metadata_finish :: "string \<Rightarrow> build_metadata \<Rightarrow> build_metadata" where
  "metadata_finish now m = m\<lparr>bm_finished_on := Some now\<rparr>"

definition BUILD_TYPE :: string where
  "BUILD_TYPE = ''https://confidential.ai/attested-builds/v1''"

record provenance_fields =
  pf_build_type :: string
  pf_build_command :: string
  pf_internal :: internal_parameters
  pf_dependencies :: "resolved_dependency list"

section \<open>Confinement\<close>

text \<open>
  The credentials a child inherits. \<open>setgroups\<close> works only with \<open>CAP_SETGID\<close> and its failure is
  ignored; clearing the ambient set always works; then the device must be out of reach.
\<close>

record credentials =
  cr_groups :: "string list"
  cr_ambient :: "string list"
  cr_setgid :: bool

definition confine :: "credentials \<Rightarrow> credentials" where
  "confine p = p\<lparr>cr_groups := (if cr_setgid p then [] else cr_groups p), cr_ambient := []\<rparr>"

datatype io_error = PermissionDenied string | OtherError string

fun explain :: "io_error \<Rightarrow> io_error" where
  "explain (OtherError e) = OtherError e"
| "explain (PermissionDenied e) = PermissionDenied
     (e @ '': the program is not executable, or the build could reach '' @
      ''/dev/sev-guest (kettle-server needs CAP_SETGID from its unit to '' @
      ''drop the sev-guest group before running build tools)'')"

text \<open>
  A child: the bytes its two pipes deliver, an error a pipe ends with, the exit status, and the order
  in which the two readers get their lines.
\<close>

record child =
  cd_stdout :: bytes
  cd_stdout_err :: "string option"
  cd_stderr :: bytes
  cd_stderr_err :: "string option"
  cd_wait :: "string + bool \<times> nat option"
  cd_schedule :: "bool list"

datatype io_op = Exists | RemoveDirAll | CreateDirAll | CopyTo | WriteTo | SetMode | RemoveFile

record env =
  en_before :: host
  en_after :: host
  en_credentials :: credentials
  en_sev_guest :: "credentials \<Rightarrow> bool"
  en_child :: "credentials \<Rightarrow> string \<Rightarrow> string list \<Rightarrow> string \<Rightarrow> io_error + child"
  en_io :: "io_op \<Rightarrow> string \<Rightarrow> string option"
  en_uuid :: bytes
  en_started :: "string \<times> string"
  en_finished :: string

definition confined_spawn :: "env \<Rightarrow> string \<Rightarrow> string list \<Rightarrow> string \<Rightarrow> io_error + child" where
  "confined_spawn E program args cwd =
     (let p = confine (en_credentials E) in
      map_err explain
        (if en_sev_guest E p then Inl (PermissionDenied ''Operation not permitted (os error 1)'')
         else en_child E p program args cwd))"

lemma confined_spawn_Inr:
  "confined_spawn E program args cwd = Inr c \<longleftrightarrow>
     \<not> en_sev_guest E (confine (en_credentials E)) \<and>
     en_child E (confine (en_credentials E)) program args cwd = Inr c"
  by (simp add: confined_spawn_def Let_def)

section \<open>The state of the build directory\<close>

text \<open>
  \<open>kettle-build\<close>: whether it is there, its \<open>artifacts\<close> directory if there is one, its other files;
  and the events handed to the sink, in order.
\<close>

record world =
  wo_exists :: bool
  wo_artifacts :: "(string \<Rightarrow> bytes option) option"
  wo_files :: "string \<Rightarrow> bytes option"
  wo_trace :: "event list"

type_synonym 'a act = "world \<Rightarrow> 'a res \<times> world"

definition act_bind :: "'a act \<Rightarrow> ('a \<Rightarrow> 'b act) \<Rightarrow> 'b act" where
  "act_bind m k = (\<lambda>w. case m w of (Inl e, w') \<Rightarrow> (Inl e, w') | (Inr x, w') \<Rightarrow> k x w')"

definition lift :: "'a res \<Rightarrow> 'a act" where
  "lift r = (\<lambda>w. (r, w))"

definition modify :: "(world \<Rightarrow> world) \<Rightarrow> unit act" where
  "modify f = (\<lambda>w. (Inr (), f w))"

definition send_event :: "event \<Rightarrow> unit act" where
  "send_event e = modify (\<lambda>w. w\<lparr>wo_trace := wo_trace w @ [e]\<rparr>)"

text \<open>A file-system write: it fails as the environment says, or changes the state.\<close>

definition io_act :: "env \<Rightarrow> io_op \<Rightarrow> string \<Rightarrow> (world \<Rightarrow> world) \<Rightarrow> unit act" where
  "io_act E op p f =
     (\<lambda>w. case en_io E op p of Some e \<Rightarrow> (Inl (Fail e), w) | None \<Rightarrow> (Inr (), f w))"

lemma act_bind_Inr [simp]:
  "act_bind m k w = (Inr y, w'') \<longleftrightarrow> (\<exists>x w'. m w = (Inr x, w') \<and> k x w' = (Inr y, w''))"
  by (auto simp: act_bind_def split: prod.splits sum.splits)

lemma lift_Inr [simp]: "lift r w = (Inr x, w') \<longleftrightarrow> r = Inr x \<and> w' = w"
  by (auto simp: lift_def)

lemma modify_Inr [simp]: "modify f w = (Inr u, w') \<longleftrightarrow> w' = f w"
  by (auto simp: modify_def)

lemma send_event_Inr [simp]: "send_event e w = (Inr u, w') \<longleftrightarrow> w' = w\<lparr>wo_trace := wo_trace w @ [e]\<rparr>"
  by (simp add: send_event_def)

lemma io_act_Inr [simp]: "io_act E op p f w = (Inr u, w') \<longleftrightarrow> en_io E op p = None \<and> w' = f w"
  by (auto simp: io_act_def split: option.splits)

text \<open>Writing into the artifacts directory.\<close>

definition stage :: "string \<Rightarrow> bytes \<Rightarrow> world \<Rightarrow> world" where
  "stage name content w =
     w\<lparr>wo_artifacts := map_option (\<lambda>m. m(name \<mapsto> content)) (wo_artifacts w)\<rparr>"

definition unstage :: "string \<Rightarrow> world \<Rightarrow> world" where
  "unstage name w = w\<lparr>wo_artifacts := map_option (\<lambda>m. m(name := None)) (wo_artifacts w)\<rparr>"

definition staged :: "world \<Rightarrow> string \<Rightarrow> bytes option" where
  "staged w name = Option.bind (wo_artifacts w) (\<lambda>m. m name)"

text \<open>A loop of actions over a list, collecting the results.\<close>

fun act_map :: "('a \<Rightarrow> 'b act) \<Rightarrow> 'a list \<Rightarrow> 'b list act" where
  "act_map f [] = lift (Inr [])"
| "act_map f (x # xs) = act_bind (f x) (\<lambda>y. act_bind (act_map f xs) (\<lambda>ys. lift (Inr (y # ys))))"

lemma staged_stage [simp]:
  "wo_artifacts w \<noteq> None \<Longrightarrow> staged (stage n b w) m = (if m = n then Some b else staged w m)"
  by (auto simp: staged_def stage_def)

lemma staged_unstage [simp]:
  "staged (unstage n w) m = (if m = n then None else staged w m)"
  by (cases "wo_artifacts w") (simp_all add: staged_def unstage_def)

lemma stage_simps [simp]:
  "wo_artifacts (stage n b w) = None \<longleftrightarrow> wo_artifacts w = None"
  "wo_files (stage n b w) = wo_files w" "wo_trace (stage n b w) = wo_trace w"
  "wo_exists (stage n b w) = wo_exists w"
  "wo_artifacts (unstage n w) = None \<longleftrightarrow> wo_artifacts w = None"
  "wo_files (unstage n w) = wo_files w" "wo_trace (unstage n w) = wo_trace w"
  "wo_exists (unstage n w) = wo_exists w"
  by (simp_all add: stage_def unstage_def)

text \<open>
  Collecting artifacts: nothing but the artifacts directory changes, only under the names of the
  artifacts, and when these are distinct each is staged with the bytes its checksum is of.
\<close>

definition stages :: "lib \<Rightarrow> world \<Rightarrow> artifact list \<Rightarrow> world \<Rightarrow> bool" where
  "stages L w arts w' =
     (wo_artifacts w' \<noteq> None \<and> wo_files w' = wo_files w \<and> wo_trace w' = wo_trace w
      \<and> (\<forall>n. n \<notin> art_name ` set arts \<longrightarrow> staged w' n = staged w n)
      \<and> (distinct (map art_name arts) \<longrightarrow>
           (\<forall>a \<in> set arts. \<exists>b. staged w' (art_name a) = Some b \<and> art_checksum a = hex_encode L (sha256 L b))))"

lemma stages_Nil: "wo_artifacts w \<noteq> None \<Longrightarrow> stages L w [] w"
  by (simp add: stages_def)

lemma stages_append:
  assumes "stages L w xs v" and "stages L v ys u"
  shows "stages L w (xs @ ys) u"
proof -
  have "\<exists>b. staged u (art_name a) = Some b \<and> art_checksum a = hex_encode L (sha256 L b)"
    if d: "distinct (map art_name (xs @ ys))" and a: "a \<in> set (xs @ ys)" for a
  proof (cases "a \<in> set ys")
    case False
    then have "a \<in> set xs" "art_name a \<notin> art_name ` set ys" using a d by auto
    then show ?thesis using assms d by (simp add: stages_def)
  qed (use assms(2) d in \<open>simp add: stages_def\<close>)
  moreover have "staged u n = staged w n" if "n \<notin> art_name ` set (xs @ ys)" for n
  proof -
    have "n \<notin> art_name ` set xs" "n \<notin> art_name ` set ys" using that by (simp_all add: image_Un)
    then show ?thesis using assms by (simp add: stages_def)
  qed
  ultimately show ?thesis using assms unfolding stages_def
    by (intro conjI allI impI ballI) (elim conjE, simp (no_asm_simp))+
qed

lemma stages_single:
  "wo_artifacts w \<noteq> None \<Longrightarrow> art_checksum a = hex_encode L (sha256 L b) \<Longrightarrow>
     stages L w [a] (stage (art_name a) b w)"
  by (simp add: stages_def)

lemma act_map_stages:
  assumes "act_map f xs w = (Inr ys, w')" and "wo_artifacts w \<noteq> None"
    and "\<And>x y v v'. x \<in> set xs \<Longrightarrow> f x v = (Inr y, v') \<Longrightarrow> wo_artifacts v \<noteq> None \<Longrightarrow> stages L v (g y) v'"
  shows "stages L w (concat (map g ys)) w'"
  using assms
proof (induction xs arbitrary: ys w)
  case Nil
  then show ?case by (simp add: stages_Nil)
next
  case (Cons x xs)
  then obtain y v zs where y: "f x w = (Inr y, v)" "act_map f xs v = (Inr zs, w')" "ys = y # zs" by auto
  then have s: "stages L w (g y) v" using Cons.prems(2) Cons.prems(3) [of x w y v] by simp
  then have "wo_artifacts v \<noteq> None" unfolding stages_def by blast
  have "stages L v (concat (map g zs)) w'"
  proof (rule Cons.IH [OF y(2) \<open>wo_artifacts v \<noteq> None\<close>])
    show "stages L v (g y) v'" if "x' \<in> set xs" "f x' v = (Inr y, v')" "wo_artifacts v \<noteq> None" for x' y v v'
      using Cons.prems(3) [of x'] that by simp
  qed
  then show ?case using s y(3) by (simp add: stages_append)
qed

section \<open>The driver trait\<close>

record 'i driver =
  lockfile_filename :: string
  build_command_display :: string
  collect_inputs :: "lib \<Rightarrow> env \<Rightarrow> string \<Rightarrow> git_context \<Rightarrow> string \<Rightarrow> bytes \<Rightarrow> 'i res"
  merkle_entries :: "'i \<Rightarrow> git_context \<Rightarrow> string \<Rightarrow> string list"
  run_build :: "env \<Rightarrow> string \<Rightarrow> bytes act"
  collect_artifacts :: "lib \<Rightarrow> env \<Rightarrow> bytes \<Rightarrow> string \<Rightarrow> string \<Rightarrow> artifact list act"
  provenance_fields_of :: "'i \<Rightarrow> git_context \<Rightarrow> string \<Rightarrow> provenance_fields"

end
