(* ===== verification/Runner.thy ===== *)
theory Runner
  imports Driver
begin

text \<open>
  The shared build pipeline of \<open>src/src/toolchain/runner.rs\<close>: running a child and streaming its
  lines, the Merkle root over a driver's entries, the assembled statement, and \<open>run\<close>. The contract of
  a driver is the locale \<open>toolchain_driver\<close>; what a successful \<open>run\<close> leaves behind is proved from it
  once, for every driver. The Merkle tree of \<open>rs_merkle\<close> is a parameter \<open>M\<close> from leaves to root.
\<close>

section \<open>Lines\<close>

definition strip_cr :: "string \<Rightarrow> string" where
  "strip_cr s = (if s \<noteq> [] \<and> last s = CHR 0x0D then butlast s else s)"

text \<open>\<open>str::lines\<close>: a carriage return goes only together with the line feed after it.\<close>

definition text_lines :: "string \<Rightarrow> string list" where
  "text_lines s =
     (let ps = split_on CHR 0x0A s in
      map strip_cr (butlast ps) @ (if last ps = [] then [] else [last ps]))"

text \<open>
  What \<open>BufReader::lines\<close> yields on a pipe that delivers these bytes and then ends or fails: a line
  must be UTF-8, and a last line without line feed counts only at the end of input.
\<close>

definition line_item :: "(string \<Rightarrow> string) \<Rightarrow> string \<Rightarrow> string + string" where
  "line_item f p =
     (if utf8_valid (as_bytes p) then Inr (f p) else Inl ''stream did not contain valid UTF-8'')"

definition pipe_lines :: "bytes \<Rightarrow> string option \<Rightarrow> (string + string) list" where
  "pipe_lines b err =
     (let ps = split_on CHR 0x0A (str_of b) in
      map (line_item strip_cr) (butlast ps) @
      (case err of
         Some e \<Rightarrow> [Inl e]
       | None \<Rightarrow> if last ps = [] then [] else [line_item id (last ps)]))"

fun until_err :: "('e + 'a) list \<Rightarrow> 'a list \<times> 'e option" where
  "until_err [] = ([], None)"
| "until_err (Inl e # xs) = ([], Some e)"
| "until_err (Inr x # xs) = (let (ys, e) = until_err xs in (x # ys, e))"

fun interleave :: "bool list \<Rightarrow> 'a list \<Rightarrow> 'a list \<Rightarrow> 'a list" where
  "interleave bs [] ys = ys"
| "interleave bs xs [] = xs"
| "interleave [] xs ys = xs @ ys"
| "interleave (b # bs) (x # xs) (y # ys) =
     (if b then x # interleave bs xs (y # ys) else y # interleave bs (x # xs) ys)"

lemma append_shuffles: "xs @ ys \<in> shuffles xs ys"
  by (induction xs) (simp_all add: Cons_in_shuffles_iff)

lemma interleave_shuffles: "interleave bs xs ys \<in> shuffles xs ys"
  by (induction bs xs ys rule: interleave.induct) (auto simp: Cons_in_shuffles_iff append_shuffles)

section \<open>Streaming a child\<close>

definition debug_code :: "nat option \<Rightarrow> string" where
  "debug_code c = (case c of None \<Rightarrow> ''None'' | Some n \<Rightarrow> ''Some('' @ dec n @ '')'')"

text \<open>The events handed to the sink, and the captured standard output.\<close>

definition stream_command ::
  "env \<Rightarrow> string \<Rightarrow> string list \<Rightarrow> string \<Rightarrow> event list \<times> bytes res" where
  "stream_command E program args cwd =
     (case confined_spawn E program args cwd of
        Inl _ \<Rightarrow> ([], Inl (Fail ''failed to spawn child''))
      | Inr c \<Rightarrow>
         let (out, out_err) = until_err (pipe_lines (cd_stdout c) (cd_stdout_err c));
             (err, err_err) = until_err (pipe_lines (cd_stderr c) (cd_stderr_err c))
         in (map Build (interleave (cd_schedule c) out err),
             bnd (map_err (\<lambda>_. Fail ''waiting for child'') (cd_wait c)) (\<lambda>status.
             if out_err \<noteq> None then Inl (Fail ''reading child stdout'')
             else if err_err \<noteq> None then Inl (Fail ''reading child stderr'')
             else if \<not> fst status
             then Inl (Fail (''child exited unsuccessfully (exit '' @ debug_code (snd status) @ '')''))
             else Inr (as_bytes (concat (map (\<lambda>l. l @ nl) out))))))"

definition stream_act :: "env \<Rightarrow> string \<Rightarrow> string list \<Rightarrow> string \<Rightarrow> (string \<Rightarrow> string) \<Rightarrow> bytes act" where
  "stream_act E program args cwd msg =
     (\<lambda>w. let (events, r) = stream_command E program args cwd in
       (map_err (\<lambda>e. case e of Fail m \<Rightarrow> Fail (msg m) | Panic m \<Rightarrow> Panic m) r,
        w\<lparr>wo_trace := wo_trace w @ events\<rparr>))"

lemma until_err_map: "until_err (map Inr ys) = (ys, None)"
  by (induction ys) auto

lemma until_err_None: "snd (until_err xs) = None \<Longrightarrow> xs = map Inr (fst (until_err xs))"
  by (induction xs rule: until_err.induct) (auto split: prod.splits)

lemma until_err_ok: "until_err xs = (ys, None) \<longleftrightarrow> xs = map Inr ys"
  using until_err_map until_err_None [of xs] by auto

lemma stream_command_Inr:
  assumes "stream_command E program args cwd = (events, Inr b)"
  obtains c out err where "confined_spawn E program args cwd = Inr c"
    "pipe_lines (cd_stdout c) (cd_stdout_err c) = map Inr out"
    "pipe_lines (cd_stderr c) (cd_stderr_err c) = map Inr err"
    "\<exists>code. cd_wait c = Inr (True, code)"
    "b = as_bytes (concat (map (\<lambda>l. l @ nl) out))"
    "events = map Build (interleave (cd_schedule c) out err)"
proof -
  obtain c where c: "confined_spawn E program args cwd = Inr c"
    using assms by (auto simp: stream_command_def split: sum.splits)
  obtain out oe where o: "until_err (pipe_lines (cd_stdout c) (cd_stdout_err c)) = (out, oe)" by fastforce
  obtain err ee where e: "until_err (pipe_lines (cd_stderr c) (cd_stderr_err c)) = (err, ee)" by fastforce
  have "oe = None \<and> ee = None \<and> (\<exists>code. cd_wait c = Inr (True, code))
      \<and> b = as_bytes (concat (map (\<lambda>l. l @ nl) out))
      \<and> events = map Build (interleave (cd_schedule c) out err)"
  proof (cases "cd_wait c")
    case (Inr status)
    then show ?thesis
      using assms unfolding stream_command_def
      by (cases status; cases oe; cases ee; cases "fst status") (simp_all add: c o e)
  qed (use assms in \<open>simp add: stream_command_def c o e\<close>)
  then show ?thesis using o e by (intro that [OF c, of out err]) (simp_all add: until_err_ok)
qed

text \<open>A line captured is never split again: it has no line feed.\<close>

lemma pipe_lines_no_nl:
  assumes "Inr l \<in> set (pipe_lines b err)"
  shows "CHR 0x0A \<notin> set l"
proof -
  have p: "CHR 0x0A \<notin> set p" if "p \<in> set (split_on CHR 0x0A (str_of b))" for p
    using that by (rule split_on_parts)
  have s: "set (strip_cr p) \<subseteq> set p" for p by (auto simp: strip_cr_def dest: in_set_butlastD)
  have "last (split_on CHR 0x0A (str_of b)) \<in> set (split_on CHR 0x0A (str_of b))" by simp
  then show ?thesis using assms p s
    by (fastforce simp: pipe_lines_def Let_def line_item_def dest: in_set_butlastD split: if_splits option.splits)
qed

lemma split_on_lines:
  "\<forall>l \<in> set ls. d \<notin> set l \<Longrightarrow> split_on d (concat (map (\<lambda>l. l @ [d]) ls)) = ls @ [[]]"
  by (induction ls) (simp_all add: split_on_append)

section \<open>The Merkle root and the statement\<close>

definition compute_merkle_root :: "lib \<Rightarrow> (bytes list \<Rightarrow> bytes option) \<Rightarrow> string list \<Rightarrow> string res" where
  "compute_merkle_root L M entries =
     map_ok (hex_encode L)
       (need (Fail ''Merkle tree root calculation failed!'') (M (map (\<lambda>e. sha256 L (as_bytes e)) entries)))"

definition assemble_provenance ::
  "git_context \<Rightarrow> build_metadata \<Rightarrow> artifact list \<Rightarrow> string \<Rightarrow> provenance_fields \<Rightarrow> provenance" where
  "assemble_provenance git bm artifacts merkle_root pf = \<lparr>
     pv_type = ''https://in-toto.io/Statement/v1'',
     pv_predicate = \<lparr>
       pr_build_definition = \<lparr>
         bd_build_type = pf_build_type pf,
         bd_external_parameters = \<lparr>
           ep_build_command = pf_build_command pf,
           ep_source = \<lparr>src_digest = \<lparr>sd_git_commit = gc_commit git, sd_git_tree = gc_tree git\<rparr>,
                        src_uri = gc_source_uri git\<rparr>\<rparr>,
         bd_internal_parameters = pf_internal pf,
         bd_resolved_dependencies = pf_dependencies pf\<rparr>,
       pr_run_details = \<lparr>
         rn_builder = \<lparr>bi_id = ''https://confidential.ai/attested-builds''\<rparr>,
         rn_byproducts = [\<lparr>by_digest = Sha256 merkle_root, by_name = ''input_merkle_root''\<rparr>],
         rn_metadata = \<lparr>md_invocation_id = bm_invocation_id bm, md_started_on = bm_started_on bm,
                        md_finished_on = bm_finished_on bm\<rparr>\<rparr>\<rparr>,
     pv_predicate_type = ''https://slsa.dev/provenance/v1'',
     pv_subject = map (\<lambda>a. \<lparr>sub_digest = Sha256 (art_checksum a), sub_name = art_name a\<rparr>) artifacts\<rparr>"

text \<open>Without collisions the root determines the entries.\<close>

lemma root_determines_entries:
  assumes "hex_ok L" and "inj_on (sha256 L) (as_bytes ` (set xs \<union> set ys))"
    and "inj_on M {map (\<lambda>e. sha256 L (as_bytes e)) xs, map (\<lambda>e. sha256 L (as_bytes e)) ys}"
    and "compute_merkle_root L M xs = Inr r" and "compute_merkle_root L M ys = Inr r"
  shows "xs = ys"
proof -
  let ?h = "\<lambda>e. sha256 L (as_bytes e)"
  have "M (map ?h xs) = M (map ?h ys)"
    using assms(1,4,5) by (auto simp: compute_merkle_root_def hex_inject)
  then have "map ?h xs = map ?h ys" using assms(3) by (auto dest: inj_onD)
  moreover have "inj_on ?h (set xs \<union> set ys)"
    using assms(2) by (auto simp: inj_on_def)
  ultimately show "xs = ys" by (simp add: map_inj_on)
qed

section \<open>The pipeline\<close>

text \<open>
  The build runs code of the repository in its directory, so it may leave anything in
  \<open>kettle-build\<close>: \<open>plant\<close> is what is there when the build has ended.
\<close>

definition clean_output :: "env \<Rightarrow> string \<Rightarrow> unit act" where
  "clean_output E output_dir =
     act_bind (io_act E Exists output_dir id) (\<lambda>_.
     act_bind (\<lambda>w. (if wo_exists w
          then io_act E RemoveDirAll output_dir
                 (\<lambda>w. w\<lparr>wo_exists := False, wo_artifacts := None, wo_files := (\<lambda>_. None)\<rparr>)
          else lift (Inr ())) w) (\<lambda>_.
     io_act E CreateDirAll output_dir (\<lambda>w. w\<lparr>wo_exists := True\<rparr>)))"

type_synonym plant = "world \<Rightarrow> (string \<Rightarrow> bytes option) option \<times> (string \<Rightarrow> bytes option)"

definition leave :: "plant \<Rightarrow> world \<Rightarrow> world" where
  "leave pl w = w\<lparr>wo_artifacts := fst (pl w), wo_files := snd (pl w)\<rparr>"

definition run ::
  "'i driver \<Rightarrow> lib \<Rightarrow> (bytes list \<Rightarrow> bytes option) \<Rightarrow> env \<Rightarrow> plant \<Rightarrow> string \<Rightarrow> unit act" where
  "run D L M E pl path =
     (let output_dir = path_join path ''kettle-build'';
          artifacts_dir = path_join output_dir ''artifacts'' in
      act_bind (clean_output E output_dir) (\<lambda>_.
      act_bind (lift (git_context_from_dir (en_before E) path)) (\<lambda>git.
      act_bind (lift (map_err Fail (h_read (en_before E) (path_join path (lockfile_filename D)))))
        (\<lambda>lockfile_bytes.
      let lockfile_hash = hex_encode L (sha256 L lockfile_bytes) in
      act_bind (lift (collect_inputs D L E path git lockfile_hash lockfile_bytes)) (\<lambda>inputs.
      let started = metadata_start L (en_uuid E) (en_started E) in
      act_bind (send_event (Build (''Running '' @ backquoted (build_command_display D)))) (\<lambda>_.
      act_bind (run_build D E path) (\<lambda>build_output.
      act_bind (modify (leave pl)) (\<lambda>_.
      act_bind (send_event (Build ''Build command finished'')) (\<lambda>_.
      act_bind (io_act E CreateDirAll artifacts_dir
          (\<lambda>w. w\<lparr>wo_exists := True, wo_artifacts := Some (case wo_artifacts w of None \<Rightarrow> Map.empty | Some m \<Rightarrow> m)\<rparr>))
        (\<lambda>_.
      act_bind (collect_artifacts D L E build_output path artifacts_dir) (\<lambda>artifacts.
      act_bind (lift (compute_merkle_root L M (merkle_entries D inputs git lockfile_hash))) (\<lambda>merkle_root.
      let p = assemble_provenance git (metadata_finish (en_finished E) started) artifacts merkle_root
                (provenance_fields_of D inputs git merkle_root) in
      act_bind (io_act E WriteTo (path_join output_dir ''provenance.json'')
          (\<lambda>w. w\<lparr>wo_files := (wo_files w)(''provenance.json'' \<mapsto> as_bytes (to_json L p))\<rparr>)) (\<lambda>_.
      send_event (ProvenanceEvent ''Wrote provenance.json''))))))))))))))"

section \<open>Listing the output\<close>

text \<open>A directory holding these files, listed in any order; all names are UTF-8.\<close>

definition lists_dir :: "(string \<Rightarrow> bytes option) \<Rightarrow> dir_entry list \<Rightarrow> bool" where
  "lists_dir m es =
     ((\<forall>e \<in> set es. \<exists>n b. de_name e = as_bytes n \<and> utf8_valid (as_bytes n) \<and> m n = Some b \<and> de_read e = Inr b)
      \<and> (\<forall>n \<in> dom m. \<exists>e \<in> set es. de_name e = as_bytes n))"

lemma entry_name_utf8: "de_name e = as_bytes n \<Longrightarrow> utf8_valid (as_bytes n) \<Longrightarrow> entry_name e = n"
  by (simp add: entry_name_def from_utf8_lossy_def utf8_lossy_valid)

lemma lists_dir_entry:
  "lists_dir m es \<Longrightarrow> e \<in> set es \<Longrightarrow> \<exists>b. m (entry_name e) = Some b \<and> de_read e = Inr b"
  unfolding lists_dir_def using entry_name_utf8 by metis

lemma lists_dir_complete:
  assumes "lists_dir m es" and "m n = Some b"
  shows "\<exists>e \<in> set es. entry_name e = n"
proof -
  obtain e where e: "e \<in> set es" "de_name e = as_bytes n"
    using assms unfolding lists_dir_def by blast
  then have "utf8_valid (as_bytes n)" using assms(1) unfolding lists_dir_def by fastforce
  then show ?thesis using e entry_name_utf8 by blast
qed

lemma artifacts_verify:
  assumes arts: "lists_dir m arts" and top: "lists_dir files top_level"
    and s: "\<And>s. s \<in> set (pv_subject p) \<Longrightarrow> files (sub_name s) = None \<and>
      (\<exists>b. m (sub_name s) = Some b \<and> digest_text (sub_digest s) = hex_encode L (sha256 L b))"
  shows "\<exists>rep. verify_artifacts L p top_level arts = Inr rep \<and> list_all is_success (ar_results rep)"
proof -
  have copy: "e \<in> set arts \<and> (\<exists>b. de_read e = Inr b \<and> hex_encode L (sha256 L b) = digest_text (sub_digest s))"
    if "s \<in> set (pv_subject p)" "e \<in> set (copies top_level arts s)" for s e
  proof -
    have e: "e \<in> set top_level \<or> e \<in> set arts" "entry_name e = sub_name s"
      using that(2) by (auto simp: copies_def)
    then have "e \<in> set arts" using lists_dir_entry [OF top] s [OF that(1)] by fastforce
    then show ?thesis using lists_dir_entry [OF arts] s [OF that(1)] e(2) by fastforce
  qed
  have ne: "copies top_level arts s \<noteq> []" if "s \<in> set (pv_subject p)" for s
    using s [OF that] lists_dir_complete [OF arts] by (fastforce simp: copies_def filter_empty_conv)
  have "is_ok (verify_artifacts L p top_level arts)"
    unfolding is_ok_verify_artifacts using copy by (fastforce simp: is_ok_iff)
  then obtain rep where rep: "verify_artifacts L p top_level arts = Inr rep" by (auto simp: is_ok_iff)
  have "list_all is_success (ar_results rep)"
    unfolding verify_artifacts_success [OF rep] using ne copy by (fastforce simp: list_all_iff copy_matches_def)
  then show ?thesis using rep by blast
qed

section \<open>The contract of a driver\<close>

text \<open>An action that changes nothing but the trace, which it extends.\<close>

definition only_traces :: "'a act \<Rightarrow> bool" where
  "only_traces m =
     (\<forall>w r w'. m w = (r, w') \<longrightarrow>
        wo_artifacts w' = wo_artifacts w \<and> wo_files w' = wo_files w \<and> wo_exists w' = wo_exists w
        \<and> (\<exists>es. wo_trace w' = wo_trace w @ es))"

lemma only_traces_bind:
  assumes "only_traces m" and "\<And>x. only_traces (k x)"
  shows "only_traces (act_bind m k)"
  unfolding only_traces_def
proof (intro allI impI)
  fix w r w' assume r: "act_bind m k w = (r, w')"
  obtain q v where q: "m w = (q, v)" by fastforce
  have s: "wo_artifacts v = wo_artifacts w \<and> wo_files v = wo_files w \<and> wo_exists v = wo_exists w
      \<and> (\<exists>es. wo_trace v = wo_trace w @ es)"
    using assms(1) q unfolding only_traces_def by blast
  show "wo_artifacts w' = wo_artifacts w \<and> wo_files w' = wo_files w \<and> wo_exists w' = wo_exists w
      \<and> (\<exists>es. wo_trace w' = wo_trace w @ es)"
  proof (cases q)
    case (Inl e)
    then show ?thesis using r q s by (simp add: act_bind_def)
  next
    case (Inr x)
    then have "k x v = (r, w')" using r q by (simp add: act_bind_def)
    then have "wo_artifacts w' = wo_artifacts v \<and> wo_files w' = wo_files v \<and> wo_exists w' = wo_exists v
        \<and> (\<exists>es. wo_trace w' = wo_trace v @ es)"
      using assms(2) unfolding only_traces_def by blast
    then show ?thesis using s by auto
  qed
qed

lemma only_traces_stream: "only_traces (stream_act E program args cwd msg)"
  by (auto simp: only_traces_def stream_act_def split: prod.splits)

locale toolchain_driver =
  fixes D :: "'i driver"
  assumes merkle_head: "\<exists>rest. merkle_entries D i g h = gc_commit g # gc_tree g # rest"
    and merkle_lockfile: "merkle_entries D i g h = merkle_entries D j g' h' \<Longrightarrow> h = h'"
    and fields_build_type: "pf_build_type (provenance_fields_of D i g r) = BUILD_TYPE"
    and fields_command: "pf_build_command (provenance_fields_of D i g r) = build_command_display D"
    and fields_lockfile: "collect_inputs D L E path g h b = Inr i \<Longrightarrow>
          ip_lockfile_hash (pf_internal (provenance_fields_of D i g r)) = Sha256 h"
    and build_frame: "only_traces (run_build D E path)"
    and collect_stages: "collect_artifacts D L E out path dir w = (Inr arts, w') \<Longrightarrow>
          wo_artifacts w \<noteq> None \<Longrightarrow>
          stages L w arts w'"
begin

text \<open>Equal roots, equal sources.\<close>

lemma root_binds_sources:
  assumes "hex_ok L"
    and "inj_on (sha256 L) (as_bytes ` (set (merkle_entries D i g h) \<union> set (merkle_entries D j g' h')))"
    and "inj_on M {map (\<lambda>e. sha256 L (as_bytes e)) (merkle_entries D i g h),
                   map (\<lambda>e. sha256 L (as_bytes e)) (merkle_entries D j g' h')}"
    and "compute_merkle_root L M (merkle_entries D i g h) = Inr r"
    and "compute_merkle_root L M (merkle_entries D j g' h') = Inr r"
  shows "merkle_entries D i g h = merkle_entries D j g' h' \<and> gc_commit g = gc_commit g'
    \<and> gc_tree g = gc_tree g' \<and> h = h'"
proof -
  have eq: "merkle_entries D i g h = merkle_entries D j g' h'"
    using assms by (rule root_determines_entries)
  then show ?thesis
    using merkle_head [of i g h] merkle_head [of j g' h'] merkle_lockfile [OF eq] by auto
qed

text \<open>What a successful run did and left behind.\<close>

lemma run_success:
  assumes "run D L M E pl path w = (Inr u, w')"
  obtains git lock inputs artifacts root p where
    "git_context_from_dir (en_before E) path = Inr git"
    "h_read (en_before E) (path_join path (lockfile_filename D)) = Inr lock"
    "collect_inputs D L E path git (hex_encode L (sha256 L lock)) lock = Inr inputs"
    "compute_merkle_root L M (merkle_entries D inputs git (hex_encode L (sha256 L lock))) = Inr root"
    "p = assemble_provenance git (metadata_finish (en_finished E) (metadata_start L (en_uuid E) (en_started E)))
           artifacts root (provenance_fields_of D inputs git root)"
    "wo_files w' ''provenance.json'' = Some (as_bytes (to_json L p))"
    "wo_artifacts w' \<noteq> None"
    "distinct (map art_name artifacts) \<longrightarrow> (\<forall>a \<in> set artifacts. \<exists>b. staged w' (art_name a) = Some b \<and>
       art_checksum a = hex_encode L (sha256 L b))"
    "\<exists>es. wo_trace w' = wo_trace w @ Build (''Running '' @ backquoted (build_command_display D)) # es
       @ [Build ''Build command finished'', ProvenanceEvent ''Wrote provenance.json'']"
proof -
  let ?out = "path_join path ''kettle-build''"
  let ?started = "metadata_start L (en_uuid E) (en_started E)"
  obtain w1 git lock inputs outp w2 artifacts w3 root where
      clean: "clean_output E ?out w = (Inr (), w1)"
    and git: "git_context_from_dir (en_before E) path = Inr git"
    and lock: "h_read (en_before E) (path_join path (lockfile_filename D)) = Inr lock"
    and inputs: "collect_inputs D L E path git (hex_encode L (sha256 L lock)) lock = Inr inputs"
    and build: "run_build D E path
        (w1\<lparr>wo_trace := wo_trace w1 @ [Build (''Running '' @ backquoted (build_command_display D))]\<rparr>) = (Inr outp, w2)"
    and collect: "collect_artifacts D L E outp path (path_join ?out ''artifacts'')
        (let w = (leave pl w2)\<lparr>wo_trace := wo_trace (leave pl w2) @ [Build ''Build command finished'']\<rparr> in
         w\<lparr>wo_exists := True, wo_artifacts := Some (case wo_artifacts w of None \<Rightarrow> Map.empty | Some m \<Rightarrow> m)\<rparr>)
        = (Inr artifacts, w3)"
    and root: "compute_merkle_root L M (merkle_entries D inputs git (hex_encode L (sha256 L lock))) = Inr root"
    and w': "w' = (let p = assemble_provenance git (metadata_finish (en_finished E) ?started)
           artifacts root (provenance_fields_of D inputs git root) in
        w3\<lparr>wo_files := (wo_files w3)(''provenance.json'' \<mapsto> as_bytes (to_json L p)),
           wo_trace := wo_trace w3 @ [ProvenanceEvent ''Wrote provenance.json'']\<rparr>)"
    using assms by (auto simp: run_def Let_def)
  have t1: "wo_trace w1 = wo_trace w"
    using clean by (auto simp: clean_output_def split: if_splits)
  obtain es where t2: "wo_trace w2 = wo_trace w1 @ [Build (''Running '' @ backquoted (build_command_display D))] @ es"
    using build_frame [of E path, unfolded only_traces_def, rule_format, OF build] by auto
  note st = collect_stages [OF collect, unfolded stages_def]
  have st': "wo_artifacts w3 \<noteq> None" "wo_trace w3 = wo_trace w2 @ [Build ''Build command finished'']"
      "distinct (map art_name artifacts) \<longrightarrow> (\<forall>a \<in> set artifacts. \<exists>b. staged w3 (art_name a) = Some b \<and>
         art_checksum a = hex_encode L (sha256 L b))"
    using st by (simp_all add: Let_def leave_def)
  show ?thesis
  proof (rule that [OF git lock inputs root refl])
    show "\<exists>es. wo_trace w' = wo_trace w @ Build (''Running '' @ backquoted (build_command_display D)) # es
       @ [Build ''Build command finished'', ProvenanceEvent ''Wrote provenance.json'']"
      using t1 t2 st'(2) by (auto simp: w' Let_def)
  qed (use st' in \<open>simp_all add: w' Let_def staged_def\<close>)
qed

text \<open>A successful run verifies: the statement it writes is well formed and its artifacts are the staged files.\<close>

lemma run_verifies:
  assumes "run D L M E pl path w = (Inr u, w')"
  obtains p where
    "wo_files w' ''provenance.json'' = Some (as_bytes (to_json L p))"
    "is_success (verify_predicate p)"
    "bd_build_type (pr_build_definition (pv_predicate p)) = BUILD_TYPE"
    "ep_build_command (bd_external_parameters (pr_build_definition (pv_predicate p))) = build_command_display D"
    "\<exists>lock. h_read (en_before E) (path_join path (lockfile_filename D)) = Inr lock \<and>
       ip_lockfile_hash (bd_internal_parameters (pr_build_definition (pv_predicate p))) =
         Sha256 (hex_encode L (sha256 L lock))"
    "\<And>files arts top_level. lists_dir (staged w') arts \<Longrightarrow> lists_dir files top_level \<Longrightarrow>
       distinct (map sub_name (pv_subject p)) \<Longrightarrow> (\<forall>s \<in> set (pv_subject p). files (sub_name s) = None) \<Longrightarrow>
       \<exists>rep. verify_artifacts L p top_level arts = Inr rep \<and> list_all is_success (ar_results rep)"
proof (rule run_success [OF assms], goal_cases)
  case (1 git lock inputs artifacts root p)
  have pred: "is_success (verify_predicate p)"
    by (simp add: 1(6) assemble_provenance_def verify_predicate_def statement_type_def slsa_predicate_type_def)
  have "map sub_name (pv_subject p) = map art_name artifacts"
    by (simp add: 1(6) assemble_provenance_def o_def)
  moreover have "\<exists>b. staged w' (sub_name s) = Some b \<and> digest_text (sub_digest s) = hex_encode L (sha256 L b)"
    if "s \<in> set (pv_subject p)" "distinct (map art_name artifacts)" for s
    using that 1(9) by (auto simp: 1(6) assemble_provenance_def)
  ultimately have ver: "\<exists>rep. verify_artifacts L p top_level arts = Inr rep \<and> list_all is_success (ar_results rep)"
    if "lists_dir (staged w') arts" "lists_dir files top_level"
       "distinct (map sub_name (pv_subject p))" "\<forall>s \<in> set (pv_subject p). files (sub_name s) = None"
    for files arts top_level
    using that by (intro artifacts_verify) auto
  show ?case
    by (rule that [OF 1(7) pred _ _ _ ver])
      (use 1(3) fields_lockfile [OF 1(4)] in \<open>simp_all add: 1(6) assemble_provenance_def fields_build_type fields_command\<close>)
qed

end

section \<open>Properties\<close>

lemma map_interleave: "map f (interleave bs xs ys) = interleave bs (map f xs) (map f ys)"
  by (induction bs xs ys rule: interleave.induct) auto

text \<open>
  C31. A command succeeds exactly when its child starts confined, both its pipes are read to the end as
  UTF-8 lines, and it exits successfully. Then the captured bytes are the lines of its standard output,
  each ended by one line feed, which split again into the same lines; and the events are a shuffle of
  the lines of the two pipes, so every line is emitted once and in the order of its pipe.
\<close>

theorem stream_command_outcome:
  "snd (stream_command E program args cwd) = Inr b \<longleftrightarrow>
     (\<exists>c out err code. confined_spawn E program args cwd = Inr c
        \<and> pipe_lines (cd_stdout c) (cd_stdout_err c) = map Inr out
        \<and> pipe_lines (cd_stderr c) (cd_stderr_err c) = map Inr err
        \<and> cd_wait c = Inr (True, code)
        \<and> b = as_bytes (concat (map (\<lambda>l. l @ nl) out)) \<and> split_on CHR 0x0A (str_of b) = out @ [[]]
        \<and> fst (stream_command E program args cwd) \<in> shuffles (map Build out) (map Build err))"
proof
  assume "snd (stream_command E program args cwd) = Inr b"
  then obtain events where s: "stream_command E program args cwd = (events, Inr b)" by (metis prod.collapse)
  then show "\<exists>c out err code. confined_spawn E program args cwd = Inr c
        \<and> pipe_lines (cd_stdout c) (cd_stdout_err c) = map Inr out
        \<and> pipe_lines (cd_stderr c) (cd_stderr_err c) = map Inr err
        \<and> cd_wait c = Inr (True, code)
        \<and> b = as_bytes (concat (map (\<lambda>l. l @ nl) out)) \<and> split_on CHR 0x0A (str_of b) = out @ [[]]
        \<and> fst (stream_command E program args cwd) \<in> shuffles (map Build out) (map Build err)"
  proof (rule stream_command_Inr, goal_cases)
    case (1 c out err)
    have "\<forall>l \<in> set out. CHR 0x0A \<notin> set l"
      using pipe_lines_no_nl [of _ "cd_stdout c" "cd_stdout_err c"] by (simp add: 1(2))
    then have "split_on CHR 0x0A (str_of b) = out @ [[]]" using split_on_lines by (simp add: 1(5))
    moreover have "events \<in> shuffles (map Build out) (map Build err)"
      by (simp add: 1(6) map_interleave interleave_shuffles)
    ultimately show ?case using 1 s by auto
  qed
next
  assume "\<exists>c out err code. confined_spawn E program args cwd = Inr c
        \<and> pipe_lines (cd_stdout c) (cd_stdout_err c) = map Inr out
        \<and> pipe_lines (cd_stderr c) (cd_stderr_err c) = map Inr err
        \<and> cd_wait c = Inr (True, code)
        \<and> b = as_bytes (concat (map (\<lambda>l. l @ nl) out)) \<and> split_on CHR 0x0A (str_of b) = out @ [[]]
        \<and> fst (stream_command E program args cwd) \<in> shuffles (map Build out) (map Build err)"
  then show "snd (stream_command E program args cwd) = Inr b"
    by (auto simp: stream_command_def until_err_map)
qed

end
