(* ===== verification/Cargo_Lock.thy ===== *)
theory Cargo_Lock
  imports Driver
begin

text \<open>
  The dependencies of a Rust project (\<open>src/src/toolchain/cargo_lock.rs\<close>): the path dependencies the
  manifests declare outside the project, the classification of every package of \<open>Cargo.lock\<close>, and the
  sorted list of both. The TOML and YAML parsers are parameters, the fields of \<open>cfg_lib\<close>.
\<close>

section \<open>TOML\<close>

text \<open>A table is the list of its entries in the order its iterator gives them.\<close>

datatype toml =
    TString string
  | TInteger int
  | TFloat u64
  | TBoolean bool
  | TDatetime string
  | TArray "toml list"
  | TTable "(string \<times> toml) list"

datatype yaml =
    YNull
  | YBool bool
  | YNumber string
  | YString string
  | YSeq "yaml list"
  | YMap "(yaml \<times> yaml) list"
  | YTagged string yaml

record cfg_lib =
  toml_parse :: "string \<Rightarrow> string + toml"
  yaml_parse :: "bytes \<Rightarrow> string + yaml"

definition tget :: "string \<Rightarrow> toml \<Rightarrow> toml option" where
  "tget k v = (case v of TTable m \<Rightarrow> map_of m k | _ \<Rightarrow> None)"

definition as_table :: "toml \<Rightarrow> (string \<times> toml) list option" where
  "as_table v = (case v of TTable m \<Rightarrow> Some m | _ \<Rightarrow> None)"

definition as_array :: "toml \<Rightarrow> toml list option" where
  "as_array v = (case v of TArray vs \<Rightarrow> Some vs | _ \<Rightarrow> None)"

definition as_str :: "toml \<Rightarrow> string option" where
  "as_str v = (case v of TString s \<Rightarrow> Some s | _ \<Rightarrow> None)"

definition get_table :: "string \<Rightarrow> toml \<Rightarrow> (string \<times> toml) list option" where
  "get_table k v = Option.bind (tget k v) as_table"

definition get_str :: "string \<Rightarrow> toml \<Rightarrow> string option" where
  "get_str k v = Option.bind (tget k v) as_str"

section \<open>Git state of a dependency\<close>

definition fault_msg :: "fault \<Rightarrow> string" where
  "fault_msg e = (case e of Fail m \<Rightarrow> m | Panic m \<Rightarrow> m)"

definition assert_clean :: "host \<Rightarrow> string \<Rightarrow> unit res" where
  "assert_clean h path =
     bnd (git_cmd h path [''status'', ''--porcelain'']) (\<lambda>out.
     if out \<noteq> []
     then Inl (Fail (''path dependency at '' @ to_string_lossy path @ '' has uncommitted changes:'' @ nl @ out))
     else Inr ())"

definition git_sha_at :: "host \<Rightarrow> string \<Rightarrow> string res" where
  "git_sha_at h path = git_cmd h path [''rev-parse'', ''HEAD'']"

section \<open>Manifests\<close>

definition read_toml :: "cfg_lib \<Rightarrow> host \<Rightarrow> string \<Rightarrow> toml res" where
  "read_toml C h path =
     bnd (map_err (\<lambda>_. Fail (''read manifest '' @ to_string_lossy path)) (h_read h path)) (\<lambda>b.
     bnd (need (Fail (''manifest '' @ to_string_lossy path @ '' is not utf-8'')) (from_utf8 b)) (\<lambda>text.
     map_err (\<lambda>_. Fail (''parse manifest '' @ to_string_lossy path)) (toml_parse C text)))"

definition trim_end_matches :: "char \<Rightarrow> string \<Rightarrow> string" where
  "trim_end_matches c s = rev (dropWhile (\<lambda>d. d = c) (rev s))"

definition expand_member_pattern :: "host \<Rightarrow> string \<Rightarrow> string \<Rightarrow> string list res" where
  "expand_member_pattern h project pattern =
     (if CHR ''*'' \<notin> set pattern then Inr [path_join project pattern]
      else if 1 < length (filter (\<lambda>c. c = CHR ''*'') pattern) \<or> \<not> ends_with ''*'' pattern
      then Inl (Fail (''unsupported glob pattern in workspace.members: '' @ backquoted pattern @
             '' (only literal paths or a single trailing '' @ backquoted ''*'' @ '' are supported)''))
      else
        let stem = trim_end_matches slash (trim_end_matches CHR ''*'' pattern);
            base = (if stem = [] then project else path_join project stem) in
        bnd (map_err (\<lambda>_. Fail (''read workspace member dir '' @ to_string_lossy base)) (h_read_dir h base))
          (\<lambda>entries.
        map_ok concat (mapM (\<lambda>entry.
          bnd (map_err Fail entry) (\<lambda>name.
          bnd (map_err Fail (h_file_type_dir h (path_join base name))) (\<lambda>is_dir.
          Inr (if is_dir then [path_join base name] else [])))) entries)))"

definition member_manifests :: "host \<Rightarrow> string \<Rightarrow> toml \<Rightarrow> string list res" where
  "member_manifests h project v =
     (case as_str v of
        None \<Rightarrow> Inr []
      | Some pattern \<Rightarrow>
         bnd (expand_member_pattern h project pattern) (\<lambda>dirs.
         map_ok concat (mapM (\<lambda>dir.
           let m = path_join dir ''Cargo.toml'' in
           if path_exists h m then Inr [m]
           else if CHR ''*'' \<in> set pattern then Inr []
           else Inl (Fail (''workspace member '' @ backquoted pattern @ '' resolved to '' @
                  to_string_lossy dir @ '' but no Cargo.toml is present''))) dirs)))"

definition discover_manifests :: "cfg_lib \<Rightarrow> host \<Rightarrow> string \<Rightarrow> string list res" where
  "discover_manifests C h project =
     (let root = path_join project ''Cargo.toml'' in
      bnd (read_toml C h root) (\<lambda>doc.
      case Option.bind (get_table ''workspace'' doc) (\<lambda>w. Option.bind (map_of w ''members'') as_array) of
        None \<Rightarrow> Inr [root]
      | Some members \<Rightarrow> map_ok (\<lambda>ms. root # concat ms) (mapM (member_manifests h project) members)))"

text \<open>One entry of a dependency table; the map goes from the key of the entry to its canonical path.\<close>

type_synonym path_deps = "string \<Rightarrow> string option"

definition visit_dep ::
  "host \<Rightarrow> string \<Rightarrow> string \<Rightarrow> string \<Rightarrow> string \<times> toml \<Rightarrow> path_deps \<Rightarrow> path_deps res" where
  "visit_dep h manifest dir project entry ext =
     (let (name, v) = entry in
      case Option.bind (as_table v) (\<lambda>t. Option.bind (map_of t ''path'') as_str) of
        None \<Rightarrow> Inr ext
      | Some rel \<Rightarrow>
         let joined = path_join dir rel in
         bnd (map_err (\<lambda>_. Fail (''canonicalize path dep '' @ backquoted name @ '' at '' @ to_string_lossy joined @
                '' (declared in '' @ to_string_lossy manifest @ '')'')) (h_canonicalize h joined)) (\<lambda>canon.
         if path_starts_with canon project then Inr ext
         else (case ext name of
             Some existing \<Rightarrow>
               if \<not> path_eq existing canon
               then Inl (Fail (''conflicting path declarations for '' @ backquoted name @ '': '' @
                      to_string_lossy existing @ '' vs '' @ to_string_lossy canon))
               else Inr ext
           | None \<Rightarrow> Inr (ext(name \<mapsto> canon)))))"

definition dep_keys :: "string list" where
  "dep_keys = [''dependencies'', ''dev-dependencies'', ''build-dependencies'']"

text \<open>The dependency tables of a manifest, in the order they are visited.\<close>

definition opt_list :: "'a option \<Rightarrow> 'a list" where
  "opt_list m = (case m of None \<Rightarrow> [] | Some x \<Rightarrow> [x])"

definition dep_tables :: "toml \<Rightarrow> (string \<times> toml) list list" where
  "dep_tables doc =
     concat (map (\<lambda>k. opt_list (get_table k doc)) dep_keys)
     @ (case get_table ''target'' doc of
          None \<Rightarrow> []
        | Some targets \<Rightarrow>
            concat (map (\<lambda>(_, block). concat (map (\<lambda>k. opt_list (get_table k block)) dep_keys)) targets))
     @ (case get_table ''patch'' doc of
          None \<Rightarrow> []
        | Some patch \<Rightarrow> concat (map (\<lambda>(_, block). opt_list (as_table block)) patch))"

definition extract_paths_from_manifest ::
  "cfg_lib \<Rightarrow> host \<Rightarrow> string \<Rightarrow> string \<Rightarrow> path_deps \<Rightarrow> path_deps res" where
  "extract_paths_from_manifest C h project manifest ext =
     bnd (read_toml C h manifest) (\<lambda>doc.
     bnd (need (Fail ''manifest path has no parent directory'') (path_parent manifest)) (\<lambda>dir.
     foldM (visit_dep h manifest dir project) (concat (dep_tables doc)) ext))"

definition collect_external_path_deps :: "cfg_lib \<Rightarrow> host \<Rightarrow> string \<Rightarrow> path_deps res" where
  "collect_external_path_deps C h path =
     bnd (map_err (\<lambda>_. Fail (''canonicalize project path '' @ to_string_lossy path)) (h_canonicalize h path))
       (\<lambda>project.
     bnd (discover_manifests C h project) (\<lambda>manifests.
     foldM (extract_paths_from_manifest C h project) manifests Map.empty))"

section \<open>Packages\<close>

definition pct_char :: "char \<Rightarrow> string" where
  "pct_char c =
     (if c = CHR ''?'' then ''%3F'' else if c = CHR ''#'' then ''%23''
      else if c = CHR ''&'' then ''%26'' else if c = CHR '' '' then ''%20'' else [c])"

definition pct_encode :: "string \<Rightarrow> string" where
  "pct_encode s = concat (map pct_char s)"

text \<open>A package with a source: a registry or a git repository.\<close>

definition classify_source :: "string \<Rightarrow> string \<Rightarrow> string \<Rightarrow> toml \<Rightarrow> resolved_dependency res" where
  "classify_source name version src pkg =
     (let at = name @ ''@'' @ version in
      if starts_with ''registry+'' src then
        bnd (need (Fail (''cargo dependency '' @ at @ '' from registry has no checksum''))
               (get_str ''checksum'' pkg)) (\<lambda>checksum.
        Inr \<lparr>rd_annotations = None, rd_digest = Sha256 checksum, rd_name = name,
             rd_uri = ''pkg:cargo/'' @ at @ ''?checksum=sha256:'' @ checksum\<rparr>)
      else if starts_with ''git+'' src then
        bnd (need (Fail (''cargo dependency '' @ at @ '' has git source without commit: '' @ src))
               (rsplit_once CHR ''#'' (drop 4 src))) (\<lambda>(url, commit).
        Inr \<lparr>rd_annotations = None, rd_digest = GitCommit commit, rd_name = name,
             rd_uri = ''pkg:cargo/'' @ at @ ''?vcs_url=git+'' @ pct_encode url @ ''@'' @ commit\<rparr>)
      else Inl (Fail (''cargo dependency '' @ at @ '' has unrecognized source: '' @ src)))"

text \<open>A path dependency outside the project: its working tree must be clean.\<close>

definition classify_path :: "host \<Rightarrow> string \<Rightarrow> string \<Rightarrow> string \<Rightarrow> string \<Rightarrow> resolved_dependency res" where
  "classify_path h project name version dep =
     bnd (map_err (\<lambda>e. Fail (''verifying path dependency '' @ name @ '' at '' @ to_string_lossy dep @
            '': '' @ fault_msg e)) (assert_clean h dep)) (\<lambda>_.
     bnd (map_err (\<lambda>e. Fail (''path dependency '' @ name @ '' at '' @ to_string_lossy dep @
            '' is not a git repository: '' @ fault_msg e)) (git_sha_at h dep)) (\<lambda>commit.
     let relpath = to_string_lossy (relative_path project dep) in
     Inr \<lparr>rd_annotations = None, rd_digest = GitCommit commit, rd_name = name,
          rd_uri = ''pkg:cargo/'' @ name @ ''@'' @ version @ ''?vcs_url=git+file:'' @ pct_encode relpath @
                   ''@'' @ commit\<rparr>))"

definition classify_package ::
  "host \<Rightarrow> path_deps \<Rightarrow> string \<Rightarrow> toml \<Rightarrow> resolved_dependency option res" where
  "classify_package h ext project pkg =
     bnd (need (Fail ''lockfile package missing name field'') (get_str ''name'' pkg)) (\<lambda>name.
     bnd (need (Fail (''lockfile package '' @ backquoted name @ '' missing version field''))
            (get_str ''version'' pkg)) (\<lambda>version.
     case get_str ''source'' pkg of
       Some src \<Rightarrow> map_ok Some (classify_source name version src pkg)
     | None \<Rightarrow>
         (case ext name of
            Some dep \<Rightarrow> map_ok Some (classify_path h project name version dep)
          | None \<Rightarrow> Inr None)))"

definition resolve_dependencies ::
  "cfg_lib \<Rightarrow> host \<Rightarrow> string \<Rightarrow> bytes \<Rightarrow> resolved_dependency list res" where
  "resolve_dependencies C h path lockfile =
     bnd (map_err (\<lambda>_. Fail (''canonicalize project path '' @ to_string_lossy path)) (h_canonicalize h path))
       (\<lambda>project.
     bnd (collect_external_path_deps C h path) (\<lambda>ext.
     bnd (need (Fail ''Cargo.lock is not utf-8'') (from_utf8 lockfile)) (\<lambda>text.
     bnd (map_err (\<lambda>_. Fail ''parse Cargo.lock'') (toml_parse C text)) (\<lambda>lock.
     case Option.bind (tget ''package'' lock) as_array of
       None \<Rightarrow> Inr []
     | Some packages \<Rightarrow>
         map_ok (\<lambda>ds. sort_key rd_uri (somes ds)) (mapM (classify_package h ext project) packages)))))"

section \<open>Lemmas\<close>

interpretation dep_sort: stable_sorter "sort_key rd_uri" rd_uri
  by (rule stable_sorter_sort_key)

text \<open>
  What the list owes a package: a registry package its checksum, a git package the commit after the
  last \<open>#\<close>, a path dependency the head of a clean repository.
\<close>

definition accounts_for :: "host \<Rightarrow> path_deps \<Rightarrow> toml \<Rightarrow> resolved_dependency \<Rightarrow> bool" where
  "accounts_for h ext pkg d =
     (get_str ''name'' pkg = Some (rd_name d) \<and> rd_annotations d = None \<and>
      (case get_str ''source'' pkg of
         Some src \<Rightarrow>
           (starts_with ''registry+'' src \<and> (\<exists>c. get_str ''checksum'' pkg = Some c \<and> rd_digest d = Sha256 c))
           \<or> (\<exists>url c. src = ''git+'' @ url @ ''#'' @ c \<and> CHR ''#'' \<notin> set c \<and> rd_digest d = GitCommit c)
       | None \<Rightarrow>
           (\<exists>dep c. ext (rd_name d) = Some dep \<and> git_cmd h dep [''status'', ''--porcelain''] = Inr []
              \<and> git_cmd h dep [''rev-parse'', ''HEAD''] = Inr c \<and> rd_digest d = GitCommit c)))"

lemma classify_source_accounts:
  assumes "classify_source name version src pkg = Inr d"
    and "get_str ''name'' pkg = Some name" and "get_str ''source'' pkg = Some src"
  shows "accounts_for h ext pkg d"
proof (cases "starts_with ''registry+'' src")
  case True
  then show ?thesis using assms by (auto simp: classify_source_def accounts_for_def Let_def)
next
  case False
  then have g: "starts_with ''git+'' src"
    using assms(1) by (simp add: classify_source_def Let_def split: if_splits)
  then obtain url c where "drop 4 src = url @ CHR ''#'' # c" "CHR ''#'' \<notin> set c" "rd_digest d = GitCommit c"
      "rd_name d = name" "rd_annotations d = None"
    using assms(1) False by (auto simp: classify_source_def Let_def rsplit_once_Some_iff)
  moreover obtain rest where "src = ''git+'' @ rest" using g by (auto simp: starts_with_iff)
  ultimately show ?thesis using assms by (simp add: accounts_for_def)
qed

lemma classify_path_accounts:
  assumes "classify_path h project name version dep = Inr d"
    and "get_str ''name'' pkg = Some name" and "get_str ''source'' pkg = None" and "ext name = Some dep"
  shows "accounts_for h ext pkg d"
  using assms by (auto simp: classify_path_def accounts_for_def assert_clean_def git_sha_at_def Let_def
      split: if_splits)

lemma classify_Some:
  assumes "classify_package h ext project pkg = Inr (Some d)"
  shows "accounts_for h ext pkg d"
proof -
  obtain name version where nv: "get_str ''name'' pkg = Some name" "get_str ''version'' pkg = Some version"
    using assms by (auto simp: classify_package_def)
  then show ?thesis
    using assms classify_source_accounts [OF _ nv(1)] classify_path_accounts [OF _ nv(1)]
    by (auto simp: classify_package_def split: option.splits)
qed

lemma classify_None:
  assumes "classify_package h ext project pkg = Inr None"
  shows "\<exists>name. get_str ''name'' pkg = Some name \<and> get_str ''source'' pkg = None \<and> ext name = None"
  using assms by (auto simp: classify_package_def split: option.splits)

lemma somes_eq: "somes xs = map the (filter (\<lambda>x. x \<noteq> None) xs)"
  by (induction xs rule: somes.induct) auto

lemma somes_list_all2:
  "list_all2 (\<lambda>x y. f x = Inr y) xs ys \<Longrightarrow>
     list_all2 (\<lambda>x d. f x = Inr (Some d)) (filter (\<lambda>x. f x \<noteq> Inr None) xs) (somes ys)"
proof (induction xs ys rule: list_all2_induct)
  case (Cons x xs y ys)
  then show ?case by (cases y) auto
qed simp

lemma from_utf8_ascii: "list_all (\<lambda>x. x < 0x80) (as_bytes s) \<Longrightarrow> from_utf8 (as_bytes s) = Some s"
  by (simp add: from_utf8_def ascii_wf)

text \<open>Percent-encoding leaves none of the four characters, but it is not injective: \<open>%\<close> stays.\<close>

lemma pct_encode_safe: "c \<in> set (pct_encode s) \<Longrightarrow> c \<notin> {CHR ''?'', CHR ''#'', CHR ''&'', CHR '' ''}"
  by (auto simp: pct_encode_def pct_char_def split: if_splits)

lemma pct_encode_collision: "pct_encode ''a?b'' = pct_encode ''a%3Fb''"
  by (simp add: pct_encode_def pct_char_def)

section \<open>Sample project\<close>

definition sample_manifest :: toml where
  "sample_manifest = TTable [(''dependencies'', TTable
     [(''dep'', TTable [(''package'', TString ''real''), (''path'', TString ''../real'')])])]"

definition sample_cargo_lock :: toml where
  "sample_cargo_lock = TTable [(''package'', TArray
     [TTable [(''name'', TString ''app''), (''version'', TString ''1'')],
      TTable [(''name'', TString ''real''), (''version'', TString ''2'')],
      TTable [(''name'', TString ''z''), (''version'', TString ''3''),
              (''source'', TString ''registry+u''), (''checksum'', TString ''c0'')]])]"

definition sample_cfg :: cfg_lib where
  "sample_cfg = \<lparr>toml_parse = (\<lambda>s. if s = ''m'' then Inr sample_manifest
       else if s = ''l'' then Inr sample_cargo_lock else Inr (TTable [])),
     yaml_parse = (\<lambda>b. Inr YNull)\<rparr>"

definition sample_output :: "string \<Rightarrow> cmd_output" where
  "sample_output s = \<lparr>co_success = True, co_code = Some 0, co_stdout = as_bytes s, co_stderr = [],
     co_writes = (\<lambda>_. None)\<rparr>"

definition sample_host :: host where
  "sample_host = \<lparr>
     h_output = (\<lambda>program args. Inr (sample_output ''x'')),
     h_read = (\<lambda>p. if p = ''/w/Cargo.toml'' then Inr (as_bytes ''m'')
                  else if p = ''/w/Cargo.lock'' then Inr (as_bytes ''l'') else Inr [1, 2]),
     h_exists = (\<lambda>p. Inr (p = ''/w/Cargo.lock'')),
     h_is_file = (\<lambda>p. True), h_is_dir = (\<lambda>p. True), h_file_type_dir = (\<lambda>p. Inr False),
     h_read_dir = (\<lambda>p. Inr [Inr ''app'']),
     h_canonicalize = (\<lambda>p. Inr (if p = ''/w/../real'' then ''/real'' else p)),
     h_mode = (\<lambda>p. Inr 493), h_current_exe = Inr ''/k''\<rparr>"

lemma sample_host_simps [simp]:
  "h_output sample_host program args = Inr (sample_output ''x'')"
  "h_read sample_host p = (if p = ''/w/Cargo.toml'' then Inr (as_bytes ''m'')
     else if p = ''/w/Cargo.lock'' then Inr (as_bytes ''l'') else Inr [1, 2])"
  "h_exists sample_host p = Inr (p = ''/w/Cargo.lock'')" "h_is_file sample_host p"
  "h_canonicalize sample_host p = Inr (if p = ''/w/../real'' then ''/real'' else p)"
  "h_read_dir sample_host p = Inr [Inr ''app'']" "h_current_exe sample_host = Inr ''/k''"
  by (simp_all add: sample_host_def)

lemma sample_root: "path_join ''/w'' ''Cargo.toml'' = ''/w/Cargo.toml''"
  by (simp add: path_join_def starts_with_def)

lemma sample_parent: "path_parent ''/w/Cargo.toml'' = Some ''/w''"
  by (simp add: path_parent_def before_body_def starts_with_def trim_right.simps last_piece_def Let_def)

lemma sample_read: "read_toml sample_cfg sample_host ''/w/Cargo.toml'' = Inr sample_manifest"
  by (simp add: read_toml_def from_utf8_ascii sample_cfg_def)

lemma sample_external:
  "collect_external_path_deps sample_cfg sample_host ''/w'' = Inr [''dep'' \<mapsto> ''/real'']"
proof -
  have d: "discover_manifests sample_cfg sample_host ''/w'' = Inr [''/w/Cargo.toml'']"
    by (simp add: discover_manifests_def sample_root sample_read)
      (simp add: sample_manifest_def get_table_def tget_def)
  have t: "dep_tables sample_manifest =
      [[(''dep'', TTable [(''package'', TString ''real''), (''path'', TString ''../real'')])]]"
    by (simp add: dep_tables_def dep_keys_def sample_manifest_def get_table_def tget_def as_table_def opt_list_def)
  have j: "path_join ''/w'' ''../real'' = ''/w/../real''" by (simp add: path_join_def starts_with_def)
  have s: "\<not> path_starts_with ''/real'' ''/w''"
    by (simp add: path_starts_with_def components_def piece_def starts_with_def)
  show ?thesis
    by (simp add: collect_external_path_deps_def d extract_paths_from_manifest_def sample_read sample_parent t)
      (simp add: visit_dep_def as_table_def as_str_def j s Let_def)
qed

lemma sample_resolves:
  "resolve_dependencies sample_cfg sample_host ''/w'' (as_bytes ''l'') =
     Inr [\<lparr>rd_annotations = None, rd_digest = Sha256 ''c0'', rd_name = ''z'',
           rd_uri = ''pkg:cargo/z@3?checksum=sha256:c0''\<rparr>]"
  by (simp add: resolve_dependencies_def sample_external from_utf8_ascii)
    (simp add: sample_cfg_def sample_cargo_lock_def tget_def as_array_def as_str_def get_str_def
      classify_package_def classify_source_def starts_with_def Let_def)

section \<open>Properties\<close>

text \<open>
  C34. What \<open>resolve_dependencies\<close> lists: sorted by URI and, up to order, one dependency for every
  package of \<open>Cargo.lock\<close> that has a source or whose name is a key of the table of external path
  dependencies, with the registry checksum, the pinned commit, or the head of a clean repository as
  its digest. Nothing else is in the list: a package without a source whose name is no such key is
  left out without an error, which is right of a workspace member and not of a path dependency declared
  under another name (\<open>renamed_path_dependency_omitted\<close>), though the comment on the function has every
  package it cannot account for be an error.
\<close>

theorem resolve_dependencies_accounts:
  assumes "resolve_dependencies C h path lockfile = Inr deps"
    and "collect_external_path_deps C h path = Inr ext"
    and "from_utf8 lockfile = Some text" and "toml_parse C text = Inr lock"
    and "tget ''package'' lock = Some (TArray ps)"
  shows "sorted_by rd_uri deps \<and>
    (\<exists>ds. mset deps = mset ds \<and>
       list_all2 (accounts_for h ext)
         (filter (\<lambda>pkg. get_str ''source'' pkg \<noteq> None \<or> Option.bind (get_str ''name'' pkg) ext \<noteq> None) ps) ds)"
proof -
  obtain project ys where ys: "mapM (classify_package h ext project) ps = Inr ys"
    and deps: "deps = sort_key rd_uri (somes ys)"
    using assms by (auto simp: resolve_dependencies_def as_array_def)
  have ok: "\<forall>pkg \<in> set ps. is_ok (classify_package h ext project pkg)"
    using is_ok_mapM [of "classify_package h ext project" ps] ys by simp
  have "(classify_package h ext project pkg \<noteq> Inr None) =
      (get_str ''source'' pkg \<noteq> None \<or> Option.bind (get_str ''name'' pkg) ext \<noteq> None)" if "pkg \<in> set ps" for pkg
  proof
    assume "classify_package h ext project pkg \<noteq> Inr None"
    then show "get_str ''source'' pkg \<noteq> None \<or> Option.bind (get_str ''name'' pkg) ext \<noteq> None"
      using ok that by (auto simp: is_ok_iff classify_package_def split: option.splits)
  next
    assume "get_str ''source'' pkg \<noteq> None \<or> Option.bind (get_str ''name'' pkg) ext \<noteq> None"
    then show "classify_package h ext project pkg \<noteq> Inr None" using classify_None by fastforce
  qed
  then have f: "filter (\<lambda>pkg. classify_package h ext project pkg \<noteq> Inr None) ps =
      filter (\<lambda>pkg. get_str ''source'' pkg \<noteq> None \<or> Option.bind (get_str ''name'' pkg) ext \<noteq> None) ps"
    by (rule filter_cong [OF refl])
  have "list_all2 (accounts_for h ext) (filter (\<lambda>pkg. classify_package h ext project pkg \<noteq> Inr None) ps) (somes ys)"
    using somes_list_all2 [of "classify_package h ext project" ps ys] ys classify_Some
    by (simp add: mapM_eq_Inr) (erule list_all2_mono, blast)
  then show ?thesis
    using dep_sort.sorter_sorted dep_sort.sorter_mset unfolding deps f by blast
qed

theorem resolve_dependencies_accounts_witness:
  "\<exists>d. accounts_for sample_host [''dep'' \<mapsto> ''/real'']
     (TTable [(''name'', TString ''z''), (''version'', TString ''3''),
              (''source'', TString ''registry+u''), (''checksum'', TString ''c0'')]) d"
proof -
  have l: "from_utf8 (as_bytes ''l'') = Some ''l''" by (simp add: from_utf8_ascii)
  have t: "toml_parse sample_cfg ''l'' = Inr sample_cargo_lock" by (simp add: sample_cfg_def)
  from resolve_dependencies_accounts [OF sample_resolves sample_external l t, THEN conjunct2]
  show ?thesis
    by (auto simp: sample_cargo_lock_def tget_def get_str_def as_str_def list_all2_Cons1)
qed

text \<open>
  A path dependency that is declared under another name than its package is left out. The manifest
  declares \<open>dep = { package = "real", path = "../real" }\<close> outside the project and \<open>Cargo.lock\<close> lists the
  package \<open>real\<close>; the map of external paths has the key \<open>dep\<close>, so \<open>real\<close> is taken for a workspace
  member and the resolved list, without any error, does not name it.
\<close>

theorem renamed_path_dependency_omitted:
  "collect_external_path_deps sample_cfg sample_host ''/w'' = Inr [''dep'' \<mapsto> ''/real'']
   \<and> (\<exists>deps. resolve_dependencies sample_cfg sample_host ''/w'' (as_bytes ''l'') = Inr deps
        \<and> ''real'' \<notin> rd_name ` set deps)"
  using sample_external sample_resolves by simp

end
