(* ===== verification/Cargo.thy ===== *)
theory Cargo
  imports Runner Cargo_Lock
begin

text \<open>The Rust driver, \<open>src/src/toolchain/cargo.rs\<close>, and its instance of the driver contract.\<close>

definition cargo_BUILD_ARGS :: "string list" where
  "cargo_BUILD_ARGS = [''build'', ''--locked'', ''--release'']"

record cargo_inputs =
  ci_kettle_version :: string
  ci_kettle_hash :: string
  ci_rustc_version :: string
  ci_rustc_hash :: string
  ci_cargo_version :: string
  ci_cargo_hash :: string
  ci_lockfile_hash :: string
  ci_resolved_deps :: "resolved_dependency list"

definition cargo_display :: string where
  "cargo_display = ''cargo '' @ join '' '' cargo_BUILD_ARGS"

definition cargo_collect_inputs ::
  "cfg_lib \<Rightarrow> lib \<Rightarrow> env \<Rightarrow> string \<Rightarrow> git_context \<Rightarrow> string \<Rightarrow> bytes \<Rightarrow> cargo_inputs res" where
  "cargo_collect_inputs C L E path git lockfile_hash lockfile_bytes =
     (let h = en_before E in
      bnd (via_rustup L h ''rustc'') (\<lambda>rustc.
      bnd (via_rustup L h ''cargo'') (\<lambda>cargo.
      bnd (kettle_info L h) (\<lambda>kettle.
      bnd (resolve_dependencies C h path lockfile_bytes) (\<lambda>deps.
      Inr \<lparr>ci_kettle_version = ti_version kettle, ci_kettle_hash = ti_sha256 kettle,
           ci_rustc_version = ti_version rustc, ci_rustc_hash = ti_sha256 rustc,
           ci_cargo_version = ti_version cargo, ci_cargo_hash = ti_sha256 cargo,
           ci_lockfile_hash = lockfile_hash, ci_resolved_deps = deps\<rparr>)))))"

definition cargo_merkle_entries :: "cargo_inputs \<Rightarrow> git_context \<Rightarrow> string \<Rightarrow> string list" where
  "cargo_merkle_entries i git lockfile_hash =
     [gc_commit git, gc_tree git, ci_rustc_hash i, ci_rustc_version i, ci_cargo_hash i, ci_cargo_version i,
      lockfile_hash] @ map rd_uri (ci_resolved_deps i)"

definition cargo_run_build :: "env \<Rightarrow> string \<Rightarrow> bytes act" where
  "cargo_run_build E path = stream_act E ''cargo'' cargo_BUILD_ARGS path (\<lambda>e. ''cargo build failed: '' @ e)"

definition copy_artifact :: "env \<Rightarrow> string \<Rightarrow> artifact \<Rightarrow> artifact act" where
  "copy_artifact E dir a =
     (let dest = path_join dir (art_name a) in
      act_bind (lift (map_err Fail (h_read (en_after E) (art_path a)))) (\<lambda>content.
      act_bind (io_act E CopyTo dest (stage (art_name a) content)) (\<lambda>_.
      lift (Inr (a\<lparr>art_path := dest\<rparr>)))))"

definition cargo_collect_artifacts ::
  "lib \<Rightarrow> env \<Rightarrow> bytes \<Rightarrow> string \<Rightarrow> string \<Rightarrow> artifact list act" where
  "cargo_collect_artifacts L E outp path artifacts_dir =
     (let release_dir = path_join (path_join path ''target'') ''release'' in
      act_bind (lift (artifacts_in_dir L (en_after E) release_dir)) (\<lambda>found.
      act_map (copy_artifact E artifacts_dir) found))"

definition tool_version :: "string \<Rightarrow> string \<Rightarrow> toolchain_version" where
  "tool_version v h = \<lparr>tv_digest = Sha256 h, tv_version = v\<rparr>"

definition cargo_provenance_fields :: "cargo_inputs \<Rightarrow> git_context \<Rightarrow> string \<Rightarrow> provenance_fields" where
  "cargo_provenance_fields i git merkle_root = \<lparr>
     pf_build_type = BUILD_TYPE,
     pf_build_command = cargo_display,
     pf_internal = \<lparr>ip_evaluation = None, ip_flake_inputs = None,
       ip_lockfile_hash = Sha256 (ci_lockfile_hash i),
       ip_toolchain = RustToolchain (tool_version (ci_cargo_version i) (ci_cargo_hash i))
         (tool_version (ci_rustc_version i) (ci_rustc_hash i))
         (tool_version (ci_kettle_version i) (ci_kettle_hash i))\<rparr>,
     pf_dependencies = ci_resolved_deps i\<rparr>"

definition cargo_driver :: "cfg_lib \<Rightarrow> cargo_inputs driver" where
  "cargo_driver C = \<lparr>
     lockfile_filename = ''Cargo.lock'',
     build_command_display = cargo_display,
     collect_inputs = cargo_collect_inputs C,
     merkle_entries = cargo_merkle_entries,
     run_build = cargo_run_build,
     collect_artifacts = cargo_collect_artifacts,
     provenance_fields_of = cargo_provenance_fields\<rparr>"

section \<open>The contract\<close>

lemma cargo_stages:
  assumes "cargo_collect_artifacts L E outp path dir w = (Inr arts, w')" and "wo_artifacts w \<noteq> None"
  shows "stages L w arts w'"
proof -
  obtain found where found: "artifacts_in_dir L (en_after E) (path_join (path_join path ''target'') ''release'') = Inr found"
    and m: "act_map (copy_artifact E dir) found w = (Inr arts, w')"
    using assms(1) by (auto simp: cargo_collect_artifacts_def Let_def)
  have "stages L w (concat (map (\<lambda>a. [a]) arts)) w'"
  proof (rule act_map_stages [OF m assms(2)])
    fix a b v v'
    assume a: "a \<in> set found" and c: "copy_artifact E dir a v = (Inr b, v')" and v: "wo_artifacts v \<noteq> None"
    obtain x where x: "h_read (en_after E) (art_path a) = Inr x" "art_checksum a = hex_encode L (sha256 L x)"
      using artifacts_in_dir_hashed [OF found a] by blast
    then have "v' = stage (art_name b) x v" "art_checksum b = hex_encode L (sha256 L x)"
      using c by (auto simp: copy_artifact_def Let_def)
    then show "stages L v [b] v'" using stages_single [OF v] by simp
  qed
  then show ?thesis by (simp add: concat_map_singleton)
qed

interpretation cargo: toolchain_driver "cargo_driver C"
proof unfold_locales
  show "collect_artifacts (cargo_driver C) L E out path dir w = (Inr arts, w') \<Longrightarrow>
      wo_artifacts w \<noteq> None \<Longrightarrow> stages L w arts w'" for L E out path dir w arts w'
    by (simp add: cargo_driver_def cargo_stages)
  show "only_traces (run_build (cargo_driver C) E path)" for E path
    by (simp add: cargo_driver_def cargo_run_build_def only_traces_stream)
  show "collect_inputs (cargo_driver C) L E path g h b = Inr i \<Longrightarrow>
      ip_lockfile_hash (pf_internal (provenance_fields_of (cargo_driver C) i g r)) = Sha256 h"
    for L E path g h b i r
    by (auto simp: cargo_driver_def cargo_collect_inputs_def cargo_provenance_fields_def Let_def)
qed (simp_all add: cargo_driver_def cargo_merkle_entries_def cargo_provenance_fields_def)

section \<open>Properties\<close>

text \<open>
  C33. The Merkle root of a Rust build binds its inputs. Two builds with the same root, when neither
  SHA-256 nor the tree collides on what they hash, have the same commit, tree, compiler and cargo
  (hash and version), lock file and list of dependency URIs; the kettle binary is not among them.
\<close>

theorem cargo_root_binds_inputs:
  assumes "hex_ok L"
    and "inj_on (sha256 L) (as_bytes ` (set (cargo_merkle_entries i g h) \<union> set (cargo_merkle_entries j g' h')))"
    and "inj_on M {map (\<lambda>e. sha256 L (as_bytes e)) (cargo_merkle_entries i g h),
                   map (\<lambda>e. sha256 L (as_bytes e)) (cargo_merkle_entries j g' h')}"
    and "compute_merkle_root L M (cargo_merkle_entries i g h) = Inr r"
    and "compute_merkle_root L M (cargo_merkle_entries j g' h') = Inr r"
  shows "gc_commit g = gc_commit g' \<and> gc_tree g = gc_tree g' \<and> h = h'
    \<and> ci_rustc_hash i = ci_rustc_hash j \<and> ci_rustc_version i = ci_rustc_version j
    \<and> ci_cargo_hash i = ci_cargo_hash j \<and> ci_cargo_version i = ci_cargo_version j
    \<and> map rd_uri (ci_resolved_deps i) = map rd_uri (ci_resolved_deps j)"
proof -
  have m: "merkle_entries (cargo_driver C) = cargo_merkle_entries" for C by (simp add: cargo_driver_def)
  have "cargo_merkle_entries i g h = cargo_merkle_entries j g' h'"
    using cargo.root_binds_sources [OF assms(1), unfolded m, OF assms(2-)] by blast
  then show ?thesis by (simp add: cargo_merkle_entries_def)
qed

definition sample_cargo_inputs :: "string \<Rightarrow> cargo_inputs" where
  "sample_cargo_inputs k = \<lparr>ci_kettle_version = k, ci_kettle_hash = ''k'', ci_rustc_version = ''1'',
     ci_rustc_hash = ''2'', ci_cargo_version = ''3'', ci_cargo_hash = ''4'', ci_lockfile_hash = ''5'',
     ci_resolved_deps = []\<rparr>"

definition sample_git :: git_context where
  "sample_git = \<lparr>gc_commit = ''c'', gc_tree = ''t'', gc_source_uri = ''u''\<rparr>"

definition sample_merkle :: "bytes list \<Rightarrow> bytes option" where
  "sample_merkle ls = (if ls = [] then None else Some (concat ls))"

theorem cargo_root_binds_inputs_witness:
  "ci_rustc_hash (sample_cargo_inputs ''1.0'') = ci_rustc_hash (sample_cargo_inputs ''2.0'')"
proof -
  let ?e = "cargo_merkle_entries (sample_cargo_inputs ''1.0'') sample_git ''5''"
  have eq: "cargo_merkle_entries (sample_cargo_inputs ''2.0'') sample_git ''5'' = ?e"
    by (simp add: cargo_merkle_entries_def sample_cargo_inputs_def)
  have e: "?e = [''c'', ''t'', ''2'', ''1'', ''4'', ''3'', ''5'']"
    by (simp add: cargo_merkle_entries_def sample_cargo_inputs_def sample_git_def)
  have inj: "inj_on (sha256 sample_lib) (as_bytes ` (set ?e \<union> set ?e))"
    by (simp add: e inj_on_def toy_digest_def as_bytes_def pad_to_def)
  obtain r where r: "compute_merkle_root sample_lib sample_merkle ?e = Inr r"
    by (simp add: e compute_merkle_root_def sample_merkle_def)
  show ?thesis
    using cargo_root_binds_inputs [OF sample_hex_ok, of "sample_cargo_inputs ''1.0''" sample_git "''5''"
        "sample_cargo_inputs ''2.0''" sample_git "''5''" sample_merkle r] inj r
    unfolding eq by simp
qed

end
