(* ===== verification/Pnpm.thy ===== *)
theory Pnpm
  imports Runner Cargo
begin

text \<open>
  The pnpm driver, \<open>src/src/toolchain/pnpm.rs\<close>: package keys and \<open>pnpm-lock.yaml\<close>, the build in two
  commands, the archive of \<open>dist/\<close>, and its instance of the driver contract.
\<close>

section \<open>YAML values\<close>

fun untag :: "yaml \<Rightarrow> yaml" where
  "untag (YTagged t v) = untag v"
| "untag v = v"

definition yget :: "string \<Rightarrow> yaml \<Rightarrow> yaml option" where
  "yget k v = (case untag v of YMap m \<Rightarrow> map_of m (YString k) | _ \<Rightarrow> None)"

definition ystr :: "yaml \<Rightarrow> string option" where
  "ystr v = (case untag v of YString s \<Rightarrow> Some s | _ \<Rightarrow> None)"

definition ymapping :: "yaml \<Rightarrow> (yaml \<times> yaml) list option" where
  "ymapping v = (case untag v of YMap m \<Rightarrow> Some m | _ \<Rightarrow> None)"

section \<open>The lock file\<close>

definition without_peers :: "string \<Rightarrow> string" where
  "without_peers key = (case split_once CHR ''('' key of Some (a, _) \<Rightarrow> a | None \<Rightarrow> key)"

definition parse_key :: "string \<Rightarrow> (string \<times> string) res" where
  "parse_key key =
     (let key = without_peers key in
      case strip_prefix ''@'' key of
        Some rest \<Rightarrow>
          bnd (need (Fail (''pnpm-lock.yaml: cannot parse scoped key '' @ debug_str key)) (split_once CHR ''@'' rest))
            (\<lambda>(scoped, version). Inr (''@'' @ scoped, version))
      | None \<Rightarrow> need (Fail (''pnpm-lock.yaml: cannot parse key '' @ debug_str key)) (split_once CHR ''@'' key))"

definition resolution_field :: "string \<Rightarrow> yaml \<Rightarrow> string option" where
  "resolution_field k v =
     Option.bind (yget ''resolution'' v) (\<lambda>r. Option.bind (yget k r) ystr)"

definition keep_if :: "('a \<Rightarrow> bool) \<Rightarrow> 'a option \<Rightarrow> 'a option" where
  "keep_if P m = (case m of Some x \<Rightarrow> if P x then Some x else None | None \<Rightarrow> None)"

definition pnpm_package :: "yaml \<times> yaml \<Rightarrow> resolved_dependency res" where
  "pnpm_package entry =
     (let (key, v) = entry in
      bnd (need (Fail ''pnpm-lock.yaml: package key is not a string'') (ystr key)) (\<lambda>key_str.
      bnd (parse_key key_str) (\<lambda>(name, version).
      case keep_if (\<lambda>s. s \<noteq> []) (resolution_field ''integrity'' v) of
        Some chk \<Rightarrow>
          Inr \<lparr>rd_annotations = None, rd_digest = Sha512 chk, rd_name = name,
               rd_uri = ''pkg:npm/'' @ name @ ''@'' @ version @ ''?checksum='' @ chk\<rparr>
      | None \<Rightarrow>
          bnd (need (Fail (''pnpm-lock.yaml: package '' @ debug_str key_str @
                  '' missing resolution with integrity or commit tarball''))
                (keep_if (\<lambda>s. s \<noteq> [] \<and> contains_str ''codeload.github.com'' s) (resolution_field ''tarball'' v)))
            (\<lambda>uri.
          Inr \<lparr>rd_annotations = None, rd_digest = Sha512 (last (split_on slash uri)), rd_name = name,
               rd_uri = uri\<rparr>))))"

definition parse_pnpm_lock :: "cfg_lib \<Rightarrow> bytes \<Rightarrow> resolved_dependency list res" where
  "parse_pnpm_lock C lockfile =
     bnd (map_err (\<lambda>_. Fail ''malformed pnpm-lock.yaml'') (yaml_parse C lockfile)) (\<lambda>data.
     case Option.bind (yget ''packages'' data) ymapping of
       None \<Rightarrow> Inr []
     | Some packages \<Rightarrow> map_ok (sort_key rd_uri) (mapM pnpm_package packages))"

section \<open>The driver\<close>

definition pnpm_INSTALL_ARGS :: "string list" where
  "pnpm_INSTALL_ARGS = [''install'', ''--frozen-lockfile'']"

definition pnpm_BUILD_ARGS :: "string list" where
  "pnpm_BUILD_ARGS = [''build'']"

record pnpm_inputs =
  pi_node_version :: string
  pi_node_hash :: string
  pi_pnpm_version :: string
  pi_pnpm_hash :: string
  pi_kettle_version :: string
  pi_kettle_hash :: string
  pi_lockfile_hash :: string
  pi_deps :: "resolved_dependency list"

definition pnpm_display :: string where
  "pnpm_display = ''pnpm '' @ join '' '' pnpm_INSTALL_ARGS @ '' && pnpm '' @ join '' '' pnpm_BUILD_ARGS"

definition pnpm_collect_inputs ::
  "cfg_lib \<Rightarrow> lib \<Rightarrow> env \<Rightarrow> string \<Rightarrow> git_context \<Rightarrow> string \<Rightarrow> bytes \<Rightarrow> pnpm_inputs res" where
  "pnpm_collect_inputs C L E path git lockfile_hash lockfile_bytes =
     (let h = en_before E in
      bnd (via_which L h ''node'') (\<lambda>node.
      bnd (via_which L h ''pnpm'') (\<lambda>pnpm.
      bnd (kettle_info L h) (\<lambda>kettle.
      bnd (parse_pnpm_lock C lockfile_bytes) (\<lambda>deps.
      Inr \<lparr>pi_node_version = ti_version node, pi_node_hash = ti_sha256 node,
           pi_pnpm_version = ti_version pnpm, pi_pnpm_hash = ti_sha256 pnpm,
           pi_kettle_version = ti_version kettle, pi_kettle_hash = ti_sha256 kettle,
           pi_lockfile_hash = lockfile_hash, pi_deps = deps\<rparr>)))))"

definition pnpm_merkle_entries :: "pnpm_inputs \<Rightarrow> git_context \<Rightarrow> string \<Rightarrow> string list" where
  "pnpm_merkle_entries i git lockfile_hash =
     [gc_commit git, gc_tree git, pi_node_hash i, pi_node_version i, pi_pnpm_hash i, pi_pnpm_version i,
      lockfile_hash] @ map rd_uri (pi_deps i)"

definition pnpm_run_build :: "env \<Rightarrow> string \<Rightarrow> bytes act" where
  "pnpm_run_build E path =
     act_bind (stream_act E ''pnpm'' pnpm_INSTALL_ARGS path
         (\<lambda>e. ''pnpm install --frozen-lockfile failed: '' @ e)) (\<lambda>_.
     stream_act E ''pnpm'' pnpm_BUILD_ARGS path (\<lambda>e. ''pnpm build failed: '' @ e))"

text \<open>\<open>{:?}\<close> of a path; bytes outside UTF-8 are shown as the replacement character.\<close>

definition debug_path :: "string \<Rightarrow> string" where
  "debug_path p = debug_str (to_string_lossy p)"

definition path_to_str :: "string \<Rightarrow> string res" where
  "path_to_str p = need (Fail (''path is not valid UTF-8: '' @ debug_path p)) (from_utf8 (as_bytes p))"

definition pnpm_collect_artifacts ::
  "lib \<Rightarrow> env \<Rightarrow> bytes \<Rightarrow> string \<Rightarrow> string \<Rightarrow> artifact list act" where
  "pnpm_collect_artifacts L E outp path artifacts_dir =
     (let h = en_after E; tarball_path = path_join artifacts_dir ''dist.tar.gz'' in
      act_bind (lift (guard (path_exists h (path_join path ''dist''))
          (Fail (''dist/ directory not found in '' @ debug_path path)))) (\<lambda>_.
      act_bind (lift (path_to_str tarball_path)) (\<lambda>tarball_str.
      act_bind (lift (path_to_str path)) (\<lambda>path_str.
      act_bind (lift (map_err (\<lambda>_. Fail ''failed to spawn tar'')
          (h_output h ''tar'' [''-czf'', tarball_str, ''-C'', path_str, ''dist'']))) (\<lambda>tar.
      act_bind (modify (case co_writes tar tarball_path of None \<Rightarrow> id | Some b \<Rightarrow> stage ''dist.tar.gz'' b)) (\<lambda>_.
      act_bind (lift (guard (co_success tar)
          (Fail (''tar failed (exit '' @ debug_code (co_code tar) @ ''): '' @ from_utf8_lossy (co_stderr tar))))) (\<lambda>_.
      act_bind (\<lambda>w. lift (need (Fail (''failed to open file '' @ backquoted (to_string_lossy tarball_path)))
          (staged w ''dist.tar.gz'')) w) (\<lambda>content.
      lift (Inr [\<lparr>art_name = ''dist.tar.gz'', art_path = tarball_path,
                  art_checksum = hex_encode L (sha256 L content)\<rparr>])))))))))"

definition pnpm_provenance_fields :: "pnpm_inputs \<Rightarrow> git_context \<Rightarrow> string \<Rightarrow> provenance_fields" where
  "pnpm_provenance_fields i git merkle_root = \<lparr>
     pf_build_type = BUILD_TYPE,
     pf_build_command = pnpm_display,
     pf_internal = \<lparr>ip_evaluation = None, ip_flake_inputs = None,
       ip_lockfile_hash = Sha256 (pi_lockfile_hash i),
       ip_toolchain = PnpmToolchain (tool_version (pi_pnpm_version i) (pi_pnpm_hash i))
         (tool_version (pi_node_version i) (pi_node_hash i))
         (tool_version (pi_kettle_version i) (pi_kettle_hash i))\<rparr>,
     pf_dependencies = pi_deps i\<rparr>"

definition pnpm_driver :: "cfg_lib \<Rightarrow> pnpm_inputs driver" where
  "pnpm_driver C = \<lparr>
     lockfile_filename = ''pnpm-lock.yaml'',
     build_command_display = pnpm_display,
     collect_inputs = pnpm_collect_inputs C,
     merkle_entries = pnpm_merkle_entries,
     run_build = pnpm_run_build,
     collect_artifacts = pnpm_collect_artifacts,
     provenance_fields_of = pnpm_provenance_fields\<rparr>"

section \<open>The contract\<close>

lemma pnpm_stages:
  assumes "pnpm_collect_artifacts L E outp path dir w = (Inr arts, w')" and "wo_artifacts w \<noteq> None"
  shows "stages L w arts w'"
proof -
  obtain content where
    w': "w' = w \<or> (\<exists>b. w' = stage ''dist.tar.gz'' b w)"
    and c: "staged w' ''dist.tar.gz'' = Some content"
    and arts: "arts = [\<lparr>art_name = ''dist.tar.gz'', art_path = path_join dir ''dist.tar.gz'',
                        art_checksum = hex_encode L (sha256 L content)\<rparr>]"
    using assms(1) by (auto simp: pnpm_collect_artifacts_def Let_def split: option.splits)
  have ne: "wo_artifacts w' \<noteq> None" using assms(2) w' by (auto simp: stage_def)
  have "wo_files w' = wo_files w" "wo_trace w' = wo_trace w"
      "n \<noteq> ''dist.tar.gz'' \<Longrightarrow> staged w' n = staged w n" for n
    using assms(2) w' by auto
  then show ?thesis using c ne by (simp add: stages_def arts)
qed

interpretation pnpm: toolchain_driver "pnpm_driver C"
proof unfold_locales
  show "collect_artifacts (pnpm_driver C) L E out path dir w = (Inr arts, w') \<Longrightarrow>
      wo_artifacts w \<noteq> None \<Longrightarrow> stages L w arts w'" for L E out path dir w arts w'
    by (simp add: pnpm_driver_def pnpm_stages)
  show "only_traces (run_build (pnpm_driver C) E path)" for E path
    by (simp add: pnpm_driver_def pnpm_run_build_def only_traces_bind only_traces_stream)
  show "collect_inputs (pnpm_driver C) L E path g h b = Inr i \<Longrightarrow>
      ip_lockfile_hash (pf_internal (provenance_fields_of (pnpm_driver C) i g r)) = Sha256 h"
    for L E path g h b i r
    by (auto simp: pnpm_driver_def pnpm_collect_inputs_def pnpm_provenance_fields_def Let_def)
qed (simp_all add: pnpm_driver_def pnpm_merkle_entries_def pnpm_provenance_fields_def)

section \<open>Properties\<close>

text \<open>A key is read back into the name and version it was made of, scoped or not, with or without peers.\<close>

lemma parse_key_made:
  assumes "CHR ''@'' \<notin> set name" and "CHR ''('' \<notin> set name" and "CHR ''('' \<notin> set version"
    and "name \<noteq> []" and "peers = [] \<or> (\<exists>p. peers = CHR ''('' # p)"
  shows "parse_key (name @ ''@'' @ version @ peers) = Inr (name, version)"
    and "parse_key (''@'' @ name @ ''@'' @ version @ peers) = Inr (''@'' @ name, version)"
proof -
  have cut: "without_peers (k @ peers) = k" if "CHR ''('' \<notin> set k" for k
  proof (cases "peers = []")
    case True
    then show ?thesis using that by (simp add: without_peers_def split_once_None_iff [THEN iffD2])
  next
    case False
    then obtain p where "peers = CHR ''('' # p" using assms(5) by blast
    then show ?thesis
      using that split_once_Some_iff [of "CHR ''(''" "k @ peers" k p] by (simp add: without_peers_def)
  qed
  have at: "split_once CHR ''@'' (name @ CHR ''@'' # version) = Some (name, version)"
    using assms(1) by (simp add: split_once_Some_iff)
  have unscoped: "strip_prefix ''@'' (name @ CHR ''@'' # version) = None"
    using assms(1,4) by (cases name) auto
  have "without_peers (name @ CHR ''@'' # version @ peers) = name @ CHR ''@'' # version"
    "without_peers (CHR ''@'' # name @ CHR ''@'' # version @ peers) = CHR ''@'' # name @ CHR ''@'' # version"
    using cut [of "name @ ''@'' @ version"] cut [of "''@'' @ name @ ''@'' @ version"] assms(2,3) by simp_all
  then show "parse_key (name @ ''@'' @ version @ peers) = Inr (name, version)"
    and "parse_key (''@'' @ name @ ''@'' @ version @ peers) = Inr (''@'' @ name, version)"
    using at unscoped by (simp_all add: parse_key_def)
qed

text \<open>
  What a lock entry owes its dependency: the integrity hash, or for a tarball whose URL mentions the
  GitHub download host the last segment of that URL.
\<close>

definition pnpm_accounts :: "yaml \<times> yaml \<Rightarrow> resolved_dependency \<Rightarrow> bool" where
  "pnpm_accounts entry d =
     (\<exists>key version. ystr (fst entry) = Some key \<and> parse_key key = Inr (rd_name d, version) \<and>
       (case keep_if (\<lambda>s. s \<noteq> []) (resolution_field ''integrity'' (snd entry)) of
          Some chk \<Rightarrow> rd_digest d = Sha512 chk
        | None \<Rightarrow> \<exists>url. resolution_field ''tarball'' (snd entry) = Some url
            \<and> contains_str ''codeload.github.com'' url \<and> rd_uri d = url
            \<and> rd_digest d = Sha512 (last (split_on slash url))))"

lemma pnpm_package_accounts:
  assumes "pnpm_package entry = Inr d"
  shows "pnpm_accounts entry d"
proof -
  obtain key name version where kv: "ystr (fst entry) = Some key" "parse_key key = Inr (name, version)"
    using assms by (auto simp: pnpm_package_def split: prod.splits)
  show ?thesis
  proof (cases "keep_if (\<lambda>s. s \<noteq> []) (resolution_field ''integrity'' (snd entry))")
    case None
    then show ?thesis using assms kv
      by (cases entry) (auto simp: pnpm_package_def pnpm_accounts_def keep_if_def split: option.splits if_splits)
  next
    case (Some chk)
    then show ?thesis using assms kv by (cases entry) (auto simp: pnpm_package_def pnpm_accounts_def)
  qed
qed

text \<open>
  C35. \<open>parse_pnpm_lock\<close> returns one dependency for every package of the lock file, sorted by URI, each
  with the integrity hash of its entry or, without one, a tarball URL that mentions the GitHub download
  host; an entry with neither fails the build.
\<close>

theorem pnpm_lock_accounts:
  assumes "parse_pnpm_lock C lockfile = Inr deps" and "yaml_parse C lockfile = Inr data"
    and "Option.bind (yget ''packages'' data) ymapping = Some packages"
  shows "sorted_by rd_uri deps \<and> (\<exists>ds. mset deps = mset ds \<and> list_all2 pnpm_accounts packages ds)"
proof -
  obtain ds where ds: "mapM pnpm_package packages = Inr ds" "deps = sort_key rd_uri ds"
    using assms by (auto simp: parse_pnpm_lock_def)
  have "list_all2 (\<lambda>e d. pnpm_package e = Inr d) packages ds" using ds(1) by (simp add: mapM_eq_Inr)
  then have "list_all2 pnpm_accounts packages ds" by (rule list_all2_mono) (rule pnpm_package_accounts)
  then show ?thesis using ds(2) dep_sort.sorter_sorted dep_sort.sorter_mset by blast
qed

definition sample_tarball :: string where
  "sample_tarball = ''http://evil/codeload.github.com/x''"

definition sample_packages :: "(yaml \<times> yaml) list" where
  "sample_packages =
     [(YString ''@s/b@2(p@1)'', YMap [(YString ''resolution'', YMap [(YString ''integrity'', YString ''sha512-i'')])]),
      (YString ''a@1'', YMap [(YString ''resolution'', YMap [(YString ''tarball'', YString sample_tarball)])])]"

definition sample_pnpm_lock :: yaml where
  "sample_pnpm_lock = YMap [(YString ''packages'', YMap sample_packages)]"

definition sample_pnpm_cfg :: cfg_lib where
  "sample_pnpm_cfg = \<lparr>toml_parse = (\<lambda>_. Inl ''no TOML''), yaml_parse = (\<lambda>b. Inr sample_pnpm_lock)\<rparr>"

lemma sample_packages_read: "Option.bind (yget ''packages'' sample_pnpm_lock) ymapping = Some sample_packages"
  by (simp add: sample_pnpm_lock_def yget_def ymapping_def)

lemma sample_packages_deps:
  "mapM pnpm_package sample_packages =
     Inr [\<lparr>rd_annotations = None, rd_digest = Sha512 ''sha512-i'', rd_name = ''@s/b'',
           rd_uri = ''pkg:npm/@s/b@2?checksum=sha512-i''\<rparr>,
          \<lparr>rd_annotations = None, rd_digest = Sha512 ''x'', rd_name = ''a'', rd_uri = sample_tarball\<rparr>]"
  by (simp add: sample_packages_def yget_def pnpm_package_def ystr_def parse_key_def without_peers_def
      resolution_field_def keep_if_def contains_str_def sample_tarball_def)

lemma sample_pnpm_parses:
  "\<exists>deps. parse_pnpm_lock sample_pnpm_cfg [] = Inr deps \<and> set deps =
     {\<lparr>rd_annotations = None, rd_digest = Sha512 ''sha512-i'', rd_name = ''@s/b'',
       rd_uri = ''pkg:npm/@s/b@2?checksum=sha512-i''\<rparr>,
      \<lparr>rd_annotations = None, rd_digest = Sha512 ''x'', rd_name = ''a'', rd_uri = sample_tarball\<rparr>}"
  by (simp only: parse_pnpm_lock_def sample_pnpm_cfg_def cfg_lib.simps map_err.simps bnd.simps
      sample_packages_read option.case sample_packages_deps map_ok.simps) (simp add: insert_commute)

theorem pnpm_lock_accounts_witness:
  "\<exists>deps. parse_pnpm_lock sample_pnpm_cfg [] = Inr deps \<and> sorted_by rd_uri deps"
proof -
  obtain deps where d: "parse_pnpm_lock sample_pnpm_cfg [] = Inr deps"
    using sample_pnpm_parses by blast
  have y: "yaml_parse sample_pnpm_cfg [] = Inr sample_pnpm_lock" by (simp add: sample_pnpm_cfg_def)
  show ?thesis using pnpm_lock_accounts [OF d y sample_packages_read] d by blast
qed

text \<open>
  The test for a GitHub tarball is a substring test. A package without integrity hash whose tarball
  comes from any host, with \<open>codeload.github.com\<close> somewhere in the URL, is accepted, and the last
  segment of the URL is recorded as its SHA-512 digest.
\<close>

theorem pnpm_foreign_tarball_accepted:
  "\<exists>deps. parse_pnpm_lock sample_pnpm_cfg [] = Inr deps \<and>
     \<lparr>rd_annotations = None, rd_digest = Sha512 ''x'', rd_name = ''a'',
       rd_uri = ''http://evil/codeload.github.com/x''\<rparr> \<in> set deps"
  using sample_pnpm_parses by (auto simp: sample_tarball_def)

end
