(* ===== verification/Verity.thy ===== *)
theory Verity
  imports Externals
begin

text \<open>
  The dm-verity root hash stored in a disk image (\<open>src/src/verity.rs\<close>): the superblock parser
  \<open>roothash_from_verity_partition\<close>, the GPT scan \<open>find_verity_partition\<close>, and
  \<open>stored_roothash\<close>, which reads only the front of the disk and the front of the partition.
  Values read as \<open>u32\<close>/\<open>u64\<close> are naturals; the unchecked \<open>+\<close> and \<open>*\<close> go through
  \<open>arith64 oc\<close>, with \<open>oc\<close> the overflow checks of a debug build.
\<close>

section \<open>Definitions\<close>

definition lba :: nat where "lba = 512"

definition verity_magic :: bytes where
  "verity_magic = [0x76, 0x65, 0x72, 0x69, 0x74, 0x79, 0, 0]"

definition head_bytes :: nat where "head_bytes = 64 * 1024"

definition verity_type_guid :: bytes where
  "verity_type_guid =
     [0xed, 0x57, 0x73, 0x2c, 0xd2, 0xeb, 0xd9, 0x46, 0xae, 0xc1, 0x23, 0xd4, 0x37, 0xec, 0x2b, 0xf5]"

definition digest_with_salt :: "lib \<Rightarrow> string \<Rightarrow> bytes \<Rightarrow> bytes \<Rightarrow> string res" where
  "digest_with_salt L algo salt block =
     (if algo = ''sha256'' then Inr (hex_encode L (sha256 L (salt @ block)))
      else if algo = ''sha512'' then Inr (hex_encode L (sha512 L (salt @ block)))
      else Inl (Fail (''unsupported dm-verity hash algorithm: '' @ algo)))"

definition position_zero :: "bytes \<Rightarrow> nat" where
  "position_zero b = length (takeWhile (\<lambda>x. x \<noteq> 0) b)"

text \<open>\<open>position(|&b| b == 0).unwrap_or(32)\<close> over 32 bytes is \<^const>\<open>position_zero\<close>.\<close>

definition roothash_from_verity_partition :: "lib \<Rightarrow> bool \<Rightarrow> bytes \<Rightarrow> string res" where
  "roothash_from_verity_partition L oc part =
     (if length part < 4096 \<or> take 8 part \<noteq> verity_magic
      then Inl (Fail ''not a dm-verity partition (bad superblock magic)'')
      else
        bnd (slice_at part 8 12) (\<lambda>v.
        if le_nat v \<noteq> 1
        then Inl (Fail (''unsupported dm-verity superblock version: '' @ dec (le_nat v)))
        else
          bnd (slice_at part 32 64) (\<lambda>field.
          let algo_end = 32 + position_zero field in
          bnd (slice_at part 32 algo_end) (\<lambda>name.
          bnd (need (Fail ''verity algorithm not UTF-8'') (from_utf8 name)) (\<lambda>algo.
          bnd (slice_at part 68 72) (\<lambda>hb.
          bnd (slice_at part 80 82) (\<lambda>sb.
          let hash_block_size = le_nat hb; salt_size = le_nat sb in
          bnd (arith64 oc (88 + salt_size)) (\<lambda>salt_end.
          if length part < salt_end then Inl (Fail ''verity superblock salt out of range'')
          else
            bnd (slice_at part 88 salt_end) (\<lambda>salt.
            bnd (arith64 oc (hash_block_size * 2)) (\<lambda>block_end.
            bnd (need (Fail ''verity partition too small to hold a root hash block'')
                   (get_range part hash_block_size block_end)) (\<lambda>root_block.
            digest_with_salt L algo salt root_block)))))))))))"

text \<open>The body of the loop on a matching entry: \<open>first..last\<close> as byte offset and length.\<close>

definition entry_extent :: "bytes \<Rightarrow> (nat \<times> nat) res" where
  "entry_extent entry =
     bnd (slice_at entry 32 40) (\<lambda>fb. bnd (slice_at entry 40 48) (\<lambda>lb.
     let first_lba = le_nat fb; last_lba = le_nat lb in
     if last_lba < first_lba
     then Inl (Fail (''verity partition has EndingLBA '' @ dec last_lba @ '' before StartingLBA '' @ dec first_lba))
     else
       bnd (need (Fail ''verity partition LBA range overflows u64'')
              (checked64 (last_lba - first_lba + 1))) (\<lambda>lba_count.
       bnd (need (Fail ''verity partition offset overflows'') (checked64 (first_lba * lba))) (\<lambda>start.
       bnd (need (Fail ''verity partition length overflows'') (checked64 (lba_count * lba))) (\<lambda>len.
       Inr (start, len))))))"

fun scan_entries :: "bool \<Rightarrow> bytes \<Rightarrow> nat \<Rightarrow> nat \<Rightarrow> nat \<Rightarrow> (nat \<times> nat) res" where
  "scan_entries oc disk entry_size 0 off = Inl (Fail ''no root-verity partition found in disk image'')"
| "scan_entries oc disk entry_size (Suc n) off =
     bnd (arith64 oc (off + entry_size)) (\<lambda>off_end.
     bnd (need (Fail ''GPT partition entry out of range'') (get_range disk off off_end)) (\<lambda>entry.
     bnd (slice_at entry 0 16) (\<lambda>guid.
     if guid = verity_type_guid then entry_extent entry
     else bnd (arith64 oc (off + entry_size)) (scan_entries oc disk entry_size n))))"

definition find_verity_partition :: "bool \<Rightarrow> bytes \<Rightarrow> (nat \<times> nat) res" where
  "find_verity_partition oc disk =
     bnd (need (Fail ''disk too small for a GPT header'') (get_range disk lba (lba + 92))) (\<lambda>header.
     bnd (slice_at header 0 8) (\<lambda>sig.
     if sig \<noteq> as_bytes ''EFI PART''
     then Inl (Fail ''image is not a GPT disk (no 'EFI PART' header at LBA1)'')
     else
       bnd (slice_at header 72 80) (\<lambda>eb. bnd (slice_at header 80 84) (\<lambda>nb. bnd (slice_at header 84 88) (\<lambda>sb.
       let entries_lba = le_nat eb; num_entries = le_nat nb; entry_size = le_nat sb in
       if entry_size < 48
       then Inl (Fail (''GPT partition entry size too small: '' @ dec entry_size))
       else bnd (arith64 oc (entries_lba * lba)) (scan_entries oc disk entry_size num_entries))))))"

text \<open>
  \<open>read_exact_at\<close> fills its buffer from the file or fails. The file is the outcome of opening
  it: a message, or its bytes.
\<close>

definition read_exact_at :: "bytes \<Rightarrow> nat \<Rightarrow> nat \<Rightarrow> string \<Rightarrow> bytes res" where
  "read_exact_at f n off ctx = need (Fail ctx) (get_range f off (off + n))"

definition stored_roothash :: "lib \<Rightarrow> bool \<Rightarrow> string + bytes \<Rightarrow> string res" where
  "stored_roothash L oc file =
     bnd (map_err Fail file) (\<lambda>f.
     bnd (read_exact_at f (min (length f) head_bytes) 0 ''reading GPT header from disk image'') (\<lambda>head.
     bnd (find_verity_partition oc head) (\<lambda>(start, _).
     bnd (read_exact_at f 4096 start ''reading verity superblock from disk image'') (\<lambda>part.
     bnd (slice_at part 68 72) (\<lambda>hb.
     let hash_block_size = le_nat hb in
     bnd (need (Fail ''verity hash block size overflows'') (checked64 (hash_block_size * 2))) (\<lambda>needed.
     if length part < needed then
       bnd (read_exact_at f needed start ''reading verity root hash block from disk image'')
         (roothash_from_verity_partition L oc)
     else roothash_from_verity_partition L oc part))))))"

section \<open>Lemmas\<close>

lemma le_nat_4: "length b = 4 \<Longrightarrow> le_nat b < 2 ^ 32"
  using le_nat_less [of b] by simp

lemma le_nat_2: "length b = 2 \<Longrightarrow> le_nat b < 2 ^ 16"
  using le_nat_less [of b] by simp

lemma le_nat_8: "length b = 8 \<Longrightarrow> le_nat b < word_max"
  using le_nat_less [of b] by (simp add: word_max_def)

lemma position_zero_le: "position_zero b \<le> length b"
  by (simp add: position_zero_def length_takeWhile_le)

text \<open>The fields of a superblock, and what makes it acceptable.\<close>

definition field_at :: "bytes \<Rightarrow> nat \<Rightarrow> nat \<Rightarrow> nat" where
  "field_at b off n = le_nat (take n (drop off b))"

definition sb_algo :: "bytes \<Rightarrow> bytes" where
  "sb_algo part = takeWhile (\<lambda>x. x \<noteq> 0) (take 32 (drop 32 part))"

definition sb_salt :: "bytes \<Rightarrow> bytes" where
  "sb_salt part = take (field_at part 80 2) (drop 88 part)"

definition sb_root_block :: "bytes \<Rightarrow> bytes" where
  "sb_root_block part = take (field_at part 68 4) (drop (field_at part 68 4) part)"

definition sb_ok :: "bytes \<Rightarrow> bool" where
  "sb_ok part \<longleftrightarrow> 4096 \<le> length part \<and> take 8 part = verity_magic \<and> field_at part 8 4 = 1
     \<and> 88 + field_at part 80 2 \<le> length part \<and> 2 * field_at part 68 4 \<le> length part"

lemma take_position_zero: "take (position_zero b) b = takeWhile (\<lambda>x. x \<noteq> 0) b"
  by (simp add: position_zero_def takeWhile_eq_take [symmetric])

lemma field_small: "field_at b off 4 < 2 ^ 32" "field_at b off 2 < 2 ^ 16"
proof -
  have "length (take n (drop off b)) \<le> n" for n by simp
  then have "256 ^ length (take n (drop off b)) \<le> (256 :: nat) ^ n" for n
    by (intro power_increasing) auto
  then have "le_nat (take n (drop off b)) < 256 ^ n" for n
    using le_nat_less [of "take n (drop off b)"] by (meson less_le_trans)
  from this [of 4] this [of 2] show "field_at b off 4 < 2 ^ 32" "field_at b off 2 < 2 ^ 16"
    by (simp_all add: field_at_def)
qed

lemma roothash_unfold:
  "roothash_from_verity_partition L oc part =
     (if length part < 4096 \<or> take 8 part \<noteq> verity_magic
      then Inl (Fail ''not a dm-verity partition (bad superblock magic)'')
      else if field_at part 8 4 \<noteq> 1
      then Inl (Fail (''unsupported dm-verity superblock version: '' @ dec (field_at part 8 4)))
      else (case from_utf8 (sb_algo part) of
          None \<Rightarrow> Inl (Fail ''verity algorithm not UTF-8'')
        | Some algo \<Rightarrow>
           if length part < 88 + field_at part 80 2 then Inl (Fail ''verity superblock salt out of range'')
           else if length part < 2 * field_at part 68 4
           then Inl (Fail ''verity partition too small to hold a root hash block'')
           else digest_with_salt L algo (sb_salt part) (sb_root_block part)))"
proof (cases "length part < 4096")
  case False
  have pz: "position_zero (take 32 (drop 32 part)) \<le> 32"
    using position_zero_le [of "take 32 (drop 32 part)"] by simp
  have name: "take (position_zero (take 32 (drop 32 part))) (drop 32 part) = sb_algo part"
    using take_position_zero [of "take 32 (drop 32 part)"] pz
    by (simp add: sb_algo_def min_absorb1)
  have fs: "88 + field_at part 80 2 < word_max" "field_at part 68 4 * 2 < word_max"
    using field_small(2) [of part 80] field_small(1) [of part 68] by (simp_all add: word_max_def)
  show ?thesis using False pz name fs
    by (simp add: roothash_from_verity_partition_def Let_def flip: field_at_def)
      (simp add: field_at_def get_range_def sb_salt_def sb_root_block_def need_def split: option.splits)
qed (simp add: roothash_from_verity_partition_def)

lemma panics_digest_with_salt [simp]: "\<not> panics (digest_with_salt L algo salt block)"
  by (simp add: digest_with_salt_def)

lemma panics_roothash: "\<not> panics (roothash_from_verity_partition L oc part)"
  by (simp add: roothash_unfold split: option.splits)

text \<open>The entries of the partition table: entry \<open>i\<close> of a table at byte \<open>off\<close>.\<close>

definition gpt_entry :: "bytes \<Rightarrow> nat \<Rightarrow> nat \<Rightarrow> nat \<Rightarrow> bytes" where
  "gpt_entry disk entry_size off i = take entry_size (drop (off + i * entry_size) disk)"

definition is_verity_entry :: "bytes \<Rightarrow> bool" where
  "is_verity_entry entry = (take 16 entry = verity_type_guid)"

text \<open>Entry \<open>i\<close> is the first of \<open>n\<close> with the type GUID, and the table reaches it.\<close>

definition first_verity_entry :: "bytes \<Rightarrow> nat \<Rightarrow> nat \<Rightarrow> nat \<Rightarrow> nat \<Rightarrow> bool" where
  "first_verity_entry disk entry_size off n i \<longleftrightarrow>
     i < n \<and> off + (i + 1) * entry_size \<le> length disk
     \<and> is_verity_entry (gpt_entry disk entry_size off i)
     \<and> (\<forall>j < i. \<not> is_verity_entry (gpt_entry disk entry_size off j))"

lemma first_verity_entry_Suc:
  "first_verity_entry disk sz off (Suc n) i \<longleftrightarrow>
     (if is_verity_entry (gpt_entry disk sz off 0) then i = 0 \<and> off + sz \<le> length disk
      else \<exists>k. i = Suc k \<and> first_verity_entry disk sz (off + sz) n k)"
proof -
  have shift: "gpt_entry disk sz off (Suc k) = gpt_entry disk sz (off + sz) k" for k
    by (simp add: gpt_entry_def add.assoc)
  show ?thesis
    by (cases i) (auto simp: first_verity_entry_def shift less_Suc_eq_0_disj add.assoc)
qed

lemma arith_range:
  assumes "sz < word_max" "off < word_max" "length disk < word_max" "0 < sz"
    and "arith64 oc (off + sz) = Inr e" "get_range disk off e = Some s"
  shows "e = off + sz \<and> off + sz \<le> length disk"
  using assms
  by (auto simp: arith64_def wrap64_def get_range_def le_mod_geq not_less split: if_splits)

lemma scan_entries_eq_Inr:
  assumes "48 \<le> sz" "sz < word_max" "off < word_max" "length disk < word_max"
  shows "scan_entries oc disk sz n off = Inr r \<longleftrightarrow>
    (\<exists>i. first_verity_entry disk sz off n i \<and> entry_extent (gpt_entry disk sz off i) = Inr r)"
  using assms
proof (induction n arbitrary: off)
  case 0
  then show ?case by (simp add: first_verity_entry_def)
next
  case (Suc n)
  have shift: "gpt_entry disk sz off (Suc k) = gpt_entry disk sz (off + sz) k" for k
    by (simp add: gpt_entry_def add.assoc)
  show ?case
  proof (cases "off + sz \<le> length disk")
    case True
    then have "get_range disk off (off + sz) = Some (gpt_entry disk sz off 0)"
      by (simp add: gpt_entry_def)
    moreover have "take 16 (gpt_entry disk sz off 0) = take 16 (drop 0 (gpt_entry disk sz off 0))"
      by simp
    moreover have "48 \<le> length (gpt_entry disk sz off 0)"
      using True Suc.prems by (simp add: gpt_entry_def)
    moreover have "off + sz < word_max" using True Suc.prems by simp
    ultimately show ?thesis using Suc.IH [of "off + sz"] Suc.prems True
      by (auto simp: first_verity_entry_Suc is_verity_entry_def shift)
  next
    case False
    have "\<not> first_verity_entry disk sz off (Suc n) i" for i
      using False by (auto simp: first_verity_entry_def)
    moreover have "scan_entries oc disk sz (Suc n) off \<noteq> Inr r"
      using arith_range [of sz off disk oc] False Suc.prems by auto
    ultimately show ?thesis by blast
  qed
qed

lemma panics_entry_extent: "48 \<le> length entry \<Longrightarrow> \<not> panics (entry_extent entry)"
  by (auto simp: entry_extent_def Let_def panics_bnd)

lemma panics_scan_entries:
  "48 \<le> sz \<Longrightarrow> sz < word_max \<Longrightarrow> off < word_max \<Longrightarrow> length disk < word_max \<Longrightarrow>
     \<not> panics (scan_entries False disk sz n off)"
proof (induction n arbitrary: off)
  case (Suc n)
  have "\<not> panics (entry_extent e) \<and> 16 \<le> length e"
    if "get_range disk off (wrap64 (off + sz)) = Some e" for e
  proof -
    have "wrap64 (off + sz) = off + sz \<and> off + sz \<le> length disk"
      using arith_range [of sz off disk False "wrap64 (off + sz)" e] Suc.prems that
      by (simp add: arith64_release)
    then have "length e = sz" using that get_range_length by fastforce
    then show ?thesis using Suc.prems panics_entry_extent by simp
  qed
  then show ?case using Suc.IH [of "wrap64 (off + sz)"] Suc.prems
    by (auto simp: panics_bnd arith64_release)
qed simp

lemma entry_extent_eq_Inr:
  assumes "48 \<le> length entry"
  shows "entry_extent entry = Inr (start, len) \<longleftrightarrow>
    (let f = field_at entry 32 8; l = field_at entry 40 8 in
     f \<le> l \<and> start = f * 512 \<and> len = (l - f + 1) * 512 \<and> start < word_max \<and> len < word_max)"
proof -
  have "field_at entry 40 8 - field_at entry 32 8 + 1 < word_max"
    if "(field_at entry 40 8 - field_at entry 32 8 + 1) * 512 < word_max"
    using that by simp
  then show ?thesis
    using assms by (auto simp: entry_extent_def Let_def lba_def simp flip: field_at_def)
qed

definition gpt_ok :: "bytes \<Rightarrow> bool" where
  "gpt_ok disk \<longleftrightarrow> 604 \<le> length disk \<and> take 8 (drop 512 disk) = as_bytes ''EFI PART''
     \<and> 48 \<le> field_at disk 596 4"

definition gpt_table :: "bytes \<Rightarrow> nat" where
  "gpt_table disk = wrap64 (field_at disk 584 8 * 512)"

lemma header_field:
  "604 \<le> length disk \<Longrightarrow> off + n \<le> 92 \<Longrightarrow> field_at (take 92 (drop 512 disk)) off n = field_at disk (512 + off) n"
  by (simp add: field_at_def drop_take add.commute)

lemma find_verity_partition_unfold:
  "find_verity_partition oc disk =
     (if length disk < 604 then Inl (Fail ''disk too small for a GPT header'')
      else if take 8 (drop 512 disk) \<noteq> as_bytes ''EFI PART''
      then Inl (Fail ''image is not a GPT disk (no 'EFI PART' header at LBA1)'')
      else if field_at disk 596 4 < 48
      then Inl (Fail (''GPT partition entry size too small: '' @ dec (field_at disk 596 4)))
      else bnd (arith64 oc (field_at disk 584 8 * 512))
             (scan_entries oc disk (field_at disk 596 4) (field_at disk 592 4)))"
proof (cases "length disk < 604")
  case True
  then show ?thesis by (simp add: find_verity_partition_def lba_def need_def get_range_def)
next
  case False
  then have "min 92 (length disk - 512) = 92" by simp
  then show ?thesis using False header_field [of disk]
    by (simp add: find_verity_partition_def lba_def Let_def flip: field_at_def)
qed

lemma entry_size_small: "field_at disk off 4 < word_max"
  using field_small(1) [of disk off] by (simp add: word_max_def)

lemma gpt_entry_length:
  "first_verity_entry disk sz off n i \<Longrightarrow> length (gpt_entry disk sz off i) = sz"
  by (auto simp: first_verity_entry_def gpt_entry_def min_def algebra_simps)

lemma find_release:
  assumes "length disk < word_max"
  shows "find_verity_partition False disk = Inr r \<longleftrightarrow> gpt_ok disk \<and>
    (\<exists>i. first_verity_entry disk (field_at disk 596 4) (gpt_table disk) (field_at disk 592 4) i
        \<and> entry_extent (gpt_entry disk (field_at disk 596 4) (gpt_table disk) i) = Inr r)"
  using scan_entries_eq_Inr [of "field_at disk 596 4" "gpt_table disk" disk False "field_at disk 592 4" r]
    entry_size_small [of disk 596] assms
  by (auto simp: find_verity_partition_unfold gpt_ok_def arith64_release gpt_table_def)

text \<open>An overflow-checked build that does not panic computes what the release build does.\<close>

lemma scan_entries_checked:
  "\<not> panics (scan_entries True disk sz n off) \<Longrightarrow> scan_entries True disk sz n off = scan_entries False disk sz n off"
proof (induction n arbitrary: off)
  case (Suc n)
  have lt: "off + sz < word_max" using Suc.prems by (auto simp: panics_bnd panics_arith64 not_less)
  show ?case
  proof (cases "get_range disk off (off + sz)")
    case (Some e)
    then show ?thesis using Suc lt by (cases "slice_at e 0 16") (auto simp: panics_def)
  qed (use lt in simp)
qed simp

section \<open>Properties\<close>

text \<open>
  C26. What \<open>find_verity_partition\<close> returns in the release build: exactly the byte extent of the
  first entry of the partition table whose type GUID is root-verity, when the GPT header is good, the
  table reaches that entry, the end LBA is not before the start LBA and offset and length fit 64 bits.
\<close>

theorem find_verity_partition_correct:
  assumes "length disk < word_max"
  shows "find_verity_partition False disk = Inr (start, len) \<longleftrightarrow> gpt_ok disk \<and>
    (\<exists>i. first_verity_entry disk (field_at disk 596 4) (gpt_table disk) (field_at disk 592 4) i \<and>
       (let e = gpt_entry disk (field_at disk 596 4) (gpt_table disk) i;
            f = field_at e 32 8; l = field_at e 40 8 in
        f \<le> l \<and> start = f * 512 \<and> len = (l - f + 1) * 512 \<and> start < word_max \<and> len < word_max))"
proof -
  have "entry_extent (gpt_entry disk (field_at disk 596 4) (gpt_table disk) i) = Inr (start, len) \<longleftrightarrow>
      (let e = gpt_entry disk (field_at disk 596 4) (gpt_table disk) i;
           f = field_at e 32 8; l = field_at e 40 8 in
       f \<le> l \<and> start = f * 512 \<and> len = (l - f + 1) * 512 \<and> start < word_max \<and> len < word_max)"
    if "gpt_ok disk" "first_verity_entry disk (field_at disk 596 4) (gpt_table disk) (field_at disk 592 4) i" for i
    using that gpt_entry_length [OF that(2)] entry_extent_eq_Inr
    by (simp add: gpt_ok_def Let_def)
  then show ?thesis using find_release [OF assms] by blast
qed

definition sample_partition :: bytes where
  "sample_partition =
     verity_magic @ le_bytes 4 1 @ replicate 20 0 @ as_bytes ''sha256'' @ replicate 26 0
     @ le_bytes 4 4096 @ le_bytes 4 2048 @ replicate 8 0 @ le_bytes 2 3 @ replicate 6 0
     @ [7, 8, 9] @ replicate 1957 0 @ replicate 2047 5 @ [6]"

definition sample_disk :: bytes where
  "sample_disk =
     replicate 512 0
     @ as_bytes ''EFI PART'' @ replicate 64 0 @ le_bytes 8 2 @ le_bytes 4 1 @ le_bytes 4 128
     @ replicate 4 0 @ replicate 420 0
     @ verity_type_guid @ replicate 16 0 @ le_bytes 8 3 @ le_bytes 8 10 @ replicate 80 0
     @ replicate 384 0 @ sample_partition"

lemma sample_partition_length: "length sample_partition = 4096"
  by (simp add: sample_partition_def verity_magic_def)

lemma sample_disk_length: "length sample_disk = 5632"
  by (simp add: sample_disk_def sample_partition_length verity_type_guid_def)

lemma sample_disk_fields:
  "take 8 (drop 512 sample_disk) = as_bytes ''EFI PART''"
  "field_at sample_disk 584 8 = 2" "field_at sample_disk 592 4 = 1" "field_at sample_disk 596 4 = 128"
  by (simp_all add: sample_disk_def field_at_def)

lemma sample_disk_scan:
  "gpt_table sample_disk = 1024" "gpt_ok sample_disk"
  "first_verity_entry sample_disk 128 1024 1 0"
  "field_at (gpt_entry sample_disk 128 1024 0) 32 8 = 3"
  "field_at (gpt_entry sample_disk 128 1024 0) 40 8 = 10"
proof -
  show "gpt_table sample_disk = 1024"
    by (simp add: gpt_table_def sample_disk_fields wrap64_def word_max_def)
  show "gpt_ok sample_disk" by (simp add: gpt_ok_def sample_disk_fields sample_disk_length)
  have "gpt_entry sample_disk 128 1024 0 =
      verity_type_guid @ replicate 16 0 @ le_bytes 8 3 @ le_bytes 8 10 @ replicate 80 0"
    by (simp add: gpt_entry_def sample_disk_def verity_type_guid_def)
  then show "first_verity_entry sample_disk 128 1024 1 0"
      "field_at (gpt_entry sample_disk 128 1024 0) 32 8 = 3"
      "field_at (gpt_entry sample_disk 128 1024 0) 40 8 = 10"
    by (simp_all add: first_verity_entry_def sample_disk_length is_verity_entry_def field_at_def verity_type_guid_def)
qed

lemma sample_find: "find_verity_partition False (take head_bytes sample_disk) = Inr (1536, 4096)"
proof -
  have "length (gpt_entry sample_disk 128 1024 0) = 128"
    using gpt_entry_length [OF sample_disk_scan(3)] .
  then have "entry_extent (gpt_entry sample_disk 128 1024 0) = Inr (1536, 4096)"
    by (simp add: entry_extent_eq_Inr sample_disk_scan Let_def word_max_def)
  then have "find_verity_partition False sample_disk = Inr (1536, 4096)"
    using sample_disk_scan(3) unfolding find_release [of sample_disk, simplified sample_disk_length word_max_def, simplified]
    by (auto simp: sample_disk_scan sample_disk_fields)
  then show ?thesis by (simp add: head_bytes_def sample_disk_length)
qed

theorem find_verity_partition_correct_witness:
  "find_verity_partition False sample_disk = Inr (1536, 4096)"
  using find_verity_partition_correct [of sample_disk 1536 4096] sample_disk_scan
  by (auto simp: sample_disk_fields sample_disk_length word_max_def Let_def intro!: exI [of _ 0])

text \<open>
  C27. What \<open>roothash_from_verity_partition\<close> returns: for a partition with a version 1 superblock
  of at least 4096 bytes, whose salt and root hash block lie inside it and whose algorithm is sha256
  or sha512, the hex digest of the salt followed by the block at \<open>hash_block_size\<close>; nothing else is
  accepted, and no input makes it panic, with or without overflow checks.
\<close>

theorem roothash_from_verity_partition_correct:
  "(roothash_from_verity_partition L oc part = Inr r \<longleftrightarrow>
      sb_ok part \<and>
      (r = hex_encode L (sha256 L (sb_salt part @ sb_root_block part)) \<and> from_utf8 (sb_algo part) = Some ''sha256''
       \<or> r = hex_encode L (sha512 L (sb_salt part @ sb_root_block part)) \<and> from_utf8 (sb_algo part) = Some ''sha512''))
   \<and> \<not> panics (roothash_from_verity_partition L oc part)"
  using panics_roothash [of L oc part]
  by (auto simp: roothash_unfold sb_ok_def digest_with_salt_def split: option.splits)

text \<open>
  No disk image makes the release build panic: \<open>find_verity_partition\<close> and
  \<open>stored_roothash\<close> return a value or an error on every file shorter than \<open>2^64\<close> bytes.
\<close>

theorem stored_roothash_no_panic:
  assumes "case img of Inr f \<Rightarrow> length f < word_max | Inl _ \<Rightarrow> True"
  shows "\<not> panics (stored_roothash L False img)"
proof (cases img)
  case (Inr f)
  have "\<not> panics (find_verity_partition False disk)" if "length disk < word_max" for disk
    using panics_scan_entries [of "field_at disk 596 4" "gpt_table disk" disk] that entry_size_small
    by (auto simp: find_verity_partition_unfold arith64_release gpt_table_def)
  moreover have "length h < word_max" if "read_exact_at f n off c = Inr h" for n off c h
    using that assms Inr by (auto simp: read_exact_at_def get_range_eq_Some)
  moreover have "\<not> panics (read_exact_at f n off c)" for n off c
    by (simp add: read_exact_at_def)
  moreover have "\<not> panics (slice_at p 68 72)" if "read_exact_at f 4096 off c = Inr p" for off c p
    using that by (simp add: panics_slice_at read_exact_at_def) (auto simp: get_range_eq_Some)
  ultimately show ?thesis using Inr
    by (auto simp: stored_roothash_def panics_bnd Let_def panics_roothash split: if_splits)
qed (simp add: stored_roothash_def)

theorem stored_roothash_no_panic_witness:
  "\<not> panics (stored_roothash sample_lib False (Inr (replicate 600 0)))"
  by (rule stored_roothash_no_panic) (simp add: word_max_def)

text \<open>
  In a build with overflow checks a crafted image does panic: the start of the partition table is
  the unchecked product \<open>entries_lba * LBA\<close>. The release build reports an error on the same image.
\<close>

definition crafted_disk :: bytes where
  "crafted_disk =
     replicate 512 0 @ as_bytes ''EFI PART'' @ replicate 64 0 @ le_bytes 8 (2 ^ 60) @ le_bytes 4 1
     @ le_bytes 4 128 @ replicate 4 0"

lemma crafted_disk_fields:
  "take 8 (drop 512 crafted_disk) = as_bytes ''EFI PART''" "length crafted_disk = 604"
  "field_at crafted_disk 584 8 = 2 ^ 60" "field_at crafted_disk 592 4 = 1" "field_at crafted_disk 596 4 = 128"
  by (simp_all add: crafted_disk_def field_at_def)

theorem unchecked_table_offset:
  "panics (find_verity_partition True crafted_disk)
   \<and> find_verity_partition False crafted_disk = Inl (Fail ''no root-verity partition found in disk image'')"
proof -
  have "get_range crafted_disk 0 128 = Some (replicate 128 0)"
    by (simp add: crafted_disk_def get_range_def)
  moreover have "replicate 16 0 \<noteq> verity_type_guid"
  proof -
    have "hd (replicate 16 0) \<noteq> hd verity_type_guid" by (simp add: verity_type_guid_def)
    then show ?thesis by metis
  qed
  ultimately show ?thesis
    by (simp add: find_verity_partition_unfold crafted_disk_fields arith64_def wrap64_def word_max_def)
qed

text \<open>
  C28. Reading only the front of the partition is enough: when the GPT scan of the first 64 KiB finds
  a partition that lies in the file and holds its superblock, the salt in its first block and its root
  hash block, \<open>stored_roothash\<close> gives the root hash of the whole partition.
\<close>

lemma roothash_prefix:
  assumes "length part \<ge> n" "4096 \<le> n" "2 * field_at part 68 4 \<le> n" "88 + field_at part 80 2 \<le> 4096"
  shows "roothash_from_verity_partition L oc (take n part) = roothash_from_verity_partition L oc part"
proof -
  have f: "field_at (take n part) off k = field_at part off k" if "off + k \<le> n" for off k
    using that by (simp add: field_at_def drop_take)
  have a: "sb_algo (take n part) = sb_algo part" using assms by (simp add: sb_algo_def drop_take)
  have s: "sb_salt (take n part) = sb_salt part"
    using assms f [of 80 2] by (simp add: sb_salt_def drop_take)
  have r: "sb_root_block (take n part) = sb_root_block part"
    using assms f [of 68 4] by (simp add: sb_root_block_def drop_take)
  show ?thesis using assms f [of 8 4] f [of 80 2] f [of 68 4]
    by (simp add: roothash_unfold a s r min_absorb2 split: option.split)
qed

theorem stored_roothash_reads_partition:
  assumes "find_verity_partition oc (take head_bytes f) = Inr (start, len)"
    and "start + len \<le> length f" and "4096 \<le> len"
    and "2 * field_at (take len (drop start f)) 68 4 \<le> len"
    and "88 + field_at (take len (drop start f)) 80 2 \<le> 4096"
  shows "stored_roothash L oc (Inr f) = roothash_from_verity_partition L oc (take len (drop start f))"
proof -
  define P where "P = take len (drop start f)"
  define h where "h = field_at P 68 4"
  have head: "read_exact_at f (min (length f) head_bytes) 0 c = Inr (take head_bytes f)" for c
    by (simp add: read_exact_at_def min_def)
  have rd: "read_exact_at f n start c = Inr (take n P)" if "n \<le> len" for n c
    using that assms by (simp add: read_exact_at_def P_def min_absorb1)
  have lp: "length P = len" and as: "2 * h \<le> len" "88 + field_at P 80 2 \<le> 4096"
    using assms by (simp_all add: P_def h_def)
  have sl: "slice_at (take 4096 P) 68 72 = Inr (take 4 (drop 68 P))"
    using lp assms(3) by (simp add: drop_take)
  have small: "h * 2 < word_max"
    using field_small(1) [of P 68] by (simp add: word_max_def h_def)
  have pre: "roothash_from_verity_partition L oc (take n P) = roothash_from_verity_partition L oc P"
    if "4096 \<le> n" "2 * h \<le> n" "n \<le> len" for n
    using roothash_prefix [of n P] that as lp by (simp add: h_def)
  have "stored_roothash L oc (Inr f) = roothash_from_verity_partition L oc P"
    using assms(1,3) pre [of "h * 2"] pre [of 4096] small lp as
    by (simp add: stored_roothash_def head rd sl Let_def checked64_def flip: field_at_def h_def)
  then show ?thesis by (simp only: P_def)
qed

lemma sample_fields:
  "take 4096 (drop 1536 sample_disk) = sample_partition"
  "field_at sample_partition 68 4 = 2048" "field_at sample_partition 80 2 = 3"
  by (simp_all add: sample_disk_def sample_partition_length verity_type_guid_def
      sample_partition_def verity_magic_def field_at_def)

theorem stored_roothash_reads_partition_witness:
  "stored_roothash sample_lib False (Inr sample_disk)
     = roothash_from_verity_partition sample_lib False sample_partition"
  using stored_roothash_reads_partition [OF sample_find, of sample_lib]
  by (simp add: sample_fields sample_disk_length)

end
