(* ===== verification/Igvm_Types.thy ===== *)
theory Igvm_Types
  imports Externals
begin

unbundle bit_operations_syntax

text \<open>
  The data of the \<open>igvm\<close>, \<open>igvm_defs\<close> crates that the code builds and matches on: registers, the
  SEV VMSA and the native context (the fields the code sets), directives, platform and
  initialization headers, the file. The crates' own functions (validation, parsing, serialisation,
  the byte layout of a VMSA and of the guest policy) are fields of a parameter record \<open>igvm_lib\<close>.
\<close>

section \<open>Registers\<close>

record table_register =
  tr_base :: u64
  tr_limit :: u16

record segment_register =
  sr_base :: u64
  sr_limit :: u32
  sr_selector :: u16
  sr_attributes :: u16

datatype x86_register =
    Rip u64 | Cr0 u64 | Pat u64
  | Gdtr table_register | Idtr table_register
  | Cs segment_register | Ss segment_register | Ds segment_register | Es segment_register
  | Fs segment_register | Gs segment_register | Tr segment_register
  | OtherRegister string

record sev_selector =
  ss_selector :: u16
  ss_attrib :: u16
  ss_limit :: u32
  ss_base :: u64

text \<open>\<open>SevFeatures\<close>: the two flags the code sets.\<close>

record sev_features =
  sf_snp :: bool
  sf_debug_swap :: bool

record sev_vmsa =
  v_es :: sev_selector
  v_cs :: sev_selector
  v_ss :: sev_selector
  v_ds :: sev_selector
  v_fs :: sev_selector
  v_gs :: sev_selector
  v_gdtr :: sev_selector
  v_idtr :: sev_selector
  v_tr :: sev_selector
  v_efer :: u64
  v_cr0 :: u64
  v_dr7 :: u64
  v_dr6 :: u64
  v_rip :: u64
  v_pat :: u64
  v_sev_features :: sev_features
  v_xcr0 :: u64
  v_mxcsr :: u32
  v_x87_fcw :: u16

record native_ctx =
  n_rip :: u64
  n_cr0 :: u64
  n_gdtr_base :: u64
  n_gdtr_limit :: u16
  n_idtr_base :: u64
  n_idtr_limit :: u16
  n_code_base :: u32
  n_code_limit :: u32
  n_code_selector :: u16
  n_code_attributes :: u16
  n_data_base :: u32
  n_data_limit :: u32
  n_data_selector :: u16
  n_data_attributes :: u16
  n_gs_base :: u64

section \<open>Headers\<close>

datatype platform_type = NativePlatform | SevSnp | OtherPlatform u8

record platform =
  pl_compat :: u32
  pl_highest_vtl :: u8
  pl_type :: platform_type
  pl_version :: u16
  pl_shared_boundary :: u64

datatype initialization = GuestPolicy u64 u32 | OtherInitialization

datatype page_data_type = NormalPage | SecretsPage | CpuidData | CpuidXf | OtherPageType u16

record page_flags =
  pf_is_2mb :: bool
  pf_unmeasured :: bool

definition no_flags :: page_flags where
  "no_flags = \<lparr>pf_is_2mb = False, pf_unmeasured = False\<rparr>"

text \<open>
  Directives, with their fields in the order the source matches them: \<open>PageData\<close> has address,
  compatibility mask, flags, type and data; \<open>SnpVpContext\<close> address, mask, vCPU index, VMSA;
  \<open>ParameterInsert\<close> area, address, mask; \<open>ParameterArea\<close> size, index, initial data.
\<close>

datatype directive =
    PageData u64 u32 page_flags page_data_type bytes
  | SnpVpContext u64 u32 u16 sev_vmsa
  | X64NativeVpContext u32 u32 native_ctx
  | ParameterInsert u32 u64 u32
  | ParameterArea u64 u32 bytes
  | MemoryMap u32 u32
  | VpCount u32 u32
  | OtherDirective

record igvm_file =
  ig_platforms :: "platform list"
  ig_initializations :: "initialization list"
  ig_directives :: "directive list"

record igvm_lib =
  vmsa_as_bytes :: "sev_vmsa \<Rightarrow> bytes"
  igvm_validate :: "igvm_file \<Rightarrow> string + igvm_file"
  igvm_serialize :: "igvm_file \<Rightarrow> string + bytes"
  igvm_parse :: "bytes \<Rightarrow> string + igvm_file"
  smt_policy :: u64

text \<open>
  \<open>smt_policy\<close> is the \<open>SnpPolicy\<close> whose only set bits are \<open>reserved_must_be_one\<close> and \<open>smt\<close>.
  \<open>IgvmFile::new\<close> checks its parts and keeps them.\<close>

definition igvm_ok :: "igvm_lib \<Rightarrow> bool" where
  "igvm_ok G = (\<forall>f g. igvm_validate G f = Inr g \<longrightarrow> g = f)"

section \<open>Automation\<close>

definition is_page :: "directive \<Rightarrow> bool" where
  "is_page d = (case d of PageData _ _ _ _ _ \<Rightarrow> True | _ \<Rightarrow> False)"

lemma is_page_simps [simp]:
  "is_page (PageData g m f t b)" "\<not> is_page (SnpVpContext g m i v)" "\<not> is_page (X64NativeVpContext m j c)"
  "\<not> is_page (ParameterInsert a g m)" "\<not> is_page (ParameterArea n a b)" "\<not> is_page (MemoryMap a o1)"
  "\<not> is_page (VpCount a o1)" "\<not> is_page OtherDirective"
  by (simp_all add: is_page_def)

lemma is_page_E: "is_page d \<longleftrightarrow> (\<exists>g m f t b. d = PageData g m f t b)"
  by (cases d) auto

end
