(* ===== verification/Measure.thy ===== *)
theory Measure
  imports Igvm_Types
begin

unbundle bit_operations_syntax

text \<open>
  The SEV-SNP launch measurement of an IGVM file (\<open>crates/igvm-tools/src/measure.rs\<close> and
  \<open>hypervisor.rs\<close>): the PAGE_INFO hash chain, the batching of page data, parameter inserts that are
  measured at once, and the VMSA pages measured last. Guest addresses and the page counter are
  64-bit words, as in the release build; the \<open>verbose\<close> trace is not modelled.
\<close>

section \<open>Definitions\<close>

definition snp_normal :: u8 where "snp_normal = 0x01"
definition snp_vmsa :: u8 where "snp_vmsa = 0x02"
definition snp_unmeasured :: u8 where "snp_unmeasured = 0x04"
definition snp_secrets :: u8 where "snp_secrets = 0x05"
definition snp_cpuid :: u8 where "snp_cpuid = 0x06"

definition page_size :: nat where "page_size = 4096"
definition vmsa_gpa :: u64 where "vmsa_gpa = 0xFFFFFFFFF000"

abbreviation zeros48 :: bytes where "zeros48 \<equiv> replicate 48 0"

text \<open>A page to measure: address, SNP page type, digest of the contents.\<close>

record pending_page =
  pp_gpa :: u64
  pp_type :: u8
  pp_contents :: bytes

record measure_result =
  mr_launch_digest :: bytes
  mr_page_count :: u64
  mr_vmsa_count :: u32

definition page_info :: "bytes \<Rightarrow> bytes \<Rightarrow> u8 \<Rightarrow> u64 \<Rightarrow> bytes" where
  "page_info digest_cur contents page_type gpa =
     put_at 0x68 (u64_le gpa)
       (put_at 0x62 [page_type]
          (put_at 0x60 (u16_le 0x70)
             (put_at 0x30 contents
                (put_at 0 digest_cur (replicate 0x70 0)))))"

definition update_page_info :: "lib \<Rightarrow> bytes \<Rightarrow> bytes \<Rightarrow> u8 \<Rightarrow> u64 \<Rightarrow> bytes" where
  "update_page_info L digest_cur contents page_type gpa =
     sha384 L (page_info digest_cur contents page_type gpa)"

definition classify_page_data ::
  "lib \<Rightarrow> page_data_type \<Rightarrow> page_flags \<Rightarrow> bytes \<Rightarrow> u8 \<times> bytes \<times> bool" where
  "classify_page_data L data_type flags data =
     (case data_type of
        SecretsPage \<Rightarrow> (snp_secrets, zeros48, False)
      | CpuidData \<Rightarrow> (snp_cpuid, zeros48, False)
      | CpuidXf \<Rightarrow> (snp_cpuid, zeros48, False)
      | _ \<Rightarrow>
         if pf_unmeasured flags then (snp_unmeasured, zeros48, False)
         else (snp_normal, sha384 L (pad_to page_size data), data \<noteq> []))"

definition extend_digest :: "lib \<Rightarrow> bytes \<Rightarrow> pending_page \<Rightarrow> bytes" where
  "extend_digest L ld p = update_page_info L ld (pp_contents p) (pp_type p) (pp_gpa p)"

text \<open>The state of the loop in \<open>measure_snp\<close>.\<close>

record measure_state =
  ms_ld :: bytes
  ms_page_count :: u64
  ms_vmsa_pages :: "(u64 \<times> bytes) list"
  ms_batch :: "pending_page list"
  ms_prev_gpa :: "u64 option"
  ms_prev_type :: "u8 option"
  ms_prev_has_data :: "bool option"
  ms_last_idx :: "nat option"

definition measure_start :: measure_state where
  "measure_start = \<lparr>ms_ld = zeros48, ms_page_count = 0, ms_vmsa_pages = [], ms_batch = [],
     ms_prev_gpa = None, ms_prev_type = None, ms_prev_has_data = None, ms_last_idx = None\<rparr>"

definition flush_batch :: "lib \<Rightarrow> measure_state \<Rightarrow> measure_state" where
  "flush_batch L st =
     (let st' = fold (\<lambda>p s. s\<lparr>ms_ld := extend_digest L (ms_ld s) p, ms_page_count := ms_page_count s + 1\<rparr>)
                  (ms_batch st) st
      in st'\<lparr>ms_batch := []\<rparr>)"

definition measure_vmsa_page :: "lib \<Rightarrow> u64 \<times> bytes \<Rightarrow> bytes \<times> u64 \<Rightarrow> bytes \<times> u64" where
  "measure_vmsa_page L gv s =
     (update_page_info L (fst s) (sha384 L (snd gv)) snp_vmsa vmsa_gpa, snd s + 1)"

definition measure_vmsa_pages :: "lib \<Rightarrow> (u64 \<times> bytes) list \<Rightarrow> bytes \<times> u64 \<Rightarrow> bytes \<times> u64" where
  "measure_vmsa_pages L pages s = fold (measure_vmsa_page L) pages s"

definition find_snp_compat :: "igvm_file \<Rightarrow> u32 res" where
  "find_snp_compat f =
     need (Fail ''No SEV_SNP platform found in IGVM file'')
       (map_option pl_compat (find (\<lambda>p. pl_type p = SevSnp) (ig_platforms f)))"

definition collect_param_areas :: "igvm_file \<Rightarrow> (u32 \<rightharpoonup> u64)" where
  "collect_param_areas f =
     fold (\<lambda>d m. case d of ParameterArea n i _ \<Rightarrow> m(i \<mapsto> n) | _ \<Rightarrow> m) (ig_directives f) Map.empty"

definition apply_kvm_vmsa_overrides :: "bytes \<Rightarrow> bytes res" where
  "apply_kvm_vmsa_overrides v =
     (if 0x170 < length v then Inr (v[0x148 := 0x40, 0x170 := 0x02])
      else Inl (Panic ''index out of bounds''))"

definition should_flush :: "measure_state \<Rightarrow> nat \<Rightarrow> u64 \<Rightarrow> u8 \<Rightarrow> bool \<Rightarrow> bool" where
  "should_flush st idx gpa page_type has_data =
     (case (ms_prev_gpa st, ms_prev_type st, ms_prev_has_data st, ms_last_idx st) of
        (Some prev_gpa, Some prev_type, Some prev_has, Some last_idx) \<Rightarrow>
          page_type \<noteq> prev_type \<or> has_data \<noteq> prev_has \<or> gpa \<noteq> prev_gpa + of_nat page_size
          \<or> idx \<noteq> last_idx + 1
      | _ \<Rightarrow> False)"

definition measure_page ::
  "lib \<Rightarrow> nat \<Rightarrow> u64 \<Rightarrow> page_data_type \<Rightarrow> page_flags \<Rightarrow> bytes \<Rightarrow> measure_state \<Rightarrow> measure_state" where
  "measure_page L idx gpa data_type flags data st =
     (case classify_page_data L data_type flags data of (page_type, contents, has_data) \<Rightarrow>
       let st1 = (if should_flush st idx gpa page_type has_data \<and> ms_batch st \<noteq> []
                  then flush_batch L st else st)
       in st1\<lparr>ms_batch := ms_batch st1 @ [\<lparr>pp_gpa = gpa, pp_type = page_type, pp_contents = contents\<rparr>],
              ms_prev_gpa := Some gpa, ms_prev_type := Some page_type,
              ms_prev_has_data := Some has_data, ms_last_idx := Some idx\<rparr>)"

text \<open>The loop over the pages of a parameter area; \<open>div_ceil\<close> of the size gives their number.\<close>

definition div_ceil :: "nat \<Rightarrow> nat \<Rightarrow> nat" where
  "div_ceil a b = (a + b - 1) div b"

definition insert_page :: "lib \<Rightarrow> u64 \<Rightarrow> nat \<Rightarrow> measure_state \<Rightarrow> measure_state" where
  "insert_page L gpa pg st =
     st\<lparr>ms_ld := update_page_info L (ms_ld st) zeros48 snp_unmeasured (gpa + of_nat pg * of_nat page_size),
        ms_page_count := ms_page_count st + 1\<rparr>"

definition measure_insert :: "lib \<Rightarrow> u64 \<Rightarrow> u64 \<Rightarrow> measure_state \<Rightarrow> measure_state" where
  "measure_insert L area_size gpa st =
     fold (insert_page L gpa) [0..<div_ceil (unat area_size) page_size] st"

definition measure_step ::
  "lib \<Rightarrow> igvm_lib \<Rightarrow> u32 \<Rightarrow> (u32 \<rightharpoonup> u64) \<Rightarrow> nat \<times> directive \<Rightarrow> measure_state \<Rightarrow> measure_state res" where
  "measure_step L G cmask areas idir st =
     (case snd idir of
        PageData gpa msk flags data_type data \<Rightarrow>
          if msk AND cmask = 0 then Inr st
          else Inr (measure_page L (fst idir) gpa data_type flags data st)
      | SnpVpContext gpa msk vp vmsa \<Rightarrow>
          if msk AND cmask = 0 then Inr st
          else bnd (apply_kvm_vmsa_overrides (pad_to page_size (vmsa_as_bytes G vmsa))) (\<lambda>page.
                 Inr (st\<lparr>ms_vmsa_pages := ms_vmsa_pages st @ [(gpa, page)]\<rparr>))
      | ParameterInsert area gpa msk \<Rightarrow>
          if msk AND cmask = 0 then Inr st
          else bnd (need (Fail (''ParameterInsert references unknown area '' @ dec (unat area))) (areas area))
                 (\<lambda>area_size. Inr (measure_insert L area_size gpa st))
      | _ \<Rightarrow> Inr st)"

definition measure_snp :: "lib \<Rightarrow> igvm_lib \<Rightarrow> igvm_file \<Rightarrow> measure_result res" where
  "measure_snp L G f =
     bnd (find_snp_compat f) (\<lambda>cmask.
     bnd (foldM (measure_step L G cmask (collect_param_areas f))
            (zip [0..<length (ig_directives f)] (ig_directives f)) measure_start) (\<lambda>st.
     let st1 = (if ms_batch st \<noteq> [] then flush_batch L st else st);
         (ld, n) = measure_vmsa_pages L (ms_vmsa_pages st1) (ms_ld st1, ms_page_count st1)
     in Inr \<lparr>mr_launch_digest = ld, mr_page_count = n,
             mr_vmsa_count = of_nat (length (ms_vmsa_pages st1))\<rparr>))"

section \<open>The measured events\<close>

text \<open>
  The specification of the loop: which pages are measured, in which order. A page waits in the open
  batch until the batch is closed; the pages of a parameter insert are measured at once, before the
  open batch; the VMSAs come last.
\<close>

record measured_page =
  mp_gpa :: u64
  mp_type :: u8
  mp_data :: "bytes option"

text \<open>What is hashed for a measured page: the digest of its data, or zeros when there is none.\<close>

definition hashed :: "lib \<Rightarrow> measured_page \<Rightarrow> pending_page" where
  "hashed L e = \<lparr>pp_gpa = mp_gpa e, pp_type = mp_type e,
     pp_contents = (case mp_data e of None \<Rightarrow> zeros48 | Some b \<Rightarrow> sha384 L b)\<rparr>"

definition page_event :: "u64 \<Rightarrow> page_data_type \<Rightarrow> page_flags \<Rightarrow> bytes \<Rightarrow> measured_page" where
  "page_event gpa dt fl data =
     (let ev = (\<lambda>t d. \<lparr>mp_gpa = gpa, mp_type = t, mp_data = d\<rparr>) in
      if dt = SecretsPage then ev snp_secrets None
      else if dt = CpuidData \<or> dt = CpuidXf then ev snp_cpuid None
      else if pf_unmeasured fl then ev snp_unmeasured None
      else ev snp_normal (Some (pad_to page_size data)))"

definition page_has_data :: "page_data_type \<Rightarrow> page_flags \<Rightarrow> bytes \<Rightarrow> bool" where
  "page_has_data dt fl data \<longleftrightarrow>
     dt \<notin> {SecretsPage, CpuidData, CpuidXf} \<and> \<not> pf_unmeasured fl \<and> data \<noteq> []"

definition insert_events :: "u64 \<Rightarrow> u64 \<Rightarrow> measured_page list" where
  "insert_events area_size gpa =
     map (\<lambda>pg. \<lparr>mp_gpa = gpa + of_nat pg * of_nat page_size, mp_type = snp_unmeasured, mp_data = None\<rparr>)
       [0..<div_ceil (unat area_size) page_size]"

type_synonym prev_page = "(u64 \<times> u8 \<times> bool \<times> nat) option"

definition closes_batch :: "prev_page \<Rightarrow> nat \<Rightarrow> u64 \<Rightarrow> u8 \<Rightarrow> bool \<Rightarrow> bool" where
  "closes_batch prev idx gpa t has =
     (case prev of None \<Rightarrow> False
      | Some (pg, pt, ph, pi) \<Rightarrow> t \<noteq> pt \<or> has \<noteq> ph \<or> gpa \<noteq> pg + of_nat page_size \<or> idx \<noteq> pi + 1)"

fun schedule :: "u32 \<Rightarrow> (u32 \<rightharpoonup> u64) \<Rightarrow> (nat \<times> directive) list \<Rightarrow> prev_page \<Rightarrow>
    measured_page list \<Rightarrow> measured_page list" where
  "schedule cmask areas [] prev batch = batch"
| "schedule cmask areas ((idx, d) # ds) prev batch =
     (case d of
        PageData gpa msk fl dt data \<Rightarrow>
          if msk AND cmask = 0 then schedule cmask areas ds prev batch
          else let e = page_event gpa dt fl data; has = page_has_data dt fl data;
                   prev' = Some (gpa, mp_type e, has, idx)
               in if closes_batch prev idx gpa (mp_type e) has
                  then batch @ schedule cmask areas ds prev' [e]
                  else schedule cmask areas ds prev' (batch @ [e])
      | ParameterInsert area gpa msk \<Rightarrow>
          if msk AND cmask = 0 then schedule cmask areas ds prev batch
          else insert_events (the (areas area)) gpa @ schedule cmask areas ds prev batch
      | _ \<Rightarrow> schedule cmask areas ds prev batch)"

definition vmsa_page :: "igvm_lib \<Rightarrow> sev_vmsa \<Rightarrow> bytes" where
  "vmsa_page G v = (pad_to page_size (vmsa_as_bytes G v))[0x148 := 0x40, 0x170 := 0x02]"

fun vmsa_list :: "igvm_lib \<Rightarrow> u32 \<Rightarrow> directive list \<Rightarrow> (u64 \<times> bytes) list" where
  "vmsa_list G cmask [] = []"
| "vmsa_list G cmask (d # ds) =
     (case d of
        SnpVpContext gpa msk vp v \<Rightarrow>
          if msk AND cmask = 0 then vmsa_list G cmask ds
          else (gpa, vmsa_page G v) # vmsa_list G cmask ds
      | _ \<Rightarrow> vmsa_list G cmask ds)"

definition vmsa_events :: "igvm_lib \<Rightarrow> u32 \<Rightarrow> directive list \<Rightarrow> measured_page list" where
  "vmsa_events G cmask ds =
     map (\<lambda>gv. \<lparr>mp_gpa = vmsa_gpa, mp_type = snp_vmsa, mp_data = Some (snd gv)\<rparr>) (vmsa_list G cmask ds)"

definition indexed :: "'a list \<Rightarrow> (nat \<times> 'a) list" where
  "indexed xs = zip [0..<length xs] xs"

definition measured_events :: "igvm_lib \<Rightarrow> u32 \<Rightarrow> igvm_file \<Rightarrow> measured_page list" where
  "measured_events G cmask f =
     schedule cmask (collect_param_areas f) (indexed (ig_directives f)) None []
     @ vmsa_events G cmask (ig_directives f)"

text \<open>A parameter insert the measurement reads refers to a declared area.\<close>

definition insert_known :: "u32 \<Rightarrow> (u32 \<rightharpoonup> u64) \<Rightarrow> directive \<Rightarrow> bool" where
  "insert_known cmask areas d =
     (case d of ParameterInsert area gpa msk \<Rightarrow> msk AND cmask = 0 \<or> areas area \<noteq> None | _ \<Rightarrow> True)"

section \<open>The loop computes the hash chain of the events\<close>

definition chain :: "lib \<Rightarrow> bytes \<Rightarrow> pending_page list \<Rightarrow> bytes" where
  "chain L ld es = foldl (extend_digest L) ld es"

lemma chain_simps [simp]:
  "chain L ld [] = ld" "chain L ld (e # es) = chain L (extend_digest L ld e) es"
  "chain L ld (es @ es') = chain L (chain L ld es) es'"
  by (simp_all add: chain_def)

text \<open>The digest of a list of measured pages.\<close>

definition launch_digest :: "lib \<Rightarrow> measured_page list \<Rightarrow> bytes" where
  "launch_digest L es = chain L zeros48 (map (hashed L) es)"

lemma classify_event:
  "classify_page_data L dt fl data =
     (let e = hashed L (page_event gpa dt fl data) in (pp_type e, pp_contents e, page_has_data dt fl data))"
  by (cases dt) (simp_all add: classify_page_data_def page_event_def page_has_data_def hashed_def Let_def)

lemma hashed_page_event [simp]:
  "pp_gpa (hashed L e) = mp_gpa e" "pp_type (hashed L e) = mp_type e"
  "mp_gpa (page_event gpa dt fl data) = gpa"
  by (simp_all add: hashed_def page_event_def Let_def)

lemma flush_batch_eq:
  "flush_batch L st = st\<lparr>ms_ld := chain L (ms_ld st) (ms_batch st),
     ms_page_count := ms_page_count st + of_nat (length (ms_batch st)), ms_batch := []\<rparr>"
proof -
  have "fold (\<lambda>p s. s\<lparr>ms_ld := extend_digest L (ms_ld s) p, ms_page_count := ms_page_count s + 1\<rparr>) ps st
      = st\<lparr>ms_ld := chain L (ms_ld st) ps, ms_page_count := ms_page_count st + of_nat (length ps)\<rparr>"
    for ps and st :: measure_state
    by (induction ps arbitrary: st) (simp_all add: add.assoc)
  then show ?thesis by (simp add: flush_batch_def Let_def)
qed

lemma measure_insert_eq:
  "measure_insert L n gpa st = st\<lparr>ms_ld := chain L (ms_ld st) (map (hashed L) (insert_events n gpa)),
     ms_page_count := ms_page_count st + of_nat (length (insert_events n gpa))\<rparr>"
proof -
  have "fold (insert_page L gpa) pgs st = st\<lparr>ms_ld := chain L (ms_ld st) (map (hashed L)
      (map (\<lambda>pg. \<lparr>mp_gpa = gpa + of_nat pg * of_nat page_size, mp_type = snp_unmeasured, mp_data = None\<rparr>) pgs)),
     ms_page_count := ms_page_count st + of_nat (length pgs)\<rparr>" for pgs
    by (induction pgs arbitrary: st) (simp_all add: insert_page_def extend_digest_def hashed_def add.assoc)
  then show ?thesis by (simp add: measure_insert_def insert_events_def)
qed

lemma measure_vmsa_pages_eq:
  "measure_vmsa_pages L vs (ld, n) =
     (chain L ld (map (hashed L)
        (map (\<lambda>gv. \<lparr>mp_gpa = vmsa_gpa, mp_type = snp_vmsa, mp_data = Some (snd gv)\<rparr>) vs)),
      n + of_nat (length vs))"
  by (induction vs arbitrary: ld n)
    (simp_all add: measure_vmsa_pages_def measure_vmsa_page_def extend_digest_def hashed_def add.assoc)

lemma overrides_page: "apply_kvm_vmsa_overrides (pad_to page_size b) = Inr ((pad_to page_size b)[0x148 := 0x40, 0x170 := 0x02])"
  by (simp add: apply_kvm_vmsa_overrides_def page_size_def)

definition prev_of :: "measure_state \<Rightarrow> prev_page" where
  "prev_of st =
     (case (ms_prev_gpa st, ms_prev_type st, ms_prev_has_data st, ms_last_idx st) of
        (Some g, Some t, Some h, Some i) \<Rightarrow> Some (g, t, h, i) | _ \<Rightarrow> None)"

lemma prev_of_update [simp]:
  "prev_of (st\<lparr>ms_vmsa_pages := v\<rparr>) = prev_of st" "prev_of (st\<lparr>ms_ld := l\<rparr>) = prev_of st"
  "prev_of (st\<lparr>ms_page_count := n\<rparr>) = prev_of st"
  by (simp_all add: prev_of_def split: option.splits)

lemma should_flush_closes: "should_flush st idx gpa t h = closes_batch (prev_of st) idx gpa t h"
  by (simp add: should_flush_def closes_batch_def prev_of_def split: option.splits)

text \<open>What is left to measure from a state: closing the open batch gives the digest.\<close>

definition final_ld :: "lib \<Rightarrow> measure_state \<Rightarrow> bytes" where
  "final_ld L st = chain L (ms_ld st) (ms_batch st)"

definition final_count :: "measure_state \<Rightarrow> u64" where
  "final_count st = ms_page_count st + of_nat (length (ms_batch st))"

lemma measure_loop_ok:
  "is_ok (foldM (measure_step L G cmask areas) ds st) \<longleftrightarrow> list_all (insert_known cmask areas) (map snd ds)"
proof (induction ds arbitrary: st)
  case (Cons id ds)
  show ?case
    using Cons by (cases "snd id") (auto simp: measure_step_def insert_known_def overrides_page need_def
        split: option.splits)
qed simp

lemma measure_page_eq:
  "measure_page L idx gpa dt fl data st =
     (let e = page_event gpa dt fl data; h = page_has_data dt fl data;
          st1 = (if closes_batch (prev_of st) idx gpa (mp_type e) h \<and> ms_batch st \<noteq> []
                 then flush_batch L st else st)
      in st1\<lparr>ms_batch := ms_batch st1 @ [hashed L e], ms_prev_gpa := Some gpa,
             ms_prev_type := Some (mp_type e), ms_prev_has_data := Some h, ms_last_idx := Some idx\<rparr>)"
proof -
  let ?e = "page_event gpa dt fl data"
  have r: "\<lparr>pp_gpa = gpa, pp_type = mp_type ?e, pp_contents = pp_contents (hashed L ?e)\<rparr> = hashed L ?e"
    by (simp add: hashed_def)
  show ?thesis
    unfolding measure_page_def classify_event [of L dt fl data gpa] Let_def prod.case
      hashed_page_event r should_flush_closes ..
qed

lemma measure_loop_result:
  assumes "foldM (measure_step L G cmask areas) ds st = Inr st'"
    and "ms_batch st = map (hashed L) batch"
  shows "final_ld L st' = chain L (ms_ld st) (map (hashed L) (schedule cmask areas ds (prev_of st) batch))
    \<and> final_count st' = ms_page_count st + of_nat (length (schedule cmask areas ds (prev_of st) batch))
    \<and> ms_vmsa_pages st' = ms_vmsa_pages st @ vmsa_list G cmask (map snd ds)"
  using assms
proof (induction ds arbitrary: st batch)
  case Nil
  then show ?case by (simp add: final_ld_def final_count_def)
next
  case (Cons id ds)
  obtain idx d where id: "id = (idx, d)" by fastforce
  obtain st1 where st1: "measure_step L G cmask areas (idx, d) st = Inr st1"
    and rest: "foldM (measure_step L G cmask areas) ds st1 = Inr st'"
    using Cons.prems id by auto
  note IH = Cons.IH [OF rest] and b = Cons.prems(2)
  show ?case
  proof (cases d)
    case (PageData gpa msk fl dt data)
    show ?thesis
    proof (cases "msk AND cmask = 0")
      case False
      define e where "e = page_event gpa dt fl data"
      define h where "h = page_has_data dt fl data"
      have step: "st1 = (let s1 = (if closes_batch (prev_of st) idx gpa (mp_type e) h \<and> ms_batch st \<noteq> []
             then flush_batch L st else st)
          in s1\<lparr>ms_batch := ms_batch s1 @ [hashed L e], ms_prev_gpa := Some gpa,
             ms_prev_type := Some (mp_type e), ms_prev_has_data := Some h, ms_last_idx := Some idx\<rparr>)"
        using st1 PageData False
        by (simp add: measure_step_def measure_page_eq Let_def e_def h_def)
      then have prev: "prev_of st1 = Some (gpa, mp_type e, h, idx)" by (simp add: prev_of_def Let_def)
      show ?thesis
      proof (cases "closes_batch (prev_of st) idx gpa (mp_type e) h \<and> batch \<noteq> []")
        case True
        then show ?thesis using IH [of "[e]"] step PageData False id prev b
          by (simp add: flush_batch_eq Let_def flip: e_def h_def)
      next
        case F: False
        then show ?thesis using IH [of "batch @ [e]"] step PageData False id prev b
          by (auto simp: Let_def simp flip: e_def h_def)
      qed
    qed (use IH [of batch] b st1 PageData id in \<open>simp add: measure_step_def\<close>)
  next
    case (SnpVpContext gpa msk vp v)
    then show ?thesis using IH [of batch] st1 id b
      by (auto simp: measure_step_def overrides_page vmsa_page_def split: if_splits)
  next
    case (ParameterInsert area gpa msk)
    then show ?thesis using IH [of batch] st1 id b
      by (auto simp: measure_step_def measure_insert_eq add.assoc split: if_splits)
  qed (use IH [of batch] st1 id b in \<open>auto simp: measure_step_def\<close>)
qed

lemma map_snd_indexed [simp]: "map snd (zip [0..<length xs] xs) = xs"
  by simp

lemma measure_snp_eq:
  "measure_snp L G f = Inr r \<longleftrightarrow>
     (\<exists>cmask. find_snp_compat f = Inr cmask
        \<and> list_all (insert_known cmask (collect_param_areas f)) (ig_directives f)
        \<and> r = \<lparr>mr_launch_digest = launch_digest L (measured_events G cmask f),
                mr_page_count = of_nat (length (measured_events G cmask f)),
                mr_vmsa_count = of_nat (length (vmsa_list G cmask (ig_directives f)))\<rparr>)"
proof (cases "find_snp_compat f")
  case (Inr cmask)
  let ?run = "foldM (measure_step L G cmask (collect_param_areas f))
    (zip [0..<length (ig_directives f)] (ig_directives f)) measure_start"
  have ok: "is_ok ?run \<longleftrightarrow> list_all (insert_known cmask (collect_param_areas f)) (ig_directives f)"
    by (simp add: measure_loop_ok)
  have fin: "(if ms_batch st \<noteq> [] then flush_batch L st else st)
      = st\<lparr>ms_ld := final_ld L st, ms_page_count := final_count st, ms_batch := []\<rparr>" for st
    by (simp add: flush_batch_eq final_ld_def final_count_def)
  show ?thesis
  proof (cases ?run)
    case (Inl e)
    then show ?thesis using ok Inr by (simp add: measure_snp_def)
  next
    case (Inr st)
    have "prev_of measure_start = None" "ms_batch measure_start = map (hashed L) []"
      by (simp_all add: measure_start_def prev_of_def)
    note res = measure_loop_result [OF Inr this(2)] and start = this(1)
    then show ?thesis using ok Inr \<open>find_snp_compat f = Inr cmask\<close>
      unfolding measure_snp_def fin
      by (simp add: Let_def measure_vmsa_pages_eq measured_events_def vmsa_events_def indexed_def
          launch_digest_def measure_start_def add.assoc eq_commute [of r])
  qed
qed (simp add: measure_snp_def)

section \<open>The chain binds the events\<close>

text \<open>
  A hash chain over blocks that determine the digest so far and the element: when the hash does not
  collide on the blocks of two chains of the same length, equal ends mean equal elements.
\<close>

fun chain_blocks :: "('b \<Rightarrow> 'd) \<Rightarrow> ('d \<Rightarrow> 'e \<Rightarrow> 'b) \<Rightarrow> 'd \<Rightarrow> 'e list \<Rightarrow> 'b list" where
  "chain_blocks h block d [] = []"
| "chain_blocks h block d (e # es) = block d e # chain_blocks h block (h (block d e)) es"

lemma chain_blocks_append:
  "chain_blocks h block d (es @ es') =
     chain_blocks h block d es @ chain_blocks h block (foldl (\<lambda>d e. h (block d e)) d es) es'"
  by (induction es arbitrary: d) auto

locale hash_chain =
  fixes block :: "'d \<Rightarrow> 'e \<Rightarrow> 'b" and okd :: "'d \<Rightarrow> bool" and oke :: "'e \<Rightarrow> bool"
  assumes block_inject: "okd d \<Longrightarrow> oke e \<Longrightarrow> okd d' \<Longrightarrow> oke e' \<Longrightarrow> block d e = block d' e' \<Longrightarrow> d = d' \<and> e = e'"
begin

lemma chain_binds:
  assumes "\<And>b. okd (h b)" and "okd d" and "list_all oke es" and "list_all oke es'"
    and "length es = length es'"
    and "inj_on h (set (chain_blocks h block d es) \<union> set (chain_blocks h block d es'))"
    and "foldl (\<lambda>d e. h (block d e)) d es = foldl (\<lambda>d e. h (block d e)) d es'"
  shows "es = es'"
  using assms(3-7)
proof (induction es arbitrary: es' rule: rev_induct)
  case (snoc e es)
  obtain e' fs where es': "es' = fs @ [e']"
    using snoc.prems(3) by (cases es' rule: rev_cases) auto
  let ?run = "foldl (\<lambda>d e. h (block d e)) d"
  have okr: "okd (?run xs)" for xs
    using assms(1,2) by (cases xs rule: rev_cases) auto
  have "h (block (?run es) e) = h (block (?run fs) e')" using snoc.prems(5) es' by simp
  then have "block (?run es) e = block (?run fs) e'"
    by (rule inj_onD [OF snoc.prems(4)]) (simp_all add: es' chain_blocks_append)
  then have "?run es = ?run fs \<and> e = e'"
    using okr snoc.prems(1,2) es' by (intro block_inject) simp_all
  moreover have "inj_on h (set (chain_blocks h block d es) \<union> set (chain_blocks h block d fs))"
    using snoc.prems(4) es' by (auto simp: chain_blocks_append elim: inj_on_subset)
  ultimately show ?case using snoc.IH [of fs] snoc.prems es' by simp
qed simp

end

lemma page_info_layout:
  assumes "length d = 48" and "length c = 48"
  shows "page_info d c t g = d @ c @ u16_le 0x70 @ [t] @ replicate 5 0 @ u64_le g"
  using assms by (simp add: page_info_def put_at_def le16.enc_length le64.enc_length)

definition event_block :: "bytes \<Rightarrow> pending_page \<Rightarrow> bytes" where
  "event_block d p = page_info d (pp_contents p) (pp_type p) (pp_gpa p)"

interpretation page_chain: hash_chain event_block "\<lambda>d. length d = 48" "\<lambda>p. length (pp_contents p) = 48"
proof unfold_locales
  fix d d' :: bytes and p p' :: pending_page
  assume "length d = 48" "length (pp_contents p) = 48" "length d' = 48" "length (pp_contents p') = 48"
    and "event_block d p = event_block d' p'"
  then show "d = d' \<and> p = p'"
    by (cases p; cases p') (simp add: event_block_def page_info_layout le64.enc_inject)
qed

lemma chain_foldl: "chain L d es = foldl (\<lambda>d e. sha384 L (event_block d e)) d es"
  by (simp add: chain_def extend_digest_def update_page_info_def event_block_def [abs_def] cong: foldl_cong)

text \<open>Everything SHA-384 is applied to while a list of pages is measured.\<close>

definition hashed_blocks :: "lib \<Rightarrow> measured_page list \<Rightarrow> bytes set" where
  "hashed_blocks L es =
     set (chain_blocks (sha384 L) event_block zeros48 (map (hashed L) es))
     \<union> {b. \<exists>e \<in> set es. mp_data e = Some b}"

definition event_ok :: "measured_page \<Rightarrow> bool" where
  "event_ok e \<longleftrightarrow> (mp_data e \<noteq> None \<longleftrightarrow> mp_type e = snp_normal \<or> mp_type e = snp_vmsa)"

lemma hashed_inject:
  assumes "event_ok e" "event_ok e'" "hashed L e = hashed L e'"
    and "inj_on (sha384 L) ({b. mp_data e = Some b} \<union> {b. mp_data e' = Some b})"
  shows "e = e'"
proof -
  have gt: "mp_gpa e = mp_gpa e'" "mp_type e = mp_type e'"
    and c: "pp_contents (hashed L e) = pp_contents (hashed L e')"
    using assms(3) by (simp_all add: hashed_def)
  have "mp_data e = mp_data e'"
  proof (cases "mp_data e")
    case None
    then show ?thesis using assms(1,2) gt by (auto simp: event_ok_def)
  next
    case (Some b)
    then obtain b' where b': "mp_data e' = Some b'" using assms(1,2) gt by (auto simp: event_ok_def)
    then have "sha384 L b = sha384 L b'" using c Some by (simp add: hashed_def)
    then have "b = b'" by (rule inj_onD [OF assms(4)]) (simp_all add: Some b')
    then show ?thesis using Some b' by simp
  qed
  then show ?thesis using gt by simp
qed

lemma launch_digest_binds:
  assumes "digest_ok L" and "list_all event_ok es" and "list_all event_ok es'"
    and "length es = length es'"
    and inj: "inj_on (sha384 L) (hashed_blocks L es \<union> hashed_blocks L es')"
    and "launch_digest L es = launch_digest L es'"
  shows "es = es'"
proof -
  have ok: "list_all (\<lambda>p. length (pp_contents p) = 48) (map (hashed L) fs)" for fs
    using assms(1) by (induction fs) (auto simp: hashed_def digest_lengths split: option.splits)
  have "inj_on (sha384 L) (set (chain_blocks (sha384 L) event_block zeros48 (map (hashed L) es))
      \<union> set (chain_blocks (sha384 L) event_block zeros48 (map (hashed L) es')))"
    by (rule inj_on_subset [OF inj]) (auto simp: hashed_blocks_def)
  then have "map (hashed L) es = map (hashed L) es'"
    using assms(4,6) ok digest_lengths(2) [OF assms(1)]
    by (intro page_chain.chain_binds [where h = "sha384 L" and d = zeros48])
      (simp_all add: launch_digest_def chain_foldl)
  then have eq: "hashed L (es ! i) = hashed L (es' ! i)" if "i < length es" for i
    using that assms(4) by (metis nth_map)
  show ?thesis
  proof (rule nth_equalityI)
    fix i assume i: "i < length es"
    then have mem: "es ! i \<in> set es" "es' ! i \<in> set es'" using assms(4) by auto
    show "es ! i = es' ! i"
    proof (rule hashed_inject [OF _ _ eq [OF i]])
      show "event_ok (es ! i)" "event_ok (es' ! i)"
        using assms(2,3) mem by (auto simp: list_all_iff)
      show "inj_on (sha384 L) ({b. mp_data (es ! i) = Some b} \<union> {b. mp_data (es' ! i) = Some b})"
        by (rule inj_on_subset [OF inj]) (use mem in \<open>auto simp: hashed_blocks_def\<close>)
    qed
  qed (rule assms(4))
qed

lemma page_event_ok [simp]: "event_ok (page_event gpa dt fl data)"
  by (simp add: event_ok_def page_event_def Let_def snp_normal_def snp_vmsa_def snp_unmeasured_def
      snp_secrets_def snp_cpuid_def)

lemma insert_events_ok: "list_all event_ok (insert_events n gpa)"
  by (simp add: insert_events_def list_all_iff event_ok_def snp_unmeasured_def snp_normal_def snp_vmsa_def)

lemma schedule_ok: "list_all event_ok batch \<Longrightarrow> list_all event_ok (schedule cmask areas ds prev batch)"
  by (induction cmask areas ds prev batch rule: schedule.induct)
    (auto simp: insert_events_ok Let_def split: directive.splits)

lemma measured_events_ok: "list_all event_ok (measured_events G cmask f)"
proof -
  have "list_all event_ok (vmsa_events G cmask ds)" for ds
    by (simp add: vmsa_events_def event_ok_def list_all_iff)
  then show ?thesis by (simp add: measured_events_def schedule_ok)
qed

section \<open>Order of the events\<close>

definition page_events_of :: "u32 \<Rightarrow> directive \<Rightarrow> measured_page list" where
  "page_events_of cmask d =
     (case d of PageData gpa msk fl dt data \<Rightarrow> if msk AND cmask = 0 then [] else [page_event gpa dt fl data]
      | _ \<Rightarrow> [])"

definition insert_events_of :: "u32 \<Rightarrow> (u32 \<rightharpoonup> u64) \<Rightarrow> directive \<Rightarrow> measured_page list" where
  "insert_events_of cmask areas d =
     (case d of ParameterInsert area gpa msk \<Rightarrow>
        if msk AND cmask = 0 then [] else insert_events (the (areas area)) gpa
      | _ \<Rightarrow> [])"

definition is_insert :: "u32 \<Rightarrow> directive \<Rightarrow> bool" where
  "is_insert cmask d = (case d of ParameterInsert area gpa msk \<Rightarrow> msk AND cmask \<noteq> 0 | _ \<Rightarrow> False)"

definition is_measured_page :: "u32 \<Rightarrow> directive \<Rightarrow> bool" where
  "is_measured_page cmask d = (case d of PageData gpa msk fl dt data \<Rightarrow> msk AND cmask \<noteq> 0 | _ \<Rightarrow> False)"

text \<open>Without an insert among them, batching does not change the order of the pages.\<close>

lemma schedule_pages:
  "list_all (\<lambda>d. \<not> is_insert cmask d) (map snd ds) \<Longrightarrow>
     schedule cmask areas ds prev batch = batch @ concat (map (page_events_of cmask) (map snd ds))"
  by (induction cmask areas ds prev batch rule: schedule.induct)
    (auto simp: is_insert_def page_events_of_def Let_def split: directive.splits)

lemma schedule_inserts_first:
  "list_all (\<lambda>d. \<not> is_measured_page cmask d) (map snd ds) \<Longrightarrow>
     schedule cmask areas (ds @ ds') prev batch =
       concat (map (insert_events_of cmask areas) (map snd ds)) @ schedule cmask areas ds' prev batch"
  by (induction ds arbitrary: prev batch)
    (auto simp: is_measured_page_def insert_events_of_def Let_def split: directive.splits)

text \<open>In any file the measured pages are those of the directives, each once.\<close>

lemma schedule_mset:
  "mset (schedule cmask areas ds prev batch) =
     mset batch + mset (concat (map (\<lambda>d. page_events_of cmask d @ insert_events_of cmask areas d) (map snd ds)))"
  by (induction cmask areas ds prev batch rule: schedule.induct)
    (auto simp: page_events_of_def insert_events_of_def Let_def split: directive.splits)

section \<open>Contents that are not measured\<close>

definition contents_hidden :: "directive \<Rightarrow> directive \<Rightarrow> bool" where
  "contents_hidden d d' =
     (case (d, d') of
        (PageData g m fl dt b, PageData g' m' fl' dt' b') \<Rightarrow>
          g = g' \<and> m = m' \<and> fl = fl' \<and> dt = dt' \<and>
          (b = b' \<or> dt \<in> {SecretsPage, CpuidData, CpuidXf} \<or> pf_unmeasured fl)
      | _ \<Rightarrow> d = d')"

lemma contents_hidden_step:
  "contents_hidden d d' \<Longrightarrow> measure_step L G cmask areas (i, d) st = measure_step L G cmask areas (i, d') st"
  by (cases d; cases d')
    (auto simp: contents_hidden_def measure_step_def measure_page_eq page_event_def page_has_data_def)

lemma contents_hidden_loop:
  "list_all2 contents_hidden ds ds' \<Longrightarrow> length is = length ds \<Longrightarrow>
     foldM (measure_step L G cmask areas) (zip is ds) st = foldM (measure_step L G cmask areas) (zip is ds') st"
proof (induction ds ds' arbitrary: "is" st rule: list_all2_induct)
  case (Cons d ds d' ds')
  then obtain i js where "is = i # js" by (cases "is") auto
  then show ?case using Cons by (auto simp: contents_hidden_step [of d d'] intro!: arg_cong [where f = "bnd _"])
qed simp

lemma contents_hidden_areas:
  "list_all2 contents_hidden ds ds' \<Longrightarrow>
     fold (\<lambda>d m. case d of ParameterArea n i _ \<Rightarrow> m(i \<mapsto> n) | _ \<Rightarrow> m) ds a =
     fold (\<lambda>d m. case d of ParameterArea n i _ \<Rightarrow> m(i \<mapsto> n) | _ \<Rightarrow> m) ds' a"
proof (induction ds ds' arbitrary: a rule: list_all2_induct)
  case (Cons d ds d' ds')
  have "(case d of ParameterArea n i _ \<Rightarrow> m(i \<mapsto> n) | _ \<Rightarrow> m) =
      (case d' of ParameterArea n i _ \<Rightarrow> m(i \<mapsto> n) | _ \<Rightarrow> m)" for m :: "u32 \<rightharpoonup> u64"
    using Cons.hyps(1) by (cases d; cases d') (simp_all add: contents_hidden_def)
  then show ?case by (simp only: fold_simps Cons.IH)
qed simp

section \<open>Sample files\<close>

definition sample_igvm_lib :: igvm_lib where
  "sample_igvm_lib = \<lparr>vmsa_as_bytes = (\<lambda>v. []), igvm_validate = Inr, igvm_serialize = (\<lambda>f. Inr []),
     igvm_parse = (\<lambda>b. Inl ''unsupported''),
     smt_policy = 0x30000\<rparr>"

definition zero_selector :: sev_selector where
  "zero_selector = \<lparr>ss_selector = 0, ss_attrib = 0, ss_limit = 0, ss_base = 0\<rparr>"

definition zero_vmsa :: sev_vmsa where
  "zero_vmsa = \<lparr>v_es = zero_selector, v_cs = zero_selector, v_ss = zero_selector, v_ds = zero_selector,
     v_fs = zero_selector, v_gs = zero_selector, v_gdtr = zero_selector, v_idtr = zero_selector,
     v_tr = zero_selector, v_efer = 0, v_cr0 = 0, v_dr7 = 0, v_dr6 = 0, v_rip = 0, v_pat = 0,
     v_sev_features = \<lparr>sf_snp = False, sf_debug_swap = False\<rparr>, v_xcr0 = 0, v_mxcsr = 0, v_x87_fcw = 0\<rparr>"

definition snp_only :: "directive list \<Rightarrow> igvm_file" where
  "snp_only ds = \<lparr>ig_platforms = [\<lparr>pl_compat = 2, pl_highest_vtl = 2, pl_type = SevSnp, pl_version = 1,
       pl_shared_boundary = 0\<rparr>], ig_initializations = [], ig_directives = ds\<rparr>"

definition secret_file :: "bytes \<Rightarrow> igvm_file" where
  "secret_file b = snp_only
     [PageData 0x200000 2 no_flags NormalPage [9], PageData 0x201000 2 no_flags SecretsPage b]"

definition insert_file :: igvm_file where
  "insert_file = snp_only
     [ParameterArea 4096 0 [], ParameterInsert 0 0x100000 2,
      PageData 0x200000 2 no_flags NormalPage [1], SnpVpContext 0 2 0 zero_vmsa,
      PageData 0x300000 1 no_flags NormalPage [2]]"

lemma snp_only_simps [simp]:
  "find_snp_compat (snp_only ds) = Inr 2" "ig_directives (snp_only ds) = ds"
  "ig_directives_update (\<lambda>_. ds') (snp_only ds) = snp_only ds'"
  by (simp_all add: snp_only_def find_snp_compat_def)

lemma secret_file_events:
  "measured_events G 2 (secret_file b) =
     [\<lparr>mp_gpa = 0x200000, mp_type = snp_normal, mp_data = Some (pad_to page_size [9])\<rparr>,
      \<lparr>mp_gpa = 0x201000, mp_type = snp_secrets, mp_data = None\<rparr>]"
  by (simp add: measured_events_def secret_file_def indexed_def vmsa_events_def page_event_def
      page_has_data_def closes_batch_def no_flags_def upt_rec Let_def)

lemma secret_file_measures: "is_ok (measure_snp L G (secret_file b))"
proof -
  have "\<exists>r. measure_snp L G (secret_file b) = Inr r"
    by (simp add: measure_snp_eq secret_file_def insert_known_def)
  then show ?thesis by (simp add: is_ok_iff)
qed

section \<open>Properties\<close>

text \<open>
  C2. \<open>measure_snp\<close> computes the hash chain of the measured pages. It succeeds iff the file has an
  SEV-SNP platform and every parameter insert of that platform names a declared area; then the digest
  is the SHA-384 chain, from 48 zero bytes, of the pages in the order of the schedule followed by the
  VMSA pages with KVM's CR4 and RFLAGS, and the counts are those of the pages and VMSAs. No file makes
  it panic.
\<close>

theorem measure_snp_computes_chain:
  "(measure_snp L G f = Inr r \<longleftrightarrow>
     (\<exists>cmask. find_snp_compat f = Inr cmask
        \<and> list_all (insert_known cmask (collect_param_areas f)) (ig_directives f)
        \<and> r = \<lparr>mr_launch_digest = launch_digest L (measured_events G cmask f),
                mr_page_count = of_nat (length (measured_events G cmask f)),
                mr_vmsa_count = of_nat (length (vmsa_list G cmask (ig_directives f)))\<rparr>))
   \<and> \<not> panics (measure_snp L G f)"
proof
  have step: "\<not> panics (measure_step L G cmask areas d st)" for cmask areas d st
    by (auto simp: measure_step_def overrides_page panics_bnd split: directive.splits)
  have "\<not> panics (foldM (measure_step L G cmask areas) ds st)" for cmask areas ds st
    by (induction ds arbitrary: st) (auto simp: panics_bnd step)
  then show "\<not> panics (measure_snp L G f)"
    by (auto simp: measure_snp_def panics_bnd find_snp_compat_def Let_def split: prod.splits)
qed (rule measure_snp_eq)

text \<open>
  C3. The launch digest binds what was measured. If SHA-384 does not collide on the blocks hashed for
  two files, the files measure equally many pages and their digests are equal, then they measure
  the same pages: the same guest addresses, page types and padded contents, in the same order.
\<close>

theorem launch_digest_binds_pages:
  assumes "digest_ok L"
    and "measure_snp L G f = Inr r" and "measure_snp L G g = Inr r'"
    and "find_snp_compat f = Inr c" and "find_snp_compat g = Inr c'"
    and "length (measured_events G c f) = length (measured_events G c' g)"
    and "inj_on (sha384 L) (hashed_blocks L (measured_events G c f) \<union> hashed_blocks L (measured_events G c' g))"
    and "mr_launch_digest r = mr_launch_digest r'"
  shows "measured_events G c f = measured_events G c' g"
  using assms measured_events_ok by (intro launch_digest_binds) (auto simp: measure_snp_eq)

lemma toy_block:
  assumes "length d = 48" and "length c = 48"
  shows "toy_digest 48 (page_info d c t g) ! 13 = t"
  using assms by (simp add: toy_digest_def pad_to_nth page_info_layout nth_append le64.enc_length)

lemma toy_page: "toy_digest 48 (pad_to page_size [9]) ! 13 = 0"
  by (simp add: toy_digest_def pad_to_nth page_size_def rev_nth)

theorem launch_digest_binds_pages_witness:
  "measured_events sample_igvm_lib 2 (secret_file [1]) = measured_events sample_igvm_lib 2 (secret_file [7])"
proof -
  obtain r r' where r: "measure_snp sample_lib sample_igvm_lib (secret_file [1]) = Inr r"
      "measure_snp sample_lib sample_igvm_lib (secret_file [7]) = Inr r'"
    using secret_file_measures by (metis is_ok_iff)
  have len: "length (toy_digest 48 b) = 48" for b by (simp add: toy_digest_def)
  define ev where "ev = measured_events sample_igvm_lib 2 (secret_file [1])"
  define S where "S =
      {page_info zeros48 (toy_digest 48 (pad_to page_size [9])) snp_normal 0x200000,
       page_info (toy_digest 48 (page_info zeros48 (toy_digest 48 (pad_to page_size [9])) snp_normal 0x200000))
         zeros48 snp_secrets 0x201000, pad_to page_size [9]}"
  have blocks: "hashed_blocks sample_lib ev = S"
    by (auto simp: ev_def S_def hashed_blocks_def secret_file_events hashed_def event_block_def)
  have "inj_on (toy_digest 48) S"
    by (rule inj_on_imageI2 [where f' = "\<lambda>d. d ! 13"])
      (auto simp: S_def inj_on_def toy_block toy_page len snp_normal_def snp_secrets_def)
  then have "inj_on (sha384 sample_lib) (hashed_blocks sample_lib ev)" by (simp add: blocks)
  then show ?thesis
    using launch_digest_binds_pages [OF sample_digest_ok r, of 2 2]  r
    by (simp add: ev_def secret_file_events measure_snp_eq secret_file_def flip: secret_file_def)
qed

text \<open>
  Contents that SNP does not measure do not touch the result: replacing the data of secrets pages,
  CPUID pages and pages flagged unmeasured changes neither the digest nor the counts nor the error.
\<close>

theorem unmeasured_contents_irrelevant:
  assumes "list_all2 contents_hidden (ig_directives f) ds'"
  shows "measure_snp L G (f\<lparr>ig_directives := ds'\<rparr>) = measure_snp L G f"
  using contents_hidden_loop [OF assms] contents_hidden_areas [OF assms] list_all2_lengthD [OF assms]
  by (simp add: measure_snp_def find_snp_compat_def collect_param_areas_def)

theorem unmeasured_contents_irrelevant_witness:
  "measure_snp sample_lib sample_igvm_lib (secret_file [7]) = measure_snp sample_lib sample_igvm_lib (secret_file [1])"
proof -
  have "list_all2 contents_hidden (ig_directives (secret_file [1])) (ig_directives (secret_file [7]))"
    by (simp add: secret_file_def contents_hidden_def)
  from unmeasured_contents_irrelevant [OF this, of sample_lib sample_igvm_lib] show ?thesis
    by (simp add: secret_file_def)
qed

text \<open>
  Order of measurement. When every parameter insert of the platform precedes every measured page,
  the pages of the inserts come first, then the page data in directive order, then the VMSAs: batching
  does not reorder anything.
\<close>

theorem measured_in_directive_order:
  assumes "ig_directives f = ds1 @ ds2"
    and "list_all (\<lambda>d. \<not> is_measured_page cmask d) ds1"
    and "list_all (\<lambda>d. \<not> is_insert cmask d) ds2"
  shows "measured_events G cmask f =
    concat (map (insert_events_of cmask (collect_param_areas f)) ds1)
    @ concat (map (page_events_of cmask) ds2)
    @ vmsa_events G cmask (ig_directives f)"
proof -
  define i2 where "i2 = zip [length ds1..<length ds1 + length ds2] ds2"
  have split: "indexed (ds1 @ ds2) = indexed ds1 @ i2"
    by (simp add: indexed_def i2_def upt_add_eq_append [of 0] zip_append1)
  have m: "map snd (indexed ds1) = ds1" "map snd i2 = ds2"
    by (simp_all add: indexed_def i2_def)
  have "schedule cmask areas i2 None [] = concat (map (page_events_of cmask) ds2)" for areas
    using schedule_pages [of cmask i2 areas None "[]", unfolded m, OF assms(3)] by simp
  then show ?thesis
    using assms(1) schedule_inserts_first [of cmask "indexed ds1", unfolded m, OF assms(2)]
    by (simp add: measured_events_def split)
qed

lemma sample_area_insert:
  "collect_param_areas insert_file 0 = Some 4096"
  "map mp_gpa (insert_events 4096 0x100000) = [0x100000]"
  by (simp_all add: collect_param_areas_def insert_file_def insert_events_def div_ceil_def page_size_def)

theorem measured_in_directive_order_witness:
  "map mp_gpa (measured_events sample_igvm_lib 2 insert_file) = [0x100000, 0x200000, vmsa_gpa]"
proof -
  have ds: "ig_directives insert_file =
      [ParameterArea 4096 0 [], ParameterInsert 0 0x100000 2]
      @ [PageData 0x200000 2 no_flags NormalPage [1], SnpVpContext 0 2 0 zero_vmsa,
         PageData 0x300000 1 no_flags NormalPage [2]]"
    by (simp add: insert_file_def)
  show ?thesis
    by (subst measured_in_directive_order [OF ds])
      (simp_all add: is_measured_page_def is_insert_def sample_area_insert insert_events_of_def
        page_events_of_def vmsa_events_def ds)
qed

end
