(* ===== verification/Ordered_Map.thy ===== *)
theory Ordered_Map
  imports Prelude
begin

text \<open>
  \<open>std::collections::BTreeMap\<close>: a map iterated in key order. The interface is the locale
  \<open>ordered_map\<close>; the model's maps are association lists with strictly increasing keys.
\<close>

fun om_insert :: "'k::linorder \<Rightarrow> 'v \<Rightarrow> ('k \<times> 'v) list \<Rightarrow> ('k \<times> 'v) list" where
  "om_insert k v [] = [(k, v)]"
| "om_insert k v ((j, w) # m) =
     (if k < j then (k, v) # (j, w) # m
      else if k = j then (k, v) # m
      else (j, w) # om_insert k v m)"

definition om_lookup :: "('k \<times> 'v) list \<Rightarrow> 'k \<Rightarrow> 'v option" where
  "om_lookup m k = map_of m k"

definition om_inv :: "('k::linorder \<times> 'v) list \<Rightarrow> bool" where
  "om_inv m = sorted_wrt (<) (map fst m)"

definition om_of_list :: "('k::linorder \<times> 'v) list \<Rightarrow> ('k \<times> 'v) list" where
  "om_of_list kvs = fold (\<lambda>(k, v). om_insert k v) kvs []"

locale ordered_map =
  fixes inv :: "'m \<Rightarrow> bool" and emp :: 'm and ins :: "'k::linorder \<Rightarrow> 'v \<Rightarrow> 'm \<Rightarrow> 'm"
    and look :: "'m \<Rightarrow> 'k \<Rightarrow> 'v option" and entries :: "'m \<Rightarrow> ('k \<times> 'v) list"
  assumes inv_emp: "inv emp"
    and inv_ins: "inv m \<Longrightarrow> inv (ins k v m)"
    and look_emp: "look emp k = None"
    and look_ins: "inv m \<Longrightarrow> look (ins k v m) j = (if j = k then Some v else look m j)"
    and entries_sorted: "inv m \<Longrightarrow> sorted_wrt (<) (map fst (entries m))"
    and entries_look: "inv m \<Longrightarrow> (k, v) \<in> set (entries m) \<longleftrightarrow> look m k = Some v"
begin

lemma inv_fold: "inv m \<Longrightarrow> inv (fold (\<lambda>(k, v). ins k v) kvs m)"
  by (induction kvs arbitrary: m) (auto simp: inv_ins)

text \<open>After a list of insertions a key holds the last value given for it.\<close>

lemma look_fold:
  "inv m \<Longrightarrow> look (fold (\<lambda>(k, v). ins k v) kvs m) j = (case map_of (rev kvs) j of None \<Rightarrow> look m j | Some v \<Rightarrow> Some v)"
  by (induction kvs arbitrary: m) (auto simp: inv_ins look_ins map_add_def split: option.splits)

text \<open>The entries are determined by the lookups: two maps with the same lookups iterate alike.\<close>

lemma entries_determined:
  assumes "inv m" "inv m'" "look m = look m'"
  shows "entries m = entries m'"
proof -
  have "set (map fst (entries m)) = set (map fst (entries m'))"
    using assms entries_look by (force simp: image_iff)
  then have "map fst (entries m) = map fst (entries m')"
    using assms(1,2) entries_sorted strict_sorted_equal by metis
  moreover have "entries n = map (\<lambda>k. (k, the (look n k))) (map fst (entries n))" if "inv n" for n
  proof (rule nth_equalityI)
    fix i assume "i < length (entries n)"
    then have "look n (fst (entries n ! i)) = Some (snd (entries n ! i))"
      using entries_look [OF that, of "fst (entries n ! i)" "snd (entries n ! i)"] by simp
    then show "entries n ! i = map (\<lambda>k. (k, the (look n k))) (map fst (entries n)) ! i"
      using \<open>i < length (entries n)\<close> by simp
  qed simp
  ultimately show ?thesis using assms by metis
qed

lemma entries_distinct: "inv m \<Longrightarrow> distinct (map fst (entries m))"
  using entries_sorted strict_sorted_iff by blast

end

lemma om_insert_keys: "set (map fst (om_insert k v m)) = insert k (set (map fst m))"
  by (induction k v m rule: om_insert.induct) auto

interpretation om: ordered_map om_inv "[]" om_insert om_lookup "\<lambda>m. m"
proof unfold_locales
  show "om_inv (om_insert k v m)" if "om_inv m" for k v and m :: "('a \<times> 'b) list"
    using that
  proof (induction k v m rule: om_insert.induct)
    case (2 k v j w m)
    then show ?case using om_insert_keys [of k v m] by (auto simp: om_inv_def)
  qed (simp add: om_inv_def)
  show "om_lookup (om_insert k v m) j = (if j = k then Some v else om_lookup m j)"
    for k j v and m :: "('a \<times> 'b) list"
    by (induction k v m rule: om_insert.induct) (auto simp: om_lookup_def)
  show "((k, v) \<in> set m) = (om_lookup m k = Some v)" if "om_inv m" for k v and m :: "('a \<times> 'b) list"
    using that strict_sorted_iff [of "map fst m"] by (simp add: om_lookup_def om_inv_def)
qed (auto simp: om_inv_def om_lookup_def)

lemma om_of_list_inv [simp]: "om_inv (om_of_list kvs)"
  using om.inv_fold [of "[]" kvs] by (simp add: om_of_list_def om_inv_def)

lemma om_of_list_lookup: "om_lookup (om_of_list kvs) k = map_of (rev kvs) k"
  using om.look_fold [of "[]" kvs k] by (simp add: om_of_list_def om_inv_def om_lookup_def split: option.splits)

end
