(* ===== verification/Hob.thy ===== *)
theory Hob
  imports Externals
begin

text \<open>
  The EFI hand-off blocks that tell the firmware where the kernel, shim and certificates are
  (\<open>crates/igvm-tools/src/hob.rs\<close>): the 48-byte data HOB, the list of blobs placed one after the
  other on page boundaries, and its serialisation.
\<close>

section \<open>Definitions\<close>

definition efi_hob_type_guid_extension :: u16 where "efi_hob_type_guid_extension = 0x0004"
definition efi_hob_type_end_of_hob_list :: u16 where "efi_hob_type_end_of_hob_list = 0xFFFF"

text \<open>\<open>3dd177ff-b632-4e25-bef3-065063d55fc4\<close> in wire order.\<close>

definition efi_igvm_data_hob_guid :: bytes where
  "efi_igvm_data_hob_guid =
     [0xff, 0x77, 0xd1, 0x3d, 0x32, 0xb6, 0x25, 0x4e, 0xbe, 0xf3, 0x06, 0x50, 0x63, 0xd5, 0x5f, 0xc4]"

definition hob_header :: "u16 \<Rightarrow> u16 \<Rightarrow> bytes" where
  "hob_header hob_type hob_length = u16_le hob_type @ u16_le hob_length @ u32_le 0"

definition end_of_list :: bytes where
  "end_of_list = hob_header efi_hob_type_end_of_hob_list 8"

datatype igvm_data_type = Pk | Kek | Db | Dbx | Shim | Kernel

fun data_type_code :: "igvm_data_type \<Rightarrow> u32" where
  "data_type_code Pk = 0x100"
| "data_type_code Kek = 0x101"
| "data_type_code Db = 0x102"
| "data_type_code Dbx = 0x103"
| "data_type_code Shim = 0x200"
| "data_type_code Kernel = 0x201"

record data_hob =
  dh_address :: u64
  dh_length :: u64
  dh_type :: u32
  dh_flags :: u32

definition new_data_hob :: "nat \<Rightarrow> nat \<Rightarrow> igvm_data_type \<Rightarrow> data_hob" where
  "new_data_hob address len data_type =
     \<lparr>dh_address = of_nat address, dh_length = of_nat len, dh_type = data_type_code data_type, dh_flags = 0\<rparr>"

definition data_hob_bytes :: "data_hob \<Rightarrow> bytes" where
  "data_hob_bytes h =
     hob_header efi_hob_type_guid_extension 0x30 @ efi_igvm_data_hob_guid
     @ u64_le (dh_address h) @ u64_le (dh_length h) @ u32_le (dh_type h) @ u32_le (dh_flags h)"

record data_entry =
  dn_hob :: data_hob
  dn_addr :: nat
  dn_blob :: bytes
  dn_measured :: bool

record data_list =
  dl_base :: nat
  dl_data :: "data_entry list"

definition data_list_new :: "nat \<Rightarrow> data_list" where
  "data_list_new base = \<lparr>dl_base = base, dl_data = []\<rparr>"

definition next_multiple_of :: "nat \<Rightarrow> nat \<Rightarrow> nat" where
  "next_multiple_of n m = (if n mod m = 0 then n else n + (m - n mod m))"

definition data_list_add :: "bytes \<Rightarrow> igvm_data_type \<Rightarrow> bool \<Rightarrow> data_list \<Rightarrow> data_list" where
  "data_list_add blob data_type measured l =
     \<lparr>dl_base = wrap64 (dl_base l + next_multiple_of (length blob) 4096),
      dl_data = dl_data l @
        [\<lparr>dn_hob = new_data_hob (dl_base l) (length blob) data_type, dn_addr = dl_base l,
          dn_blob = blob, dn_measured = measured\<rparr>]\<rparr>"

definition hobs :: "data_list \<Rightarrow> bytes" where
  "hobs l = concat (map (\<lambda>d. data_hob_bytes (dn_hob d)) (dl_data l)) @ end_of_list"

definition blobs :: "data_list \<Rightarrow> bool \<Rightarrow> (nat \<times> bytes) list" where
  "blobs l measured = map (\<lambda>d. (dn_addr d, dn_blob d)) (filter (\<lambda>d. dn_measured d = measured) (dl_data l))"

definition data_list_is_empty :: "data_list \<Rightarrow> bool" where
  "data_list_is_empty l = (dl_data l = [])"

definition entry_count :: "data_list \<Rightarrow> nat" where
  "entry_count l = length (dl_data l)"

section \<open>Lemmas\<close>

lemma hob_header_length [simp]: "length (hob_header t n) = 8"
  by (simp add: hob_header_def le16.enc_length le32.enc_length)

lemma data_hob_bytes_length [simp]: "length (data_hob_bytes h) = 48"
  by (simp add: data_hob_bytes_def efi_igvm_data_hob_guid_def le64.enc_length le32.enc_length)

lemma end_of_list_length [simp]: "length end_of_list = 8"
  by (simp add: end_of_list_def)

lemma data_hob_fields:
  "take 16 (drop 8 (data_hob_bytes h)) = efi_igvm_data_hob_guid"
  "take 8 (drop 0x18 (data_hob_bytes h)) = u64_le (dh_address h)"
  "take 8 (drop 0x20 (data_hob_bytes h)) = u64_le (dh_length h)"
  "take 4 (drop 0x28 (data_hob_bytes h)) = u32_le (dh_type h)"
  by (simp_all add: data_hob_bytes_def hob_header_def efi_igvm_data_hob_guid_def
      le16.enc_length le64.enc_length le32.enc_length)

lemma next_multiple_of_facts:
  assumes "0 < m"
  shows "n \<le> next_multiple_of n m" "next_multiple_of n m mod m = 0" "next_multiple_of n m < n + m"
proof -
  have "n mod m < m" using assms by simp
  then have "(n + (m - n mod m)) mod m = 0"
    by (metis add.commute diff_add_inverse2 le_add_diff_inverse2 less_imp_le mod_add_self2 mod_mod_trivial
        mod_add_left_eq mod_self add_diff_inverse_nat not_less)
  then show "next_multiple_of n m mod m = 0" by (simp add: next_multiple_of_def)
  show "n \<le> next_multiple_of n m" "next_multiple_of n m < n + m"
    using \<open>n mod m < m\<close> by (auto simp: next_multiple_of_def)
qed

text \<open>
  The layout of a list built from page-aligned base \<open>b\<close> without leaving 64 bits: every entry's HOB
  is that of its blob, addresses are page-aligned, each blob ends before the next begins.
\<close>

definition layout_ok :: "nat \<Rightarrow> data_list \<Rightarrow> bool" where
  "layout_ok b l \<longleftrightarrow>
     dl_base l mod 4096 = 0 \<and> b \<le> dl_base l
     \<and> list_all (\<lambda>d. dn_addr d mod 4096 = 0 \<and> b \<le> dn_addr d
          \<and> dn_addr d + length (dn_blob d) \<le> dl_base l
          \<and> dh_address (dn_hob d) = of_nat (dn_addr d) \<and> dh_length (dn_hob d) = of_nat (length (dn_blob d)))
         (dl_data l)
     \<and> sorted_wrt (\<lambda>d e. dn_addr d + length (dn_blob d) \<le> dn_addr e) (dl_data l)"

lemma layout_new: "b mod 4096 = 0 \<Longrightarrow> layout_ok b (data_list_new b)"
  by (simp add: layout_ok_def data_list_new_def)

lemma layout_add:
  assumes "layout_ok b l" and "dl_base l + next_multiple_of (length blob) 4096 < word_max"
  shows "layout_ok b (data_list_add blob t m l)"
proof -
  note nm = next_multiple_of_facts [of 4096 "length blob"]
  have "(dl_base l + next_multiple_of (length blob) 4096) mod 4096 = 0"
    using assms(1) nm(2) by (auto simp: layout_ok_def)
  then show ?thesis
    using assms nm by (auto simp: layout_ok_def data_list_add_def sorted_wrt_append new_data_hob_def list_all_iff)
qed

end
