(* ===== verification/Extract.thy ===== *)
theory Extract
  imports Igvm_Types Ordered_Map Hob
begin

unbundle bit_operations_syntax

text \<open>
  Recovering the kernel command line from an IGVM file (\<open>crates/igvm-tools/src/extract.rs\<close>): the
  map of page data, the search for the kernel's HOB, the reassembly of the kernel image from its
  pages and the \<open>.cmdline\<close> section of the PE image. Offsets into slices stay far below 64 bits
  (sums of a few 32-bit fields), so they are naturals; guest addresses are 64-bit words.
\<close>

section \<open>Definitions\<close>

definition u16_at :: "bytes \<Rightarrow> nat \<Rightarrow> nat \<Rightarrow> nat option" where
  "u16_at b lo hi = map_option le_nat (get_range b lo hi)"

definition u32_at :: "bytes \<Rightarrow> nat \<Rightarrow> nat option" where
  "u32_at buf off = map_option le_nat (get_range buf off (off + 4))"

definition mz :: bytes where "mz = [0x4D, 0x5A]"
definition pe_signature :: bytes where "pe_signature = [0x50, 0x45, 0, 0]"
definition cmdline_name :: bytes where "cmdline_name = as_bytes ''.cmdline''"

definition section_text :: "bytes \<Rightarrow> string" where
  "section_text raw = trim (from_utf8_lossy (takeWhile (\<lambda>b. b \<noteq> 0) raw))"

fun pe_sections :: "bytes \<Rightarrow> nat \<Rightarrow> nat \<Rightarrow> string res" where
  "pe_sections img 0 sec = Inl (Fail ''kernel UKI has no `.cmdline` section'')"
| "pe_sections img (Suc n) sec =
     bnd (need (Fail ''truncated section table'') (get_range img sec (sec + 8))) (\<lambda>name.
     if name = cmdline_name then
       bnd (need (Fail ''truncated section header'') (u32_at img (sec + 16))) (\<lambda>size.
       bnd (need (Fail ''truncated section header'') (u32_at img (sec + 20))) (\<lambda>ptr.
       bnd (need (Fail ''`.cmdline` section out of bounds'') (get_range img ptr (ptr + size))) (\<lambda>raw.
       Inr (section_text raw))))
     else pe_sections img n (sec + 40))"

definition parse_pe_cmdline :: "bytes \<Rightarrow> string res" where
  "parse_pe_cmdline img =
     (if length img < 0x40 \<or> take 2 img \<noteq> mz
      then Inl (Fail ''kernel blob is not a PE image (no MZ header)'')
      else
        bnd (need (Fail ''truncated DOS header'') (u32_at img 0x3c)) (\<lambda>pe_off.
        if get_range img pe_off (pe_off + 4) \<noteq> Some pe_signature
        then Inl (Fail ''kernel blob is not a PE image (no PE signature)'')
        else
          let coff = pe_off + 4 in
          bnd (need (Fail ''truncated COFF header'') (u16_at img (coff + 2) (coff + 4))) (\<lambda>num_sections.
          bnd (need (Fail ''truncated COFF header'') (u16_at img (coff + 16) (coff + 18))) (\<lambda>opt_size.
          pe_sections img num_sections (coff + 20 + opt_size)))))"

type_synonym pages = "(u64 \<times> bytes) list"

definition page_map_step :: "directive \<Rightarrow> pages \<Rightarrow> pages" where
  "page_map_step d m =
     (case d of
        PageData gpa msk fl dt data \<Rightarrow> if data \<noteq> [] then om_insert gpa (pad_to 4096 data) m else m
      | _ \<Rightarrow> m)"

definition page_map :: "igvm_file \<Rightarrow> pages" where
  "page_map f = fold page_map_step (ig_directives f) []"

record run_state =
  rs_runs :: "(u64 \<times> bytes) list"
  rs_start :: "u64 option"
  rs_next :: u64
  rs_cur :: bytes

definition run_step :: "u64 \<times> bytes \<Rightarrow> run_state \<Rightarrow> run_state" where
  "run_step gp st =
     (case gp of (gpa, page) \<Rightarrow>
       let st1 = (if rs_start st \<noteq> None \<and> gpa = rs_next st then st
                  else (case rs_start st of
                      Some start \<Rightarrow> st\<lparr>rs_runs := rs_runs st @ [(start, rs_cur st)], rs_cur := [], rs_start := Some gpa\<rparr>
                    | None \<Rightarrow> st\<lparr>rs_start := Some gpa\<rparr>))
       in st1\<lparr>rs_cur := rs_cur st1 @ page, rs_next := gpa + 4096\<rparr>)"

definition contiguous_runs :: "pages \<Rightarrow> (u64 \<times> bytes) list" where
  "contiguous_runs pages =
     (let st = fold run_step pages \<lparr>rs_runs = [], rs_start = None, rs_next = 0, rs_cur = []\<rparr>
      in (case rs_start st of Some start \<Rightarrow> rs_runs st @ [(start, rs_cur st)] | None \<Rightarrow> rs_runs st))"

definition hob_data_type_kernel :: nat where "hob_data_type_kernel = 0x201"

text \<open>The HOB whose GUID is at offset \<open>i\<close>: address and length when it describes the kernel.\<close>

definition kernel_hob_at :: "bytes \<Rightarrow> nat \<Rightarrow> (u64 \<times> u64) option" where
  "kernel_hob_at b i =
     (if 8 \<le> i \<and> get_range b i (i + 16) = Some efi_igvm_data_hob_guid then
        let base = i - 8;
            data_type = (case u32_at b (base + 0x28) of None \<Rightarrow> 0 | Some t \<Rightarrow> t)
        in if data_type = hob_data_type_kernel
           then Some (le_u64 (take 8 (drop (base + 0x18) b)), le_u64 (take 8 (drop (base + 0x20) b)))
           else None
      else None)"

function scan_run :: "bytes \<Rightarrow> nat \<Rightarrow> (u64 \<times> u64) option" where
  "scan_run b i =
     (if i + 0x30 \<le> length b then
        (case kernel_hob_at b i of Some r \<Rightarrow> Some r | None \<Rightarrow> scan_run b (i + 1))
      else None)"
  by pat_completeness auto
termination by (relation "measure (\<lambda>(b, i). length b - i)") auto

declare scan_run.simps [simp del]

fun find_kernel_in :: "(u64 \<times> bytes) list \<Rightarrow> (u64 \<times> u64) res" where
  "find_kernel_in [] = Inl (Fail ''no kernel HOB found in IGVM'')"
| "find_kernel_in (r # rs) = (case scan_run (snd r) 0 of Some k \<Rightarrow> Inr k | None \<Rightarrow> find_kernel_in rs)"

definition find_kernel_blob :: "pages \<Rightarrow> (u64 \<times> u64) res" where
  "find_kernel_blob pages = find_kernel_in (contiguous_runs pages)"

lemma unat_add_page: "unat (gpa :: u64) + 4096 < word_max \<Longrightarrow> unat (gpa + 4096) = unat gpa + 4096"
  by (simp add: unat_word_ariths word_max_def)

text \<open>The loop of \<open>reassemble\<close>; it ends because the address grows and may not overflow.\<close>

function reassemble_from :: "pages \<Rightarrow> nat \<Rightarrow> u64 \<Rightarrow> bytes \<Rightarrow> bytes res" where
  "reassemble_from pages needed gpa out =
     (if length out < needed then
        (case om_lookup pages gpa of
           None \<Rightarrow> Inl (Fail (''missing page at gpa 0x'' @ hexlow (unat gpa) @ '' while reassembling kernel''))
         | Some page \<Rightarrow>
            if word_max \<le> unat gpa + 4096
            then Inl (Fail ''guest address overflows while reassembling kernel'')
            else reassemble_from pages needed (gpa + 4096) (out @ page))
      else Inr out)"
  by pat_completeness auto

termination
  by (relation "measure (\<lambda>(p, n, gpa, out). word_max - unat gpa)") (auto simp: unat_add_page not_le)

declare reassemble_from.simps [simp del]

definition page_floor :: "u64 \<Rightarrow> u64" where
  "page_floor addr = addr AND NOT (4096 - 1)"

definition reassemble :: "pages \<Rightarrow> u64 \<Rightarrow> u64 \<Rightarrow> bytes res" where
  "reassemble pages addr len =
     (let available = wrap64 (length pages * 4096) in
      if available < unat len
      then Inl (Fail (''kernel blob length '' @ dec (unat len) @ '' exceeds available measured page bytes ''
                      @ dec available))
      else
        let gpa = page_floor addr; skip = unat (addr - gpa) in
        bnd (need (Fail ''kernel blob address + length overflows'') (checked64 (unat len + skip))) (\<lambda>needed.
        bnd (reassemble_from pages needed gpa []) (\<lambda>out.
        slice_at out skip (skip + unat len))))"

definition kernel_cmdline :: "igvm_file \<Rightarrow> string res" where
  "kernel_cmdline f =
     (let pages = page_map f in
      bnd (find_kernel_blob pages) (\<lambda>al.
      bnd (reassemble pages (fst al) (snd al)) parse_pe_cmdline))"

section \<open>The page map\<close>

text \<open>The non-empty pages of a file in directive order; a later page replaces an earlier one.\<close>

definition page_list :: "directive list \<Rightarrow> pages" where
  "page_list ds = concat (map (\<lambda>d. case d of
      PageData gpa msk fl dt data \<Rightarrow> if data \<noteq> [] then [(gpa, pad_to 4096 data)] else [] | _ \<Rightarrow> []) ds)"

lemma page_map_eq: "page_map f = om_of_list (page_list (ig_directives f))"
proof -
  have "fold page_map_step ds m = fold (\<lambda>(k, v). om_insert k v) (page_list ds) m" for ds m
    by (induction ds arbitrary: m) (auto simp: page_list_def page_map_step_def split: directive.splits)
  then show ?thesis by (simp add: page_map_def om_of_list_def)
qed

lemma page_map_inv: "om_inv (page_map f)"
  by (simp add: page_map_eq)

lemma page_map_lookup: "om_lookup (page_map f) g = map_of (rev (page_list (ig_directives f))) g"
  by (simp add: page_map_eq om_of_list_lookup)

definition pages_wf :: "pages \<Rightarrow> bool" where
  "pages_wf pages \<longleftrightarrow> om_inv pages \<and> (\<forall>g p. om_lookup pages g = Some p \<longrightarrow> length p = 4096)"

lemma page_map_wf: "pages_wf (page_map f)"
proof -
  have "length p = 4096" if "om_lookup (page_map f) g = Some p" for g p
  proof -
    have "(g, p) \<in> set (page_list (ig_directives f))"
      using map_of_SomeD [OF that [unfolded page_map_lookup]] by simp
    then show ?thesis by (auto simp: page_list_def split: directive.splits if_splits)
  qed
  then show ?thesis by (simp add: pages_wf_def page_map_inv)
qed

section \<open>Guest memory\<close>

text \<open>The byte at a guest address, if its page is in the map.\<close>

definition mem_byte :: "pages \<Rightarrow> nat \<Rightarrow> u8 option" where
  "mem_byte pages a =
     (case om_lookup pages (of_nat (a - a mod 4096)) of None \<Rightarrow> None | Some p \<Rightarrow> get_at p (a mod 4096))"

lemma page_base:
  fixes a :: u64
  shows "unat (page_floor a) = unat a - unat a mod 4096" "unat (a - page_floor a) = unat a mod 4096"
    "unat (page_floor a) mod 4096 = 0"
proof -
  have m: "(4095 :: u64) = mask 12" by (simp add: mask_eq_exp_minus_1)
  have t: "unat (take_bit 12 a) = unat a mod 4096"
    by (simp add: take_bit_eq_mod unat_mod)
  have "a AND NOT (mask 12) = push_bit 12 (drop_bit 12 a)"
    by (rule bit_eqI) (auto simp: bit_simps)
  then have e: "page_floor a + take_bit 12 a = a"
    using bits_ident [of 12 a] m by (simp add: page_floor_def)
  then have s: "page_floor a = a - take_bit 12 a" by (metis add_diff_cancel_right')
  have "take_bit 12 a \<le> a" by (simp add: word_le_nat_alt t)
  then show u: "unat (page_floor a) = unat a - unat a mod 4096" by (simp only: s unat_sub t)
  show "unat (a - page_floor a) = unat a mod 4096" by (simp only: s) (simp add: t)
  show "unat (page_floor a) mod 4096 = 0" by (simp add: u minus_mod_eq_mult_div)
qed

lemma mem_byte_page:
  assumes "pages_wf pages" and "unat gpa mod 4096 = 0" and "i < 4096"
  shows "mem_byte pages (unat gpa + i) = (case om_lookup pages gpa of None \<Rightarrow> None | Some p \<Rightarrow> Some (p ! i))"
proof -
  have "(unat gpa + i) mod 4096 = i" using assms(2,3) by (metis add_0 mod_add_left_eq mod_less)
  moreover have "(of_nat (unat gpa) :: u64) = gpa" by simp
  ultimately show ?thesis using assms(1,3)
    by (auto simp: mem_byte_def pages_wf_def get_at_def split: option.splits)
qed

lemma reassemble_from_reads:
  assumes "reassemble_from pages needed gpa out = Inr r" and "pages_wf pages" and "unat gpa mod 4096 = 0"
  shows "\<exists>extra. r = out @ extra \<and> needed \<le> length r
    \<and> (\<forall>i < length extra. mem_byte pages (unat gpa + i) = Some (extra ! i))"
  using assms
proof (induction pages needed gpa out rule: reassemble_from.induct)
  case (1 pages needed gpa out)
  show ?case
  proof (cases "length out < needed")
    case True
    then obtain page where page: "om_lookup pages gpa = Some page" "unat gpa + 4096 < word_max"
      and rec: "reassemble_from pages needed (gpa + 4096) (out @ page) = Inr r"
      using "1.prems"(1) by (subst (asm) reassemble_from.simps) (auto split: option.splits if_splits)
    have nxt: "unat (gpa + 4096) = unat gpa + 4096" using page(2) by (rule unat_add_page)
    have lp: "length page = 4096" using "1.prems"(2) page(1) by (simp add: pages_wf_def)
    obtain extra where ex: "r = (out @ page) @ extra" "needed \<le> length r"
        "\<forall>i < length extra. mem_byte pages (unat gpa + 4096 + i) = Some (extra ! i)"
      using "1.IH" [OF True page(1) _ rec "1.prems"(2)] page(2) "1.prems"(3) nxt by auto
    have "mem_byte pages (unat gpa + i) = Some ((page @ extra) ! i)" if "i < length (page @ extra)" for i
    proof (cases "i < 4096")
      case True
      then show ?thesis
        using mem_byte_page [OF "1.prems"(2,3) True] page(1) lp by (simp add: nth_append)
    next
      case False
      then show ?thesis using ex(3)[rule_format, of "i - 4096"] that lp by (simp add: nth_append)
    qed
    then show ?thesis using ex by (intro exI [of _ "page @ extra"]) simp
  next
    case False
    then show ?thesis using "1.prems"(1) by (subst (asm) reassemble_from.simps) auto
  qed
qed

lemma reassemble_from_complete:
  assumes "pages_wf pages" and "unat gpa mod 4096 = 0"
    and "\<forall>i < needed - length out. mem_byte pages (unat gpa + i) \<noteq> None"
    and "unat gpa + (needed - length out) + 4096 \<le> word_max"
  shows "is_ok (reassemble_from pages needed gpa out)"
  using assms
proof (induction pages needed gpa out rule: reassemble_from.induct)
  case (1 pages needed gpa out)
  show ?case
  proof (cases "length out < needed")
    case True
    then obtain page where page: "om_lookup pages gpa = Some page"
      using "1.prems"(3)[rule_format, of 0] mem_byte_page [OF "1.prems"(1,2), of 0]
      by (auto split: option.splits)
    have small: "unat gpa + 4096 < word_max" using "1.prems"(4) True by simp
    then have nxt: "unat (gpa + 4096) = unat gpa + 4096" by (rule unat_add_page)
    have lp: "length page = 4096" using "1.prems"(1) page by (simp add: pages_wf_def)
    have "mem_byte pages (unat gpa + 4096 + i) \<noteq> None" if "i < needed - length (out @ page)" for i
      using "1.prems"(3)[rule_format, of "4096 + i"] that lp by (simp add: add.assoc)
    moreover have "unat gpa + 4096 + (needed - length (out @ page)) + 4096 \<le> word_max"
      if "length (out @ page) < needed" using that "1.prems"(4) lp by simp
    ultimately have "is_ok (reassemble_from pages needed (gpa + 4096) (out @ page))"
      using "1.IH" [OF True page _ "1.prems"(1)] small "1.prems"(2) nxt
      by (cases "length (out @ page) < needed") (auto simp: reassemble_from.simps)
    then show ?thesis using True page small by (simp add: reassemble_from.simps [of pages needed gpa])
  qed (simp add: reassemble_from.simps)
qed

lemma reassemble_sound:
  assumes "reassemble pages addr len = Inr bs" and "pages_wf pages"
  shows "length bs = unat len \<and> (\<forall>i < unat len. mem_byte pages (unat addr + i) = Some (bs ! i))"
proof -
  let ?gpa = "page_floor addr" and ?skip = "unat addr mod 4096"
  have base: "unat ?gpa = unat addr - ?skip" "unat (addr - ?gpa) = ?skip" by (rule page_base)+
  have al: "unat ?gpa mod 4096 = 0" by (rule page_base)
  obtain out where out: "reassemble_from pages (unat len + ?skip) ?gpa [] = Inr out"
    and bs: "slice_at out ?skip (?skip + unat len) = Inr bs"
    using assms(1) by (auto simp: reassemble_def Let_def base(2) split: if_splits)
  have len: "unat len + ?skip \<le> length out"
    and mem: "\<forall>i < length out. mem_byte pages (unat ?gpa + i) = Some (out ! i)"
    using reassemble_from_reads [OF out assms(2) al] by auto
  have b: "bs = take (unat len) (drop ?skip out)" using bs len by simp
  have "mem_byte pages (unat addr + i) = Some (bs ! i)" if "i < unat len" for i
  proof -
    have e: "unat ?gpa + (?skip + i) = unat addr + i" by (simp add: base(1))
    have "mem_byte pages (unat ?gpa + (?skip + i)) = Some (out ! (?skip + i))"
      using mem that len by simp
    then show ?thesis unfolding e using that len b by simp
  qed
  then show ?thesis using b len by simp
qed

lemma panics_reassemble_from: "\<not> panics (reassemble_from pages needed gpa out)"
proof (induction pages needed gpa out rule: reassemble_from.induct)
  case (1 pages needed gpa out)
  then show ?case by (subst reassemble_from.simps) (auto split: option.splits)
qed

lemma panics_reassemble:
  assumes "pages_wf pages"
  shows "\<not> panics (reassemble pages addr len)"
proof -
  have al: "unat (page_floor addr) mod 4096 = 0" by (rule page_base)
  have "unat len + unat (addr - page_floor addr) \<le> length out"
    if "reassemble_from pages (unat len + unat (addr - page_floor addr)) (page_floor addr) [] = Inr out" for out
    using reassemble_from_reads [OF that assms al] by auto
  then show ?thesis
    by (auto simp: reassemble_def Let_def panics_bnd panics_reassemble_from panics_slice_at not_less
        split: if_splits)
qed

lemma panics_pe_sections: "\<not> panics (pe_sections img n sec)"
  by (induction img n sec rule: pe_sections.induct) (auto simp: panics_bnd)

lemma panics_parse_pe_cmdline: "\<not> panics (parse_pe_cmdline img)"
  by (auto simp: parse_pe_cmdline_def Let_def panics_bnd panics_pe_sections)

lemma panics_find_kernel_in: "\<not> panics (find_kernel_in rs)"
  by (induction rs rule: find_kernel_in.induct) (auto split: option.splits)

section \<open>Contiguous runs\<close>

definition pages_aligned :: "pages \<Rightarrow> bool" where
  "pages_aligned pages \<longleftrightarrow> (\<forall>g p. (g, p) \<in> set pages \<longrightarrow> unat g mod 4096 = 0)"

text \<open>A run holds the memory from its start address.\<close>

definition run_ok :: "pages \<Rightarrow> u64 \<times> bytes \<Rightarrow> bool" where
  "run_ok pages r \<longleftrightarrow> (\<forall>i < length (snd r). mem_byte pages (unat (fst r) + i) = Some (snd r ! i))"

definition run_inv :: "pages \<Rightarrow> u64 option \<Rightarrow> run_state \<Rightarrow> bool" where
  "run_inv pages lst st \<longleftrightarrow>
     list_all (run_ok pages) (rs_runs st)
     \<and> (case lst of
          None \<Rightarrow> rs_start st = None \<and> rs_cur st = []
        | Some g \<Rightarrow> rs_next st = g + 4096 \<and>
            (\<exists>s. rs_start st = Some s \<and> run_ok pages (s, rs_cur st)
               \<and> unat g + 4096 = unat s + length (rs_cur st)))"

lemma run_step_inv:
  assumes "pages_wf pages" "pages_aligned pages" "(g, p) \<in> set pages"
    and "case lst of None \<Rightarrow> True | Some h \<Rightarrow> unat h < unat g \<and> unat h mod 4096 = 0"
    and "run_inv pages lst st"
  shows "run_inv pages (Some g) (run_step (g, p) st)"
proof -
  have al: "unat g mod 4096 = 0" using assms(2,3) by (auto simp: pages_aligned_def)
  have look: "om_lookup pages g = Some p"
    using assms(1,3) om.entries_look [of pages g p] by (simp add: pages_wf_def)
  then have lp: "length p = 4096" using assms(1) by (simp add: pages_wf_def)
  have pg: "mem_byte pages (unat g + i) = Some (p ! i)" if "i < 4096" for i
    using mem_byte_page [OF assms(1) al that] look by simp
  have fresh: "run_ok pages (g, p)" using pg lp by (simp add: run_ok_def)
  show ?thesis
  proof (cases lst)
    case None
    then show ?thesis using assms(5) fresh lp by (simp add: run_inv_def run_step_def Let_def)
  next
    case (Some h)
    then obtain s where s: "rs_start st = Some s" "run_ok pages (s, rs_cur st)"
        "unat h + 4096 = unat s + length (rs_cur st)" "rs_next st = h + 4096"
        "list_all (run_ok pages) (rs_runs st)"
      using assms(5) by (auto simp: run_inv_def)
    have hb: "unat h + 4096 \<le> unat g"
    proof -
      have "unat h < unat g" "unat h mod 4096 = 0" using assms(4) Some by simp_all
      moreover obtain a b where "unat h = 4096 * a" "unat g = 4096 * b"
        using al \<open>unat h mod 4096 = 0\<close> by (metis mod_0_imp_dvd dvdE)
      ultimately show ?thesis by simp
    qed
    then have h1: "unat (h + 4096) = unat h + 4096"
      using unsigned_less [of g, where 'a = nat] by (intro unat_add_page) (simp add: word_max_def)
    show ?thesis
    proof (cases "g = rs_next st")
      case True
      then have g: "unat g = unat s + length (rs_cur st)" using s h1 by simp
      have "mem_byte pages (unat s + i) = Some ((rs_cur st @ p) ! i)" if "i < length (rs_cur st @ p)" for i
      proof (cases "i < length (rs_cur st)")
        case True
        then show ?thesis using s(2) by (simp add: run_ok_def nth_append)
      next
        case False
        then have e: "unat s + i = unat g + (i - length (rs_cur st))" using g by simp
        show ?thesis unfolding e using pg [of "i - length (rs_cur st)"] False that lp
          by (simp add: nth_append)
      qed
      then have "run_ok pages (s, rs_cur st @ p)" by (simp add: run_ok_def)
      then show ?thesis using True s g lp by (simp add: run_inv_def run_step_def Let_def)
    next
      case False
      then show ?thesis using s fresh lp by (simp add: run_inv_def run_step_def Let_def)
    qed
  qed
qed

lemma runs_hold_memory:
  assumes "pages_wf pages" "pages_aligned pages"
  shows "list_all (run_ok pages) (contiguous_runs pages)"
proof -
  have "run_inv pages (if ps = [] then lst else Some (fst (last ps))) (fold run_step ps st)"
    if "set ps \<subseteq> set pages" "sorted_wrt (<) (map fst ps)" "run_inv pages lst st"
      "case lst of None \<Rightarrow> True | Some h \<Rightarrow> (\<forall>q \<in> set ps. unat h < unat (fst q)) \<and> unat h mod 4096 = 0"
    for ps lst st
    using that
  proof (induction ps arbitrary: lst st)
    case (Cons gp ps)
    obtain g p where gp: "gp = (g, p)" by fastforce
    have step: "run_inv pages (Some g) (run_step (g, p) st)"
      using run_step_inv [OF assms, of g p lst st] Cons.prems gp by (auto split: option.splits)
    have "unat g mod 4096 = 0" using assms(2) Cons.prems(1) gp by (auto simp: pages_aligned_def)
    then show ?case
      using Cons.IH [OF _ _ step] Cons.prems(1,2) gp by (auto simp: word_less_nat_alt)
  qed simp
  from this [of pages None "\<lparr>rs_runs = [], rs_start = None, rs_next = 0, rs_cur = []\<rparr>"]
  have "run_inv pages (if pages = [] then None else Some (fst (last pages)))
      (fold run_step pages \<lparr>rs_runs = [], rs_start = None, rs_next = 0, rs_cur = []\<rparr>)"
    using assms(1) by (simp add: run_inv_def pages_wf_def om_inv_def)
  then show ?thesis
    by (auto simp: contiguous_runs_def Let_def run_inv_def split: option.splits if_splits)
qed

section \<open>The kernel's HOB\<close>

text \<open>Guest memory holds these bytes from this address.\<close>

definition mem_holds :: "pages \<Rightarrow> nat \<Rightarrow> bytes \<Rightarrow> bool" where
  "mem_holds pages a b \<longleftrightarrow> (\<forall>i < length b. mem_byte pages (a + i) = Some (b ! i))"

definition kernel_hob_in_memory :: "pages \<Rightarrow> nat \<Rightarrow> u64 \<Rightarrow> u64 \<Rightarrow> bool" where
  "kernel_hob_in_memory pages g addr len \<longleftrightarrow>
     mem_holds pages (g + 8)
       (efi_igvm_data_hob_guid @ u64_le addr @ u64_le len @ u32_le (data_type_code Kernel))"

lemma scan_run_Some:
  "scan_run b i = Some r \<Longrightarrow> \<exists>j. j + 0x30 \<le> length b \<and> kernel_hob_at b j = Some r"
proof (induction b i rule: scan_run.induct)
  case (1 b i)
  from "1.prems" show ?case
    by (subst (asm) scan_run.simps) (auto split: if_splits option.splits dest: "1.IH")
qed

lemma find_kernel_in_Inr:
  "find_kernel_in rs = Inr k \<Longrightarrow> \<exists>r \<in> set rs. scan_run (snd r) 0 = Some k"
  by (induction rs rule: find_kernel_in.induct) (auto split: option.splits)

lemma efi_guid_length [simp]: "length efi_igvm_data_hob_guid = 16"
  by (simp add: efi_igvm_data_hob_guid_def)

text \<open>A buffer cut in consecutive fields.\<close>

lemma take_fields: "take (m + n) (drop j b) = take m (drop j b) @ take n (drop (j + m) b)"
  by (simp add: take_add add.commute)

lemma kernel_hob_at_Some:
  assumes "kernel_hob_at b j = Some (addr, len)" and "j + 0x30 \<le> length b"
  shows "8 \<le> j \<and> take 36 (drop j b) =
    efi_igvm_data_hob_guid @ u64_le addr @ u64_le len @ u32_le (data_type_code Kernel)"
proof -
  have j: "8 \<le> j" and g: "take 16 (drop j b) = efi_igvm_data_hob_guid"
    and t: "le_nat (take 4 (drop (32 + j) b)) = 0x201"
    and a: "addr = le_u64 (take 8 (drop (16 + j) b))" and l: "len = le_u64 (take 8 (drop (24 + j) b))"
    using assms
    by (auto simp: kernel_hob_at_def u32_at_def Let_def hob_data_type_kernel_def split: if_splits option.splits)
  have "le_u32 (take 4 (drop (32 + j) b)) = data_type_code Kernel" by (simp add: le_u32_def t)
  then have "u32_le (data_type_code Kernel) = take 4 (drop (32 + j) b)"
    using le32.enc_dec [of "take 4 (drop (32 + j) b)"] assms(2) by simp
  moreover have "u64_le addr = take 8 (drop (16 + j) b)" "u64_le len = take 8 (drop (24 + j) b)"
    using le64.enc_dec assms(2) by (simp_all add: a l)
  moreover have "take 36 (drop j b) = take 16 (drop j b) @ take 8 (drop (16 + j) b)
      @ take 8 (drop (24 + j) b) @ take 4 (drop (32 + j) b)"
    using take_fields [of 16 20 j b, unfolded add.commute [of j]] take_fields [of 8 12 "16 + j" b] take_fields [of 8 4 "24 + j" b]
    by (simp add: add.commute)
  ultimately show ?thesis using j g by simp
qed

lemma find_kernel_blob_sound:
  assumes "find_kernel_blob pages = Inr (addr, len)" "pages_wf pages" "pages_aligned pages"
  shows "\<exists>g. kernel_hob_in_memory pages g addr len"
proof -
  obtain r where r: "r \<in> set (contiguous_runs pages)" "scan_run (snd r) 0 = Some (addr, len)"
    using assms(1) find_kernel_in_Inr unfolding find_kernel_blob_def by blast
  obtain j where j: "j + 0x30 \<le> length (snd r)" "kernel_hob_at (snd r) j = Some (addr, len)"
    using scan_run_Some [OF r(2)] by blast
  note at = kernel_hob_at_Some [OF j(2,1)]
  have run: "\<forall>i < length (snd r). mem_byte pages (unat (fst r) + i) = Some (snd r ! i)"
    using runs_hold_memory [OF assms(2,3)] r(1) by (auto simp: list_all_iff run_ok_def)
  have "mem_byte pages (unat (fst r) + (j - 8) + 8 + i) = Some (take 36 (drop j (snd r)) ! i)" if "i < 36" for i
  proof -
    have e: "unat (fst r) + (j - 8) + 8 + i = unat (fst r) + (j + i)" using at by simp
    show ?thesis unfolding e using run[rule_format, of "j + i"] that j(1) by simp
  qed
  then have "mem_holds pages (unat (fst r) + (j - 8) + 8) (take 36 (drop j (snd r)))"
    by (simp add: mem_holds_def)
  then have "kernel_hob_in_memory pages (unat (fst r) + (j - 8)) addr len"
    using at unfolding kernel_hob_in_memory_def by simp
  then show ?thesis by blast
qed

section \<open>Flags are not looked at\<close>

definition mark_unmeasured :: "directive \<Rightarrow> directive" where
  "mark_unmeasured d =
     (case d of PageData g m fl t b \<Rightarrow> PageData g m (fl\<lparr>pf_unmeasured := True\<rparr>) t b | _ \<Rightarrow> d)"

lemma page_list_mark: "page_list (map mark_unmeasured ds) = page_list ds"
  by (induction ds) (auto simp: page_list_def mark_unmeasured_def split: directive.splits)

lemma kernel_cmdline_mark:
  "kernel_cmdline (f\<lparr>ig_directives := map mark_unmeasured (ig_directives f)\<rparr>) = kernel_cmdline f"
  by (simp add: kernel_cmdline_def page_map_eq page_list_mark)

section \<open>A sample kernel\<close>

definition sample_pe :: bytes where
  "sample_pe = mz @ replicate 58 0 @ le_bytes 4 0x40 @ pe_signature @ replicate 2 0 @ le_bytes 2 1
     @ replicate 12 0 @ le_bytes 2 0 @ replicate 2 0
     @ cmdline_name @ replicate 8 0 @ le_bytes 4 11 @ le_bytes 4 0x80 @ replicate 16 0
     @ as_bytes ''roothash=ab''"

definition sample_kernel_file :: igvm_file where
  "sample_kernel_file = \<lparr>ig_platforms = [], ig_initializations = [],
     ig_directives =
       [PageData 0x1000 2 no_flags NormalPage (data_hob_bytes (new_data_hob 0x2000 139 Kernel)),
        PageData 0x2000 2 no_flags NormalPage sample_pe]\<rparr>"

lemma sample_pe_length: "length sample_pe = 139"
  by (simp add: sample_pe_def mz_def pe_signature_def cmdline_name_def)

lemma trim_plain: "ws_len s = 0 \<Longrightarrow> ws_end_len s = 0 \<Longrightarrow> trim s = s"
  by (simp add: trim_def trim_start.simps trim_end.simps)

lemma sample_section_text: "section_text (as_bytes ''roothash=ab'') = ''roothash=ab''"
proof -
  have "takeWhile (\<lambda>b. b \<noteq> 0) (as_bytes ''roothash=ab'') = as_bytes ''roothash=ab''"
    by (simp add: as_bytes_def)
  moreover have "from_utf8_lossy (as_bytes ''roothash=ab'') = ''roothash=ab''"
    by (rule from_utf8_lossy_ascii) (simp add: as_bytes_def)
  moreover have "trim ''roothash=ab'' = ''roothash=ab''"
    by (rule trim_plain) (simp_all add: ws_len_ascii ws_end_len_def Let_def)
  ultimately show ?thesis by (simp only: section_text_def)
qed

lemma sample_pe_parses: "parse_pe_cmdline sample_pe = Inr ''roothash=ab''"
proof -
  have "u32_at sample_pe 0x3c = Some 0x40" "get_range sample_pe 0x40 0x44 = Some pe_signature"
      "u16_at sample_pe 0x46 0x48 = Some 1" "u16_at sample_pe 0x54 0x56 = Some 0"
      "take 2 sample_pe = mz" "get_range sample_pe 0x58 0x60 = Some cmdline_name"
      "u32_at sample_pe 0x68 = Some 11" "u32_at sample_pe 0x6c = Some 0x80"
      "get_range sample_pe 0x80 0x8b = Some (as_bytes ''roothash=ab'')"
    by (simp_all add: u32_at_def u16_at_def sample_pe_length)
      (simp_all add: sample_pe_def mz_def pe_signature_def cmdline_name_def)
  then show ?thesis by (simp add: parse_pe_cmdline_def sample_pe_length sample_section_text)
qed

definition sample_hob_page :: bytes where
  "sample_hob_page = pad_to 4096 (data_hob_bytes (new_data_hob 0x2000 139 Kernel))"

lemma sample_pages:
  "page_map sample_kernel_file = [(0x1000, sample_hob_page), (0x2000, pad_to 4096 sample_pe)]"
  by (simp add: page_map_def sample_kernel_file_def page_map_step_def sample_hob_page_def
      data_hob_bytes_def efi_igvm_data_hob_guid_def sample_pe_def mz_def)

lemma sample_pages_wf: "pages_wf (page_map sample_kernel_file)" "pages_aligned (page_map sample_kernel_file)"
  by (rule page_map_wf) (auto simp: pages_aligned_def sample_pages)

lemma sample_scan: "scan_run (sample_hob_page @ b) 0 = Some (0x2000, 139)"
proof -
  let ?h = "data_hob_bytes (new_data_hob 0x2000 139 Kernel)" and ?b = "sample_hob_page @ b"
  have page: "?b = ?h @ replicate 4048 0 @ b"
    by (simp add: sample_hob_page_def pad_to_def)
  have step: "scan_run ?b i = scan_run ?b (Suc i)" if "i < 8" for i
    using that by (subst scan_run.simps) (simp add: kernel_hob_at_def sample_hob_page_def)
  have "get_range ?b 8 24 = Some efi_igvm_data_hob_guid" "u32_at ?b 0x28 = Some 0x201"
      "take 8 (drop 0x18 ?b) = u64_le 0x2000" "take 8 (drop 0x20 ?b) = u64_le 139"
    using data_hob_fields [of "new_data_hob 0x2000 139 Kernel"]
    by (simp_all add: page u32_at_def new_data_hob_def u32_le_def)
  then have "kernel_hob_at ?b 8 = Some (0x2000, 139)"
    by (simp add: kernel_hob_at_def hob_data_type_kernel_def le64.dec_enc)
  then have "scan_run ?b 8 = Some (0x2000, 139)"
    by (subst scan_run.simps) (simp add: sample_hob_page_def)
  moreover have "scan_run ?b (8 - k) = scan_run ?b 8" if "k \<le> 8" for k
    using that
  proof (induction k)
    case (Suc k)
    then have "Suc (8 - Suc k) = 8 - k" by simp
    then show ?case using step [of "8 - Suc k"] Suc by (metis Suc_leD diff_less zero_less_Suc zero_less_numeral)
  qed (rule arg_cong [where f = "scan_run ?b"], simp)
  from this [of 8] have "scan_run ?b 0 = scan_run ?b 8" by (simp only: diff_self_eq_0 le_refl)
  ultimately show ?thesis by (simp only:)
qed

lemma sample_kernel_found: "find_kernel_blob (page_map sample_kernel_file) = Inr (0x2000, 139)"
  by (simp add: find_kernel_blob_def contiguous_runs_def sample_pages run_step_def sample_scan)

lemma sample_reassembled: "reassemble (page_map sample_kernel_file) 0x2000 139 = Inr sample_pe"
proof -
  have "page_floor 0x2000 = 0x2000" by (simp add: page_floor_def)
  then show ?thesis
    by (simp add: reassemble_def sample_pages wrap64_def word_max_def checked64_def Let_def
        reassemble_from.simps om_lookup_def)
      (simp add: pad_to_def sample_pe_length)
qed

section \<open>Properties\<close>

text \<open>
  C25. \<open>reassemble\<close> reads guest memory: what it returns are the \<open>len\<close> bytes at \<open>addr\<close>, across any
  number of pages and any offset in the first one. It never panics, whatever address and length the
  HOB gives.
\<close>

theorem reassemble_reads_memory:
  assumes "pages_wf pages"
  shows "(reassemble pages addr len = Inr bs \<longrightarrow>
      length bs = unat len \<and> mem_holds pages (unat addr) bs) \<and> \<not> panics (reassemble pages addr len)"
  using reassemble_sound [of pages addr len bs] panics_reassemble [OF assms] assms
  by (auto simp: mem_holds_def)

theorem reassemble_reads_memory_witness:
  "mem_holds (page_map sample_kernel_file) 0x2000 sample_pe"
  using reassemble_reads_memory [OF sample_pages_wf(1), of "0x2000" 139 sample_pe] sample_reassembled
  by simp

text \<open>
  C24. Where the command line comes from: when \<open>kernel_cmdline\<close> returns, guest memory holds a kernel
  HOB with some address and length, and the text is what \<open>parse_pe_cmdline\<close> reads in the image that
  memory holds there.
\<close>

theorem kernel_cmdline_from_memory:
  assumes "kernel_cmdline f = Inr s" and "pages_aligned (page_map f)"
  shows "\<exists>g addr len img. kernel_hob_in_memory (page_map f) g addr len
    \<and> length img = unat len \<and> mem_holds (page_map f) (unat addr) img \<and> parse_pe_cmdline img = Inr s"
proof -
  obtain addr len img where k: "find_kernel_blob (page_map f) = Inr (addr, len)"
      "reassemble (page_map f) addr len = Inr img" "parse_pe_cmdline img = Inr s"
    using assms(1) by (auto simp: kernel_cmdline_def Let_def)
  then show ?thesis
    using find_kernel_blob_sound [OF k(1) page_map_wf assms(2)] reassemble_sound [OF k(2) page_map_wf]
    unfolding mem_holds_def by metis
qed

theorem kernel_cmdline_from_memory_witness:
  "\<exists>g addr len img. kernel_hob_in_memory (page_map sample_kernel_file) g addr len
    \<and> length img = unat len \<and> mem_holds (page_map sample_kernel_file) (unat addr) img
    \<and> parse_pe_cmdline img = Inr ''roothash=ab''"
proof (rule kernel_cmdline_from_memory [OF _ sample_pages_wf(2)])
  show "kernel_cmdline sample_kernel_file = Inr ''roothash=ab''"
    by (simp add: kernel_cmdline_def Let_def sample_kernel_found sample_reassembled sample_pe_parses)
qed

text \<open>No IGVM file makes \<open>kernel_cmdline\<close> panic.\<close>

theorem kernel_cmdline_no_panic: "\<not> panics (kernel_cmdline f)"
  using panics_reassemble [OF page_map_wf]
  by (auto simp: kernel_cmdline_def Let_def panics_bnd find_kernel_blob_def panics_find_kernel_in
      panics_parse_pe_cmdline)

end
