(* ===== verification/Verify.thy ===== *)
theory Verify
  imports Provenance Verity Measure Extract
begin

text \<open>
  \<open>kettle verify\<close> (\<open>src/src/commands/verify.rs\<close>): the single checks, each giving a
  \<open>verification\<close>, and the command that runs them on a build directory and reports the verdict.
  The attestation library is a parameter: a function from evidence to its result. A file argument
  is the outcome of reading it; tables, colours and the log are not modelled.
\<close>

section \<open>Inputs\<close>

record claims =
  cl_signed_data :: bytes
  cl_launch_digest :: string

record verification_result =
  vr_signature_valid :: bool
  vr_claims :: claims

text \<open>A directory listing: entries that may fail, each with the outcome of asking for its type.\<close>

record listed_entry =
  le_entry :: dir_entry
  le_is_file :: "string + bool"

record build_fs =
  fs_canonical :: "string + unit"
  fs_evidence :: "string + bytes"
  fs_provenance :: "string + bytes"
  fs_top :: "string + (string + listed_entry) list"
  fs_artifacts_is_dir :: bool
  fs_artifacts :: "string + (string + listed_entry) list"

record build_dir =
  bu_provenance_bytes :: bytes
  bu_evidence_bytes :: bytes
  bu_top_level :: "dir_entry list"
  bu_artifacts :: "dir_entry list"

definition plain_files :: "(string + listed_entry) list \<Rightarrow> dir_entry list" where
  "plain_files es =
     map le_entry (filter (\<lambda>e. case le_is_file e of Inr b \<Rightarrow> b | Inl _ \<Rightarrow> False)
       (concat (map (\<lambda>e. case e of Inr x \<Rightarrow> [x] | Inl _ \<Rightarrow> []) es)))"

definition from_dir :: "build_fs \<Rightarrow> build_dir res" where
  "from_dir fs =
     bnd (map_err Fail (fs_canonical fs)) (\<lambda>_.
     bnd (map_err Fail (fs_evidence fs)) (\<lambda>evidence.
     bnd (map_err Fail (fs_provenance fs)) (\<lambda>prov.
     bnd (map_err Fail (fs_top fs)) (\<lambda>top_level.
     bnd (if fs_artifacts_is_dir fs then map_err Fail (fs_artifacts fs) else Inr []) (\<lambda>artifacts.
     Inr \<lparr>bu_provenance_bytes = prov, bu_evidence_bytes = evidence,
          bu_top_level = plain_files top_level, bu_artifacts = plain_files artifacts\<rparr>)))))"

section \<open>The checks\<close>

definition nonce_len :: nat where "nonce_len = 16"

definition verify_nonce :: "lib \<Rightarrow> verification_result \<Rightarrow> string \<Rightarrow> verification" where
  "verify_nonce L vr nonce_string =
     (case hex_decode L nonce_string of
        Inl e \<Rightarrow> Failure ''Invalid nonce hex''
          (''Could not decode nonce '' @ debug_str nonce_string @ '' as hex: '' @ e)
      | Inr nonce \<Rightarrow>
         if length nonce \<noteq> nonce_len then
           Failure (''Nonce must be exactly '' @ dec nonce_len @ '' bytes'')
             (''Expected '' @ dec nonce_len @ '' bytes ('' @ dec (nonce_len * 2) @ '' hex chars); got ''
              @ dec (length nonce) @ '' bytes'')
         else
           (let sdata = cl_signed_data (vr_claims vr) in
            if 32 \<le> length sdata then
              (let signed_nonce = drop 32 sdata;
                   matches = length signed_nonce \<le> nonce_len \<and> pad_to nonce_len signed_nonce = nonce
               in if matches then Success ''Nonce matches attestation''
                  else Failure ''Nonce mismatch''
                    (''Expected attested nonce '' @ debug_str (hex_encode L nonce) @ nl
                     @ ''Actual value was        '' @ debug_str (hex_encode L signed_nonce)))
            else Failure ''Nonce missing from attestation''
              (''No nonce preset in attestation signed data '' @ debug_str (hex_encode L sdata))))"

definition verify_signature :: "verification_result \<Rightarrow> verification" where
  "verify_signature vr =
     (if vr_signature_valid vr then Success ''Attestation hardware signature valid''
      else Failure ''Attestation hardware signature invalid'' ''signature verification failed'')"

definition compare_launch_digest :: "string \<Rightarrow> string \<Rightarrow> verification" where
  "compare_launch_digest measured_hex attested_hex =
     (if eq_ignore_ascii_case measured_hex attested_hex
      then Success ''IGVM launch measurement matches attestation''
      else Failure ''IGVM launch measurement mismatch''
        (''IGVM file launch digest   '' @ measured_hex @ nl @ ''Attested launch digest    '' @ attested_hex))"

text \<open>An error becomes a failed verification with a heading; a panic stays one.\<close>

definition or_failure :: "string \<Rightarrow> 'a res \<Rightarrow> ('a \<Rightarrow> verification res) \<Rightarrow> verification res" where
  "or_failure heading m k =
     (case m of Inr x \<Rightarrow> k x | Inl (Fail e) \<Rightarrow> Inr (Failure heading e) | Inl (Panic e) \<Rightarrow> Inl (Panic e))"

definition verify_igvm_measurement ::
  "lib \<Rightarrow> igvm_lib \<Rightarrow> verification_result \<Rightarrow> string + bytes \<Rightarrow> verification res" where
  "verify_igvm_measurement L G vr igvm =
     or_failure ''Could not read IGVM file'' (map_err Fail igvm) (\<lambda>b.
     or_failure ''Could not parse IGVM file'' (map_err Fail (igvm_parse G b)) (\<lambda>f.
     or_failure ''Could not measure IGVM file'' (measure_snp L G f) (\<lambda>r.
     Inr (compare_launch_digest (hex_encode L (mr_launch_digest r)) (cl_launch_digest (vr_claims vr))))))"

fun find_map :: "('a \<Rightarrow> 'b option) \<Rightarrow> 'a list \<Rightarrow> 'b option" where
  "find_map f [] = None"
| "find_map f (x # xs) = (case f x of Some y \<Rightarrow> Some y | None \<Rightarrow> find_map f xs)"

definition roothash_from_cmdline :: "string \<Rightarrow> string res" where
  "roothash_from_cmdline cmdline =
     need (Fail ''no roothash= in IGVM kernel command line'')
       (find_map (strip_prefix ''roothash='') (split_whitespace cmdline))"

definition compare_roothash :: "string \<Rightarrow> string \<Rightarrow> verification" where
  "compare_roothash igvm_roothash disk_roothash =
     (if eq_ignore_ascii_case igvm_roothash disk_roothash
      then Success ''Disk image matches IGVM dm-verity roothash''
      else Failure ''Disk image roothash mismatch''
        (''IGVM-committed roothash   '' @ igvm_roothash @ nl @ ''Disk image roothash       '' @ disk_roothash))"

definition verify_image_roothash ::
  "lib \<Rightarrow> igvm_lib \<Rightarrow> bool \<Rightarrow> string + bytes \<Rightarrow> string + bytes \<Rightarrow> verification res" where
  "verify_image_roothash L G oc igvm disk =
     or_failure ''Could not read IGVM file'' (map_err Fail igvm) (\<lambda>b.
     or_failure ''Could not parse IGVM file'' (map_err Fail (igvm_parse G b)) (\<lambda>f.
     or_failure ''Could not read IGVM kernel command line'' (kernel_cmdline f) (\<lambda>cmdline.
     or_failure ''No roothash in IGVM'' (roothash_from_cmdline cmdline) (\<lambda>igvm_roothash.
     or_failure ''Could not read disk image roothash'' (stored_roothash L oc disk) (\<lambda>disk_roothash.
     Inr (compare_roothash igvm_roothash disk_roothash))))))"

definition compare_checksum :: "lib \<Rightarrow> bytes \<Rightarrow> bytes \<Rightarrow> verification" where
  "compare_checksum L signed_data expected =
     (if length expected \<noteq> 32
      then Failure ''Provenance checksum invalid''
        (''Expected provenance.json checksum '' @ debug_str (hex_encode L expected) @ '' to be 32 bytes'')
      else
        let signed_checksum = pad_to 32 signed_data in
        if signed_checksum = expected then Success ''Provenance checksum match''
        else Failure ''Provenance checksum mismatch''
          (''Expected provenance.json checksum '' @ debug_str (hex_encode L expected) @ nl
           @ ''Actual attested checksum          '' @ debug_str (hex_encode L signed_checksum)))"

definition verify_provenance :: "lib \<Rightarrow> verification_result \<Rightarrow> provenance \<Rightarrow> verification" where
  "verify_provenance L vr p = compare_checksum L (cl_signed_data (vr_claims vr)) (checksum L p)"

section \<open>The command\<close>

record verify_args =
  va_nonce :: "string option"
  va_igvm :: "(string + bytes) option"
  va_image :: "(string + bytes) option"

text \<open>
  What \<open>verify\<close> prints: the build information, the results with the overall verdict, the warnings,
  and heading and details of the failed results.
\<close>

record verify_report =
  vp_info :: "string list"
  vp_results :: "verification list"
  vp_passed :: bool
  vp_warnings :: "string list"
  vp_details :: "(string \<times> string) list"

definition opt_check :: "'a option \<Rightarrow> ('a \<Rightarrow> verification res) \<Rightarrow> verification list res" where
  "opt_check m k = (case m of None \<Rightarrow> Inr [] | Some x \<Rightarrow> map_ok (\<lambda>v. [v]) (k x))"

definition failure_details :: "verification list \<Rightarrow> (string \<times> string) list" where
  "failure_details rs =
     concat (map (\<lambda>r. case r of Success _ \<Rightarrow> [] | Failure message details \<Rightarrow> [(message, details)]) rs)"

definition verify ::
  "lib \<Rightarrow> igvm_lib \<Rightarrow> bool \<Rightarrow> (bytes \<Rightarrow> string + verification_result) \<Rightarrow> build_fs \<Rightarrow> verify_args
    \<Rightarrow> verify_report res" where
  "verify L G oc attestation_verify fs args =
     bnd (from_dir fs) (\<lambda>build.
     bnd (from_json L (bu_provenance_bytes build)) (\<lambda>p.
     bnd (map_err Fail (attestation_verify (bu_evidence_bytes build))) (\<lambda>vr.
     bnd (verify_artifacts L p (bu_top_level build) (bu_artifacts build)) (\<lambda>artifact_report.
     bnd (opt_check (va_nonce args) (\<lambda>n. Inr (verify_nonce L vr n))) (\<lambda>nonce_result.
     bnd (opt_check (va_igvm args) (verify_igvm_measurement L G vr)) (\<lambda>igvm_result.
     bnd (case (va_igvm args, va_image args) of
            (Some igvm, Some disk) \<Rightarrow> map_ok (\<lambda>v. [v]) (verify_image_roothash L G oc igvm disk)
          | _ \<Rightarrow> Inr []) (\<lambda>image_result.
     let results = [verify_signature vr, verify_predicate p, verify_provenance L vr p]
                   @ ar_results artifact_report @ nonce_result @ igvm_result @ image_result
     in Inr \<lparr>vp_info = [build_id p, timestamp p, toolchain_display (toolchain_ref p), git_commit_ref p],
             vp_results = results,
             vp_passed = \<not> list_ex (\<lambda>r. \<not> is_success r) results,
             vp_warnings = ar_warnings artifact_report,
             vp_details = failure_details results\<rparr>)))))))"

text \<open>The exit status of the process (\<open>main.rs\<close>): 1 when the command returns an error.\<close>

definition exit_status :: "'a res \<Rightarrow> nat" where
  "exit_status r = (case r of Inr _ \<Rightarrow> 0 | Inl (Fail _) \<Rightarrow> 1 | Inl (Panic _) \<Rightarrow> 101)"

section \<open>Lemmas\<close>

definition nonce_matches :: "lib \<Rightarrow> bytes \<Rightarrow> string \<Rightarrow> bool" where
  "nonce_matches L sdata s \<longleftrightarrow>
     (case hex_decode L s of Inl _ \<Rightarrow> False
      | Inr n \<Rightarrow> length n = 16 \<and> 32 \<le> length sdata \<and> length sdata \<le> 48 \<and> pad_to 16 (drop 32 sdata) = n)"

lemma verify_nonce_success:
  "is_success (verify_nonce L vr s) \<longleftrightarrow> nonce_matches L (cl_signed_data (vr_claims vr)) s"
  by (auto simp: verify_nonce_def nonce_matches_def nonce_len_def Let_def split: sum.splits)

lemma compare_checksum_success:
  "is_success (compare_checksum L sdata expected) \<longleftrightarrow> length expected = 32 \<and> pad_to 32 sdata = expected"
  by (simp add: compare_checksum_def Let_def)

lemma verify_predicate_success:
  "is_success (verify_predicate p) \<longleftrightarrow> pv_predicate_type p = slsa_predicate_type \<and> pv_type p = statement_type"
  by (simp add: verify_predicate_def)

definition igvm_matches :: "lib \<Rightarrow> igvm_lib \<Rightarrow> string \<Rightarrow> string + bytes \<Rightarrow> bool" where
  "igvm_matches L G attested igvm \<longleftrightarrow>
     (\<exists>b f r. igvm = Inr b \<and> igvm_parse G b = Inr f \<and> measure_snp L G f = Inr r
        \<and> eq_ignore_ascii_case (hex_encode L (mr_launch_digest r)) attested)"

lemma or_failure_success:
  "or_failure h m k = Inr v \<Longrightarrow> is_success v \<longleftrightarrow> (\<exists>x. m = Inr x \<and> k x = Inr v \<and> is_success v)"
  by (auto simp: or_failure_def split: sum.splits fault.splits)

lemma verify_igvm_success:
  assumes "verify_igvm_measurement L G vr igvm = Inr v"
  shows "is_success v \<longleftrightarrow> igvm_matches L G (cl_launch_digest (vr_claims vr)) igvm"
  using assms
  by (cases igvm)
    (auto simp: verify_igvm_measurement_def or_failure_def compare_launch_digest_def igvm_matches_def
      split: sum.splits fault.splits if_splits)

definition image_matches :: "lib \<Rightarrow> igvm_lib \<Rightarrow> bool \<Rightarrow> string + bytes \<Rightarrow> string + bytes \<Rightarrow> bool" where
  "image_matches L G oc igvm disk \<longleftrightarrow>
     (\<exists>b f cmdline h h'. igvm = Inr b \<and> igvm_parse G b = Inr f \<and> kernel_cmdline f = Inr cmdline
        \<and> roothash_from_cmdline cmdline = Inr h \<and> stored_roothash L oc disk = Inr h'
        \<and> eq_ignore_ascii_case h h')"

lemma verify_image_success:
  assumes "verify_image_roothash L G oc igvm disk = Inr v"
  shows "is_success v \<longleftrightarrow> image_matches L G oc igvm disk"
  using assms
  by (cases igvm)
    (auto simp: verify_image_roothash_def or_failure_def compare_roothash_def image_matches_def
      split: sum.splits fault.splits if_splits)

lemma find_map_first:
  "f x = Some y \<Longrightarrow> \<forall>a \<in> set as. f a = None \<Longrightarrow> find_map f (as @ x # bs) = Some y"
  by (induction as) auto

lemma find_map_Some:
  "find_map f xs = Some y \<Longrightarrow> \<exists>as x bs. xs = as @ x # bs \<and> f x = Some y \<and> (\<forall>a \<in> set as. f a = None)"
proof (induction xs)
  case (Cons x xs)
  show ?case
  proof (cases "f x")
    case None
    then obtain as z bs where "xs = as @ z # bs" "f z = Some y" "\<forall>a \<in> set as. f a = None"
      using Cons by auto
    then show ?thesis using None by (intro exI [of _ "x # as"] exI [of _ z] exI [of _ bs]) simp
  next
    case (Some z)
    then show ?thesis using Cons.prems by (intro exI [of _ "[]"] exI [of _ x] exI [of _ xs]) simp
  qed
qed simp

lemma list_ex_not: "(\<not> list_ex (\<lambda>x. \<not> P x) xs) \<longleftrightarrow> list_all P xs"
  by (simp add: list_ex_iff list_all_iff)

text \<open>The steps of a run of \<open>verify\<close> that returns a report.\<close>

lemma verify_steps:
  assumes "verify L G oc att fs args = Inr rep"
  obtains build p vr ar ig im where
    "from_dir fs = Inr build" "from_json L (bu_provenance_bytes build) = Inr p"
    "att (bu_evidence_bytes build) = Inr vr"
    "verify_artifacts L p (bu_top_level build) (bu_artifacts build) = Inr ar"
    "opt_check (va_igvm args) (verify_igvm_measurement L G vr) = Inr ig"
    "(case (va_igvm args, va_image args) of
        (Some igvm, Some disk) \<Rightarrow> map_ok (\<lambda>v. [v]) (verify_image_roothash L G oc igvm disk)
      | _ \<Rightarrow> Inr []) = Inr im"
    "vp_passed rep \<longleftrightarrow> is_success (verify_signature vr) \<and> is_success (verify_predicate p)
       \<and> is_success (verify_provenance L vr p) \<and> list_all is_success (ar_results ar)
       \<and> (\<forall>n. va_nonce args = Some n \<longrightarrow> is_success (verify_nonce L vr n))
       \<and> list_all is_success ig \<and> list_all is_success im"
    "vp_warnings rep = ar_warnings ar"
  using assms
  by (auto simp: verify_def Let_def opt_check_def list_ex_not split: option.splits)

lemma panics_or_failure:
  "panics (or_failure h m k) \<longleftrightarrow> panics m \<or> (\<exists>x. m = Inr x \<and> panics (k x))"
  by (auto simp: or_failure_def panics_def split: sum.splits fault.splits)

lemma panics_opt_check: "panics (opt_check m k) \<longleftrightarrow> (\<exists>x. m = Some x \<and> panics (k x))"
  by (cases m) (auto simp: opt_check_def)

lemma from_json_no_panic [simp]: "\<not> panics (from_json L b)"
  by (simp add: from_json_def)

lemma map_err_Fail_no_panic [simp]: "\<not> panics (map_err Fail m)"
  by (cases m) simp_all

lemma panics_from_dir: "\<not> panics (from_dir fs)"
  by (auto simp: from_dir_def panics_bnd)

lemma roothash_from_cmdline_no_panic [simp]: "\<not> panics (roothash_from_cmdline c)"
  by (simp add: roothash_from_cmdline_def)

section \<open>Sample run\<close>

definition sample_nonce :: bytes where "sample_nonce = replicate 15 0 @ [1]"

definition sample_result :: verification_result where
  "sample_result = \<lparr>vr_signature_valid = True,
     vr_claims = \<lparr>cl_signed_data = checksum sample_lib sample_provenance @ sample_nonce, cl_launch_digest = []\<rparr>\<rparr>"

definition sample_fs :: build_fs where
  "sample_fs = \<lparr>fs_canonical = Inr (), fs_evidence = Inr [],
     fs_provenance = Inr (as_bytes (to_json sample_lib sample_provenance)),
     fs_top = Inr [Inr \<lparr>le_entry = sample_entry, le_is_file = Inr True\<rparr>],
     fs_artifacts_is_dir = False, fs_artifacts = Inr []\<rparr>"

definition sample_args :: verify_args where
  "sample_args = \<lparr>va_nonce = Some (hex_of sample_nonce), va_igvm = None, va_image = None\<rparr>"

lemma sample_artifacts_ok:
  obtains ar where "verify_artifacts sample_lib sample_provenance [sample_entry] [] = Inr ar"
    "list_all is_success (ar_results ar)"
proof -
  have "is_ok (verify_artifacts sample_lib sample_provenance [sample_entry] [])"
    unfolding is_ok_verify_artifacts
    by (subst sample_subjects) (simp add: sample_copies, simp add: sample_entry_def)
  then obtain ar where ar: "verify_artifacts sample_lib sample_provenance [sample_entry] [] = Inr ar"
    by (auto simp: is_ok_iff)
  have "list_all is_success (ar_results ar)"
    unfolding verify_artifacts_success [OF ar]
    by (subst sample_subjects) (simp add: sample_copies sample_copy_matches)
  then show ?thesis using that ar by blast
qed

lemma sample_run:
  "\<exists>rep. verify sample_lib G oc (\<lambda>_. Inr sample_result) sample_fs sample_args = Inr rep"
proof -
  obtain ar where "verify_artifacts sample_lib sample_provenance [sample_entry] [] = Inr ar"
    by (rule sample_artifacts_ok)
  moreover have "from_json sample_lib (as_bytes (to_json sample_lib sample_provenance)) = Inr sample_provenance"
    by (rule from_json_to_json [OF sample_json_ok sample_wf])
  ultimately show ?thesis
    by (simp add: verify_def from_dir_def sample_fs_def sample_args_def plain_files_def opt_check_def Let_def)
qed

lemma sample_nonce_matches:
  "nonce_matches sample_lib (checksum sample_lib sample_provenance @ sample_nonce) (hex_of sample_nonce)"
  by (simp add: nonce_matches_def hex_to_hex_of sample_nonce_def checksum_def toy_digest_def)

section \<open>Properties\<close>

text \<open>
  C1. The verdict. When \<open>verify\<close> reports, it reports PASSED exactly when the hardware signature is
  valid, the provenance is an in-toto SLSA statement, the zero-extended first 32 bytes of the
  attested data are its checksum, every subject is present and every copy of it has the recorded
  digest, and, for each option given, the nonce is the attested one, the launch digest of the IGVM
  file is the attested one, and the root hash in its kernel command line is the disk's.
\<close>

theorem verify_passed_iff:
  assumes "verify L G oc att fs args = Inr rep"
  shows "\<exists>build p vr. from_dir fs = Inr build \<and> from_json L (bu_provenance_bytes build) = Inr p
    \<and> att (bu_evidence_bytes build) = Inr vr
    \<and> (vp_passed rep \<longleftrightarrow>
         vr_signature_valid vr
         \<and> pv_predicate_type p = slsa_predicate_type \<and> pv_type p = statement_type
         \<and> length (checksum L p) = 32 \<and> pad_to 32 (cl_signed_data (vr_claims vr)) = checksum L p
         \<and> (\<forall>s \<in> set (pv_subject p). copies (bu_top_level build) (bu_artifacts build) s \<noteq> [] \<and>
              list_all (copy_matches L s) (copies (bu_top_level build) (bu_artifacts build) s))
         \<and> (\<forall>n. va_nonce args = Some n \<longrightarrow> nonce_matches L (cl_signed_data (vr_claims vr)) n)
         \<and> (\<forall>i. va_igvm args = Some i \<longrightarrow> igvm_matches L G (cl_launch_digest (vr_claims vr)) i)
         \<and> (\<forall>i d. va_igvm args = Some i \<and> va_image args = Some d \<longrightarrow> image_matches L G oc i d))"
proof -
  obtain build p vr ar ig im where s:
    "from_dir fs = Inr build" "from_json L (bu_provenance_bytes build) = Inr p"
    "att (bu_evidence_bytes build) = Inr vr"
    "verify_artifacts L p (bu_top_level build) (bu_artifacts build) = Inr ar"
    "opt_check (va_igvm args) (verify_igvm_measurement L G vr) = Inr ig"
    "(case (va_igvm args, va_image args) of
        (Some igvm, Some disk) \<Rightarrow> map_ok (\<lambda>v. [v]) (verify_image_roothash L G oc igvm disk)
      | _ \<Rightarrow> Inr []) = Inr im"
    "vp_passed rep \<longleftrightarrow> is_success (verify_signature vr) \<and> is_success (verify_predicate p)
       \<and> is_success (verify_provenance L vr p) \<and> list_all is_success (ar_results ar)
       \<and> (\<forall>n. va_nonce args = Some n \<longrightarrow> is_success (verify_nonce L vr n))
       \<and> list_all is_success ig \<and> list_all is_success im"
    using assms by (rule verify_steps)
  have ig: "list_all is_success ig \<longleftrightarrow>
      (\<forall>i. va_igvm args = Some i \<longrightarrow> igvm_matches L G (cl_launch_digest (vr_claims vr)) i)"
    using s(5) verify_igvm_success by (cases "va_igvm args") (auto simp: opt_check_def)
  have im: "list_all is_success im \<longleftrightarrow>
      (\<forall>i d. va_igvm args = Some i \<and> va_image args = Some d \<longrightarrow> image_matches L G oc i d)"
    using s(6) verify_image_success by (cases "va_igvm args"; cases "va_image args") auto
  have sig: "is_success (verify_signature vr) \<longleftrightarrow> vr_signature_valid vr"
    by (simp add: verify_signature_def)
  show ?thesis
    using s(1-3,7) ig im sig verify_artifacts_success [OF s(4)]
    by (simp add: verify_predicate_success verify_provenance_def compare_checksum_success verify_nonce_success)
qed

theorem verify_passed_iff_witness:
  "\<exists>rep. verify sample_lib sample_igvm_lib False (\<lambda>_. Inr sample_result) sample_fs sample_args = Inr rep
     \<and> vp_passed rep"
proof -
  obtain rep where rep: "verify sample_lib sample_igvm_lib False (\<lambda>_. Inr sample_result) sample_fs sample_args = Inr rep"
    using sample_run by blast
  have dir: "from_dir sample_fs = Inr \<lparr>bu_provenance_bytes = as_bytes (to_json sample_lib sample_provenance),
      bu_evidence_bytes = [], bu_top_level = [sample_entry], bu_artifacts = []\<rparr>"
    by (simp add: from_dir_def sample_fs_def plain_files_def)
  have js: "from_json sample_lib (as_bytes (to_json sample_lib sample_provenance)) = Inr sample_provenance"
    by (rule from_json_to_json [OF sample_json_ok sample_wf])
  have "length (checksum sample_lib sample_provenance) = 32" by (simp add: checksum_def toy_digest_def)
  moreover have "pad_to 32 (checksum sample_lib sample_provenance @ sample_nonce) = checksum sample_lib sample_provenance"
    by (simp add: pad_to_def checksum_def toy_digest_def)
  moreover have "\<forall>s \<in> set (pv_subject sample_provenance). copies [sample_entry] [] s \<noteq> [] \<and>
      list_all (copy_matches sample_lib s) (copies [sample_entry] [] s)"
    by (subst sample_subjects) (simp add: sample_copies sample_copy_matches)
  ultimately have "vp_passed rep"
    using verify_passed_iff [OF rep] sample_nonce_matches
    by (auto simp: dir js sample_result_def sample_args_def)
      (simp_all add: sample_provenance_def)
  then show ?thesis using rep by blast
qed

text \<open>
  A verdict of FAILED is not an error: the command returns normally and the process exits with
  status 0, here when the hardware signature is invalid.
\<close>

theorem failed_verdict_exits_zero:
  "\<exists>vr rep. \<not> vr_signature_valid vr
     \<and> verify sample_lib sample_igvm_lib False (\<lambda>_. Inr vr) sample_fs sample_args = Inr rep
     \<and> \<not> vp_passed rep
     \<and> exit_status (verify sample_lib sample_igvm_lib False (\<lambda>_. Inr vr) sample_fs sample_args) = 0"
proof -
  define vr where "vr = sample_result\<lparr>vr_signature_valid := False\<rparr>"
  obtain ar where "verify_artifacts sample_lib sample_provenance [sample_entry] [] = Inr ar"
    by (rule sample_artifacts_ok)
  moreover have "from_json sample_lib (as_bytes (to_json sample_lib sample_provenance)) = Inr sample_provenance"
    by (rule from_json_to_json [OF sample_json_ok sample_wf])
  ultimately obtain rep where "verify sample_lib sample_igvm_lib False (\<lambda>_. Inr vr) sample_fs sample_args = Inr rep"
      "\<not> vp_passed rep"
    by (simp add: verify_def from_dir_def sample_fs_def sample_args_def plain_files_def opt_check_def Let_def
        verify_signature_def vr_def)
  moreover have "\<not> vr_signature_valid vr" by (simp add: vr_def)
  ultimately show ?thesis by (intro exI [of _ vr] exI [of _ rep]) (simp add: exit_status_def)
qed

text \<open>
  The formatting of \<open>provenance.json\<close> does not matter: two texts that read as the same statement
  (other white space, another order of the keys, unknown keys) give the same report, because the
  checksum is taken of the statement written anew.
\<close>

theorem reformatted_provenance_verifies_alike:
  assumes "from_json L b = from_json L b'"
  shows "verify L G oc att (fs\<lparr>fs_provenance := Inr b\<rparr>) args = verify L G oc att (fs\<lparr>fs_provenance := Inr b'\<rparr>) args"
  using assms
  by (cases "fs_canonical fs"; cases "fs_evidence fs"; cases "fs_top fs")
    (auto simp: verify_def from_dir_def intro!: arg_cong2 [where f = bnd])

definition reversed_members :: "json \<Rightarrow> json" where
  "reversed_members v = (case v of JObj kvs \<Rightarrow> JObj ((''comment'', JNull) # rev kvs) | _ \<Rightarrow> v)"

lemma reversed_reads:
  "from_json sample_lib (as_bytes (tlv (reversed_members (provenance_to_j p)))) = Inr p"
proof -
  have "provenance_of_j (reversed_members (provenance_to_j p)) = Some p"
    by (simp add: reversed_members_def provenance_to_j_def provenance_of_j_def
      serde_defs predicate_serde.of_to subject_serde.vec_roundtrip)
  then show ?thesis by (simp add: from_json_def tlv_roundtrip)
qed

theorem reformatted_provenance_verifies_alike_witness:
  "as_bytes (tlv (reversed_members (provenance_to_j sample_provenance)))
     \<noteq> as_bytes (to_json sample_lib sample_provenance)
   \<and> verify sample_lib sample_igvm_lib False (\<lambda>_. Inr sample_result)
       (sample_fs\<lparr>fs_provenance := Inr (as_bytes (tlv (reversed_members (provenance_to_j sample_provenance))))\<rparr>) sample_args
     = verify sample_lib sample_igvm_lib False (\<lambda>_. Inr sample_result)
       (sample_fs\<lparr>fs_provenance := Inr (as_bytes (to_json sample_lib sample_provenance))\<rparr>) sample_args"
proof
  have "tlv_parse (as_bytes (tlv (reversed_members (provenance_to_j sample_provenance))))
      \<noteq> tlv_parse (as_bytes (tlv (provenance_to_j sample_provenance)))"
    unfolding tlv_roundtrip by (simp add: reversed_members_def provenance_to_j_def)
  then show "as_bytes (tlv (reversed_members (provenance_to_j sample_provenance)))
     \<noteq> as_bytes (to_json sample_lib sample_provenance)"
    by (auto simp: to_json_def)
  show "verify sample_lib sample_igvm_lib False (\<lambda>_. Inr sample_result)
       (sample_fs\<lparr>fs_provenance := Inr (as_bytes (tlv (reversed_members (provenance_to_j sample_provenance))))\<rparr>) sample_args
     = verify sample_lib sample_igvm_lib False (\<lambda>_. Inr sample_result)
       (sample_fs\<lparr>fs_provenance := Inr (as_bytes (to_json sample_lib sample_provenance))\<rparr>) sample_args"
    by (rule reformatted_provenance_verifies_alike)
      (simp only: reversed_reads from_json_to_json [OF sample_json_ok sample_wf])
qed

end
