(* ===== verification/Attestation.thy ===== *)
theory Attestation
  imports Provenance Api Verify
begin

text \<open>
  \<open>kettle attest\<close> (\<open>src/src/commands/attest.rs\<close>): the nonce decoder, the 48 bytes of report data,
  the command that builds, attests and writes the evidence, and the embedding of the VCEK in SNP
  evidence. The attestation library, the \<open>sev\<close> report parser and base64 are parameters.
\<close>

section \<open>Nonce and report data\<close>

definition decode_nonce :: "lib \<Rightarrow> string \<Rightarrow> bytes res" where
  "decode_nonce L nonce_string =
     bnd (map_err Fail (hex_decode L (remove_char CHR ''-'' nonce_string))) (\<lambda>b.
     if length b = 16 then Inr b
     else Inl (Fail (''Nonce '' @ nonce_string @ '' must be exactly 16 bytes (32 hex chars); got ''
                     @ dec (length b) @ '' bytes'')))"

text \<open>\<open>copy_from_slice\<close> panics when the lengths differ.\<close>

definition copy_into :: "bytes \<Rightarrow> nat \<Rightarrow> nat \<Rightarrow> bytes \<Rightarrow> bytes res" where
  "copy_into buf lo hi src =
     (if lo \<le> hi \<and> hi \<le> length buf \<and> length src = hi - lo then Inr (put_at lo src buf)
      else Inl (Panic ''copy_from_slice: source slice length does not match destination''))"

definition report_data :: "lib \<Rightarrow> provenance \<Rightarrow> string option \<Rightarrow> bytes res" where
  "report_data L p nonce =
     bnd (copy_into (replicate 48 0) 0 32 (checksum L p)) (\<lambda>rd.
     (case nonce of
        None \<Rightarrow> Inr rd
      | Some s \<Rightarrow> bnd (decode_nonce L s) (\<lambda>n. copy_into rd 32 48 n)))"

section \<open>JSON values in memory\<close>

text \<open>
  \<open>serde_json::Value\<close> with \<open>preserve_order\<close>: members keep the place of their first occurrence and
  the value of their last.
\<close>

fun jset :: "string \<Rightarrow> json \<Rightarrow> (string \<times> json) list \<Rightarrow> (string \<times> json) list" where
  "jset k v [] = [(k, v)]"
| "jset k v ((j, w) # m) = (if j = k then (k, v) # m else (j, w) # jset k v m)"

definition dedupe :: "(string \<times> json) list \<Rightarrow> (string \<times> json) list" where
  "dedupe kvs = fold (\<lambda>(k, v). jset k v) kvs []"

fun to_value :: "json \<Rightarrow> json" where
  "to_value (JArr vs) = JArr (map to_value vs)"
| "to_value (JObj kvs) = JObj (dedupe (map (\<lambda>(k, v). (k, to_value v)) kvs))"
| "to_value v = v"

definition jget :: "string \<Rightarrow> json \<Rightarrow> json option" where
  "jget k v = (case v of JObj kvs \<Rightarrow> map_of kvs k | _ \<Rightarrow> None)"

definition jput :: "string \<Rightarrow> json \<Rightarrow> json \<Rightarrow> json" where
  "jput k x v = (case v of JObj kvs \<Rightarrow> JObj (jset k x kvs) | _ \<Rightarrow> v)"

section \<open>The VCEK\<close>

record snp_tcb =
  tcb_bootloader :: u8
  tcb_tee :: u8
  tcb_snp :: u8
  tcb_microcode :: u8
  tcb_fmc :: "u8 option"

record snp_report =
  sp_cpuid_fam :: "u8 option"
  sp_cpuid_mod :: "u8 option"
  sp_chip_id :: bytes
  sp_reported_tcb :: snp_tcb

record attest_lib =
  b64_encode :: "bytes \<Rightarrow> string"
  b64_decode :: "string \<Rightarrow> string + bytes"
  report_from_bytes :: "bytes \<Rightarrow> string + snp_report"
  gen_from_cpuid :: "u8 \<Rightarrow> u8 \<Rightarrow> string option"
  get_snp_vcek :: "string \<Rightarrow> bytes \<Rightarrow> snp_tcb \<Rightarrow> string + bytes"

definition unwrap_or :: "'a \<Rightarrow> 'a option \<Rightarrow> 'a" where
  "unwrap_or d m = (case m of None \<Rightarrow> d | Some x \<Rightarrow> x)"

text \<open>The trusted computing base asked for: the firmware mitigation level only on Turin.\<close>

definition vcek_tcb :: "string \<Rightarrow> snp_tcb \<Rightarrow> snp_tcb" where
  "vcek_tcb gen tcb = \<lparr>tcb_bootloader = tcb_bootloader tcb, tcb_tee = tcb_tee tcb, tcb_snp = tcb_snp tcb,
     tcb_microcode = tcb_microcode tcb, tcb_fmc = (if gen = ''Turin'' then tcb_fmc tcb else None)\<rparr>"

definition fetch_vcek :: "attest_lib \<Rightarrow> json \<Rightarrow> bytes res" where
  "fetch_vcek A evidence =
     bnd (need (Fail ''attestation_report missing'')
            (Option.bind (jget ''attestation_report'' evidence) str_of_j)) (\<lambda>report_b64.
     bnd (map_err (\<lambda>e. Fail (''report base64: '' @ e)) (b64_decode A report_b64)) (\<lambda>report_bytes.
     bnd (map_err (\<lambda>e. Fail (''SNP report parse: '' @ e)) (report_from_bytes A report_bytes)) (\<lambda>report.
     let fam = unwrap_or 0 (sp_cpuid_fam report); mdl = unwrap_or 0 (sp_cpuid_mod report) in
     bnd (need (Fail (''unknown SNP processor family=0x'' @ hexlow (unat fam) @ '' model=0x'' @ hexlow (unat mdl)))
            (gen_from_cpuid A fam mdl)) (\<lambda>gen.
     bnd (copy_into (replicate 64 0) 0 64 (sp_chip_id report)) (\<lambda>chip_id.
     map_err (\<lambda>e. Fail (''VCEK fetch from AMD KDS failed: '' @ e))
       (get_snp_vcek A gen chip_id (vcek_tcb gen (sp_reported_tcb report))))))))"

definition embed_snp_vcek :: "lib \<Rightarrow> attest_lib \<Rightarrow> bytes \<Rightarrow> bytes res" where
  "embed_snp_vcek L A evidence_json =
     bnd (need (Fail (serde_msg L evidence_json)) (map_option to_value (json_parse L evidence_json))) (\<lambda>envelope.
     if Option.bind (jget ''platform'' envelope) str_of_j \<noteq> Some ''snp'' then Inr evidence_json
     else
       bnd (need (Fail ''evidence missing'') (jget ''evidence'' envelope)) (\<lambda>evidence.
       if jget ''cert_chain'' evidence \<noteq> Some JNull then Inr evidence_json
       else
         bnd (fetch_vcek A evidence) (\<lambda>vcek_der.
         let chain = JObj [(''vcek'', JStr (b64_encode A vcek_der)), (''ask'', JNull), (''ark'', JNull)]
         in Inr (as_bytes (json_compact L (jput ''evidence'' (jput ''cert_chain'' chain evidence) envelope))))))"

section \<open>The command\<close>

text \<open>
  The world \<open>attest_with_sink\<close> runs in: the outcome of the build, the platform detected, the
  provenance the build wrote, the attestation library's \<open>attest\<close>, and whether evidence can be written.
\<close>

record attest_env =
  ae_build :: "unit res"
  ae_detect :: "string option"
  ae_provenance :: "string + bytes"
  ae_attest :: "string \<Rightarrow> bytes \<Rightarrow> bytes option"
  ae_write :: "bytes \<Rightarrow> string + unit"

text \<open>
  The result is the evidence written. The events handed to the sink are returned beside it, also when
  the command fails.
\<close>

definition attest_with_sink ::
  "lib \<Rightarrow> attest_lib \<Rightarrow> attest_env \<Rightarrow> string option \<Rightarrow> event list \<times> bytes res" where
  "attest_with_sink L A env nonce =
     (case ae_build env of
        Inl e \<Rightarrow> ([], Inl e)
      | Inr _ \<Rightarrow>
     (case ae_detect env of
        None \<Rightarrow> ([], Inl (Panic ''no TEE platform detected''))
      | Some platform \<Rightarrow>
     let ev1 = Attest (''Running on platform: '' @ platform) in
     (case bnd (map_err Fail (ae_provenance env)) (from_json L) of
        Inl e \<Rightarrow> ([ev1], Inl e)
      | Inr p \<Rightarrow>
     let ev2 = Attest (''Attesting provenance.json (checksum '' @ hex_encode L (checksum L p) @ '')'');
         outcome = bnd (report_data L p nonce) (\<lambda>rd.
           bnd (need (Panic ''attestation failed'') (ae_attest env platform rd)) (\<lambda>evidence.
           bnd (embed_snp_vcek L A evidence) (\<lambda>embedded.
           bnd (map_err Fail (ae_write env embedded)) (\<lambda>_. Inr embedded))))
     in (case outcome of
           Inl e \<Rightarrow> ([ev1, ev2], Inl e)
         | Inr written \<Rightarrow>
             ([ev1, ev2, Attest ''Attestation complete! evidence.json written''], Inr written)))))"

section \<open>Lemmas\<close>

lemma report_data_None:
  "digest_ok L \<Longrightarrow> report_data L p None = Inr (checksum L p @ replicate 16 0)"
  by (simp add: report_data_def copy_into_def checksum_def digest_lengths put_at_def)

lemma report_data_Some:
  "digest_ok L \<Longrightarrow> decode_nonce L s = Inr n \<Longrightarrow> report_data L p (Some s) = Inr (checksum L p @ n)"
  by (auto simp: report_data_def copy_into_def checksum_def digest_lengths put_at_def decode_nonce_def
      split: if_splits)

lemma decode_nonce_length: "decode_nonce L s = Inr n \<Longrightarrow> length n = 16"
  by (auto simp: decode_nonce_def split: if_splits)

lemma jset_map_of: "map_of (jset k v m) j = (if j = k then Some v else map_of m j)"
  by (induction k v m rule: jset.induct) auto

lemma jset_keys: "distinct (map fst m) \<Longrightarrow> distinct (map fst (jset k v m)) \<and> set (map fst (jset k v m)) = insert k (set (map fst m))"
  by (induction k v m rule: jset.induct) auto

lemma jget_jput: "is_obj = (\<exists>kvs. v = JObj kvs) \<Longrightarrow> jget j (jput k x v) = (if is_obj \<and> j = k then Some x else jget j v)"
  by (cases v) (auto simp: jget_def jput_def jset_map_of)

lemma dedupe_distinct: "distinct (map fst (dedupe kvs))"
proof -
  have "distinct (map fst (fold (\<lambda>(k, v). jset k v) kvs m))" if "distinct (map fst m)" for m
    using that
  proof (induction kvs arbitrary: m)
    case (Cons kv kvs)
    then show ?case using jset_keys [of m "fst kv" "snd kv"] by (simp add: case_prod_beta)
  qed simp
  then show ?thesis by (simp add: dedupe_def)
qed

text \<open>Stripping the report data keeps at least the checksum unless it ends in a zero and so does all that follows.\<close>

lemma strip_long:
  assumes "length c = 32" and "length n = 16"
  shows "32 \<le> length (strip_trailing_nulls (c @ n)) \<longleftrightarrow> n \<noteq> replicate 16 0 \<or> last c \<noteq> 0"
proof -
  have z: "dropWhile (\<lambda>x. x = 0) (rev n) = [] \<longleftrightarrow> n = replicate 16 0"
    using assms(2) by (auto simp: dropWhile_eq_Nil_conv intro!: replicate_eqI)
  have "c \<noteq> []" using assms(1) by auto
  then obtain d y where c: "c = d @ [y]" by (metis append_butlast_last_id)
  show ?thesis
  proof (cases "n = replicate 16 0")
    case True
    have "dropWhile (\<lambda>x. x = (0 :: u8)) (replicate 16 0 @ rev c) = dropWhile (\<lambda>x. x = 0) (rev c)"
      by (rule dropWhile_append2) simp
    then have s: "strip_trailing_nulls (c @ n) = rev (dropWhile (\<lambda>x. x = 0) (rev c))"
      by (simp add: strip_trailing_nulls_def True)
    show ?thesis
    proof (cases "y = 0")
      case True
      then have "length (strip_trailing_nulls (c @ n)) \<le> length d"
        using length_dropWhile_le [of "\<lambda>x. x = 0" "rev d"] unfolding s by (simp add: c)
      then show ?thesis using \<open>n = replicate 16 0\<close> True assms(1) by (simp add: c)
    next
      case False
      then show ?thesis using assms(1) \<open>n = replicate 16 0\<close> unfolding s by (simp add: c)
    qed
  next
    case False
    have "\<not> (\<forall>x \<in> set (rev n). x = 0)" using z False by (auto simp: dropWhile_eq_Nil_conv)
    then have "strip_trailing_nulls (c @ n) = c @ rev (dropWhile (\<lambda>x. x = 0) (rev n))"
      by (auto simp: strip_trailing_nulls_def dropWhile_append)
    then show ?thesis using False assms(1) by simp
  qed
qed

lemma strip_nonce:
  assumes "length c = 32" and "length n = 16" and "32 \<le> length (strip_trailing_nulls (c @ n))"
  shows "pad_to 16 (drop 32 (strip_trailing_nulls (c @ n))) = n"
  using pad_strip_drop [of 32 "c @ n"] assms by simp

lemma strip_checksum:
  "length c = 32 \<Longrightarrow> pad_to 32 (strip_trailing_nulls (c @ n)) = c"
  by (simp add: pad_strip)

lemma nonce_matches_stripped:
  assumes "length c = 32" and "length n = 16"
  shows "nonce_matches L (strip_trailing_nulls (c @ n)) t \<longleftrightarrow>
    hex_decode L t = Inr n \<and> (n \<noteq> replicate 16 0 \<or> last c \<noteq> 0)"
proof -
  have "length (strip_trailing_nulls (c @ n)) \<le> 48"
    using strip_length_le [of "c @ n"] assms by simp
  then show ?thesis
    using strip_long [OF assms] strip_nonce [OF assms] assms
    by (auto simp: nonce_matches_def split: sum.splits)
qed

section \<open>Properties\<close>

text \<open>
  C4. Attesting a statement and verifying it. When the library hands back the report data of
  \<open>attest\<close> without its trailing null bytes, the verifier accepts exactly the statements with the
  attested checksum, with or without a nonce; and it accepts exactly the attested nonce, except that
  an all-zero nonce after a checksum ending in a zero byte is reported missing.
\<close>

theorem attested_data_verifies:
  assumes "digest_ok L" and "decode_nonce L s = Inr n"
    and "report_data L p (Some s) = Inr rd"
    and "cl_signed_data (vr_claims vr) = strip_trailing_nulls rd"
  shows "(is_success (verify_provenance L vr q) \<longleftrightarrow> checksum L q = checksum L p)
    \<and> (is_success (verify_nonce L vr t) \<longleftrightarrow>
         hex_decode L t = Inr n \<and> (n \<noteq> replicate 16 0 \<or> last (checksum L p) \<noteq> 0))"
proof -
  have rd: "rd = checksum L p @ n" using report_data_Some [OF assms(1,2), of p] assms(3) by simp
  have len: "length (checksum L x) = 32" for x using assms(1) by (simp add: checksum_def digest_lengths)
  show ?thesis
    using nonce_matches_stripped [OF len decode_nonce_length [OF assms(2)], of L p t]
      strip_checksum [OF len, of p n] len
    by (auto simp: verify_provenance_def compare_checksum_success verify_nonce_success assms(4) rd)
qed

definition sample_report_result :: "bytes \<Rightarrow> verification_result" where
  "sample_report_result rd = \<lparr>vr_signature_valid = True,
     vr_claims = \<lparr>cl_signed_data = strip_trailing_nulls rd, cl_launch_digest = []\<rparr>\<rparr>"

lemma remove_char_hex: "remove_char CHR ''-'' (hex_of b) = hex_of b"
  by (rule remove_char_absent)
    (use hex_decode_no_dash [OF sample_hex_ok, of "hex_of b" b] in \<open>simp add: hex_to_hex_of\<close>)

lemma sample_decode: "length b = 16 \<Longrightarrow> decode_nonce sample_lib (hex_of b) = Inr b"
  by (simp add: decode_nonce_def remove_char_hex hex_to_hex_of)

theorem attested_data_verifies_witness:
  "is_success (verify_nonce sample_lib
     (sample_report_result (checksum sample_lib sample_provenance @ sample_nonce)) (hex_of sample_nonce))"
proof -
  have d: "decode_nonce sample_lib (hex_of sample_nonce) = Inr sample_nonce"
    by (rule sample_decode) (simp add: sample_nonce_def)
  have "sample_nonce \<noteq> replicate 16 0"
  proof
    assume "sample_nonce = replicate 16 0"
    then have "last sample_nonce = last (replicate 16 0)" by (rule arg_cong)
    then show False by (simp add: sample_nonce_def)
  qed
  then show ?thesis
    using attested_data_verifies [OF sample_digest_ok d report_data_Some [OF sample_digest_ok d],
        of "sample_report_result (checksum sample_lib sample_provenance @ sample_nonce)" sample_provenance
           sample_provenance "hex_of sample_nonce"]
    by (simp add: sample_report_result_def hex_to_hex_of)
qed

text \<open>
  The corner the zero-extension misses: a statement attested with the all-zero nonce, whose
  checksum ends in a zero byte, fails verification with that nonce, though checksum and nonce are
  the attested ones.
\<close>

definition zero_digest_lib :: lib where
  "zero_digest_lib = sample_lib\<lparr>sha256 := (\<lambda>_. replicate 31 7 @ [0])\<rparr>"

theorem zero_nonce_reported_missing:
  "\<exists>rd. report_data zero_digest_lib p (Some (hex_of (replicate 16 0))) = Inr rd
     \<and> is_success (verify_provenance zero_digest_lib (sample_report_result rd) p)
     \<and> \<not> is_success (verify_nonce zero_digest_lib (sample_report_result rd) (hex_of (replicate 16 0)))"
proof -
  have dig: "digest_ok zero_digest_lib"
    using sample_digest_ok by (simp add: digest_ok_def zero_digest_lib_def)
  have hd: "hex_decode zero_digest_lib = hex_decode sample_lib" by (simp add: zero_digest_lib_def)
  have d: "decode_nonce zero_digest_lib (hex_of (replicate 16 0)) = Inr (replicate 16 0)"
    using sample_decode [of "replicate 16 0"] by (simp add: decode_nonce_def hd)
  have c: "checksum zero_digest_lib p = replicate 31 7 @ [0]"
    by (simp add: checksum_def zero_digest_lib_def)
  have len: "length (checksum zero_digest_lib p) = 32" by (simp add: c)
  have "\<not> nonce_matches zero_digest_lib (strip_trailing_nulls (checksum zero_digest_lib p @ replicate 16 0))
      (hex_of (replicate 16 0))"
    using nonce_matches_stripped [OF len, of "replicate 16 0"] by (simp add: c)
  then show ?thesis
    using report_data_Some [OF dig d, of p] strip_checksum [OF len] len
    by (simp add: verify_nonce_success verify_provenance_def compare_checksum_success sample_report_result_def)
qed

text \<open>
  \<open>attest\<close> takes a nonce with dashes, such as a UUID, for the nonce without them; \<open>verify\<close> takes
  no nonce with a dash, so the text given to \<open>attest\<close> may fail to verify.
\<close>

theorem dashed_nonces:
  assumes "hex_ok L" and "CHR ''-'' \<in> set s"
  shows "(is_ok (decode_nonce L s) \<longleftrightarrow> is_ok (decode_nonce L (remove_char CHR ''-'' s)))
    \<and> \<not> is_success (verify_nonce L vr s)"
proof
  have rr: "remove_char CHR ''-'' (remove_char CHR ''-'' s) = remove_char CHR ''-'' s"
    by (rule remove_char_absent) (simp add: remove_char_def)
  show "is_ok (decode_nonce L s) \<longleftrightarrow> is_ok (decode_nonce L (remove_char CHR ''-'' s))"
    by (cases "hex_decode L (remove_char CHR ''-'' s)") (simp_all add: decode_nonce_def rr)
  show "\<not> is_success (verify_nonce L vr s)"
    using hex_decode_no_dash [OF assms(1)] assms(2)
    by (auto simp: verify_nonce_success nonce_matches_def split: sum.splits)
qed

definition sample_uuid :: string where
  "sample_uuid = ''00010203-04050607-08090a0b-0c0d0e0f''"

lemma sample_uuid_decodes: "is_ok (decode_nonce sample_lib sample_uuid)"
  by (simp add: decode_nonce_def sample_uuid_def remove_char_def digit_val_def)

theorem dashed_nonces_witness:
  "is_ok (decode_nonce sample_lib (remove_char CHR ''-'' sample_uuid))
   \<and> \<not> is_success (verify_nonce sample_lib sample_result sample_uuid)"
  using dashed_nonces [OF sample_hex_ok, of sample_uuid sample_result] sample_uuid_decodes
  by (simp add: sample_uuid_def)

text \<open>
  Embedding the VCEK changes the certificate chain and nothing else. The evidence is returned as
  it is unless its platform is \<open>snp\<close> and its chain is null; then the envelope written has the fetched
  key as \<open>vcek\<close> with null \<open>ask\<close> and \<open>ark\<close>, and every other member of envelope and evidence is kept.
\<close>

theorem embed_touches_only_chain:
  assumes "embed_snp_vcek L A e = Inr out"
  shows "out = e \<or>
    (\<exists>env ev der env' ev'. map_option to_value (json_parse L e) = Some env
       \<and> jget ''platform'' env = Some (JStr ''snp'') \<and> jget ''evidence'' env = Some ev
       \<and> jget ''cert_chain'' ev = Some JNull \<and> fetch_vcek A ev = Inr der
       \<and> out = as_bytes (json_compact L env')
       \<and> (\<forall>k. jget k env' = (if k = ''evidence'' then Some ev' else jget k env))
       \<and> (\<forall>k. jget k ev' = (if k = ''cert_chain''
            then Some (JObj [(''vcek'', JStr (b64_encode A der)), (''ask'', JNull), (''ark'', JNull)])
            else jget k ev)))"
proof (cases "out = e")
  case False
  obtain env where env: "map_option to_value (json_parse L e) = Some env"
    using assms by (auto simp: embed_snp_vcek_def)
  have plat: "jget ''platform'' env = Some (JStr ''snp'')"
    using assms env False
    by (auto simp: embed_snp_vcek_def str_of_j_def bind_eq_Some_conv split: if_splits json.splits)
  obtain ev where ev: "jget ''evidence'' env = Some ev"
    using assms env plat by (auto simp: embed_snp_vcek_def str_of_j_def)
  have chain: "jget ''cert_chain'' ev = Some JNull"
    using assms env plat ev False by (auto simp: embed_snp_vcek_def str_of_j_def split: if_splits)
  obtain der where der: "fetch_vcek A ev = Inr der"
    using assms env plat ev chain by (auto simp: embed_snp_vcek_def str_of_j_def)
  let ?chain = "JObj [(''vcek'', JStr (b64_encode A der)), (''ask'', JNull), (''ark'', JNull)]"
  have out: "out = as_bytes (json_compact L (jput ''evidence'' (jput ''cert_chain'' ?chain ev) env))"
    using assms env plat ev chain der by (simp add: embed_snp_vcek_def str_of_j_def Let_def)
  have obj: "\<exists>kvs. env = JObj kvs" "\<exists>kvs. ev = JObj kvs"
    using ev chain by (auto simp: jget_def split: json.splits)
  have "\<forall>k. jget k (jput ''evidence'' (jput ''cert_chain'' ?chain ev) env) =
      (if k = ''evidence'' then Some (jput ''cert_chain'' ?chain ev) else jget k env)"
    using jget_jput [of True env] obj(1) by simp
  moreover have "\<forall>k. jget k (jput ''cert_chain'' ?chain ev) = (if k = ''cert_chain'' then Some ?chain else jget k ev)"
    using jget_jput [of True ev] obj(2) by simp
  ultimately show ?thesis using env plat ev chain der out by blast
qed simp

definition sample_attest_lib :: attest_lib where
  "sample_attest_lib = \<lparr>b64_encode = hex_of,
     b64_decode = (\<lambda>s. case hex_to s of None \<Rightarrow> Inl ''invalid'' | Some b \<Rightarrow> Inr b),
     report_from_bytes = (\<lambda>b. Inr \<lparr>sp_cpuid_fam = Some 0x19, sp_cpuid_mod = Some 1, sp_chip_id = replicate 64 3,
        sp_reported_tcb = \<lparr>tcb_bootloader = 1, tcb_tee = 0, tcb_snp = 2, tcb_microcode = 3, tcb_fmc = Some 4\<rparr>\<rparr>),
     gen_from_cpuid = (\<lambda>f m. Some ''Milan''), get_snp_vcek = (\<lambda>g c t. Inr [0x30])\<rparr>"

definition sample_evidence :: json where
  "sample_evidence = JObj [(''platform'', JStr ''snp''),
     (''evidence'', JObj [(''attestation_report'', JStr ''00ff''), (''cert_chain'', JNull)])]"

definition sample_embedded :: json where
  "sample_embedded = JObj [(''platform'', JStr ''snp''),
       (''evidence'', JObj [(''attestation_report'', JStr ''00ff''),
          (''cert_chain'', JObj [(''vcek'', JStr ''30''), (''ask'', JNull), (''ark'', JNull)])])]"

lemma sample_embeds:
  "embed_snp_vcek sample_lib sample_attest_lib (as_bytes (tlv sample_evidence)) =
     Inr (as_bytes (tlv sample_embedded))"
proof -
  have "json_parse sample_lib (as_bytes (tlv sample_evidence)) = Some sample_evidence"
    by (simp add: tlv_roundtrip)
  moreover have "to_value sample_evidence = sample_evidence"
    by (simp add: sample_evidence_def dedupe_def)
  moreover have "hex_of [0x30] = ''30''" by (simp add: hex_of_def hex_digit_def char_of_eq_iff)
  moreover have "fetch_vcek sample_attest_lib
      (JObj [(''attestation_report'', JStr ''00ff''), (''cert_chain'', JNull)]) = Inr [0x30]"
    by (simp add: fetch_vcek_def sample_attest_lib_def jget_def str_of_j_def digit_val_def unwrap_or_def
        copy_into_def Let_def)
  ultimately show ?thesis
    by (simp add: embed_snp_vcek_def sample_evidence_def jget_def str_of_j_def jput_def Let_def
        sample_attest_lib_def del: sample_lib_simps(8)) (simp add: sample_evidence_def sample_embedded_def)
qed

lemma tlv_inject: "as_bytes (tlv v) = as_bytes (tlv w) \<longleftrightarrow> v = w"
  by (metis option.inject tlv_roundtrip)

theorem embed_touches_only_chain_witness:
  "\<exists>env'. as_bytes (tlv sample_embedded) = as_bytes (tlv env') \<and> jget ''platform'' env' = Some (JStr ''snp'')"
proof -
  have "as_bytes (tlv sample_embedded) \<noteq> as_bytes (tlv sample_evidence)"
    unfolding tlv_inject by (simp add: sample_embedded_def sample_evidence_def)
  then show ?thesis using embed_touches_only_chain [OF sample_embeds] by auto
qed

end
