(* ===== verification/Nix.thy ===== *)
theory Nix
  imports Runner Cargo Attestation
begin

text \<open>
  The Nix driver, \<open>src/src/toolchain/nix.rs\<close>: \<open>flake.lock\<close>, the fixed-output derivations of the
  evaluated graph, the executables of the store paths built, and its instance of the driver contract.
\<close>

section \<open>Data\<close>

record flake_dep =
  fd_name :: string
  fd_nar_hash :: "string option"

record fetch_entry =
  fe_name :: string
  fe_drv_path :: string
  fe_output_hash :: string
  fe_output_hash_algo :: string
  fe_output_hash_mode :: "string option"
  fe_url :: "string option"
  fe_urls :: "string option"

definition nix_BUILD_ARGS :: "string list" where
  "nix_BUILD_ARGS = [''build'', ''--no-link'', ''--print-out-paths'', ''--extra-experimental-features'',
     ''nix-command'', ''--extra-experimental-features'', ''flakes'']"

record nix_inputs =
  ni_kettle_version :: string
  ni_kettle_hash :: string
  ni_nix_version :: string
  ni_nix_hash :: string
  ni_lockfile_hash :: string
  ni_flake_deps :: "flake_dep list"
  ni_fetches :: "fetch_entry list"
  ni_derivation_count :: nat

section \<open>The lock file\<close>

definition parse_value :: "lib \<Rightarrow> bytes \<Rightarrow> json res" where
  "parse_value L b = need (Fail (serde_msg L b)) (map_option to_value (json_parse L b))"

definition get_str_of :: "string \<Rightarrow> json \<Rightarrow> string option" where
  "get_str_of k v = Option.bind (jget k v) str_of_j"

text \<open>One input of the root node: a key of the node map, or an object with an \<open>id\<close>; others are skipped.\<close>

definition flake_dep_of :: "json \<Rightarrow> string \<times> json \<Rightarrow> flake_dep option" where
  "flake_dep_of nodes entry =
     (let (input_name, input_ref) = entry in
      case (case str_of_j input_ref of Some s \<Rightarrow> Some s | None \<Rightarrow> get_str_of ''id'' input_ref) of
        None \<Rightarrow> None
      | Some node_key \<Rightarrow>
         map_option (\<lambda>locked. \<lparr>fd_name = input_name, fd_nar_hash = get_str_of ''narHash'' locked\<rparr>)
           (Option.bind (jget node_key nodes) (jget ''locked'')))"

definition parse_flake_lock :: "lib \<Rightarrow> bytes \<Rightarrow> flake_dep list res" where
  "parse_flake_lock L b =
     bnd (parse_value L b) (\<lambda>data.
     case Option.bind (jget ''nodes'' data) as_object of
       None \<Rightarrow> Inr []
     | Some nodes \<Rightarrow>
        (case Option.bind (Option.bind (map_of nodes ''root'') (jget ''inputs'')) as_object of
           None \<Rightarrow> Inr []
         | Some root_inputs \<Rightarrow>
             Inr (sort_key fd_name (somes (map (flake_dep_of (JObj nodes)) root_inputs)))))"

section \<open>The derivation graph\<close>

definition nix_show_args :: "string list" where
  "nix_show_args = [''derivation'', ''show'', ''--recursive'', ''--extra-experimental-features'', ''flakes'',
     ''--extra-experimental-features'', ''nix-command'']"

definition evaluate_derivation_graph :: "lib \<Rightarrow> env \<Rightarrow> string \<Rightarrow> json res" where
  "evaluate_derivation_graph L E path =
     bnd (map_err (\<lambda>_. Fail ''nix not found'') (confined_spawn E ''nix'' nix_show_args path)) (\<lambda>c.
     bnd (if cd_stdout_err c \<noteq> None \<or> cd_stderr_err c \<noteq> None
          then Inl (Fail ''waiting for nix derivation show'')
          else map_err (\<lambda>_. Fail ''waiting for nix derivation show'') (cd_wait c)) (\<lambda>status.
     if \<not> fst status
     then Inl (Fail (''nix derivation show failed: '' @ trim (from_utf8_lossy (cd_stderr c))))
     else parse_value L (cd_stdout c)))"

text \<open>The first output with a hash: algorithm, hash and method.\<close>

definition output_hash_of :: "json \<Rightarrow> (string \<times> string \<times> string option) option" where
  "output_hash_of out_spec =
     (case get_str_of ''hash'' out_spec of
        None \<Rightarrow> None
      | Some s \<Rightarrow>
         Some (case split_once CHR ''-'' s of
             Some (algo, hash) \<Rightarrow> (algo, hash, get_str_of ''method'' out_spec)
           | None \<Rightarrow> (''sha256'', s, get_str_of ''method'' out_spec)))"

definition urls_text :: "json \<Rightarrow> string" where
  "urls_text u =
     (case u of JArr vs \<Rightarrow> join '','' (somes (map str_of_j vs)) | _ \<Rightarrow> unwrap_or [] (str_of_j u))"

definition fetch_entry_of :: "string \<times> json \<Rightarrow> fetch_entry option" where
  "fetch_entry_of entry =
     (let (drv_path, drv) = entry in
      case as_object drv of
        None \<Rightarrow> None
      | Some drv_obj \<Rightarrow>
         let env = Option.bind (map_of drv_obj ''env'') as_object;
             outputs = Option.bind (map_of drv_obj ''outputs'') as_object;
             env_get = (\<lambda>k. Option.bind env (\<lambda>e. map_of e k)) in
         map_option (\<lambda>(algo, hash, mode). \<lparr>
             fe_name = unwrap_or ''unknown'' (Option.bind
               (case map_of drv_obj ''name'' of Some n \<Rightarrow> Some n | None \<Rightarrow> env_get ''name'') str_of_j),
             fe_drv_path = drv_path, fe_output_hash = hash, fe_output_hash_algo = algo,
             fe_output_hash_mode = mode,
             fe_url = Option.bind (env_get ''url'') str_of_j,
             fe_urls = map_option urls_text (env_get ''urls'')\<rparr>)
           (Option.bind outputs (find_map (\<lambda>(_, out_spec). output_hash_of out_spec))))"

definition extract_fixed_output_hashes :: "json \<Rightarrow> fetch_entry list" where
  "extract_fixed_output_hashes graph =
     (case (case Option.bind (jget ''derivations'' graph) as_object of
              Some inner \<Rightarrow> Some inner | None \<Rightarrow> as_object graph) of
        None \<Rightarrow> []
      | Some derivations \<Rightarrow> sort_key fe_name (somes (map fetch_entry_of derivations)))"

section \<open>The executables of the store paths\<close>

text \<open>A mode with an execute bit (\<open>0o111\<close>).\<close>

definition executable_mode :: "nat \<Rightarrow> bool" where
  "executable_mode m = (odd m \<or> odd (m div 8) \<or> odd (m div 64))"

definition nix_item :: "lib \<Rightarrow> env \<Rightarrow> string \<Rightarrow> string \<Rightarrow> string + string \<Rightarrow> artifact list act" where
  "nix_item L E artifacts_dir bin_dir entry =
     (let h = en_after E in
      act_bind (lift (map_err Fail entry)) (\<lambda>raw.
      let item = path_join bin_dir raw in
      if \<not> h_is_file h item then lift (Inr [])
      else act_bind (lift (map_err Fail (h_mode h item))) (\<lambda>mode.
        if \<not> executable_mode mode then lift (Inr [])
        else
          let name = to_string_lossy raw; dest = path_join artifacts_dir name in
          act_bind (\<lambda>w. (if staged w name \<noteq> None
               then act_bind (io_act E SetMode dest id) (\<lambda>_. io_act E RemoveFile dest (unstage name))
               else lift (Inr ())) w) (\<lambda>_.
          act_bind (lift (map_err Fail (h_read h item))) (\<lambda>content.
          act_bind (io_act E CopyTo dest (stage name content)) (\<lambda>_.
          act_bind (\<lambda>w. lift (need (Fail (''failed to open file '' @ backquoted (to_string_lossy dest)))
              (staged w name)) w) (\<lambda>copied.
          lift (Inr [\<lparr>art_name = name, art_path = dest,
                      art_checksum = hex_encode L (sha256 L copied)\<rparr>])))))))) "

definition nix_store_path :: "lib \<Rightarrow> env \<Rightarrow> string \<Rightarrow> string \<Rightarrow> artifact list act" where
  "nix_store_path L E artifacts_dir raw_line =
     (let line = trim raw_line; bin_dir = path_join line ''bin''; h = en_after E in
      if line = [] then lift (Inr [])
      else if \<not> h_is_dir h bin_dir then lift (Inr [])
      else act_bind (lift (map_err Fail (h_read_dir h bin_dir))) (\<lambda>entries.
        act_bind (act_map (nix_item L E artifacts_dir bin_dir) entries) (\<lambda>found. lift (Inr (concat found)))))"

definition nix_artifacts_from_store_paths :: "lib \<Rightarrow> env \<Rightarrow> string \<Rightarrow> string \<Rightarrow> artifact list act" where
  "nix_artifacts_from_store_paths L E store_paths artifacts_dir =
     act_bind (act_map (nix_store_path L E artifacts_dir) (text_lines store_paths)) (\<lambda>found.
     lift (Inr (concat found)))"

section \<open>The driver\<close>

definition nix_display :: string where
  "nix_display = ''nix '' @ join '' '' nix_BUILD_ARGS"

definition nix_collect_inputs ::
  "lib \<Rightarrow> env \<Rightarrow> string \<Rightarrow> git_context \<Rightarrow> string \<Rightarrow> bytes \<Rightarrow> nix_inputs res" where
  "nix_collect_inputs L E path git lockfile_hash lockfile_bytes =
     (let h = en_before E in
      bnd (via_which L h ''nix'') (\<lambda>nix.
      bnd (kettle_info L h) (\<lambda>kettle.
      bnd (parse_flake_lock L lockfile_bytes) (\<lambda>flake_deps.
      bnd (evaluate_derivation_graph L E path) (\<lambda>graph.
      Inr \<lparr>ni_kettle_version = ti_version kettle, ni_kettle_hash = ti_sha256 kettle,
           ni_nix_version = ti_version nix, ni_nix_hash = ti_sha256 nix,
           ni_lockfile_hash = lockfile_hash, ni_flake_deps = flake_deps,
           ni_fetches = extract_fixed_output_hashes graph,
           ni_derivation_count = unwrap_or 0 (map_option length (as_object graph))\<rparr>)))))"

definition nix_merkle_entries :: "nix_inputs \<Rightarrow> git_context \<Rightarrow> string \<Rightarrow> string list" where
  "nix_merkle_entries i git lockfile_hash =
     [gc_commit git, gc_tree git, lockfile_hash]
     @ map (\<lambda>f. ''fetch:'' @ fe_name f @ '':'' @ fe_output_hash_algo f @ '':'' @ fe_output_hash f) (ni_fetches i)
     @ [ni_nix_hash i, ni_nix_version i]"

definition nix_run_build :: "env \<Rightarrow> string \<Rightarrow> bytes act" where
  "nix_run_build E path = stream_act E ''nix'' nix_BUILD_ARGS path (\<lambda>e. ''nix build failed: '' @ e)"

definition nix_collect_artifacts ::
  "lib \<Rightarrow> env \<Rightarrow> bytes \<Rightarrow> string \<Rightarrow> string \<Rightarrow> artifact list act" where
  "nix_collect_artifacts L E outp path artifacts_dir =
     act_bind (lift (utf8_res outp)) (\<lambda>store_paths. nix_artifacts_from_store_paths L E store_paths artifacts_dir)"

definition nix_dependency :: "fetch_entry \<Rightarrow> resolved_dependency" where
  "nix_dependency f = \<lparr>
     rd_annotations = Some \<lparr>an_drv_path = fe_drv_path f, an_output_hash_mode = fe_output_hash_mode f,
       an_url = fe_url f, an_urls = fe_urls f\<rparr>,
     rd_digest = Sha256 (fe_output_hash f),
     rd_name = fe_name f,
     rd_uri = ''pkg:nix-fetch/'' @ fe_name f @ ''?hash='' @ fe_output_hash_algo f @ '':'' @ fe_output_hash f\<rparr>"

definition nix_provenance_fields :: "nix_inputs \<Rightarrow> git_context \<Rightarrow> string \<Rightarrow> provenance_fields" where
  "nix_provenance_fields i git merkle_root =
     (let flake_inputs = somes (map (\<lambda>d. map_option
            (\<lambda>h. \<lparr>fi_name = fd_name d, fi_nar_hash = h\<rparr>) (fd_nar_hash d)) (ni_flake_deps i)) in
      \<lparr>pf_build_type = BUILD_TYPE,
       pf_build_command = nix_display,
       pf_internal = \<lparr>
         ip_evaluation = Some \<lparr>ev_derivation_count = PosInt (of_nat (ni_derivation_count i)),
                              ev_fetch_count = PosInt (of_nat (length (ni_fetches i)))\<rparr>,
         ip_flake_inputs = (if flake_inputs = [] then None else Some flake_inputs),
         ip_lockfile_hash = Sha256 (ni_lockfile_hash i),
         ip_toolchain = NixToolchain (tool_version (ni_nix_version i) (ni_nix_hash i))
           (tool_version (ni_kettle_version i) (ni_kettle_hash i))\<rparr>,
       pf_dependencies = map nix_dependency (ni_fetches i)\<rparr>)"

definition nix_driver :: "nix_inputs driver" where
  "nix_driver = \<lparr>
     lockfile_filename = ''flake.lock'',
     build_command_display = nix_display,
     collect_inputs = nix_collect_inputs,
     merkle_entries = nix_merkle_entries,
     run_build = nix_run_build,
     collect_artifacts = nix_collect_artifacts,
     provenance_fields_of = nix_provenance_fields\<rparr>"

section \<open>The contract\<close>

lemma nix_item_stages:
  assumes "nix_item L E dir bin entry v = (Inr found, v')" and "wo_artifacts v \<noteq> None"
  shows "stages L v found v'"
proof (cases "found = []")
  case True
  then have "v' = v" using assms(1)
    by (auto simp: nix_item_def Let_def lift_def act_bind_def io_act_def split: sum.splits if_splits option.splits)
  then show ?thesis using True assms(2) by (simp add: stages_Nil)
next
  case False
  let ?n = "art_name (hd found)"
  have "\<exists>content v1. found = [hd found] \<and> art_checksum (hd found) = hex_encode L (sha256 L content)
      \<and> (v1 = v \<or> v1 = unstage ?n v) \<and> v' = stage ?n content v1"
    using assms False by (auto simp: nix_item_def Let_def split: if_splits) blast+
  then obtain content v1 where "found = [hd found]" "art_checksum (hd found) = hex_encode L (sha256 L content)"
      "v1 = v \<or> v1 = unstage ?n v" "v' = stage ?n content v1" by blast
  moreover have "stages L v [hd found] (stage ?n content v1)"
    if "art_checksum (hd found) = hex_encode L (sha256 L content)" "v1 = v \<or> v1 = unstage ?n v"
    using assms(2) that by (auto simp: stages_def stage_def unstage_def staged_def)
  ultimately show ?thesis by metis
qed

lemma nix_store_path_stages:
  assumes "nix_store_path L E dir line v = (Inr found, v')" and "wo_artifacts v \<noteq> None"
  shows "stages L v found v'"
proof -
  let ?bin = "path_join (trim line) ''bin''"
  consider "found = []" "v' = v"
    | entries fs where "act_map (nix_item L E dir ?bin) entries v = (Inr fs, v')" "found = concat fs"
    using assms(1) by (auto simp: nix_store_path_def Let_def split: if_splits)
  then show ?thesis
  proof cases
    case 2
    have "stages L v (concat (map (\<lambda>x. x) fs)) v'"
      by (rule act_map_stages [OF 2(1) assms(2)]) (rule nix_item_stages)
    then show ?thesis using 2(2) by simp
  qed (use assms(2) in \<open>simp add: stages_Nil\<close>)
qed

lemma nix_stages:
  assumes "nix_collect_artifacts L E outp path dir w = (Inr arts, w')" and "wo_artifacts w \<noteq> None"
  shows "stages L w arts w'"
proof -
  obtain str fs where fs: "act_map (nix_store_path L E dir) (text_lines str) w = (Inr fs, w')" "arts = concat fs"
    using assms(1) by (auto simp: nix_collect_artifacts_def nix_artifacts_from_store_paths_def)
  have "stages L w (concat (map (\<lambda>x. x) fs)) w'"
    by (rule act_map_stages [OF fs(1) assms(2)]) (rule nix_store_path_stages)
  then show ?thesis using fs(2) by simp
qed

interpretation nix: toolchain_driver nix_driver
proof unfold_locales
  show "collect_artifacts nix_driver L E out path dir w = (Inr arts, w') \<Longrightarrow>
      wo_artifacts w \<noteq> None \<Longrightarrow> stages L w arts w'" for L E out path dir w arts w'
    by (simp add: nix_driver_def nix_stages)
  show "only_traces (run_build nix_driver E path)" for E path
    by (simp add: nix_driver_def nix_run_build_def only_traces_stream)
  show "collect_inputs nix_driver L E path g h b = Inr i \<Longrightarrow>
      ip_lockfile_hash (pf_internal (provenance_fields_of nix_driver i g r)) = Sha256 h"
    for L E path g h b i r
    by (auto simp: nix_driver_def nix_collect_inputs_def nix_provenance_fields_def Let_def)
qed (simp_all add: nix_driver_def nix_merkle_entries_def nix_provenance_fields_def Let_def)

section \<open>Sample machine\<close>

definition sample_child :: "bytes \<Rightarrow> child" where
  "sample_child b = \<lparr>cd_stdout = b, cd_stdout_err = None, cd_stderr = [], cd_stderr_err = None,
     cd_wait = Inr (True, Some 0), cd_schedule = []\<rparr>"

definition sample_env :: "host \<Rightarrow> bytes \<Rightarrow> env" where
  "sample_env h b = \<lparr>en_before = h, en_after = h,
     en_credentials = \<lparr>cr_groups = [''sev-guest''], cr_ambient = [''CAP_SETGID''], cr_setgid = True\<rparr>,
     en_sev_guest = (\<lambda>p. list_ex (\<lambda>g. g = ''sev-guest'') (cr_groups p)),
     en_child = (\<lambda>p program args cwd. Inr (sample_child b)),
     en_io = (\<lambda>op p. None), en_uuid = replicate 16 7, en_started = (''s'', ''t0''), en_finished = ''t1''\<rparr>"

lemma sample_env_simps [simp]:
  "en_before (sample_env h b) = h" "en_after (sample_env h b) = h" "en_io (sample_env h b) op p = None"
  "confined_spawn (sample_env h b) program args cwd = Inr (sample_child b)"
  by (simp_all add: sample_env_def confined_spawn_def confine_def)

definition sample_world :: world where
  "sample_world = \<lparr>wo_exists = True, wo_artifacts = Some Map.empty, wo_files = Map.empty, wo_trace = []\<rparr>"

lemma sample_trim: "trim ''x'' = ''x''"
  by (simp add: trim_def trim_start.simps trim_end.simps ws_end_len_def ws_len_def Let_def)

lemma sample_utf8: "utf8_res (as_bytes ''x'') = Inr ''x''"
  by (simp add: utf8_res_def from_utf8_ascii)

text \<open>Two store paths with an executable \<open>app\<close> of different contents.\<close>

definition sample_store :: string where
  "sample_store = ''/a'' @ nl @ ''/b'' @ nl"

definition sample_nix_host :: host where
  "sample_nix_host = sample_host\<lparr>h_read := (\<lambda>p. Inr (if p = ''/a/bin/app'' then [1] else [2]))\<rparr>"

lemma sample_trim_path: "c \<in> {CHR ''a'', CHR ''b''} \<Longrightarrow> trim [slash, c] = [slash, c]"
  by (auto simp: trim_def trim_start.simps trim_end.simps ws_end_len_def ws_len_def Let_def)

lemma lossy_app: "to_string_lossy ''app'' = ''app''"
  unfolding to_string_lossy_def by (rule from_utf8_lossy_ascii) (simp add: as_bytes_def)

definition sample_app :: "bytes \<Rightarrow> artifact" where
  "sample_app b = \<lparr>art_name = ''app'', art_path = ''/o/app'', art_checksum = hex_of (toy_digest 32 b)\<rparr>"

lemma sample_nix_item:
  assumes "wo_artifacts w \<noteq> None"
  shows "nix_item sample_lib (sample_env sample_nix_host b) ''/o'' bin (Inr ''app'') w =
    (Inr [sample_app (if path_join bin ''app'' = ''/a/bin/app'' then [1] else [2])],
     stage ''app'' (if path_join bin ''app'' = ''/a/bin/app'' then [1] else [2])
       (if staged w ''app'' = None then w else unstage ''app'' w))"
proof -
  have j: "path_join ''/o'' ''app'' = ''/o/app''" by (simp add: path_join_def starts_with_def)
  show ?thesis
    using assms
    by (simp add: nix_item_def sample_nix_host_def sample_host_def executable_mode_def lossy_app j Let_def
        act_bind_def lift_def io_act_def sample_app_def)
qed

lemma sample_nix_artifacts:
  "nix_collect_artifacts sample_lib (sample_env sample_nix_host b) (as_bytes sample_store) ''/w'' ''/o'' sample_world =
     (Inr [sample_app [1], sample_app [2]],
      stage ''app'' [2] (unstage ''app'' (stage ''app'' [1] sample_world)))"
proof -
  have l: "text_lines sample_store = [''/a'', ''/b'']"
    by (simp add: text_lines_def sample_store_def strip_cr_def Let_def)
  have u: "utf8_res (as_bytes sample_store) = Inr sample_store"
    by (simp add: utf8_res_def from_utf8_ascii sample_store_def)
  have j: "path_join ''/a'' ''bin'' = ''/a/bin''" "path_join ''/b'' ''bin'' = ''/b/bin''"
    "path_join ''/a/bin'' ''app'' = ''/a/bin/app''" "path_join ''/b/bin'' ''app'' = ''/b/bin/app''"
    by (simp_all add: path_join_def starts_with_def)
  have w: "wo_artifacts sample_world \<noteq> None" "staged sample_world ''app'' = None"
    by (simp_all add: sample_world_def staged_def)
  have d: "h_is_dir sample_nix_host p" "h_read_dir sample_nix_host p = Inr [Inr ''app'']" for p
    by (simp_all add: sample_nix_host_def sample_host_def)
  have t: "trim ''/a'' = ''/a''" "trim ''/b'' = ''/b''" by (simp_all add: sample_trim_path)
  have s: "nix_store_path sample_lib (sample_env sample_nix_host b) ''/o'' ''/a'' w =
        (Inr [sample_app [1]], stage ''app'' [1] (if staged w ''app'' = None then w else unstage ''app'' w))"
      "nix_store_path sample_lib (sample_env sample_nix_host b) ''/o'' ''/b'' w =
        (Inr [sample_app [2]], stage ''app'' [2] (if staged w ''app'' = None then w else unstage ''app'' w))"
    if "wo_artifacts w \<noteq> None" for w
    using that by (simp_all add: nix_store_path_def t j d sample_nix_item act_bind_def lift_def Let_def)
  show ?thesis
    using w by (simp add: nix_collect_artifacts_def nix_artifacts_from_store_paths_def u l act_bind_def lift_def s)
qed

text \<open>Two subjects of one name with different digests: no copy matches both.\<close>

lemma duplicate_subjects_fail:
  assumes "a \<in> set arts" and "b \<in> set arts" and "art_name a = art_name b"
    and "art_checksum a \<noteq> art_checksum b"
    and rep: "verify_artifacts L (assemble_provenance git bm arts root pf) top_level es = Inr rep"
  shows "\<not> list_all is_success (ar_results rep)"
proof
  let ?p = "assemble_provenance git bm arts root pf"
  let ?s = "\<lambda>a. \<lparr>sub_digest = Sha256 (art_checksum a), sub_name = art_name a\<rparr>"
  assume "list_all is_success (ar_results rep)"
  then have v: "\<forall>s \<in> set (pv_subject ?p). copies top_level es s \<noteq> [] \<and> list_all (copy_matches L s) (copies top_level es s)"
    using verify_artifacts_success [OF rep] by blast
  have s: "?s a \<in> set (pv_subject ?p)" "?s b \<in> set (pv_subject ?p)"
    using assms(1,2) by (auto simp: assemble_provenance_def)
  have c: "copies top_level es (?s a) = copies top_level es (?s b)"
    using assms(3) by (simp add: copies_def)
  obtain e where e: "e \<in> set (copies top_level es (?s a))"
    using v s(1) by (meson list.set_sel(1))
  have "copy_matches L (?s a) e" "copy_matches L (?s b) e"
    using v s e unfolding c by (metis (no_types, lifting) c list_all_iff)+
  then show False using assms(4) by (auto simp: copy_matches_def split: sum.splits)
qed

section \<open>Properties\<close>

text \<open>
  Two store paths that hold an executable of the same name but different contents make a build
  that can never verify. Both become subjects of the statement while the second copy replaces the first
  in \<open>artifacts/\<close>; whatever the rest of the statement and the directory, the artifact check of this
  honest build does not succeed.
\<close>

theorem nix_duplicate_names_fail:
  "\<exists>arts w'. nix_collect_artifacts sample_lib (sample_env sample_nix_host []) (as_bytes sample_store)
       ''/w'' ''/o'' sample_world = (Inr arts, w')
     \<and> map art_name arts = [''app'', ''app''] \<and> staged w' ''app'' = Some [2]
     \<and> \<not> (\<exists>git bm root pf top_level es rep.
            verify_artifacts sample_lib (assemble_provenance git bm arts root pf) top_level es = Inr rep
            \<and> list_all is_success (ar_results rep))"
proof -
  have d: "toy_digest 32 [1] \<noteq> toy_digest 32 [2]" by (simp add: toy_digest_def pad_to_def)
  have "hex_of (toy_digest 32 [1]) \<noteq> hex_of (toy_digest 32 [2])"
    by (metis d hex_to_hex_of option.inject)
  then have "art_checksum (sample_app [1]) \<noteq> art_checksum (sample_app [2])" by (simp add: sample_app_def)
  then have "\<not> (\<exists>git bm root pf top_level es rep.
      verify_artifacts sample_lib (assemble_provenance git bm [sample_app [1], sample_app [2]] root pf) top_level es = Inr rep
      \<and> list_all is_success (ar_results rep))"
    using duplicate_subjects_fail [of "sample_app [1]" "[sample_app [1], sample_app [2]]" "sample_app [2]"]
    by (auto simp: sample_app_def)
  moreover have "map art_name [sample_app [1], sample_app [2]] = [''app'', ''app'']"
    by (simp add: sample_app_def)
  moreover have "staged (stage ''app'' [2] (unstage ''app'' (stage ''app'' [1] sample_world))) ''app'' = Some [2]"
    by (simp add: sample_world_def)
  ultimately show ?thesis
    by (intro exI conjI) (rule sample_nix_artifacts)
qed

text \<open>The derivations of an evaluated graph: the object under \<open>derivations\<close> of the current
  format of \<open>nix derivation show\<close>, beside whatever other keys, or the whole object of the old one.\<close>

definition graph_derivations :: "json \<Rightarrow> (string \<times> json) list" where
  "graph_derivations graph =
     (case graph of
        JObj obj \<Rightarrow> (case map_of obj ''derivations'' of Some (JObj ds) \<Rightarrow> ds | _ \<Rightarrow> obj)
      | _ \<Rightarrow> [])"

lemma extract_sorts:
  "extract_fixed_output_hashes graph = sort_key fe_name (somes (map fetch_entry_of (graph_derivations graph)))"
  by (simp add: extract_fixed_output_hashes_def graph_derivations_def jget_def as_object_def
      split: json.split option.split)

text \<open>
  In the current format the recorded derivation count is the number of top-level keys, however many
  derivations the graph has, while the fetches are taken from the graph itself.
\<close>

theorem nix_derivation_count_top_level:
  assumes "nix_collect_inputs L E path g h b = Inr i"
    and "evaluate_derivation_graph L E path = Inr (JObj obj)"
    and "map_of obj ''derivations'' = Some (JObj ds)"
  shows "ni_derivation_count i = length obj \<and> ni_fetches i = sort_key fe_name (somes (map fetch_entry_of ds))"
  using assms by (auto simp: nix_collect_inputs_def Let_def as_object_def unwrap_or_def extract_sorts graph_derivations_def)

definition sample_fetch :: "string \<Rightarrow> string \<times> json" where
  "sample_fetch n = (n, JObj [(''name'', JStr n),
     (''outputs'', JObj [(''out'', JObj [(''hash'', JStr ''sha256-h'')])])])"

definition sample_graph :: json where
  "sample_graph = JObj [(''derivations'', JObj [sample_fetch ''d1'', sample_fetch ''d2'', (''d3'', JObj [])]),
     (''version'', JStr ''3'')]"

lemma sample_graph_evaluated:
  "evaluate_derivation_graph sample_lib (sample_env sample_host (as_bytes (tlv sample_graph))) p = Inr sample_graph"
proof -
  have "parse_value sample_lib (as_bytes (tlv v)) = Inr (to_value v)" for v
    by (simp add: parse_value_def tlv_roundtrip)
  moreover have "to_value sample_graph = sample_graph"
    by (simp add: sample_graph_def sample_fetch_def dedupe_def)
  ultimately show ?thesis by (simp add: evaluate_derivation_graph_def sample_child_def)
qed

lemma sample_via_which: "is_ok (via_which sample_lib sample_host cmd)"
proof -
  have "co_stdout (sample_output ''x'') = as_bytes ''x''" by (simp add: sample_output_def)
  then show ?thesis
    by (simp add: via_which_def hash_file_def sample_utf8 sample_trim) (simp add: as_bytes_def)
qed

lemma sample_nix_collects:
  "\<exists>i. nix_collect_inputs sample_lib (sample_env sample_host (as_bytes (tlv sample_graph))) ''/w'' g h
     (as_bytes (tlv JNull)) = Inr i"
proof -
  obtain t where t: "via_which sample_lib sample_host ''nix'' = Inr t"
    using sample_via_which by (auto simp: is_ok_iff)
  have k: "is_ok (kettle_info sample_lib sample_host)" by (simp add: kettle_info_def hash_file_def)
  have f: "parse_flake_lock sample_lib (as_bytes (tlv JNull)) = Inr []"
    by (simp only: parse_flake_lock_def parse_value_def sample_lib_simps tlv_roundtrip option.map need_simps bnd.simps)
      (simp add: jget_def)
  show ?thesis
    using t k f by (auto simp: nix_collect_inputs_def sample_graph_evaluated is_ok_iff Let_def)
qed

theorem nix_derivation_count_top_level_witness:
  "\<exists>i :: nix_inputs. ni_derivation_count i = 2 \<and> map fe_name (ni_fetches i) = [''d1'', ''d2'']"
proof -
  let ?E = "sample_env sample_host (as_bytes (tlv sample_graph))"
  obtain i where i: "nix_collect_inputs sample_lib ?E ''/w'' sample_git [] (as_bytes (tlv JNull)) = Inr i"
    using sample_nix_collects by blast
  have g: "evaluate_derivation_graph sample_lib ?E ''/w'' =
      Inr (JObj [(''derivations'', JObj [sample_fetch ''d1'', sample_fetch ''d2'', (''d3'', JObj [])]), (''version'', JStr ''3'')])"
    using sample_graph_evaluated by (simp add: sample_graph_def)
  have m: "map_of [(''derivations'', JObj ds), (''version'', JStr ''3'')] ''derivations'' = Some (JObj ds)" for ds by simp
  have f: "map fe_name (sort_key fe_name (somes (map fetch_entry_of
      [sample_fetch ''d1'', sample_fetch ''d2'', (''d3'', JObj [])]))) = [''d1'', ''d2'']"
    by (simp add: sample_fetch_def fetch_entry_of_def as_object_def output_hash_of_def get_str_of_def jget_def
        str_of_j_def unwrap_or_def Let_def insort_key.simps)
  note n = nix_derivation_count_top_level [OF i g m]
  show ?thesis
  proof (intro exI conjI)
    show "ni_derivation_count i = 2" using n [THEN conjunct1] by simp
    show "map fe_name (ni_fetches i) = [''d1'', ''d2'']" unfolding n [THEN conjunct2] by (rule f)
  qed
qed

text \<open>The hash a derivation fixes in advance: the first one its outputs state, without the
  algorithm an SRI string starts with.\<close>

definition fixed_hash :: "json \<Rightarrow> string option" where
  "fixed_hash drv =
     (case Option.bind (jget ''outputs'' drv) as_object of
        None \<Rightarrow> None
      | Some outs \<Rightarrow>
         (case somes (map (\<lambda>(_, out). get_str_of ''hash'' out) outs) of
            [] \<Rightarrow> None
          | s # _ \<Rightarrow> Some (case split_once CHR ''-'' s of Some (_, rest) \<Rightarrow> rest | None \<Rightarrow> s)))"

text \<open>The derivations with a fixed hash, each with it.\<close>

definition fixed_outputs :: "(string \<times> json) list \<Rightarrow> (string \<times> string) list" where
  "fixed_outputs ds = somes (map (\<lambda>(q, drv). map_option (Pair q) (fixed_hash drv)) ds)"

lemma first_output_hash:
  "map_option (\<lambda>(_, hash, _). hash) (find_map (\<lambda>(_, out). output_hash_of out) outs) =
     (case somes (map (\<lambda>(_, out). get_str_of ''hash'' out) outs) of
        [] \<Rightarrow> None
      | s # _ \<Rightarrow> Some (case split_once CHR ''-'' s of Some (_, rest) \<Rightarrow> rest | None \<Rightarrow> s))"
proof (induction outs)
  case (Cons p outs)
  obtain q out where p: "p = (q, out)" by fastforce
  show ?case
    using Cons.IH by (cases "get_str_of ''hash'' out") (auto simp: p output_hash_of_def split: option.split)
qed simp

lemma fetch_entry_fixed:
  "map_option (\<lambda>e. (fe_drv_path e, fe_output_hash e)) (fetch_entry_of (q, drv)) = map_option (Pair q) (fixed_hash drv)"
proof (cases "Option.bind (jget ''outputs'' drv) as_object")
  case None
  then show ?thesis
    by (cases drv; cases "Option.bind (jget ''outputs'' drv) as_object")
      (auto simp: fetch_entry_of_def fixed_hash_def jget_def as_object_def Let_def split: Option.bind_splits json.splits)
next
  case (Some outs)
  then obtain fs where d: "drv = JObj fs" "Option.bind (map_of fs ''outputs'') as_object = Some outs"
    by (cases drv) (auto simp: jget_def as_object_def)
  have "fixed_hash drv = map_option (\<lambda>(_, hash, _). hash) (find_map (\<lambda>(_, out). output_hash_of out) outs)"
    unfolding first_output_hash fixed_hash_def Some by simp
  then show ?thesis
    using d by (simp add: fetch_entry_of_def as_object_def Let_def option.map_comp o_def split_def)
qed

lemma fetches_fixed:
  "map (\<lambda>e. (fe_drv_path e, fe_output_hash e)) (somes (map fetch_entry_of ds)) = fixed_outputs ds"
proof (induction ds)
  case (Cons d ds)
  then show ?case
    using fetch_entry_fixed [of "fst d" "snd d"]
    by (cases "fetch_entry_of d"; cases "fixed_hash (snd d)") (simp_all add: fixed_outputs_def split_def)
qed (simp add: fixed_outputs_def)

text \<open>
  C36. The fetches of a Nix build. From whatever graph was evaluated, in the current format or the old
  one, \<open>collect_inputs\<close> records one fetch for every derivation with a fixed-output hash, with its path
  and hash, and none for any other, sorted by name; and the statement lists exactly them as its
  dependencies, in that order, with their digests and their count.
\<close>

theorem nix_fetches_account:
  assumes "nix_collect_inputs L E path g h b = Inr i"
  shows "\<exists>graph. evaluate_derivation_graph L E path = Inr graph
    \<and> mset (map (\<lambda>e. (fe_drv_path e, fe_output_hash e)) (ni_fetches i)) = mset (fixed_outputs (graph_derivations graph))
    \<and> sorted (map fe_name (ni_fetches i))
    \<and> map (\<lambda>d. (rd_name d, rd_digest d)) (pf_dependencies (nix_provenance_fields i g r))
        = map (\<lambda>e. (fe_name e, Sha256 (fe_output_hash e))) (ni_fetches i)
    \<and> map_option (\<lambda>e. ev_fetch_count e) (ip_evaluation (pf_internal (nix_provenance_fields i g r)))
        = Some (PosInt (of_nat (length (fixed_outputs (graph_derivations graph)))))"
proof -
  obtain graph where g: "evaluate_derivation_graph L E path = Inr graph"
      "ni_fetches i = sort_key fe_name (somes (map fetch_entry_of (graph_derivations graph)))"
    using assms by (auto simp: nix_collect_inputs_def Let_def extract_sorts)
  have m: "mset (map (\<lambda>e. (fe_drv_path e, fe_output_hash e)) (ni_fetches i)) = mset (fixed_outputs (graph_derivations graph))"
    by (simp add: g(2) flip: fetches_fixed)
  have "length (ni_fetches i) = length (fixed_outputs (graph_derivations graph))"
    using mset_eq_length [OF m] by (simp only: length_map)
  then show ?thesis
    using g m by (intro exI [of _ graph]) (simp add: nix_provenance_fields_def nix_dependency_def Let_def o_def)
qed

theorem nix_fetches_account_witness:
  "\<exists>i :: nix_inputs. mset (map (\<lambda>e. (fe_drv_path e, fe_output_hash e)) (ni_fetches i)) = mset [(''d1'', ''h''), (''d2'', ''h'')]"
proof -
  let ?E = "sample_env sample_host (as_bytes (tlv sample_graph))"
  obtain i where i: "nix_collect_inputs sample_lib ?E ''/w'' sample_git [] (as_bytes (tlv JNull)) = Inr i"
    using sample_nix_collects by blast
  have "fixed_outputs (graph_derivations sample_graph) = [(''d1'', ''h''), (''d2'', ''h'')]"
    by (simp add: sample_graph_def graph_derivations_def sample_fetch_def fixed_outputs_def fixed_hash_def jget_def
        as_object_def get_str_of_def str_of_j_def)
  then show ?thesis
    using nix_fetches_account [OF i] by (auto simp: sample_graph_evaluated)
qed

end
