(* ===== verification/Build_Command.thy ===== *)
theory Build_Command
  imports Cargo Pnpm Nix
begin

text \<open>
  \<open>kettle build\<close> (\<open>src/src/commands/build.rs\<close>): the choice of the toolchain by the files of the
  project, and the run of its driver. What a successful build leaves verifies, whatever the driver.
\<close>

section \<open>The command\<close>

datatype project_toolchain = CargoProject | NixProject | PnpmProject

fun debug_toolchain :: "project_toolchain \<Rightarrow> string" where
  "debug_toolchain CargoProject = ''Cargo''"
| "debug_toolchain NixProject = ''Nix''"
| "debug_toolchain PnpmProject = ''Pnpm''"

definition toolchain_from_dir :: "host \<Rightarrow> string \<Rightarrow> project_toolchain res" where
  "toolchain_from_dir h path =
     bnd (map_err Fail (h_exists h (path_join path ''flake.nix''))) (\<lambda>nix.
     if nix then Inr NixProject
     else bnd (map_err Fail (h_exists h (path_join path ''Cargo.lock''))) (\<lambda>cargo.
       if cargo then Inr CargoProject
       else bnd (map_err Fail (h_exists h (path_join path ''pnpm-lock.yaml''))) (\<lambda>pnpm.
         if pnpm then Inr PnpmProject
         else Inl (Fail (''Could not determine toolchain. Is '' @ debug_path path @
                ''a rust, nix, or pnpm project?'')))))"

definition build_with_sink ::
  "cfg_lib \<Rightarrow> lib \<Rightarrow> (bytes list \<Rightarrow> bytes option) \<Rightarrow> env \<Rightarrow> plant \<Rightarrow> string \<Rightarrow> unit act" where
  "build_with_sink C L M E pl path =
     act_bind (lift (toolchain_from_dir (en_before E) path)) (\<lambda>toolchain.
     act_bind (send_event (Detect (''Detected '' @ debug_toolchain toolchain @ '' project''))) (\<lambda>_.
     case toolchain of
       CargoProject \<Rightarrow> run (cargo_driver C) L M E pl path
     | NixProject \<Rightarrow> run nix_driver L M E pl path
     | PnpmProject \<Rightarrow> run (pnpm_driver C) L M E pl path))"

text \<open>The lock file and the command of a toolchain.\<close>

definition toolchain_lockfile :: "project_toolchain \<Rightarrow> string" where
  "toolchain_lockfile t =
     (case t of CargoProject \<Rightarrow> ''Cargo.lock'' | NixProject \<Rightarrow> ''flake.lock'' | PnpmProject \<Rightarrow> ''pnpm-lock.yaml'')"

section \<open>Lemmas\<close>

lemma driver_lockfiles:
  "lockfile_filename (cargo_driver C) = toolchain_lockfile CargoProject"
  "lockfile_filename nix_driver = toolchain_lockfile NixProject"
  "lockfile_filename (pnpm_driver C) = toolchain_lockfile PnpmProject"
  by (simp_all add: cargo_driver_def nix_driver_def pnpm_driver_def toolchain_lockfile_def)

text \<open>The statement a successful build writes, for all three drivers at once.\<close>

definition written_statement :: "lib \<Rightarrow> env \<Rightarrow> string \<Rightarrow> project_toolchain \<Rightarrow> world \<Rightarrow> provenance \<Rightarrow> bool" where
  "written_statement L E path t w' p =
     (wo_files w' ''provenance.json'' = Some (as_bytes (to_json L p))
      \<and> is_success (verify_predicate p)
      \<and> bd_build_type (pr_build_definition (pv_predicate p)) = BUILD_TYPE
      \<and> (\<exists>lock. h_read (en_before E) (path_join path (toolchain_lockfile t)) = Inr lock \<and>
           ip_lockfile_hash (bd_internal_parameters (pr_build_definition (pv_predicate p))) =
             Sha256 (hex_encode L (sha256 L lock)))
      \<and> (\<forall>files arts top_level. lists_dir (staged w') arts \<longrightarrow> lists_dir files top_level \<longrightarrow>
           distinct (map sub_name (pv_subject p)) \<longrightarrow> (\<forall>s \<in> set (pv_subject p). files (sub_name s) = None) \<longrightarrow>
           (\<exists>rep. verify_artifacts L p top_level arts = Inr rep \<and> list_all is_success (ar_results rep))))"

lemma build_writes_statement:
  assumes "build_with_sink C L M E pl path w = (Inr u, w')"
  shows "\<exists>t p. toolchain_from_dir (en_before E) path = Inr t \<and> written_statement L E path t w' p"
proof -
  obtain t v where t: "toolchain_from_dir (en_before E) path = Inr t"
    and r: "(case t of CargoProject \<Rightarrow> run (cargo_driver C) L M E pl path
       | NixProject \<Rightarrow> run nix_driver L M E pl path
       | PnpmProject \<Rightarrow> run (pnpm_driver C) L M E pl path) v = (Inr u, w')"
    using assms by (auto simp: build_with_sink_def)
  have "\<exists>p. written_statement L E path t w' p"
  proof (cases t)
    case CargoProject
    then have "run (cargo_driver C) L M E pl path v = (Inr u, w')" using r by simp
    then show ?thesis
      by (rule cargo.run_verifies) (unfold written_statement_def driver_lockfiles CargoProject, blast)
  next
    case NixProject
    then have "run nix_driver L M E pl path v = (Inr u, w')" using r by simp
    then show ?thesis
      by (rule nix.run_verifies) (unfold written_statement_def driver_lockfiles NixProject, blast)
  next
    case PnpmProject
    then have "run (pnpm_driver C) L M E pl path v = (Inr u, w')" using r by simp
    then show ?thesis
      by (rule pnpm.run_verifies) (unfold written_statement_def driver_lockfiles PnpmProject, blast)
  qed
  then show ?thesis using t by blast
qed

section \<open>Sample build\<close>

text \<open>A Rust project with one registry dependency and one executable, \<open>app\<close>.\<close>

definition sample_plant :: plant where
  "sample_plant w = (wo_artifacts w, wo_files w)"

abbreviation sample_cargo_env :: env where
  "sample_cargo_env \<equiv> sample_env sample_host []"

lemma act_bind_step: "m w = (Inr x, v) \<Longrightarrow> act_bind m k w = k x v"
  by (simp add: act_bind_def)

lemma sample_git_cmd: "git_cmd sample_host path args = Inr ''x''"
proof -
  have "co_stdout (sample_output ''x'') = as_bytes ''x''" "co_success (sample_output ''x'')"
    by (simp_all add: sample_output_def)
  then show ?thesis by (simp add: git_cmd_def sample_utf8 sample_trim)
qed

definition sample_git_context :: git_context where
  "sample_git_context = \<lparr>gc_commit = ''x'', gc_tree = ''x'', gc_source_uri = ''x''\<rparr>"

lemma sample_git_from_dir: "git_context_from_dir sample_host path = Inr sample_git_context"
  by (simp add: git_context_from_dir_def sample_git_cmd sample_git_context_def)

definition sample_tool :: tool_info where
  "sample_tool = \<lparr>ti_version = ''x'', ti_sha256 = hex_of (toy_digest 32 [1, 2])\<rparr>"

lemma sample_via_rustup: "via_rustup sample_lib sample_host cmd = Inr sample_tool"
proof -
  have "co_stdout (sample_output ''x'') = as_bytes ''x''" by (simp add: sample_output_def)
  then show ?thesis
    by (simp add: via_rustup_def hash_file_def sample_utf8 sample_trim sample_tool_def Let_def)
qed

definition sample_deps :: "resolved_dependency list" where
  "sample_deps = [\<lparr>rd_annotations = None, rd_digest = Sha256 ''c0'', rd_name = ''z'',
     rd_uri = ''pkg:cargo/z@3?checksum=sha256:c0''\<rparr>]"

definition sample_inputs :: cargo_inputs where
  "sample_inputs = \<lparr>ci_kettle_version = ''1.1.1'', ci_kettle_hash = ti_sha256 sample_tool,
     ci_rustc_version = ''x'', ci_rustc_hash = ti_sha256 sample_tool,
     ci_cargo_version = ''x'', ci_cargo_hash = ti_sha256 sample_tool,
     ci_lockfile_hash = hex_of (toy_digest 32 (as_bytes ''l'')), ci_resolved_deps = sample_deps\<rparr>"

lemma sample_cargo_collects:
  "cargo_collect_inputs sample_cfg sample_lib sample_cargo_env ''/w'' g
     (hex_of (toy_digest 32 (as_bytes ''l''))) (as_bytes ''l'') = Inr sample_inputs"
proof -
  have "kettle_info sample_lib sample_host = Inr \<lparr>ti_version = ''1.1.1'', ti_sha256 = ti_sha256 sample_tool\<rparr>"
    by (simp add: kettle_info_def hash_file_def pkg_version_def sample_tool_def)
  then show ?thesis
    using sample_resolves
    by (simp add: cargo_collect_inputs_def sample_via_rustup sample_inputs_def sample_deps_def Let_def)
      (simp add: sample_tool_def)
qed

definition sample_built_app :: artifact where
  "sample_built_app = \<lparr>art_name = ''app'', art_path = ''/w/target/release/app'',
     art_checksum = hex_of (toy_digest 32 [1, 2])\<rparr>"

lemma sample_found:
  "artifacts_in_dir sample_lib sample_host (path_join (path_join ''/w'' ''target'') ''release'') = Inr [sample_built_app]"
proof -
  have j: "path_join (path_join ''/w'' ''target'') ''release'' = ''/w/target/release''"
    "path_join ''/w/target/release'' ''app'' = ''/w/target/release/app''"
    by (simp_all add: path_join_def starts_with_def)
  show ?thesis
    by (simp add: artifacts_in_dir_def in_dir_entry_def j extension_def rsplit_once_def lossy_app starts_with_def
        hash_file_def sample_built_app_def Let_def)
qed

definition sample_start :: world where
  "sample_start = \<lparr>wo_exists = False, wo_artifacts = None, wo_files = Map.empty, wo_trace = []\<rparr>"

lemma sample_no_lines: "stream_act sample_cargo_env prog args cwd msg v = (Inr [], v)"
  by (simp add: stream_act_def stream_command_def sample_child_def pipe_lines_def str_of_def as_bytes_def)

definition sample_root_entries :: "string list" where
  "sample_root_entries = cargo_merkle_entries sample_inputs sample_git_context (ci_lockfile_hash sample_inputs)"

definition sample_statement :: provenance where
  "sample_statement = assemble_provenance sample_git_context
     \<lparr>bm_invocation_id = ''build-s-07070707'', bm_started_on = ''t0'', bm_finished_on = Some ''t1''\<rparr>
     [sample_built_app]
     (hex_of (concat (map (\<lambda>e. toy_digest 32 (as_bytes e)) sample_root_entries)))
     (cargo_provenance_fields sample_inputs sample_git_context [])"

lemma sample_uuid_text: "take 8 (hex_of (replicate 16 7)) = ''07070707''"
proof -
  have "replicate 16 (7 :: u8) = [7, 7, 7, 7] @ replicate 12 7" by code_simp
  moreover have "hex_of [7, 7, 7, 7] = ''07070707''" by code_simp
  ultimately show ?thesis by (simp only: hex_of_def map_append concat_append) simp
qed

lemma staged_eq: "wo_artifacts w = Some m \<Longrightarrow> staged w = m"
  by (simp add: staged_def fun_eq_iff)

definition sample_built :: world where
  "sample_built = \<lparr>wo_exists = True, wo_artifacts = Some [''app'' \<mapsto> [1, 2]],
     wo_files = [''provenance.json'' \<mapsto> as_bytes (to_json sample_lib sample_statement)],
     wo_trace = [Detect ''Detected Cargo project'', Build (''Running '' @ backquoted cargo_display),
       Build ''Build command finished'', ProvenanceEvent ''Wrote provenance.json'']\<rparr>"

lemma sample_build:
  "build_with_sink sample_cfg sample_lib sample_merkle sample_cargo_env sample_plant ''/w'' sample_start =
     (Inr (), sample_built)"
proof -
  have t: "toolchain_from_dir sample_host ''/w'' = Inr CargoProject"
    by (simp add: toolchain_from_dir_def path_join_def starts_with_def)
  have r: "compute_merkle_root sample_lib sample_merkle
      (cargo_merkle_entries sample_inputs sample_git_context (hex_of (toy_digest 32 (as_bytes ''l'')))) =
      Inr (hex_of (concat (map (\<lambda>e. toy_digest 32 (as_bytes e)) sample_root_entries)))"
    by (simp add: compute_merkle_root_def sample_merkle_def sample_root_entries_def sample_inputs_def)
      (simp add: cargo_merkle_entries_def)
  have lock: "path_join ''/w'' ''Cargo.lock'' = ''/w/Cargo.lock''" by (simp add: path_join_def starts_with_def)
  have copies: "cargo_collect_artifacts sample_lib sample_cargo_env outp ''/w'' dir w =
      (Inr [sample_built_app\<lparr>art_path := path_join dir ''app''\<rparr>], stage ''app'' [1, 2] w)" for outp dir w
    by (simp add: cargo_collect_artifacts_def sample_found copy_artifact_def lift_def io_act_def act_bind_def
        sample_built_app_def Let_def)
  have md: "metadata_finish (en_finished sample_cargo_env)
      (metadata_start sample_lib (en_uuid sample_cargo_env) (en_started sample_cargo_env)) =
      \<lparr>bm_invocation_id = ''build-s-07070707'', bm_started_on = ''t0'', bm_finished_on = Some ''t1''\<rparr>"
    by (simp add: metadata_finish_def metadata_start_def sample_env_def sample_uuid_text)
  have p: "assemble_provenance sample_git_context
      \<lparr>bm_invocation_id = ''build-s-07070707'', bm_started_on = ''t0'', bm_finished_on = Some ''t1''\<rparr>
      [sample_built_app\<lparr>art_path := q\<rparr>] root (cargo_provenance_fields sample_inputs sample_git_context root) =
    assemble_provenance sample_git_context
      \<lparr>bm_invocation_id = ''build-s-07070707'', bm_started_on = ''t0'', bm_finished_on = Some ''t1''\<rparr>
      [sample_built_app] root (cargo_provenance_fields sample_inputs sample_git_context [])" for q root
    by (simp add: assemble_provenance_def cargo_provenance_fields_def)
  show ?thesis
    by (simp add: build_with_sink_def run_def act_bind_def lift_def t clean_output_def io_act_def sample_start_def
        sample_git_from_dir cargo_driver_def lock sample_cargo_collects send_event_def modify_def cargo_run_build_def
        sample_no_lines leave_def sample_plant_def copies r md p Let_def stage_def sample_built_def sample_statement_def)
qed

lemma sample_statement_wf: "json_wf (provenance_to_j sample_statement)"
  by (simp add: sample_statement_def assemble_provenance_def cargo_provenance_fields_def sample_inputs_def
      sample_tool_def tool_version_def sample_deps_def sample_git_context_def sample_built_app_def
      provenance_to_j_def predicate_to_j_def build_definition_to_j_def external_to_j_def internal_to_j_def
      run_details_to_j_def metadata_to_j_def toolchain_to_j_def tv_to_j_def digest_to_j_def skip_none_def
      dependency_to_j_def byproduct_to_j_def str_to_j_def vec_to_j_def subject_to_j_def opt_to_j_def
      BUILD_TYPE_def cargo_display_def cargo_BUILD_ARGS_def ascii_wf sample_hex_ascii)

lemma sample_statement_read: "to_json sample_lib p = to_json sample_lib q \<Longrightarrow> p = q"
  by (metis provenance_serde.to_inject sample_lib_simps(6) to_json_def tlv_inject)

lemma sample_statement_subjects: "map sub_name (pv_subject sample_statement) = [''app'']"
  by (simp add: sample_statement_def assemble_provenance_def sample_built_app_def)

definition sample_top :: "dir_entry list" where
  "sample_top = [\<lparr>de_name = as_bytes ''provenance.json'',
     de_read = Inr (as_bytes (to_json sample_lib sample_statement))\<rparr>]"

lemma sample_lists:
  "lists_dir (staged sample_built) [sample_entry]" "lists_dir (wo_files sample_built) sample_top"
  by (simp_all add: lists_dir_def sample_built_def sample_entry_def sample_top_def staged_eq ascii_wf)

section \<open>No child reaches the device\<close>

text \<open>
  The machine with children that behave differently whenever they could open the attestation device or
  hold an ambient capability.
\<close>

definition with_device_children ::
  "env \<Rightarrow> (credentials \<Rightarrow> string \<Rightarrow> string list \<Rightarrow> string \<Rightarrow> io_error + child) \<Rightarrow> env" where
  "with_device_children E f =
     E\<lparr>en_child := (\<lambda>p. if en_sev_guest E p \<or> cr_ambient p \<noteq> [] then f p else en_child E p)\<rparr>"

lemma with_device_simps [simp]:
  "en_before (with_device_children E f) = en_before E" "en_after (with_device_children E f) = en_after E"
  "en_io (with_device_children E f) = en_io E" "en_uuid (with_device_children E f) = en_uuid E"
  "en_started (with_device_children E f) = en_started E" "en_finished (with_device_children E f) = en_finished E"
  by (simp_all add: with_device_children_def)

lemma with_device_spawn [simp]: "confined_spawn (with_device_children E f) = confined_spawn E"
  by (simp add: fun_eq_iff confined_spawn_def with_device_children_def confine_def Let_def)

lemma with_device_ops [simp]:
  "io_act (with_device_children E f) = io_act E"
  "stream_act (with_device_children E f) = stream_act E"
  "evaluate_derivation_graph L (with_device_children E f) = evaluate_derivation_graph L E"
  by (simp_all add: fun_eq_iff io_act_def stream_act_def stream_command_def evaluate_derivation_graph_def)

lemmas with_device = with_device_simps with_device_spawn with_device_ops

lemma with_device_cargo:
  "run (cargo_driver C) L M (with_device_children E f) = run (cargo_driver C) L M E"
proof -
  have "copy_artifact (with_device_children E f) = copy_artifact E"
    by (intro ext) (unfold copy_artifact_def with_device, rule refl)
  then have "cargo_collect_artifacts L (with_device_children E f) = cargo_collect_artifacts L E"
    "cargo_collect_inputs C L (with_device_children E f) = cargo_collect_inputs C L E"
    "cargo_run_build (with_device_children E f) = cargo_run_build E"
    by (intro ext, simp add: cargo_collect_artifacts_def cargo_collect_inputs_def cargo_run_build_def)+
  note drv = this
  show ?thesis
    by (intro ext) (unfold run_def clean_output_def cargo_driver_def driver.select_convs drv with_device, rule refl)
qed

lemma with_device_pnpm:
  "run (pnpm_driver C) L M (with_device_children E f) = run (pnpm_driver C) L M E"
proof -
  have drv: "pnpm_collect_artifacts L (with_device_children E f) = pnpm_collect_artifacts L E"
    "pnpm_collect_inputs C L (with_device_children E f) = pnpm_collect_inputs C L E"
    "pnpm_run_build (with_device_children E f) = pnpm_run_build E"
    by (unfold pnpm_collect_artifacts_def pnpm_collect_inputs_def pnpm_run_build_def with_device, (rule refl)+)
  show ?thesis
    by (intro ext) (unfold run_def clean_output_def pnpm_driver_def driver.select_convs drv with_device, rule refl)
qed

lemma with_device_nix:
  "run nix_driver L M (with_device_children E f) = run nix_driver L M E"
proof -
  have item: "nix_item L (with_device_children E f) = nix_item L E"
    by (intro ext) (unfold nix_item_def with_device, rule refl)
  have path: "nix_store_path L (with_device_children E f) = nix_store_path L E"
    by (intro ext) (unfold nix_store_path_def item with_device, rule refl)
  have drv: "nix_collect_artifacts L (with_device_children E f) = nix_collect_artifacts L E"
    "nix_collect_inputs L (with_device_children E f) = nix_collect_inputs L E"
    "nix_run_build (with_device_children E f) = nix_run_build E"
    by (unfold nix_collect_artifacts_def nix_artifacts_from_store_paths_def path nix_collect_inputs_def
        nix_run_build_def with_device, (rule refl)+)
  show ?thesis
    by (intro ext) (unfold run_def clean_output_def nix_driver_def driver.select_convs drv with_device, rule refl)
qed

section \<open>Properties\<close>

text \<open>
  C37. What a successful build leaves verifies, for all three toolchains. The statement it writes
  conforms, records the build type and the hash of the lock file read before the build; when its strings
  are UTF-8 it is read back from the file; and when its subjects have distinct names that no file beside
  \<open>provenance.json\<close> has, every listing of the output directory and its artifacts, with whatever else the
  build planted there, passes the artifact check.
\<close>

theorem successful_build_verifies:
  assumes "build_with_sink C L M E pl path w = (Inr u, w')" and "json_ok L"
    and "lists_dir (staged w') arts" and "lists_dir (wo_files w') top_level"
  shows "\<exists>t lock p. toolchain_from_dir (en_before E) path = Inr t
    \<and> h_read (en_before E) (path_join path (toolchain_lockfile t)) = Inr lock
    \<and> wo_files w' ''provenance.json'' = Some (as_bytes (to_json L p))
    \<and> is_success (verify_predicate p)
    \<and> bd_build_type (pr_build_definition (pv_predicate p)) = BUILD_TYPE
    \<and> ip_lockfile_hash (bd_internal_parameters (pr_build_definition (pv_predicate p))) =
        Sha256 (hex_encode L (sha256 L lock))
    \<and> (json_wf (provenance_to_j p) \<longrightarrow> from_json L (as_bytes (to_json L p)) = Inr p)
    \<and> (distinct (map sub_name (pv_subject p)) \<and> (\<forall>s \<in> set (pv_subject p). wo_files w' (sub_name s) = None) \<longrightarrow>
         (\<exists>rep. verify_artifacts L p top_level arts = Inr rep \<and> list_all is_success (ar_results rep)))"
proof -
  obtain t p where t: "toolchain_from_dir (en_before E) path = Inr t" and p: "written_statement L E path t w' p"
    using build_writes_statement [OF assms(1)] by blast
  obtain lock where lock: "h_read (en_before E) (path_join path (toolchain_lockfile t)) = Inr lock"
      "ip_lockfile_hash (bd_internal_parameters (pr_build_definition (pv_predicate p))) =
        Sha256 (hex_encode L (sha256 L lock))"
    using p by (auto simp: written_statement_def)
  have "json_wf (provenance_to_j p) \<longrightarrow> from_json L (as_bytes (to_json L p)) = Inr p"
    using from_json_to_json [OF assms(2)] by blast
  moreover have "distinct (map sub_name (pv_subject p)) \<and> (\<forall>s \<in> set (pv_subject p). wo_files w' (sub_name s) = None) \<longrightarrow>
      (\<exists>rep. verify_artifacts L p top_level arts = Inr rep \<and> list_all is_success (ar_results rep))"
    using p assms(3,4) unfolding written_statement_def by metis
  moreover have "wo_files w' ''provenance.json'' = Some (as_bytes (to_json L p))" "is_success (verify_predicate p)"
      "bd_build_type (pr_build_definition (pv_predicate p)) = BUILD_TYPE"
    using p by (simp_all add: written_statement_def)
  ultimately show ?thesis
    using t lock by (intro exI [of _ t] exI [of _ lock] exI [of _ p]) simp
qed

theorem successful_build_verifies_witness:
  "\<exists>rep. verify_artifacts sample_lib sample_statement sample_top [sample_entry] = Inr rep
     \<and> list_all is_success (ar_results rep)"
proof -
  obtain p where p: "wo_files sample_built ''provenance.json'' = Some (as_bytes (to_json sample_lib p))"
    and v: "distinct (map sub_name (pv_subject p)) \<and> (\<forall>s \<in> set (pv_subject p). wo_files sample_built (sub_name s) = None) \<longrightarrow>
      (\<exists>rep. verify_artifacts sample_lib p sample_top [sample_entry] = Inr rep \<and> list_all is_success (ar_results rep))"
    using successful_build_verifies [OF sample_build sample_json_ok sample_lists] by blast
  have "to_json sample_lib p = to_json sample_lib sample_statement"
    using p by (simp add: sample_built_def)
  then have "p = sample_statement" by (rule sample_statement_read)
  moreover have "wo_files sample_built (sub_name s) = None" if "s \<in> set (pv_subject sample_statement)" for s
  proof -
    have "sub_name s \<in> set (map sub_name (pv_subject sample_statement))" using that by simp
    then have "sub_name s = ''app''" unfolding sample_statement_subjects by simp
    then show ?thesis by (simp add: sample_built_def)
  qed
  moreover have "distinct (map sub_name (pv_subject sample_statement))"
    by (simp only: sample_statement_subjects) simp
  ultimately show ?thesis using v by blast
qed

text \<open>
  C32. No command that runs code of the repository can reach the attestation device or holds an ambient
  capability: replacing the behaviour of every child that could, arbitrarily, changes nothing a build
  does, for any toolchain, whether it succeeds or fails.
\<close>

theorem build_children_confined:
  "build_with_sink C L M (with_device_children E f) pl path = build_with_sink C L M E pl path"
  by (unfold build_with_sink_def with_device_cargo with_device_pnpm with_device_nix with_device, rule refl)

end
