(* ===== verification/Server_Job.thy ===== *)
theory Server_Job
  imports Build_Command
begin

text \<open>
  The sequential parts of the build server: request validation and result lookup of
  \<open>src/src/server/api.rs\<close>, jobs and the registry of \<open>src/src/server/job.rs\<close>, and the source handling and
  packing of \<open>src/src/server/runner.rs\<close>. Archive extraction, \<open>git clone\<close> and packing are parameters.
\<close>

section \<open>Jobs\<close>

datatype server_job_state = Building | Done | Failed string string

text \<open>
  A receiver of the broadcast channel holds the events not read yet, the newest 256 of them; one that
  fell further behind has lost the others.
\<close>

record receiver =
  rc_unread :: "event list"
  rc_lagged :: bool

record server_job =
  sj_id :: string
  sj_nonce :: string
  sj_state :: server_job_state
  sj_receivers :: "receiver list"
  sj_event_log :: "event list"
  sj_result :: "bytes option"

definition channel_capacity :: nat where "channel_capacity = 256"

definition new_job :: "string \<Rightarrow> string \<Rightarrow> server_job" where
  "new_job i nonce = \<lparr>sj_id = i, sj_nonce = nonce, sj_state = Building, sj_receivers = [],
     sj_event_log = [], sj_result = None\<rparr>"

definition receive :: "event \<Rightarrow> receiver \<Rightarrow> receiver" where
  "receive e r =
     (let q = rc_unread r @ [e] in
      if length q \<le> channel_capacity then r\<lparr>rc_unread := q\<rparr>
      else \<lparr>rc_unread = tl q, rc_lagged = True\<rparr>)"

text \<open>\<open>push_event\<close> appends to the log under its lock, then sends to the receivers.\<close>

definition log_event :: "event \<Rightarrow> server_job \<Rightarrow> server_job" where
  "log_event e j = j\<lparr>sj_event_log := sj_event_log j @ [e]\<rparr>"

definition broadcast_event :: "event \<Rightarrow> server_job \<Rightarrow> server_job" where
  "broadcast_event e j = j\<lparr>sj_receivers := map (receive e) (sj_receivers j)\<rparr>"

definition push_event :: "event \<Rightarrow> server_job \<Rightarrow> server_job" where
  "push_event e j = broadcast_event e (log_event e j)"

definition mark_done :: "server_job \<Rightarrow> server_job" where
  "mark_done j = j\<lparr>sj_state := Done\<rparr>"

definition mark_failed :: "string \<Rightarrow> string \<Rightarrow> server_job \<Rightarrow> server_job" where
  "mark_failed err kind j = j\<lparr>sj_state := Failed err kind\<rparr>"

definition snapshot_events :: "server_job \<Rightarrow> event list" where
  "snapshot_events j = sj_event_log j"

text \<open>A new receiver, the last of the list, starts empty.\<close>

definition subscribe :: "server_job \<Rightarrow> server_job" where
  "subscribe j = j\<lparr>sj_receivers := sj_receivers j @ [\<lparr>rc_unread = [], rc_lagged = False\<rparr>]\<rparr>"

definition is_terminal :: "server_job \<Rightarrow> bool" where
  "is_terminal j = (case sj_state j of Building \<Rightarrow> False | _ \<Rightarrow> True)"

text \<open>\<open>OnceCell::set\<close>: only the first value is kept.\<close>

definition set_result :: "bytes \<Rightarrow> server_job \<Rightarrow> server_job option" where
  "set_result b j = (case sj_result j of None \<Rightarrow> Some (j\<lparr>sj_result := Some b\<rparr>) | Some _ \<Rightarrow> None)"

section \<open>The registry\<close>

record registry =
  rg_gate :: bool
  rg_inner :: "string \<Rightarrow> server_job option"

definition new_registry :: registry where
  "new_registry = \<lparr>rg_gate = False, rg_inner = Map.empty\<rparr>"

text \<open>The atomic swap of the gate, then the insertion under the id drawn.\<close>

definition swap_gate :: "registry \<Rightarrow> bool \<times> registry" where
  "swap_gate reg = (rg_gate reg, reg\<lparr>rg_gate := True\<rparr>)"

definition insert_job :: "string \<Rightarrow> string \<Rightarrow> registry \<Rightarrow> registry" where
  "insert_job i nonce reg = reg\<lparr>rg_inner := (rg_inner reg)(i \<mapsto> new_job i nonce)\<rparr>"

definition try_register_with_nonce :: "string \<Rightarrow> string \<Rightarrow> registry \<Rightarrow> string option \<times> registry" where
  "try_register_with_nonce i nonce reg =
     (let (taken, reg1) = swap_gate reg in
      if taken then (None, reg1) else (Some i, insert_job i nonce reg1))"

definition try_register :: "string \<Rightarrow> registry \<Rightarrow> string option \<times> registry" where
  "try_register i = try_register_with_nonce i []"

definition registry_get :: "registry \<Rightarrow> string \<Rightarrow> server_job option" where
  "registry_get reg i = rg_inner reg i"

section \<open>The handlers\<close>

type_synonym http_error = "nat \<times> string"

definition validate_nonce :: "lib \<Rightarrow> string \<Rightarrow> http_error + bytes" where
  "validate_nonce L nonce =
     bnd (map_err (\<lambda>e. (400, ''invalid nonce hex: '' @ e)) (hex_decode L nonce)) (\<lambda>b.
     if length b \<noteq> 16 then Inl (400, ''nonce must be exactly 16 bytes'') else Inr b)"

definition check_request :: "lib \<Rightarrow> build_request \<Rightarrow> http_error + unit" where
  "check_request L req =
     bnd (validate_nonce L (rq_nonce req)) (\<lambda>_.
     if rq_repo_url req = None \<and> rq_source_data req = None
     then Inl (400, ''exactly one of repo_url or source_data is required'') else Inr ())"

definition conflict_error :: http_error where
  "conflict_error = (409, ''this CVM has already accepted a build'')"

text \<open>The reply, the registry, and the request handed to the runner if there is one.\<close>

definition post_build ::
  "lib \<Rightarrow> string \<Rightarrow> build_request \<Rightarrow> registry \<Rightarrow> (http_error + string) \<times> registry \<times> (string \<times> build_request) option" where
  "post_build L i req reg =
     (case check_request L req of
        Inl e \<Rightarrow> (Inl e, reg, None)
      | Inr _ \<Rightarrow>
         (case try_register_with_nonce i (rq_nonce req) reg of
            (None, reg') \<Rightarrow> (Inl conflict_error, reg', None)
          | (Some job_id, reg') \<Rightarrow> (Inr job_id, reg', Some (job_id, req))))"

definition to_sse :: "lib \<Rightarrow> event \<Rightarrow> string" where
  "to_sse L e = json_compact L (event_to_j e)"

text \<open>\<open>open\<close> reads the packed result; the reply is the status with the body.\<close>

definition get_result :: "(bytes \<Rightarrow> bool) \<Rightarrow> registry \<Rightarrow> string \<Rightarrow> nat + bytes" where
  "get_result can_open reg i =
     bnd (case registry_get reg i of None \<Rightarrow> Inl 404 | Some j \<Rightarrow> Inr j) (\<lambda>j.
     bnd (case sj_result j of None \<Rightarrow> Inl 404 | Some b \<Rightarrow> Inr b) (\<lambda>b.
     if can_open b then Inr b else Inl 500))"

section \<open>The source\<close>

record workspace =
  wk_host :: host
  wk_unzip :: "bytes \<Rightarrow> string \<Rightarrow> string option"
  wk_untar :: "bytes \<Rightarrow> string \<Rightarrow> string option"
  wk_clone :: "string list \<Rightarrow> string \<Rightarrow> string + cmd_output"
  wk_tar_dir :: "string \<Rightarrow> string \<Rightarrow> string + bytes"
  wk_attest :: "string \<Rightarrow> string \<Rightarrow> event list \<times> unit res"

definition unpack_source :: "workspace \<Rightarrow> bytes \<Rightarrow> string \<Rightarrow> string + unit" where
  "unpack_source W data work_dir =
     (if take 4 data = [0x50, 0x4B, 0x03, 0x04]
      then (case wk_unzip W data work_dir of Some e \<Rightarrow> Inl e | None \<Rightarrow> Inr ())
      else if take 2 data = [0x1F, 0x8B]
      then (case wk_untar W data work_dir of Some e \<Rightarrow> Inl e | None \<Rightarrow> Inr ())
      else Inl ''source_data is neither zip (PK) nor gzip (1f8b)'')"

definition clone_args :: "string \<Rightarrow> string option \<Rightarrow> string list" where
  "clone_args url repo_ref =
     ''clone'' # (case repo_ref of None \<Rightarrow> [] | Some r \<Rightarrow> [''--revision'', r]) @ [''--depth'', ''1'', ''--'', url]"

definition clone_repo :: "workspace \<Rightarrow> string \<Rightarrow> string option \<Rightarrow> string \<Rightarrow> string + unit" where
  "clone_repo W url repo_ref work_dir =
     bnd (wk_clone W (clone_args url repo_ref) work_dir) (\<lambda>out.
     if co_success out then Inr () else Inl (''git clone failed: '' @ from_utf8_lossy (co_stderr out)))"

definition find_project_dir :: "host \<Rightarrow> string \<Rightarrow> string + string" where
  "find_project_dir h work_dir =
     bnd (h_read_dir h work_dir) (\<lambda>entries.
     case concat (map (\<lambda>e. case e of Inl _ \<Rightarrow> [] | Inr name \<Rightarrow> [name]) entries) of
       [name] \<Rightarrow>
         (case h_file_type_dir h (path_join work_dir name) of
            Inr True \<Rightarrow> Inr (path_join work_dir name) | _ \<Rightarrow> Inr work_dir)
     | _ \<Rightarrow> Inr work_dir)"

definition materialize_source :: "workspace \<Rightarrow> build_request \<Rightarrow> string \<Rightarrow> string + string" where
  "materialize_source W req work_dir =
     bnd (case rq_source_data req of
            Some data \<Rightarrow> unpack_source W data work_dir
          | None \<Rightarrow> (case rq_repo_url req of
                Some url \<Rightarrow> clone_repo W url (rq_repo_ref req) work_dir
              | None \<Rightarrow> Inl ''no source'')) (\<lambda>_.
     find_project_dir (wk_host W) work_dir)"

section \<open>The result\<close>

definition archive_extensions :: "string list" where
  "archive_extensions =
     [''.tar.gz'', ''.tar.bz2'', ''.tar.xz'', ''.tgz'', ''.tbz2'', ''.txz'', ''.tar'', ''.zip'']"

text \<open>What follows the last slash or backslash.\<close>

definition base_name :: "string \<Rightarrow> string" where
  "base_name s = rev (takeWhile (\<lambda>c. c \<noteq> slash \<and> c \<noteq> CHR 0x5C) (rev s))"

definition strip_archive_extension :: "string \<Rightarrow> string" where
  "strip_archive_extension name =
     (let base = base_name name in
      case find_map (\<lambda>ext. strip_suffix ext base) archive_extensions of Some s \<Rightarrow> s | None \<Rightarrow> base)"

text \<open>\<open>file_name\<close>: the last component when it is a name.\<close>

definition file_name :: "string \<Rightarrow> string option" where
  "file_name p =
     (case rev (components p) of Normal s # _ \<Rightarrow> Some s | _ \<Rightarrow> None)"

definition output_top_level :: "string \<Rightarrow> string \<Rightarrow> string option \<Rightarrow> string" where
  "output_top_level project_dir work_dir source_name =
     (let fallback = (case source_name of
            Some name \<Rightarrow> if strip_archive_extension name \<noteq> [] then strip_archive_extension name else ''kettle-build''
          | None \<Rightarrow> ''kettle-build'') in
      if \<not> path_eq project_dir work_dir
      then (case Option.bind (file_name project_dir) (\<lambda>n. from_utf8 (as_bytes n)) of
              Some name \<Rightarrow> name | None \<Rightarrow> fallback)
      else fallback)"

text \<open>
  The inner block of \<open>run_build\<close>: the events handed to the sink and the packed output; a panic of the
  blocking task is an error of its join handle.
\<close>

definition build_and_pack :: "workspace \<Rightarrow> build_request \<Rightarrow> string \<Rightarrow> event list \<times> (string + bytes)" where
  "build_and_pack W req work_dir =
     (case materialize_source W req work_dir of
        Inl e \<Rightarrow> ([], Inl e)
      | Inr project_dir \<Rightarrow>
         let (events, r) = wk_attest W project_dir (rq_nonce req);
             kettle_build = path_join project_dir ''kettle-build'' in
         (events,
          bnd (map_err fault_msg r) (\<lambda>_.
          if \<not> h_is_dir (wk_host W) kettle_build then Inl ''build did not produce kettle-build/''
          else wk_tar_dir W kettle_build (output_top_level project_dir work_dir (rq_source_name req)))))"

section \<open>The name of the packed directory\<close>

lemma base_name_no_slash: "slash \<notin> set (base_name s)"
  by (auto simp: base_name_def dest: set_takeWhileD)

lemma strip_archive_extension_no_slash: "slash \<notin> set (strip_archive_extension name)"
proof (cases "find_map (\<lambda>ext. strip_suffix ext (base_name name)) archive_extensions")
  case (Some t)
  then obtain ext where "base_name name = t @ ext" by (auto dest: find_map_Some)
  then show ?thesis using base_name_no_slash [of name] Some by (simp add: strip_archive_extension_def Let_def)
qed (simp add: strip_archive_extension_def Let_def base_name_no_slash)

lemma file_name_plain: "file_name p = Some s \<Longrightarrow> plain_piece s"
proof -
  assume "file_name p = Some s"
  then obtain cs where "rev (components p) = Normal s # cs"
    by (auto simp: file_name_def split: list.splits comp.splits)
  then have "Normal s \<in> set (rev (components p))" by simp
  then show "plain_piece s" using components_Normal by auto
qed

text \<open>
  The directory a tarball unpacks into is one path component: never empty and without a slash,
  whatever name the client gave its archive and whatever the source is called.
\<close>

theorem output_top_level_component:
  "output_top_level project_dir work_dir source_name \<noteq> []
    \<and> slash \<notin> set (output_top_level project_dir work_dir source_name)"
proof -
  let ?fallback = "case source_name of
      Some name \<Rightarrow> if strip_archive_extension name \<noteq> [] then strip_archive_extension name else ''kettle-build''
    | None \<Rightarrow> ''kettle-build''"
  have f: "?fallback \<noteq> [] \<and> slash \<notin> set ?fallback"
    using strip_archive_extension_no_slash by (simp split: option.split)
  have "n \<noteq> [] \<and> slash \<notin> set n"
    if "Option.bind (file_name project_dir) (\<lambda>n. from_utf8 (as_bytes n)) = Some n" for n
    using that file_name_plain [of project_dir n]
    by (auto simp: from_utf8_def plain_piece_def split: if_splits Option.bind_splits)
  then show ?thesis using f by (simp add: output_top_level_def Let_def split: option.split)
qed

end
