(* ===== verification/Server.thy ===== *)
theory Server
  imports Server_Job
begin

text \<open>
  The build server as a state machine (\<open>src/src/server/api.rs\<close>, \<open>job.rs\<close>, \<open>runner.rs\<close>): requests in
  flight, the registry with its gate, the task of a job with its forwarder, and the clients of the event
  stream. A step is one action of one of them between two points where others may run, so any
  interleaving of handlers, task, forwarder and clients is a sequence of steps.
\<close>

section \<open>The task of a job\<close>

text \<open>
  What the inner block of \<open>run_build\<close> does from some point on: it emits an event and goes on; it
  returns; it stalls (a child that never exits, a clone that never answers: the code sets no timeout); or
  it unwinds (a panic while the source is unpacked or the output packed, outside the blocking task). It
  may also emit for ever.
\<close>

codatatype 'e build_run =
    Emits 'e "'e build_run"
  | Returns "string + bytes"
  | Stalls
  | Unwinds

text \<open>The run of a build that emits the given events and returns.\<close>

definition finite_run :: "'e list \<times> (string + bytes) \<Rightarrow> 'e build_run" where
  "finite_run b = foldr Emits (fst b) (Returns (snd b))"

text \<open>
  Where \<open>run_build\<close> is: spawned, the build running with what it is still to do, the sink dropped, about
  to push \<open>Complete\<close>, about to mark the job, ended; or its task has unwound, with the sink dropped and
  the forwarder left to itself.
\<close>

datatype task_phase =
    Spawned build_request
  | Running "event build_run"
  | Draining "string + bytes"
  | Completing "string + bytes"
  | Marking "string + bytes"
  | Ended
  | Unwound

text \<open>The channel between sink and forwarder, and the event logged but not yet sent.\<close>

record task =
  tk_phase :: task_phase
  tk_channel :: channel
  tk_pending :: "event option"

definition new_task :: "build_request \<Rightarrow> task" where
  "new_task req = \<lparr>tk_phase = Spawned req,
     tk_channel = \<lparr>ch_capacity = channel_capacity, ch_open = True, ch_queue = []\<rparr>, tk_pending = None\<rparr>"

text \<open>\<open>Attest\<close> events are emitted with \<open>emit\<close>, which waits for room; all others with \<open>try_emit\<close>.\<close>

definition sink_event :: "event \<Rightarrow> channel \<Rightarrow> channel option" where
  "sink_event e ch =
     (case e of
        Attest _ \<Rightarrow> Option.bind (emit e (Some ch)) id
      | _ \<Rightarrow> try_emit e (Some ch))"

definition pack_result :: "string + bytes \<Rightarrow> server_job \<Rightarrow> server_job \<times> (string + bytes)" where
  "pack_result r j =
     (case r of
        Inl e \<Rightarrow> (j, Inl e)
      | Inr b \<Rightarrow> (case set_result b j of Some j' \<Rightarrow> (j', Inr b) | None \<Rightarrow> (j, Inl ''result already set'')))"

definition complete_event :: "string + bytes \<Rightarrow> event" where
  "complete_event r =
     Complete (case r of Inr _ \<Rightarrow> BuildOk | Inl e \<Rightarrow> BuildFailed e ''BuildFailed'')"

definition mark_job :: "string + bytes \<Rightarrow> server_job \<Rightarrow> server_job" where
  "mark_job r j = (case r of Inr _ \<Rightarrow> mark_done j | Inl e \<Rightarrow> mark_failed e ''BuildFailed'' j)"

definition forwarding :: "task_phase \<Rightarrow> bool" where
  "forwarding ph = (case ph of Running _ \<Rightarrow> True | Draining _ \<Rightarrow> True | Unwound \<Rightarrow> True | _ \<Rightarrow> False)"

text \<open>\<open>B\<close> is the run of a request's build.\<close>

type_synonym build_fun = "build_request \<Rightarrow> event build_run"

inductive job_step :: "build_fun \<Rightarrow> server_job \<times> task \<Rightarrow> server_job \<times> task \<Rightarrow> bool" for B where
  start: "tk_phase t = Spawned req \<Longrightarrow>
    job_step B (j, t) (j, t\<lparr>tk_phase := Running (B req)\<rparr>)"
| no_work_dir: "tk_phase t = Spawned req \<Longrightarrow>
    job_step B (j, t) (j, t\<lparr>tk_phase := Completing (Inl err)\<rparr>)"
| emits: "tk_phase t = Running (Emits e rn) \<Longrightarrow> sink_event e (tk_channel t) = Some ch \<Longrightarrow>
    job_step B (j, t) (j, t\<lparr>tk_phase := Running rn, tk_channel := ch\<rparr>)"
| packed: "tk_phase t = Running (Returns r) \<Longrightarrow> pack_result r j = (j', r') \<Longrightarrow>
    job_step B (j, t) (j', t\<lparr>tk_phase := Draining r'\<rparr>)"
| unwinds: "tk_phase t = Running Unwinds \<Longrightarrow>
    job_step B (j, t) (j, t\<lparr>tk_phase := Unwound\<rparr>)"
| forward: "forwarding (tk_phase t) \<Longrightarrow> tk_pending t = None \<Longrightarrow> ch_queue (tk_channel t) = e # q \<Longrightarrow>
    job_step B (j, t)
      (log_event e j, t\<lparr>tk_channel := (tk_channel t)\<lparr>ch_queue := q\<rparr>, tk_pending := Some e\<rparr>)"
| sends: "tk_pending t = Some e \<Longrightarrow>
    job_step B (j, t) (broadcast_event e j, t\<lparr>tk_pending := None\<rparr>)"
| drained: "tk_phase t = Draining r \<Longrightarrow> ch_queue (tk_channel t) = [] \<Longrightarrow> tk_pending t = None \<Longrightarrow>
    job_step B (j, t) (j, t\<lparr>tk_phase := Completing r\<rparr>)"
| completes: "tk_phase t = Completing r \<Longrightarrow> tk_pending t = None \<Longrightarrow>
    job_step B (j, t)
      (log_event (complete_event r) j, t\<lparr>tk_phase := Marking r, tk_pending := Some (complete_event r)\<rparr>)"
| marks: "tk_phase t = Marking r \<Longrightarrow> tk_pending t = None \<Longrightarrow>
    job_step B (j, t) (mark_job r j, t\<lparr>tk_phase := Ended\<rparr>)"

inductive_cases job_stepE: "job_step B (j, t) (j', t')"

lemmas job_step_cases = job_stepE
  [consumes 1, case_names start no_work_dir emits packed unwinds forward sends drained completes marks]

section \<open>The system\<close>

datatype post_phase =
    Arrived build_request
  | Won build_request
  | Replied "http_error + string"

text \<open>
  A client of \<open>get_events\<close>: its job, its receiver, the backlog still to read once the snapshot is taken,
  and the events it has been sent.
\<close>

record client =
  cl_job :: string
  cl_receiver :: nat
  cl_backlog :: "event list option"
  cl_seen :: "event list"

record system =
  sy_registry :: registry
  sy_posts :: "post_phase list"
  sy_tasks :: "string \<Rightarrow> task option"
  sy_clients :: "client list"

definition initial_system :: system where
  "initial_system = \<lparr>sy_registry = new_registry, sy_posts = [], sy_tasks = Map.empty, sy_clients = []\<rparr>"

definition put_job :: "string \<Rightarrow> server_job \<Rightarrow> registry \<Rightarrow> registry" where
  "put_job i j reg = reg\<lparr>rg_inner := (rg_inner reg)(i \<mapsto> j)\<rparr>"

definition read_receiver :: "nat \<Rightarrow> event list \<Rightarrow> server_job \<Rightarrow> server_job" where
  "read_receiver k q j =
     j\<lparr>sj_receivers := (sj_receivers j)[k := (sj_receivers j ! k)\<lparr>rc_unread := q\<rparr>]\<rparr>"

inductive system_step :: "lib \<Rightarrow> build_fun \<Rightarrow> system \<Rightarrow> system \<Rightarrow> bool" for L B where
  arrive: "system_step L B s (s\<lparr>sy_posts := sy_posts s @ [Arrived req]\<rparr>)"
| reject: "k < length (sy_posts s) \<Longrightarrow> sy_posts s ! k = Arrived req \<Longrightarrow> check_request L req = Inl e \<Longrightarrow>
    system_step L B s (s\<lparr>sy_posts := (sy_posts s)[k := Replied (Inl e)]\<rparr>)"
| lose: "k < length (sy_posts s) \<Longrightarrow> sy_posts s ! k = Arrived req \<Longrightarrow> check_request L req = Inr u \<Longrightarrow>
    swap_gate (sy_registry s) = (True, reg) \<Longrightarrow>
    system_step L B s (s\<lparr>sy_registry := reg, sy_posts := (sy_posts s)[k := Replied (Inl conflict_error)]\<rparr>)"
| win: "k < length (sy_posts s) \<Longrightarrow> sy_posts s ! k = Arrived req \<Longrightarrow> check_request L req = Inr u \<Longrightarrow>
    swap_gate (sy_registry s) = (False, reg) \<Longrightarrow>
    system_step L B s (s\<lparr>sy_registry := reg, sy_posts := (sy_posts s)[k := Won req]\<rparr>)"
| insert: "k < length (sy_posts s) \<Longrightarrow> sy_posts s ! k = Won req \<Longrightarrow>
    system_step L B s (s\<lparr>sy_registry := insert_job i (rq_nonce req) (sy_registry s),
      sy_tasks := (sy_tasks s)(i \<mapsto> new_task req), sy_posts := (sy_posts s)[k := Replied (Inr i)]\<rparr>)"
| task: "registry_get (sy_registry s) i = Some j \<Longrightarrow> sy_tasks s i = Some t \<Longrightarrow> job_step B (j, t) (j', t') \<Longrightarrow>
    system_step L B s (s\<lparr>sy_registry := put_job i j' (sy_registry s), sy_tasks := (sy_tasks s)(i \<mapsto> t')\<rparr>)"
| subscribe: "registry_get (sy_registry s) i = Some j \<Longrightarrow>
    system_step L B s (s\<lparr>sy_registry := put_job i (subscribe j) (sy_registry s),
      sy_clients := sy_clients s @ [\<lparr>cl_job = i, cl_receiver = length (sj_receivers j), cl_backlog = None,
        cl_seen = []\<rparr>]\<rparr>)"
| snapshot: "k < length (sy_clients s) \<Longrightarrow> cl_backlog (sy_clients s ! k) = None \<Longrightarrow>
    registry_get (sy_registry s) (cl_job (sy_clients s ! k)) = Some j \<Longrightarrow>
    system_step L B s (s\<lparr>sy_clients := (sy_clients s)
      [k := (sy_clients s ! k)\<lparr>cl_backlog := Some (snapshot_events j)\<rparr>]\<rparr>)"
| read_backlog: "k < length (sy_clients s) \<Longrightarrow> sy_clients s ! k = c \<Longrightarrow> cl_backlog c = Some (e # b) \<Longrightarrow>
    system_step L B s (s\<lparr>sy_clients := (sy_clients s)
      [k := c\<lparr>cl_backlog := Some b, cl_seen := cl_seen c @ [e]\<rparr>]\<rparr>)"
| read_live: "k < length (sy_clients s) \<Longrightarrow> sy_clients s ! k = c \<Longrightarrow> cl_backlog c = Some [] \<Longrightarrow>
    registry_get (sy_registry s) (cl_job c) = Some j \<Longrightarrow>
    cl_receiver c < length (sj_receivers j) \<Longrightarrow>
    rc_unread (sj_receivers j ! cl_receiver c) = e # q \<Longrightarrow>
    system_step L B s (s\<lparr>sy_registry := put_job (cl_job c) (read_receiver (cl_receiver c) q j) (sy_registry s),
      sy_clients := (sy_clients s)[k := c\<lparr>cl_seen := cl_seen c @ [e]\<rparr>]\<rparr>)"

inductive_cases system_stepE: "system_step L B s s'"

inductive reachable :: "lib \<Rightarrow> build_fun \<Rightarrow> system \<Rightarrow> bool" for L B where
  init: "reachable L B initial_system"
| more: "reachable L B s \<Longrightarrow> system_step L B s s' \<Longrightarrow> reachable L B s'"

section \<open>One build\<close>

text \<open>A request is accepted once it has passed the gate.\<close>

definition accepted :: "post_phase \<Rightarrow> bool" where
  "accepted p = (case p of Won _ \<Rightarrow> True | Replied (Inr _) \<Rightarrow> True | _ \<Rightarrow> False)"

definition gate_inv :: "system \<Rightarrow> bool" where
  "gate_inv s =
     ((\<forall>k < length (sy_posts s). \<forall>l < length (sy_posts s).
         accepted (sy_posts s ! k) \<and> accepted (sy_posts s ! l) \<longrightarrow> k = l)
      \<and> (\<forall>k < length (sy_posts s). accepted (sy_posts s ! k) \<longrightarrow> rg_gate (sy_registry s))
      \<and> (\<forall>k < length (sy_posts s). \<forall>req. sy_posts s ! k = Won req \<longrightarrow> rg_inner (sy_registry s) = Map.empty)
      \<and> (\<forall>i \<in> dom (rg_inner (sy_registry s)). Replied (Inr i) \<in> set (sy_posts s))
      \<and> dom (sy_tasks s) = dom (rg_inner (sy_registry s)))"

lemma accepted_simps [simp]: "\<not> accepted (Arrived req)" "accepted (Won req)" "accepted (Replied (Inr i))"
    "\<not> accepted (Replied (Inl e))"
  by (simp_all add: accepted_def)

lemma gate_inv_initial: "gate_inv initial_system"
  by (simp add: gate_inv_def initial_system_def new_registry_def)

lemma registry_simps [simp]:
  "rg_gate (put_job i j reg) = rg_gate reg" "rg_inner (put_job i j reg) = (rg_inner reg)(i \<mapsto> j)"
  "rg_gate (insert_job i n reg) = rg_gate reg" "rg_inner (insert_job i n reg) = (rg_inner reg)(i \<mapsto> new_job i n)"
  "registry_get reg i = rg_inner reg i"
  by (simp_all add: put_job_def insert_job_def registry_get_def)

lemma swap_gate_eq: "swap_gate reg = (b, reg') \<longleftrightarrow> b = rg_gate reg \<and> reg' = reg\<lparr>rg_gate := True\<rparr>"
  by (auto simp: swap_gate_def)

lemma set_update_other: "y \<in> set xs \<Longrightarrow> k < length xs \<Longrightarrow> xs ! k \<noteq> y \<Longrightarrow> y \<in> set (xs[k := x])"
  by (auto simp: in_set_conv_nth nth_list_update)

lemma set_update_same: "k < length xs \<Longrightarrow> x \<in> set (xs[k := x])"
  by (simp add: set_update_memI)

lemma gate_open_empty: "gate_inv s \<Longrightarrow> \<not> rg_gate (sy_registry s) \<Longrightarrow> rg_inner (sy_registry s) = Map.empty"
proof (rule ext)
  fix i assume inv: "gate_inv s" and g: "\<not> rg_gate (sy_registry s)"
  show "rg_inner (sy_registry s) i = None"
  proof (cases "rg_inner (sy_registry s) i")
    case (Some j)
    then have "Replied (Inr i) \<in> set (sy_posts s)" using inv by (auto simp: gate_inv_def)
    then obtain k where "k < length (sy_posts s)" "sy_posts s ! k = Replied (Inr i)" by (auto simp: in_set_conv_nth)
    then show ?thesis using inv g by (auto simp: gate_inv_def)
  qed
qed

lemma gate_inv_step:
  assumes "gate_inv s" and "system_step L B s s'"
  shows "gate_inv s'"
  using assms(2)
proof cases
  case (arrive req)
  then show ?thesis using assms(1) by (auto simp: gate_inv_def nth_append less_Suc_eq)
next
  case (reject k req e)
  then show ?thesis using assms(1) by (auto simp: gate_inv_def nth_list_update intro!: set_update_other set_update_same)
next
  case (lose k req u reg)
  then show ?thesis using assms(1) by (auto simp: gate_inv_def nth_list_update swap_gate_eq intro!: set_update_other)
next
  case (win k req u reg)
  then have "rg_inner (sy_registry s) = Map.empty"
    using assms(1) by (intro gate_open_empty) (simp_all add: swap_gate_eq)
  then show ?thesis using assms(1) win by (auto simp: gate_inv_def nth_list_update swap_gate_eq intro!: set_update_other)
next
  case (insert k req i)
  then show ?thesis using assms(1) by (auto simp: gate_inv_def nth_list_update intro!: set_update_other set_update_same)
qed (use assms(1) in \<open>auto simp: gate_inv_def insert_absorb domIff\<close>)

lemma gate_inv_reachable: "reachable L B s \<Longrightarrow> gate_inv s"
  by (induction rule: reachable.induct) (simp_all add: gate_inv_initial gate_inv_step)

section \<open>One job\<close>

definition is_complete :: "event \<Rightarrow> bool" where
  "is_complete e = (case e of Complete _ \<Rightarrow> True | _ \<Rightarrow> False)"

text \<open>The build itself never emits \<open>Complete\<close>.\<close>

definition quiet_run :: "event build_run \<Rightarrow> bool" where
  "quiet_run rn = (\<forall>e \<in> set_build_run rn. \<not> is_complete e)"

definition build_quiet :: "build_fun \<Rightarrow> bool" where
  "build_quiet B = (\<forall>req. quiet_run (B req))"

lemma quiet_run_Emits [simp]: "quiet_run (Emits e rn) \<longleftrightarrow> \<not> is_complete e \<and> quiet_run rn"
  by (simp add: quiet_run_def)

lemma quiet_run_ends [simp]: "quiet_run (Returns r)" "quiet_run Stalls" "quiet_run Unwinds"
  by (simp_all add: quiet_run_def)

lemma quiet_finite_run: "quiet_run (finite_run (es, r)) \<longleftrightarrow> (\<forall>e \<in> set es. \<not> is_complete e)"
  by (induction es) (simp_all add: finite_run_def)

definition final_state :: "string + bytes \<Rightarrow> server_job_state" where
  "final_state r = (case r of Inr _ \<Rightarrow> Done | Inl e \<Rightarrow> Failed e ''BuildFailed'')"

definition result_of :: "string + bytes \<Rightarrow> bytes option" where
  "result_of r = (case r of Inr b \<Rightarrow> Some b | Inl _ \<Rightarrow> None)"

definition no_complete :: "event list \<Rightarrow> bool" where
  "no_complete es = (\<forall>e \<in> set es. \<not> is_complete e)"

definition phase_inv :: "server_job \<Rightarrow> task \<Rightarrow> bool" where
  "phase_inv j t =
     (case tk_phase t of
        Spawned _ \<Rightarrow> no_complete (sj_event_log j) \<and> sj_state j = Building \<and> sj_result j = None
          \<and> ch_queue (tk_channel t) = [] \<and> tk_pending t = None
      | Running rn \<Rightarrow> no_complete (sj_event_log j) \<and> sj_state j = Building \<and> sj_result j = None \<and> quiet_run rn
      | Unwound \<Rightarrow> no_complete (sj_event_log j) \<and> sj_state j = Building \<and> sj_result j = None
      | Draining r \<Rightarrow> no_complete (sj_event_log j) \<and> sj_state j = Building \<and> sj_result j = result_of r
      | Completing r \<Rightarrow> no_complete (sj_event_log j) \<and> sj_state j = Building \<and> sj_result j = result_of r
          \<and> ch_queue (tk_channel t) = [] \<and> tk_pending t = None
      | Marking r \<Rightarrow> (\<exists>l. sj_event_log j = l @ [complete_event r] \<and> no_complete l) \<and> sj_state j = Building
          \<and> sj_result j = result_of r \<and> ch_queue (tk_channel t) = []
      | Ended \<Rightarrow> (\<exists>r l. sj_event_log j = l @ [complete_event r] \<and> no_complete l \<and> sj_state j = final_state r
          \<and> sj_result j = result_of r) \<and> ch_queue (tk_channel t) = [] \<and> tk_pending t = None)"

definition job_inv :: "server_job \<Rightarrow> task \<Rightarrow> bool" where
  "job_inv j t =
     (ch_open (tk_channel t) \<and> ch_capacity (tk_channel t) = channel_capacity
      \<and> length (ch_queue (tk_channel t)) \<le> channel_capacity \<and> no_complete (ch_queue (tk_channel t))
      \<and> (\<forall>e. tk_pending t = Some e \<longrightarrow> (\<exists>l. sj_event_log j = l @ [e]))
      \<and> phase_inv j t)"

lemma job_inv_receivers [simp]: "job_inv (j\<lparr>sj_receivers := rs\<rparr>) t = job_inv j t"
  by (cases "tk_phase t") (simp_all add: job_inv_def phase_inv_def)

lemma job_simps [simp]:
  "sj_event_log (log_event e j) = sj_event_log j @ [e]" "sj_state (log_event e j) = sj_state j"
  "sj_result (log_event e j) = sj_result j" "sj_receivers (log_event e j) = sj_receivers j"
  "sj_event_log (broadcast_event e j) = sj_event_log j" "sj_state (broadcast_event e j) = sj_state j"
  "sj_result (broadcast_event e j) = sj_result j"
  "sj_receivers (broadcast_event e j) = map (receive e) (sj_receivers j)"
  "sj_event_log (mark_job r j) = sj_event_log j" "sj_state (mark_job r j) = final_state r"
  "sj_result (mark_job r j) = sj_result j" "sj_receivers (mark_job r j) = sj_receivers j"
  by (simp_all add: log_event_def broadcast_event_def mark_job_def mark_done_def mark_failed_def final_state_def
      split: sum.split)

lemma no_complete_simps [simp]:
  "no_complete []" "no_complete (xs @ ys) \<longleftrightarrow> no_complete xs \<and> no_complete ys"
  "no_complete (e # es) \<longleftrightarrow> \<not> is_complete e \<and> no_complete es"
  by (auto simp: no_complete_def)

lemma pack_result_cases:
  assumes "pack_result r j = (j', r')" and "sj_result j = None"
  shows "sj_event_log j' = sj_event_log j \<and> sj_state j' = sj_state j \<and> sj_receivers j' = sj_receivers j
    \<and> r' = r \<and> sj_result j' = result_of r"
  using assms by (auto simp: pack_result_def set_result_def result_of_def split: sum.splits)

lemma sink_event_cases:
  assumes "sink_event e ch = Some ch'"
  shows "ch' = ch \<or> (length (ch_queue ch) < ch_capacity ch \<and> ch' = ch\<lparr>ch_queue := ch_queue ch @ [e]\<rparr>)"
  using assms
  by (cases e) (auto simp: sink_event_def try_emit_def emit_def split: if_splits)

lemma sink_event_blocked:
  "sink_event e ch = None \<Longrightarrow> ch_capacity ch \<le> length (ch_queue ch)"
  by (cases e) (auto simp: sink_event_def try_emit_def emit_def split: if_splits)

lemma new_job_inv: "job_inv (new_job i n) (new_task req)"
  by (simp add: job_inv_def phase_inv_def new_job_def new_task_def)

lemma job_inv_step:
  assumes "job_inv j t" and "job_step B (j, t) (j', t')" and "build_quiet B"
  shows "job_inv j' t'"
  using assms(2)
proof (cases rule: job_step_cases)
  case (start req)
  then show ?thesis using assms(1,3) by (simp add: job_inv_def phase_inv_def build_quiet_def)
next
  case (no_work_dir req err)
  then show ?thesis using assms(1) by (simp add: job_inv_def phase_inv_def result_of_def)
next
  case (emits e rn ch)
  then show ?thesis using assms(1) sink_event_cases [OF emits(2)]
    by (auto simp: job_inv_def phase_inv_def)
next
  case (packed r r')
  then show ?thesis using assms(1) pack_result_cases [OF packed(3)] by (simp add: job_inv_def phase_inv_def)
next
  case unwinds
  then show ?thesis using assms(1) by (simp add: job_inv_def phase_inv_def)
next
  case (forward e q)
  then show ?thesis using assms(1)
    by (cases "tk_phase t") (simp_all add: job_inv_def phase_inv_def forwarding_def)
next
  case (sends e)
  then show ?thesis using assms(1)
    by (cases "tk_phase t") (simp_all add: job_inv_def phase_inv_def)
next
  case (drained r)
  then show ?thesis using assms(1) by (simp add: job_inv_def phase_inv_def)
next
  case (completes r)
  then show ?thesis using assms(1) by (simp add: job_inv_def phase_inv_def)
next
  case (marks r)
  then show ?thesis using assms(1) by (auto simp: job_inv_def phase_inv_def)
qed

definition jobs_inv :: "system \<Rightarrow> bool" where
  "jobs_inv s =
     (\<forall>i j t. rg_inner (sy_registry s) i = Some j \<longrightarrow> sy_tasks s i = Some t \<longrightarrow> job_inv j t)"

lemma jobs_inv_step:
  assumes "jobs_inv s" and "system_step L B s s'" and "build_quiet B"
  shows "jobs_inv s'"
  using assms(2)
proof cases
  case (task i j t j' t')
  have "job_inv j t" using assms(1) task unfolding jobs_inv_def by simp
  then have "job_inv j' t'" using job_inv_step task assms(3) by blast
  then show ?thesis using assms(1) task by (simp add: jobs_inv_def)
next
  case (insert k req i)
  then show ?thesis using assms(1) by (simp add: jobs_inv_def new_job_inv)
next
  case (subscribe i j)
  have "job_inv (Server_Job.subscribe j) t" if "sy_tasks s i = Some t" for t
    using assms(1) subscribe that unfolding jobs_inv_def by (simp add: subscribe_def)
  then show ?thesis using assms(1) subscribe by (simp add: jobs_inv_def)
next
  case (read_live k c j e q)
  have "job_inv (read_receiver (cl_receiver c) q j) t" if "sy_tasks s (cl_job c) = Some t" for t
    using assms(1) read_live that unfolding jobs_inv_def by (simp add: read_receiver_def)
  then show ?thesis using assms(1) read_live by (simp add: jobs_inv_def)
qed (use assms(1) in \<open>auto simp: jobs_inv_def swap_gate_eq\<close>)

lemma jobs_inv_reachable:
  assumes "reachable L B s" and "build_quiet B"
  shows "jobs_inv s"
  using assms
proof (induction rule: reachable.induct)
  case init
  show ?case by (simp add: jobs_inv_def initial_system_def new_registry_def)
next
  case (more s s')
  then show ?case by (simp add: jobs_inv_step)
qed

lemma reachable_job:
  assumes "reachable L B s" and "build_quiet B" and "rg_inner (sy_registry s) i = Some j"
  obtains t where "sy_tasks s i = Some t" "job_inv j t"
proof -
  have "i \<in> dom (sy_tasks s)" using gate_inv_reachable [OF assms(1)] assms(3) by (auto simp: gate_inv_def)
  then show ?thesis using that jobs_inv_reachable [OF assms(1,2)] assms(3) by (auto simp: jobs_inv_def)
qed

section \<open>Which tasks end\<close>

text \<open>A build that returns, after \<open>n\<close> events, with outcome \<open>r\<close>.\<close>

inductive returns_after :: "'e build_run \<Rightarrow> nat \<Rightarrow> string + bytes \<Rightarrow> bool" where
  returned: "returns_after (Returns r) 0 r"
| emitted: "returns_after rn n r \<Longrightarrow> returns_after (Emits e rn) (Suc n) r"

inductive_simps returns_after_simps [simp]:
  "returns_after (Returns r) n r'" "returns_after (Emits e rn) n r'"
  "returns_after Stalls n r'" "returns_after Unwinds n r'"

definition run_returns :: "'e build_run \<Rightarrow> bool" where
  "run_returns rn \<longleftrightarrow> (\<exists>n r. returns_after rn n r)"

lemma run_returns_simps [simp]:
  "run_returns (Returns r)" "run_returns (Emits e rn) \<longleftrightarrow> run_returns rn"
  "\<not> run_returns Stalls" "\<not> run_returns Unwinds"
  by (auto simp: run_returns_def)

lemma finite_run_returns: "returns_after (finite_run (es, r)) (length es) r"
  by (induction es) (simp_all add: finite_run_def)

text \<open>The task's own build returns, or has returned.\<close>

definition build_returns :: "build_fun \<Rightarrow> task_phase \<Rightarrow> bool" where
  "build_returns B ph =
     (case ph of Spawned req \<Rightarrow> run_returns (B req) | Running rn \<Rightarrow> run_returns rn | Unwound \<Rightarrow> False | _ \<Rightarrow> True)"

text \<open>Steps left to a task whose build returns.\<close>

inductive phase_left :: "build_fun \<Rightarrow> task_phase \<Rightarrow> nat \<Rightarrow> bool" for B where
  spawned: "returns_after (B req) n r \<Longrightarrow> phase_left B (Spawned req) (4 * n + 20)"
| running: "returns_after rn n r \<Longrightarrow> phase_left B (Running rn) (4 * n + 10)"
| draining: "phase_left B (Draining r) 8"
| completing: "phase_left B (Completing r) 6"
| marking: "phase_left B (Marking r) 3"
| ended: "phase_left B Ended 0"

inductive_simps phase_left_simps [simp]:
  "phase_left B (Spawned req) m" "phase_left B (Running rn) m" "phase_left B (Draining r) m"
  "phase_left B (Completing r) m" "phase_left B (Marking r) m" "phase_left B Ended m" "phase_left B Unwound m"

lemma build_returns_left: "build_returns B ph \<longleftrightarrow> (\<exists>m. phase_left B ph m)"
  by (cases ph) (auto simp: build_returns_def run_returns_def)

definition buffered :: "task \<Rightarrow> nat" where
  "buffered t = 3 * length (ch_queue (tk_channel t)) + (if tk_pending t = None then 0 else 1)"

lemma job_step_left:
  assumes "job_step B (j, t) (j', t')" and "phase_left B (tk_phase t) m"
  shows "\<exists>m'. phase_left B (tk_phase t') m' \<and> m' + buffered t' < m + buffered t"
  using assms(1)
proof (cases rule: job_step_cases)
  case (start req)
  then obtain n r where "returns_after (B req) n r" "m = 4 * n + 20" using assms(2) by auto
  then show ?thesis using start by (intro exI [of _ "4 * n + 10"]) (auto simp: buffered_def)
next
  case (emits e rn ch)
  then obtain n r where "returns_after rn n r" "m = 4 * Suc n + 10" using assms(2) by auto
  then show ?thesis using emits sink_event_cases [OF emits(2)]
    by (intro exI [of _ "4 * n + 10"]) (auto simp: buffered_def)
qed (use assms(2) in \<open>auto simp: buffered_def\<close>)

lemma job_steps_left:
  "(job_step B ^^ k) (j, t) x \<Longrightarrow> phase_left B (tk_phase t) m \<Longrightarrow>
    \<exists>m'. phase_left B (tk_phase (snd x)) m' \<and> k + m' + buffered (snd x) \<le> m + buffered t"
proof (induction k arbitrary: x)
  case (Suc k)
  then obtain y where y: "(job_step B ^^ k) (j, t) y" "job_step B y x" by auto
  obtain m' where m': "phase_left B (tk_phase (snd y)) m'" "k + m' + buffered (snd y) \<le> m + buffered t"
    using Suc.IH [OF y(1) Suc.prems(2)] by blast
  obtain n where "phase_left B (tk_phase (snd x)) n" "n + buffered (snd x) < m' + buffered (snd y)"
    using job_step_left [of B "fst y" "snd y" "fst x" "snd x"] y(2) m'(1) by auto
  then show ?case using m'(2) by (intro exI [of _ n]) simp
qed auto

text \<open>A task only stops where it ends, or where its build does.\<close>

lemma job_progress:
  assumes "job_inv j t" and "tk_phase t \<noteq> Ended" and "build_returns B (tk_phase t)"
  shows "\<exists>x. job_step B (j, t) x"
proof (cases "tk_pending t")
  case (Some e)
  then show ?thesis using job_step.sends by blast
next
  case None
  have fwd: "\<exists>x. job_step B (j, t) x" if "forwarding (tk_phase t)" "ch_queue (tk_channel t) \<noteq> []"
    using that None job_step.forward by (metis list.exhaust)
  show ?thesis
  proof (cases "tk_phase t")
    case (Spawned req)
    then show ?thesis using job_step.no_work_dir by blast
  next
    case (Running rn)
    show ?thesis
    proof (cases rn)
      case (Returns r)
      then show ?thesis using Running job_step.packed by (metis surj_pair)
    next
      case (Emits e rn')
      show ?thesis
      proof (cases "sink_event e (tk_channel t)")
        case None
        then have "channel_capacity \<le> length (ch_queue (tk_channel t))"
          using sink_event_blocked [OF None] assms(1) by (simp add: job_inv_def)
        then have "ch_queue (tk_channel t) \<noteq> []" by (auto simp: channel_capacity_def)
        then show ?thesis using fwd Running by (simp add: forwarding_def)
      qed (use Running Emits job_step.emits in blast)
    qed (use assms(3) Running in \<open>simp_all add: build_returns_def\<close>)
  next
    case (Draining r)
    show ?thesis
    proof (cases "ch_queue (tk_channel t) = []")
      case True
      then show ?thesis using Draining None job_step.drained by blast
    qed (use fwd Draining in \<open>simp add: forwarding_def\<close>)
  next
    case (Completing r)
    then show ?thesis using None job_step.completes by blast
  next
    case (Marking r)
    then show ?thesis using None job_step.marks by blast
  qed (use assms(2,3) in \<open>simp_all add: build_returns_def\<close>)
qed

lemma job_inv_steps: "(job_step B)\<^sup>*\<^sup>* x y \<Longrightarrow> build_quiet B \<Longrightarrow> job_inv (fst x) (snd x) \<Longrightarrow> job_inv (fst y) (snd y)"
proof (induction rule: rtranclp_induct)
  case (step y z)
  then show ?case using job_inv_step [of "fst y" "snd y" B "fst z" "snd z"] by simp
qed

section \<open>What a client is sent\<close>

text \<open>The events sent so far: the log without the event still pending.\<close>

definition sent_events :: "server_job \<Rightarrow> task \<Rightarrow> event list" where
  "sent_events j t = (if tk_pending t = None then sj_event_log j else butlast (sj_event_log j))"

definition stream_inv :: "event list \<Rightarrow> event list \<Rightarrow> receiver \<Rightarrow> client \<Rightarrow> bool" where
  "stream_inv log sent r c =
     (\<not> rc_lagged r \<longrightarrow>
       (case cl_backlog c of
          None \<Rightarrow> cl_seen c = [] \<and> (\<exists>m \<le> length sent. rc_unread r = drop m sent)
        | Some b \<Rightarrow> \<exists>m n. m \<le> n \<and> n \<le> length log \<and> m \<le> length sent
            \<and> cl_seen c @ b @ rc_unread r = take n log @ drop m sent))"

definition client_inv :: "server_job \<Rightarrow> task \<Rightarrow> client \<Rightarrow> bool" where
  "client_inv j t c =
     (cl_receiver c < length (sj_receivers j) \<and>
      stream_inv (sj_event_log j) (sent_events j t) (sj_receivers j ! cl_receiver c) c)"

lemma job_step_view:
  assumes "job_step B (j, t) (j', t')" and "job_inv j t"
  obtains "sj_event_log j' = sj_event_log j" "tk_pending t' = tk_pending t" "sj_receivers j' = sj_receivers j"
  | e where "tk_pending t = None" "tk_pending t' = Some e" "sj_event_log j' = sj_event_log j @ [e]"
      "sj_receivers j' = sj_receivers j"
  | e l where "tk_pending t = Some e" "tk_pending t' = None" "sj_event_log j = l @ [e]"
      "sj_event_log j' = l @ [e]" "sj_receivers j' = map (receive e) (sj_receivers j)"
  using assms(1)
proof (cases rule: job_step_cases)
  case (packed r r')
  then have "sj_result j = None" using assms(2) by (simp add: job_inv_def phase_inv_def)
  then show ?thesis using packed pack_result_cases [OF packed(3)] that(1) by simp
next
  case (sends e)
  then obtain l where "sj_event_log j = l @ [e]" using assms(2) by (auto simp: job_inv_def)
  then show ?thesis using sends that(3) by simp
qed (use that in simp_all)

lemma receive_lagged: "\<not> rc_lagged (receive e r) \<Longrightarrow> \<not> rc_lagged r \<and> rc_unread (receive e r) = rc_unread r @ [e]"
  by (auto simp: receive_def Let_def split: if_splits)

lemma stream_inv_logged: "stream_inv log sent r c \<Longrightarrow> stream_inv (log @ [e]) sent r c"
  by (fastforce simp: stream_inv_def split: option.splits)

lemma stream_inv_sent:
  assumes "stream_inv (l @ [e]) l r c"
  shows "stream_inv (l @ [e]) (l @ [e]) (receive e r) c"
proof (cases "rc_lagged (receive e r)")
  case True
  then show ?thesis by (simp add: stream_inv_def)
next
  case False
  note nl = receive_lagged [OF False]
  show ?thesis
  proof (cases "cl_backlog c")
    case None
    then obtain m where "m \<le> length l" "rc_unread r = drop m l" "cl_seen c = []"
      using assms nl by (auto simp: stream_inv_def)
    then have "m \<le> length (l @ [e]) \<and> rc_unread (receive e r) = drop m (l @ [e])" using nl by simp
    then show ?thesis using None \<open>cl_seen c = []\<close> unfolding stream_inv_def by auto
  next
    case (Some b)
    then obtain m n where "m \<le> n" "n \<le> length (l @ [e])" "m \<le> length l"
        "cl_seen c @ b @ rc_unread r = take n (l @ [e]) @ drop m l"
      using assms nl by (auto simp: stream_inv_def)
    then have "m \<le> n \<and> n \<le> length (l @ [e]) \<and> m \<le> length (l @ [e])
        \<and> cl_seen c @ b @ rc_unread (receive e r) = take n (l @ [e]) @ drop m (l @ [e])"
      using nl by (simp flip: append_assoc)
    then show ?thesis using Some unfolding stream_inv_def by (simp del: append.simps) blast
  qed
qed

lemma stream_inv_snapshot:
  assumes "stream_inv log sent r c" and "cl_backlog c = None" and "length sent \<le> length log"
  shows "stream_inv log sent r (c\<lparr>cl_backlog := Some log\<rparr>)"
proof (cases "rc_lagged r")
  case False
  then obtain m where "m \<le> length sent" "rc_unread r = drop m sent" "cl_seen c = []"
    using assms(1,2) by (auto simp: stream_inv_def)
  then have "\<exists>m n. m \<le> n \<and> n \<le> length log \<and> m \<le> length sent
      \<and> cl_seen c @ log @ rc_unread r = take n log @ drop m sent"
    using assms(3) by (intro exI [of _ m] exI [of _ "length log"]) simp
  then show ?thesis unfolding stream_inv_def by simp
qed (simp add: stream_inv_def)

lemma client_inv_job_step:
  assumes "client_inv j t c" and "job_step B (j, t) (j', t')" and "job_inv j t"
  shows "client_inv j' t' c"
  using assms(2,3)
proof (cases rule: job_step_view)
  case 1
  then have "sent_events j' t' = sent_events j t" by (simp add: sent_events_def)
  then show ?thesis using assms(1) 1 unfolding client_inv_def by simp
next
  case (2 e)
  then have "sent_events j' t' = sent_events j t" by (simp add: sent_events_def)
  then show ?thesis using assms(1) 2 stream_inv_logged unfolding client_inv_def by simp
next
  case (3 e l)
  then have s: "sent_events j t = l" "sent_events j' t' = l @ [e]" by (simp_all add: sent_events_def)
  then show ?thesis using assms(1) 3 stream_inv_sent [of l e] unfolding client_inv_def by simp
qed

lemma client_inv_receivers:
  assumes "client_inv j t c" and "sj_event_log j' = sj_event_log j"
    and "cl_receiver c < length (sj_receivers j')" and "sj_receivers j' ! cl_receiver c = sj_receivers j ! cl_receiver c"
  shows "client_inv j' t c"
proof -
  have "sent_events j' t = sent_events j t" using assms(2) by (simp add: sent_events_def)
  then show ?thesis using assms unfolding client_inv_def by simp
qed

definition clients_inv :: "system \<Rightarrow> bool" where
  "clients_inv s =
     ((\<forall>k < length (sy_clients s). \<exists>j t.
         rg_inner (sy_registry s) (cl_job (sy_clients s ! k)) = Some j
         \<and> sy_tasks s (cl_job (sy_clients s ! k)) = Some t \<and> client_inv j t (sy_clients s ! k))
      \<and> (\<forall>k < length (sy_clients s). \<forall>l < length (sy_clients s).
           cl_job (sy_clients s ! k) = cl_job (sy_clients s ! l)
           \<and> cl_receiver (sy_clients s ! k) = cl_receiver (sy_clients s ! l) \<longrightarrow> k = l))"

lemma clients_invD:
  assumes "clients_inv s" and "k < length (sy_clients s)"
    and "rg_inner (sy_registry s) (cl_job (sy_clients s ! k)) = Some j"
    and "sy_tasks s (cl_job (sy_clients s ! k)) = Some t"
  shows "client_inv j t (sy_clients s ! k)"
  using assms unfolding clients_inv_def by fastforce

lemma clients_inv_inj:
  assumes "clients_inv s" and "k < length (sy_clients s)" and "l < length (sy_clients s)"
    and "cl_job (sy_clients s ! k) = cl_job (sy_clients s ! l)"
    and "cl_receiver (sy_clients s ! k) = cl_receiver (sy_clients s ! l)"
  shows "k = l"
  using assms unfolding clients_inv_def by blast

lemma clients_inv_task:
  assumes inv: "clients_inv s" "jobs_inv s"
    and "rg_inner (sy_registry s) i = Some j" "sy_tasks s i = Some t" "job_step B (j, t) (j', t')"
  shows "clients_inv (s\<lparr>sy_registry := put_job i j' (sy_registry s), sy_tasks := (sy_tasks s)(i \<mapsto> t')\<rparr>)"
proof -
  have ji: "job_inv j t" using inv(2) assms(3,4) by (simp add: jobs_inv_def)
  have "client_inv j' t' (sy_clients s ! k)" if "k < length (sy_clients s)" "cl_job (sy_clients s ! k) = i" for k
    using clients_invD [OF inv(1) that(1), of j t] that(2) assms(3,4,5) ji client_inv_job_step by simp
  then show ?thesis using inv(1) unfolding clients_inv_def by simp
qed

lemma clients_inv_subscribe:
  assumes inv: "clients_inv s" "jobs_inv s" and j: "rg_inner (sy_registry s) i = Some j" and t: "sy_tasks s i = Some t"
  shows "clients_inv (s\<lparr>sy_registry := put_job i (subscribe j) (sy_registry s),
      sy_clients := sy_clients s @ [\<lparr>cl_job = i, cl_receiver = length (sj_receivers j), cl_backlog = None,
        cl_seen = []\<rparr>]\<rparr>)"
proof -
  have old: "client_inv (subscribe j) t (sy_clients s ! k)" "cl_receiver (sy_clients s ! k) < length (sj_receivers j)"
    if "k < length (sy_clients s)" "cl_job (sy_clients s ! k) = i" for k
  proof -
    have c: "client_inv j t (sy_clients s ! k)" using clients_invD [OF inv(1) that(1)] that(2) j t by simp
    then show "cl_receiver (sy_clients s ! k) < length (sj_receivers j)" by (simp add: client_inv_def)
    then show "client_inv (subscribe j) t (sy_clients s ! k)"
      by (intro client_inv_receivers [OF c]) (simp_all add: subscribe_def nth_append)
  qed
  have new: "client_inv (subscribe j) t \<lparr>cl_job = i, cl_receiver = length (sj_receivers j), cl_backlog = None, cl_seen = []\<rparr>"
    by (auto simp: client_inv_def stream_inv_def subscribe_def)
  show ?thesis
    using inv(1) old new t unfolding clients_inv_def
    by (auto simp: nth_append less_Suc_eq) (metis less_irrefl_nat)+
qed

text \<open>A client of a job moves on; the job keeps its log, and only that client's receiver may change.\<close>

lemma clients_inv_move:
  assumes inv: "clients_inv s" and k: "k < length (sy_clients s)"
    and same: "cl_job c' = cl_job (sy_clients s ! k)" "cl_receiver c' = cl_receiver (sy_clients s ! k)"
    and reg: "\<forall>i. i \<noteq> cl_job c' \<longrightarrow> rg_inner (sy_registry s') i = rg_inner (sy_registry s) i"
    and job: "rg_inner (sy_registry s) (cl_job c') = Some j" "rg_inner (sy_registry s') (cl_job c') = Some j'"
    and log: "sj_event_log j' = sj_event_log j" "length (sj_receivers j') = length (sj_receivers j)"
    and others: "\<forall>l. l \<noteq> cl_receiver c' \<longrightarrow> sj_receivers j' ! l = sj_receivers j ! l"
    and tasks: "sy_tasks s' = sy_tasks s" and clients: "sy_clients s' = (sy_clients s)[k := c']"
    and moved: "\<And>t. sy_tasks s (cl_job c') = Some t \<Longrightarrow> client_inv j t (sy_clients s ! k) \<Longrightarrow> client_inv j' t c'"
  shows "clients_inv s'"
proof -
  have "\<exists>j t. rg_inner (sy_registry s') (cl_job (sy_clients s' ! l)) = Some j
      \<and> sy_tasks s' (cl_job (sy_clients s' ! l)) = Some t \<and> client_inv j t (sy_clients s' ! l)"
    if l: "l < length (sy_clients s)" for l
  proof -
    obtain jl tl where jl: "rg_inner (sy_registry s) (cl_job (sy_clients s ! l)) = Some jl"
      "sy_tasks s (cl_job (sy_clients s ! l)) = Some tl" "client_inv jl tl (sy_clients s ! l)"
      using inv l unfolding clients_inv_def by blast
    show ?thesis
    proof (cases "l = k")
      case True
      then have "client_inv j' tl c'" using jl job(1) same(1) moved by simp
      then show ?thesis using True k jl job(2) same(1) tasks clients by simp
    next
      case False
      then have sl: "sy_clients s' ! l = sy_clients s ! l" using clients by simp
      show ?thesis
      proof (cases "cl_job (sy_clients s ! l) = cl_job c'")
        case True
        then have "cl_receiver (sy_clients s ! l) \<noteq> cl_receiver c'"
          using clients_inv_inj [OF inv l k] True same False by auto
        moreover have "jl = j" using True jl(1) job(1) by simp
        ultimately have "client_inv j' tl (sy_clients s ! l)"
          using client_inv_receivers [of j tl "sy_clients s ! l" j'] jl(3) log others
          by (simp add: client_inv_def)
        then show ?thesis using True jl job tasks sl by simp
      next
        case False
        then show ?thesis using jl reg tasks sl by simp
      qed
    qed
  qed
  moreover have "l = m" if "l < length (sy_clients s)" "m < length (sy_clients s)"
      "cl_job (sy_clients s' ! l) = cl_job (sy_clients s' ! m)"
      "cl_receiver (sy_clients s' ! l) = cl_receiver (sy_clients s' ! m)" for l m
  proof -
    have "cl_job (sy_clients s' ! x) = cl_job (sy_clients s ! x) \<and> cl_receiver (sy_clients s' ! x) = cl_receiver (sy_clients s ! x)"
      for x using same clients k by (cases "x = k") simp_all
    then show ?thesis using clients_inv_inj [OF inv that(1,2)] that(3,4) by simp
  qed
  ultimately show ?thesis unfolding clients_inv_def using clients by simp
qed

lemma clients_inv_step:
  assumes "clients_inv s" and "system_step L B s s'" and "jobs_inv s" and "gate_inv s"
  shows "clients_inv s'"
  using assms(2)
proof cases
  case (insert k req i)
  then have "rg_inner (sy_registry s) = Map.empty" using assms(4) by (auto simp: gate_inv_def)
  then have "sy_clients s = []" using assms(1) unfolding clients_inv_def by (cases "sy_clients s") force+
  then show ?thesis using insert by (simp add: clients_inv_def)
next
  case (task i j t j' t')
  then show ?thesis using clients_inv_task [OF assms(1,3)] by simp
next
  case (subscribe i j)
  have "i \<in> dom (rg_inner (sy_registry s))" using subscribe(2) by auto
  then have "i \<in> dom (sy_tasks s)" using assms(4) by (simp add: gate_inv_def)
  then obtain t where "sy_tasks s i = Some t" by auto
  then show ?thesis using clients_inv_subscribe [OF assms(1,3)] subscribe by simp
next
  case (snapshot k j)
  let ?c = "(sy_clients s ! k)\<lparr>cl_backlog := Some (snapshot_events j)\<rparr>"
  show ?thesis
  proof (rule clients_inv_move [OF assms(1), of k ?c s' j j])
    fix t assume "client_inv j t (sy_clients s ! k)"
    then show "client_inv j t ?c"
      using stream_inv_snapshot [of "sj_event_log j" "sent_events j t" _ "sy_clients s ! k"] snapshot(3)
      by (simp add: client_inv_def snapshot_events_def sent_events_def)
  qed (use snapshot in simp_all)
next
  case (read_backlog k c e b)
  let ?c = "c\<lparr>cl_backlog := Some b, cl_seen := cl_seen c @ [e]\<rparr>"
  obtain j where j: "rg_inner (sy_registry s) (cl_job c) = Some j"
    using assms(1) read_backlog unfolding clients_inv_def by blast
  show ?thesis
    by (rule clients_inv_move [OF assms(1), of k ?c s' j j])
      (use read_backlog j in \<open>simp_all add: client_inv_def stream_inv_def\<close>)
next
  case (read_live k c j e q)
  let ?c = "c\<lparr>cl_seen := cl_seen c @ [e]\<rparr>" and ?j = "read_receiver (cl_receiver c) q j"
  have r: "sj_receivers ?j ! cl_receiver c = (sj_receivers j ! cl_receiver c)\<lparr>rc_unread := q\<rparr>"
    using read_live by (simp add: read_receiver_def)
  have sent: "sent_events ?j t = sent_events j t" "sj_event_log ?j = sj_event_log j"
      "length (sj_receivers ?j) = length (sj_receivers j)" for t
    by (simp_all add: sent_events_def read_receiver_def)
  show ?thesis
  proof (rule clients_inv_move [OF assms(1), of k ?c s' j ?j])
    fix t assume "client_inv j t (sy_clients s ! k)"
    then have "stream_inv (sj_event_log j) (sent_events j t) (sj_receivers j ! cl_receiver c) c"
      using read_live by (simp add: client_inv_def)
    then have "stream_inv (sj_event_log j) (sent_events j t) ((sj_receivers j ! cl_receiver c)\<lparr>rc_unread := q\<rparr>) ?c"
      using read_live by (simp add: stream_inv_def)
    then show "client_inv ?j t ?c"
      using read_live r sent by (simp add: client_inv_def)
  qed (use read_live in \<open>simp_all add: read_receiver_def\<close>)
qed (use assms(1) in \<open>auto simp: clients_inv_def swap_gate_eq\<close>)

lemma clients_inv_reachable:
  assumes "reachable L B s" and "build_quiet B"
  shows "clients_inv s"
  using assms
proof (induction rule: reachable.induct)
  case init
  show ?case by (simp add: clients_inv_def initial_system_def)
next
  case (more s s')
  then show ?case using clients_inv_step jobs_inv_reachable gate_inv_reachable by blast
qed

end
