(* ===== verification/Server_Runs.thy ===== *)
theory Server_Runs
  imports Server
begin

text \<open>
  What the build server promises (\<open>src/src/server\<close>), over every run of the step relation: one build per
  server, valid nonces, a log closed by one \<open>Complete\<close>, streams without gaps, jobs that end; and one
  complete run as the example.
\<close>

section \<open>Runs\<close>

lemma reachable_steps: "(system_step L B)\<^sup>*\<^sup>* s s' \<Longrightarrow> reachable L B s \<Longrightarrow> reachable L B s'"
  by (induction rule: rtranclp_induct) (auto intro: reachable.more)

text \<open>The task of job \<open>i\<close> moves, nothing else.\<close>

definition with_task :: "string \<Rightarrow> server_job \<times> task \<Rightarrow> system \<Rightarrow> system" where
  "with_task i x s =
     s\<lparr>sy_registry := put_job i (fst x) (sy_registry s), sy_tasks := (sy_tasks s)(i \<mapsto> snd x)\<rparr>"

lemma with_task_simps [simp]:
  "rg_inner (sy_registry (with_task i x s)) = (rg_inner (sy_registry s))(i \<mapsto> fst x)"
  "sy_tasks (with_task i x s) = (sy_tasks s)(i \<mapsto> snd x)" "sy_posts (with_task i x s) = sy_posts s"
  "sy_clients (with_task i x s) = sy_clients s" "with_task i x (with_task i y s) = with_task i x s"
  by (simp_all add: with_task_def put_job_def)

lemma with_task_same:
  assumes "rg_inner (sy_registry s) i = Some j" and "sy_tasks s i = Some t"
  shows "with_task i (j, t) s = s"
proof -
  have "(rg_inner (sy_registry s))(i \<mapsto> j) = rg_inner (sy_registry s)" "(sy_tasks s)(i \<mapsto> t) = sy_tasks s"
    using assms by (simp_all add: fun_upd_idem)
  then show ?thesis by (simp add: with_task_def put_job_def)
qed

lemma task_steps:
  assumes "(job_step B)\<^sup>*\<^sup>* (j, t) x" and "rg_inner (sy_registry s) i = Some j" and "sy_tasks s i = Some t"
  shows "(system_step L B)\<^sup>*\<^sup>* s (with_task i x s)"
  using assms(1)
proof (induction rule: rtranclp_induct)
  case base
  then show ?case using with_task_same [OF assms(2,3)] by simp
next
  case (step y z)
  have "system_step L B (with_task i y s) (with_task i z (with_task i y s))"
    unfolding with_task_def [of i z "with_task i y s"]
    by (rule system_step.task [where j = "fst y" and t = "snd y"]) (use step(2) in simp_all)
  then show ?case using step(3) by simp
qed

lemma reachable_task_steps:
  assumes "(job_step B)\<^sup>*\<^sup>* (j, t) x" and "reachable L B s"
    and "rg_inner (sy_registry s) i = Some j" and "sy_tasks s i = Some t"
  shows "reachable L B (with_task i x s)"
  using reachable_steps [OF task_steps [OF assms(1,3,4)] assms(2)] .

lemma job_steps_Cons: "job_step B x y \<Longrightarrow> (job_step B)\<^sup>*\<^sup>* y z \<Longrightarrow> (job_step B)\<^sup>*\<^sup>* x z"
  by (rule converse_rtranclp_into_rtranclp)

lemma job_steps_one: "job_step B x y \<Longrightarrow> (job_step B)\<^sup>*\<^sup>* x y"
  by (rule r_into_rtranclp)

section \<open>An example run\<close>

text \<open>
  One request is accepted; its build emits one event; a client subscribes after the event was logged and
  before it is broadcast, so it is sent that event twice; the job ends with a tarball.
\<close>

definition sample_request :: build_request where
  "sample_request = \<lparr>rq_nonce = hex_of (replicate 16 0), rq_repo_url = Some ''https://example.org/r.git'',
     rq_repo_ref = None, rq_source_data = None, rq_source_name = None\<rparr>"

definition sample_builds :: build_fun where
  "sample_builds req = Emits (Build ''compiling'') (Returns (Inr [1, 2, 3]))"

definition sample_channel :: "event list \<Rightarrow> channel" where
  "sample_channel q = \<lparr>ch_capacity = channel_capacity, ch_open = True, ch_queue = q\<rparr>"

definition sample_job :: "server_job_state \<Rightarrow> event list list \<Rightarrow> event list \<Rightarrow> bytes option \<Rightarrow> server_job" where
  "sample_job st rs es b = \<lparr>sj_id = ''id'', sj_nonce = rq_nonce sample_request, sj_state = st,
     sj_receivers = map (\<lambda>q. \<lparr>rc_unread = q, rc_lagged = False\<rparr>) rs, sj_event_log = es, sj_result = b\<rparr>"

definition sample_task :: "task_phase \<Rightarrow> event option \<Rightarrow> task" where
  "sample_task ph p = \<lparr>tk_phase = ph, tk_channel = sample_channel [], tk_pending = p\<rparr>"

definition sample_system :: "server_job \<times> task \<Rightarrow> client list \<Rightarrow> system" where
  "sample_system x cs =
     \<lparr>sy_registry = \<lparr>rg_gate = True, rg_inner = [''id'' \<mapsto> fst x]\<rparr>, sy_posts = [Replied (Inr ''id'')],
      sy_tasks = [''id'' \<mapsto> snd x], sy_clients = cs\<rparr>"

definition sample_client :: "event list option \<Rightarrow> event list \<Rightarrow> client" where
  "sample_client b seen = \<lparr>cl_job = ''id'', cl_receiver = 0, cl_backlog = b, cl_seen = seen\<rparr>"

abbreviation (input) compiling :: event where "compiling \<equiv> Build ''compiling''"

text \<open>The event is logged, not yet broadcast; then the job at its end with \<open>rs\<close> unread.\<close>

definition sample_logged :: "server_job \<times> task" where
  "sample_logged = (sample_job Building [] [compiling] None,
     sample_task (Running (Returns (Inr [1, 2, 3]))) (Some compiling))"

definition sample_ended :: "event list list \<Rightarrow> server_job \<times> task" where
  "sample_ended rs = (sample_job Done rs [compiling, Complete BuildOk] (Some [1, 2, 3]), sample_task Ended None)"

lemma sample_request_ok: "check_request sample_lib sample_request = Inr ()"
proof -
  have "hex_to (hex_of (replicate 16 0)) = Some (replicate 16 0)" by (rule hex_to_hex_of)
  then have "hex_decode sample_lib (rq_nonce sample_request) = Inr (replicate 16 0)"
    by (simp only: sample_request_def build_request.simps sample_lib_simps option.case)
  then have "validate_nonce sample_lib (rq_nonce sample_request) = Inr (replicate 16 0)"
    by (simp only: validate_nonce_def map_err.simps bnd.simps length_replicate) simp
  then show ?thesis by (simp only: check_request_def bnd.simps) (simp add: sample_request_def)
qed

lemma sample_quiet: "build_quiet sample_builds"
  by (simp add: build_quiet_def sample_builds_def is_complete_def)

lemmas sample_run_defs = sample_job_def sample_task_def sample_channel_def

lemma sample_start: "(job_step sample_builds)\<^sup>*\<^sup>* (new_job ''id'' (rq_nonce sample_request), new_task sample_request) sample_logged"
proof -
  let ?B = sample_builds and ?r = "Inr [1, 2, 3] :: string + bytes" and ?e = compiling
  let ?j = "sample_job Building [] [] None"
  let ?t = "\<lambda>ph q. \<lparr>tk_phase = ph, tk_channel = sample_channel q, tk_pending = None\<rparr>"
  have s1: "job_step ?B (?j, ?t (Spawned sample_request) []) (?j, ?t (Running (Emits ?e (Returns ?r))) [])"
    using job_step.start [where t = "?t (Spawned sample_request) []" and B = ?B and j = ?j]
    by (simp add: sample_builds_def)
  have s2: "job_step ?B (?j, ?t (Running (Emits ?e (Returns ?r))) []) (?j, ?t (Running (Returns ?r)) [?e])"
    using job_step.emits [where t = "?t (Running (Emits ?e (Returns ?r))) []" and B = ?B and j = ?j]
    by (simp add: sink_event_def try_emit_def sample_channel_def channel_capacity_def)
  have s3: "job_step ?B (?j, ?t (Running (Returns ?r)) [?e]) sample_logged"
    using job_step.forward [where t = "?t (Running (Returns ?r)) [?e]" and B = ?B and j = ?j]
    by (simp add: sample_logged_def forwarding_def sample_run_defs log_event_def)
  have new: "(new_job ''id'' (rq_nonce sample_request), new_task sample_request)
      = (?j, ?t (Spawned sample_request) [])"
    by (simp add: new_job_def new_task_def sample_run_defs)
  show ?thesis unfolding new
    using job_steps_Cons [OF s1 job_steps_Cons [OF s2 job_steps_one [OF s3]]] .
qed

lemma sample_finish:
  assumes j: "x = (sample_job Building [[]] [compiling] None, snd sample_logged)"
  shows "(job_step sample_builds)\<^sup>*\<^sup>* x (sample_ended [[compiling, Complete BuildOk]])"
proof -
  let ?B = sample_builds and ?r = "Inr [1, 2, 3] :: string + bytes" and ?e = compiling
  let ?b = "Some [1, 2, 3] :: bytes option" and ?c = "Complete BuildOk"
  have s1: "job_step ?B x (sample_job Building [[?e]] [?e] None, sample_task (Running (Returns ?r)) None)"
    using job_step.sends [where t = "snd sample_logged" and B = ?B and j = "fst x" and e = ?e] j
    by (simp add: sample_logged_def sample_run_defs broadcast_event_def receive_def channel_capacity_def)
  have s2: "job_step ?B (sample_job Building [[?e]] [?e] None, sample_task (Running (Returns ?r)) None)
      (sample_job Building [[?e]] [?e] ?b, sample_task (Draining ?r) None)"
    using job_step.packed [where t = "sample_task (Running (Returns ?r)) None" and r = ?r and B = ?B
        and j = "sample_job Building [[?e]] [?e] None"]
    by (simp add: sample_run_defs pack_result_def set_result_def)
  have s3: "job_step ?B (sample_job Building [[?e]] [?e] ?b, sample_task (Draining ?r) None)
      (sample_job Building [[?e]] [?e] ?b, sample_task (Completing ?r) None)"
    using job_step.drained [where t = "sample_task (Draining ?r) None" and r = ?r and B = ?B
        and j = "sample_job Building [[?e]] [?e] ?b"]
    by (simp add: sample_run_defs)
  have s4: "job_step ?B (sample_job Building [[?e]] [?e] ?b, sample_task (Completing ?r) None)
      (sample_job Building [[?e]] [?e, ?c] ?b, sample_task (Marking ?r) (Some ?c))"
    using job_step.completes [where t = "sample_task (Completing ?r) None" and r = ?r and B = ?B
        and j = "sample_job Building [[?e]] [?e] ?b"]
    by (simp add: sample_run_defs complete_event_def log_event_def)
  have s5: "job_step ?B (sample_job Building [[?e]] [?e, ?c] ?b, sample_task (Marking ?r) (Some ?c))
      (sample_job Building [[?e, ?c]] [?e, ?c] ?b, sample_task (Marking ?r) None)"
    using job_step.sends [where t = "sample_task (Marking ?r) (Some ?c)" and B = ?B and e = ?c
        and j = "sample_job Building [[?e]] [?e, ?c] ?b"]
    by (simp add: sample_run_defs broadcast_event_def receive_def channel_capacity_def)
  have s6: "job_step ?B (sample_job Building [[?e, ?c]] [?e, ?c] ?b, sample_task (Marking ?r) None)
      (sample_ended [[?e, ?c]])"
    using job_step.marks [where t = "sample_task (Marking ?r) None" and B = ?B and r = ?r
        and j = "sample_job Building [[?e, ?c]] [?e, ?c] ?b"]
    by (simp add: sample_ended_def sample_run_defs mark_job_def mark_done_def)
  show ?thesis
    by (rule job_steps_Cons [OF s1 job_steps_Cons [OF s2 job_steps_Cons [OF s3 job_steps_Cons [OF s4
            job_steps_Cons [OF s5 job_steps_one [OF s6]]]]]])
qed

text \<open>Up to the subscription, then with the backlog taken, then after the end with the backlog read.\<close>

lemma accepted_reachable:
  "reachable sample_lib B
     (sample_system (new_job ''id'' (rq_nonce sample_request), new_task sample_request) [])"
proof -
  let ?L = sample_lib and ?B = B
  let ?s1 = "initial_system\<lparr>sy_posts := [Arrived sample_request]\<rparr>"
  let ?reg = "new_registry\<lparr>rg_gate := True\<rparr>"
  let ?s2 = "initial_system\<lparr>sy_registry := ?reg, sy_posts := [Won sample_request]\<rparr>"
  have r1: "reachable ?L ?B ?s1"
    using reachable.more [OF reachable.init system_step.arrive [of ?L ?B initial_system sample_request]]
    by (simp add: initial_system_def)
  have "system_step ?L ?B ?s1 ?s2"
    using system_step.win [of 0 ?s1 sample_request ?L "()" ?reg ?B] sample_request_ok
    by (simp add: initial_system_def swap_gate_eq new_registry_def)
  then have r2: "reachable ?L ?B ?s2" by (rule reachable.more [OF r1])
  have "system_step ?L ?B ?s2
      (sample_system (new_job ''id'' (rq_nonce sample_request), new_task sample_request) [])"
    using system_step.insert [of 0 ?s2 sample_request ?L ?B "''id''"]
    by (simp add: initial_system_def new_registry_def sample_system_def insert_job_def)
  then show ?thesis by (rule reachable.more [OF r2])
qed

lemmas sample_accepted = accepted_reachable [where B = sample_builds]

lemma sample_with_task: "with_task ''id'' x (sample_system y cs) = sample_system x cs"
  by (simp add: with_task_def sample_system_def put_job_def)

lemma sample_system_simps [simp]:
  "rg_inner (sy_registry (sample_system x cs)) = [''id'' \<mapsto> fst x]" "sy_tasks (sample_system x cs) = [''id'' \<mapsto> snd x]"
  "sy_clients (sample_system x cs) = cs" "sy_posts (sample_system x cs) = [Replied (Inr ''id'')]"
  by (simp_all add: sample_system_def)

lemma sample_task_steps:
  assumes "reachable sample_lib sample_builds (sample_system x cs)" and "(job_step sample_builds)\<^sup>*\<^sup>* x y"
  shows "reachable sample_lib sample_builds (sample_system y cs)"
  using reachable_task_steps [of sample_builds "fst x" "snd x" y sample_lib "sample_system x cs" "''id''"] assms
  by (simp add: sample_with_task)

text \<open>The job has ended; its client has its backlog and everything broadcast since still to read.\<close>

lemma sample_ended_reachable:
  "reachable sample_lib sample_builds
     (sample_system (sample_ended [[compiling, Complete BuildOk]]) [sample_client (Some [compiling]) []])"
proof -
  let ?L = sample_lib and ?B = sample_builds and ?x = sample_logged
  let ?y = "(sample_job Building [[]] [compiling] None, snd ?x)"
  have r1: "reachable ?L ?B (sample_system ?x [])"
    by (rule sample_task_steps [OF sample_accepted sample_start])
  have "system_step ?L ?B (sample_system ?x []) (sample_system ?y [sample_client None []])"
    using system_step.subscribe [of "sample_system ?x []" "''id''" "fst ?x" ?L ?B]
    by (simp add: sample_system_def put_job_def subscribe_def sample_client_def sample_logged_def sample_job_def)
  then have r2: "reachable ?L ?B (sample_system ?y [sample_client None []])" by (rule reachable.more [OF r1])
  have "system_step ?L ?B (sample_system ?y [sample_client None []])
      (sample_system ?y [sample_client (Some [compiling]) []])"
    using system_step.snapshot [of 0 "sample_system ?y [sample_client None []]" "fst ?y" ?L ?B]
    by (simp add: sample_system_def sample_client_def sample_job_def snapshot_events_def)
  then have r3: "reachable ?L ?B (sample_system ?y [sample_client (Some [compiling]) []])" by (rule reachable.more [OF r2])
  show ?thesis by (rule sample_task_steps [OF r3 sample_finish]) simp
qed

lemma sample_read_reachable:
  "reachable sample_lib sample_builds
     (sample_system (sample_ended [[]]) [sample_client (Some []) [compiling, compiling, Complete BuildOk]])"
proof -
  let ?L = sample_lib and ?B = sample_builds and ?c = "Complete BuildOk"
  let ?s = "\<lambda>q b seen. sample_system (sample_ended [q]) [sample_client (Some b) seen]"
  have "system_step ?L ?B (?s [compiling, ?c] [compiling] []) (?s [compiling, ?c] [] [compiling])"
    using system_step.read_backlog [of 0 "?s [compiling, ?c] [compiling] []" "sample_client (Some [compiling]) []"
        compiling "[]" ?L ?B]
    by (simp add: sample_system_def sample_client_def)
  then have r1: "reachable ?L ?B (?s [compiling, ?c] [] [compiling])" by (rule reachable.more [OF sample_ended_reachable])
  have live: "system_step ?L ?B (?s (e # q) [] seen) (?s q [] (seen @ [e]))" for e q seen
    using system_step.read_live [of 0 "?s (e # q) [] seen" "sample_client (Some []) seen"
        "fst (sample_ended [e # q])" e q ?L ?B]
    by (simp add: sample_system_def sample_client_def sample_ended_def sample_job_def put_job_def read_receiver_def)
  have r2: "reachable ?L ?B (?s [?c] [] [compiling, compiling])"
    using reachable.more [OF r1 live] by simp
  show ?thesis using reachable.more [OF r2 live] by simp
qed

section \<open>One build per server\<close>

text \<open>
  C6. However requests interleave, at most one of them is ever accepted, and every job of the registry is
  the one whose id that request was answered with: there is at most one job.
\<close>

theorem one_build_accepted:
  assumes "reachable L B s"
  shows "length (filter accepted (sy_posts s)) \<le> 1
    \<and> (\<forall>i j. i \<in> dom (rg_inner (sy_registry s)) \<and> j \<in> dom (rg_inner (sy_registry s)) \<longrightarrow> i = j)"
proof -
  note inv = gate_inv_reachable [OF assms]
  have one: "k = l" if "k < length (sy_posts s)" "l < length (sy_posts s)" "accepted (sy_posts s ! k)"
      "accepted (sy_posts s ! l)" for k l
    using inv that unfolding gate_inv_def by blast
  have "card {k. k < length (sy_posts s) \<and> accepted (sy_posts s ! k)} \<le> Suc 0"
    by (rule card_le_Suc0_iff_eq [THEN iffD2]) (use one in auto)
  moreover have "i = j" if "i \<in> dom (rg_inner (sy_registry s))" "j \<in> dom (rg_inner (sy_registry s))" for i j
  proof -
    have "Replied (Inr i) \<in> set (sy_posts s)" "Replied (Inr j) \<in> set (sy_posts s)"
      using inv that unfolding gate_inv_def by blast+
    then obtain k l where "k < length (sy_posts s)" "sy_posts s ! k = Replied (Inr i)"
      "l < length (sy_posts s)" "sy_posts s ! l = Replied (Inr j)" by (auto simp: in_set_conv_nth)
    moreover have "k = l" using one calculation by simp
    ultimately show ?thesis by simp
  qed
  ultimately show ?thesis by (auto simp: length_filter_conv_card)
qed

theorem one_build_accepted_witness:
  "length (filter accepted [Replied (Inr ''id'')]) \<le> 1"
  using one_build_accepted [OF sample_accepted] by simp

text \<open>What the registry holds: each job under its own id, with a nonce that passed the checks.\<close>

definition nonce_inv :: "lib \<Rightarrow> system \<Rightarrow> bool" where
  "nonce_inv L s =
     ((\<forall>i j. rg_inner (sy_registry s) i = Some j \<longrightarrow>
         sj_id j = i \<and> (\<exists>raw. hex_decode L (sj_nonce j) = Inr raw \<and> length raw = 16))
      \<and> (\<forall>req. Won req \<in> set (sy_posts s) \<longrightarrow> check_request L req = Inr ()))"

lemma check_request_nonce:
  "check_request L req = Inr () \<Longrightarrow> \<exists>raw. hex_decode L (rq_nonce req) = Inr raw \<and> length raw = 16"
  by (auto simp: check_request_def validate_nonce_def split: if_splits)

lemma job_step_identity:
  assumes "job_step B (j, t) (j', t')"
  shows "sj_id j' = sj_id j \<and> sj_nonce j' = sj_nonce j"
  using assms
proof (cases rule: job_step_cases)
  case (packed r r')
  then show ?thesis by (auto simp: pack_result_def set_result_def split: sum.splits option.splits)
qed (simp_all add: log_event_def broadcast_event_def mark_job_def mark_done_def mark_failed_def split: sum.split)

lemma nonce_inv_step:
  assumes "nonce_inv L s" and "system_step L B s s'"
  shows "nonce_inv L s'"
  using assms(2)
proof cases
  case (win k req u reg)
  then show ?thesis using assms(1) set_update_subset_insert [of "sy_posts s" k "Won req"]
    by (auto simp: nonce_inv_def swap_gate_eq)
next
  case (insert k req i)
  then have "Won req \<in> set (sy_posts s)" using nth_mem by metis
  then have "check_request L req = Inr ()" using assms(1) by (simp add: nonce_inv_def)
  then show ?thesis using assms(1) insert set_update_subset_insert [of "sy_posts s" k "Replied (Inr i)"]
      check_request_nonce by (auto simp: nonce_inv_def new_job_def)
next
  case (task i j t j' t')
  then show ?thesis using assms(1) job_step_identity [OF task(4)] by (simp add: nonce_inv_def)
next
  case (reject k req e)
  then show ?thesis using assms(1) set_update_subset_insert [of "sy_posts s" k "Replied (Inl e)"]
    by (auto simp: nonce_inv_def)
next
  case (lose k req u reg)
  then show ?thesis using assms(1) set_update_subset_insert [of "sy_posts s" k "Replied (Inl conflict_error)"]
    by (auto simp: nonce_inv_def swap_gate_eq)
qed (use assms(1) in \<open>auto simp: nonce_inv_def subscribe_def read_receiver_def\<close>)

lemma nonce_inv_reachable: "reachable L B s \<Longrightarrow> nonce_inv L s"
proof (induction rule: reachable.induct)
  case init
  show ?case by (simp add: nonce_inv_def initial_system_def new_registry_def)
qed (simp add: nonce_inv_step)

text \<open>
  C38. In every reachable state the registry is well formed: a job is stored under its own id, its nonce is
  the hex of exactly 16 bytes, its task exists, and between build and forwarder at most 256 events wait.
\<close>

theorem registry_well_formed:
  assumes "reachable L B s" and "build_quiet B" and "rg_inner (sy_registry s) i = Some j"
  shows "sj_id j = i \<and> (\<exists>raw. hex_decode L (sj_nonce j) = Inr raw \<and> length raw = 16)
    \<and> (\<exists>t. sy_tasks s i = Some t \<and> length (ch_queue (tk_channel t)) \<le> 256)"
proof -
  obtain t where "sy_tasks s i = Some t" "job_inv j t" by (rule reachable_job [OF assms])
  moreover have "sj_id j = i \<and> (\<exists>raw. hex_decode L (sj_nonce j) = Inr raw \<and> length raw = 16)"
    using nonce_inv_reachable [OF assms(1)] assms(3) unfolding nonce_inv_def by blast
  ultimately show ?thesis by (auto simp: job_inv_def channel_capacity_def)
qed

theorem registry_well_formed_witness:
  "sj_id (new_job ''id'' (rq_nonce sample_request)) = ''id''"
  using registry_well_formed [OF sample_accepted sample_quiet, of "''id''"] by simp

section \<open>How a job ends\<close>

lemma job_inv_closed:
  assumes "job_inv j t"
  shows "(no_complete (sj_event_log j) \<and> sj_state j = Building)
    \<or> (\<exists>l r. sj_event_log j = l @ [complete_event r] \<and> no_complete l \<and> sj_result j = result_of r
        \<and> (sj_state j = Building \<or> sj_state j = final_state r))"
  using assms by (cases "tk_phase t") (auto simp: job_inv_def phase_inv_def)

lemma is_complete_event [simp]: "is_complete (complete_event r)"
  by (simp add: complete_event_def is_complete_def)

text \<open>
  C7. A job's log holds at most one \<open>Complete\<close>, and nothing after it. Until it is there the job is
  building; once it is there it tells the truth: it reports success exactly when the result is stored for
  download, and the state the job reaches is the outcome it names.
\<close>

theorem log_closed_by_complete:
  assumes "reachable L B s" and "build_quiet B" and "rg_inner (sy_registry s) i = Some j"
  shows "(no_complete (sj_event_log j) \<and> sj_state j = Building)
    \<or> (\<exists>l r. sj_event_log j = l @ [complete_event r] \<and> no_complete l \<and> sj_result j = result_of r
        \<and> (sj_state j = Building \<or> sj_state j = final_state r))"
proof -
  obtain t where "job_inv j t" using reachable_job [OF assms] by metis
  then show ?thesis by (rule job_inv_closed)
qed

theorem log_closed_by_complete_witness:
  "\<exists>l r. [compiling, Complete BuildOk] = l @ [complete_event r] \<and> no_complete l"
proof -
  let ?j = "fst (sample_ended [[]])"
  have "\<not> no_complete (sj_event_log ?j)" by (simp add: sample_ended_def sample_job_def is_complete_def)
  then show ?thesis
    using log_closed_by_complete [OF sample_read_reachable sample_quiet, of "''id''" ?j]
    by (auto simp: sample_ended_def sample_job_def)
qed

text \<open>
  C9. A client of the event stream that never lagged misses nothing: once the job has ended and the
  client has read all there is, what it was sent is the whole log, except that the events from some
  position \<open>m\<close> up to the position \<open>n\<close> of its snapshot come a second time. So the last event it sees
  is the job's \<open>Complete\<close>.
\<close>

theorem stream_without_gaps:
  assumes "reachable L B s" and "build_quiet B" and "k < length (sy_clients s)"
    and "c = sy_clients s ! k" and "rg_inner (sy_registry s) (cl_job c) = Some j"
    and "sy_tasks s (cl_job c) = Some t" and "tk_phase t = Ended"
    and "\<not> rc_lagged (sj_receivers j ! cl_receiver c)" and "rc_unread (sj_receivers j ! cl_receiver c) = []"
    and "cl_backlog c = Some []"
  shows "\<exists>m n r. m \<le> n \<and> n \<le> length (sj_event_log j)
    \<and> cl_seen c = take n (sj_event_log j) @ drop m (sj_event_log j)
    \<and> set (cl_seen c) = set (sj_event_log j) \<and> last (sj_event_log j) = complete_event r \<and> sj_event_log j \<noteq> []"
proof -
  let ?log = "sj_event_log j"
  have "job_inv j t" using jobs_inv_reachable [OF assms(1,2)] assms(5,6) unfolding jobs_inv_def by blast
  then obtain l r where l: "?log = l @ [complete_event r]" "tk_pending t = None"
    using assms(7) by (auto simp: job_inv_def phase_inv_def)
  have "client_inv j t c"
    using clients_invD [OF clients_inv_reachable [OF assms(1,2)] assms(3)] assms(4,5,6) by simp
  then obtain m n where mn: "m \<le> n" "n \<le> length ?log" "cl_seen c = take n ?log @ drop m ?log"
    using assms(8,9,10) l(2) unfolding client_inv_def stream_inv_def sent_events_def by auto
  have "set ?log = set (take n ?log) \<union> set (drop n ?log)" by (metis append_take_drop_id set_append)
  moreover have "set (drop n ?log) \<subseteq> set (drop m ?log)" using mn(1) by (rule set_drop_subset_set_drop)
  ultimately have "set (cl_seen c) = set ?log"
    using mn(3) set_take_subset [of n ?log] set_drop_subset [of m ?log] by auto
  then show ?thesis using mn l(1) by fastforce
qed

theorem stream_without_gaps_witness:
  "\<exists>m n. m \<le> n \<and> [compiling, compiling, Complete BuildOk]
    = take n [compiling, Complete BuildOk] @ drop m [compiling, Complete BuildOk]"
proof -
  let ?s = "sample_system (sample_ended [[]]) [sample_client (Some []) [compiling, compiling, Complete BuildOk]]"
  have j: "rg_inner (sy_registry ?s) ''id'' = Some (fst (sample_ended [[]]))"
    "sy_tasks ?s ''id'' = Some (snd (sample_ended [[]]))" by simp_all
  show ?thesis
    using stream_without_gaps [OF sample_read_reachable sample_quiet, of 0, OF _ refl, of "fst (sample_ended [[]])"
        "snd (sample_ended [[]])"]
    by (simp add: sample_client_def sample_ended_def sample_job_def sample_task_def) blast
qed

text \<open>What a build that returns \<open>v\<close> leaves, step by step.\<close>

definition outcome_inv :: "build_fun \<Rightarrow> string + bytes \<Rightarrow> server_job \<Rightarrow> task \<Rightarrow> bool" where
  "outcome_inv B v j t =
     (case tk_phase t of
        Spawned req \<Rightarrow> (\<exists>n. returns_after (B req) n v) \<and> sj_event_log j = []
      | Running rn \<Rightarrow> \<exists>n. returns_after rn n v
      | Draining r \<Rightarrow> r = v
      | Completing r \<Rightarrow> r = v \<or> ((\<exists>e. r = Inl e) \<and> sj_event_log j = [])
      | Marking r \<Rightarrow> r = v \<or> ((\<exists>e. r = Inl e) \<and> sj_event_log j = [complete_event r])
      | Ended \<Rightarrow> (\<exists>w l. sj_event_log j = l @ [complete_event w] \<and> sj_state j = final_state w
          \<and> sj_result j = result_of w \<and> (w = v \<or> ((\<exists>e. w = Inl e) \<and> l = [])))
      | Unwound \<Rightarrow> False)"

lemma outcome_inv_new: "returns_after (B req) n v \<Longrightarrow> outcome_inv B v (new_job i nonce) (new_task req)"
  by (auto simp: outcome_inv_def new_job_def new_task_def)

lemma outcome_inv_step:
  assumes "outcome_inv B v j t" and "job_step B (j, t) (j', t')" and "job_inv j t"
  shows "outcome_inv B v j' t'"
  using assms(2)
proof (cases rule: job_step_cases)
  case (packed r r')
  then have "sj_result j = None" using assms(3) by (simp add: job_inv_def phase_inv_def)
  then show ?thesis using assms(1) packed pack_result_cases [OF packed(3)] by (simp add: outcome_inv_def)
next
  case (marks r)
  obtain l where "sj_event_log j = l @ [complete_event r]" "sj_result j = result_of r"
    using assms(3) marks by (auto simp: job_inv_def phase_inv_def)
  then show ?thesis using assms(1) marks by (auto simp: outcome_inv_def)
next
  case (forward e q)
  then show ?thesis using assms(1)
    by (cases "tk_phase t") (simp_all add: outcome_inv_def forwarding_def)
next
  case (sends e)
  then show ?thesis using assms(1) by (cases "tk_phase t") (simp_all add: outcome_inv_def)
qed (use assms(1) in \<open>auto simp: outcome_inv_def\<close>)

lemma job_invs_steps:
  "(job_step B ^^ k) (j, t) x \<Longrightarrow> build_quiet B \<Longrightarrow> job_inv j t \<Longrightarrow> outcome_inv B v j t \<Longrightarrow>
    job_inv (fst x) (snd x) \<and> outcome_inv B v (fst x) (snd x)"
proof (induction k arbitrary: x)
  case (Suc k)
  then obtain y where y: "(job_step B ^^ k) (j, t) y" "job_step B y x" by auto
  then show ?case
    using Suc.IH [OF y(1) Suc.prems(2-4)] job_inv_step [of "fst y" "snd y" B "fst x" "snd x"]
      outcome_inv_step [of B v "fst y" "snd y" "fst x" "snd x"] Suc.prems(2) by simp
qed simp

lemma outcome_returns: "outcome_inv B v j t \<Longrightarrow> build_returns B (tk_phase t)"
  by (cases "tk_phase t") (auto simp: outcome_inv_def build_returns_def run_returns_def)

text \<open>
  C39. A build that returns \<open>v\<close> after \<open>n\<close> events has a task of at most \<open>4 n + 20\<close> steps, whatever the
  order in which task and forwarder run, and one that never stops short: wherever it can get, it has a
  next step, or it has ended and the job tells the outcome of that build (or, with an empty log before
  it, that no working directory could be made).
\<close>

theorem job_terminates:
  assumes "build_quiet B" and "returns_after (B req) n v"
    and "(job_step B ^^ k) (new_job i nonce, new_task req) (j, t)"
  shows "k \<le> 4 * n + 20
    \<and> ((\<exists>x. job_step B (j, t) x)
       \<or> (tk_phase t = Ended \<and> (\<exists>w l. sj_event_log j = l @ [complete_event w] \<and> sj_state j = final_state w
            \<and> sj_result j = result_of w \<and> (w = v \<or> ((\<exists>e. w = Inl e) \<and> l = [])))))"
proof
  have "phase_left B (tk_phase (new_task req)) (4 * n + 20)" using assms(2) by (auto simp: new_task_def)
  from job_steps_left [OF assms(3) this] show "k \<le> 4 * n + 20" by (auto simp: new_task_def buffered_def)
  have inv: "job_inv j t" "outcome_inv B v j t"
    using job_invs_steps [OF assms(3,1) new_job_inv outcome_inv_new [of B req, OF assms(2)]] by simp_all
  show "(\<exists>x. job_step B (j, t) x) \<or> (tk_phase t = Ended \<and> (\<exists>w l. sj_event_log j = l @ [complete_event w]
      \<and> sj_state j = final_state w \<and> sj_result j = result_of w \<and> (w = v \<or> ((\<exists>e. w = Inl e) \<and> l = []))))"
  proof (cases "tk_phase t = Ended")
    case True
    then show ?thesis using inv(2) by (simp add: outcome_inv_def)
  next
    case False
    then show ?thesis using job_progress [OF inv(1) False outcome_returns [OF inv(2)]] by blast
  qed
qed

theorem job_terminates_witness:
  "\<exists>k x. k \<le> 24 \<and> (job_step sample_builds ^^ k) (new_job ''id'' (rq_nonce sample_request), new_task sample_request) sample_logged
    \<and> job_step sample_builds sample_logged x"
proof -
  obtain k where k: "(job_step sample_builds ^^ k)
      (new_job ''id'' (rq_nonce sample_request), new_task sample_request) (fst sample_logged, snd sample_logged)"
    using rtranclp_imp_relpowp [OF sample_start] by auto
  have "returns_after (sample_builds sample_request) 1 (Inr [1, 2, 3])" by (simp add: sample_builds_def)
  from job_terminates [OF sample_quiet this k] k show ?thesis by (auto simp: sample_logged_def sample_task_def)
qed

section \<open>Which jobs complete\<close>

text \<open>Along every sequence of steps, however it goes on, a state with \<open>P\<close> comes.\<close>

inductive inevitably :: "('s \<Rightarrow> 's \<Rightarrow> bool) \<Rightarrow> ('s \<Rightarrow> bool) \<Rightarrow> 's \<Rightarrow> bool" for R P where
  now: "P x \<Longrightarrow> inevitably R P x"
| later: "R x y \<Longrightarrow> (\<And>z. R x z \<Longrightarrow> inevitably R P z) \<Longrightarrow> inevitably R P x"

lemma inevitably_mono: "inevitably R P x \<Longrightarrow> (\<And>y. P y \<Longrightarrow> Q y) \<Longrightarrow> inevitably R Q x"
  by (induction rule: inevitably.induct) (auto intro: inevitably.intros)

definition completed_from :: "event list \<Rightarrow> server_job \<times> task \<Rightarrow> bool" where
  "completed_from log y \<longleftrightarrow> is_terminal (fst y)
     \<and> (\<exists>l l' r. sj_event_log (fst y) = log @ l \<and> sj_event_log (fst y) = l' @ [complete_event r])"

lemma job_log_grows:
  assumes "job_step B (j, t) (j', t')" and "job_inv j t"
  shows "\<exists>l. sj_event_log j' = sj_event_log j @ l"
  using job_step_view [OF assms] by (metis append_Nil2)

lemma final_state_terminal: "final_state r \<noteq> Building"
  by (simp add: final_state_def split: sum.split)

lemma terminal_iff_ended: "job_inv j t \<Longrightarrow> is_terminal j \<longleftrightarrow> tk_phase t = Ended"
  by (cases "tk_phase t")
    (auto simp: job_inv_def phase_inv_def is_terminal_def dest: sym [THEN notE [OF final_state_terminal]]
      split: server_job_state.splits)

lemma job_completes:
  assumes "build_quiet B"
  shows "job_inv j t \<Longrightarrow> phase_left B (tk_phase t) m \<Longrightarrow> inevitably (job_step B) (completed_from (sj_event_log j)) (j, t)"
proof (induction "m + buffered t" arbitrary: j t m rule: less_induct)
  case less
  show ?case
  proof (cases "tk_phase t = Ended")
    case True
    then have "is_terminal j" using terminal_iff_ended [OF less.prems(1)] by simp
    then have "completed_from (sj_event_log j) (j, t)"
      using less.prems(1) True by (auto simp: completed_from_def job_inv_def phase_inv_def)
    then show ?thesis by (rule inevitably.now)
  next
    case False
    have "build_returns B (tk_phase t)" using less.prems(2) by (auto simp: build_returns_left)
    then obtain y where y: "job_step B (j, t) y" using job_progress [OF less.prems(1) False] by blast
    show ?thesis
    proof (rule inevitably.later [where R = "job_step B" and y = y])
      show "job_step B (j, t) y" by (rule y)
      fix z assume "job_step B (j, t) z"
      then have z: "job_step B (j, t) (fst z, snd z)" by simp
      obtain m' where m': "phase_left B (tk_phase (snd z)) m'" "m' + buffered (snd z) < m + buffered t"
        using job_step_left [OF z less.prems(2)] by blast
      obtain l where l: "sj_event_log (fst z) = sj_event_log j @ l"
        using job_log_grows [OF z less.prems(1)] by blast
      have "inevitably (job_step B) (completed_from (sj_event_log (fst z))) (fst z, snd z)"
        by (rule less.hyps [OF m'(2) job_inv_step [OF less.prems(1) z assms] m'(1)])
      then show "inevitably (job_step B) (completed_from (sj_event_log j)) z"
        using l by (auto simp: completed_from_def elim!: inevitably_mono)
    qed
  qed
qed

text \<open>A build that does not return takes its task along.\<close>

definition hopeless :: "task \<Rightarrow> bool" where
  "hopeless t = (case tk_phase t of Running rn \<Rightarrow> \<not> run_returns rn | Unwound \<Rightarrow> True | _ \<Rightarrow> False)"

lemma hopeless_step: "hopeless t \<Longrightarrow> job_step B (j, t) (j', t') \<Longrightarrow> hopeless t'"
  by (erule job_stepE) (auto simp: hopeless_def)

lemma hopeless_steps: "(job_step B)\<^sup>*\<^sup>* x y \<Longrightarrow> hopeless (snd x) \<Longrightarrow> hopeless (snd y)"
  by (induction rule: rtranclp_induct) (metis hopeless_step prod.collapse)+

lemma hopeless_building: "hopeless t \<Longrightarrow> job_inv j t \<Longrightarrow> sj_state j = Building \<and> no_complete (sj_event_log j)"
  by (cases "tk_phase t") (auto simp: hopeless_def job_inv_def phase_inv_def)

lemma hopeless_not_inevitable:
  "inevitably (job_step B) (completed_from log) x \<Longrightarrow> build_quiet B \<Longrightarrow> job_inv (fst x) (snd x) \<Longrightarrow>
    build_returns B (tk_phase (snd x))"
proof (induction rule: inevitably.induct)
  case (now x)
  then have "tk_phase (snd x) = Ended" using terminal_iff_ended by (auto simp: completed_from_def)
  then show ?case by (simp add: build_returns_def)
next
  case (later x y)
  have inv: "job_inv (fst z) (snd z)" if "job_step B x z" for z
    using job_inv_step [of "fst x" "snd x" B "fst z" "snd z"] later.prems that by simp
  show ?case
  proof (rule ccontr)
    assume no: "\<not> build_returns B (tk_phase (snd x))"
    have "\<exists>z. job_step B x z \<and> hopeless (snd z)"
    proof (cases "hopeless (snd x)")
      case True
      then show ?thesis
        using later(1) hopeless_step [of "snd x" B "fst x" "fst y" "snd y"] by (intro exI [of _ y]) simp
    next
      case False
      then obtain req where "tk_phase (snd x) = Spawned req" "\<not> run_returns (B req)"
        using no by (auto simp: hopeless_def build_returns_def split: task_phase.splits)
      then show ?thesis using job_step.start [of "snd x" req B "fst x"]
        by (intro exI [of _ "(fst x, snd x\<lparr>tk_phase := Running (B req)\<rparr>)"]) (simp add: hopeless_def)
    qed
    then obtain z where z: "job_step B x z" "hopeless (snd z)" by blast
    then have "build_returns B (tk_phase (snd z))" using later.IH [OF z(1) later.prems(1) inv [OF z(1)]] by simp
    then show False using z(2) by (cases "tk_phase (snd z)") (auto simp: hopeless_def build_returns_def)
  qed
qed

text \<open>
  C8. An accepted build completes exactly when its build returns. From every reachable state, however
  task and forwarder take turns, the job comes to a terminal state whose log extends the present one and
  ends with \<open>Complete\<close>, if and only if its build returns or has returned. A build that stalls, emits for
  ever or unwinds its task leaves the job building for ever, without a \<open>Complete\<close>.
\<close>

theorem accepted_build_completes:
  assumes "reachable L B s" and "build_quiet B" and "rg_inner (sy_registry s) i = Some j"
    and "sy_tasks s i = Some t"
  shows "(inevitably (job_step B) (completed_from (sj_event_log j)) (j, t) \<longleftrightarrow> build_returns B (tk_phase t))
    \<and> (hopeless t \<longrightarrow> (\<forall>y. (job_step B)\<^sup>*\<^sup>* (j, t) y \<longrightarrow> sj_state (fst y) = Building \<and> no_complete (sj_event_log (fst y))))"
proof -
  have inv: "job_inv j t" using jobs_inv_reachable [OF assms(1,2)] assms(3,4) by (simp add: jobs_inv_def)
  have "sj_state (fst y) = Building \<and> no_complete (sj_event_log (fst y))"
    if "hopeless t" "(job_step B)\<^sup>*\<^sup>* (j, t) y" for y
    using hopeless_building [of "snd y" "fst y"] hopeless_steps [OF that(2)] that(1)
      job_inv_steps [OF that(2) assms(2)] inv by simp
  then show ?thesis
    using job_completes [OF assms(2) inv] hopeless_not_inevitable [of B _ "(j, t)"] assms(2) inv
    by (auto simp: build_returns_left)
qed

text \<open>The example completes; the same request with a build that stalls does not.\<close>

definition stalling_builds :: build_fun where
  "stalling_builds req = Emits compiling Stalls"

lemma stalling_accepted:
  "reachable sample_lib stalling_builds
     (sample_system (new_job ''id'' (rq_nonce sample_request), new_task sample_request) [])"
  by (rule accepted_reachable)

theorem accepted_build_completes_witness:
  "inevitably (job_step sample_builds) (completed_from []) (new_job ''id'' (rq_nonce sample_request), new_task sample_request)
    \<and> \<not> inevitably (job_step stalling_builds) (completed_from []) (new_job ''id'' (rq_nonce sample_request), new_task sample_request)"
proof -
  let ?s = "sample_system (new_job ''id'' (rq_nonce sample_request), new_task sample_request) []"
  have j: "rg_inner (sy_registry ?s) ''id'' = Some (new_job ''id'' (rq_nonce sample_request))"
    "sy_tasks ?s ''id'' = Some (new_task sample_request)" by simp_all
  have "build_quiet stalling_builds" by (simp add: build_quiet_def stalling_builds_def is_complete_def)
  from accepted_build_completes [OF sample_accepted sample_quiet j] accepted_build_completes [OF stalling_accepted this j]
  show ?thesis by (simp add: new_job_def new_task_def build_returns_def sample_builds_def stalling_builds_def)
qed

section \<open>The handler as steps\<close>

text \<open>
  The request handler refines the steps: whatever \<open>post_build\<close> answers and leaves in the registry, the
  system gets there by the handler's own steps (check, gate, insertion), with a task exactly when the
  runner is called.
\<close>

theorem post_build_refines:
  assumes "post_build L i req (sy_registry s) = (reply, reg, spawned)"
    and "k < length (sy_posts s)" and "sy_posts s ! k = Arrived req"
  shows "(system_step L B)\<^sup>*\<^sup>* s (s\<lparr>sy_registry := reg,
    sy_tasks := (case spawned of None \<Rightarrow> sy_tasks s | Some (job, r) \<Rightarrow> (sy_tasks s)(job \<mapsto> new_task r)),
    sy_posts := (sy_posts s)[k := Replied reply]\<rparr>)"
proof (cases "check_request L req")
  case (Inl e)
  then show ?thesis using assms(1) system_step.reject [OF assms(2,3) Inl, of B]
    by (auto simp: post_build_def)
next
  case (Inr u)
  let ?reg = "(sy_registry s)\<lparr>rg_gate := True\<rparr>"
  have gate: "swap_gate (sy_registry s) = (rg_gate (sy_registry s), ?reg)" by (simp add: swap_gate_def)
  show ?thesis
  proof (cases "rg_gate (sy_registry s)")
    case True
    then show ?thesis using assms(1) Inr gate system_step.lose [OF assms(2,3) Inr, of ?reg B]
      by (auto simp: post_build_def try_register_with_nonce_def)
  next
    case False
    let ?s1 = "s\<lparr>sy_registry := ?reg, sy_posts := (sy_posts s)[k := Won req]\<rparr>"
    have s1: "system_step L B s ?s1" using system_step.win [OF assms(2,3) Inr] gate False by simp
    have "system_step L B ?s1 (s\<lparr>sy_registry := insert_job i (rq_nonce req) ?reg,
        sy_tasks := (sy_tasks s)(i \<mapsto> new_task req), sy_posts := (sy_posts s)[k := Replied (Inr i)]\<rparr>)"
      using system_step.insert [of k ?s1 req L B i] assms(2) by simp
    then show ?thesis using assms(1) Inr gate False converse_rtranclp_into_rtranclp [of "system_step L B", OF s1 r_into_rtranclp]
      by (auto simp: post_build_def try_register_with_nonce_def)
  qed
qed

theorem post_build_refines_witness:
  "\<exists>s. (system_step sample_lib sample_builds)\<^sup>*\<^sup>* (initial_system\<lparr>sy_posts := [Arrived sample_request]\<rparr>) s
    \<and> sy_posts s = [Replied (Inr ''id'')] \<and> sy_tasks s ''id'' = Some (new_task sample_request)"
proof -
  let ?s = "initial_system\<lparr>sy_posts := [Arrived sample_request]\<rparr>"
  have "post_build sample_lib ''id'' sample_request (sy_registry ?s)
      = (Inr ''id'', insert_job ''id'' (rq_nonce sample_request) (new_registry\<lparr>rg_gate := True\<rparr>),
         Some (''id'', sample_request))"
    using sample_request_ok
    by (simp add: post_build_def try_register_with_nonce_def swap_gate_def initial_system_def new_registry_def)
  from post_build_refines [OF this, of 0 sample_builds] show ?thesis by fastforce
qed

end
