(* ===== verification/Attest_Build.thy ===== *)
theory Attest_Build
  imports Attestation Build_Command Server
begin

text \<open>
  \<open>kettle attest\<close> as a whole (\<open>src/src/commands/attest.rs\<close>): the build, then the attestation of what it
  wrote; the server runs the same command. What it leaves passes \<open>kettle verify\<close>, and the events it
  emits never claim completion.
\<close>

section \<open>The command\<close>

text \<open>The platform as the attestation library sees it.\<close>

record platform =
  pf_detect :: "string option"
  pf_attest :: "string \<Rightarrow> bytes \<Rightarrow> bytes option"
  pf_write :: "bytes \<Rightarrow> string + unit"

definition environment_after :: "platform \<Rightarrow> unit res \<Rightarrow> world \<Rightarrow> attest_env" where
  "environment_after P r w = \<lparr>
     ae_build = r,
     ae_detect = pf_detect P,
     ae_provenance = (case wo_files w ''provenance.json'' of
        Some b \<Rightarrow> Inr b | None \<Rightarrow> Inl ''No such file or directory (os error 2)''),
     ae_attest = pf_attest P,
     ae_write = pf_write P\<rparr>"

text \<open>The build in the project directory, then the attestation; the evidence is one more file.\<close>

definition attest_path ::
  "cfg_lib \<Rightarrow> lib \<Rightarrow> attest_lib \<Rightarrow> (bytes list \<Rightarrow> bytes option) \<Rightarrow> env \<Rightarrow> plant \<Rightarrow> platform \<Rightarrow> string
    \<Rightarrow> string option \<Rightarrow> unit act" where
  "attest_path C L A M E pl P path nonce w =
     (let (r, v) = build_with_sink C L M E pl path w;
          (events, out) = attest_with_sink L A (environment_after P r v) nonce;
          u = v\<lparr>wo_trace := wo_trace v @ events\<rparr>
      in (case out of
            Inl e \<Rightarrow> (Inl e, u)
          | Inr evidence \<Rightarrow> (Inr (), u\<lparr>wo_files := (wo_files u)(''evidence.json'' \<mapsto> evidence)\<rparr>)))"

text \<open>
  The process (\<open>src/src/main.rs\<close>) once its arguments are parsed: the command, and its error as the exit
  status.
\<close>

datatype command =
    AttestCommand string "string option"
  | BuildCommand string
  | VerifyCommand build_fs verify_args

definition run_command ::
  "cfg_lib \<Rightarrow> lib \<Rightarrow> attest_lib \<Rightarrow> igvm_lib \<Rightarrow> bool \<Rightarrow> (bytes list \<Rightarrow> bytes option) \<Rightarrow> env \<Rightarrow> plant \<Rightarrow> platform
    \<Rightarrow> (bytes \<Rightarrow> string + verification_result) \<Rightarrow> command \<Rightarrow> unit act" where
  "run_command C L A G oc M E pl P att cmd =
     (case cmd of
        AttestCommand path nonce \<Rightarrow> attest_path C L A M E pl P path nonce
      | BuildCommand path \<Rightarrow> build_with_sink C L M E pl path
      | VerifyCommand fs args \<Rightarrow> lift (map_ok (\<lambda>_. ()) (verify L G oc att fs args)))"

definition kettle_main ::
  "cfg_lib \<Rightarrow> lib \<Rightarrow> attest_lib \<Rightarrow> igvm_lib \<Rightarrow> bool \<Rightarrow> (bytes list \<Rightarrow> bytes option) \<Rightarrow> env \<Rightarrow> plant \<Rightarrow> platform
    \<Rightarrow> (bytes \<Rightarrow> string + verification_result) \<Rightarrow> command \<Rightarrow> world \<Rightarrow> nat \<times> world" where
  "kettle_main C L A G oc M E pl P att cmd w =
     (let (r, w') = run_command C L A G oc M E pl P att cmd w in (exit_status r, w'))"

section \<open>Events never claim completion\<close>

definition quiet :: "'a act \<Rightarrow> bool" where
  "quiet m = (\<forall>w. \<exists>es. wo_trace (snd (m w)) = wo_trace w @ es \<and> no_complete es)"

lemma quietI: "(\<And>w. \<exists>es. wo_trace (snd (m w)) = wo_trace w @ es \<and> no_complete es) \<Longrightarrow> quiet m"
  by (simp add: quiet_def)

lemma quiet_same: "(\<And>w. wo_trace (snd (m w)) = wo_trace w) \<Longrightarrow> quiet m"
  by (simp add: quiet_def)

named_theorems quiet_intros \<open>actions that emit no \<open>Complete\<close>\<close>

lemma quiet_lift [quiet_intros]: "quiet (lift r)"
  by (rule quiet_same) (simp add: lift_def)

lemma quiet_modify [quiet_intros]: "(\<And>w. wo_trace (f w) = wo_trace w) \<Longrightarrow> quiet (modify f)"
  by (rule quiet_same) (simp add: modify_def)

lemma quiet_send [quiet_intros]: "\<not> is_complete e \<Longrightarrow> quiet (send_event e)"
  by (rule quietI) (simp add: send_event_def modify_def)

lemma quiet_io [quiet_intros]: "(\<And>w. wo_trace (f w) = wo_trace w) \<Longrightarrow> quiet (io_act E op p f)"
  by (rule quiet_same) (simp add: io_act_def split: option.split)

lemma quiet_bind [quiet_intros]:
  assumes "quiet m" and "\<And>x. quiet (k x)"
  shows "quiet (act_bind m k)"
proof (rule quietI)
  fix w
  obtain r v where v: "m w = (r, v)" by fastforce
  obtain es where es: "wo_trace v = wo_trace w @ es" "no_complete es" using assms(1) v unfolding quiet_def by (metis snd_conv)
  show "\<exists>es. wo_trace (snd (act_bind m k w)) = wo_trace w @ es \<and> no_complete es"
  proof (cases r)
    case (Inr x)
    obtain fs where "wo_trace (snd (k x v)) = wo_trace v @ fs" "no_complete fs"
      using assms(2) unfolding quiet_def by blast
    then show ?thesis using v es Inr by (simp add: act_bind_def)
  qed (use v es in \<open>simp add: act_bind_def\<close>)
qed

lemma quiet_if [quiet_intros]: "(b \<Longrightarrow> quiet m) \<Longrightarrow> (\<not> b \<Longrightarrow> quiet n) \<Longrightarrow> quiet (if b then m else n)"
  by simp

text \<open>An action chosen by the state.\<close>

lemma quiet_state:
  assumes "\<And>v. quiet (m v)"
  shows "quiet (\<lambda>w. m w w)"
  using assms by (simp add: quiet_def)

lemma quiet_if_state [quiet_intros]: "quiet m \<Longrightarrow> quiet n \<Longrightarrow> quiet (\<lambda>w. (if b w then m else n) w)"
  by (rule quiet_state) simp

lemma quiet_lift_state [quiet_intros]: "quiet (\<lambda>w. lift (r w) w)"
  by (rule quiet_state) (rule quiet_lift)

lemma quiet_act_map [quiet_intros]: "(\<And>x. quiet (f x)) \<Longrightarrow> quiet (act_map f xs)"
  by (induction xs) (simp_all add: quiet_intros)

lemma builds_quiet: "no_complete (map Build ls)"
  by (auto simp: no_complete_def is_complete_def)

lemma quiet_stream [quiet_intros]: "quiet (stream_act E program args cwd msg)"
proof (rule quietI)
  fix w
  have "no_complete (fst (stream_command E program args cwd))"
    by (simp add: stream_command_def builds_quiet split: sum.split prod.split)
  then show "\<exists>es. wo_trace (snd (stream_act E program args cwd msg w)) = wo_trace w @ es \<and> no_complete es"
    by (simp add: stream_act_def case_prod_beta)
qed

lemma build_events_quiet [simp]: "\<not> is_complete (Build m)" "\<not> is_complete (Detect m)" "\<not> is_complete (ProvenanceEvent m)"
    "\<not> is_complete (Attest m)"
  by (simp_all add: is_complete_def)

lemma quiet_cargo: "quiet (run_build (cargo_driver C) E path)" "quiet (collect_artifacts (cargo_driver C) L E outp path dir)"
  by (simp_all add: cargo_driver_def cargo_run_build_def cargo_collect_artifacts_def copy_artifact_def Let_def quiet_intros)

lemma quiet_pnpm: "quiet (run_build (pnpm_driver C) E path)" "quiet (collect_artifacts (pnpm_driver C) L E outp path dir)"
  by (simp_all add: pnpm_driver_def pnpm_run_build_def pnpm_collect_artifacts_def Let_def quiet_intros split: option.split)

lemma quiet_nix_item: "quiet (nix_item L E dir bin entry)"
  unfolding nix_item_def Let_def by (intro quiet_intros) simp_all

lemma quiet_nix: "quiet (run_build nix_driver E path)" "quiet (collect_artifacts nix_driver L E outp path dir)"
  by (simp_all add: nix_driver_def nix_run_build_def nix_collect_artifacts_def nix_artifacts_from_store_paths_def
      nix_store_path_def quiet_nix_item Let_def quiet_intros)

lemma quiet_clean: "quiet (clean_output E dir)"
  unfolding clean_output_def by (intro quiet_intros) simp_all

lemma quiet_run:
  assumes "\<And>E path. quiet (run_build D E path)" and "\<And>L E outp path dir. quiet (collect_artifacts D L E outp path dir)"
  shows "quiet (run D L M E pl path)"
  unfolding run_def Let_def by (intro quiet_intros assms quiet_clean) (simp_all add: leave_def)

lemma quiet_build: "quiet (build_with_sink C L M E pl path)"
  unfolding build_with_sink_def
  by (intro quiet_intros) (simp_all add: quiet_run quiet_cargo quiet_nix quiet_pnpm split: project_toolchain.split)

lemma attest_events_quiet: "no_complete (fst (attest_with_sink L A env nonce))"
  by (auto simp: attest_with_sink_def Let_def split: sum.split option.split)

lemma quiet_attest: "quiet (attest_path C L A M E pl P path nonce)"
proof (rule quietI)
  fix w
  obtain r v where v: "build_with_sink C L M E pl path w = (r, v)" by fastforce
  obtain events out where a: "attest_with_sink L A (environment_after P r v) nonce = (events, out)" by fastforce
  obtain es where "wo_trace v = wo_trace w @ es" "no_complete es"
    using quiet_build [of C L M E pl path] v unfolding quiet_def by (metis snd_conv)
  moreover have "no_complete events" using attest_events_quiet [of L A "environment_after P r v" nonce] a by simp
  moreover have "wo_trace (snd (attest_path C L A M E pl P path nonce w)) = wo_trace v @ events"
    by (simp add: attest_path_def v a Let_def split: sum.split)
  ultimately show "\<exists>es. wo_trace (snd (attest_path C L A M E pl P path nonce w)) = wo_trace w @ es \<and> no_complete es"
    by simp
qed

text \<open>The server's workspace with this command as its build.\<close>

definition attesting :: "(string \<Rightarrow> string option \<Rightarrow> unit act) \<Rightarrow> world \<Rightarrow> string \<Rightarrow> string \<Rightarrow> event list \<times> unit res" where
  "attesting attest w dir nonce =
     (let (r, w') = attest dir (Some nonce) w in (drop (length (wo_trace w)) (wo_trace w'), r))"

lemma attesting_quiet: "\<forall>dir. quiet (attest dir (Some nonce)) \<Longrightarrow> no_complete (fst (attesting attest w dir nonce))"
  unfolding attesting_def quiet_def
  by (metis (mono_tags, lifting) append_eq_conv_conj case_prod_beta fst_conv)

text \<open>
  The events of a build and its attestation never contain \<open>Complete\<close>, for any project, platform and
  outcome: only the server's own task announces the end of a job, as the job invariants ask of the build.
\<close>

theorem server_builds_quiet:
  "build_quiet (\<lambda>req. finite_run (build_and_pack
     (W\<lparr>wk_attest := attesting (attest_path C L A M E pl P) w\<rparr>) req work_dir))"
proof -
  have q: "no_complete (fst (attesting (attest_path C L A M E pl P) w dir nonce))" for dir nonce
    by (rule attesting_quiet) (simp add: quiet_attest)
  have "no_complete (fst (build_and_pack (W\<lparr>wk_attest := attesting (attest_path C L A M E pl P) w\<rparr>) req work_dir))" for req
    using q by (simp add: build_and_pack_def case_prod_beta Let_def split: sum.split)
  then have "quiet_run (finite_run (build_and_pack (W\<lparr>wk_attest := attesting (attest_path C L A M E pl P) w\<rparr>) req work_dir))" for req
    using quiet_finite_run [of "fst b" "snd b" for b] by (simp add: no_complete_def)
  then show ?thesis by (simp add: build_quiet_def)
qed

section \<open>From build to verdict\<close>

text \<open>
  The attestation library keeps its word: what its \<open>attest\<close> signed, also after the certificate was
  embedded, its \<open>verify\<close> finds validly signed, with the report data less trailing null bytes.
\<close>

definition attestation_faithful ::
  "lib \<Rightarrow> attest_lib \<Rightarrow> platform \<Rightarrow> (bytes \<Rightarrow> string + verification_result) \<Rightarrow> bool" where
  "attestation_faithful L A P att =
     (\<forall>platform rd raw evidence. pf_attest P platform rd = Some raw \<longrightarrow> embed_snp_vcek L A raw = Inr evidence \<longrightarrow>
        (\<exists>vr. att evidence = Inr vr \<and> vr_signature_valid vr
           \<and> cl_signed_data (vr_claims vr) = strip_trailing_nulls rd))"

text \<open>The verifier is given the output directory as the build left it.\<close>

definition shows_output :: "build_fs \<Rightarrow> world \<Rightarrow> bool" where
  "shows_output fs w =
     (fs_canonical fs = Inr ()
      \<and> (\<forall>b. wo_files w ''evidence.json'' = Some b \<longrightarrow> fs_evidence fs = Inr b)
      \<and> (\<forall>b. wo_files w ''provenance.json'' = Some b \<longrightarrow> fs_provenance fs = Inr b)
      \<and> (\<exists>top. fs_top fs = Inr top \<and> lists_dir (wo_files w) (plain_files top))
      \<and> fs_artifacts_is_dir fs \<and> (\<exists>arts. fs_artifacts fs = Inr arts \<and> lists_dir (staged w) (plain_files arts)))"

lemma attest_with_sink_Inr:
  assumes "attest_with_sink L A V nonce = (events, Inr evidence)"
  obtains platform b p rd raw where "ae_build V = Inr ()" "ae_provenance V = Inr b" "from_json L b = Inr p"
    "report_data L p nonce = Inr rd" "ae_attest V platform rd = Some raw" "embed_snp_vcek L A raw = Inr evidence"
  using assms
  by (auto simp: attest_with_sink_def Let_def split: sum.splits option.splits)

lemma report_data_nonce:
  assumes "digest_ok L" and "report_data L p (Some s) = Inr rd"
  obtains n where "decode_nonce L s = Inr n" "rd = checksum L p @ n" "length n = 16"
proof -
  obtain n where n: "decode_nonce L s = Inr n"
    using assms(2) by (auto simp: report_data_def)
  show ?thesis using that [OF n] report_data_Some [OF assms(1) n, of p] assms(2) decode_nonce_length [OF n] by simp
qed

text \<open>What a successful \<open>kettle attest\<close> did.\<close>

lemma attest_path_Inr:
  assumes "attest_path C L A M E pl P path nonce w = (Inr u, w')" and "json_ok L"
  obtains v p rd raw evidence platform t where
    "build_with_sink C L M E pl path w = (Inr (), v)" "written_statement L E path t v p"
    "staged w' = staged v" "wo_files w' = (wo_files v)(''evidence.json'' \<mapsto> evidence)"
    "json_wf (provenance_to_j p) \<Longrightarrow> report_data L p nonce = Inr rd"
    "pf_attest P platform rd = Some raw" "embed_snp_vcek L A raw = Inr evidence"
proof -
  obtain r v where v: "build_with_sink C L M E pl path w = (r, v)" by fastforce
  obtain events out where a: "attest_with_sink L A (environment_after P r v) nonce = (events, out)" by fastforce
  obtain evidence where ev: "out = Inr evidence"
      "w' = (v\<lparr>wo_trace := wo_trace v @ events\<rparr>)\<lparr>wo_files := (wo_files v)(''evidence.json'' \<mapsto> evidence)\<rparr>"
    using assms(1) by (cases out) (auto simp: attest_path_def v a Let_def)
  obtain platform b q rd raw where q: "r = Inr ()" "ae_provenance (environment_after P r v) = Inr b"
      "from_json L b = Inr q" "report_data L q nonce = Inr rd" "pf_attest P platform rd = Some raw"
      "embed_snp_vcek L A raw = Inr evidence"
    using attest_with_sink_Inr [OF a [unfolded ev(1)]] by (metis attest_env.select_convs environment_after_def)
  obtain t p where p: "written_statement L E path t v p"
    using build_writes_statement [OF v [unfolded q(1)]] by blast
  then have prov: "wo_files v ''provenance.json'' = Some (as_bytes (to_json L p))" by (simp add: written_statement_def)
  have rd: "report_data L p nonce = Inr rd" if "json_wf (provenance_to_j p)"
    using from_json_to_json [OF assms(2) that] q(2,3,4) by (simp add: environment_after_def prov)
  show ?thesis
    by (rule that [OF v [unfolded q(1)] p _ _ rd q(5,6)]) (simp_all add: ev(2) staged_def fun_eq_iff)
qed

section \<open>Sample attestation\<close>

text \<open>The sample build on a platform whose evidence is the report data in JSON.\<close>

definition sample_quote :: "bytes \<Rightarrow> json" where
  "sample_quote rd = JObj [(''platform'', JStr ''tdx''), (''data'', JStr (hex_of rd))]"

definition sample_platform :: platform where
  "sample_platform = \<lparr>pf_detect = Some ''tdx'', pf_attest = (\<lambda>_ rd. Some (as_bytes (tlv (sample_quote rd)))),
     pf_write = (\<lambda>_. Inr ())\<rparr>"

definition sample_attestation_verify :: "bytes \<Rightarrow> string + verification_result" where
  "sample_attestation_verify e =
     (case tlv_parse e of
        Some (JObj [_, (_, JStr h)]) \<Rightarrow> (case hex_to h of Some rd \<Rightarrow> Inr (sample_report_result rd) | None \<Rightarrow> Inl ''hex'')
      | _ \<Rightarrow> Inl ''evidence'')"

definition sample_evidence_bytes :: bytes where
  "sample_evidence_bytes = as_bytes (tlv (sample_quote (checksum sample_lib sample_statement @ sample_nonce)))"

definition sample_attested :: world where
  "sample_attested = sample_built\<lparr>
     wo_files := (wo_files sample_built)(''evidence.json'' \<mapsto> sample_evidence_bytes),
     wo_trace := wo_trace sample_built @ [Attest ''Running on platform: tdx'',
       Attest (''Attesting provenance.json (checksum '' @ hex_of (checksum sample_lib sample_statement) @ '')''),
       Attest ''Attestation complete! evidence.json written'']\<rparr>"

definition sample_listing :: build_fs where
  "sample_listing = \<lparr>fs_canonical = Inr (), fs_evidence = Inr sample_evidence_bytes,
     fs_provenance = Inr (as_bytes (to_json sample_lib sample_statement)),
     fs_top = Inr (map (\<lambda>e. Inr \<lparr>le_entry = e, le_is_file = Inr True\<rparr>)
       (sample_top @ [\<lparr>de_name = as_bytes ''evidence.json'', de_read = Inr sample_evidence_bytes\<rparr>])),
     fs_artifacts_is_dir = True, fs_artifacts = Inr [Inr \<lparr>le_entry = sample_entry, le_is_file = Inr True\<rparr>]\<rparr>"

lemma sample_embed: "embed_snp_vcek sample_lib A (as_bytes (tlv (sample_quote rd))) = Inr (as_bytes (tlv (sample_quote rd)))"
proof -
  have "json_parse sample_lib (as_bytes (tlv (sample_quote rd))) = Some (sample_quote rd)" by (simp add: tlv_roundtrip)
  moreover have "Option.bind (jget ''platform'' (to_value (sample_quote rd))) str_of_j = Some ''tdx''"
    by (simp add: sample_quote_def jget_def dedupe_def str_of_j_def)
  ultimately show ?thesis by (simp only: embed_snp_vcek_def) simp
qed

lemma sample_faithful: "attestation_faithful sample_lib A sample_platform sample_attestation_verify"
  unfolding attestation_faithful_def
proof (intro allI impI)
  fix platform rd raw evidence
  assume "pf_attest sample_platform platform rd = Some raw" "embed_snp_vcek sample_lib A raw = Inr evidence"
  then have "evidence = as_bytes (tlv (sample_quote rd))" using sample_embed by (auto simp: sample_platform_def)
  then show "\<exists>vr. sample_attestation_verify evidence = Inr vr \<and> vr_signature_valid vr
      \<and> cl_signed_data (vr_claims vr) = strip_trailing_nulls rd"
    by (simp add: sample_attestation_verify_def tlv_roundtrip)
      (simp add: sample_quote_def hex_to_hex_of sample_report_result_def)
qed

lemma sample_nonce_decode: "decode_nonce sample_lib (hex_of sample_nonce) = Inr sample_nonce"
  by (rule sample_decode) (simp add: sample_nonce_def)

lemma sample_attest_run:
  "attest_path sample_cfg sample_lib A sample_merkle sample_cargo_env sample_plant sample_platform ''/w''
     (Some (hex_of sample_nonce)) sample_start = (Inr (), sample_attested)"
proof -
  have read: "from_json sample_lib (as_bytes (to_json sample_lib sample_statement)) = Inr sample_statement"
    by (rule from_json_to_json [OF sample_json_ok sample_statement_wf])
  have rd: "report_data sample_lib sample_statement (Some (hex_of sample_nonce))
      = Inr (checksum sample_lib sample_statement @ sample_nonce)"
    by (rule report_data_Some [OF sample_digest_ok sample_nonce_decode])
  have env: "ae_build V = Inr () \<and> ae_detect V = Some ''tdx'' \<and> ae_attest V = pf_attest sample_platform
      \<and> ae_write V = (\<lambda>_. Inr ()) \<and> ae_provenance V = Inr (as_bytes (to_json sample_lib sample_statement))"
    if "V = environment_after sample_platform (Inr ()) sample_built" for V
    using that by (simp add: environment_after_def sample_platform_def sample_built_def)
  have "attest_with_sink sample_lib A (environment_after sample_platform (Inr ()) sample_built) (Some (hex_of sample_nonce))
      = ([Attest ''Running on platform: tdx'',
         Attest (''Attesting provenance.json (checksum '' @ hex_of (checksum sample_lib sample_statement) @ '')''),
         Attest ''Attestation complete! evidence.json written''], Inr sample_evidence_bytes)"
    using env [OF refl] by (simp add: attest_with_sink_def read rd sample_embed sample_platform_def sample_evidence_bytes_def Let_def)
  then show ?thesis by (simp add: attest_path_def sample_build sample_attested_def Let_def)
qed

lemma sample_shows: "shows_output sample_listing sample_attested"
proof -
  have plain: "plain_files (map (\<lambda>e. Inr \<lparr>le_entry = e, le_is_file = Inr True\<rparr>) es @ fs) = es @ plain_files fs"
    "plain_files (Inr \<lparr>le_entry = e, le_is_file = Inr True\<rparr> # fs) = e # plain_files fs" "plain_files [] = []" for es e fs
    by (simp_all add: plain_files_def o_def)
  have top: "lists_dir (wo_files sample_attested)
      (sample_top @ [\<lparr>de_name = as_bytes ''evidence.json'', de_read = Inr sample_evidence_bytes\<rparr>])"
    by (simp add: lists_dir_def sample_attested_def sample_built_def sample_top_def ascii_wf)
  have "staged sample_attested = staged sample_built" by (simp add: fun_eq_iff staged_def sample_attested_def)
  then have "lists_dir (staged sample_attested) [sample_entry]" using sample_lists(1) by simp
  moreover have "wo_files sample_attested ''evidence.json'' = Some sample_evidence_bytes"
    "wo_files sample_attested ''provenance.json'' = Some (as_bytes (to_json sample_lib sample_statement))"
    by (simp_all add: sample_attested_def sample_built_def)
  ultimately show ?thesis using top by (simp add: shows_output_def sample_listing_def plain)
qed

section \<open>The verdict\<close>

lemma verify_hangs_on_nonce:
  assumes "from_dir fs = Inr build" and "from_json L (bu_provenance_bytes build) = Inr p"
    and "att (bu_evidence_bytes build) = Inr vr"
    and "verify_artifacts L p (bu_top_level build) (bu_artifacts build) = Inr ar" and "list_all is_success (ar_results ar)"
    and "is_success (verify_signature vr)" and "is_success (verify_predicate p)" and "is_success (verify_provenance L vr p)"
  shows "\<exists>rep. verify L G oc att fs \<lparr>va_nonce = Some s, va_igvm = None, va_image = None\<rparr> = Inr rep
     \<and> (vp_passed rep \<longleftrightarrow> is_success (verify_nonce L vr s))"
  using assms by (simp add: verify_def opt_check_def Let_def list_ex_not)

text \<open>
  C5. From build to verdict. When \<open>kettle attest\<close> succeeds with a nonce, \<open>kettle verify\<close> on its output
  directory with that nonce gives a verdict, and the verdict is PASSED exactly when the nonce is written
  without dashes (which \<open>attest\<close> accepts and \<open>verify\<close> does not) and is not the all-zero nonce behind a
  checksum that ends in a zero byte. This holds when the attestation library is faithful, the statement
  is well-formed JSON, its subjects have distinct names, and no other file of the output directory has
  the name of one.
\<close>

theorem attested_build_passes_verify:
  assumes "attest_path C L A M E pl P path (Some s) w = (Inr u, w')"
    and "digest_ok L" and "hex_ok L" and "json_ok L" and "attestation_faithful L A P att" and "shows_output fs w'"
  shows "\<exists>p. wo_files w' ''provenance.json'' = Some (as_bytes (to_json L p))
    \<and> (json_wf (provenance_to_j p) \<and> distinct (map sub_name (pv_subject p))
       \<and> (\<forall>x \<in> set (pv_subject p). wo_files w' (sub_name x) = None)
      \<longrightarrow> (\<exists>rep. verify L G oc att fs \<lparr>va_nonce = Some s, va_igvm = None, va_image = None\<rparr> = Inr rep
             \<and> (vp_passed rep \<longleftrightarrow> CHR ''-'' \<notin> set s
                  \<and> (last (checksum L p) \<noteq> 0 \<or> hex_decode L s \<noteq> Inr (replicate 16 0)))))"
proof (rule attest_path_Inr [OF assms(1,4)], goal_cases)
  case (1 v p rd raw evidence platform t)
  let ?args = "\<lparr>va_nonce = Some s, va_igvm = None, va_image = None\<rparr>"
  let ?ok = "CHR ''-'' \<notin> set s \<and> (last (checksum L p) \<noteq> 0 \<or> hex_decode L s \<noteq> Inr (replicate 16 0))"
  have prov: "wo_files w' ''provenance.json'' = Some (as_bytes (to_json L p))"
    using 1(2,4) by (simp add: written_statement_def)
  have "\<exists>rep. verify L G oc att fs ?args = Inr rep \<and> (vp_passed rep \<longleftrightarrow> ?ok)"
    if wf: "json_wf (provenance_to_j p)" and names: "distinct (map sub_name (pv_subject p))"
      "\<forall>x \<in> set (pv_subject p). wo_files w' (sub_name x) = None"
  proof -
    obtain top arts where fs: "fs_top fs = Inr top" "lists_dir (wo_files w') (plain_files top)"
      "fs_artifacts fs = Inr arts" "lists_dir (staged v) (plain_files arts)"
      using assms(6) 1(3) by (auto simp: shows_output_def)
    have dir: "from_dir fs = Inr \<lparr>bu_provenance_bytes = as_bytes (to_json L p), bu_evidence_bytes = evidence,
        bu_top_level = plain_files top, bu_artifacts = plain_files arts\<rparr>"
      using assms(6) fs prov 1(4) by (simp add: shows_output_def from_dir_def)
    obtain vr where vr: "att evidence = Inr vr" "vr_signature_valid vr"
      "cl_signed_data (vr_claims vr) = strip_trailing_nulls rd"
      using assms(5) 1(6,7) unfolding attestation_faithful_def by blast
    obtain n where n: "decode_nonce L s = Inr n" "rd = checksum L p @ n" "length n = 16"
      by (rule report_data_nonce [OF assms(2) 1(5) [OF wf]])
    obtain ar where ar: "verify_artifacts L p (plain_files top) (plain_files arts) = Inr ar" "list_all is_success (ar_results ar)"
      using 1(2) fs(2,4) names unfolding written_statement_def by blast
    have len: "length (checksum L p) = 32" using assms(2) by (simp add: checksum_def digest_lengths)
    have "is_success (verify_nonce L vr s) \<longleftrightarrow>
        hex_decode L s = Inr n \<and> (n \<noteq> replicate 16 0 \<or> last (checksum L p) \<noteq> 0)"
      unfolding verify_nonce_success vr(3) n(2) nonce_matches_stripped [OF len n(3)] ..
    also have "\<dots> \<longleftrightarrow> ?ok"
    proof (cases "CHR ''-'' \<in> set s")
      case True
      then show ?thesis using hex_decode_no_dash [OF assms(3), of s] by auto
    next
      case False
      then have "hex_decode L s = Inr n"
        using n(1) remove_char_absent [OF False] by (auto simp: decode_nonce_def split: if_splits)
      then show ?thesis using False by auto
    qed
    finally have nonce: "is_success (verify_nonce L vr s) \<longleftrightarrow> ?ok" .
    have "\<exists>rep. verify L G oc att fs ?args = Inr rep \<and> (vp_passed rep \<longleftrightarrow> is_success (verify_nonce L vr s))"
    proof (rule verify_hangs_on_nonce [OF dir])
      show "is_success (verify_provenance L vr p)"
        using len strip_checksum [OF len, of n] by (simp add: verify_provenance_def compare_checksum_success vr(3) n(2))
      show "is_success (verify_predicate p)" using 1(2) by (simp add: written_statement_def)
    qed (use from_json_to_json [OF assms(4) wf] vr ar in \<open>simp_all add: verify_signature_def\<close>)
    then show ?thesis using nonce by simp
  qed
  then show ?case using prov by blast
qed

lemma sample_nonce_not_zero: "sample_nonce \<noteq> replicate 16 0"
proof
  assume "sample_nonce = replicate 16 0"
  then have "last sample_nonce = last (replicate 16 0)" by (rule arg_cong)
  then show False by (simp add: sample_nonce_def)
qed

theorem attested_build_passes_verify_witness:
  "\<exists>rep. verify sample_lib sample_igvm_lib False sample_attestation_verify sample_listing
     \<lparr>va_nonce = Some (hex_of sample_nonce), va_igvm = None, va_image = None\<rparr> = Inr rep \<and> vp_passed rep"
proof -
  have dash: "CHR ''-'' \<notin> set (hex_of sample_nonce)"
    using hex_decode_no_dash [OF sample_hex_ok, of "hex_of sample_nonce" sample_nonce] by (simp add: hex_to_hex_of)
  obtain p where p: "wo_files sample_attested ''provenance.json'' = Some (as_bytes (to_json sample_lib p))"
    and v: "json_wf (provenance_to_j p) \<and> distinct (map sub_name (pv_subject p))
       \<and> (\<forall>x \<in> set (pv_subject p). wo_files sample_attested (sub_name x) = None)
      \<longrightarrow> (\<exists>rep. verify sample_lib sample_igvm_lib False sample_attestation_verify sample_listing
             \<lparr>va_nonce = Some (hex_of sample_nonce), va_igvm = None, va_image = None\<rparr> = Inr rep
             \<and> (vp_passed rep \<longleftrightarrow> CHR ''-'' \<notin> set (hex_of sample_nonce)
                  \<and> (last (checksum sample_lib p) \<noteq> 0 \<or> hex_decode sample_lib (hex_of sample_nonce) \<noteq> Inr (replicate 16 0))))"
    using attested_build_passes_verify [OF sample_attest_run sample_digest_ok sample_hex_ok sample_json_ok sample_faithful sample_shows]
    by blast
  have "to_json sample_lib p = to_json sample_lib sample_statement"
    using p by (simp add: sample_attested_def sample_built_def)
  then have "p = sample_statement" by (rule sample_statement_read)
  moreover have "wo_files sample_attested (sub_name x) = None" if "x \<in> set (pv_subject sample_statement)" for x
  proof -
    have "sub_name x \<in> set (map sub_name (pv_subject sample_statement))" using that by simp
    then have "sub_name x = ''app''" unfolding sample_statement_subjects by simp
    then show ?thesis by (simp add: sample_attested_def sample_built_def)
  qed
  moreover have "distinct (map sub_name (pv_subject sample_statement))"
    by (simp only: sample_statement_subjects) simp
  moreover have "hex_decode sample_lib (hex_of sample_nonce) \<noteq> Inr (replicate 16 0)"
    using sample_nonce_not_zero by (simp add: hex_to_hex_of)
  ultimately show ?thesis using v dash sample_statement_wf by blast
qed

end
