(* ===== verification/Ovmf_Meta.thy ===== *)
theory Ovmf_Meta
  imports Externals
begin

text \<open>
  The metadata OVMF firmware carries at its tail (\<open>crates/igvm-tools/src/ovmfmeta.rs\<close>): blocks tagged
  with a GUID and read backwards, and the region lists they point to. A block that cannot be read
  leaves what was read before it.
\<close>

section \<open>Definitions\<close>

text \<open>GUIDs in wire order (first three fields little-endian).\<close>

definition ovmf_meta_list :: bytes where
  "ovmf_meta_list = [0xde, 0x82, 0xb5, 0x96, 0xb2, 0x1f, 0xf7, 0x45, 0xba, 0xea, 0xa3, 0x66, 0xc5, 0x5a, 0x08, 0x2d]"
definition ovmf_meta_sev_reset :: bytes where
  "ovmf_meta_sev_reset = [0xde, 0x71, 0xf7, 0x00, 0x7e, 0x1a, 0xcb, 0x4f, 0x89, 0x0e, 0x68, 0xc7, 0x7e, 0x2f, 0xb4, 0x4e]"
definition ovmf_meta_sev_secret :: bytes where
  "ovmf_meta_sev_secret = [0x61, 0xb3, 0x2e, 0x4c, 0x9b, 0x7d, 0xc3, 0x4c, 0x80, 0x81, 0x12, 0x7c, 0x90, 0xd3, 0xd2, 0x94]"
definition ovmf_meta_sev_hashes :: bytes where
  "ovmf_meta_sev_hashes = [0x1f, 0x37, 0x55, 0x72, 0x3b, 0x3a, 0x04, 0x4b, 0x92, 0x7b, 0x1d, 0xa6, 0xef, 0xa8, 0xd4, 0x54]"
definition ovmf_meta_sev_list :: bytes where
  "ovmf_meta_sev_list = [0x66, 0x65, 0x88, 0xdc, 0x4a, 0x98, 0x98, 0x47, 0xa7, 0x5e, 0x55, 0x85, 0xa7, 0xbf, 0x67, 0xcc]"
definition ovmf_meta_igvm_param :: bytes where
  "ovmf_meta_igvm_param = [0x70, 0xa6, 0x4f, 0x78, 0x76, 0x31, 0x77, 0x46, 0x8a, 0x20, 0x04, 0xb6, 0x86, 0x99, 0xe3, 0x74]"

datatype region_type =
    Undefined
  | SevMemory | SevSecrets | SevCpuid | SevSvsmCca | SevHashes
  | IgvmParamArea | IgvmParamMemoryMap | IgvmParamVpCount | IgvmHobArea

definition region_type_sev :: "nat \<Rightarrow> region_type" where
  "region_type_sev t =
     (if t = 0x01 then SevMemory else if t = 0x02 then SevSecrets else if t = 0x03 then SevCpuid
      else if t = 0x04 then SevSvsmCca else if t = 0x10 then SevHashes else Undefined)"

definition region_type_igvm :: "nat \<Rightarrow> region_type" where
  "region_type_igvm t =
     (if t = 0x100 then IgvmParamArea else if t = 0x101 then IgvmParamMemoryMap
      else if t = 0x102 then IgvmParamVpCount else if t = 0x200 then IgvmHobArea else Undefined)"

record ovmf_region =
  or_base :: nat
  or_size :: nat
  or_type :: region_type

record ovmf_meta =
  om_firmware :: bytes
  om_regions :: "ovmf_region list"
  om_sev_reset_addr :: "u32 option"

text \<open>\<open>read_from_prefix\<close> of a little-endian \<open>u32\<close>: the value and the rest.\<close>

definition read_u32 :: "bytes \<Rightarrow> (nat \<times> bytes) option" where
  "read_u32 b = map_option (\<lambda>x. (le_nat x, drop 4 b)) (get_range b 0 4)"

text \<open>The list head: magic, length, version, number of entries.\<close>

definition read_list_head :: "bytes \<Rightarrow> (nat \<times> bytes) option" where
  "read_list_head b = map_option (\<lambda>x. (le_nat (drop 12 x), drop 16 b)) (get_range b 0 16)"

text \<open>An entry: base, size, kind.\<close>

definition read_entry :: "bytes \<Rightarrow> ((nat \<times> nat \<times> nat) \<times> bytes) option" where
  "read_entry b =
     map_option (\<lambda>x. ((le_nat (take 4 x), le_nat (take 4 (drop 4 x)), le_nat (drop 8 x)), drop 12 b))
       (get_range b 0 12)"

definition meta_blk :: "bytes \<Rightarrow> (bytes \<times> bytes \<times> bytes) option" where
  "meta_blk blob =
     (if length blob < 18 then None
      else
        let data = take (length blob - 18) blob; meta = drop (length blob - 18) blob;
            sz = le_nat (take 2 meta) in
        if sz < 18 then None
        else
          let dsize = sz - 18 in
          if length data < dsize then None
          else
            let start = length data - dsize
            in Some (drop 2 meta, drop start data, take start data))"

fun read_regions :: "(nat \<Rightarrow> region_type) \<Rightarrow> nat \<Rightarrow> bytes \<Rightarrow> ovmf_region list \<Rightarrow> ovmf_region list" where
  "read_regions ty 0 items regions = regions"
| "read_regions ty (Suc n) items regions =
     (case read_entry items of
        None \<Rightarrow> regions
      | Some ((base, sz, kind), rest) \<Rightarrow>
          read_regions ty n rest
            (if sz \<noteq> 0 then regions @ [\<lparr>or_base = base, or_size = sz, or_type = ty kind\<rparr>] else regions))"

definition read_region_list :: "(nat \<Rightarrow> region_type) \<Rightarrow> bytes \<Rightarrow> ovmf_meta \<Rightarrow> ovmf_meta" where
  "read_region_list ty blk m =
     (case read_u32 blk of
        None \<Rightarrow> m
      | Some (listbase, _) \<Rightarrow>
         if length (om_firmware m) < listbase then m
         else
           (case read_list_head (drop (length (om_firmware m) - listbase) (om_firmware m)) of
              None \<Rightarrow> m
            | Some (entries, items) \<Rightarrow> m\<lparr>om_regions := read_regions ty entries items (om_regions m)\<rparr>))"

definition parse_blk :: "bytes \<Rightarrow> bytes \<Rightarrow> ovmf_meta \<Rightarrow> ovmf_meta" where
  "parse_blk guid blk m =
     (if guid = ovmf_meta_sev_reset then
        (case read_u32 blk of None \<Rightarrow> m | Some (addr, _) \<Rightarrow> m\<lparr>om_sev_reset_addr := Some (of_nat addr)\<rparr>)
      else if guid = ovmf_meta_sev_secret \<or> guid = ovmf_meta_sev_hashes then m
      else if guid = ovmf_meta_sev_list then read_region_list region_type_sev blk m
      else if guid = ovmf_meta_igvm_param then read_region_list region_type_igvm blk m
      else m)"

lemma meta_blk_shrinks: "meta_blk blob = Some (g, b, rest) \<Longrightarrow> length rest + 18 + length b = length blob"
  by (auto simp: meta_blk_def Let_def split: if_splits)

function meta_loop :: "bytes \<Rightarrow> ovmf_meta \<Rightarrow> ovmf_meta" where
  "meta_loop m1 m =
     (case meta_blk m1 of
        None \<Rightarrow> m
      | Some (g, b, m2) \<Rightarrow> meta_loop m2 (parse_blk g b m))"
  by pat_completeness auto
termination
  by (relation "measure (\<lambda>(m1, m). length m1)") (auto dest: meta_blk_shrinks)

declare meta_loop.simps [simp del]

definition ovmf_meta_new :: "bytes \<Rightarrow> ovmf_meta option" where
  "ovmf_meta_new firmware =
     (if length firmware < 0x20 then None
      else
        (case meta_blk (take (length firmware - 0x20) firmware) of
           None \<Rightarrow> None
         | Some (g, m1, _) \<Rightarrow>
             let m = \<lparr>om_firmware = firmware, om_regions = [], om_sev_reset_addr = None\<rparr> in
             Some (if g = ovmf_meta_list then meta_loop m1 m else m)))"

section \<open>The format\<close>

text \<open>A block as the firmware stores it: contents, size of the whole block, GUID.\<close>

definition encode_block :: "bytes \<times> bytes \<Rightarrow> bytes" where
  "encode_block gb = snd gb @ le_bytes 2 (18 + length (snd gb)) @ fst gb"

definition block_ok :: "bytes \<times> bytes \<Rightarrow> bool" where
  "block_ok gb \<longleftrightarrow> length (fst gb) = 16 \<and> 18 + length (snd gb) < 65536"

lemma meta_blk_encoded:
  assumes "block_ok (g, b)"
  shows "meta_blk (pre @ encode_block (g, b)) = Some (g, b, pre)"
proof -
  have m: "(18 + length b) mod 256\<^sup>2 = 18 + length b"
    using assms by (simp add: block_ok_def)
  show ?thesis
    using assms m by (simp add: meta_blk_def encode_block_def block_ok_def Let_def)
qed

lemma meta_blk_Nil [simp]: "meta_blk [] = None"
  by (simp add: meta_blk_def)

text \<open>The blocks are parsed from the last to the first.\<close>

lemma meta_loop_encoded:
  "list_all block_ok bs \<Longrightarrow>
     meta_loop (concat (map encode_block bs)) m = fold (\<lambda>(g, b). parse_blk g b) (rev bs) m"
proof (induction bs arbitrary: m rule: rev_induct)
  case Nil
  then show ?case by (subst meta_loop.simps) simp
next
  case (snoc gb bs)
  obtain g b where gb: "gb = (g, b)" by fastforce
  have "meta_blk (concat (map encode_block bs) @ encode_block (g, b)) = Some (g, b, concat (map encode_block bs))"
    by (rule meta_blk_encoded) (use snoc.prems gb in simp)
  then show ?case using snoc gb by (subst meta_loop.simps) simp
qed

text \<open>A region entry and a region list as the firmware stores them.\<close>

definition encode_entry :: "nat \<times> nat \<times> nat \<Rightarrow> bytes" where
  "encode_entry e = (case e of (base, sz, kind) \<Rightarrow> le_bytes 4 base @ le_bytes 4 sz @ le_bytes 4 kind)"

definition entry_small :: "nat \<times> nat \<times> nat \<Rightarrow> bool" where
  "entry_small e = (case e of (base, sz, kind) \<Rightarrow> base < 2 ^ 32 \<and> sz < 2 ^ 32 \<and> kind < 2 ^ 32)"

definition regions_of :: "(nat \<Rightarrow> region_type) \<Rightarrow> (nat \<times> nat \<times> nat) list \<Rightarrow> ovmf_region list" where
  "regions_of ty es =
     map (\<lambda>(base, sz, kind). \<lparr>or_base = base, or_size = sz, or_type = ty kind\<rparr>)
       (filter (\<lambda>(base, sz, kind). sz \<noteq> 0) es)"

lemma read_entry_encoded:
  "entry_small e \<Longrightarrow> read_entry (encode_entry e @ rest) = Some (e, rest)"
  by (cases e) (simp add: read_entry_def encode_entry_def entry_small_def)

lemma read_regions_encoded:
  "list_all entry_small es \<Longrightarrow>
     read_regions ty (length es) (concat (map encode_entry es) @ rest) rs = rs @ regions_of ty es"
proof (induction es arbitrary: rs)
  case (Cons e es)
  then show ?case by (cases e) (simp add: read_entry_encoded regions_of_def)
qed (simp add: regions_of_def)

definition encode_list :: "(nat \<times> nat \<times> nat) list \<Rightarrow> bytes" where
  "encode_list es = le_bytes 4 0 @ le_bytes 4 0 @ le_bytes 4 1 @ le_bytes 4 (length es) @ concat (map encode_entry es)"

lemma read_region_list_encoded:
  assumes "list_all entry_small es" and "length es < 2 ^ 32" and "n < 2 ^ 32"
    and "om_firmware m = pre @ encode_list es @ post" and "n = length (encode_list es @ post)"
  shows "read_region_list ty (le_bytes 4 n) m = m\<lparr>om_regions := om_regions m @ regions_of ty es\<rparr>"
proof -
  have "read_u32 (le_bytes 4 n) = Some (n, [])"
    using assms(3) by (simp add: read_u32_def)
  moreover have "drop (length (om_firmware m) - n) (om_firmware m) = encode_list es @ post"
    using assms(4,5) by simp
  moreover have "read_list_head (encode_list es @ post) = Some (length es, concat (map encode_entry es) @ post)"
    using assms(2) by (simp add: read_list_head_def encode_list_def)
  ultimately show ?thesis
    using assms read_regions_encoded [OF assms(1)] by (simp add: read_region_list_def)
qed


lemma length_concat_entries [simp]: "length (concat (map encode_entry es)) = 12 * length es"
  by (induction es) (auto simp: encode_entry_def split: prod.splits)

lemma encode_list_length [simp]: "length (encode_list es) = 16 + 12 * length es"
  by (simp add: encode_list_def)

lemma encode_block_length [simp]: "length (encode_block gb) = 2 + length (fst gb) + length (snd gb)"
  by (simp add: encode_block_def)

lemma guid_lengths [simp]:
  "length ovmf_meta_list = 16" "length ovmf_meta_sev_reset = 16" "length ovmf_meta_sev_list = 16"
  "length ovmf_meta_igvm_param = 16"
  by (simp_all add: ovmf_meta_list_def ovmf_meta_sev_reset_def ovmf_meta_sev_list_def ovmf_meta_igvm_param_def)

lemma guid_distinct [simp]:
  "ovmf_meta_sev_list \<noteq> ovmf_meta_sev_reset" "ovmf_meta_sev_list \<noteq> ovmf_meta_sev_secret"
  "ovmf_meta_sev_list \<noteq> ovmf_meta_sev_hashes" "ovmf_meta_igvm_param \<noteq> ovmf_meta_sev_reset"
  "ovmf_meta_igvm_param \<noteq> ovmf_meta_sev_secret" "ovmf_meta_igvm_param \<noteq> ovmf_meta_sev_hashes"
  "ovmf_meta_igvm_param \<noteq> ovmf_meta_sev_list"
  by (simp_all add: ovmf_meta_sev_reset_def ovmf_meta_sev_list_def ovmf_meta_igvm_param_def
      ovmf_meta_sev_secret_def ovmf_meta_sev_hashes_def)

text \<open>The tail of a firmware: the list block, the blocks it contains, 32 bytes of reset vector.\<close>

lemma ovmf_meta_new_encoded:
  assumes fw: "firmware = pre @ encode_block (ovmf_meta_list, concat (map encode_block bs)) @ tail"
    and "length tail = 32" and "list_all block_ok bs"
    and ok: "block_ok (ovmf_meta_list, concat (map encode_block bs))"
  shows "ovmf_meta_new firmware =
    Some (fold (\<lambda>(g, b). parse_blk g b) (rev bs) \<lparr>om_firmware = firmware, om_regions = [], om_sev_reset_addr = None\<rparr>)"
proof -
  have "take (length firmware - 0x20) firmware
      = pre @ encode_block (ovmf_meta_list, concat (map encode_block bs))"
    using fw assms(2) by simp
  moreover have "\<not> length firmware < 0x20" using fw assms(2) by simp
  ultimately show ?thesis
    using meta_blk_encoded [OF ok] meta_loop_encoded [OF assms(3)] by (simp add: ovmf_meta_new_def)
qed

text \<open>The three blocks the builder relies on, in an image of total length \<open>len\<close>.\<close>

definition meta_blocks :: "nat \<Rightarrow> nat \<Rightarrow> nat \<Rightarrow> (bytes \<times> bytes) list" where
  "meta_blocks addr sev_base igvm_base =
     [(ovmf_meta_sev_reset, le_bytes 4 addr), (ovmf_meta_sev_list, le_bytes 4 sev_base),
      (ovmf_meta_igvm_param, le_bytes 4 igvm_base)]"

lemma meta_image:
  assumes sev: "firmware = pa @ encode_list sev @ qa" and igvm: "firmware = pb @ encode_list igvm @ qb"
    and tab: "firmware = pre @ encode_block (ovmf_meta_list,
         concat (map encode_block (meta_blocks addr (length firmware - length pa) (length firmware - length pb)))) @ tail"
    and tl: "length tail = 32" and len: "length firmware < 2 ^ 32" and addr: "addr < 2 ^ 32"
    and small: "list_all entry_small sev" "list_all entry_small igvm"
  shows "ovmf_meta_new firmware =
    Some \<lparr>om_firmware = firmware, om_regions = regions_of region_type_igvm igvm @ regions_of region_type_sev sev,
          om_sev_reset_addr = Some (of_nat addr)\<rparr>"
proof -
  let ?bs = "meta_blocks addr (length firmware - length pa) (length firmware - length pb)"
  let ?m = "\<lparr>om_firmware = firmware, om_regions = [], om_sev_reset_addr = None\<rparr>"
  let ?m1 = "?m\<lparr>om_regions := regions_of region_type_igvm igvm\<rparr>"
  have ok: "list_all block_ok ?bs" "block_ok (ovmf_meta_list, concat (map encode_block ?bs))"
    by (simp_all add: block_ok_def meta_blocks_def)
  have "length firmware = length pa + length (encode_list sev @ qa)"
      "length firmware = length pb + length (encode_list igvm @ qb)"
    using sev igvm by (metis length_append)+
  note lens = this
  have "read_region_list region_type_igvm (le_bytes 4 (length firmware - length pb)) ?m = ?m1"
    using read_region_list_encoded [OF small(2), of "length firmware - length pb" ?m pb qb region_type_igvm]
      igvm lens len by simp
  moreover have "read_region_list region_type_sev (le_bytes 4 (length firmware - length pa)) ?m1
      = ?m1\<lparr>om_regions := regions_of region_type_igvm igvm @ regions_of region_type_sev sev\<rparr>"
    using read_region_list_encoded [OF small(1), of "length firmware - length pa" ?m1 pa qa region_type_sev]
      sev lens len by simp
  moreover have "read_u32 (le_bytes 4 addr) = Some (addr, [])"
    using addr by (simp add: read_u32_def)
  ultimately show ?thesis
    using ovmf_meta_new_encoded [OF tab tl ok] by (simp add: meta_blocks_def parse_blk_def)
qed

text \<open>A small image, with an empty region that is skipped.\<close>

definition sample_sev :: "(nat \<times> nat \<times> nat) list" where
  "sample_sev = [(0x800000, 0x1000, 1), (0x801000, 0, 1), (0x802000, 0x1000, 3)]"

definition sample_igvm :: "(nat \<times> nat \<times> nat) list" where
  "sample_igvm = [(0x80e000, 0x1000, 0x100), (0x100000, 0x2000, 0x200)]"

definition sample_table :: bytes where
  "sample_table = encode_block (ovmf_meta_list, concat (map encode_block (meta_blocks 0x80b004 208 156)))"

definition sample_firmware :: bytes where
  "sample_firmware = encode_list sample_sev @ encode_list sample_igvm @ sample_table @ replicate 32 0x90"

definition sample_meta :: ovmf_meta where
  "sample_meta = \<lparr>om_firmware = sample_firmware,
     om_regions = [\<lparr>or_base = 0x80e000, or_size = 0x1000, or_type = IgvmParamArea\<rparr>,
                   \<lparr>or_base = 0x100000, or_size = 0x2000, or_type = IgvmHobArea\<rparr>,
                   \<lparr>or_base = 0x800000, or_size = 0x1000, or_type = SevMemory\<rparr>,
                   \<lparr>or_base = 0x802000, or_size = 0x1000, or_type = SevCpuid\<rparr>],
     om_sev_reset_addr = Some 0x80b004\<rparr>"

lemma sample_firmware_length: "length sample_firmware = 208"
  by (simp add: sample_firmware_def sample_table_def sample_sev_def sample_igvm_def meta_blocks_def)

lemma sample_firmware_parts:
  "sample_firmware = [] @ encode_list sample_sev @ (encode_list sample_igvm @ sample_table @ replicate 32 0x90)"
  "sample_firmware = encode_list sample_sev @ encode_list sample_igvm @ (sample_table @ replicate 32 0x90)"
  "sample_firmware = (encode_list sample_sev @ encode_list sample_igvm) @ encode_block (ovmf_meta_list,
     concat (map encode_block (meta_blocks 0x80b004 (length sample_firmware - length ([] :: bytes))
       (length sample_firmware - length (encode_list sample_sev))))) @ replicate 32 0x90"
  by (simp_all add: sample_firmware_length, simp_all add: sample_firmware_def sample_table_def sample_sev_def)

lemma sample_small: "list_all entry_small sample_sev" "list_all entry_small sample_igvm"
  by (simp_all add: sample_sev_def sample_igvm_def entry_small_def)

lemma sample_meta_eq:
  "sample_meta = \<lparr>om_firmware = sample_firmware,
     om_regions = regions_of region_type_igvm sample_igvm @ regions_of region_type_sev sample_sev,
     om_sev_reset_addr = Some (of_nat 0x80b004)\<rparr>"
  by (simp add: sample_meta_def regions_of_def region_type_igvm_def region_type_sev_def sample_sev_def sample_igvm_def)

lemma sample_firmware_meta: "ovmf_meta_new sample_firmware = Some sample_meta"
  unfolding sample_meta_eq
  by (rule meta_image [OF sample_firmware_parts _ _ _ sample_small]) (simp_all add: sample_firmware_length)

section \<open>Properties\<close>

text \<open>
  C30. A firmware image that carries a region list for SEV, a region list for IGVM parameters and the
  three metadata blocks that point to them (by distance from its end) is read back exactly: the reset
  address, and the non-empty regions of both lists with their kinds, those of the block nearest the
  end first.
\<close>

theorem ovmf_meta_reads_image:
  assumes sev: "firmware = pa @ encode_list sev @ qa" and igvm: "firmware = pb @ encode_list igvm @ qb"
    and tab: "firmware = pre @ encode_block (ovmf_meta_list,
         concat (map encode_block (meta_blocks addr (length firmware - length pa) (length firmware - length pb)))) @ tail"
    and tl: "length tail = 32" and len: "length firmware < 2 ^ 32" and addr: "addr < 2 ^ 32"
    and small: "list_all entry_small sev" "list_all entry_small igvm"
  shows "ovmf_meta_new firmware =
    Some \<lparr>om_firmware = firmware, om_regions = regions_of region_type_igvm igvm @ regions_of region_type_sev sev,
          om_sev_reset_addr = Some (of_nat addr)\<rparr>"
  using assms by (rule meta_image)

theorem ovmf_meta_reads_image_witness: "ovmf_meta_new sample_firmware = Some sample_meta"
  unfolding sample_meta_eq
  by (rule ovmf_meta_reads_image [OF sample_firmware_parts _ _ _ sample_small]) (simp_all add: sample_firmware_length)

end
