(* ===== verification/X86_Regs.thy ===== *)
theory X86_Regs
  imports Igvm_Types
begin

unbundle bit_operations_syntax

text \<open>
  The register state of the virtual processors (\<open>crates/igvm-tools/src/x86regs.rs\<close>): the bit
  fields of segment attributes and control registers, the register lists of the two boot modes,
  and the native context and SEV VMSA made from a register list.
\<close>

section \<open>Bit fields\<close>

definition with_bit :: "nat \<Rightarrow> bool \<Rightarrow> 'a::len word \<Rightarrow> 'a word" where
  "with_bit n b w = (if b then set_bit n w else unset_bit n w)"

text \<open>Segment attributes, from bit 0: accessed, rw, ce, code, system, dpl (2), present, limit (4), avl,
  long, db, granularity. The defaults are accessed and system.\<close>

definition seg_new :: u16 where "seg_new = with_bit 4 True (with_bit 0 True 0)"
definition with_rw :: "bool \<Rightarrow> u16 \<Rightarrow> u16" where "with_rw = with_bit 1"
definition with_code :: "bool \<Rightarrow> u16 \<Rightarrow> u16" where "with_code = with_bit 3"
definition with_system :: "bool \<Rightarrow> u16 \<Rightarrow> u16" where "with_system = with_bit 4"
definition with_present :: "bool \<Rightarrow> u16 \<Rightarrow> u16" where "with_present = with_bit 7"
definition with_long :: "bool \<Rightarrow> u16 \<Rightarrow> u16" where "with_long = with_bit 13"
definition with_db :: "bool \<Rightarrow> u16 \<Rightarrow> u16" where "with_db = with_bit 14"
definition with_granularity :: "bool \<Rightarrow> u16 \<Rightarrow> u16" where "with_granularity = with_bit 15"

definition code16 :: u16 where
  "code16 = with_present True (with_code True (with_rw True seg_new))"
definition data16 :: u16 where
  "data16 = with_present True (with_code False (with_rw True seg_new))"
definition code32 :: u16 where
  "code32 = with_granularity True (with_db True (with_present True (with_code True (with_rw True seg_new))))"
definition data32 :: u16 where
  "data32 = with_granularity True (with_db True (with_present True (with_code False (with_rw True seg_new))))"
definition code64 :: u16 where
  "code64 = with_long True (with_present True (with_code True seg_new))"
definition data64 :: u16 where
  "data64 = with_present True seg_new"

definition system_segment :: "u16 \<Rightarrow> u16" where
  "system_segment systype = with_present True (with_system False (systype AND 0x0f))"

definition ldt :: u16 where "ldt = system_segment 0x02"
definition tss16 :: u16 where "tss16 = system_segment 0x03"
definition tss3264 :: u16 where "tss3264 = system_segment 0x0b"

text \<open>\<open>ControlRegister0\<close>: pe 0, et 4, ne 5, nw 29, cd 30. \<open>ExtFeatureEnableReg\<close>: svme 12.\<close>

definition cr0_reset :: u64 where
  "cr0_reset = with_bit 30 True (with_bit 29 True (with_bit 4 True 0))"
definition cr0_reset_fast :: u64 where
  "cr0_reset_fast = with_bit 4 True 0"
definition efer_svme :: u64 where
  "efer_svme = with_bit 12 True 0"

section \<open>Register lists\<close>

definition common_regs :: "x86_register list" where
  "common_regs =
     (let tab = \<lparr>tr_base = 0, tr_limit = 0xffff\<rparr> in [Pat 0x0007040600070406, Gdtr tab, Idtr tab])"

definition real_mode_regs_at :: "u32 \<Rightarrow> x86_register list" where
  "real_mode_regs_at reset_addr =
     (let code = \<lparr>sr_base = ucast (reset_addr AND 0xffff0000), sr_limit = 0xffff, sr_selector = 0xf000,
                  sr_attributes = code16\<rparr>;
          data = \<lparr>sr_base = 0, sr_limit = 0xffff, sr_selector = 0, sr_attributes = data16\<rparr>;
          tss = \<lparr>sr_base = 0, sr_limit = 0xffff, sr_selector = 0, sr_attributes = tss16\<rparr>
      in [Cr0 cr0_reset_fast, Rip (ucast (reset_addr AND 0xffff)), Cs code, Ss data, Ds data, Es data, Fs data,
          Gs data, Tr tss] @ common_regs)"

definition flat32_mode_regs :: "u64 option \<Rightarrow> x86_register list" where
  "flat32_mode_regs rip =
     (let code = \<lparr>sr_base = 0, sr_limit = 0xffffffff, sr_selector = 0x08, sr_attributes = code32\<rparr>;
          data = \<lparr>sr_base = 0, sr_limit = 0xffffffff, sr_selector = 0x10, sr_attributes = data32\<rparr>;
          tss = \<lparr>sr_base = 0, sr_limit = 0xffff, sr_selector = 0, sr_attributes = tss3264\<rparr>
      in [Cr0 (with_bit 5 True (with_bit 0 True cr0_reset_fast)),
          Rip (case rip of None \<Rightarrow> 0xfffffff0 | Some r \<Rightarrow> r), Cs code, Ss data, Ds data, Es data, Fs data,
          Gs data, Tr tss] @ common_regs)"

section \<open>Contexts\<close>

definition zero_native_ctx :: native_ctx where
  "zero_native_ctx =
     \<lparr>n_rip = 0, n_cr0 = 0, n_gdtr_base = 0, n_gdtr_limit = 0, n_idtr_base = 0, n_idtr_limit = 0,
      n_code_base = 0, n_code_limit = 0, n_code_selector = 0, n_code_attributes = 0, n_data_base = 0,
      n_data_limit = 0, n_data_selector = 0, n_data_attributes = 0, n_gs_base = 0\<rparr>"

fun native_step :: "x86_register \<Rightarrow> native_ctx \<Rightarrow> native_ctx res" where
  "native_step (Rip rip) c = Inr (c\<lparr>n_rip := rip\<rparr>)"
| "native_step (Cr0 cr0) c = Inr (c\<lparr>n_cr0 := cr0\<rparr>)"
| "native_step (Gdtr tab) c = Inr (c\<lparr>n_gdtr_base := tr_base tab, n_gdtr_limit := tr_limit tab\<rparr>)"
| "native_step (Idtr tab) c = Inr (c\<lparr>n_idtr_base := tr_base tab, n_idtr_limit := tr_limit tab\<rparr>)"
| "native_step (Cs seg) c =
     Inr (c\<lparr>n_code_base := ucast (sr_base seg), n_code_limit := sr_limit seg, n_code_selector := sr_selector seg,
            n_code_attributes := sr_attributes seg\<rparr>)"
| "native_step (Ds seg) c =
     Inr (c\<lparr>n_data_base := ucast (sr_base seg), n_data_limit := sr_limit seg, n_data_selector := sr_selector seg,
            n_data_attributes := sr_attributes seg\<rparr>)"
| "native_step (Gs seg) c = Inr (c\<lparr>n_gs_base := sr_base seg\<rparr>)"
| "native_step (Ss _) c = Inr c"
| "native_step (Es _) c = Inr c"
| "native_step (Fs _) c = Inr c"
| "native_step (Tr _) c = Inr c"
| "native_step (Pat _) c = Inr c"
| "native_step (OtherRegister r) c = Inl (Panic (''native_context: not implemented: '' @ r))"

definition native_context :: "x86_register list \<Rightarrow> native_ctx res" where
  "native_context regs = foldM native_step regs zero_native_ctx"

definition vmsa_segment :: "segment_register \<Rightarrow> sev_selector" where
  "vmsa_segment seg =
     (let attrib = (sr_attributes seg AND 0xff) OR (drop_bit 4 (sr_attributes seg AND 0xf000))
      in \<lparr>ss_selector = sr_selector seg, ss_attrib = attrib, ss_limit = sr_limit seg, ss_base = sr_base seg\<rparr>)"

definition vmsa_table :: "table_register \<Rightarrow> sev_selector" where
  "vmsa_table tab = \<lparr>ss_selector = 0, ss_attrib = 0, ss_limit = ucast (tr_limit tab), ss_base = tr_base tab\<rparr>"

definition zeroed_selector :: sev_selector where
  "zeroed_selector = \<lparr>ss_selector = 0, ss_attrib = 0, ss_limit = 0, ss_base = 0\<rparr>"

text \<open>A zeroed VMSA with the architectural reset values and the feature flags.\<close>

definition reset_vmsa :: "sev_features \<Rightarrow> sev_vmsa" where
  "reset_vmsa features =
     \<lparr>v_es = zeroed_selector, v_cs = zeroed_selector, v_ss = zeroed_selector, v_ds = zeroed_selector, v_fs = zeroed_selector,
      v_gs = zeroed_selector, v_gdtr = zeroed_selector, v_idtr = zeroed_selector, v_tr = zeroed_selector, v_efer = 0,
      v_cr0 = 0, v_dr7 = 0x400, v_dr6 = 0xffff0ff0, v_rip = 0, v_pat = 0, v_sev_features = features, v_xcr0 = 1,
      v_mxcsr = 0x1f80, v_x87_fcw = 0x37f\<rparr>"

fun vmsa_step :: "x86_register \<Rightarrow> sev_vmsa \<Rightarrow> sev_vmsa res" where
  "vmsa_step (Rip rip) v = Inr (v\<lparr>v_rip := rip\<rparr>)"
| "vmsa_step (Cr0 cr0) v = Inr (v\<lparr>v_cr0 := cr0\<rparr>)"
| "vmsa_step (Pat pat) v = Inr (v\<lparr>v_pat := pat\<rparr>)"
| "vmsa_step (Gdtr tab) v = Inr (v\<lparr>v_gdtr := vmsa_table tab\<rparr>)"
| "vmsa_step (Idtr tab) v = Inr (v\<lparr>v_idtr := vmsa_table tab\<rparr>)"
| "vmsa_step (Cs seg) v = Inr (v\<lparr>v_cs := vmsa_segment seg\<rparr>)"
| "vmsa_step (Ss seg) v = Inr (v\<lparr>v_ss := vmsa_segment seg\<rparr>)"
| "vmsa_step (Ds seg) v = Inr (v\<lparr>v_ds := vmsa_segment seg\<rparr>)"
| "vmsa_step (Es seg) v = Inr (v\<lparr>v_es := vmsa_segment seg\<rparr>)"
| "vmsa_step (Fs seg) v = Inr (v\<lparr>v_fs := vmsa_segment seg\<rparr>)"
| "vmsa_step (Gs seg) v = Inr (v\<lparr>v_gs := vmsa_segment seg\<rparr>)"
| "vmsa_step (Tr seg) v = Inr (v\<lparr>v_tr := vmsa_segment seg\<rparr>)"
| "vmsa_step (OtherRegister r) v = Inl (Panic (''vmsa_context: not implemented: '' @ r))"

definition vmsa_context :: "x86_register list \<Rightarrow> sev_features \<Rightarrow> sev_vmsa res" where
  "vmsa_context regs features =
     bnd (foldM vmsa_step regs (reset_vmsa features)) (\<lambda>v. Inr (v\<lparr>v_efer := v_efer v OR efer_svme\<rparr>))"

section \<open>Lemmas\<close>

text \<open>The attribute words the processor manuals give.\<close>

lemma attribute_values:
  "code16 = 0x9b" "data16 = 0x93" "code32 = 0xc09b" "data32 = 0xc093" "code64 = 0x2099" "data64 = 0x91"
  "ldt = 0x82" "tss16 = 0x83" "tss3264 = 0x8b"
  by code_simp+

lemma cr0_values: "cr0_reset = 0x60000010" "cr0_reset_fast = 0x10" "efer_svme = 0x1000"
  by code_simp+

lemma flat32_cr0: "with_bit 5 True (with_bit 0 True 0x10) = (0x31 :: u64)"
  by code_simp

text \<open>The packing of attributes, bit by bit.\<close>

lemma mask8: "(0xff :: u16) = mask 8"
  by (simp add: mask_eq_exp_minus_1)

lemma mask_f000: "(0xf000 :: u16) = push_bit 12 (mask 4)"
  by (simp add: mask_eq_exp_minus_1 push_bit_eq_mult)

lemma mask_ffff: "(0xffff :: u32) = mask 16"
  by (simp add: mask_eq_exp_minus_1)

lemma mask_ffff0000: "(0xffff0000 :: u32) = push_bit 16 (mask 16)"
  by (simp add: mask_eq_exp_minus_1 push_bit_eq_mult)

lemma vmsa_segment_attrib_bit:
  "bit (ss_attrib (vmsa_segment seg)) i =
     (if i < 8 then bit (sr_attributes seg) i else i < 12 \<and> bit (sr_attributes seg) (i + 4))"
proof -
  have e: "ss_attrib (vmsa_segment seg)
      = (sr_attributes seg AND mask 8) OR (drop_bit 4 (sr_attributes seg AND push_bit 12 (mask 4)))"
    by (simp only: vmsa_segment_def Let_def sev_selector.simps mask8 mask_f000)
  show ?thesis
    unfolding e by (auto simp: bit_simps possible_bit_word add.commute dest: bit_imp_le_length)
qed

text \<open>A 32-bit address is the sum of its upper and lower halves.\<close>

lemma split_address: "ucast (a AND 0xffff0000) + ucast (a AND 0xffff) = (ucast a :: u64)" for a :: u32
proof -
  let ?h = "ucast (a AND 0xffff0000) :: u64" and ?l = "ucast (a AND 0xffff) :: u64"
  have "?h AND ?l = 0"
    unfolding mask_ffff mask_ffff0000
    by (rule bit_eqI) (auto simp: bit_simps)
  then have "?h + ?l = ?h OR ?l" by (rule disjunctive_add_eq_or)
  also have "\<dots> = ucast a"
    unfolding mask_ffff mask_ffff0000
    by (rule bit_eqI) (auto simp: bit_simps possible_bit_word dest: bit_imp_le_length)
  finally show ?thesis .
qed


lemma rip_low: "ucast (a AND 0xffff) AND 0xffff = (ucast (a AND 0xffff) :: u64)" for a :: u32
proof -
  have m: "(0xffff :: u64) = mask 16" by (simp add: mask_eq_exp_minus_1)
  show ?thesis
    unfolding mask_ffff m by (rule bit_eqI) (auto simp: bit_simps)
qed

lemma bits_12_0: "bit (0x1000 :: u64) 12" "bit (0x31 :: u64) 0" "\<not> bit (0x10 :: u64) 0"
  by code_simp+

text \<open>The register lists of both modes hit no unimplemented register.\<close>

lemma regs_supported:
  "\<exists>v. vmsa_context (real_mode_regs_at a) features = Inr v"
  "\<exists>v. vmsa_context (flat32_mode_regs rip) features = Inr v"
  "\<exists>c. native_context (real_mode_regs_at a) = Inr c"
  "\<exists>c. native_context (flat32_mode_regs rip) = Inr c"
  by (simp_all add: vmsa_context_def native_context_def real_mode_regs_at_def flat32_mode_regs_def common_regs_def Let_def)

section \<open>Properties\<close>

text \<open>
  Both boot modes give register lists from which the native context and the VMSA are built without
  hitting an unimplemented register. The VMSA of real mode at address \<open>a\<close> starts executing at \<open>a\<close>:
  code segment base plus instruction pointer is \<open>a\<close>, with the instruction pointer in 16 bits, the
  flags of an SEV guest and the architectural reset values; that of flat mode starts at the reset
  vector below 4 GB, in protected mode.
\<close>

theorem vmsa_reset_state:
  "(\<exists>v. vmsa_context (real_mode_regs_at a) features = Inr v
      \<and> ss_base (v_cs v) + v_rip v = ucast a \<and> v_rip v AND 0xffff = v_rip v
      \<and> \<not> bit (v_cr0 v) 0 \<and> bit (v_efer v) 12 \<and> v_sev_features v = features
      \<and> ss_attrib (v_cs v) = 0x9b \<and> ss_attrib (v_ds v) = 0x93 \<and> ss_attrib (v_tr v) = 0x83
      \<and> v_dr6 v = 0xffff0ff0 \<and> v_dr7 v = 0x400 \<and> v_xcr0 v = 1 \<and> v_pat v = 0x0007040600070406)
   \<and> (\<exists>v. vmsa_context (flat32_mode_regs None) features = Inr v
      \<and> ss_base (v_cs v) + v_rip v = 0xfffffff0 \<and> bit (v_cr0 v) 0 \<and> bit (v_efer v) 12
      \<and> ss_selector (v_cs v) = 8 \<and> ss_attrib (v_cs v) = 0xc9b \<and> ss_attrib (v_ds v) = 0xc93)
   \<and> (\<exists>c. native_context (flat32_mode_regs None) = Inr c \<and> n_rip c = 0xfffffff0 \<and> bit (n_cr0 c) 0
      \<and> n_code_attributes c = 0xc09b \<and> n_data_attributes c = 0xc093 \<and> n_code_limit c = 0xffffffff)
   \<and> (\<exists>c. native_context (real_mode_regs_at a) = Inr c)"
  by (simp add: vmsa_context_def native_context_def real_mode_regs_at_def flat32_mode_regs_def common_regs_def
      Let_def vmsa_segment_def attribute_values cr0_values flat32_cr0 split_address reset_vmsa_def rip_low bits_12_0)

text \<open>
  The 12-bit attribute field of a VMSA segment keeps bits 0 to 7 of the 16-bit attribute word
  and its bits 12 to 15 as bits 8 to 11; the four limit bits between them are dropped, and nothing
  else is set.
\<close>

lemma vmsa_segment_packs:
  "(\<forall>i. bit (ss_attrib (vmsa_segment seg)) i =
      (if i < 8 then bit (sr_attributes seg) i else i < 12 \<and> bit (sr_attributes seg) (i + 4)))
   \<and> ss_base (vmsa_segment seg) = sr_base seg \<and> ss_limit (vmsa_segment seg) = sr_limit seg
   \<and> ss_selector (vmsa_segment seg) = sr_selector seg"
  using vmsa_segment_attrib_bit [of seg] by (simp add: vmsa_segment_def Let_def)

end
