(* ===== verification/Igvm_Builder.thy ===== *)
theory Igvm_Builder
  imports Measure Extract Ovmf_Meta X86_Regs
begin

unbundle bit_operations_syntax

text \<open>
  The IGVM file builder (\<open>crates/igvm-tools/src/builder.rs\<close>): platforms, contexts, policy, parameter
  areas and pages are appended to a state; finalizing sorts the directives by page address. Every
  \<open>add_\<close> method is a function from the builder to the builder. The file revision is a constant and
  is left out. Guest addresses are wrapped to 64 bits as in the release build.
\<close>

section \<open>Definitions\<close>

definition native_compat :: u32 where "native_compat = 1"
definition sev_snp_compat :: u32 where "sev_snp_compat = 2"

record builder =
  bl_platforms :: "platform list"
  bl_initializations :: "initialization list"
  bl_directives :: "directive list"
  bl_compat_all :: u32

definition builder_new :: builder where
  "builder_new = \<lparr>bl_platforms = [], bl_initializations = [], bl_directives = [], bl_compat_all = 0\<rparr>"

definition push_directive :: "directive \<Rightarrow> builder \<Rightarrow> builder" where
  "push_directive d b = b\<lparr>bl_directives := bl_directives b @ [d]\<rparr>"

definition add_native_platform :: "builder \<Rightarrow> builder" where
  "add_native_platform b =
     b\<lparr>bl_compat_all := bl_compat_all b OR native_compat,
       bl_platforms := bl_platforms b @ [\<lparr>pl_compat = native_compat, pl_highest_vtl = 2,
         pl_type = NativePlatform, pl_version = 1, pl_shared_boundary = 0\<rparr>]\<rparr>"

definition add_snp_platform :: "builder \<Rightarrow> builder" where
  "add_snp_platform b =
     b\<lparr>bl_compat_all := bl_compat_all b OR sev_snp_compat,
       bl_platforms := bl_platforms b @ [\<lparr>pl_compat = sev_snp_compat, pl_highest_vtl = 2,
         pl_type = SevSnp, pl_version = 1, pl_shared_boundary = 0\<rparr>]\<rparr>"

definition add_native_context :: "x86_register list \<Rightarrow> builder \<Rightarrow> builder res" where
  "add_native_context regs b =
     bnd (native_context regs) (\<lambda>native. Inr (push_directive (X64NativeVpContext native_compat 0 native) b))"

definition add_snp_vmsa_context :: "x86_register list \<Rightarrow> bool \<Rightarrow> u16 \<Rightarrow> builder \<Rightarrow> builder res" where
  "add_snp_vmsa_context regs debug vp_index b =
     bnd (vmsa_context regs \<lparr>sf_snp = True, sf_debug_swap = debug\<rparr>) (\<lambda>vmsa.
     Inr (push_directive (SnpVpContext 0xFFFFFFFFF000 sev_snp_compat vp_index vmsa) b))"

definition add_snp_policy :: "igvm_lib \<Rightarrow> u64 option \<Rightarrow> builder \<Rightarrow> builder" where
  "add_snp_policy G policy b =
     b\<lparr>bl_initializations := bl_initializations b @
         [GuestPolicy (case policy of None \<Rightarrow> smt_policy G | Some p \<Rightarrow> p) sev_snp_compat]\<rparr>"

definition add_empty_pages :: "nat \<Rightarrow> nat \<Rightarrow> u32 \<Rightarrow> page_data_type \<Rightarrow> builder \<Rightarrow> builder" where
  "add_empty_pages base sz compatibility_mask data_type b =
     fold (\<lambda>pg. push_directive
             (PageData (of_nat (base + pg * page_size)) compatibility_mask no_flags data_type []))
       [0..<div_ceil sz page_size] b"

definition add_empty_normal_pages :: "nat \<Rightarrow> nat \<Rightarrow> builder \<Rightarrow> builder" where
  "add_empty_normal_pages base sz b = add_empty_pages base sz (bl_compat_all b) NormalPage b"

definition param_gpas :: "ovmf_meta \<Rightarrow> (nat \<times> nat) list" where
  "param_gpas m = map (\<lambda>r. (or_base r, or_size r)) (filter (\<lambda>r. or_type r = IgvmParamArea) (om_regions m))"

fun region_page_type :: "region_type \<Rightarrow> page_data_type option" where
  "region_page_type SevMemory = Some NormalPage"
| "region_page_type SevSvsmCca = Some NormalPage"
| "region_page_type SevHashes = Some NormalPage"
| "region_page_type SevSecrets = Some SecretsPage"
| "region_page_type SevCpuid = Some CpuidData"
| "region_page_type _ = None"

definition in_params :: "(nat \<times> nat) list \<Rightarrow> nat \<Rightarrow> bool" where
  "in_params params gpa = list_ex (\<lambda>(base, sz). base \<le> gpa \<and> gpa < base + sz) params"

text \<open>Region bounds come from 32-bit fields, so the sums below stay in 64 bits.\<close>

definition add_region_page :: "(nat \<times> nat) list \<Rightarrow> ovmf_region \<Rightarrow> page_data_type \<Rightarrow> nat \<Rightarrow> builder \<Rightarrow> builder" where
  "add_region_page params r t pg b =
     (let gpa = or_base r + pg * page_size in
      if in_params params gpa then b
      else add_empty_pages gpa page_size sev_snp_compat t b)"

definition add_ovmf_snp_pages :: "ovmf_meta \<Rightarrow> builder \<Rightarrow> builder" where
  "add_ovmf_snp_pages m b =
     fold (\<lambda>r b. case region_page_type (or_type r) of
             None \<Rightarrow> b
           | Some t \<Rightarrow> fold (add_region_page (param_gpas m) r t) [0..<div_ceil (or_size r) page_size] b)
       (om_regions m) b"

definition add_igvm_param_area :: "u32 \<Rightarrow> u64 \<Rightarrow> builder \<Rightarrow> builder" where
  "add_igvm_param_area index n = push_directive (ParameterArea n index [])"

definition add_igvm_param_memmap :: "u32 \<Rightarrow> u32 \<Rightarrow> builder \<Rightarrow> builder" where
  "add_igvm_param_memmap index offset = push_directive (MemoryMap index offset)"

definition add_igvm_param_vpcount :: "u32 \<Rightarrow> u32 \<Rightarrow> builder \<Rightarrow> builder" where
  "add_igvm_param_vpcount index offset = push_directive (VpCount index offset)"

definition add_igvm_param_insert :: "u32 \<Rightarrow> u64 \<Rightarrow> builder \<Rightarrow> builder" where
  "add_igvm_param_insert index gpa b = push_directive (ParameterInsert index gpa (bl_compat_all b)) b"

definition find_region :: "region_type \<Rightarrow> ovmf_meta \<Rightarrow> ovmf_region option" where
  "find_region t m = find (\<lambda>r. or_type r = t) (om_regions m)"

definition add_param_region :: "ovmf_region \<Rightarrow> builder \<Rightarrow> builder" where
  "add_param_region r b =
     (case or_type r of
        IgvmParamMemoryMap \<Rightarrow> add_igvm_param_memmap 0 (of_nat (or_base r)) b
      | IgvmParamVpCount \<Rightarrow> add_igvm_param_vpcount 0 (of_nat (or_base r)) b
      | _ \<Rightarrow> b)"

definition add_ovmf_igvm_params :: "ovmf_meta \<Rightarrow> builder \<Rightarrow> builder" where
  "add_ovmf_igvm_params m b =
     (case find_region IgvmParamArea m of
        None \<Rightarrow> b
      | Some area \<Rightarrow>
          add_igvm_param_insert 0 (of_nat (or_base area))
            (fold add_param_region (om_regions m)
              (add_igvm_param_area 0 (of_nat (or_size area)) b)))"

definition add_data_pages_flags :: "nat \<Rightarrow> bytes \<Rightarrow> page_flags \<Rightarrow> builder \<Rightarrow> builder" where
  "add_data_pages_flags base data flags b =
     fold (\<lambda>pg. let start = pg * page_size; ending = min (start + page_size) (length data) in
             push_directive
               (PageData (of_nat (base + start)) (bl_compat_all b) flags NormalPage
                  (take (ending - start) (drop start data))))
       [0..<div_ceil (length data) page_size] b"

definition add_data_pages :: "nat \<Rightarrow> bytes \<Rightarrow> builder \<Rightarrow> builder" where
  "add_data_pages base data = add_data_pages_flags base data no_flags"

definition add_data_pages_unmeasured :: "nat \<Rightarrow> bytes \<Rightarrow> builder \<Rightarrow> builder" where
  "add_data_pages_unmeasured base data = add_data_pages_flags base data (no_flags\<lparr>pf_unmeasured := True\<rparr>)"

definition page_in_range :: "nat \<Rightarrow> nat \<Rightarrow> directive \<Rightarrow> bool" where
  "page_in_range base sz d =
     (case d of
        PageData gpa _ _ _ _ \<Rightarrow> base \<le> unat gpa \<and> unat gpa < wrap64 (base + max sz page_size)
      | _ \<Rightarrow> False)"

definition remove_page_data_in_range :: "nat \<Rightarrow> nat \<Rightarrow> builder \<Rightarrow> builder" where
  "remove_page_data_in_range base sz b =
     b\<lparr>bl_directives := filter (\<lambda>d. \<not> page_in_range base sz d) (bl_directives b)\<rparr>"

definition sub_usize :: "nat \<Rightarrow> nat \<Rightarrow> nat" where
  "sub_usize a b = wrap64 (a + (word_max - wrap64 b))"

definition add_firmware_4g :: "bytes \<Rightarrow> builder \<Rightarrow> builder" where
  "add_firmware_4g firmware = add_data_pages (sub_usize (2 ^ 32) (length firmware)) firmware"

definition add_firmware_1m :: "bytes \<Rightarrow> builder \<Rightarrow> builder" where
  "add_firmware_1m firmware =
     (let lowsize = min (128 * 1024) (length firmware);
          lowbase = 2 ^ 20 - lowsize;
          offset = length firmware - lowsize
      in add_data_pages lowbase (drop offset firmware))"

definition add_uefivars :: "bytes \<Rightarrow> nat \<Rightarrow> builder \<Rightarrow> builder" where
  "add_uefivars uefivars fwsize =
     add_data_pages (sub_usize (sub_usize (2 ^ 32) (length uefivars)) fwsize) uefivars"

text \<open>The sort key of \<open>sort_pages\<close>: the address of a page, zero for the rest.\<close>

definition directive_gpa :: "directive \<Rightarrow> u64" where
  "directive_gpa d = (case d of PageData gpa _ _ _ _ \<Rightarrow> gpa | _ \<Rightarrow> 0)"

definition sort_directives :: "directive list \<Rightarrow> directive list" where
  "sort_directives ds = sort_key directive_gpa ds"

definition finalize :: "igvm_lib \<Rightarrow> builder \<Rightarrow> string + igvm_file" where
  "finalize G b =
     igvm_validate G
       \<lparr>ig_platforms = bl_platforms b, ig_initializations = bl_initializations b,
        ig_directives = sort_directives (bl_directives b)\<rparr>"

interpretation directives: stable_sorter sort_directives directive_gpa
  unfolding sort_directives_def by (rule stable_sorter_sort_key)


lemma finalize_file:
  assumes "igvm_ok G" and "finalize G b = Inr f"
  shows "f = \<lparr>ig_platforms = bl_platforms b, ig_initializations = bl_initializations b,
              ig_directives = sort_directives (bl_directives b)\<rparr>"
  using assms unfolding finalize_def igvm_ok_def by blast

section \<open>What the operations append\<close>

declare of_nat_add [simp del] of_nat_mult [simp del]

text \<open>Every operation that adds pages extends the directives and leaves the rest of the builder alone.\<close>

definition appends :: "directive list \<Rightarrow> builder \<Rightarrow> builder" where
  "appends ds b = b\<lparr>bl_directives := bl_directives b @ ds\<rparr>"

lemma appends_simps [simp]:
  "bl_directives (appends ds b) = bl_directives b @ ds" "bl_compat_all (appends ds b) = bl_compat_all b"
  "bl_platforms (appends ds b) = bl_platforms b" "bl_initializations (appends ds b) = bl_initializations b"
  "appends [] b = b" "appends es (appends ds b) = appends (ds @ es) b"
  by (simp_all add: appends_def)

lemma push_appends: "push_directive d b = appends [d] b"
  by (simp add: push_directive_def appends_def)

lemma fold_appends: "fold (\<lambda>x. appends (f x)) xs b = appends (concat (map f xs)) b"
  by (induction xs arbitrary: b) simp_all

lemma fold_push: "fold (\<lambda>x. push_directive (f x)) xs b = appends (map f xs) b"
  by (induction xs arbitrary: b) (simp_all add: push_appends)

text \<open>The pages of a blob: one per 4096 bytes, the last one possibly short.\<close>

definition blob_pages :: "nat \<Rightarrow> u32 \<Rightarrow> page_flags \<Rightarrow> bytes \<Rightarrow> directive list" where
  "blob_pages base m fl data =
     map (\<lambda>pg. PageData (of_nat (base + pg * 4096)) m fl NormalPage (take 4096 (drop (pg * 4096) data)))
       [0..<div_ceil (length data) 4096]"

lemma add_data_pages_flags_eq:
  "add_data_pages_flags base data fl b = appends (blob_pages base (bl_compat_all b) fl data) b"
proof -
  have t: "take (min (s + 4096) (length data) - s) (drop s data) = take 4096 (drop s data)" for s
    by (cases "s + 4096 \<le> length data") (simp_all add: min_def)
  show ?thesis
    by (simp add: add_data_pages_flags_def Let_def fold_push blob_pages_def page_size_def t)
qed

definition empty_pages :: "nat \<Rightarrow> nat \<Rightarrow> u32 \<Rightarrow> page_data_type \<Rightarrow> directive list" where
  "empty_pages base n m t = map (\<lambda>pg. PageData (of_nat (base + pg * 4096)) m no_flags t []) [0..<div_ceil n 4096]"

lemma add_empty_pages_eq: "add_empty_pages base n m t b = appends (empty_pages base n m t) b"
  by (simp add: add_empty_pages_def fold_push empty_pages_def page_size_def)

lemma div_ceil_page [simp]: "div_ceil 4096 4096 = 1" "div_ceil 0 4096 = 0"
  by (simp_all add: div_ceil_def)

lemma div_ceil_le: "pg < div_ceil n 4096 \<longleftrightarrow> pg * 4096 < n"
  by (auto simp: div_ceil_def)

definition region_pages :: "(nat \<times> nat) list \<Rightarrow> ovmf_region \<Rightarrow> directive list" where
  "region_pages params r =
     (case region_page_type (or_type r) of
        None \<Rightarrow> []
      | Some t \<Rightarrow>
          map (\<lambda>pg. PageData (of_nat (or_base r + pg * 4096)) sev_snp_compat no_flags t [])
            (filter (\<lambda>pg. \<not> in_params params (or_base r + pg * 4096))
              [0..<div_ceil (or_size r) 4096]))"

lemma add_region_page_eq:
  "add_region_page params r t = (\<lambda>pg.
     appends (if in_params params (or_base r + pg * 4096) then []
              else [PageData (of_nat (or_base r + pg * 4096)) sev_snp_compat no_flags t []]))"
  by (intro ext) (simp add: add_region_page_def Let_def page_size_def add_empty_pages_eq empty_pages_def)

lemma concat_map_single: "concat (map (\<lambda>x. if P x then [] else [f x]) xs) = map f (filter (\<lambda>x. \<not> P x) xs)"
  by (induction xs) auto

lemma add_ovmf_snp_pages_eq:
  "add_ovmf_snp_pages m b = appends (concat (map (region_pages (param_gpas m)) (om_regions m))) b"
proof -
  have "(case region_page_type (or_type r) of None \<Rightarrow> b
         | Some t \<Rightarrow> fold (add_region_page (param_gpas m) r t) [0..<div_ceil (or_size r) page_size] b)
        = appends (region_pages (param_gpas m) r) b" for r b
    by (simp add: region_pages_def add_region_page_eq page_size_def fold_appends concat_map_single split: option.split)
  then show ?thesis by (simp add: add_ovmf_snp_pages_def fold_appends)
qed

definition param_directives :: "ovmf_region \<Rightarrow> directive list" where
  "param_directives r =
     (case or_type r of
        IgvmParamMemoryMap \<Rightarrow> [MemoryMap 0 (of_nat (or_base r))]
      | IgvmParamVpCount \<Rightarrow> [VpCount 0 (of_nat (or_base r))]
      | _ \<Rightarrow> [])"

lemma add_ovmf_igvm_params_eq:
  "add_ovmf_igvm_params m b =
     (case find_region IgvmParamArea m of None \<Rightarrow> b
      | Some area \<Rightarrow> appends ([ParameterArea (of_nat (or_size area)) 0 []]
           @ concat (map param_directives (om_regions m))
           @ [ParameterInsert 0 (of_nat (or_base area)) (bl_compat_all b)]) b)"
proof -
  have "add_param_region = (\<lambda>r. appends (param_directives r))"
    by (intro ext) (simp add: add_param_region_def param_directives_def add_igvm_param_memmap_def
        add_igvm_param_vpcount_def push_appends split: region_type.split)
  then have "fold add_param_region rs b = appends (concat (map param_directives rs)) b" for rs b
    by (metis fold_appends)
  then show ?thesis
    by (simp add: add_ovmf_igvm_params_def add_igvm_param_area_def add_igvm_param_insert_def push_appends
        split: option.split)
qed


section \<open>Guest memory of the directives\<close>

text \<open>
  The pages a list of directives leaves in guest memory, as \<^const>\<open>page_map\<close> collects them. Sorting
  the directives by address does not change it, because the sort is stable.
\<close>

definition mem_of :: "directive list \<Rightarrow> pages" where
  "mem_of ds = om_of_list (page_list ds)"

lemma page_map_mem_of: "page_map f = mem_of (ig_directives f)"
  by (simp add: mem_of_def page_map_eq)

lemma page_list_append [simp]: "page_list (ds @ es) = page_list ds @ page_list es"
  by (simp add: page_list_def)

lemma page_list_Nil [simp]: "page_list [] = []"
  by (simp add: page_list_def)

lemma page_list_gpa: "(g, p) \<in> set (page_list ds) \<Longrightarrow> \<exists>d \<in> set ds. is_page d \<and> directive_gpa d = g"
  by (force simp: page_list_def directive_gpa_def split: directive.splits if_splits)

lemma mem_of_lookup: "om_lookup (mem_of ds) g = map_of (rev (page_list ds)) g"
  by (simp add: mem_of_def om_of_list_lookup)

lemma mem_of_append:
  "om_lookup (mem_of (ds @ es)) g =
     (case om_lookup (mem_of es) g of None \<Rightarrow> om_lookup (mem_of ds) g | Some p \<Rightarrow> Some p)"
  by (simp add: mem_of_lookup map_add_def split: option.split)

lemma mem_of_Nil [simp]: "om_lookup (mem_of []) g = None"
  by (simp add: mem_of_lookup)

lemma mem_of_none: "\<forall>d \<in> set ds. is_page d \<longrightarrow> directive_gpa d \<noteq> g \<Longrightarrow> om_lookup (mem_of ds) g = None"
  by (auto simp: mem_of_lookup map_of_eq_None_iff dest!: page_list_gpa)

lemma mem_of_single:
  "om_lookup (mem_of [d]) g \<noteq> None \<Longrightarrow> is_page d \<and> directive_gpa d = g"
  using mem_of_none [of "[d]" g] by fastforce

lemma mem_of_Cons:
  "om_lookup (mem_of (d # ds)) g =
     (case om_lookup (mem_of ds) g of None \<Rightarrow> om_lookup (mem_of [d]) g | Some p \<Rightarrow> Some p)"
  using mem_of_append [of "[d]" ds g] by simp

text \<open>Only the directives at an address matter for that address.\<close>

lemma mem_of_filter:
  assumes "\<And>d. d \<in> set ds \<Longrightarrow> is_page d \<Longrightarrow> directive_gpa d = g \<Longrightarrow> P d"
  shows "om_lookup (mem_of (filter P ds)) g = om_lookup (mem_of ds) g"
  using assms
proof (induction ds)
  case (Cons d ds)
  show ?case
  proof (cases "P d")
    case True
    then show ?thesis using Cons by (simp add: mem_of_Cons [of d])
  next
    case False
    then have "om_lookup (mem_of [d]) g = None" using Cons.prems mem_of_single [of d g] by force
    then show ?thesis using False Cons by (simp add: mem_of_Cons [of d ds] split: option.split)
  qed
qed simp

lemma mem_of_sorted: "om_lookup (mem_of (sort_directives ds)) g = om_lookup (mem_of ds) g"
proof -
  let ?P = "\<lambda>d. directive_gpa d = g"
  have "om_lookup (mem_of (filter ?P (sort_directives ds))) g = om_lookup (mem_of (filter ?P ds)) g"
    by (simp add: directives.sorter_stable)
  then show ?thesis by (simp add: mem_of_filter)
qed

text \<open>The pages of a blob placed at a page boundary.\<close>

definition fits :: "nat \<Rightarrow> bytes \<Rightarrow> bool" where
  "fits base data \<longleftrightarrow> base mod 4096 = 0 \<and> base + length data + 4096 < word_max"

lemma unat_page_addr:
  assumes "fits base data" and "pg * 4096 < length data"
  shows "unat (of_nat (base + pg * 4096) :: u64) = base + pg * 4096"
  using assms by (simp add: unat_of_nat fits_def word_max_def)

lemma blob_page_gpa:
  assumes "d \<in> set (blob_pages base m fl data)" and "fits base data"
  shows "\<exists>pg. pg * 4096 < length data \<and> unat (directive_gpa d) = base + pg * 4096"
proof -
  obtain pg where "pg * 4096 < length data"
      "d = PageData (of_nat (base + pg * 4096)) m fl NormalPage (take 4096 (drop (pg * 4096) data))"
    using assms(1) by (auto simp: blob_pages_def div_ceil_le)
  then show ?thesis using unat_page_addr [OF assms(2)] by (auto simp: directive_gpa_def)
qed

lemma mem_of_blob_page:
  assumes "fits base data" and "pg * 4096 < length data"
  shows "om_lookup (mem_of (blob_pages base m fl data)) (of_nat (base + pg * 4096))
     = Some (pad_to 4096 (take 4096 (drop (pg * 4096) data)))"
proof -
  let ?f = "\<lambda>pg. PageData (of_nat (base + pg * 4096)) m fl NormalPage (take 4096 (drop (pg * 4096) data))"
  let ?n = "div_ceil (length data) 4096"
  have pg: "pg < ?n" using assms(2) by (simp add: div_ceil_le)
  then have "[0..<?n] = [0..<pg] @ pg # [Suc pg..<?n]"
    by (metis le_add2 less_imp_add_positive upt_add_eq_append upt_conv_Cons add.left_neutral le_eq_less_or_eq less_or_eq_imp_le zero_le)
  then have e: "blob_pages base m fl data = map ?f [0..<pg] @ ?f pg # map ?f [Suc pg..<?n]"
    by (simp add: blob_pages_def)
  have inj: "(of_nat (base + q * 4096) :: u64) \<noteq> of_nat (base + pg * 4096)" if "q * 4096 < length data" "q \<noteq> pg" for q
    using unat_page_addr [OF assms(1) that(1)] unat_page_addr [OF assms] that(2) by (metis add_left_cancel mult_cancel2 zero_neq_numeral)
  have "om_lookup (mem_of (map ?f [Suc pg..<?n])) (of_nat (base + pg * 4096)) = None"
    by (rule mem_of_none) (use inj in \<open>auto simp: directive_gpa_def div_ceil_le\<close>)
  moreover have "om_lookup (mem_of [?f pg]) (of_nat (base + pg * 4096)) = Some (pad_to 4096 (take 4096 (drop (pg * 4096) data)))"
    using assms(2) by (simp add: mem_of_lookup page_list_def)
  ultimately show ?thesis
    unfolding e by (subst mem_of_append, subst mem_of_Cons) simp
qed


text \<open>Removing a range and placing a blob there: the range holds the blob, the rest is as before.\<close>

lemma remove_outside:
  assumes "\<not> (base \<le> unat g \<and> unat g < wrap64 (base + max n page_size))"
  shows "om_lookup (mem_of (bl_directives (remove_page_data_in_range base n b))) g
     = om_lookup (mem_of (bl_directives b)) g"
  unfolding remove_page_data_in_range_def
  using assms by (auto simp: page_in_range_def directive_gpa_def intro!: mem_of_filter split: directive.splits)

lemma remove_inside:
  assumes "base \<le> unat g" and "unat g < wrap64 (base + max n page_size)"
  shows "om_lookup (mem_of (bl_directives (remove_page_data_in_range base n b))) g = None"
  using assms by (intro mem_of_none)
    (auto simp: remove_page_data_in_range_def page_in_range_def directive_gpa_def split: directive.splits)

definition place :: "page_flags \<Rightarrow> nat \<Rightarrow> bytes \<Rightarrow> builder \<Rightarrow> builder" where
  "place fl addr blob b = add_data_pages_flags addr blob fl (remove_page_data_in_range addr (length blob) b)"

lemma blob_wrap: "fits base data \<Longrightarrow> wrap64 (base + max (length data) page_size) = base + max (length data) page_size"
  by (intro wrap64_id) (auto simp: fits_def page_size_def max_def)

lemma place_outside:
  assumes "fits addr blob" and "unat g < addr \<or> addr + max (length blob) 4096 \<le> unat g"
  shows "om_lookup (mem_of (bl_directives (place fl addr blob b))) g = om_lookup (mem_of (bl_directives b)) g"
proof -
  have "om_lookup (mem_of (blob_pages addr m fl blob)) g = None" for m
    by (rule mem_of_none) (use assms blob_page_gpa in \<open>force dest: spec\<close>)
  then show ?thesis
    using remove_outside [of addr g "length blob" b] assms blob_wrap [OF assms(1)]
    by (auto simp: place_def add_data_pages_flags_eq mem_of_append page_size_def)
qed

lemma place_inside:
  assumes "fits addr blob" and "pg * 4096 < length blob"
  shows "om_lookup (mem_of (bl_directives (place fl addr blob b))) (of_nat (addr + pg * 4096))
     = Some (pad_to 4096 (take 4096 (drop (pg * 4096) blob)))"
  using mem_of_blob_page [OF assms] by (simp add: place_def add_data_pages_flags_eq mem_of_append)

text \<open>Memory, read byte by byte, holds a blob.\<close>

definition holds_blob :: "pages \<Rightarrow> nat \<Rightarrow> bytes \<Rightarrow> bool" where
  "holds_blob m addr blob \<longleftrightarrow>
     (\<forall>pg. pg * 4096 < length blob \<longrightarrow>
        om_lookup m (of_nat (addr + pg * 4096)) = Some (pad_to 4096 (take 4096 (drop (pg * 4096) blob))))"

lemma holds_blob_byte:
  assumes "holds_blob m addr blob" and "addr mod 4096 = 0" and "i < length blob"
  shows "mem_byte m (addr + i) = Some (blob ! i)"
proof -
  let ?pg = "i div 4096" and ?o = "i mod 4096"
  have i: "i = ?pg * 4096 + ?o" by simp
  have pg: "?pg * 4096 < length blob" using assms(3) div_times_less_eq_dividend [of i 4096] by linarith
  have o: "(addr + i) mod 4096 = ?o" using assms(2) by (metis add_0 mod_add_left_eq)
  then have b: "(addr + i) - (addr + i) mod 4096 = addr + ?pg * 4096" using i by linarith
  have "?o < 4096" "?o < length blob - ?pg * 4096" using assms(3) i by linarith+
  then have "get_at (pad_to 4096 (take 4096 (drop (?pg * 4096) blob))) ?o = Some (blob ! i)"
    using assms(3) i pg by (auto simp: get_at_def pad_to_nth)
  then show ?thesis
    using assms(1) pg o by (simp add: mem_byte_def b [unfolded o] holds_blob_def del: of_nat_diff)
qed

lemma place_holds: "fits addr blob \<Longrightarrow> holds_blob (mem_of (bl_directives (place fl addr blob b))) addr blob"
  using place_inside by (simp add: holds_blob_def)

lemma place_keeps:
  assumes "fits addr blob" and "fits a d" and "holds_blob (mem_of (bl_directives b)) a d"
    and "a + next_multiple_of (length d) 4096 \<le> addr \<or> addr + max (length blob) 4096 \<le> a"
  shows "holds_blob (mem_of (bl_directives (place fl addr blob b))) a d"
  unfolding holds_blob_def
proof (intro allI impI)
  fix pg assume pg: "pg * 4096 < length d"
  have "pg * 4096 < next_multiple_of (length d) 4096"
    using next_multiple_of_facts(1) [of 4096 "length d"] pg by simp
  then have "unat (of_nat (a + pg * 4096) :: u64) < addr \<or> addr + max (length blob) 4096 \<le> unat (of_nat (a + pg * 4096) :: u64)"
    using unat_page_addr [OF assms(2) pg] assms(4) by linarith
  from place_outside [OF assms(1) this]
  show "om_lookup (mem_of (bl_directives (place fl addr blob b))) (of_nat (a + pg * 4096))
     = Some (pad_to 4096 (take 4096 (drop (pg * 4096) d)))"
    using assms(3) pg by (simp add: holds_blob_def)
qed


lemma holds_blob_mem: "holds_blob m a d \<Longrightarrow> a mod 4096 = 0 \<Longrightarrow> mem_holds m a d"
  by (simp add: mem_holds_def holds_blob_byte)

lemma add_data_pages_holds: "fits a d \<Longrightarrow> mem_holds (mem_of (bl_directives (add_data_pages a d b))) a d"
  by (rule holds_blob_mem)
    (auto simp: holds_blob_def add_data_pages_def add_data_pages_flags_eq mem_of_append mem_of_blob_page fits_def)

lemma sub_usize_small: "n \<le> m \<Longrightarrow> m < word_max \<Longrightarrow> sub_usize m n = m - n"
proof -
  assume "n \<le> m" "m < word_max"
  then have "wrap64 n = n" "m + (word_max - n) = (m - n) + word_max" by simp_all
  then have "sub_usize m n = ((m - n) + word_max) mod word_max" by (simp only: sub_usize_def wrap64_def)
  then show ?thesis using \<open>m < word_max\<close> by simp
qed

section \<open>Properties\<close>

text \<open>
  Finalizing sorts the directives by page address and is stable: the file has the same directives,
  in increasing order of address, those with the same address (and all that are not pages) in the
  order they were added, so that guest memory is what the unsorted directives give.
\<close>

theorem finalize_sorts_stably:
  assumes "igvm_ok G" and "finalize G b = Inr f"
  shows "sorted_by directive_gpa (ig_directives f)
    \<and> mset (ig_directives f) = mset (bl_directives b)
    \<and> (\<forall>g. filter (\<lambda>d. directive_gpa d = g) (ig_directives f) = filter (\<lambda>d. directive_gpa d = g) (bl_directives b))
    \<and> filter (\<lambda>d. \<not> is_page d) (ig_directives f) = filter (\<lambda>d. \<not> is_page d) (bl_directives b)
    \<and> (\<forall>g. om_lookup (page_map f) g = om_lookup (mem_of (bl_directives b)) g)
    \<and> ig_platforms f = bl_platforms b \<and> ig_initializations f = bl_initializations b"
proof -
  have f: "ig_directives f = sort_directives (bl_directives b)" using finalize_file [OF assms] by simp
  have np: "filter (\<lambda>d. \<not> is_page d) ds = filter (\<lambda>d. \<not> is_page d) (filter (\<lambda>d. directive_gpa d = 0) ds)" for ds
    by (auto simp: directive_gpa_def is_page_E intro!: filter_cong split: directive.splits)
  have "filter (\<lambda>d. \<not> is_page d) (ig_directives f) = filter (\<lambda>d. \<not> is_page d) (bl_directives b)"
    by (subst (1 2) np) (simp only: f directives.sorter_stable)
  then show ?thesis
    using finalize_file [OF assms]
    by (simp add: directives.sorter_sorted directives.sorter_mset directives.sorter_stable page_map_mem_of mem_of_sorted)
qed

definition sample_builder :: builder where
  "sample_builder =
     add_data_pages 0x3000 [3] (add_data_pages 0x1000 [1] (add_igvm_param_insert 0 0x80000
       (add_igvm_param_area 0 4096 (add_snp_platform builder_new))))"

theorem finalize_sorts_stably_witness:
  "\<exists>f. finalize sample_igvm_lib sample_builder = Inr f \<and> mset (ig_directives f) = mset (bl_directives sample_builder)
     \<and> sorted_by directive_gpa (ig_directives f)"
proof -
  have "igvm_ok sample_igvm_lib" by (simp add: igvm_ok_def sample_igvm_lib_def)
  moreover have "\<exists>f. finalize sample_igvm_lib sample_builder = Inr f"
    by (simp add: finalize_def sample_igvm_lib_def)
  ultimately show ?thesis using finalize_sorts_stably by blast
qed

text \<open>
  The special pages of the firmware: one empty page for every page of every region of a SEV kind,
  with the page type of its kind (secrets, CPUID, or normal) and for the SEV-SNP platform only,
  except the pages inside a parameter area, which the parameter insert covers.
\<close>

theorem snp_pages_avoid_params:
  "\<exists>new. bl_directives (add_ovmf_snp_pages m b) = bl_directives b @ new
    \<and> set new = {PageData (of_nat (or_base r + pg * 4096)) sev_snp_compat no_flags t [] | r t pg.
        r \<in> set (om_regions m) \<and> region_page_type (or_type r) = Some t \<and> pg * 4096 < or_size r
        \<and> \<not> (\<exists>a \<in> set (om_regions m). or_type a = IgvmParamArea
              \<and> or_base a \<le> or_base r + pg * 4096 \<and> or_base r + pg * 4096 < or_base a + or_size a)}"
proof -
  have "in_params (param_gpas m) g \<longleftrightarrow>
      (\<exists>a \<in> set (om_regions m). or_type a = IgvmParamArea \<and> or_base a \<le> g \<and> g < or_base a + or_size a)" for g
    by (auto simp: in_params_def param_gpas_def list_ex_iff)
  then have "set (region_pages (param_gpas m) r) = {PageData (of_nat (or_base r + pg * 4096)) sev_snp_compat no_flags t [] | t pg.
      region_page_type (or_type r) = Some t \<and> pg * 4096 < or_size r
      \<and> \<not> (\<exists>a \<in> set (om_regions m). or_type a = IgvmParamArea
            \<and> or_base a \<le> or_base r + pg * 4096 \<and> or_base r + pg * 4096 < or_base a + or_size a)}" for r
    by (auto simp: region_pages_def div_ceil_le split: option.splits)
  then show ?thesis
    by (intro exI [of _ "concat (map (region_pages (param_gpas m)) (om_regions m))"])
      (simp add: add_ovmf_snp_pages_eq, blast)
qed

text \<open>
  Where the firmware is mapped: the whole image ends at 4 GB, the variables end where it begins,
  and the last 128 KB (or all of a smaller image) end at 1 MB, in images made of whole pages.
\<close>

theorem firmware_mapped:
  assumes "length firmware mod 4096 = 0" and "length vars mod 4096 = 0"
    and "length firmware + length vars \<le> 2 ^ 32"
  shows "mem_holds (mem_of (bl_directives (add_firmware_4g firmware b))) (2 ^ 32 - length firmware) firmware
    \<and> mem_holds (mem_of (bl_directives (add_uefivars vars (length firmware) b)))
        (2 ^ 32 - length firmware - length vars) vars
    \<and> mem_holds (mem_of (bl_directives (add_firmware_1m firmware b)))
        (2 ^ 20 - min 131072 (length firmware)) (drop (length firmware - min 131072 (length firmware)) firmware)"
proof -
  obtain k j where k: "length firmware = 4096 * k" and j: "length vars = 4096 * j"
    using assms(1,2) by (auto dest!: mod_0_imp_dvd elim!: dvdE)
  have "fits (2 ^ 32 - length firmware) firmware" "fits (2 ^ 32 - length firmware - length vars) vars"
    using assms(3) by (auto simp: fits_def word_max_def k j mod_eq_0_iff_dvd dvd_diff_nat)
  moreover have "fits (2 ^ 20 - min 131072 (length firmware)) (drop (length firmware - min 131072 (length firmware)) firmware)"
    by (auto simp: fits_def word_max_def k min_def mod_eq_0_iff_dvd dvd_diff_nat)
  moreover have "sub_usize (2 ^ 32) (length firmware) = 2 ^ 32 - length firmware"
      "sub_usize (sub_usize (2 ^ 32) (length vars)) (length firmware) = 2 ^ 32 - length firmware - length vars"
    using assms(3) by (simp_all add: sub_usize_small word_max_def)
  ultimately show ?thesis
    using add_data_pages_holds by (simp add: add_firmware_4g_def add_uefivars_def add_firmware_1m_def Let_def)
qed

theorem firmware_mapped_witness:
  "mem_holds (mem_of (bl_directives (add_firmware_4g (replicate 8192 7) builder_new))) 0xffffe000 (replicate 8192 7)"
  using firmware_mapped [of "replicate 8192 7" "[]" builder_new] by simp

end
