(* ===== verification/Igvm_Build.thy ===== *)
theory Igvm_Build
  imports Igvm_Builder
begin

text \<open>
  The build of an IGVM image (\<open>crates/igvm-tools/src/build.rs\<close>): the platforms and processor
  contexts, the firmware's special pages and parameters, the firmware itself, the variables, the
  hand-off blocks with the blobs they describe, then finalization, measurement and serialisation.
\<close>

section \<open>Definitions\<close>

datatype build_platform = Snp | Native | SnpNative

datatype boot_mode = Real16 | Flat32

record build_config =
  bc_firmware :: bytes
  bc_vars :: "bytes option"
  bc_kernel :: "bytes option"
  bc_shim :: "bytes option"
  bc_pk :: "bytes option"
  bc_kek :: "bytes option"
  bc_db :: "bytes option"
  bc_dbx :: "bytes option"
  bc_platform :: build_platform
  bc_boot_mode :: boot_mode
  bc_smp :: u32

record build_result =
  br_igvm_bytes :: bytes
  br_measurement :: measure_result

record hob_inputs =
  hi_kernel :: "bytes option"
  hi_shim :: "bytes option"
  hi_pk :: "bytes option"
  hi_kek :: "bytes option"
  hi_db :: "bytes option"
  hi_dbx :: "bytes option"

definition has_data :: "hob_inputs \<Rightarrow> bool" where
  "has_data h \<longleftrightarrow> hi_kernel h \<noteq> None \<or> hi_shim h \<noteq> None \<or> hi_pk h \<noteq> None \<or> hi_kek h \<noteq> None
     \<or> hi_db h \<noteq> None \<or> hi_dbx h \<noteq> None"

definition add_input :: "bytes option \<Rightarrow> igvm_data_type \<Rightarrow> bool \<Rightarrow> data_list \<Rightarrow> data_list" where
  "add_input blob t measured l = (case blob of None \<Rightarrow> l | Some b \<Rightarrow> data_list_add b t measured l)"

text \<open>The list of blobs, from 512 MB up.\<close>

definition hob_list :: "hob_inputs \<Rightarrow> data_list" where
  "hob_list h =
     add_input (hi_kernel h) Kernel True
      (add_input (hi_shim h) Shim False
        (add_input (hi_dbx h) Dbx True
          (add_input (hi_db h) Db True
            (add_input (hi_kek h) Kek True
              (add_input (hi_pk h) Pk True (data_list_new 0x20000000))))))"

definition place_measured :: "nat \<times> bytes \<Rightarrow> builder \<Rightarrow> builder" where
  "place_measured ab b =
     (case ab of (addr, blob) \<Rightarrow> add_data_pages addr blob (remove_page_data_in_range addr (length blob) b))"

definition place_unmeasured :: "nat \<times> bytes \<Rightarrow> builder \<Rightarrow> builder" where
  "place_unmeasured ab b =
     (case ab of (addr, blob) \<Rightarrow>
       add_data_pages_unmeasured addr blob (remove_page_data_in_range addr (length blob) b))"

definition add_hob_data :: "ovmf_meta option \<Rightarrow> hob_inputs \<Rightarrow> builder \<Rightarrow> builder res" where
  "add_hob_data ovmfmeta inputs b =
     (if \<not> has_data inputs then Inr b
      else
        bnd (need (Fail ''OVMF firmware has no IgvmHobArea region (needed for kernel/shim/cert injection)'')
              (case ovmfmeta of None \<Rightarrow> None | Some m \<Rightarrow> find_region IgvmHobArea m)) (\<lambda>hobarea.
        let hoblist = hob_list inputs;
            b1 = add_data_pages (or_base hobarea) (hobs hoblist)
                   (remove_page_data_in_range (or_base hobarea) (or_size hobarea) b);
            b2 = fold place_measured (blobs hoblist True) b1
        in Inr (fold place_unmeasured (blobs hoblist False) b2)))"

definition add_ap_contexts :: "x86_register list \<Rightarrow> u32 \<Rightarrow> builder \<Rightarrow> builder res" where
  "add_ap_contexts ap_regs smp =
     foldM (\<lambda>vp b.
        bnd (need (Fail ''vCPU index exceeds u16 range'') (if vp < 65536 then Some (of_nat vp) else None))
          (\<lambda>vp_index. add_snp_vmsa_context ap_regs False vp_index b))
       [1..<unat smp]"

definition add_native :: "build_config \<Rightarrow> builder \<Rightarrow> builder res" where
  "add_native config b =
     (if bc_platform config \<in> {Native, SnpNative} then
        let b1 = add_native_platform b in
        if bc_boot_mode config = Flat32 then add_native_context (flat32_mode_regs None) b1 else Inr b1
      else Inr b)"

definition add_snp :: "igvm_lib \<Rightarrow> build_config \<Rightarrow> ovmf_meta option \<Rightarrow> builder \<Rightarrow> builder res" where
  "add_snp G config ovmfmeta b =
     (if bc_platform config \<in> {Snp, SnpNative} then
        let b1 = add_snp_platform b;
            bsp_regs = (case bc_boot_mode config of
                Flat32 \<Rightarrow> flat32_mode_regs None | Real16 \<Rightarrow> real_mode_regs_at 0xFFFFFFF0)
        in bnd (add_snp_vmsa_context bsp_regs False 0 b1) (\<lambda>b2.
           bnd (if 1 < bc_smp config then
                  bnd (need (Fail ''OVMF firmware does not contain SEV-ES reset address (needed for --smp > 1)'')
                        (case ovmfmeta of None \<Rightarrow> None | Some m \<Rightarrow> om_sev_reset_addr m)) (\<lambda>ap_reset_addr.
                  add_ap_contexts (real_mode_regs_at ap_reset_addr) (bc_smp config) b2)
                else Inr b2) (\<lambda>b3.
           let b4 = (case ovmfmeta of None \<Rightarrow> b3 | Some m \<Rightarrow> add_ovmf_snp_pages m b3)
           in Inr (add_snp_policy G None b4)))
      else Inr b)"

definition hob_inputs_of :: "build_config \<Rightarrow> hob_inputs" where
  "hob_inputs_of config =
     \<lparr>hi_kernel = bc_kernel config, hi_shim = bc_shim config, hi_pk = bc_pk config, hi_kek = bc_kek config,
      hi_db = bc_db config, hi_dbx = bc_dbx config\<rparr>"

definition add_firmware :: "build_config \<Rightarrow> builder \<Rightarrow> builder" where
  "add_firmware config b =
     (let b1 = (if bc_boot_mode config = Real16 then add_firmware_1m (bc_firmware config) b else b);
          b2 = add_firmware_4g (bc_firmware config) b1
      in (case bc_vars config of None \<Rightarrow> b2 | Some vars \<Rightarrow> add_uefivars vars (length (bc_firmware config)) b2))"

text \<open>The builder when \<open>build\<close> finalizes it.\<close>

definition assemble :: "igvm_lib \<Rightarrow> build_config \<Rightarrow> builder res" where
  "assemble G config =
     (let ovmfmeta = ovmf_meta_new (bc_firmware config) in
      bnd (add_native config builder_new) (\<lambda>b1.
      bnd (add_snp G config ovmfmeta b1) (\<lambda>b2.
      let b3 = (case ovmfmeta of None \<Rightarrow> b2 | Some m \<Rightarrow> add_ovmf_igvm_params m b2)
      in add_hob_data ovmfmeta (hob_inputs_of config) (add_firmware config b3))))"

definition build_image :: "lib \<Rightarrow> igvm_lib \<Rightarrow> build_config \<Rightarrow> build_result res" where
  "build_image L G config =
     bnd (assemble G config) (\<lambda>b.
     bnd (map_err (\<lambda>e. Fail (''finalize igvm: '' @ e)) (finalize G b)) (\<lambda>igvm.
     bnd (measure_snp L G igvm) (\<lambda>measurement.
     bnd (map_err (\<lambda>e. Fail (''serialize igvm: '' @ e)) (igvm_serialize G igvm)) (\<lambda>igvm_bytes.
     Inr \<lparr>br_igvm_bytes = igvm_bytes, br_measurement = measurement\<rparr>))))"


section \<open>Placing the blobs\<close>

lemma place_eq:
  "place_measured = (\<lambda>(a, d). place no_flags a d)"
  "place_unmeasured = (\<lambda>(a, d). place (no_flags\<lparr>pf_unmeasured := True\<rparr>) a d)"
  by (auto simp: fun_eq_iff place_measured_def place_unmeasured_def place_def add_data_pages_def
      add_data_pages_unmeasured_def)

text \<open>Two blobs that share no page.\<close>

definition apart :: "nat \<times> bytes \<Rightarrow> nat \<times> bytes \<Rightarrow> bool" where
  "apart x y \<longleftrightarrow> fst x + next_multiple_of (length (snd x)) 4096 \<le> fst y
     \<or> fst y + next_multiple_of (length (snd y)) 4096 \<le> fst x"

definition blob_ok :: "nat \<times> bytes \<Rightarrow> bool" where
  "blob_ok x \<longleftrightarrow> fits (fst x) (snd x) \<and> snd x \<noteq> []"

lemma next_multiple_max: "d \<noteq> [] \<Longrightarrow> max (length d) 4096 \<le> next_multiple_of (length d) 4096"
  using next_multiple_of_facts(1,2) [of 4096 "length d"] dvd_imp_le [of 4096 "next_multiple_of (length d) 4096"]
  by (cases d) (auto simp: max_def)

definition holds :: "builder \<Rightarrow> nat \<times> bytes \<Rightarrow> bool" where
  "holds b x = holds_blob (mem_of (bl_directives b)) (fst x) (snd x)"

lemma place_apart:
  assumes "blob_ok y" and "fits (fst x) (snd x)" and "holds b x" and "apart x y"
  shows "holds (place fl (fst y) (snd y) b) x"
  using assms next_multiple_max [of "snd y"]
  by (auto simp: holds_def blob_ok_def apart_def intro!: place_keeps)

lemma fold_place_keeps:
  assumes "list_all blob_ok ys" and "fits (fst x) (snd x)" and "holds b x" and "list_all (apart x) ys"
  shows "holds (fold (\<lambda>(a, d). place fl a d) ys b) x"
  using assms
proof (induction ys arbitrary: b)
  case (Cons y ys)
  then show ?case using place_apart [of y x b fl] by (cases y) auto
qed simp

lemma fold_place_holds:
  assumes "list_all blob_ok ys" and "sorted_wrt apart ys" and "x \<in> set ys"
  shows "holds (fold (\<lambda>(a, d). place fl a d) ys b) x"
  using assms
proof (induction ys arbitrary: b)
  case (Cons y ys)
  show ?case
  proof (cases "x \<in> set ys")
    case True
    then show ?thesis using Cons by (cases y) auto
  next
    case False
    then have "x = y" using Cons.prems by simp
    moreover have "holds (place fl (fst y) (snd y) b) y"
      using Cons.prems by (simp add: holds_def blob_ok_def place_holds)
    ultimately show ?thesis
      using Cons.prems fold_place_keeps [of ys y "place fl (fst y) (snd y) b" fl]
      by (cases y) (auto simp: blob_ok_def list_all_iff)
  qed
qed simp

section \<open>The layout of the inputs\<close>

definition padded_len :: "bytes option \<Rightarrow> nat" where
  "padded_len x = (case x of None \<Rightarrow> 0 | Some d \<Rightarrow> next_multiple_of (length d) 4096)"

text \<open>What the inputs take up in guest memory.\<close>

definition inputs_size :: "hob_inputs \<Rightarrow> nat" where
  "inputs_size h = padded_len (hi_pk h) + padded_len (hi_kek h) + padded_len (hi_db h) + padded_len (hi_dbx h)
     + padded_len (hi_shim h) + padded_len (hi_kernel h)"

definition inputs_nonempty :: "hob_inputs \<Rightarrow> bool" where
  "inputs_nonempty h \<longleftrightarrow> Some [] \<notin> {hi_pk h, hi_kek h, hi_db h, hi_dbx h, hi_shim h, hi_kernel h}"

definition layout_at :: "data_list \<Rightarrow> nat \<Rightarrow> bool" where
  "layout_at l n \<longleftrightarrow> layout_ok 0x20000000 l \<and> dl_base l = n"

lemma add_input_layout:
  "layout_at l n \<Longrightarrow> n + padded_len x < word_max \<Longrightarrow> layout_at (add_input x t m l) (n + padded_len x)"
  using layout_add [of "0x20000000" l _ t m]
  by (auto simp: layout_at_def add_input_def padded_len_def data_list_add_def split: option.splits)

lemma layout_at_new: "layout_at (data_list_new 0x20000000) 0x20000000"
  unfolding layout_at_def by (rule conjI, simp add: layout_new, simp add: data_list_new_def)

lemma hob_list_layout:
  assumes "0x20000000 + inputs_size h < word_max"
  shows "layout_ok 0x20000000 (hob_list h) \<and> dl_base (hob_list h) = 0x20000000 + inputs_size h"
proof -
  have "layout_at (hob_list h) (0x20000000 + padded_len (hi_pk h) + padded_len (hi_kek h) + padded_len (hi_db h)
      + padded_len (hi_dbx h) + padded_len (hi_shim h) + padded_len (hi_kernel h))"
    unfolding hob_list_def
    using assms by (intro add_input_layout layout_at_new) (simp_all add: inputs_size_def)
  then show ?thesis by (simp add: layout_at_def inputs_size_def)
qed

lemma add_input_data:
  "d \<in> set (dl_data (add_input x t m l)) \<Longrightarrow> x = Some (dn_blob d) \<or> d \<in> set (dl_data l)"
  by (auto simp: add_input_def data_list_add_def split: option.splits)

lemma hob_list_blobs:
  "d \<in> set (dl_data (hob_list h)) \<Longrightarrow>
     Some (dn_blob d) \<in> {hi_pk h, hi_kek h, hi_db h, hi_dbx h, hi_shim h, hi_kernel h}"
  by (auto simp: hob_list_def data_list_new_def dest!: add_input_data)

lemma aligned_next:
  assumes "(a :: nat) mod 4096 = 0" and "b mod 4096 = 0" and "a + n \<le> b"
  shows "a + next_multiple_of n 4096 \<le> b"
proof -
  have nm: "next_multiple_of n 4096 mod 4096 = 0" "next_multiple_of n 4096 < n + 4096"
    using next_multiple_of_facts [of 4096 n] by simp_all
  then have "4096 dvd a" "4096 dvd b" "4096 dvd next_multiple_of n 4096"
    using assms by auto
  then obtain i j k where "a = 4096 * i" "b = 4096 * j" "next_multiple_of n 4096 = 4096 * k"
    by (elim dvdE)
  moreover from this have "i + k < j + 1" using nm(2) assms(3) by linarith
  ultimately show ?thesis by simp
qed


definition entry_blob :: "data_entry \<Rightarrow> nat \<times> bytes" where
  "entry_blob d = (dn_addr d, dn_blob d)"

lemma blobs_eq: "blobs l m = map entry_blob (filter (\<lambda>d. dn_measured d = m) (dl_data l))"
  by (simp add: blobs_def entry_blob_def)

lemma apart_sym: "apart x y \<Longrightarrow> apart y x"
  by (auto simp: apart_def)

lemma layout_apart:
  assumes "layout_ok b l"
  shows "sorted_wrt (\<lambda>d e. apart (entry_blob d) (entry_blob e)) (dl_data l)"
proof (rule sorted_wrt_mono_rel)
  show "sorted_wrt (\<lambda>d e. dn_addr d + length (dn_blob d) \<le> dn_addr e) (dl_data l)"
    using assms by (simp add: layout_ok_def)
  show "apart (entry_blob d) (entry_blob e)"
    if "d \<in> set (dl_data l)" "e \<in> set (dl_data l)" "dn_addr d + length (dn_blob d) \<le> dn_addr e" for d e
    using that assms aligned_next [of "dn_addr d" "dn_addr e"]
    by (auto simp: layout_ok_def list_all_iff apart_def entry_blob_def)
qed

lemma sorted_wrt_pair:
  "sorted_wrt R xs \<Longrightarrow> x \<in> set xs \<Longrightarrow> y \<in> set xs \<Longrightarrow> x \<noteq> y \<Longrightarrow> R x y \<or> R y x"
  by (induction xs) auto

lemma blobs_apart:
  assumes "layout_ok b l"
  shows "sorted_wrt apart (blobs l m)"
    and "x \<in> set (blobs l True) \<Longrightarrow> list_all (apart x) (blobs l False)"
proof -
  show "sorted_wrt apart (blobs l m)"
    using sorted_wrt_filter [OF layout_apart [OF assms]] by (simp add: blobs_eq sorted_wrt_map)
  assume "x \<in> set (blobs l True)"
  then obtain d where d: "x = entry_blob d" "d \<in> set (dl_data l)" "dn_measured d"
    by (auto simp: blobs_eq)
  have "apart x (entry_blob e)" if "e \<in> set (dl_data l)" "\<not> dn_measured e" for e
    using sorted_wrt_pair [OF layout_apart [OF assms] d(2) that(1)] d that apart_sym by metis
  then show "list_all (apart x) (blobs l False)" by (auto simp: blobs_eq list_all_iff)
qed

text \<open>The hob area, one page below the blobs.\<close>

definition hob_area_ok :: "ovmf_region \<Rightarrow> bool" where
  "hob_area_ok r \<longleftrightarrow> or_base r mod 4096 = 0 \<and> or_base r + 4096 \<le> 0x20000000"

definition inputs_ok :: "hob_inputs \<Rightarrow> bool" where
  "inputs_ok h \<longleftrightarrow> inputs_nonempty h \<and> 0x20000000 + inputs_size h + 4096 < word_max"

lemma hob_list_entry:
  assumes "inputs_ok h" and "d \<in> set (dl_data (hob_list h))"
  shows "blob_ok (entry_blob d)" "0x20000000 \<le> dn_addr d"
proof -
  have "layout_ok 0x20000000 (hob_list h)" "dl_base (hob_list h) + 4096 < word_max"
    using hob_list_layout [of h] assms(1) by (auto simp: inputs_ok_def)
  moreover have "dn_blob d \<noteq> []"
    using hob_list_blobs [OF assms(2)] assms(1) by (auto simp: inputs_ok_def inputs_nonempty_def)
  ultimately show "blob_ok (entry_blob d)" "0x20000000 \<le> dn_addr d"
    using assms(2) by (auto simp: layout_ok_def list_all_iff blob_ok_def entry_blob_def fits_def)
qed

lemma hobs_length: "length (hobs l) = 48 * length (dl_data l) + 8"
proof -
  have "length (concat (map (\<lambda>d. data_hob_bytes (dn_hob d)) ds)) = 48 * length ds" for ds
    by (induction ds) auto
  then show ?thesis by (simp add: hobs_def)
qed

lemma add_input_count: "length (dl_data (add_input x t m l)) \<le> Suc (length (dl_data l))"
  by (simp add: add_input_def data_list_add_def split: option.split)

lemma hob_list_count: "length (dl_data (hob_list h)) \<le> 6"
proof -
  have step: "n \<ge> length (dl_data l) \<Longrightarrow> length (dl_data (add_input x t m l)) \<le> Suc n" for n x t m l
    using add_input_count [of x t m l] by simp
  have "length (dl_data (hob_list h)) \<le> Suc (Suc (Suc (Suc (Suc (Suc 0)))))"
    unfolding hob_list_def by (intro step) (simp add: data_list_new_def)
  then show ?thesis by simp
qed

text \<open>After \<^const>\<open>add_hob_data\<close> every blob is in memory, and so is the list of hand-off blocks.\<close>

lemma add_hob_data_holds:
  assumes "has_data h" and "find_region IgvmHobArea m = Some r" and "hob_area_ok r" and "inputs_ok h"
    and "add_hob_data (Some m) h b = Inr b'"
  shows "d \<in> set (dl_data (hob_list h)) \<Longrightarrow> holds b' (entry_blob d)"
    and "holds b' (or_base r, hobs (hob_list h))"
proof -
  let ?l = "hob_list h"
  define b1 where "b1 = add_data_pages (or_base r) (hobs ?l) (remove_page_data_in_range (or_base r) (or_size r) b)"
  define b2 where "b2 = fold place_measured (blobs ?l True) b1"
  have b': "b' = fold place_unmeasured (blobs ?l False) b2"
    using assms(1,2,5) by (simp add: add_hob_data_def Let_def b1_def b2_def)
  have lay: "layout_ok 0x20000000 ?l" using hob_list_layout [of h] assms(4) by (simp add: inputs_ok_def)
  have ok: "list_all blob_ok (blobs ?l k)" for k
    using hob_list_entry [OF assms(4)] by (auto simp: blobs_eq list_all_iff)
  have len: "length (hobs ?l) \<le> 4096" using hob_list_count [of h] by (simp add: hobs_length)
  have fits: "fits (or_base r) (hobs ?l)"
    using assms(3) len by (simp add: hob_area_ok_def fits_def word_max_def)
  then have "holds b1 (or_base r, hobs ?l)"
    by (simp add: holds_def holds_blob_def b1_def add_data_pages_def add_data_pages_flags_eq mem_of_append mem_of_blob_page)
  moreover have ap: "list_all (apart (or_base r, hobs ?l)) (blobs ?l k)" for k
  proof -
    have "next_multiple_of (length (hobs ?l)) 4096 \<le> 4096"
      using aligned_next [of 0 4096 "length (hobs ?l)"] len by simp
    then have "apart (or_base r, hobs ?l) (entry_blob e)" if "e \<in> set (dl_data ?l)" for e
      using hob_list_entry(2) [OF assms(4) that] assms(3) by (auto simp: apart_def entry_blob_def hob_area_ok_def)
    then show ?thesis by (auto simp: blobs_eq list_all_iff)
  qed
  ultimately show "holds b' (or_base r, hobs ?l)"
    unfolding b' b2_def place_eq using ok fits by (intro fold_place_keeps) simp_all
  assume d: "d \<in> set (dl_data ?l)"
  note fit = hob_list_entry(1) [OF assms(4) d, unfolded blob_ok_def]
  show "holds b' (entry_blob d)"
  proof (cases "dn_measured d")
    case True
    then have x: "entry_blob d \<in> set (blobs ?l True)" using d by (auto simp: blobs_eq)
    then have "holds b2 (entry_blob d)"
      unfolding b2_def place_eq using fold_place_holds [OF ok blobs_apart(1) [OF lay]] by simp
    then show ?thesis
      unfolding b' place_eq using fold_place_keeps [OF ok _ _ blobs_apart(2) [OF lay x]] fit by simp
  next
    case False
    then have "entry_blob d \<in> set (blobs ?l False)" using d by (auto simp: blobs_eq)
    then show ?thesis
      unfolding b' place_eq using fold_place_holds [OF ok blobs_apart(1) [OF lay]] by simp
  qed
qed


lemma finalize_lookup:
  assumes "igvm_ok G" and "finalize G b = Inr f"
  shows "om_lookup (page_map f) g = om_lookup (mem_of (bl_directives b)) g"
proof -
  have "ig_directives f = sort_directives (bl_directives b)"
    using finalize_file [OF assms] by simp
  then show ?thesis by (simp add: page_map_mem_of mem_of_sorted)
qed

lemma holds_finalized:
  assumes "igvm_ok G" and "finalize G b = Inr f"
  shows "holds b x \<longleftrightarrow> holds_blob (page_map f) (fst x) (snd x)"
  by (simp add: holds_def holds_blob_def finalize_lookup [OF assms])

text \<open>A blob in memory is what \<^const>\<open>reassemble\<close> returns.\<close>

lemma reassemble_blob:
  assumes hold: "holds_blob (page_map f) a blob" and fit: "fits a blob" and ne: "blob \<noteq> []"
    and few: "length (page_map f) * 4096 < word_max"
  shows "reassemble (page_map f) (of_nat a) (of_nat (length blob)) = Inr blob"
proof -
  let ?m = "page_map f" and ?n = "div_ceil (length blob) 4096"
  have a: "unat (of_nat a :: u64) = a" and l: "unat (of_nat (length blob) :: u64) = length blob"
    using fit by (simp_all add: unat_of_nat fits_def word_max_def)
  have al: "a mod 4096 = 0" using fit by (simp add: fits_def)
  have base: "page_floor (of_nat a) = of_nat a"
    using page_base(1) [of "of_nat a"] a al by (simp add: word_unat_eq_iff)
  have "inj_on (\<lambda>pg. of_nat (a + pg * 4096) :: u64) {..<?n}"
    by (rule inj_onI) (metis div_ceil_le fit lessThan_iff unat_page_addr add_left_cancel mult_cancel2 zero_neq_numeral)
  then have "?n = card ((\<lambda>pg. of_nat (a + pg * 4096) :: u64) ` {..<?n})" by (simp add: card_image)
  also have "\<dots> \<le> card (set (map fst ?m))"
  proof (rule card_mono)
    show "(\<lambda>pg. of_nat (a + pg * 4096) :: u64) ` {..<?n} \<subseteq> set (map fst ?m)"
      using hold by (force simp: holds_blob_def div_ceil_le om_lookup_def dest: map_of_SomeD)
  qed simp
  also have "\<dots> \<le> length ?m" by (metis card_length length_map)
  finally have "length blob \<le> length ?m * 4096"
    using div_ceil_le [of "length ?m" "length blob"] by linarith
  then have avail: "\<not> wrap64 (length ?m * 4096) < length blob" using few by simp
  have byte: "mem_byte ?m (a + i) = Some (blob ! i)" if "i < length blob" for i
    using holds_blob_byte [OF hold al that] .
  have "is_ok (reassemble_from ?m (length blob) (of_nat a) [])"
    using reassemble_from_complete [OF page_map_wf, of "of_nat a" "length blob" "[]" f] a al byte fit
    by (simp add: fits_def)
  then obtain out where out: "reassemble_from ?m (length blob) (of_nat a) [] = Inr out" by (auto simp: is_ok_iff)
  obtain r where r: "reassemble ?m (of_nat a) (of_nat (length blob)) = Inr r"
    using avail out a l base reassemble_from_reads [OF out page_map_wf] al fit
    by (auto simp: reassemble_def Let_def checked64_def fits_def)
  have "r = blob"
  proof (rule nth_equalityI)
    show "length r = length blob" using reassemble_sound [OF r page_map_wf] l by simp
    show "r ! i = blob ! i" if "i < length r" for i
      using reassemble_sound [OF r page_map_wf] l a byte that by auto
  qed
  then show ?thesis using r by simp
qed


section \<open>The kernel and its hand-off block\<close>

definition kernel_addr :: "hob_inputs \<Rightarrow> nat" where
  "kernel_addr h = 0x20000000 + (inputs_size h - padded_len (hi_kernel h))"

lemma hob_list_kernel:
  assumes "hi_kernel h = Some k" and "0x20000000 + inputs_size h < word_max"
  shows "\<exists>ds. dl_data (hob_list h) = ds @ [\<lparr>dn_hob = new_data_hob (kernel_addr h) (length k) Kernel,
      dn_addr = kernel_addr h, dn_blob = k, dn_measured = True\<rparr>]"
proof -
  define l where "l = add_input (hi_shim h) Shim False (add_input (hi_dbx h) Dbx True (add_input (hi_db h) Db True
        (add_input (hi_kek h) Kek True (add_input (hi_pk h) Pk True (data_list_new 0x20000000)))))"
  have "layout_at l (0x20000000 + padded_len (hi_pk h) + padded_len (hi_kek h) + padded_len (hi_db h)
      + padded_len (hi_dbx h) + padded_len (hi_shim h))"
    unfolding l_def using assms(2) by (intro add_input_layout layout_at_new) (simp_all add: inputs_size_def)
  then have "dl_base l = kernel_addr h" by (simp add: layout_at_def kernel_addr_def inputs_size_def)
  moreover have "hob_list h = data_list_add k Kernel True l"
    unfolding hob_list_def l_def [symmetric] assms(1) by (simp add: add_input_def)
  ultimately show ?thesis by (simp add: data_list_add_def)
qed

lemma mem_holds_part: "mem_holds m a (x @ y @ z) \<Longrightarrow> mem_holds m (a + length x) y"
  unfolding mem_holds_def
proof (intro allI impI)
  fix i assume h: "\<forall>i < length (x @ y @ z). mem_byte m (a + i) = Some ((x @ y @ z) ! i)" and "i < length y"
  then show "mem_byte m (a + length x + i) = Some (y ! i)"
    using h[rule_format, of "length x + i"] by (simp add: nth_append add.assoc)
qed

lemma hobs_hold_kernel:
  assumes "mem_holds m base (hobs l)" and "dl_data l = ds @ [e]" and "dn_hob e = new_data_hob a n Kernel"
  shows "kernel_hob_in_memory m (base + 48 * length ds) (of_nat a) (of_nat n)"
proof -
  let ?pre = "concat (map (\<lambda>d. data_hob_bytes (dn_hob d)) ds)" and ?hd = "hob_header efi_hob_type_guid_extension 0x30"
  let ?mid = "efi_igvm_data_hob_guid @ u64_le (of_nat a) @ u64_le (of_nat n) @ u32_le (data_type_code Kernel)"
  have "length ?pre = 48 * length ds" by (induction ds) auto
  then have "length (?pre @ ?hd) = 48 * length ds + 8" by simp
  moreover have "hobs l = (?pre @ ?hd) @ ?mid @ (u32_le 0 @ end_of_list)"
    using assms(2,3) by (simp add: hobs_def data_hob_bytes_def new_data_hob_def)
  ultimately show ?thesis
    using mem_holds_part [of m base "?pre @ ?hd" ?mid] assms(1) by (simp add: kernel_hob_in_memory_def add.assoc)
qed

text \<open>What a finished image with hand-off data contains.\<close>

lemma assemble_hob:
  assumes "assemble G config = Inr b" and "ovmf_meta_new (bc_firmware config) = Some m"
  shows "\<exists>b0. add_hob_data (Some m) (hob_inputs_of config) b0 = Inr b"
  using assms by (auto simp: assemble_def Let_def)

lemma finalized_memory:
  assumes "igvm_ok G" and "add_hob_data (Some m) h b0 = Inr b" and "finalize G b = Inr f"
    and "has_data h" and "find_region IgvmHobArea m = Some r" and "hob_area_ok r" and "inputs_ok h"
  shows "d \<in> set (dl_data (hob_list h)) \<Longrightarrow> holds_blob (page_map f) (dn_addr d) (dn_blob d) \<and> dn_addr d mod 4096 = 0"
    and "mem_holds (page_map f) (or_base r) (hobs (hob_list h))"
proof -
  note holds = add_hob_data_holds [OF assms(4-7,2), unfolded holds_finalized [OF assms(1,3)]]
  show "mem_holds (page_map f) (or_base r) (hobs (hob_list h))"
    using holds(2) assms(6) by (simp add: holds_blob_mem hob_area_ok_def)
  show "d \<in> set (dl_data (hob_list h)) \<Longrightarrow> holds_blob (page_map f) (dn_addr d) (dn_blob d) \<and> dn_addr d mod 4096 = 0"
    using holds(1) hob_list_entry(1) [OF assms(7)] by (auto simp: entry_blob_def blob_ok_def fits_def)
qed

section \<open>The directives that are not pages\<close>

definition plain :: "builder \<Rightarrow> directive list" where
  "plain b = filter (\<lambda>d. \<not> is_page d) (bl_directives b)"

lemma plain_appends [simp]: "plain (appends ds b) = plain b @ filter (\<lambda>d. \<not> is_page d) ds"
  by (simp add: plain_def)

lemma plain_new [simp]: "plain builder_new = []"
  by (simp add: plain_def builder_new_def)

lemma plain_remove [simp]: "plain (remove_page_data_in_range a n b) = plain b"
  by (auto simp: plain_def remove_page_data_in_range_def page_in_range_def is_page_E intro!: filter_cong split: directive.splits)

lemma no_page_filter [simp]:
  "filter (\<lambda>d. \<not> is_page d) (blob_pages a m fl d) = []"
  "filter (\<lambda>d. \<not> is_page d) (empty_pages a n m t) = []"
  "filter (\<lambda>d. \<not> is_page d) (region_pages ps r) = []"
  "filter (\<lambda>d. \<not> is_page d) (param_directives r) = param_directives r"
  by (auto simp: filter_empty_conv blob_pages_def empty_pages_def region_pages_def param_directives_def
      split: option.splits region_type.splits)

lemma plain_pages [simp]:
  "plain (add_data_pages a d b) = plain b" "plain (add_ovmf_snp_pages m b) = plain b" "plain (place fl a d b) = plain b"
  by (simp_all add: add_data_pages_def place_def add_data_pages_flags_eq add_ovmf_snp_pages_eq filter_concat o_def)

lemma plain_fold_place [simp]: "plain (fold (\<lambda>(a, d). place fl a d) xs b) = plain b"
  by (induction xs arbitrary: b) auto

lemma builder_frame [simp]:
  "bl_platforms (remove_page_data_in_range a n b) = bl_platforms b"
  "bl_compat_all (remove_page_data_in_range a n b) = bl_compat_all b"
  "bl_platforms (add_data_pages a d b) = bl_platforms b" "bl_platforms (add_ovmf_snp_pages m b) = bl_platforms b"
  "bl_platforms (place fl a d b) = bl_platforms b"
  by (simp_all add: remove_page_data_in_range_def add_data_pages_def place_def add_data_pages_flags_eq add_ovmf_snp_pages_eq)

lemma platforms_fold_place [simp]: "bl_platforms (fold (\<lambda>(a, d). place fl a d) xs b) = bl_platforms b"
  by (induction xs arbitrary: b) auto

lemma add_firmware_frame [simp]:
  "plain (add_firmware config b) = plain b" "bl_platforms (add_firmware config b) = bl_platforms b"
  by (simp_all add: add_firmware_def add_firmware_1m_def add_firmware_4g_def add_uefivars_def Let_def split: option.split)

lemma add_hob_data_frame:
  "add_hob_data m h b = Inr b' \<Longrightarrow> plain b' = plain b \<and> bl_platforms b' = bl_platforms b"
  by (auto simp: add_hob_data_def Let_def place_eq split: if_splits)

definition native_header :: platform where
  "native_header = \<lparr>pl_compat = native_compat, pl_highest_vtl = 2, pl_type = NativePlatform, pl_version = 1, pl_shared_boundary = 0\<rparr>"
definition snp_header :: platform where
  "snp_header = \<lparr>pl_compat = sev_snp_compat, pl_highest_vtl = 2, pl_type = SevSnp, pl_version = 1, pl_shared_boundary = 0\<rparr>"

definition is_vp :: "directive \<Rightarrow> bool" where
  "is_vp d = (case d of SnpVpContext g m i v \<Rightarrow> g = vmsa_gpa \<and> m = sev_snp_compat | _ \<Rightarrow> False)"

definition is_native_ctx :: "directive \<Rightarrow> bool" where
  "is_native_ctx d = (case d of X64NativeVpContext m i c \<Rightarrow> True | _ \<Rightarrow> False)"

lemma is_vp_E: "is_vp d \<Longrightarrow> \<exists>i v. d = SnpVpContext vmsa_gpa sev_snp_compat i v"
  by (cases d) (auto simp: is_vp_def)

lemma is_native_ctx_E: "is_native_ctx d \<Longrightarrow> \<exists>m i c. d = X64NativeVpContext m i c"
  by (cases d) (auto simp: is_native_ctx_def)

definition uses_snp :: "build_config \<Rightarrow> bool" where
  "uses_snp c \<longleftrightarrow> bc_platform c \<in> {Snp, SnpNative}"
definition uses_native :: "build_config \<Rightarrow> bool" where
  "uses_native c \<longleftrightarrow> bc_platform c \<in> {Native, SnpNative}"

lemma add_vp:
  assumes "add_snp_vmsa_context regs dbg i b = Inr b'"
  shows "\<exists>d. is_vp d \<and> plain b' = plain b @ [d] \<and> bl_platforms b' = bl_platforms b"
  using assms by (auto simp: add_snp_vmsa_context_def push_appends is_vp_def vmsa_gpa_def)

lemma add_aps:
  assumes "foldM (\<lambda>vp b. bnd (need e (g vp)) (\<lambda>i. add_snp_vmsa_context regs False i b)) vs b = Inr b'"
  shows "\<exists>ds. list_all is_vp ds \<and> length ds = length vs \<and> plain b' = plain b @ ds \<and> bl_platforms b' = bl_platforms b"
  using assms
proof (induction vs arbitrary: b)
  case (Cons v vs)
  then obtain i b1 where b1: "add_snp_vmsa_context regs False i b = Inr b1" 
    and rest: "foldM (\<lambda>vp b. bnd (need e (g vp)) (\<lambda>i. add_snp_vmsa_context regs False i b)) vs b1 = Inr b'"
    by auto
  obtain d where d: "is_vp d" "plain b1 = plain b @ [d]" "bl_platforms b1 = bl_platforms b"
    using add_vp [OF b1] by blast
  obtain ds where ds: "list_all is_vp ds" "length ds = length vs" "plain b' = plain b1 @ ds" "bl_platforms b' = bl_platforms b1"
    using Cons.IH [OF rest] by blast
  show ?case using d ds by (intro exI [of _ "d # ds"]) simp
qed simp

lemma add_native_shape:
  assumes "add_native c builder_new = Inr b"
  shows "list_all is_native_ctx (plain b) \<and> bl_platforms b = (if uses_native c then [native_header] else [])"
  using assms
  by (auto simp: add_native_def add_native_platform_def add_native_context_def push_appends Let_def uses_native_def
      is_native_ctx_def native_header_def plain_def builder_new_def split: if_splits)


lemma add_snp_shape:
  assumes "add_snp G c m b = Inr b'"
  shows "\<exists>vps. list_all is_vp vps \<and> length vps = (if uses_snp c then max 1 (unat (bc_smp c)) else 0)
    \<and> plain b' = plain b @ vps \<and> bl_platforms b' = bl_platforms b @ (if uses_snp c then [snp_header] else [])"
proof (cases "uses_snp c")
  case False
  then show ?thesis using assms by (simp add: add_snp_def uses_snp_def)
next
  case True
  let ?regs = "case bc_boot_mode c of Flat32 \<Rightarrow> flat32_mode_regs None | Real16 \<Rightarrow> real_mode_regs_at 0xFFFFFFF0"
  let ?aps = "\<lambda>b2. if 1 < bc_smp c then
                  bnd (need (Fail ''OVMF firmware does not contain SEV-ES reset address (needed for --smp > 1)'')
                        (case m of None \<Rightarrow> None | Some m \<Rightarrow> om_sev_reset_addr m)) (\<lambda>ap_reset_addr.
                  add_ap_contexts (real_mode_regs_at ap_reset_addr) (bc_smp c) b2)
                else Inr b2"
  obtain b2 b3 where b2: "add_snp_vmsa_context ?regs False 0 (add_snp_platform b) = Inr b2" and b3: "?aps b2 = Inr b3"
    and b': "b' = add_snp_policy G None (case m of None \<Rightarrow> b3 | Some m \<Rightarrow> add_ovmf_snp_pages m b3)"
    using assms True by (auto simp: add_snp_def uses_snp_def Let_def)
  have plat: "plain (add_snp_platform b) = plain b" "bl_platforms (add_snp_platform b) = bl_platforms b @ [snp_header]"
    by (simp_all add: add_snp_platform_def plain_def snp_header_def)
  obtain d where d: "is_vp d" "plain b2 = plain b @ [d]" "bl_platforms b2 = bl_platforms b @ [snp_header]"
    using add_vp [OF b2] plat by auto
  have "\<exists>ds. list_all is_vp ds \<and> length ds = unat (bc_smp c) - 1 \<and> plain b3 = plain b2 @ ds \<and> bl_platforms b3 = bl_platforms b2"
  proof (cases "1 < bc_smp c")
    case True
    then show ?thesis using b3 by (auto simp: add_ap_contexts_def dest!: add_aps)
  next
    case False
    then have "unat (bc_smp c) \<le> 1" by (simp add: word_le_nat_alt not_less)
    then show ?thesis using b3 False by auto
  qed
  then obtain ds where ds: "list_all is_vp ds" "length ds = unat (bc_smp c) - 1" "plain b3 = plain b2 @ ds" "bl_platforms b3 = bl_platforms b2"
    by blast
  have "plain b' = plain b3" "bl_platforms b' = bl_platforms b3"
    unfolding b' by (cases m; simp add: add_snp_policy_def plain_def [of "_\<lparr>bl_initializations := _\<rparr>"]; simp flip: plain_def)+
  then show ?thesis using d ds True by (intro exI [of _ "d # ds"]) auto
qed

text \<open>The parameter directives, when there are any, declare area 0 and insert it.\<close>

definition params_shape :: "directive list \<Rightarrow> bool" where
  "params_shape ps \<longleftrightarrow> ps = [] \<or> (\<exists>n mid g m. ps = [ParameterArea n 0 []] @ mid @ [ParameterInsert 0 g m]
     \<and> (\<forall>d \<in> set mid. \<exists>i k. d = MemoryMap i k \<or> d = VpCount i k))"

lemma params_added:
  "\<exists>ps. params_shape ps \<and> plain (add_ovmf_igvm_params m b) = plain b @ ps
     \<and> bl_platforms (add_ovmf_igvm_params m b) = bl_platforms b"
proof (cases "find_region IgvmParamArea m")
  case None
  then show ?thesis by (simp add: add_ovmf_igvm_params_eq params_shape_def)
next
  case (Some area)
  let ?mid = "concat (map param_directives (om_regions m))"
  have "\<forall>d \<in> set ?mid. \<exists>i k. d = MemoryMap i k \<or> d = VpCount i k"
    by (auto simp: param_directives_def split: region_type.splits)
  then show ?thesis
    using Some by (intro exI [of _ "[ParameterArea (of_nat (or_size area)) 0 []] @ ?mid
          @ [ParameterInsert 0 (of_nat (or_base area)) (bl_compat_all b)]"])
      (auto simp: add_ovmf_igvm_params_eq params_shape_def filter_concat o_def)
qed

lemma assemble_shape:
  assumes "assemble G c = Inr b"
  shows "\<exists>nat vps ps. plain b = nat @ vps @ ps \<and> list_all is_native_ctx nat \<and> list_all is_vp vps \<and> params_shape ps
    \<and> length vps = (if uses_snp c then max 1 (unat (bc_smp c)) else 0)
    \<and> bl_platforms b = (if uses_native c then [native_header] else []) @ (if uses_snp c then [snp_header] else [])"
proof -
  let ?m = "ovmf_meta_new (bc_firmware c)"
  let ?b3 = "\<lambda>b2. case ?m of None \<Rightarrow> b2 | Some m \<Rightarrow> add_ovmf_igvm_params m b2"
  obtain b1 b2 where b1: "add_native c builder_new = Inr b1" and b2: "add_snp G c ?m b1 = Inr b2"
    and b: "add_hob_data ?m (hob_inputs_of c) (add_firmware c (?b3 b2)) = Inr b"
    using assms by (auto simp: assemble_def Let_def)
  have "\<exists>ps. params_shape ps \<and> plain (?b3 b2) = plain b2 @ ps \<and> bl_platforms (?b3 b2) = bl_platforms b2"
    using params_added by (cases ?m) (auto simp: params_shape_def)
  then show ?thesis
    using add_native_shape [OF b1] add_snp_shape [OF b2] add_hob_data_frame [OF b] by fastforce
qed


section \<open>Measuring a built image\<close>

lemma fold_areas:
  "fold (\<lambda>d m. case d of ParameterArea n i _ \<Rightarrow> m(i \<mapsto> n) | _ \<Rightarrow> m) ds m i \<noteq> None
     \<longleftrightarrow> m i \<noteq> None \<or> (\<exists>n x. ParameterArea n i x \<in> set ds)"
proof (induction ds arbitrary: m)
  case (Cons d ds)
  then show ?case by (cases d) auto
qed simp

lemma vmsa_count: "length (vmsa_list G cmask ds)
    = length (filter (\<lambda>d. case d of SnpVpContext g m i v \<Rightarrow> m AND cmask \<noteq> 0 | _ \<Rightarrow> False) ds)"
  by (induction ds) (auto split: directive.split)

lemma built_file:
  assumes "igvm_ok G" and "assemble G c = Inr b" and "finalize G b = Inr f"
  shows "uses_snp c \<Longrightarrow> find_snp_compat f = Inr 2" "\<not> uses_snp c \<Longrightarrow> \<not> is_ok (find_snp_compat f)"
    "list_all (insert_known m (collect_param_areas f)) (ig_directives f)"
    "uses_snp c \<Longrightarrow> length (vmsa_list G 2 (ig_directives f)) = max 1 (unat (bc_smp c))"
proof -
  obtain nat vps ps where p: "plain b = nat @ vps @ ps" "list_all is_native_ctx nat" "list_all is_vp vps" "params_shape ps"
      "length vps = (if uses_snp c then max 1 (unat (bc_smp c)) else 0)"
      "bl_platforms b = (if uses_native c then [native_header] else []) @ (if uses_snp c then [snp_header] else [])"
    using assemble_shape [OF assms(2)] by blast
  note f = finalize_file [OF assms(1,3)]
  have set_f: "set (ig_directives f) = set (bl_directives b)" unfolding f by (simp add: directives.sorter_set)
  show "uses_snp c \<Longrightarrow> find_snp_compat f = Inr 2" "\<not> uses_snp c \<Longrightarrow> \<not> is_ok (find_snp_compat f)"
    unfolding f by (auto simp: find_snp_compat_def p(6) native_header_def snp_header_def sev_snp_compat_def)
  have nplain: "d \<in> set (ig_directives f) \<Longrightarrow> \<not> is_page d \<Longrightarrow> d \<in> set nat \<union> set vps \<union> set ps" for d
    using arg_cong [OF p(1), of set] set_f by (auto simp: plain_def)
  have area: "collect_param_areas f 0 \<noteq> None" if "ParameterInsert i g k \<in> set ps" for i g k
  proof -
    have "\<exists>n. ParameterArea n 0 [] \<in> set ps" using that p(4) by (auto simp: params_shape_def)
    then obtain n where "ParameterArea n 0 [] \<in> set (plain b)" using p(1) by auto
    then have "ParameterArea n 0 [] \<in> set (ig_directives f)" by (simp add: plain_def set_f)
    then show ?thesis unfolding collect_param_areas_def by (subst fold_areas) blast
  qed
  show "list_all (insert_known m (collect_param_areas f)) (ig_directives f)"
    unfolding list_all_iff
  proof
    fix d assume d: "d \<in> set (ig_directives f)"
    show "insert_known m (collect_param_areas f) d"
    proof (cases d)
      case (ParameterInsert i g k)
      then have "d \<in> set ps"
        using nplain [OF d] p(2,3) by (auto simp: list_all_iff dest!: bspec is_vp_E is_native_ctx_E)
      moreover from this have "i = 0" using p(4) ParameterInsert by (auto simp: params_shape_def)
      ultimately show ?thesis using area ParameterInsert by (auto simp: insert_known_def)
    qed (simp_all add: insert_known_def)
  qed
  assume snp: "uses_snp c"
  let ?P = "\<lambda>d. case d of SnpVpContext g m i v \<Rightarrow> m AND 2 \<noteq> (0 :: u32) | _ \<Rightarrow> False"
  have np: "filter ?P ds = filter ?P (filter (\<lambda>d. \<not> is_page d) ds)" for ds
    by (induction ds) (auto split: directive.splits)
  have "mset (filter ?P (ig_directives f)) = mset (filter ?P (bl_directives b))"
    unfolding f by (simp add: mset_filter directives.sorter_mset)
  then have "length (filter ?P (ig_directives f)) = length (filter ?P (bl_directives b))"
    by (rule mset_eq_length)
  then have "length (vmsa_list G 2 (ig_directives f)) = length (filter ?P (bl_directives b))"
    by (simp only: vmsa_count)
  also have "\<dots> = length (filter ?P (plain b))"
    unfolding plain_def by (subst np) (rule refl)
  also have "filter ?P (plain b) = vps"
  proof -
    have "filter ?P nat = []" using p(2) by (auto simp: filter_empty_conv list_all_iff dest!: bspec is_native_ctx_E)
    moreover have "filter ?P ps = []" using p(4) by (auto simp: filter_empty_conv params_shape_def dest!: bspec)
    moreover have "filter ?P vps = vps"
      using p(3) by (auto simp: filter_id_conv list_all_iff sev_snp_compat_def dest!: bspec is_vp_E)
    ultimately show ?thesis by (simp add: p(1))
  qed
  finally show "length (vmsa_list G 2 (ig_directives f)) = max 1 (unat (bc_smp c))" using p(5) snp by simp
qed

lemma build_image_eq:
  assumes "igvm_ok G"
  shows "build_image L G c = Inr r \<longleftrightarrow>
    uses_snp c \<and> (\<exists>b f bytes. assemble G c = Inr b \<and> finalize G b = Inr f \<and> igvm_serialize G f = Inr bytes
      \<and> r = \<lparr>br_igvm_bytes = bytes, br_measurement =
          \<lparr>mr_launch_digest = launch_digest L (measured_events G 2 f),
           mr_page_count = of_nat (length (measured_events G 2 f)),
           mr_vmsa_count = of_nat (max 1 (unat (bc_smp c)))\<rparr>\<rparr>)"
proof -
  have m: "measure_snp L G f = Inr x \<longleftrightarrow> uses_snp c
      \<and> x = \<lparr>mr_launch_digest = launch_digest L (measured_events G 2 f),
           mr_page_count = of_nat (length (measured_events G 2 f)),
           mr_vmsa_count = of_nat (max 1 (unat (bc_smp c)))\<rparr>"
    if "assemble G c = Inr b" "finalize G b = Inr f" for b f x
    using built_file [OF assms that] by (cases "uses_snp c") (auto simp: measure_snp_eq is_ok_iff)
  then show ?thesis by (auto simp: build_image_def)
qed

section \<open>A sample build\<close>

lemma page_map_length: "length (page_map f) \<le> length (ig_directives f)"
proof -
  have ins: "length (om_insert k v m) \<le> Suc (length m)" for k :: u64 and v :: bytes and m
    by (induction k v m rule: om_insert.induct) auto
  have step: "length (page_map_step d m) \<le> Suc (length m)" for d m
    using ins by (simp add: page_map_step_def split: directive.split)
  have "length (fold page_map_step ds m) \<le> length ds + length m" for ds m
  proof (induction ds arbitrary: m)
    case (Cons d ds)
    then show ?case using step [of d m] by (simp add: le_trans [OF Cons])
  qed simp
  from this [of "ig_directives f" "[]"] show ?thesis by (simp add: page_map_def)
qed

definition sample_config :: build_config where
  "sample_config = \<lparr>bc_firmware = sample_firmware, bc_vars = None, bc_kernel = Some [1, 2, 3], bc_shim = None,
     bc_pk = None, bc_kek = None, bc_db = None, bc_dbx = None, bc_platform = Snp, bc_boot_mode = Flat32, bc_smp = 2\<rparr>"

lemma sample_config_simps [simp]:
  "bc_firmware sample_config = sample_firmware" "bc_vars sample_config = None" "bc_platform sample_config = Snp"
  "bc_boot_mode sample_config = Flat32" "bc_smp sample_config = 2" "bc_kernel sample_config = Some [1, 2, 3]"
  by (simp_all add: sample_config_def)

lemma sample_inputs:
  "hob_inputs_of sample_config = \<lparr>hi_kernel = Some [1, 2, 3], hi_shim = None, hi_pk = None, hi_kek = None,
     hi_db = None, hi_dbx = None\<rparr>"
  by (simp add: hob_inputs_of_def sample_config_def)

lemma sample_inputs_ok: "inputs_ok (hob_inputs_of sample_config)"
  by (simp add: sample_inputs inputs_ok_def inputs_nonempty_def inputs_size_def padded_len_def next_multiple_of_def
      word_max_def)

lemma sample_hob_list:
  "blobs (hob_list (hob_inputs_of sample_config)) True = [(0x20000000, [1, 2, 3])]"
  "blobs (hob_list (hob_inputs_of sample_config)) False = []"
  by (simp_all add: sample_inputs hob_list_def add_input_def data_list_add_def data_list_new_def blobs_def)

lemma sample_region: "find_region IgvmHobArea sample_meta = Some \<lparr>or_base = 0x100000, or_size = 0x2000, or_type = IgvmHobArea\<rparr>"
  by (simp add: find_region_def sample_meta_def)

text \<open>How many directives the operations leave.\<close>

lemma directive_counts:
  "length (bl_directives b) \<le> n \<Longrightarrow> length (bl_directives (remove_page_data_in_range a k b)) \<le> n"
  "length (bl_directives b) \<le> n \<Longrightarrow>
     length (bl_directives (add_data_pages a d b)) \<le> n + div_ceil (length d) 4096"
  "length (bl_directives b) \<le> n \<Longrightarrow> length (bl_directives (push_directive d' b)) \<le> n + 1"
  by (simp_all add: remove_page_data_in_range_def add_data_pages_def add_data_pages_flags_eq blob_pages_def
      push_directive_def le_trans [OF length_filter_le])

lemma sample_assemble: "\<exists>b. assemble sample_igvm_lib sample_config = Inr b \<and> length (bl_directives b) \<le> 100"
proof -
  obtain v where v: "vmsa_context (flat32_mode_regs None) \<lparr>sf_snp = True, sf_debug_swap = False\<rparr> = Inr v"
    using regs_supported(2) by blast
  obtain w where w: "vmsa_context (real_mode_regs_at 0x80b004) \<lparr>sf_snp = True, sf_debug_swap = False\<rparr> = Inr w"
    using regs_supported(1) by blast
  define b1 where "b1 = push_directive (SnpVpContext 0xFFFFFFFFF000 sev_snp_compat 1 w)
      (push_directive (SnpVpContext 0xFFFFFFFFF000 sev_snp_compat 0 v) (add_snp_platform builder_new))"
  define b2 where "b2 = add_ovmf_igvm_params sample_meta (add_snp_policy sample_igvm_lib None (add_ovmf_snp_pages sample_meta b1))"
  define b3 where "b3 = add_firmware_4g sample_firmware b2"
  define b4 where "b4 = place_measured (0x20000000, [1, 2, 3]) (add_data_pages 0x100000 (hobs (hob_list (hob_inputs_of sample_config)))
      (remove_page_data_in_range 0x100000 0x2000 b3))"
  have "add_snp sample_igvm_lib sample_config (Some sample_meta) builder_new
      = Inr (add_snp_policy sample_igvm_lib None (add_ovmf_snp_pages sample_meta b1))"
    using v w by (simp add: add_snp_def add_ap_contexts_def add_snp_vmsa_context_def b1_def Let_def sample_meta_def upt_rec)
  then have "assemble sample_igvm_lib sample_config = Inr b4"
    by (simp add: assemble_def sample_firmware_meta add_native_def add_firmware_def Let_def add_hob_data_def has_data_def
        sample_region sample_hob_list, simp add: sample_inputs b4_def b3_def b2_def)
  moreover have "length (bl_directives b1) \<le> 2"
    by (simp add: b1_def push_appends add_snp_platform_def builder_new_def)
  then have "length (bl_directives b2) \<le> 10"
    by (simp add: b2_def add_ovmf_igvm_params_eq add_snp_policy_def add_ovmf_snp_pages_eq find_region_def region_pages_def
        param_directives_def param_gpas_def sample_meta_def in_params_def)
  then have "length (bl_directives b3) \<le> 10 + 1"
    unfolding b3_def add_firmware_4g_def by (rule order_trans [OF directive_counts(2)]) (simp add: sample_firmware_length div_ceil_def)
  then have "length (bl_directives b4) \<le> 10 + 1 + div_ceil (length (hobs (hob_list (hob_inputs_of sample_config)))) 4096 + 1"
    unfolding b4_def place_measured_def
    by (auto intro!: order_trans [OF directive_counts(2)] directive_counts simp: div_ceil_def)
  ultimately show ?thesis
    by (auto simp: hobs_length div_ceil_def sample_inputs hob_list_def add_input_def data_list_add_def data_list_new_def)
qed

definition sample_image :: igvm_file where
  "sample_image = (case assemble sample_igvm_lib sample_config of
     Inl _ \<Rightarrow> \<lparr>ig_platforms = [], ig_initializations = [], ig_directives = []\<rparr>
   | Inr b \<Rightarrow> \<lparr>ig_platforms = bl_platforms b, ig_initializations = bl_initializations b,
                ig_directives = sort_directives (bl_directives b)\<rparr>)"

lemma sample_built:
  "\<exists>b. assemble sample_igvm_lib sample_config = Inr b \<and> finalize sample_igvm_lib b = Inr sample_image
     \<and> length (page_map sample_image) * 4096 < word_max"
proof -
  obtain b where b: "assemble sample_igvm_lib sample_config = Inr b" "length (bl_directives b) \<le> 100"
    using sample_assemble by blast
  then have "finalize sample_igvm_lib b = Inr sample_image"
    by (simp add: sample_image_def finalize_def sample_igvm_lib_def)
  moreover have "length (page_map sample_image) \<le> 100"
    using page_map_length [of sample_image] b by (simp add: sample_image_def directives.sorter_length)
  ultimately show ?thesis using b(1) by (auto simp: word_max_def)
qed

lemma sample_igvm_ok: "igvm_ok sample_igvm_lib"
  by (simp add: igvm_ok_def sample_igvm_lib_def)

section \<open>Properties\<close>

text \<open>
  The hand-off list of a build. Whatever blobs are given, if they fit below \<open>2 ^ 64\<close> they are laid
  out from 512 MB on page boundaries without overlap, and the bytes of the list are one 48-byte block
  per blob with its address, length and type at the offsets the firmware reads, then the end marker.
\<close>

theorem hob_list_describes_blobs:
  assumes "0x20000000 + inputs_size h < word_max"
  shows "layout_ok 0x20000000 (hob_list h)
    \<and> dl_base (hob_list h) = 0x20000000 + inputs_size h
    \<and> length (hobs (hob_list h)) = 48 * length (dl_data (hob_list h)) + 8
    \<and> (\<forall>i < length (dl_data (hob_list h)).
        let d = dl_data (hob_list h) ! i; x = take 48 (drop (48 * i) (hobs (hob_list h)))
        in take 16 (drop 8 x) = efi_igvm_data_hob_guid \<and> le_u64 (take 8 (drop 0x18 x)) = of_nat (dn_addr d)
           \<and> le_u64 (take 8 (drop 0x20 x)) = of_nat (length (dn_blob d)))"
proof -
  have lay: "layout_ok 0x20000000 (hob_list h)" using hob_list_layout [OF assms] by simp
  have blk: "take 48 (drop (48 * i) (concat (map (\<lambda>d. data_hob_bytes (dn_hob d)) ds) @ t)) = data_hob_bytes (dn_hob (ds ! i))"
    if "i < length ds" for i t and ds :: "data_entry list"
    using that
  proof (induction ds arbitrary: i)
    case (Cons d ds)
    then show ?case by (cases i) simp_all
  qed simp
  have x: "take 48 (drop (48 * i) (hobs (hob_list h))) = data_hob_bytes (dn_hob (dl_data (hob_list h) ! i))"
    if "i < length (dl_data (hob_list h))" for i
    unfolding hobs_def by (rule blk [OF that])
  have d: "dh_address (dn_hob d) = of_nat (dn_addr d) \<and> dh_length (dn_hob d) = of_nat (length (dn_blob d))"
    if "d \<in> set (dl_data (hob_list h))" for d
    using lay that by (simp add: layout_ok_def list_all_iff)
  show ?thesis
    using hob_list_layout [OF assms] d by (simp add: hobs_length x data_hob_fields le64.dec_enc Let_def)
qed

theorem hob_list_describes_blobs_witness:
  "layout_ok 0x20000000 (hob_list \<lparr>hi_kernel = Some [1, 2], hi_shim = Some [3], hi_pk = None, hi_kek = None,
     hi_db = None, hi_dbx = None\<rparr>)"
  using hob_list_describes_blobs [of "\<lparr>hi_kernel = Some [1, 2], hi_shim = Some [3], hi_pk = None, hi_kek = None,
     hi_db = None, hi_dbx = None\<rparr>"]
  by (simp add: inputs_size_def padded_len_def next_multiple_of_def word_max_def)

text \<open>
  C29. The kernel survives the build. When a build has a kernel, no input is empty, the inputs fit, and
  the firmware's hand-off area is a page below them, then in the finished image memory holds the
  kernel byte for byte at its address and a hand-off block with that address and length; reassembling
  that range gives the kernel back, so a reader that finds this block reads its command line.
\<close>

theorem built_kernel_in_memory:
  assumes "igvm_ok G" and "assemble G config = Inr b" and "finalize G b = Inr f"
    and "ovmf_meta_new (bc_firmware config) = Some m" and "find_region IgvmHobArea m = Some r" and "hob_area_ok r"
    and "inputs_ok (hob_inputs_of config)" and "bc_kernel config = Some k"
    and "length (page_map f) * 4096 < word_max"
  shows "mem_holds (page_map f) (kernel_addr (hob_inputs_of config)) k
    \<and> (\<exists>g. kernel_hob_in_memory (page_map f) g (of_nat (kernel_addr (hob_inputs_of config))) (of_nat (length k)))
    \<and> reassemble (page_map f) (of_nat (kernel_addr (hob_inputs_of config))) (of_nat (length k)) = Inr k
    \<and> (find_kernel_blob (page_map f) = Inr (of_nat (kernel_addr (hob_inputs_of config)), of_nat (length k))
        \<longrightarrow> kernel_cmdline f = parse_pe_cmdline k)"
proof -
  let ?h = "hob_inputs_of config"
  obtain b0 where b0: "add_hob_data (Some m) ?h b0 = Inr b" using assemble_hob [OF assms(2,4)] by blast
  have h: "has_data ?h" "hi_kernel ?h = Some k" using assms(8) by (simp_all add: has_data_def hob_inputs_of_def)
  have "0x20000000 + inputs_size ?h < word_max" using assms(7) by (simp add: inputs_ok_def)
  then obtain ds where ds: "dl_data (hob_list ?h) = ds @ [\<lparr>dn_hob = new_data_hob (kernel_addr ?h) (length k) Kernel,
      dn_addr = kernel_addr ?h, dn_blob = k, dn_measured = True\<rparr>]" (is "_ = ds @ [?e]")
    using hob_list_kernel [OF h(2)] by blast
  note mem = finalized_memory [OF assms(1) b0 assms(3) h(1) assms(5-7)]
  have e: "?e \<in> set (dl_data (hob_list ?h))" unfolding ds by simp
  have hold: "holds_blob (page_map f) (kernel_addr ?h) k" "kernel_addr ?h mod 4096 = 0"
    using mem(1) [OF e] by simp_all
  have "fits (kernel_addr ?h) k" "k \<noteq> []"
    using hob_list_entry(1) [OF assms(7) e] by (simp_all add: blob_ok_def entry_blob_def)
  then have "reassemble (page_map f) (of_nat (kernel_addr ?h)) (of_nat (length k)) = Inr k"
    using reassemble_blob [OF hold(1)] assms(9) by blast
  moreover have "\<exists>g. kernel_hob_in_memory (page_map f) g (of_nat (kernel_addr ?h)) (of_nat (length k))"
    using hobs_hold_kernel [OF mem(2) ds] by auto
  ultimately show ?thesis
    using holds_blob_mem [OF hold] by (simp add: kernel_cmdline_def Let_def)
qed

theorem built_kernel_in_memory_witness:
  "mem_holds (page_map sample_image) 0x20000000 [1, 2, 3] \<and> reassemble (page_map sample_image) 0x20000000 3 = Inr [1, 2, 3]"
proof -
  obtain b where "assemble sample_igvm_lib sample_config = Inr b" "finalize sample_igvm_lib b = Inr sample_image"
      "length (page_map sample_image) * 4096 < word_max"
    using sample_built by blast
  from built_kernel_in_memory [OF sample_igvm_ok this(1,2) _ sample_region _ sample_inputs_ok _ this(3)]
  show ?thesis
    by (simp add: sample_firmware_meta hob_area_ok_def sample_inputs kernel_addr_def inputs_size_def padded_len_def)
qed

text \<open>
  When a build succeeds. For a platform with SEV-SNP, a build succeeds iff the builder can be
  assembled, finalized and serialised: its measurement cannot fail. The result carries the digest of
  the finished image's measured events and counts one VMSA per virtual processor (at least one).
\<close>

theorem build_measures_image:
  assumes "igvm_ok G"
  shows "build_image L G c = Inr r \<longleftrightarrow>
    bc_platform c \<in> {Snp, SnpNative} \<and> (\<exists>b f bytes. assemble G c = Inr b \<and> finalize G b = Inr f \<and> igvm_serialize G f = Inr bytes
      \<and> r = \<lparr>br_igvm_bytes = bytes, br_measurement =
          \<lparr>mr_launch_digest = launch_digest L (measured_events G 2 f),
           mr_page_count = of_nat (length (measured_events G 2 f)),
           mr_vmsa_count = of_nat (max 1 (unat (bc_smp c)))\<rparr>\<rparr>)"
  using build_image_eq [OF assms, of L c r] by (simp add: uses_snp_def)

theorem build_measures_image_witness:
  "\<exists>r. build_image sample_lib sample_igvm_lib sample_config = Inr r \<and> mr_vmsa_count (br_measurement r) = 2"
proof -
  obtain b where b: "assemble sample_igvm_lib sample_config = Inr b" "finalize sample_igvm_lib b = Inr sample_image"
    using sample_built by blast
  define m where "m = \<lparr>mr_launch_digest = launch_digest sample_lib (measured_events sample_igvm_lib 2 sample_image),
           mr_page_count = of_nat (length (measured_events sample_igvm_lib 2 sample_image)),
           mr_vmsa_count = of_nat (max 1 (unat (bc_smp sample_config)))\<rparr>"
  have "igvm_serialize sample_igvm_lib sample_image = Inr []" by (simp add: sample_igvm_lib_def)
  then have "build_image sample_lib sample_igvm_lib sample_config = Inr \<lparr>br_igvm_bytes = [], br_measurement = m\<rparr>"
    using b unfolding build_measures_image [OF sample_igvm_ok] m_def by auto
  then show ?thesis by (auto simp: m_def)
qed

text \<open>
  A build for the native platform alone never succeeds, whatever its inputs: every build is
  measured, and the measurement needs an SEV-SNP platform.
\<close>

theorem native_build_fails:
  assumes "igvm_ok G" and "bc_platform c = Native"
  shows "\<not> is_ok (build_image L G c)"
  using build_image_eq [OF assms(1), of L c] assms(2) by (auto simp: is_ok_iff uses_snp_def)

theorem native_build_fails_witness:
  "\<not> is_ok (build_image sample_lib sample_igvm_lib (sample_config\<lparr>bc_platform := Native\<rparr>))"
  by (rule native_build_fails [OF sample_igvm_ok]) simp


text \<open>
  An empty shim damages the kernel. A shim of no bytes takes no room in the layout, so it has the
  address of the kernel; placing it afterwards first clears one page from that address. In the
  finished image the hand-off list still describes the kernel, but its first page is gone, and
  reassembling it fails.
\<close>

theorem empty_shim_drops_kernel_page:
  assumes "igvm_ok G" and "add_hob_data m h b0 = Inr b" and "finalize G b = Inr f"
    and "hi_shim h = Some []" and "hi_kernel h = Some k" and "0x20000000 + inputs_size h + 4096 < word_max"
  shows "(\<exists>d \<in> set (dl_data (hob_list h)). dn_addr d = kernel_addr h \<and> dn_blob d = k \<and> dh_type (dn_hob d) = 0x201)
    \<and> om_lookup (page_map f) (of_nat (kernel_addr h)) = None
    \<and> (k \<noteq> [] \<longrightarrow> reassemble (page_map f) (of_nat (kernel_addr h)) (of_nat (length k)) \<noteq> Inr k)"
proof -
  define l where "l = add_input (hi_dbx h) Dbx True (add_input (hi_db h) Db True
        (add_input (hi_kek h) Kek True (add_input (hi_pk h) Pk True (data_list_new 0x20000000))))"
  have "layout_at l (0x20000000 + padded_len (hi_pk h) + padded_len (hi_kek h) + padded_len (hi_db h) + padded_len (hi_dbx h))"
    unfolding l_def using assms(6) by (intro add_input_layout layout_at_new) (simp_all add: inputs_size_def)
  moreover have "padded_len (hi_shim h) = 0" by (simp add: assms(4) padded_len_def next_multiple_of_def)
  ultimately have base: "dl_base l = kernel_addr h" by (simp add: layout_at_def kernel_addr_def inputs_size_def)
  have certs: "blobs (add_input x t True l') False = blobs l' False" for x t l'
    by (simp add: add_input_def data_list_add_def blobs_def split: option.split)
  have "blobs l False = []" by (simp add: l_def certs) (simp add: blobs_def data_list_new_def)
  moreover have "hob_list h = add_input (Some k) Kernel True (data_list_add [] Shim False l)"
    unfolding hob_list_def l_def [symmetric] assms(4,5) by (simp add: add_input_def)
  ultimately have "blobs (hob_list h) False = [(kernel_addr h, [])]"
    by (simp add: certs) (simp add: blobs_def data_list_add_def base)
  moreover have "has_data h" by (simp add: has_data_def assms(4))
  ultimately obtain b2 where b: "b = place_unmeasured (kernel_addr h, []) b2"
    using assms(2) by (auto simp: add_hob_data_def Let_def)
  have small: "kernel_addr h + 4096 < word_max" using assms(6) by (simp add: kernel_addr_def)
  then have a: "unat (of_nat (kernel_addr h) :: u64) = kernel_addr h"
    by (simp add: unat_of_nat word_max_def)
  have "om_lookup (mem_of (bl_directives b)) (of_nat (kernel_addr h)) = None"
    using remove_inside [of "kernel_addr h" "of_nat (kernel_addr h)" 0 b2] small
    by (simp add: b place_unmeasured_def add_data_pages_unmeasured_def add_data_pages_flags_eq blob_pages_def a page_size_def)
  then have none: "om_lookup (page_map f) (of_nat (kernel_addr h)) = None"
    by (simp add: finalize_lookup [OF assms(1,3)])
  obtain ds where ds: "dl_data (hob_list h) = ds @ [\<lparr>dn_hob = new_data_hob (kernel_addr h) (length k) Kernel,
      dn_addr = kernel_addr h, dn_blob = k, dn_measured = True\<rparr>]"
    using hob_list_kernel [OF assms(5)] assms(6) by auto
  have "layout_ok 0x20000000 (hob_list h)" using hob_list_layout [of h] assms(6) by simp
  then have al: "kernel_addr h mod 4096 = 0" by (simp add: ds layout_ok_def)
  have "reassemble (page_map f) (of_nat (kernel_addr h)) (of_nat (length k)) \<noteq> Inr k" if "k \<noteq> []"
  proof
    assume r: "reassemble (page_map f) (of_nat (kernel_addr h)) (of_nat (length k)) = Inr k"
    have "0 < length k" using that by simp
    then have "mem_byte (page_map f) (kernel_addr h) \<noteq> None"
      using reassemble_sound [OF r page_map_wf] a by (metis Nat.add_0_right option.distinct(1))
    then show False using none al by (simp add: mem_byte_def)
  qed
  then show ?thesis using none by (auto simp: ds new_data_hob_def)
qed

definition shim_config :: hob_inputs where
  "shim_config = \<lparr>hi_kernel = Some [1, 2, 3], hi_shim = Some [], hi_pk = None, hi_kek = None, hi_db = None, hi_dbx = None\<rparr>"

theorem empty_shim_drops_kernel_page_witness:
  "\<exists>b f. add_hob_data (Some sample_meta) shim_config builder_new = Inr b \<and> finalize sample_igvm_lib b = Inr f
     \<and> om_lookup (page_map f) 0x20000000 = None"
proof -
  have "\<exists>b. add_hob_data (Some sample_meta) shim_config builder_new = Inr b"
    by (simp add: add_hob_data_def sample_region Let_def)
  then obtain b f where bf: "add_hob_data (Some sample_meta) shim_config builder_new = Inr b" "finalize sample_igvm_lib b = Inr f"
    by (auto simp: finalize_def sample_igvm_lib_def)
  have "kernel_addr shim_config = 0x20000000" "inputs_size shim_config = 4096"
    by (simp_all add: kernel_addr_def inputs_size_def padded_len_def shim_config_def next_multiple_of_def)
  then show ?thesis
    using empty_shim_drops_kernel_page [OF sample_igvm_ok bf, of "[1, 2, 3]"] bf
    by (auto simp: word_max_def) (simp_all add: shim_config_def)
qed

end
