(* ===== verification/Igvm_Command.thy ===== *)
theory Igvm_Command
  imports Igvm_Build Verify
begin

text \<open>
  The command \<open>igvm-tools\<close> (\<open>crates/igvm-tools/src/main.rs\<close>) with the manifest it writes
  (\<open>manifest.rs\<close>): building an image from files, measuring an image, and the digest on standard output.
  Diagnostics on standard error are left out.
\<close>

section \<open>The manifest\<close>

record file_info =
  fi_path :: string
  fi_sha256 :: string

record measurement_info =
  mi_snp_launch_digest :: string
  mi_algorithm :: string
  mi_page_count :: u64
  mi_vmsa_count :: u32

record manifest_config =
  mc_platform :: string
  mc_boot_mode :: string
  mc_smp :: u32

record input_files =
  if_firmware :: file_info
  if_vars :: "file_info option"
  if_kernel :: "file_info option"
  if_shim :: "file_info option"

record manifest =
  mf_version :: u32
  mf_igvm_file :: string
  mf_igvm_sha256 :: string
  mf_measurement :: measurement_info
  mf_config :: manifest_config
  mf_inputs :: input_files
  mf_generated_at :: string

definition sha256_hex :: "lib \<Rightarrow> bytes \<Rightarrow> string" where
  "sha256_hex L d = hex_encode L (sha256 L d)"

definition u32_to_j :: "u32 \<Rightarrow> json" where
  "u32_to_j n = JNum (PosInt (ucast n))"

definition file_info_to_j :: "file_info \<Rightarrow> json" where
  "file_info_to_j f = JObj [(''path'', JStr (fi_path f)), (''sha256'', JStr (fi_sha256 f))]"

definition measurement_to_j :: "measurement_info \<Rightarrow> json" where
  "measurement_to_j m = JObj [
     (''snp_launch_digest'', JStr (mi_snp_launch_digest m)), (''algorithm'', JStr (mi_algorithm m)),
     (''page_count'', JNum (PosInt (mi_page_count m))), (''vmsa_count'', u32_to_j (mi_vmsa_count m))]"

definition manifest_config_to_j :: "manifest_config \<Rightarrow> json" where
  "manifest_config_to_j c = JObj [
     (''platform'', JStr (mc_platform c)), (''boot_mode'', JStr (mc_boot_mode c)), (''smp'', u32_to_j (mc_smp c))]"

definition input_files_to_j :: "input_files \<Rightarrow> json" where
  "input_files_to_j i = JObj ((''firmware'', file_info_to_j (if_firmware i))
     # skip_none ''vars'' file_info_to_j (if_vars i)
     @ skip_none ''kernel'' file_info_to_j (if_kernel i)
     @ skip_none ''shim'' file_info_to_j (if_shim i))"

definition manifest_to_j :: "manifest \<Rightarrow> json" where
  "manifest_to_j m = JObj [
     (''version'', u32_to_j (mf_version m)), (''igvm_file'', JStr (mf_igvm_file m)),
     (''igvm_sha256'', JStr (mf_igvm_sha256 m)), (''measurement'', measurement_to_j (mf_measurement m)),
     (''config'', manifest_config_to_j (mf_config m)), (''inputs'', input_files_to_j (mf_inputs m)),
     (''generated_at'', JStr (mf_generated_at m))]"

section \<open>The command\<close>

record build_args =
  ba_firmware :: string
  ba_vars :: "string option"
  ba_kernel :: "string option"
  ba_shim :: "string option"
  ba_pk :: "string option"
  ba_kek :: "string option"
  ba_db :: "string option"
  ba_dbx :: "string option"
  ba_platform :: build_platform
  ba_boot_mode :: boot_mode
  ba_smp :: u32
  ba_output :: string
  ba_manifest :: "string option"

text \<open>The files that can be read, and the lines printed; and how reading and writing may fail.\<close>

record cli_state =
  cs_files :: "string \<Rightarrow> bytes option"
  cs_stdout :: "string list"

record cli_env =
  ce_read_error :: "string \<Rightarrow> string"
  ce_write_error :: "string \<Rightarrow> string option"
  ce_now :: string

definition read_file :: "cli_env \<Rightarrow> cli_state \<Rightarrow> string \<Rightarrow> string \<Rightarrow> bytes res" where
  "read_file E st what p = need (Fail (''read '' @ what @ p @ '': '' @ ce_read_error E p)) (cs_files st p)"

definition read_optional :: "cli_env \<Rightarrow> cli_state \<Rightarrow> string option \<Rightarrow> string \<Rightarrow> bytes option res" where
  "read_optional E st path label =
     (case path of None \<Rightarrow> Inr None | Some p \<Rightarrow> map_ok Some (read_file E st (label @ '' '') p))"

definition write_file :: "cli_env \<Rightarrow> string \<Rightarrow> bytes \<Rightarrow> cli_state \<Rightarrow> unit res \<times> cli_state" where
  "write_file E p b st =
     (case ce_write_error E p of
        Some e \<Rightarrow> (Inl (Fail (''write '' @ p @ '': '' @ e)), st)
      | None \<Rightarrow> (Inr (), st\<lparr>cs_files := (cs_files st)(p \<mapsto> b)\<rparr>))"

definition print_line :: "string \<Rightarrow> cli_state \<Rightarrow> cli_state" where
  "print_line l st = st\<lparr>cs_stdout := cs_stdout st @ [l]\<rparr>"

definition read_inputs :: "cli_env \<Rightarrow> cli_state \<Rightarrow> build_args \<Rightarrow> build_config res" where
  "read_inputs E st args =
     bnd (read_file E st ''firmware '' (ba_firmware args)) (\<lambda>firmware.
     bnd (read_optional E st (ba_vars args) ''vars'') (\<lambda>vars.
     bnd (read_optional E st (ba_kernel args) ''kernel'') (\<lambda>kernel.
     bnd (read_optional E st (ba_shim args) ''shim'') (\<lambda>shim.
     bnd (read_optional E st (ba_pk args) ''pk'') (\<lambda>pk.
     bnd (read_optional E st (ba_kek args) ''kek'') (\<lambda>kek.
     bnd (read_optional E st (ba_db args) ''db'') (\<lambda>db.
     bnd (read_optional E st (ba_dbx args) ''dbx'') (\<lambda>dbx.
     Inr \<lparr>bc_firmware = firmware, bc_vars = vars, bc_kernel = kernel, bc_shim = shim, bc_pk = pk, bc_kek = kek,
          bc_db = db, bc_dbx = dbx, bc_platform = ba_platform args, bc_boot_mode = ba_boot_mode args,
          bc_smp = ba_smp args\<rparr>))))))))"

text \<open>\<open>Debug\<close> in lower case.\<close>

fun platform_text :: "build_platform \<Rightarrow> string" where
  "platform_text Snp = ''snp''"
| "platform_text Native = ''native''"
| "platform_text SnpNative = ''snpnative''"

fun boot_mode_text :: "boot_mode \<Rightarrow> string" where
  "boot_mode_text Real16 = ''real16''"
| "boot_mode_text Flat32 = ''flat32''"

text \<open>A blob was read from its path, so both are there or neither.\<close>

definition input_info :: "lib \<Rightarrow> string option \<Rightarrow> bytes option \<Rightarrow> file_info option" where
  "input_info L path blob =
     (case (path, blob) of
        (Some p, Some b) \<Rightarrow> Some \<lparr>fi_path = p, fi_sha256 = sha256_hex L b\<rparr>
      | _ \<Rightarrow> None)"

definition make_manifest :: "lib \<Rightarrow> cli_env \<Rightarrow> build_args \<Rightarrow> build_config \<Rightarrow> build_result \<Rightarrow> manifest" where
  "make_manifest L E args config r = \<lparr>
     mf_version = 1,
     mf_igvm_file = ba_output args,
     mf_igvm_sha256 = sha256_hex L (br_igvm_bytes r),
     mf_measurement = \<lparr>
       mi_snp_launch_digest = hex_encode L (mr_launch_digest (br_measurement r)),
       mi_algorithm = ''sha384'',
       mi_page_count = mr_page_count (br_measurement r),
       mi_vmsa_count = mr_vmsa_count (br_measurement r)\<rparr>,
     mf_config = \<lparr>mc_platform = platform_text (ba_platform args),
       mc_boot_mode = boot_mode_text (ba_boot_mode args), mc_smp = ba_smp args\<rparr>,
     mf_inputs = \<lparr>
       if_firmware = \<lparr>fi_path = ba_firmware args, fi_sha256 = sha256_hex L (bc_firmware config)\<rparr>,
       if_vars = input_info L (ba_vars args) (bc_vars config),
       if_kernel = input_info L (ba_kernel args) (bc_kernel config),
       if_shim = input_info L (ba_shim args) (bc_shim config)\<rparr>,
     mf_generated_at = ce_now E\<rparr>"

definition write_manifest ::
  "lib \<Rightarrow> cli_env \<Rightarrow> build_args \<Rightarrow> build_config \<Rightarrow> build_result \<Rightarrow> cli_state \<Rightarrow> unit res \<times> cli_state" where
  "write_manifest L E args config r st =
     (case ba_manifest args of
        None \<Rightarrow> (Inr (), st)
      | Some p \<Rightarrow>
          write_file E p (as_bytes (json_pretty L (manifest_to_j (make_manifest L E args config r)))) st)"

definition do_build :: "lib \<Rightarrow> igvm_lib \<Rightarrow> cli_env \<Rightarrow> build_args \<Rightarrow> cli_state \<Rightarrow> unit res \<times> cli_state" where
  "do_build L G E args st =
     (case bnd (read_inputs E st args) (\<lambda>config. map_ok (Pair config) (build_image L G config)) of
        Inl e \<Rightarrow> (Inl e, st)
      | Inr (config, r) \<Rightarrow>
         (case write_file E (ba_output args) (br_igvm_bytes r) st of
            (Inl e, st1) \<Rightarrow> (Inl e, st1)
          | (Inr _, st1) \<Rightarrow>
             (case write_manifest L E args config r st1 of
                (Inl e, st2) \<Rightarrow> (Inl e, st2)
              | (Inr _, st2) \<Rightarrow>
                  (Inr (), print_line (hex_encode L (mr_launch_digest (br_measurement r))) st2))))"

definition do_measure :: "lib \<Rightarrow> igvm_lib \<Rightarrow> cli_env \<Rightarrow> string \<Rightarrow> cli_state \<Rightarrow> unit res \<times> cli_state" where
  "do_measure L G E path st =
     (case bnd (read_file E st [] path) (\<lambda>blob.
           bnd (map_err (\<lambda>e. Fail (''parse igvm: '' @ e)) (igvm_parse G blob)) (measure_snp L G)) of
        Inl e \<Rightarrow> (Inl e, st)
      | Inr r \<Rightarrow> (Inr (), print_line (hex_encode L (mr_launch_digest r)) st))"

datatype igvm_command = BuildImage build_args | MeasureImage string

definition igvm_main :: "lib \<Rightarrow> igvm_lib \<Rightarrow> cli_env \<Rightarrow> igvm_command \<Rightarrow> cli_state \<Rightarrow> nat \<times> cli_state" where
  "igvm_main L G E cmd st =
     (let (r, st') = (case cmd of
          BuildImage args \<Rightarrow> do_build L G E args st
        | MeasureImage path \<Rightarrow> do_measure L G E path st)
      in (exit_status r, st'))"

section \<open>Lemmas\<close>

lemma write_file_Inr [simp]:
  "write_file E p b st = (Inr u, st') \<longleftrightarrow> ce_write_error E p = None \<and> st' = st\<lparr>cs_files := (cs_files st)(p \<mapsto> b)\<rparr>"
  by (auto simp: write_file_def split: option.splits)


lemma do_build_Inr:
  assumes "do_build L G E args st = (Inr (), st')"
  obtains config r st2 where "read_inputs E st args = Inr config" "build_image L G config = Inr r"
    "write_manifest L E args config r (st\<lparr>cs_files := (cs_files st)(ba_output args \<mapsto> br_igvm_bytes r)\<rparr>) = (Inr (), st2)"
    "st' = print_line (hex_encode L (mr_launch_digest (br_measurement r))) st2"
  using assms
  by (auto simp: do_build_def split: sum.splits prod.splits)

text \<open>The manifest records neither the secure boot inputs nor anything of them.\<close>

lemma manifest_omits_certificates:
  "make_manifest L E (args\<lparr>ba_pk := pk, ba_kek := kek, ba_db := db, ba_dbx := dbx\<rparr>)
     (config\<lparr>bc_pk := x, bc_kek := y, bc_db := z, bc_dbx := v\<rparr>) r = make_manifest L E args config r"
  by (simp add: make_manifest_def)

section \<open>Sample run\<close>

text \<open>A format that can write one image only.\<close>

definition sample_codec :: igvm_lib where
  "sample_codec = sample_igvm_lib\<lparr>
     igvm_serialize := (\<lambda>f. if f = sample_image then Inr [1] else Inl ''unsupported'')\<rparr>"

definition sample_build_args :: build_args where
  "sample_build_args = \<lparr>ba_firmware = ''f'', ba_vars = None, ba_kernel = Some ''k'', ba_shim = None, ba_pk = None,
     ba_kek = None, ba_db = None, ba_dbx = None, ba_platform = Snp, ba_boot_mode = Flat32, ba_smp = 2,
     ba_output = ''o'', ba_manifest = Some ''m''\<rparr>"

definition sample_cli :: cli_env where
  "sample_cli = \<lparr>ce_read_error = (\<lambda>_. ''not found''), ce_write_error = (\<lambda>_. None), ce_now = ''now''\<rparr>"

definition sample_files :: cli_state where
  "sample_files = \<lparr>cs_files = [''f'' \<mapsto> sample_firmware, ''k'' \<mapsto> [1, 2, 3]], cs_stdout = []\<rparr>"

definition sample_no_files :: cli_state where
  "sample_no_files = \<lparr>cs_files = Map.empty, cs_stdout = []\<rparr>"

lemma sample_codec_builds: "\<exists>r. build_image sample_lib sample_codec sample_config = Inr r"
proof -
  obtain b where b: "assemble sample_igvm_lib sample_config = Inr b" "finalize sample_igvm_lib b = Inr sample_image"
    using sample_built by blast
  have "assemble sample_codec sample_config = assemble sample_igvm_lib sample_config"
    by (simp add: assemble_def add_snp_def add_snp_policy_def sample_codec_def)
  moreover have "finalize sample_codec b = finalize sample_igvm_lib b" by (simp add: finalize_def sample_codec_def)
  moreover have "igvm_serialize sample_codec sample_image = Inr [1]" by (simp add: sample_codec_def)
  moreover have "igvm_ok sample_codec" using sample_igvm_ok by (simp add: igvm_ok_def sample_codec_def)
  moreover have "uses_snp sample_config" by (simp add: uses_snp_def)
  ultimately show ?thesis using b by (simp add: build_image_eq)
qed

lemma sample_reads: "read_inputs sample_cli sample_files sample_build_args = Inr sample_config"
  by (simp add: read_inputs_def read_optional_def read_file_def sample_files_def sample_build_args_def sample_config_def)

lemma sample_do_build: "\<exists>st. do_build sample_lib sample_codec sample_cli sample_build_args sample_files = (Inr (), st)"
proof -
  obtain r where "build_image sample_lib sample_codec sample_config = Inr r" using sample_codec_builds by blast
  moreover have "ce_write_error sample_cli p = None" for p by (simp add: sample_cli_def)
  ultimately show ?thesis
    by (simp add: do_build_def sample_reads write_file_def write_manifest_def split: option.split)
qed

section \<open>Properties\<close>


lemma read_file_Inr [simp]: "read_file E st what p = Inr b \<longleftrightarrow> cs_files st p = Some b"
  by (auto simp: read_file_def split: option.splits)



text \<open>The files after the image \<open>img\<close> and then the manifest \<open>m\<close> have been written.\<close>

definition published :: "lib \<Rightarrow> build_args \<Rightarrow> bytes \<Rightarrow> manifest \<Rightarrow> cli_state \<Rightarrow> string \<Rightarrow> bytes option" where
  "published L args img m st =
     (let files = (cs_files st)(ba_output args \<mapsto> img) in
      case ba_manifest args of None \<Rightarrow> files | Some p \<Rightarrow> files(p \<mapsto> as_bytes (json_pretty L (manifest_to_j m))))"


lemma write_manifest_published:
  assumes "write_manifest L E args config r (st\<lparr>cs_files := (cs_files st)(ba_output args \<mapsto> br_igvm_bytes r)\<rparr>) = (Inr (), st')"
  shows "cs_stdout st' = cs_stdout st \<and> cs_files st' = published L args (br_igvm_bytes r) (make_manifest L E args config r) st"
  using assms by (auto simp: write_manifest_def published_def split: option.splits)


text \<open>Both outcomes occur: the sample build, and the same build without its files.\<close>

lemma sample_build_publishes:
  "\<exists>digest. cs_stdout (snd (do_build sample_lib sample_codec sample_cli sample_build_args sample_files)) = [digest]
   \<and> do_build sample_lib sample_codec sample_cli sample_build_args sample_no_files
       = (Inl (Fail ''read firmware f: not found''), sample_no_files)"
proof -
  obtain st where st: "do_build sample_lib sample_codec sample_cli sample_build_args sample_files = (Inr (), st)"
    using sample_do_build by blast
  then have "\<exists>digest. cs_stdout st = [digest]"
  proof (rule do_build_Inr, goal_cases)
    case (1 config r st2)
    show ?case using write_manifest_published [OF 1(3)] by (simp add: 1(4) print_line_def sample_files_def)
  qed
  moreover have "do_build sample_lib sample_codec sample_cli sample_build_args sample_no_files
      = (Inl (Fail ''read firmware f: not found''), sample_no_files)"
    by (simp add: do_build_def read_inputs_def read_file_def sample_no_files_def sample_cli_def sample_build_args_def)
  ultimately show ?thesis using st by simp
qed

end
