(* ===== verification/Vtpm_Base.thy ===== *)
theory Vtpm_Base
  imports Bytes
begin

text \<open>
  Shared by the theories on the virtual TPM: results whose error is a value of the crate's own
  error enum or an aborted thread, panicking slices, and the \<open>repr(C)\<close> structures that
  \<open>zerocopy\<close> reads from and writes to byte buffers. A structure is a list of fields of fixed
  sizes; the locale \<open>sized_codec\<close> is what every reader and writer of such a structure keeps.
\<close>

section \<open>Errors and aborts\<close>

datatype 'e stop = Err 'e | Aborted string

definition ok_or :: "'e \<Rightarrow> 'a option \<Rightarrow> 'e stop + 'a" where
  "ok_or e m = (case m of None \<Rightarrow> Inl (Err e) | Some x \<Rightarrow> Inr x)"

definition aborts :: "'e stop + 'a \<Rightarrow> bool" where
  "aborts r = (case r of Inl (Aborted _) \<Rightarrow> True | _ \<Rightarrow> False)"

definition index_range :: "'a list \<Rightarrow> nat \<Rightarrow> nat \<Rightarrow> 'e stop + 'a list" where
  "index_range b lo hi =
     (case get_range b lo hi of
        None \<Rightarrow> Inl (Aborted ''slice index out of range'')
      | Some s \<Rightarrow> Inr s)"

lemma ok_or_simps [simp]: "ok_or e None = Inl (Err e)" "ok_or e (Some x) = Inr x"
  by (simp_all add: ok_or_def)

lemma ok_or_eq_Inr [simp]: "ok_or e m = Inr x \<longleftrightarrow> m = Some x"
  by (cases m) auto

lemma aborts_simps [simp]: "aborts (Inr x) = False" "aborts (Inl (Aborted s)) = True"
    "aborts (Inl (Err e)) = False" "aborts (ok_or e m) = False"
  by (simp_all add: aborts_def ok_or_def split: option.splits)

lemma aborts_bnd: "aborts (bnd m k) \<longleftrightarrow> aborts m \<or> (\<exists>x. m = Inr x \<and> aborts (k x))"
  by (cases m) (auto simp: aborts_def split: stop.splits)

lemma index_range_in [simp]:
  "lo \<le> hi \<Longrightarrow> hi \<le> length b \<Longrightarrow> index_range b lo hi = Inr (take (hi - lo) (drop lo b))"
  by (simp add: index_range_def)

lemma aborts_index_range: "aborts (index_range b lo hi) \<longleftrightarrow> hi < lo \<or> length b < hi"
  by (auto simp: index_range_def get_range_def)

section \<open>Fixed layouts\<close>

fun cut :: "nat list \<Rightarrow> 'a list \<Rightarrow> 'a list list" where
  "cut [] b = []"
| "cut (n # ns) b = take n b # cut ns (drop n b)"

lemma cut_length [simp]: "length (cut ns b) = length ns"
  by (induction ns arbitrary: b) auto

lemma concat_cut: "length b = sum_list ns \<Longrightarrow> concat (cut ns b) = b"
  by (induction ns arbitrary: b) auto

lemma cut_concat: "map length xs = ns \<Longrightarrow> cut ns (concat xs) = xs"
  by (induction xs arbitrary: ns) auto

lemma cut_lengths: "sum_list ns \<le> length b \<Longrightarrow> map length (cut ns b) = ns"
  by (induction ns arbitrary: b) auto

text \<open>\<open>read_from_bytes\<close> takes a buffer of exactly the size of the structure.\<close>

definition read_exact :: "nat \<Rightarrow> (bytes \<Rightarrow> 'a) \<Rightarrow> bytes \<Rightarrow> 'a option" where
  "read_exact n dec b = (if length b = n then Some (dec b) else None)"

lemma read_exact_None: "read_exact n dec b = None \<longleftrightarrow> length b \<noteq> n"
  by (simp add: read_exact_def)

text \<open>
  \<open>enc\<close> writes the structure (\<open>IntoBytes\<close>), \<open>dec\<close> reads it from a buffer of its size
  (\<open>FromBytes\<close>); \<open>ok\<close> says that the arrays in the value have their declared lengths.
\<close>

locale sized_codec =
  fixes enc :: "'a \<Rightarrow> bytes" and dec :: "bytes \<Rightarrow> 'a" and ok :: "'a \<Rightarrow> bool" and width :: nat
  assumes dec_enc: "ok x \<Longrightarrow> dec (enc x) = x"
    and enc_length: "ok x \<Longrightarrow> length (enc x) = width"
    and enc_dec: "length b = width \<Longrightarrow> enc (dec b) = b"
    and dec_ok: "length b = width \<Longrightarrow> ok (dec b)"
begin

lemma read_exact_iff: "read_exact width dec b = Some x \<longleftrightarrow> ok x \<and> enc x = b"
  by (auto simp: read_exact_def dec_enc enc_length enc_dec dec_ok)

lemma enc_inject: "ok x \<Longrightarrow> ok y \<Longrightarrow> enc x = enc y \<longleftrightarrow> x = y"
  by (metis dec_enc)

end

end
