(* ===== verification/Tss_Types.thy ===== *)
theory Tss_Types
  imports Vtpm_Base
begin

text \<open>
  The types every part of the TSS wrapper (\<open>crates/tss-esapi\<close>) uses: its errors
  (\<open>error.rs\<close>), algorithm identifiers and hash algorithms (\<open>constants/algorithm.rs\<close>,
  \<open>interface_types/algorithm.rs\<close>), size-bounded buffers (\<open>structures/buffers.rs\<close>, \<open>names\<close>) and
  the handles of the TPM and of ESYS (\<open>handles/\<close>).
\<close>

section \<open>Errors\<close>

datatype wrapper_error_kind =
    WrongParamSize | ParamsMissing | InconsistentParams | UnsupportedParam | InvalidParam
  | WrongValueFromTpm | MissingAuthSession | InvalidHandleState | InternalError

text \<open>
  A response code of the TSS is an error when it is not 0; \<open>Tss2ResponseCode\<close> splits it in two
  formats by bit 7.
\<close>

datatype tss2_response_code = Success | FormatZero u32 | FormatOne u32

definition response_code_of :: "u32 \<Rightarrow> tss2_response_code" where
  "response_code_of rc =
     (if rc = 0 then Success else if bit rc 7 then FormatOne rc else FormatZero rc)"

datatype tss_error = WrapperError wrapper_error_kind | Tss2Error tss2_response_code

fun rc_success :: "tss_error \<Rightarrow> bool" where
  "rc_success (Tss2Error rc) = (rc = Success)"
| "rc_success (WrapperError k) = False"

definition from_tss_rc :: "u32 \<Rightarrow> tss_error" where
  "from_tss_rc rc = Tss2Error (response_code_of rc)"

type_synonym 'a tss = "tss_error stop + 'a"

definition local_error :: "wrapper_error_kind \<Rightarrow> 'a tss" where
  "local_error k = Inl (Err (WrapperError k))"

definition check :: "bool \<Rightarrow> wrapper_error_kind \<Rightarrow> unit tss" where
  "check c k = (if c then Inr () else local_error k)"

definition some_or :: "wrapper_error_kind \<Rightarrow> 'a option \<Rightarrow> 'a tss" where
  "some_or k m = (case m of None \<Rightarrow> local_error k | Some x \<Rightarrow> Inr x)"

lemma rc_success_iff: "rc_success (from_tss_rc rc) \<longleftrightarrow> rc = 0"
  by (simp add: from_tss_rc_def response_code_of_def)

lemma check_simps [simp]: "check True k = Inr ()" "check False k = local_error k"
    "check c k = Inr u \<longleftrightarrow> c"
  by (simp_all add: check_def local_error_def)

lemma some_or_simps [simp]: "some_or k None = local_error k" "some_or k (Some x) = Inr x"
    "some_or k m = Inr x \<longleftrightarrow> m = Some x"
  by (simp_all add: some_or_def local_error_def split: option.splits)

lemma local_error_simps [simp]: "local_error k \<noteq> Inr x" "Inr x \<noteq> local_error k" "bnd (local_error k) f = local_error k"
    "local_error k = local_error l \<longleftrightarrow> k = l" "aborts (local_error k) = False"
  by (simp_all add: local_error_def)

lemma aborts_check [simp]: "aborts (check c k) = False" "aborts (some_or k m) = False"
  by (simp_all add: check_def some_or_def split: option.splits)

section \<open>Algorithms\<close>

datatype algorithm_identifier =
    Id_Aes | Id_Camellia | Id_Cbc | Id_Cfb | Id_Ctr | Id_Ecb | Id_Ecc | Id_EcDaa | Id_EcDh |
    Id_EcDsa | Id_EcMqv | Id_EcSchnorr | Id_Error | Id_Hmac | Id_Kdf1Sp800_108 |
    Id_Kdf1Sp800_56a | Id_Kdf2 | Id_KeyedHash | Id_Mgf1 | Id_Null | Id_Oaep | Id_Ofb |
    Id_Rsa | Id_RsaEs | Id_RsaPss | Id_RsaSsa | Id_Sha1 | Id_Sha256 | Id_Sha384 |
    Id_Sha3_256 | Id_Sha3_384 | Id_Sha3_512 | Id_Sha512 | Id_Sm2 | Id_Sm3_256 | Id_Sm4 |
    Id_SymCipher | Id_Tdes | Id_Xor | Id_Cmac

primrec alg_id_u16 :: "algorithm_identifier \<Rightarrow> u16" where
  "alg_id_u16 Id_Aes = 0x0006"
| "alg_id_u16 Id_Camellia = 0x0026"
| "alg_id_u16 Id_Cbc = 0x0042"
| "alg_id_u16 Id_Cfb = 0x0043"
| "alg_id_u16 Id_Ctr = 0x0040"
| "alg_id_u16 Id_Ecb = 0x0044"
| "alg_id_u16 Id_Ecc = 0x0023"
| "alg_id_u16 Id_EcDaa = 0x001A"
| "alg_id_u16 Id_EcDh = 0x0019"
| "alg_id_u16 Id_EcDsa = 0x0018"
| "alg_id_u16 Id_EcMqv = 0x001D"
| "alg_id_u16 Id_EcSchnorr = 0x001C"
| "alg_id_u16 Id_Error = 0x0000"
| "alg_id_u16 Id_Hmac = 0x0005"
| "alg_id_u16 Id_Kdf1Sp800_108 = 0x0022"
| "alg_id_u16 Id_Kdf1Sp800_56a = 0x0020"
| "alg_id_u16 Id_Kdf2 = 0x0021"
| "alg_id_u16 Id_KeyedHash = 0x0008"
| "alg_id_u16 Id_Mgf1 = 0x0007"
| "alg_id_u16 Id_Null = 0x0010"
| "alg_id_u16 Id_Oaep = 0x0017"
| "alg_id_u16 Id_Ofb = 0x0041"
| "alg_id_u16 Id_Rsa = 0x0001"
| "alg_id_u16 Id_RsaEs = 0x0015"
| "alg_id_u16 Id_RsaPss = 0x0016"
| "alg_id_u16 Id_RsaSsa = 0x0014"
| "alg_id_u16 Id_Sha1 = 0x0004"
| "alg_id_u16 Id_Sha256 = 0x000B"
| "alg_id_u16 Id_Sha384 = 0x000C"
| "alg_id_u16 Id_Sha3_256 = 0x0027"
| "alg_id_u16 Id_Sha3_384 = 0x0028"
| "alg_id_u16 Id_Sha3_512 = 0x0029"
| "alg_id_u16 Id_Sha512 = 0x000D"
| "alg_id_u16 Id_Sm2 = 0x001B"
| "alg_id_u16 Id_Sm3_256 = 0x0012"
| "alg_id_u16 Id_Sm4 = 0x0013"
| "alg_id_u16 Id_SymCipher = 0x0025"
| "alg_id_u16 Id_Tdes = 0x0003"
| "alg_id_u16 Id_Xor = 0x000A"
| "alg_id_u16 Id_Cmac = 0x003F"

definition all_alg_ids :: "algorithm_identifier list" where
  "all_alg_ids = [
    Id_Aes, Id_Camellia, Id_Cbc, Id_Cfb, Id_Ctr, Id_Ecb, Id_Ecc, Id_EcDaa, Id_EcDh,
    Id_EcDsa, Id_EcMqv, Id_EcSchnorr, Id_Error, Id_Hmac, Id_Kdf1Sp800_108, Id_Kdf1Sp800_56a,
    Id_Kdf2, Id_KeyedHash, Id_Mgf1, Id_Null, Id_Oaep, Id_Ofb, Id_Rsa, Id_RsaEs, Id_RsaPss,
    Id_RsaSsa, Id_Sha1, Id_Sha256, Id_Sha384, Id_Sha3_256, Id_Sha3_384, Id_Sha3_512,
    Id_Sha512, Id_Sm2, Id_Sm3_256, Id_Sm4, Id_SymCipher, Id_Tdes, Id_Xor, Id_Cmac]"

definition alg_id_try_from :: "u16 \<Rightarrow> algorithm_identifier tss" where
  "alg_id_try_from w = some_or InvalidParam (List.find (\<lambda>a. alg_id_u16 a = w) all_alg_ids)"

datatype hashing_algorithm =
    AlgSha1 | AlgSha256 | AlgSha384 | AlgSha512 | AlgSm3_256 | AlgSha3_256 | AlgSha3_384 | AlgSha3_512 | AlgNull

primrec hash_alg_id :: "hashing_algorithm \<Rightarrow> algorithm_identifier" where
  "hash_alg_id AlgSha1 = Id_Sha1"
| "hash_alg_id AlgSha256 = Id_Sha256"
| "hash_alg_id AlgSha384 = Id_Sha384"
| "hash_alg_id AlgSha512 = Id_Sha512"
| "hash_alg_id AlgSm3_256 = Id_Sm3_256"
| "hash_alg_id AlgSha3_256 = Id_Sha3_256"
| "hash_alg_id AlgSha3_384 = Id_Sha3_384"
| "hash_alg_id AlgSha3_512 = Id_Sha3_512"
| "hash_alg_id AlgNull = Id_Null"

fun hash_alg_of_id :: "algorithm_identifier \<Rightarrow> hashing_algorithm tss" where
  "hash_alg_of_id Id_Sha1 = Inr AlgSha1"
| "hash_alg_of_id Id_Sha256 = Inr AlgSha256"
| "hash_alg_of_id Id_Sha384 = Inr AlgSha384"
| "hash_alg_of_id Id_Sha512 = Inr AlgSha512"
| "hash_alg_of_id Id_Sm3_256 = Inr AlgSm3_256"
| "hash_alg_of_id Id_Sha3_256 = Inr AlgSha3_256"
| "hash_alg_of_id Id_Sha3_384 = Inr AlgSha3_384"
| "hash_alg_of_id Id_Sha3_512 = Inr AlgSha3_512"
| "hash_alg_of_id Id_Null = Inr AlgNull"
| "hash_alg_of_id _ = local_error InvalidParam"

definition hash_alg_u16 :: "hashing_algorithm \<Rightarrow> u16" where
  "hash_alg_u16 h = alg_id_u16 (hash_alg_id h)"

definition hash_alg_try_from :: "u16 \<Rightarrow> hashing_algorithm tss" where
  "hash_alg_try_from w = bnd (alg_id_try_from w) hash_alg_of_id"

lemma alg_id_roundtrip [simp]: "alg_id_try_from (alg_id_u16 a) = Inr a"
  by (cases a) (simp_all add: alg_id_try_from_def all_alg_ids_def)

lemma hash_alg_roundtrip [simp]: "hash_alg_try_from (hash_alg_u16 h) = Inr h"
  by (cases h) (simp_all add: hash_alg_try_from_def hash_alg_u16_def del: alg_id_u16.simps)

lemma alg_id_try_from_iff: "alg_id_try_from w = Inr a \<longleftrightarrow> alg_id_u16 a = w"
proof
  assume "alg_id_try_from w = Inr a"
  then show "alg_id_u16 a = w" by (auto simp: alg_id_try_from_def find_Some_iff)
qed (use alg_id_roundtrip in blast)

lemma hash_alg_try_from_iff: "hash_alg_try_from w = Inr h \<longleftrightarrow> hash_alg_u16 h = w"
proof
  assume "hash_alg_try_from w = Inr h"
  then obtain a where a: "alg_id_u16 a = w" "hash_alg_of_id a = Inr h"
    by (auto simp: hash_alg_try_from_def alg_id_try_from_iff)
  then have "a = hash_alg_id h" by (cases a) auto
  with a show "hash_alg_u16 h = w" by (simp add: hash_alg_u16_def)
qed (use hash_alg_roundtrip in blast)

section \<open>Bounded buffers\<close>

text \<open>
  The buffer types of \<open>structures/buffers.rs\<close> differ in their maximal size; a raw buffer of the
  C library is its size field and its array. The conversion to the C type copies the bytes to
  the front of a zeroed array of the maximal size.
\<close>

definition buffer_try_from :: "nat \<Rightarrow> bytes \<Rightarrow> bytes tss" where
  "buffer_try_from m b = (if length b > m then local_error WrongParamSize else Inr b)"

definition buffer_of_tss :: "nat \<Rightarrow> u16 \<times> bytes \<Rightarrow> bytes tss" where
  "buffer_of_tss m t =
     (if unat (fst t) > m then local_error WrongParamSize
      else index_range (snd t) 0 (unat (fst t)))"

definition buffer_to_tss :: "nat \<Rightarrow> bytes \<Rightarrow> u16 \<times> bytes" where
  "buffer_to_tss m b = (of_nat (length b), pad_to m b)"

definition DIGEST_MAX :: nat where "DIGEST_MAX = 64"
definition DATA_MAX :: nat where "DATA_MAX = 64"
definition MAX_NV_BUFFER :: nat where "MAX_NV_BUFFER = 2048"

lemma buffer_try_from_iff [simp]: "buffer_try_from m b = Inr c \<longleftrightarrow> length b \<le> m \<and> c = b"
  by (auto simp: buffer_try_from_def)

lemma aborts_buffer_try_from [simp]: "aborts (buffer_try_from m b) = False"
  by (simp add: buffer_try_from_def)

lemma buffer_roundtrip:
  assumes "length b \<le> m" and "m < 65536"
  shows "buffer_of_tss m (buffer_to_tss m b) = Inr b"
proof -
  have "unat (of_nat (length b) :: u16) = length b"
    using assms by (simp add: unat_of_nat)
  then show ?thesis using assms by (simp add: buffer_of_tss_def buffer_to_tss_def pad_to_def)
qed

text \<open>A digest as an array (\<open>TryFrom<Digest> for [u8; N]\<close>, for 20, 32, 48 and 64 bytes).\<close>

definition digest_array :: "nat \<Rightarrow> bytes \<Rightarrow> bytes tss" where
  "digest_array n d = (if length d \<noteq> n then local_error WrongParamSize else Inr d)"

end
