(* ===== verification/Tss_Handles.thy ===== *)
theory Tss_Handles
  imports Tss_Types
begin

unbundle bit_operations_syntax

text \<open>
  Handles (\<open>handles/tpm.rs\<close>, \<open>handles/handle.rs\<close>): the TPM's own handles, sorted into kinds by
  their most significant byte and checked against the range of the kind, and the ESYS object
  handles, plain 32-bit values with named constants. Authorisation sessions and roles
  (\<open>interface_types/session_handles.rs\<close>, \<open>resource_handles.rs\<close>) come down to ESYS handles.
\<close>

section \<open>TPM handles\<close>

datatype handle_kind =
    KPcr | KNvIndex | KHmacSession | KLoadedSession | KPolicySession | KSavedSession
  | KPermanent | KTransient | KPersistent | KAttachedComponent

primrec kind_id :: "handle_kind \<Rightarrow> u8" where
  "kind_id KPcr = 0x00"
| "kind_id KNvIndex = 0x01"
| "kind_id KHmacSession = 0x02"
| "kind_id KLoadedSession = 0x02"
| "kind_id KPolicySession = 0x03"
| "kind_id KSavedSession = 0x03"
| "kind_id KPermanent = 0x40"
| "kind_id KTransient = 0x80"
| "kind_id KPersistent = 0x81"
| "kind_id KAttachedComponent = 0x90"

definition handle_base :: "u8 \<Rightarrow> u32" where
  "handle_base t = push_bit 24 (ucast t)"

primrec kind_first :: "handle_kind \<Rightarrow> u32" where
  "kind_first KPcr = handle_base 0x00"
| "kind_first KNvIndex = handle_base 0x01"
| "kind_first KHmacSession = handle_base 0x02"
| "kind_first KLoadedSession = handle_base 0x02"
| "kind_first KPolicySession = handle_base 0x03"
| "kind_first KSavedSession = handle_base 0x03"
| "kind_first KPermanent = 0x40000000"
| "kind_first KTransient = handle_base 0x80"
| "kind_first KPersistent = handle_base 0x81"
| "kind_first KAttachedComponent = handle_base 0x90"

primrec kind_last :: "handle_kind \<Rightarrow> u32" where
  "kind_last KPcr = kind_first KPcr + 32 - 1"
| "kind_last KNvIndex = kind_first KNvIndex + 0x00FFFFFF"
| "kind_last KHmacSession = kind_first KHmacSession + 0x00fffffe"
| "kind_last KLoadedSession = kind_first KHmacSession + 0x00fffffe"
| "kind_last KPolicySession = kind_first KPolicySession + 0x00fffffe"
| "kind_last KSavedSession = kind_first KPolicySession + 0x00fffffe"
| "kind_last KPermanent = 0x4000010F"
| "kind_last KTransient = kind_first KTransient + 0x00fffffe"
| "kind_last KPersistent = kind_first KPersistent + 0x00FFFFFF"
| "kind_last KAttachedComponent = kind_first KAttachedComponent + 0x0000FFFF"

definition msb_byte :: "u32 \<Rightarrow> u8" where
  "msb_byte w = ucast (drop_bit 24 w)"

text \<open>\<open>new\<close> of a specific handle type: the type byte, then the half-open range.\<close>

definition handle_new :: "handle_kind \<Rightarrow> u32 \<Rightarrow> u32 tss" where
  "handle_new k v =
     (if msb_byte v \<noteq> kind_id k then local_error InvalidParam
      else if \<not> (kind_first k \<le> v \<and> v < kind_last k + 1) then local_error InvalidParam
      else Inr v)"

datatype tpm_handle =
    Pcr_Handle u32 | NvIndex_Handle u32 | HmacSession_Handle u32 | LoadedSession_Handle u32
  | PolicySession_Handle u32 | SavedSession_Handle u32 | Permanent_Handle u32
  | Transient_Handle u32 | Persistent_Handle u32 | AttachedComponent_Handle u32

fun may_be_flushed :: "tpm_handle \<Rightarrow> bool" where
  "may_be_flushed (HmacSession_Handle v) = True"
| "may_be_flushed (LoadedSession_Handle v) = True"
| "may_be_flushed (Transient_Handle v) = True"
| "may_be_flushed _ = False"

primrec tpm_handle_u32 :: "tpm_handle \<Rightarrow> u32" where
  "tpm_handle_u32 (Pcr_Handle v) = v"
| "tpm_handle_u32 (NvIndex_Handle v) = v"
| "tpm_handle_u32 (HmacSession_Handle v) = v"
| "tpm_handle_u32 (LoadedSession_Handle v) = v"
| "tpm_handle_u32 (PolicySession_Handle v) = v"
| "tpm_handle_u32 (SavedSession_Handle v) = v"
| "tpm_handle_u32 (Permanent_Handle v) = v"
| "tpm_handle_u32 (Transient_Handle v) = v"
| "tpm_handle_u32 (Persistent_Handle v) = v"
| "tpm_handle_u32 (AttachedComponent_Handle v) = v"

definition tpm_handle_try_from :: "u32 \<Rightarrow> tpm_handle tss" where
  "tpm_handle_try_from w =
     (let b = msb_byte w in
      if b = kind_id KPcr then map_ok Pcr_Handle (handle_new KPcr w)
      else if b = kind_id KNvIndex then map_ok NvIndex_Handle (handle_new KNvIndex w)
      else if b = kind_id KHmacSession then map_ok HmacSession_Handle (handle_new KHmacSession w)
      else if b = kind_id KPolicySession then map_ok PolicySession_Handle (handle_new KPolicySession w)
      else if b = kind_id KPermanent then map_ok Permanent_Handle (handle_new KPermanent w)
      else if b = kind_id KTransient then map_ok Transient_Handle (handle_new KTransient w)
      else if b = kind_id KPersistent then map_ok Persistent_Handle (handle_new KPersistent w)
      else if b = kind_id KAttachedComponent
        then map_ok AttachedComponent_Handle (handle_new KAttachedComponent w)
      else local_error InvalidParam)"

lemma handle_new_eq: "handle_new k v = Inr w \<longleftrightarrow>
    w = v \<and> msb_byte v = kind_id k \<and> kind_first k \<le> v \<and> v < kind_last k + 1"
  by (auto simp: handle_new_def)

text \<open>The conversion keeps the value; a specific handle read back from it is in its range.\<close>

lemma tpm_handle_try_from_u32: "tpm_handle_try_from w = Inr h \<Longrightarrow> tpm_handle_u32 h = w"
  by (auto simp: tpm_handle_try_from_def Let_def handle_new_eq split: if_splits)

lemma msb_byte_test: "msb_byte 0x81000003 = 0x81" "msb_byte 0x01400001 = 0x01"
  by (simp_all add: msb_byte_def)

section \<open>ESYS handles\<close>

type_synonym object_handle = u32

definition ESYS_TR_NONE :: object_handle where "ESYS_TR_NONE = 4095"
definition ESYS_TR_PASSWORD :: object_handle where "ESYS_TR_PASSWORD = 255"
definition ESYS_TR_RH_OWNER :: object_handle where "ESYS_TR_RH_OWNER = 257"
definition ESYS_TR_RH_NULL :: object_handle where "ESYS_TR_RH_NULL = 263"
definition ESYS_TR_RH_PLATFORM :: object_handle where "ESYS_TR_RH_PLATFORM = 268"

definition try_into_not_none :: "object_handle \<Rightarrow> object_handle tss" where
  "try_into_not_none h = (if h \<noteq> ESYS_TR_NONE then Inr h else local_error InvalidParam)"

datatype pcr_handle =
    Pcr0 | Pcr1 | Pcr2 | Pcr3 | Pcr4 | Pcr5 | Pcr6 | Pcr7 | Pcr8 | Pcr9 | Pcr10 | Pcr11 |
    Pcr12 | Pcr13 | Pcr14 | Pcr15 | Pcr16 | Pcr17 | Pcr18 | Pcr19 | Pcr20 | Pcr21 | Pcr22 |
    Pcr23 | Pcr24 | Pcr25 | Pcr26 | Pcr27 | Pcr28 | Pcr29 | Pcr30 | Pcr31

primrec pcr_handle_esys :: "pcr_handle \<Rightarrow> object_handle" where
  "pcr_handle_esys Pcr0 = 0"
| "pcr_handle_esys Pcr1 = 1"
| "pcr_handle_esys Pcr2 = 2"
| "pcr_handle_esys Pcr3 = 3"
| "pcr_handle_esys Pcr4 = 4"
| "pcr_handle_esys Pcr5 = 5"
| "pcr_handle_esys Pcr6 = 6"
| "pcr_handle_esys Pcr7 = 7"
| "pcr_handle_esys Pcr8 = 8"
| "pcr_handle_esys Pcr9 = 9"
| "pcr_handle_esys Pcr10 = 10"
| "pcr_handle_esys Pcr11 = 11"
| "pcr_handle_esys Pcr12 = 12"
| "pcr_handle_esys Pcr13 = 13"
| "pcr_handle_esys Pcr14 = 14"
| "pcr_handle_esys Pcr15 = 15"
| "pcr_handle_esys Pcr16 = 16"
| "pcr_handle_esys Pcr17 = 17"
| "pcr_handle_esys Pcr18 = 18"
| "pcr_handle_esys Pcr19 = 19"
| "pcr_handle_esys Pcr20 = 20"
| "pcr_handle_esys Pcr21 = 21"
| "pcr_handle_esys Pcr22 = 22"
| "pcr_handle_esys Pcr23 = 23"
| "pcr_handle_esys Pcr24 = 24"
| "pcr_handle_esys Pcr25 = 25"
| "pcr_handle_esys Pcr26 = 26"
| "pcr_handle_esys Pcr27 = 27"
| "pcr_handle_esys Pcr28 = 28"
| "pcr_handle_esys Pcr29 = 29"
| "pcr_handle_esys Pcr30 = 30"
| "pcr_handle_esys Pcr31 = 31"

section \<open>Sessions and roles\<close>

datatype session_type = Hmac | Policy | Trial

datatype auth_session =
    HmacSession hashing_algorithm object_handle
  | PolicySession hashing_algorithm object_handle session_type
  | Password

definition auth_session_create ::
  "session_type \<Rightarrow> object_handle \<Rightarrow> hashing_algorithm \<Rightarrow> auth_session option" where
  "auth_session_create t h alg =
     (if h \<noteq> ESYS_TR_NONE
      then Some (case t of
          Hmac \<Rightarrow> HmacSession alg h
        | Policy \<Rightarrow> PolicySession alg h t
        | Trial \<Rightarrow> PolicySession alg h t)
      else None)"

primrec session_esys :: "auth_session \<Rightarrow> object_handle" where
  "session_esys (HmacSession alg h) = h"
| "session_esys (PolicySession alg h t) = h"
| "session_esys Password = ESYS_TR_PASSWORD"

text \<open>\<open>From<Option<AuthSession>> for SessionHandle\<close>.\<close>

definition opt_session_esys :: "auth_session option \<Rightarrow> object_handle" where
  "opt_session_esys s = (case s of None \<Rightarrow> ESYS_TR_NONE | Some a \<Rightarrow> session_esys a)"

datatype provision = ProvisionOwner | ProvisionPlatform

primrec provision_esys :: "provision \<Rightarrow> object_handle" where
  "provision_esys ProvisionOwner = ESYS_TR_RH_OWNER"
| "provision_esys ProvisionPlatform = ESYS_TR_RH_PLATFORM"

definition provision_try_from :: "object_handle \<Rightarrow> provision tss" where
  "provision_try_from h =
     (if h = ESYS_TR_RH_OWNER then Inr ProvisionOwner
      else if h = ESYS_TR_RH_PLATFORM then Inr ProvisionPlatform
      else local_error InvalidParam)"

datatype nv_auth = NvAuthPlatform | NvAuthOwner | NvAuthIndex object_handle

primrec nv_auth_esys :: "nv_auth \<Rightarrow> object_handle" where
  "nv_auth_esys NvAuthPlatform = ESYS_TR_RH_PLATFORM"
| "nv_auth_esys NvAuthOwner = ESYS_TR_RH_OWNER"
| "nv_auth_esys (NvAuthIndex h) = h"

lemma auth_session_create_esys:
  "auth_session_create t h alg = Some s \<Longrightarrow> session_esys s = h"
  by (auto simp: auth_session_create_def split: if_splits session_type.splits)

end
