(* ===== verification/Tss_Nv_Public.thy ===== *)
theory Tss_Nv_Public
  imports Tss_Handles
begin

unbundle bit_operations_syntax

text \<open>
  The public area of a non-volatile index: its attributes, a 32-bit field with checks on their
  combination (\<open>attributes/nv_index.rs\<close>, \<open>constants/nv_index_type.rs\<close>), and the area itself with
  its builder and its conversions to and from the C structure (\<open>structures/nv/storage/public.rs\<close>).
\<close>

section \<open>Index types\<close>

datatype nv_index_type = Ordinary | Counter | Bits | Extend | PinFail | PinPass

primrec nv_index_type_nt :: "nv_index_type \<Rightarrow> nat" where
  "nv_index_type_nt Ordinary = 0"
| "nv_index_type_nt Counter = 1"
| "nv_index_type_nt Bits = 2"
| "nv_index_type_nt Extend = 4"
| "nv_index_type_nt PinFail = 8"
| "nv_index_type_nt PinPass = 9"

definition nv_index_type_try_from :: "nat \<Rightarrow> nv_index_type tss" where
  "nv_index_type_try_from n =
     (if n = 0 then Inr Ordinary
      else if n = 1 then Inr Counter
      else if n = 2 then Inr Bits
      else if n = 4 then Inr Extend
      else if n = 8 then Inr PinFail
      else if n = 9 then Inr PinPass
      else local_error InvalidParam)"

lemma nv_index_type_iff: "nv_index_type_try_from n = Inr t \<longleftrightarrow> nv_index_type_nt t = n"
  by (cases t) (auto simp: nv_index_type_try_from_def)

section \<open>Attributes\<close>

datatype nv_flag =
    PpWrite | OwnerWrite | AuthWrite | PolicyWrite | PolicyDelete | WriteLocked | WriteAll
  | WriteDefine | WriteStclear | GlobalLock | PpRead | OwnerRead | AuthRead | PolicyRead
  | NoDa | Orderly | ClearStclear | ReadLocked | Written | PlatformCreate | ReadStclear

primrec nv_flag_bit :: "nv_flag \<Rightarrow> nat" where
  "nv_flag_bit PpWrite = 0"
| "nv_flag_bit OwnerWrite = 1"
| "nv_flag_bit AuthWrite = 2"
| "nv_flag_bit PolicyWrite = 3"
| "nv_flag_bit PolicyDelete = 10"
| "nv_flag_bit WriteLocked = 11"
| "nv_flag_bit WriteAll = 12"
| "nv_flag_bit WriteDefine = 13"
| "nv_flag_bit WriteStclear = 14"
| "nv_flag_bit GlobalLock = 15"
| "nv_flag_bit PpRead = 16"
| "nv_flag_bit OwnerRead = 17"
| "nv_flag_bit AuthRead = 18"
| "nv_flag_bit PolicyRead = 19"
| "nv_flag_bit NoDa = 25"
| "nv_flag_bit Orderly = 26"
| "nv_flag_bit ClearStclear = 27"
| "nv_flag_bit ReadLocked = 28"
| "nv_flag_bit Written = 29"
| "nv_flag_bit PlatformCreate = 30"
| "nv_flag_bit ReadStclear = 31"

definition nv_attr :: "u32 \<Rightarrow> nv_flag \<Rightarrow> bool" where
  "nv_attr a f = bit a (nv_flag_bit f)"

definition with_nv_attr :: "u32 \<Rightarrow> nv_flag \<Rightarrow> bool \<Rightarrow> u32" where
  "with_nv_attr a f b = (if b then set_bit (nv_flag_bit f) a else unset_bit (nv_flag_bit f) a)"

text \<open>The index type sits in bits 7 to 4.\<close>

definition tss_index_type :: "u32 \<Rightarrow> nat" where
  "tss_index_type a = unat (take_bit 4 (drop_bit 4 a))"

definition with_nv_index_type :: "u32 \<Rightarrow> nv_index_type \<Rightarrow> u32" where
  "with_nv_index_type a t = (a AND NOT 0xF0) OR push_bit 4 (of_nat (nv_index_type_nt t))"

definition nv_index_type_of :: "u32 \<Rightarrow> nv_index_type tss" where
  "nv_index_type_of a = nv_index_type_try_from (tss_index_type a)"

definition nv_attributes_validate :: "u32 \<Rightarrow> unit tss" where
  "nv_attributes_validate a =
     (if \<not> (nv_attr a PpRead \<or> nv_attr a OwnerRead \<or> nv_attr a AuthRead \<or> nv_attr a PolicyRead)
      then local_error ParamsMissing
      else if \<not> (nv_attr a PpWrite \<or> nv_attr a OwnerWrite \<or> nv_attr a AuthWrite \<or> nv_attr a PolicyWrite)
      then local_error ParamsMissing
      else bnd (nv_index_type_of a) (\<lambda>t.
        if t = PinFail \<and> \<not> nv_attr a NoDa then local_error ParamsMissing else Inr ()))"

definition nv_attributes_try_from :: "u32 \<Rightarrow> u32 tss" where
  "nv_attributes_try_from a = bnd (nv_attributes_validate a) (\<lambda>_. Inr a)"

definition nv_attributes_to_tss :: "u32 \<Rightarrow> u32 tss" where
  "nv_attributes_to_tss a = bnd (nv_attributes_validate a) (\<lambda>_. Inr a)"

definition nv_attributes_build :: "u32 \<Rightarrow> u32 tss" where
  "nv_attributes_build a = bnd (nv_attributes_validate a) (\<lambda>_. Inr a)"

lemma nv_flag_bit_less: "nv_flag_bit f < 32"
  by (cases f) simp_all

lemma nv_flag_bit_inject: "nv_flag_bit f = nv_flag_bit g \<longleftrightarrow> f = g"
  by (cases f; cases g) simp_all

text \<open>A setter changes its own attribute, and no other, nor the index type.\<close>

lemma with_nv_attr_get: "nv_attr (with_nv_attr a f b) g = (if g = f then b else nv_attr a g)"
  using nv_flag_bit_less [of f] by (auto simp: nv_attr_def with_nv_attr_def bit_simps nv_flag_bit_inject)

lemma nv_flag_bit_outside_type: "nv_flag_bit f < 4 \<or> 8 \<le> nv_flag_bit f"
  by (cases f) simp_all

lemma with_nv_attr_index_type: "tss_index_type (with_nv_attr a f b) = tss_index_type a"
proof -
  have "take_bit 4 (drop_bit 4 (with_nv_attr a f b)) = take_bit 4 (drop_bit 4 a)"
    using nv_flag_bit_outside_type [of f]
    by (intro bit_eqI) (auto simp: with_nv_attr_def bit_simps)
  then show ?thesis by (simp add: tss_index_type_def)
qed

lemma with_nv_index_type_get: "nv_index_type_of (with_nv_index_type a t) = Inr t"
proof -
  have "take_bit 4 (drop_bit 4 (with_nv_index_type a t)) = of_nat (nv_index_type_nt t)"
  proof (rule bit_eqI)
    fix n
    have "bit (0xF0 :: u32) (4 + n) \<longleftrightarrow> n < 4" if "n < 4"
    proof -
      have "n \<in> {0, 1, 2, 3}" using that by auto
      then show ?thesis by auto
    qed
    moreover have "\<not> bit (of_nat (nv_index_type_nt t) :: u32) n" if "4 \<le> n"
    proof -
      have "take_bit 4 (of_nat (nv_index_type_nt t) :: u32) = of_nat (nv_index_type_nt t)"
        by (cases t) simp_all
      then show ?thesis using that by (metis bit_take_bit_iff not_le)
    qed
    ultimately show "bit (take_bit 4 (drop_bit 4 (with_nv_index_type a t))) n
        = bit (of_nat (nv_index_type_nt t) :: u32) n"
      by (cases "n < 4") (auto simp: with_nv_index_type_def bit_simps)
  qed
  then have "tss_index_type (with_nv_index_type a t) = nv_index_type_nt t"
    by (cases t) (simp_all add: tss_index_type_def)
  then show ?thesis by (simp add: nv_index_type_of_def nv_index_type_iff)
qed

section \<open>The public area\<close>

record nv_public =
  nv_index :: u32
  name_algorithm :: hashing_algorithm
  nv_attributes :: u32
  authorization_policy :: bytes
  nv_data_size :: nat

text \<open>\<open>TPM2B_NV_PUBLIC\<close>.\<close>

record tpm2b_nv_public =
  raw_nv_size :: u16
  raw_nv_index :: u32
  raw_name_alg :: u16
  raw_attributes :: u32
  raw_auth_policy :: "u16 \<times> bytes"
  raw_data_size :: u16

text \<open>\<open>size_of::<TPMS_NV_PUBLIC>()\<close>: 4 + 2 (+2) + 4 + 66 + 2 bytes.\<close>

definition NV_PUBLIC_MAX :: nat where "NV_PUBLIC_MAX = 80"

definition nv_public_try_from :: "tpm2b_nv_public \<Rightarrow> nv_public tss" where
  "nv_public_try_from t =
     (if unat (raw_nv_size t) > NV_PUBLIC_MAX then local_error WrongParamSize
      else bnd (handle_new KNvIndex (raw_nv_index t)) (\<lambda>i.
           bnd (hash_alg_try_from (raw_name_alg t)) (\<lambda>h.
           bnd (nv_attributes_try_from (raw_attributes t)) (\<lambda>a.
           bnd (buffer_of_tss DIGEST_MAX (raw_auth_policy t)) (\<lambda>p.
           Inr \<lparr> nv_index = i, name_algorithm = h, nv_attributes = a,
                 authorization_policy = p, nv_data_size = unat (raw_data_size t) \<rparr>)))))"

definition nv_public_to_tss :: "nv_public \<Rightarrow> tpm2b_nv_public tss" where
  "nv_public_to_tss p =
     bnd (nv_attributes_to_tss (nv_attributes p)) (\<lambda>a.
     Inr \<lparr> raw_nv_size = 0, raw_nv_index = nv_index p,
           raw_name_alg = hash_alg_u16 (name_algorithm p), raw_attributes = a,
           raw_auth_policy = buffer_to_tss DIGEST_MAX (authorization_policy p),
           raw_data_size = of_nat (nv_data_size p) \<rparr>)"

record nv_public_builder =
  b_nv_index :: "u32 option"
  b_name_algorithm :: "hashing_algorithm option"
  b_attributes :: "u32 option"
  b_authorization_policy :: "bytes option"
  b_data_size :: "nat option"

definition nv_public_builder_new :: nv_public_builder where
  "nv_public_builder_new = \<lparr> b_nv_index = None, b_name_algorithm = None, b_attributes = None,
     b_authorization_policy = None, b_data_size = None \<rparr>"

definition nv_public_build :: "nv_public_builder \<Rightarrow> nv_public tss" where
  "nv_public_build b =
     bnd (some_or ParamsMissing (b_nv_index b)) (\<lambda>i.
     bnd (some_or ParamsMissing (b_name_algorithm b)) (\<lambda>h.
     bnd (some_or ParamsMissing (b_attributes b)) (\<lambda>a.
     bnd (bnd (some_or ParamsMissing (b_data_size b)) (\<lambda>v.
            if v > 65535 then local_error InvalidParam else Inr v)) (\<lambda>n.
     Inr \<lparr> nv_index = i, name_algorithm = h, nv_attributes = a,
           authorization_policy = (case b_authorization_policy b of None \<Rightarrow> [] | Some p \<Rightarrow> p),
           nv_data_size = n \<rparr>))))"

definition nv_public_wf :: "nv_public \<Rightarrow> bool" where
  "nv_public_wf p \<longleftrightarrow> handle_new KNvIndex (nv_index p) = Inr (nv_index p)
     \<and> nv_attributes_validate (nv_attributes p) = Inr ()
     \<and> length (authorization_policy p) \<le> DIGEST_MAX \<and> nv_data_size p < 65536"

lemma nv_public_roundtrip:
  assumes "nv_public_wf p"
  shows "bnd (nv_public_to_tss p) nv_public_try_from = Inr p"
proof -
  have "unat (of_nat (nv_data_size p) :: u16) = nv_data_size p"
    using assms by (simp add: nv_public_wf_def unat_of_nat)
  moreover have "buffer_of_tss DIGEST_MAX (buffer_to_tss DIGEST_MAX (authorization_policy p))
      = Inr (authorization_policy p)"
    using assms by (intro buffer_roundtrip) (simp_all add: nv_public_wf_def DIGEST_MAX_def)
  ultimately show ?thesis
    using assms by (simp add: nv_public_wf_def nv_public_to_tss_def nv_public_try_from_def
        nv_attributes_to_tss_def nv_attributes_try_from_def)
qed

lemma nv_public_try_from_size: "nv_public_try_from t = Inr p \<Longrightarrow> nv_data_size p < 65536"
  using unsigned_less [of "raw_data_size t", where 'a = nat]
  by (auto simp: nv_public_try_from_def split: if_splits)

end
