(* ===== verification/Tss_Slots.thy ===== *)
theory Tss_Slots
  imports Tss_Types
begin

unbundle bit_operations_syntax

text \<open>
  PCR slots and sets of them (\<open>structures/pcr/\<close>): a slot is one bit of 32, a collection a mask
  together with the number of octets it is sent in. Each operation on masks is shown to be the
  operation on the sets of slots they stand for.
\<close>

section \<open>Slots\<close>

datatype pcr_slot =
    Slot0 | Slot1 | Slot2 | Slot3 | Slot4 | Slot5 | Slot6 | Slot7 | Slot8 | Slot9 | Slot10 |
    Slot11 | Slot12 | Slot13 | Slot14 | Slot15 | Slot16 | Slot17 | Slot18 | Slot19 | Slot20
    | Slot21 | Slot22 | Slot23 | Slot24 | Slot25 | Slot26 | Slot27 | Slot28 | Slot29 |
    Slot30 | Slot31

primrec pcr_slot_u32 :: "pcr_slot \<Rightarrow> u32" where
  "pcr_slot_u32 Slot0 = 0x00000001"
| "pcr_slot_u32 Slot1 = 0x00000002"
| "pcr_slot_u32 Slot2 = 0x00000004"
| "pcr_slot_u32 Slot3 = 0x00000008"
| "pcr_slot_u32 Slot4 = 0x00000010"
| "pcr_slot_u32 Slot5 = 0x00000020"
| "pcr_slot_u32 Slot6 = 0x00000040"
| "pcr_slot_u32 Slot7 = 0x00000080"
| "pcr_slot_u32 Slot8 = 0x00000100"
| "pcr_slot_u32 Slot9 = 0x00000200"
| "pcr_slot_u32 Slot10 = 0x00000400"
| "pcr_slot_u32 Slot11 = 0x00000800"
| "pcr_slot_u32 Slot12 = 0x00001000"
| "pcr_slot_u32 Slot13 = 0x00002000"
| "pcr_slot_u32 Slot14 = 0x00004000"
| "pcr_slot_u32 Slot15 = 0x00008000"
| "pcr_slot_u32 Slot16 = 0x00010000"
| "pcr_slot_u32 Slot17 = 0x00020000"
| "pcr_slot_u32 Slot18 = 0x00040000"
| "pcr_slot_u32 Slot19 = 0x00080000"
| "pcr_slot_u32 Slot20 = 0x00100000"
| "pcr_slot_u32 Slot21 = 0x00200000"
| "pcr_slot_u32 Slot22 = 0x00400000"
| "pcr_slot_u32 Slot23 = 0x00800000"
| "pcr_slot_u32 Slot24 = 0x01000000"
| "pcr_slot_u32 Slot25 = 0x02000000"
| "pcr_slot_u32 Slot26 = 0x04000000"
| "pcr_slot_u32 Slot27 = 0x08000000"
| "pcr_slot_u32 Slot28 = 0x10000000"
| "pcr_slot_u32 Slot29 = 0x20000000"
| "pcr_slot_u32 Slot30 = 0x40000000"
| "pcr_slot_u32 Slot31 = 0x80000000"

definition all_slots :: "pcr_slot list" where
  "all_slots = [
    Slot0, Slot1, Slot2, Slot3, Slot4, Slot5, Slot6, Slot7, Slot8, Slot9, Slot10, Slot11,
    Slot12, Slot13, Slot14, Slot15, Slot16, Slot17, Slot18, Slot19, Slot20, Slot21, Slot22,
    Slot23, Slot24, Slot25, Slot26, Slot27, Slot28, Slot29, Slot30, Slot31]"

definition pcr_slot_try_from :: "u32 \<Rightarrow> pcr_slot tss" where
  "pcr_slot_try_from w = some_or InvalidParam (List.find (\<lambda>s. pcr_slot_u32 s = w) all_slots)"

definition pcr_slot_octets :: "pcr_slot \<Rightarrow> bytes" where
  "pcr_slot_octets s = u32_le (pcr_slot_u32 s)"

definition pcr_slot_of_octets :: "bytes \<Rightarrow> pcr_slot tss" where
  "pcr_slot_of_octets b = pcr_slot_try_from (le_u32 b)"

text \<open>The position of a slot's bit.\<close>

primrec slot_index :: "pcr_slot \<Rightarrow> nat" where
  "slot_index Slot0 = 0"
| "slot_index Slot1 = 1"
| "slot_index Slot2 = 2"
| "slot_index Slot3 = 3"
| "slot_index Slot4 = 4"
| "slot_index Slot5 = 5"
| "slot_index Slot6 = 6"
| "slot_index Slot7 = 7"
| "slot_index Slot8 = 8"
| "slot_index Slot9 = 9"
| "slot_index Slot10 = 10"
| "slot_index Slot11 = 11"
| "slot_index Slot12 = 12"
| "slot_index Slot13 = 13"
| "slot_index Slot14 = 14"
| "slot_index Slot15 = 15"
| "slot_index Slot16 = 16"
| "slot_index Slot17 = 17"
| "slot_index Slot18 = 18"
| "slot_index Slot19 = 19"
| "slot_index Slot20 = 20"
| "slot_index Slot21 = 21"
| "slot_index Slot22 = 22"
| "slot_index Slot23 = 23"
| "slot_index Slot24 = 24"
| "slot_index Slot25 = 25"
| "slot_index Slot26 = 26"
| "slot_index Slot27 = 27"
| "slot_index Slot28 = 28"
| "slot_index Slot29 = 29"
| "slot_index Slot30 = 30"
| "slot_index Slot31 = 31"

lemma slot_index_less [simp]: "slot_index s < 32"
  by (cases s) simp_all

lemma all_slots_nth: "all_slots ! slot_index s = s"
  by (cases s) (simp_all add: all_slots_def)

lemma all_slots_length [simp]: "length all_slots = 32"
  by (simp add: all_slots_def)

lemma set_all_slots [simp]: "s \<in> set all_slots"
  by (metis all_slots_nth all_slots_length slot_index_less nth_mem)

lemma slot_index_inject [simp]: "slot_index s = slot_index t \<longleftrightarrow> s = t"
  by (metis all_slots_nth)

lemma map_slot_index: "map slot_index all_slots = [0..<32]"
  by code_simp

lemma pcr_slot_u32_push: "pcr_slot_u32 s = push_bit (slot_index s) 1"
  by (cases s) simp_all

lemma bit_slot: "bit (pcr_slot_u32 s) n \<longleftrightarrow> n = slot_index s"
  using slot_index_less [of s] by (auto simp: pcr_slot_u32_push bit_simps)

lemma pcr_slot_u32_inject [simp]: "pcr_slot_u32 s = pcr_slot_u32 t \<longleftrightarrow> s = t"
  by (metis bit_slot slot_index_inject)

lemma find_inj: "(\<And>x y. f x = f y \<longleftrightarrow> x = y) \<Longrightarrow> s \<in> set xs \<Longrightarrow> List.find (\<lambda>x. f x = f s) xs = Some s"
  by (induction xs) auto

lemma pcr_slot_roundtrip: "pcr_slot_try_from (pcr_slot_u32 s) = Inr s"
  by (simp add: pcr_slot_try_from_def find_inj [where f = "\<lambda>x. x"])

lemma pcr_slot_octets_roundtrip: "pcr_slot_of_octets (pcr_slot_octets s) = Inr s"
  by (simp add: pcr_slot_of_octets_def pcr_slot_octets_def le32.dec_enc pcr_slot_roundtrip)

text \<open>Slots are ordered by their discriminants.\<close>

instantiation pcr_slot :: linorder
begin

definition less_eq_pcr_slot :: "pcr_slot \<Rightarrow> pcr_slot \<Rightarrow> bool" where
  "less_eq_pcr_slot s t \<longleftrightarrow> slot_index s \<le> slot_index t"

definition less_pcr_slot :: "pcr_slot \<Rightarrow> pcr_slot \<Rightarrow> bool" where
  "less_pcr_slot s t \<longleftrightarrow> slot_index s < slot_index t"

instance
  by standard (auto simp: less_eq_pcr_slot_def less_pcr_slot_def)

end

lemma sorted_all_slots: "sorted_wrt (<) all_slots"
proof -
  have "sorted_wrt (<) (map slot_index all_slots)"
    by (simp add: map_slot_index)
  then show ?thesis by (simp add: sorted_wrt_map less_pcr_slot_def [abs_def])
qed

lemma distinct_all_slots [simp]: "distinct all_slots"
  using sorted_all_slots by (simp add: strict_sorted_iff)

section \<open>Sizes of a selection\<close>

datatype pcr_select_size = OneOctet | TwoOctets | ThreeOctets | FourOctets

primrec select_size_nat :: "pcr_select_size \<Rightarrow> nat" where
  "select_size_nat OneOctet = 1"
| "select_size_nat TwoOctets = 2"
| "select_size_nat ThreeOctets = 3"
| "select_size_nat FourOctets = 4"

definition TPM2_PCR_SELECT_MAX :: nat where "TPM2_PCR_SELECT_MAX = 4"

definition select_size_parse :: "nat \<Rightarrow> pcr_select_size tss" where
  "select_size_parse v = some_or InvalidParam
     (List.find (\<lambda>z. select_size_nat z = v) [OneOctet, TwoOctets, ThreeOctets, FourOctets])"

definition select_size_default :: pcr_select_size where
  "select_size_default =
     (if TPM2_PCR_SELECT_MAX = 1 then OneOctet
      else if TPM2_PCR_SELECT_MAX = 2 then TwoOctets
      else ThreeOctets)"

definition select_size_try_from :: "u8 \<Rightarrow> pcr_select_size tss" where
  "select_size_try_from v =
     (if unat v > TPM2_PCR_SELECT_MAX then local_error InvalidParam
      else select_size_parse (unat v))"

definition select_size_to_u8 :: "pcr_select_size \<Rightarrow> u8 tss" where
  "select_size_to_u8 z =
     (if select_size_nat z > TPM2_PCR_SELECT_MAX then local_error InvalidParam
      else Inr (of_nat (select_size_nat z)))"

lemma select_size_bounds: "1 \<le> select_size_nat z" "select_size_nat z \<le> 4"
  by (cases z; simp)+

lemma select_size_roundtrip:
  "select_size_to_u8 z = Inr (of_nat (select_size_nat z))"
  "select_size_try_from (of_nat (select_size_nat z)) = Inr z"
  by (cases z; simp add: select_size_to_u8_def select_size_try_from_def select_size_parse_def
      TPM2_PCR_SELECT_MAX_def)+

section \<open>Collections\<close>

record pcr_slot_collection =
  pcr_select_size :: pcr_select_size
  pcr_slots :: u32

text \<open>
  \<open>BitFlags\<close> of \<open>enumflags2\<close>: a mask, in which a flag or another mask is contained when all its
  bits are; iterating it yields its flags from the lowest bit up.
\<close>

definition flags_contain :: "u32 \<Rightarrow> u32 \<Rightarrow> bool" where
  "flags_contain m x \<longleftrightarrow> m AND x = x"

definition flags_intersect :: "u32 \<Rightarrow> u32 \<Rightarrow> bool" where
  "flags_intersect m x \<longleftrightarrow> m AND x \<noteq> 0"

definition flags_remove :: "u32 \<Rightarrow> u32 \<Rightarrow> u32" where
  "flags_remove m x = m AND NOT x"

definition flags_of :: "pcr_slot list \<Rightarrow> u32" where
  "flags_of ss = foldr (\<lambda>s m. pcr_slot_u32 s OR m) ss 0"

definition flags_list :: "u32 \<Rightarrow> pcr_slot list" where
  "flags_list m = filter (\<lambda>s. flags_contain m (pcr_slot_u32 s)) all_slots"

primrec calculate_max_pcr_slots_value :: "pcr_select_size \<Rightarrow> u32" where
  "calculate_max_pcr_slots_value OneOctet = 0x000000FF"
| "calculate_max_pcr_slots_value TwoOctets = 0x0000FFFF"
| "calculate_max_pcr_slots_value ThreeOctets = 0x00FFFFFF"
| "calculate_max_pcr_slots_value FourOctets = 0xFFFFFFFF"

definition collection_validate :: "pcr_select_size \<Rightarrow> pcr_slot list \<Rightarrow> unit tss" where
  "collection_validate z ss =
     bnd (select_size_to_u8 z) (\<lambda>n.
     if \<exists>s \<in> set ss. pcr_slot_u32 s > calculate_max_pcr_slots_value z
     then local_error InconsistentParams else Inr ())"

definition collection_create :: "pcr_select_size \<Rightarrow> pcr_slot list \<Rightarrow> pcr_slot_collection tss" where
  "collection_create z ss =
     bnd (collection_validate z ss) (\<lambda>_.
     Inr \<lparr> pcr_select_size = z, pcr_slots = flags_of ss \<rparr>)"

definition collection_contains :: "pcr_slot_collection \<Rightarrow> pcr_slot \<Rightarrow> bool" where
  "collection_contains c s = flags_contain (pcr_slots c) (pcr_slot_u32 s)"

definition collection_is_empty :: "pcr_slot_collection \<Rightarrow> bool" where
  "collection_is_empty c \<longleftrightarrow> pcr_slots c = 0"

definition collection_slots :: "pcr_slot_collection \<Rightarrow> pcr_slot list" where
  "collection_slots c = flags_list (pcr_slots c)"

definition collection_remove :: "pcr_slot_collection \<Rightarrow> pcr_slot \<Rightarrow> pcr_slot_collection" where
  "collection_remove c s = c \<lparr> pcr_slots := flags_remove (pcr_slots c) (pcr_slot_u32 s) \<rparr>"

definition ensure_size_equality :: "pcr_slot_collection \<Rightarrow> pcr_slot_collection \<Rightarrow> unit tss" where
  "ensure_size_equality c d = check (pcr_select_size c = pcr_select_size d) InvalidParam"

definition ensure_contains_none :: "pcr_slot_collection \<Rightarrow> u32 \<Rightarrow> unit tss" where
  "ensure_contains_none c m = check (\<not> flags_intersect (pcr_slots c) m) InvalidParam"

definition ensure_contains_all :: "pcr_slot_collection \<Rightarrow> u32 \<Rightarrow> unit tss" where
  "ensure_contains_all c m = check (flags_contain (pcr_slots c) m) InvalidParam"

definition collection_remove_exact ::
  "pcr_slot_collection \<Rightarrow> pcr_slot \<Rightarrow> pcr_slot_collection tss" where
  "collection_remove_exact c s =
     bnd (ensure_contains_all c (pcr_slot_u32 s)) (\<lambda>_.
     Inr (c \<lparr> pcr_slots := flags_remove (pcr_slots c) (pcr_slot_u32 s) \<rparr>))"

definition collection_merge_exact ::
  "pcr_slot_collection \<Rightarrow> pcr_slot_collection \<Rightarrow> pcr_slot_collection tss" where
  "collection_merge_exact c d =
     bnd (ensure_size_equality c d) (\<lambda>_.
     bnd (ensure_contains_none c (pcr_slots d)) (\<lambda>_.
     Inr (c \<lparr> pcr_slots := pcr_slots c OR pcr_slots d \<rparr>)))"

definition collection_subtract_exact ::
  "pcr_slot_collection \<Rightarrow> pcr_slot_collection \<Rightarrow> pcr_slot_collection tss" where
  "collection_subtract_exact c d =
     bnd (ensure_size_equality c d) (\<lambda>_.
     bnd (ensure_contains_all c (pcr_slots d)) (\<lambda>_.
     Inr (c \<lparr> pcr_slots := flags_remove (pcr_slots c) (pcr_slots d) \<rparr>)))"

text \<open>
  The octets sent to the TPM, least significant first; the octets beyond the size are cleared
  when a selection is read. Every 32-bit mask is a set of slots, so no mask is refused.
\<close>

definition parse_octets :: "bytes \<Rightarrow> pcr_select_size \<Rightarrow> u32" where
  "parse_octets b z =
     le_u32 (map (\<lambda>(i, v). if i + 1 > select_size_nat z then 0 else v) (enumerate 0 b))"

definition collection_octets :: "pcr_slot_collection \<Rightarrow> u8 \<times> bytes" where
  "collection_octets c =
     (let n = select_size_nat (pcr_select_size c) in
      (of_nat n, put_at 0 (take n (u32_le (pcr_slots c))) (replicate TPM2_PCR_SELECT_MAX 0)))"

definition collection_try_from :: "u8 \<times> bytes \<Rightarrow> pcr_slot_collection tss" where
  "collection_try_from t =
     bnd (select_size_try_from (fst t)) (\<lambda>z.
     Inr \<lparr> pcr_select_size = z, pcr_slots = parse_octets (snd t) z \<rparr>)"

section \<open>Collections as sets of slots\<close>

definition slot_set :: "pcr_slot_collection \<Rightarrow> pcr_slot set" where
  "slot_set c = {s. bit (pcr_slots c) (slot_index s)}"

text \<open>The slots that fit in the octets of a size, and the collections that keep to them.\<close>

definition slots_below :: "pcr_select_size \<Rightarrow> pcr_slot set" where
  "slots_below z = {s. slot_index s < 8 * select_size_nat z}"

definition collection_wf :: "pcr_slot_collection \<Rightarrow> bool" where
  "collection_wf c \<longleftrightarrow> slot_set c \<subseteq> slots_below (pcr_select_size c)"

named_theorems slot_simps \<open>collections as sets of slots\<close>

lemma bit_less_32: "bit (m :: u32) n \<Longrightarrow> n < 32"
  using bit_imp_le_length [of m n] by simp

lemma ex_slot_index: "n < 32 \<Longrightarrow> \<exists>s. slot_index s = n"
  by (metis map_slot_index all_slots_length nth_map nth_upt add_0)

lemma mask_eqI: "(\<And>s. bit (m :: u32) (slot_index s) = bit n (slot_index s)) \<Longrightarrow> m = n"
  by (rule bit_eqI) (metis bit_less_32 ex_slot_index)

lemma slot_set_inject:
  "pcr_select_size c = pcr_select_size d \<Longrightarrow> slot_set c = slot_set d \<Longrightarrow> c = d"
  by (rule pcr_slot_collection.equality) (auto simp: slot_set_def set_eq_iff intro: mask_eqI)

lemma flags_contain_bits: "flags_contain m x \<longleftrightarrow> (\<forall>s. bit x (slot_index s) \<longrightarrow> bit m (slot_index s))"
proof
  assume "flags_contain m x"
  then show "\<forall>s. bit x (slot_index s) \<longrightarrow> bit m (slot_index s)"
    by (metis bit_and_iff flags_contain_def)
next
  assume "\<forall>s. bit x (slot_index s) \<longrightarrow> bit m (slot_index s)"
  then show "flags_contain m x"
    unfolding flags_contain_def by (intro mask_eqI) (auto simp: bit_simps)
qed

lemma flags_contain_slot [slot_simps]:
  "flags_contain m (pcr_slot_u32 s) \<longleftrightarrow> bit m (slot_index s)"
  by (auto simp: flags_contain_bits bit_slot)

lemma flags_intersect_bits: "flags_intersect m x \<longleftrightarrow> (\<exists>s. bit m (slot_index s) \<and> bit x (slot_index s))"
proof
  assume "flags_intersect m x"
  then obtain n where "bit (m AND x) n" by (auto simp: flags_intersect_def bit_eq_iff)
  then show "\<exists>s. bit m (slot_index s) \<and> bit x (slot_index s)"
    by (metis bit_and_iff bit_less_32 ex_slot_index)
next
  assume "\<exists>s. bit m (slot_index s) \<and> bit x (slot_index s)"
  then show "flags_intersect m x"
    unfolding flags_intersect_def by (metis bit_and_iff bit_0_eq bot_apply bot_bool_def)
qed

lemma bit_flags_remove: "bit (flags_remove m x) (slot_index s) \<longleftrightarrow>
    bit m (slot_index s) \<and> \<not> bit x (slot_index s)"
  using slot_index_less [of s] by (auto simp: flags_remove_def bit_simps)

lemma bit_flags_of: "bit (flags_of ss) (slot_index s) \<longleftrightarrow> s \<in> set ss"
  by (induction ss) (auto simp: flags_of_def bit_simps bit_slot)

lemma set_flags_list: "set (flags_list m) = {s. bit m (slot_index s)}"
  by (auto simp: flags_list_def flags_contain_slot)

lemma sorted_flags_list: "sorted_wrt (<) (flags_list m)"
  unfolding flags_list_def by (rule sorted_wrt_filter [OF sorted_all_slots])

lemma distinct_flags_list [simp]: "distinct (flags_list m)"
  by (simp add: flags_list_def)

lemma collection_slots_set [slot_simps]: "set (collection_slots c) = slot_set c"
  by (simp add: collection_slots_def set_flags_list slot_set_def)

lemma collection_slots_sorted: "sorted_wrt (<) (collection_slots c)"
  by (simp add: collection_slots_def sorted_flags_list)

lemma collection_slots_distinct [simp]: "distinct (collection_slots c)"
  by (simp add: collection_slots_def)

lemma collection_contains_set [slot_simps]: "collection_contains c s \<longleftrightarrow> s \<in> slot_set c"
  by (simp add: collection_contains_def slot_set_def flags_contain_slot)

lemma collection_is_empty_set [slot_simps]: "collection_is_empty c \<longleftrightarrow> slot_set c = {}"
proof
  assume "slot_set c = {}"
  then have "pcr_slots c = 0" by (intro mask_eqI) (auto simp: slot_set_def)
  then show "collection_is_empty c" by (simp add: collection_is_empty_def)
qed (simp add: collection_is_empty_def slot_set_def)

lemma remove_set [slot_simps]: "slot_set (collection_remove c s) = slot_set c - {s}"
  by (auto simp: slot_set_def collection_remove_def bit_flags_remove bit_slot)

lemma remove_exact_iff:
  "collection_remove_exact c s = Inr d \<longleftrightarrow> s \<in> slot_set c \<and> d = collection_remove c s"
  by (auto simp: collection_remove_exact_def ensure_contains_all_def flags_contain_slot
      slot_set_def collection_remove_def)

lemma merge_exact_iff:
  "collection_merge_exact c d = Inr e \<longleftrightarrow>
     pcr_select_size c = pcr_select_size d \<and> slot_set c \<inter> slot_set d = {}
     \<and> pcr_select_size e = pcr_select_size c \<and> slot_set e = slot_set c \<union> slot_set d"
proof -
  let ?e = "c \<lparr> pcr_slots := pcr_slots c OR pcr_slots d \<rparr>"
  have "slot_set ?e = slot_set c \<union> slot_set d"
    by (auto simp: slot_set_def bit_simps)
  then have "e = ?e \<longleftrightarrow> pcr_select_size e = pcr_select_size c \<and> slot_set e = slot_set c \<union> slot_set d"
    using slot_set_inject [of e ?e] by auto
  moreover have "\<not> flags_intersect (pcr_slots c) (pcr_slots d) \<longleftrightarrow> slot_set c \<inter> slot_set d = {}"
    by (auto simp: flags_intersect_bits slot_set_def)
  ultimately show ?thesis
    by (auto simp: collection_merge_exact_def ensure_size_equality_def ensure_contains_none_def)
qed

lemma subtract_exact_iff:
  "collection_subtract_exact c d = Inr e \<longleftrightarrow>
     pcr_select_size c = pcr_select_size d \<and> slot_set d \<subseteq> slot_set c
     \<and> pcr_select_size e = pcr_select_size c \<and> slot_set e = slot_set c - slot_set d"
proof -
  let ?e = "c \<lparr> pcr_slots := flags_remove (pcr_slots c) (pcr_slots d) \<rparr>"
  have "slot_set ?e = slot_set c - slot_set d"
    by (auto simp: slot_set_def bit_flags_remove)
  then have "e = ?e \<longleftrightarrow> pcr_select_size e = pcr_select_size c \<and> slot_set e = slot_set c - slot_set d"
    using slot_set_inject [of e ?e] by auto
  moreover have "flags_contain (pcr_slots c) (pcr_slots d) \<longleftrightarrow> slot_set d \<subseteq> slot_set c"
    by (auto simp: flags_contain_bits slot_set_def)
  ultimately show ?thesis
    by (auto simp: collection_subtract_exact_def ensure_size_equality_def ensure_contains_all_def)
qed

lemma slot_above_max:
  "pcr_slot_u32 s > calculate_max_pcr_slots_value z \<longleftrightarrow> s \<notin> slots_below z"
  by (cases z; cases s) (simp_all add: slots_below_def)

lemma collection_create_iff:
  "collection_create z ss = Inr c \<longleftrightarrow>
     set ss \<subseteq> slots_below z \<and> pcr_select_size c = z \<and> slot_set c = set ss"
proof -
  let ?c = "\<lparr> pcr_select_size = z, pcr_slots = flags_of ss \<rparr>"
  have "slot_set ?c = set ss"
    by (auto simp: slot_set_def bit_flags_of)
  then have "c = ?c \<longleftrightarrow> pcr_select_size c = z \<and> slot_set c = set ss"
    using slot_set_inject [of c ?c] by auto
  moreover have "(\<exists>s \<in> set ss. pcr_slot_u32 s > calculate_max_pcr_slots_value z) \<longleftrightarrow> \<not> set ss \<subseteq> slots_below z"
    by (auto simp: slot_above_max)
  ultimately show ?thesis
    by (auto simp: collection_create_def collection_validate_def select_size_roundtrip
        split: if_splits)
qed

section \<open>Octets\<close>

lemma le_nat_append: "le_nat (a @ b) = le_nat a + 256 ^ length a * le_nat b"
  by (induction a) (simp_all add: algebra_simps)

lemma le_nat_zeros [simp]: "le_nat (replicate k 0) = 0"
  by (induction k) simp_all

lemma le_nat_take: "le_nat (take n b) = le_nat b mod 256 ^ n"
proof (cases "n \<le> length b")
  case True
  then have "le_nat b = le_nat (take n b) + 256 ^ n * le_nat (drop n b)"
    by (metis append_take_drop_id le_nat_append length_take min_absorb2)
  moreover have "le_nat (take n b) < 256 ^ n"
    using True le_nat_less [of "take n b"] by simp
  ultimately show ?thesis by simp
next
  case False
  have "le_nat b < 256 ^ length b" by (rule le_nat_less)
  also have "\<dots> \<le> 256 ^ n" using False by (intro power_increasing) auto
  finally show ?thesis using False by simp
qed

lemma mask_from: "map (\<lambda>(i, v). if i + 1 > n then 0 else v) (enumerate k b)
    = take (n - k) b @ replicate (length b - (n - k)) (0 :: u8)"
proof (induction b arbitrary: k)
  case (Cons x b)
  show ?case
  proof (cases "k < n")
    case True
    then have "n - k = Suc (n - Suc k)" by simp
    then show ?thesis using Cons [of "Suc k"] True by simp
  next
    case False
    then show ?thesis using Cons [of "Suc k"] by simp
  qed
qed simp

lemma of_nat_mod_take_bit: "(of_nat (m mod 2 ^ k) :: u32) = take_bit k (of_nat m)"
  by (simp add: take_bit_of_nat flip: take_bit_eq_mod)

lemma parse_octets_bits:
  "parse_octets b z = take_bit (8 * select_size_nat z) (le_u32 b)"
proof -
  let ?n = "select_size_nat z"
  have "parse_octets b z = of_nat (le_nat b mod 256 ^ ?n)"
    by (simp add: parse_octets_def mask_from [where k = 0, simplified] le_u32_def le_nat_append
        le_nat_take)
  also have "(256 :: nat) ^ ?n = 2 ^ (8 * ?n)"
    by (simp add: power_mult)
  finally show ?thesis
    by (simp only: le_u32_def of_nat_mod_take_bit)
qed

lemma wf_take_bit: "collection_wf c \<longleftrightarrow>
    take_bit (8 * select_size_nat (pcr_select_size c)) (pcr_slots c) = pcr_slots c"
proof
  assume "collection_wf c"
  then show "take_bit (8 * select_size_nat (pcr_select_size c)) (pcr_slots c) = pcr_slots c"
    by (intro mask_eqI) (auto simp: collection_wf_def slot_set_def slots_below_def bit_simps)
next
  assume "take_bit (8 * select_size_nat (pcr_select_size c)) (pcr_slots c) = pcr_slots c"
  then show "collection_wf c"
    unfolding collection_wf_def slot_set_def slots_below_def
    by (metis (mono_tags, lifting) bit_take_bit_iff mem_Collect_eq subsetI)
qed

text \<open>Every collection the wrapper makes keeps to its octets.\<close>

lemma collection_wf_create: "collection_create z ss = Inr c \<Longrightarrow> collection_wf c"
  by (auto simp: collection_create_iff collection_wf_def)

lemma collection_wf_try_from: "collection_try_from t = Inr c \<Longrightarrow> collection_wf c"
  by (auto simp: collection_try_from_def wf_take_bit parse_octets_bits)

lemma collection_wf_remove: "collection_wf c \<Longrightarrow> collection_wf (collection_remove c s)"
  by (auto simp: collection_wf_def slot_simps) (auto simp: collection_remove_def)

lemma collection_wf_merge:
  "collection_wf c \<Longrightarrow> collection_wf d \<Longrightarrow> collection_merge_exact c d = Inr e \<Longrightarrow> collection_wf e"
  by (auto simp: merge_exact_iff collection_wf_def)

lemma collection_wf_subtract:
  "collection_wf c \<Longrightarrow> collection_subtract_exact c d = Inr e \<Longrightarrow> collection_wf e"
  by (auto simp: subtract_exact_iff collection_wf_def)

lemma collection_octets_eq:
  "collection_octets c =
     (let n = select_size_nat (pcr_select_size c) in
      (of_nat n, take n (u32_le (pcr_slots c)) @ replicate (4 - n) 0))"
  using select_size_bounds [of "pcr_select_size c"]
  by (simp add: collection_octets_def Let_def put_at_def TPM2_PCR_SELECT_MAX_def le32.enc_length)

lemma parse_collection_octets:
  "parse_octets (snd (collection_octets c)) (pcr_select_size c)
     = take_bit (8 * select_size_nat (pcr_select_size c)) (pcr_slots c)"
proof -
  let ?n = "select_size_nat (pcr_select_size c)"
  have "le_u32 (snd (collection_octets c)) = of_nat (le_nat (u32_le (pcr_slots c)) mod 256 ^ ?n)"
    by (simp add: collection_octets_eq Let_def le_u32_def le_nat_append le_nat_take)
  also have "(256 :: nat) ^ ?n = 2 ^ (8 * ?n)"
    by (simp add: power_mult)
  finally have "le_u32 (snd (collection_octets c)) = take_bit (8 * ?n) (le_u32 (u32_le (pcr_slots c)))"
    by (simp only: le_u32_def of_nat_mod_take_bit)
  then show ?thesis by (simp add: parse_octets_bits le32.dec_enc)
qed

lemma collection_roundtrip:
  "collection_try_from (collection_octets c) =
     Inr (c \<lparr> pcr_slots := take_bit (8 * select_size_nat (pcr_select_size c)) (pcr_slots c) \<rparr>)"
proof -
  have "fst (collection_octets c) = of_nat (select_size_nat (pcr_select_size c))"
    by (simp add: collection_octets_def Let_def)
  then show ?thesis
    using parse_collection_octets [of c]
    by (simp add: collection_try_from_def select_size_roundtrip)
qed

lemma collection_wf_roundtrip: "collection_wf c \<Longrightarrow> collection_try_from (collection_octets c) = Inr c"
  by (simp add: collection_roundtrip wf_take_bit)

end
