(* ===== verification/Tss_Pcr.thy ===== *)
theory Tss_Pcr
  imports Tss_Slots Ordered_Map
begin

text \<open>
  Selections of PCRs by bank (\<open>structures/pcr/selection.rs\<close>, \<open>structures/lists/pcr_selection.rs\<close>),
  lists of digests (\<open>structures/lists/digest.rs\<close>), the values read (\<open>abstraction/pcr/bank.rs\<close>,
  \<open>data.rs\<close>) and the loop that reads a whole selection (\<open>abstraction/pcr.rs\<close>). A selection list
  stands for the multiset of its (bank, slot) pairs.
\<close>

section \<open>Selections\<close>

record pcr_selection =
  sel_hash :: hashing_algorithm
  sel_slots :: pcr_slot_collection

definition selection_create ::
  "hashing_algorithm \<Rightarrow> pcr_select_size \<Rightarrow> pcr_slot list \<Rightarrow> pcr_selection tss" where
  "selection_create h z ss =
     map_ok (\<lambda>c. \<lparr> sel_hash = h, sel_slots = c \<rparr>) (collection_create z ss)"

definition selected :: "pcr_selection \<Rightarrow> pcr_slot list" where
  "selected p = collection_slots (sel_slots p)"

definition is_selected :: "pcr_selection \<Rightarrow> pcr_slot \<Rightarrow> bool" where
  "is_selected p s = collection_contains (sel_slots p) s"

definition deselect_exact :: "pcr_selection \<Rightarrow> pcr_slot \<Rightarrow> pcr_selection tss" where
  "deselect_exact p s =
     map_ok (\<lambda>c. p \<lparr> sel_slots := c \<rparr>) (collection_remove_exact (sel_slots p) s)"

definition deselect :: "pcr_selection \<Rightarrow> pcr_slot \<Rightarrow> pcr_selection" where
  "deselect p s = p \<lparr> sel_slots := collection_remove (sel_slots p) s \<rparr>"

definition selection_merge_exact :: "pcr_selection \<Rightarrow> pcr_selection \<Rightarrow> pcr_selection tss" where
  "selection_merge_exact p q =
     (if sel_hash p \<noteq> sel_hash q then local_error InvalidParam
      else map_ok (\<lambda>c. p \<lparr> sel_slots := c \<rparr>)
             (collection_merge_exact (sel_slots p) (sel_slots q)))"

definition selection_subtract_exact :: "pcr_selection \<Rightarrow> pcr_selection \<Rightarrow> pcr_selection tss" where
  "selection_subtract_exact p q =
     (if sel_hash p \<noteq> sel_hash q then local_error InconsistentParams
      else map_ok (\<lambda>c. p \<lparr> sel_slots := c \<rparr>)
             (collection_subtract_exact (sel_slots p) (sel_slots q)))"

definition selection_is_empty :: "pcr_selection \<Rightarrow> bool" where
  "selection_is_empty p = collection_is_empty (sel_slots p)"

text \<open>\<open>TPMS_PCR_SELECTION\<close>: the hash, the number of octets, the octets.\<close>

record tpms_pcr_selection =
  raw_hash :: u16
  raw_size :: u8
  raw_octets :: bytes

definition selection_try_from :: "tpms_pcr_selection \<Rightarrow> pcr_selection tss" where
  "selection_try_from t =
     bnd (map_err (\<lambda>e. Err (WrapperError InvalidParam)) (hash_alg_try_from (raw_hash t))) (\<lambda>h.
     bnd (collection_try_from (raw_size t, raw_octets t)) (\<lambda>c.
     Inr \<lparr> sel_hash = h, sel_slots = c \<rparr>))"

definition selection_to_tss :: "pcr_selection \<Rightarrow> tpms_pcr_selection" where
  "selection_to_tss p =
     (let (n, b) = collection_octets (sel_slots p) in
      \<lparr> raw_hash = hash_alg_u16 (sel_hash p), raw_size = n, raw_octets = b \<rparr>)"

definition selection_wf :: "pcr_selection \<Rightarrow> bool" where
  "selection_wf p = collection_wf (sel_slots p)"

lemma selection_roundtrip: "selection_wf p \<Longrightarrow> selection_try_from (selection_to_tss p) = Inr p"
  using collection_wf_roundtrip [of "sel_slots p"]
  by (cases "collection_octets (sel_slots p)")
    (simp add: selection_try_from_def selection_to_tss_def selection_wf_def)

lemma selection_wf_try_from: "selection_try_from t = Inr p \<Longrightarrow> selection_wf p"
  by (auto simp: selection_try_from_def selection_wf_def intro: collection_wf_try_from)

section \<open>Lists of selections\<close>

text \<open>
  \<open>PcrSelectionList::MAX_SIZE\<close>; the C list is a count and an array of 16 selections. Writing
  more than 16 selections into it is an index out of range.
\<close>

definition SELECTION_LIST_MAX :: nat where "SELECTION_LIST_MAX = 16"

definition default_tpms :: tpms_pcr_selection where
  "default_tpms = \<lparr> raw_hash = 0, raw_size = 0, raw_octets = replicate TPM2_PCR_SELECT_MAX 0 \<rparr>"

definition selection_list_to_tpml ::
  "pcr_selection list \<Rightarrow> (u32 \<times> tpms_pcr_selection list) tss" where
  "selection_list_to_tpml l =
     (if length l > SELECTION_LIST_MAX then Inl (Aborted ''index out of bounds'')
      else Inr (of_nat (length l),
             map selection_to_tss l @ replicate (SELECTION_LIST_MAX - length l) default_tpms))"

definition selection_list_try_from ::
  "u32 \<times> tpms_pcr_selection list \<Rightarrow> pcr_selection list tss" where
  "selection_list_try_from t =
     (if unat (fst t) > SELECTION_LIST_MAX then local_error InvalidParam
      else bnd (index_range (snd t) 0 (unat (fst t))) (mapM selection_try_from))"

text \<open>
  \<open>remove_selection\<close>: each slot is taken out of the first selection of the bank that has it.
\<close>

fun remove_slot :: "hashing_algorithm \<Rightarrow> pcr_slot \<Rightarrow> pcr_selection list \<Rightarrow> pcr_selection list tss" where
  "remove_slot h s [] = local_error InvalidParam"
| "remove_slot h s (p # ps) =
     (if sel_hash p = h \<and> is_selected p s then map_ok (\<lambda>q. q # ps) (deselect_exact p s)
      else map_ok ((#) p) (remove_slot h s ps))"

definition remove_selection ::
  "pcr_selection \<Rightarrow> pcr_selection list \<Rightarrow> pcr_selection list tss" where
  "remove_selection p l = foldM (remove_slot (sel_hash p)) (selected p) l"

definition remove_empty_selections :: "pcr_selection list \<Rightarrow> pcr_selection list" where
  "remove_empty_selections l = filter (\<lambda>p. \<not> selection_is_empty p) l"

definition list_subtract :: "pcr_selection list \<Rightarrow> pcr_selection list \<Rightarrow> pcr_selection list tss" where
  "list_subtract a b =
     (if a = b then Inr []
      else if a = [] then local_error InvalidParam
      else map_ok remove_empty_selections (foldM remove_selection b a))"

text \<open>
  The builder keeps a hash map from banks to slots; \<open>iter\<close> is the order in which that map
  yields its entries, which the standard library does not fix.
\<close>

record selection_list_builder =
  size_of_select :: "pcr_select_size option"
  builder_items :: "(hashing_algorithm \<times> pcr_slot list) list"

definition selection_builder_new :: selection_list_builder where
  "selection_builder_new = \<lparr> size_of_select = None, builder_items = [] \<rparr>"

definition with_size_of_select ::
  "selection_list_builder \<Rightarrow> pcr_select_size \<Rightarrow> selection_list_builder" where
  "with_size_of_select b z = b \<lparr> size_of_select := Some z \<rparr>"

definition with_selection ::
  "selection_list_builder \<Rightarrow> hashing_algorithm \<Rightarrow> pcr_slot list \<Rightarrow> selection_list_builder" where
  "with_selection b h ss =
     b \<lparr> builder_items :=
           (if h \<in> fst ` set (builder_items b)
            then map (\<lambda>(k, v). if k = h then (k, v @ ss) else (k, v)) (builder_items b)
            else builder_items b @ [(h, ss)]) \<rparr>"

definition builder_build ::
  "((hashing_algorithm \<times> pcr_slot list) list \<Rightarrow> (hashing_algorithm \<times> pcr_slot list) list)
    \<Rightarrow> selection_list_builder \<Rightarrow> pcr_selection list tss" where
  "builder_build iter b =
     mapM (\<lambda>(h, ss). selection_create h
             (case size_of_select b of None \<Rightarrow> select_size_default | Some z \<Rightarrow> z) ss)
       (iter (builder_items b))"

section \<open>Selection lists as multisets\<close>

definition sel_pairs :: "pcr_selection \<Rightarrow> (hashing_algorithm \<times> pcr_slot) multiset" where
  "sel_pairs p = image_mset (Pair (sel_hash p)) (mset_set (slot_set (sel_slots p)))"

definition sel_mset :: "pcr_selection list \<Rightarrow> (hashing_algorithm \<times> pcr_slot) multiset" where
  "sel_mset l = sum_list (map sel_pairs l)"

lemma sel_mset_simps [simp]: "sel_mset [] = {#}" "sel_mset (p # l) = sel_pairs p + sel_mset l"
    "sel_mset (k @ l) = sel_mset k + sel_mset l"
  by (simp_all add: sel_mset_def)

lemma finite_slot_set [simp]: "finite (slot_set c)"
  by (metis collection_slots_set List.finite_set)

lemma sel_pairs_selected: "sel_pairs p = mset (map (Pair (sel_hash p)) (selected p))"
  by (simp add: sel_pairs_def selected_def mset_set_set flip: slot_simps(2))

lemma in_sel_pairs: "(h, s) \<in># sel_pairs p \<longleftrightarrow> sel_hash p = h \<and> is_selected p s"
  by (auto simp: sel_pairs_def is_selected_def slot_simps)

lemma sel_pairs_empty: "sel_pairs p = {#} \<longleftrightarrow> selection_is_empty p"
  by (simp add: sel_pairs_def selection_is_empty_def slot_simps mset_set_empty_iff)

lemma deselect_exact_pairs:
  assumes "is_selected p s"
  shows "\<exists>q. deselect_exact p s = Inr q \<and> sel_pairs p = add_mset (sel_hash p, s) (sel_pairs q)"
proof -
  let ?q = "p \<lparr> sel_slots := collection_remove (sel_slots p) s \<rparr>"
  have s: "s \<in> slot_set (sel_slots p)" using assms by (simp add: is_selected_def slot_simps)
  then have "collection_remove_exact (sel_slots p) s = Inr (collection_remove (sel_slots p) s)"
    by (simp add: remove_exact_iff)
  then have "deselect_exact p s = Inr ?q" by (simp add: deselect_exact_def)
  moreover have "sel_pairs p = add_mset (sel_hash p, s) (sel_pairs ?q)"
    using s by (simp add: sel_pairs_def slot_simps mset_set.remove [of _ s])
  ultimately show ?thesis by blast
qed

lemma remove_slot_mset:
  "(\<exists>l'. remove_slot h s l = Inr l' \<and> sel_mset l = add_mset (h, s) (sel_mset l'))
     \<or> (h, s) \<notin># sel_mset l \<and> remove_slot h s l = local_error InvalidParam"
proof (induction l)
  case (Cons p l)
  show ?case
  proof (cases "sel_hash p = h \<and> is_selected p s")
    case True
    then show ?thesis using deselect_exact_pairs [of p s] by auto
  next
    case False
    then have "(h, s) \<notin># sel_pairs p" by (simp add: in_sel_pairs)
    then show ?thesis using Cons False by (auto simp: local_error_def)
  qed
qed simp

lemma remove_slot_iff: "remove_slot h s l = Inr l' \<Longrightarrow> sel_mset l = add_mset (h, s) (sel_mset l')"
  using remove_slot_mset [of h s l] by auto

lemma remove_slot_ok: "(h, s) \<in># sel_mset l \<longleftrightarrow> is_ok (remove_slot h s l)"
  using remove_slot_mset [of h s l] by (auto simp: is_ok_iff)

text \<open>
  A loop that takes a share out of a multiset at each element, or fails because the share is
  not there, takes out the sum of the shares.
\<close>

lemma foldM_consumes:
  assumes step: "\<And>x u. (\<exists>v. f x u = Inr v \<and> m u = w x + m v) \<or> \<not> w x \<subseteq># m u \<and> f x u = Inl e"
  shows "(\<exists>v. foldM f xs u = Inr v \<and> m u = sum_list (map w xs) + m v)
     \<or> \<not> sum_list (map w xs) \<subseteq># m u \<and> foldM f xs u = Inl e"
proof (induction xs arbitrary: u)
  case (Cons x xs)
  show ?case
  proof (cases "f x u")
    case (Inl a)
    then have "\<not> w x \<subseteq># m u" "a = e" using step [of x u] by auto
    then show ?thesis using Inl by (auto dest: mset_subset_eq_add_left [THEN subset_mset.order_trans])
  next
    case (Inr v)
    then have "m u = w x + m v" using step [of x u] by auto
    then show ?thesis using Cons [of v] Inr by (auto simp: ac_simps)
  qed
qed simp

lemma remove_selection_mset:
  "(\<exists>l'. remove_selection p l = Inr l' \<and> sel_mset l = sel_pairs p + sel_mset l')
     \<or> \<not> sel_pairs p \<subseteq># sel_mset l \<and> remove_selection p l = local_error InvalidParam"
proof -
  have "sum_list (map (\<lambda>s. {#(sel_hash p, s)#}) ss) = mset (map (Pair (sel_hash p)) ss)" for ss
    by (induction ss) auto
  moreover have "(\<exists>l'. remove_slot (sel_hash p) s k = Inr l' \<and> sel_mset k = {#(sel_hash p, s)#} + sel_mset l')
     \<or> \<not> {#(sel_hash p, s)#} \<subseteq># sel_mset k
       \<and> remove_slot (sel_hash p) s k = Inl (Err (WrapperError InvalidParam))" for s k
    using remove_slot_mset [of "sel_hash p" s k] by (auto simp: local_error_def)
  ultimately show ?thesis
    using foldM_consumes [where f = "remove_slot (sel_hash p)" and m = sel_mset
        and w = "\<lambda>s. {#(sel_hash p, s)#}" and xs = "selected p" and u = l]
    unfolding remove_selection_def sel_pairs_selected local_error_def by metis
qed

lemma remove_empty_mset [simp]: "sel_mset (remove_empty_selections l) = sel_mset l"
  by (induction l) (auto simp: remove_empty_selections_def sel_pairs_empty)

lemma list_subtract_cases:
  obtains (ok) c where "list_subtract a b = Inr c" "sel_mset a = sel_mset b + sel_mset c"
      "list_all (\<lambda>p. \<not> selection_is_empty p) c"
    | (error) "list_subtract a b = local_error InvalidParam" "a \<noteq> b"
      "a = [] \<or> \<not> sel_mset b \<subseteq># sel_mset a"
proof -
  consider "a = b" | "a \<noteq> b" "a = []" | "\<not> (a = b \<or> a = [])" by blast
  then show thesis
  proof cases
    case 1
    then show thesis by (intro ok [of "[]"]) (simp_all add: list_subtract_def)
  next
    case 2
    then show thesis by (intro error) (simp_all add: list_subtract_def)
  next
    case 3
    note False = 3
    have "(\<exists>c. foldM remove_selection b a = Inr c \<and> sel_mset a = sum_list (map sel_pairs b) + sel_mset c)
       \<or> \<not> sum_list (map sel_pairs b) \<subseteq># sel_mset a
         \<and> foldM remove_selection b a = Inl (Err (WrapperError InvalidParam))"
      by (rule foldM_consumes) (use remove_selection_mset in \<open>simp add: local_error_def\<close>)
    then consider c where "foldM remove_selection b a = Inr c" "sel_mset a = sel_mset b + sel_mset c"
      | "\<not> sel_mset b \<subseteq># sel_mset a" "foldM remove_selection b a = local_error InvalidParam"
      by (auto simp: local_error_def sel_mset_def)
    then show thesis
    proof cases
      case 1
      then show thesis
        using False by (intro ok [of "remove_empty_selections c"])
          (simp_all add: list_subtract_def, simp add: remove_empty_selections_def list_all_iff)
    next
      case 2
      then show thesis
        using False by (intro error) (simp_all add: list_subtract_def local_error_def)
    qed
  qed
qed

text \<open>
  C21. Subtracting one PCR selection list from another is the difference of the multisets of
  (bank, slot) pairs the lists stand for, for every two lists: it succeeds when every pair to be
  removed is there, and then leaves exactly the rest and no selection without slots; otherwise
  it is \<open>InvalidParam\<close>.
\<close>

theorem list_subtract_refines:
  "case list_subtract a b of
     Inr c \<Rightarrow> sel_mset b \<subseteq># sel_mset a \<and> sel_mset c = sel_mset a - sel_mset b
           \<and> list_all (\<lambda>p. \<not> selection_is_empty p) c
   | Inl e \<Rightarrow> e = Err (WrapperError InvalidParam) \<and> a \<noteq> b
           \<and> \<not> (a \<noteq> [] \<and> sel_mset b \<subseteq># sel_mset a)"
  by (cases rule: list_subtract_cases [of a b]) (auto simp: local_error_def)

text \<open>Nothing that a list loses spoils its selections.\<close>

lemma deselect_exact_wf: "selection_wf p \<Longrightarrow> deselect_exact p s = Inr q \<Longrightarrow> selection_wf q"
  using collection_wf_remove [of "sel_slots p" s]
  by (auto simp: deselect_exact_def collection_remove_exact_def collection_remove_def selection_wf_def)

lemma remove_slot_wf: "remove_slot h s l = Inr l' \<Longrightarrow> list_all selection_wf l \<Longrightarrow> list_all selection_wf l'"
  by (induction l arbitrary: l') (auto split: if_splits dest: deselect_exact_wf)

lemma list_subtract_wf:
  assumes "list_all selection_wf a" and "list_subtract a b = Inr c"
  shows "list_all selection_wf c"
proof (cases "a = b")
  case True
  then show ?thesis using assms(2) by (simp add: list_subtract_def)
next
  case False
  then obtain d where d: "foldM remove_selection b a = Inr d" "c = remove_empty_selections d"
    using assms(2) by (auto simp: list_subtract_def local_error_def split: if_splits)
  have step: "list_all selection_wf m" if "remove_selection p l = Inr m" "list_all selection_wf l" for p l m
    using that(1) unfolding remove_selection_def
    by (rule foldM_invariant [where P = "list_all selection_wf"]) (use that(2) remove_slot_wf in blast)+
  have "list_all selection_wf d"
    using d(1) assms(1) by (rule foldM_invariant) (rule step)
  then show ?thesis by (auto simp: d(2) remove_empty_selections_def list_all_iff)
qed

section \<open>Lists of digests\<close>

definition DIGEST_LIST_MAX :: nat where "DIGEST_LIST_MAX = 8"

definition digest_list_add :: "bytes list \<Rightarrow> bytes \<Rightarrow> bytes list tss" where
  "digest_list_add ds d =
     (if length ds \<ge> DIGEST_LIST_MAX then local_error WrongParamSize else Inr (ds @ [d]))"

definition digest_list_try_from :: "u32 \<times> (u16 \<times> bytes) list \<Rightarrow> bytes list tss" where
  "digest_list_try_from t =
     (if unat (fst t) > DIGEST_LIST_MAX then local_error InvalidParam
      else bnd (index_range (snd t) 0 (unat (fst t))) (mapM (buffer_of_tss DIGEST_MAX)))"

definition digest_list_to_tpml :: "bytes list \<Rightarrow> (u32 \<times> (u16 \<times> bytes) list) tss" where
  "digest_list_to_tpml ds =
     (if length ds > DIGEST_LIST_MAX then local_error WrongParamSize
      else Inr (of_nat (length ds), map (buffer_to_tss DIGEST_MAX) ds
             @ replicate (DIGEST_LIST_MAX - length ds) (0, replicate DIGEST_MAX 0)))"

lemma mapM_id: "(\<And>x. x \<in> set xs \<Longrightarrow> f (g x) = Inr x) \<Longrightarrow> mapM f (map g xs) = Inr xs"
  by (induction xs) auto

lemma digest_list_roundtrip:
  assumes "list_all (\<lambda>d. length d \<le> DIGEST_MAX) ds" and "digest_list_to_tpml ds = Inr t"
  shows "digest_list_try_from t = Inr ds"
proof -
  have len: "length ds \<le> 8" and t: "t = (of_nat (length ds), map (buffer_to_tss DIGEST_MAX) ds
      @ replicate (8 - length ds) (0, replicate DIGEST_MAX 0))"
    using assms(2) by (auto simp: digest_list_to_tpml_def DIGEST_LIST_MAX_def split: if_splits)
  have "unat (of_nat (length ds) :: u32) = length ds"
    using len by (simp add: unat_of_nat)
  moreover have "mapM (buffer_of_tss DIGEST_MAX) (map (buffer_to_tss DIGEST_MAX) ds) = Inr ds"
    using assms(1) by (intro mapM_id) (auto simp: list_all_iff DIGEST_MAX_def intro: buffer_roundtrip)
  ultimately show ?thesis
    using len by (simp add: t digest_list_try_from_def DIGEST_LIST_MAX_def)
qed

end
