(* ===== verification/Tss_Pcr_Read.thy ===== *)
theory Tss_Pcr_Read
  imports Tss_Pcr
begin

text \<open>
  The values of PCRs as the wrapper collects them (\<open>abstraction/pcr/bank.rs\<close>,
  \<open>abstraction/pcr/data.rs\<close>) and the loop that reads a whole selection list, a TPM answer at a
  time (\<open>abstraction/pcr.rs\<close>).
\<close>

section \<open>Banks\<close>

type_synonym pcr_bank = "(pcr_slot \<times> bytes) list"

definition bank_has :: "pcr_bank \<Rightarrow> pcr_slot \<Rightarrow> bool" where
  "bank_has b s \<longleftrightarrow> om_lookup b s \<noteq> None"

definition bank_create :: "pcr_slot list \<Rightarrow> bytes list \<Rightarrow> pcr_bank tss" where
  "bank_create ss ds =
     (if length ss \<noteq> length ds then local_error InconsistentParams
      else foldM (\<lambda>(s, d) b. if om_lookup b s = None then Inr (om_insert s d b)
                             else local_error InconsistentParams) (zip ss ds) [])"

definition bank_remove :: "pcr_bank \<Rightarrow> pcr_slot \<Rightarrow> bytes option \<times> pcr_bank" where
  "bank_remove b s = (om_lookup b s, filter (\<lambda>(t, d). t \<noteq> s) b)"

definition ensure_non_existing :: "pcr_bank \<Rightarrow> pcr_slot \<Rightarrow> unit tss" where
  "ensure_non_existing b s = check (\<not> bank_has b s) InvalidParam"

definition bank_insert :: "pcr_bank \<Rightarrow> pcr_slot \<Rightarrow> bytes \<Rightarrow> pcr_bank tss" where
  "bank_insert b s d = bnd (ensure_non_existing b s) (\<lambda>_. Inr (om_insert s d b))"

definition bank_try_extend :: "pcr_bank \<Rightarrow> pcr_bank \<Rightarrow> pcr_bank tss" where
  "bank_try_extend b c =
     bnd (mapM (ensure_non_existing b) (map fst c)) (\<lambda>_.
     Inr (fold (\<lambda>(s, d). om_insert s d) c b))"

lemma bank_create_distinct:
  assumes "distinct ss" and "om_inv b" and "\<And>s. s \<in> set ss \<Longrightarrow> om_lookup b s = None"
  shows "\<exists>c. foldM (\<lambda>(s, d) b. if om_lookup b s = None then Inr (om_insert s d b)
                             else local_error InconsistentParams) (zip ss (map f ss)) b = Inr c
       \<and> om_inv c \<and> (\<forall>s. om_lookup c s = (if s \<in> set ss then Some (f s) else om_lookup b s))"
  using assms
proof (induction ss arbitrary: b)
  case (Cons s ss)
  have "\<exists>c. foldM (\<lambda>(s, d) b. if om_lookup b s = None then Inr (om_insert s d b)
                             else local_error InconsistentParams) (zip ss (map f ss)) (om_insert s (f s) b) = Inr c
       \<and> om_inv c \<and> (\<forall>t. om_lookup c t = (if t \<in> set ss then Some (f t) else om_lookup (om_insert s (f s) b) t))"
    using Cons.prems by (intro Cons.IH) (auto simp: om.inv_ins om.look_ins)
  then show ?case using Cons.prems by (auto simp: om.look_ins)
qed simp

lemma bank_create_values:
  assumes "distinct ss"
  shows "\<exists>c. bank_create ss (map f ss) = Inr c \<and> om_inv c
       \<and> (\<forall>s. om_lookup c s = (if s \<in> set ss then Some (f s) else None))"
  using bank_create_distinct [OF assms, of "[]" f] by (simp add: bank_create_def om.inv_emp om.look_emp cong: if_cong)

text \<open>The errors of \<open>create\<close>: a length mismatch or a slot that occurs twice.\<close>

lemma bank_create_fold:
  assumes "om_inv b" and "length ss = length ds"
  shows "is_ok (foldM (\<lambda>(s, d) b. if om_lookup b s = None then Inr (om_insert s d b)
                             else local_error InconsistentParams) (zip ss ds) b)
     \<longleftrightarrow> distinct ss \<and> (\<forall>s \<in> set ss. om_lookup b s = None)"
  using assms(2,1) by (induction ss ds arbitrary: b rule: list_induct2)
    (auto simp: om.inv_ins om.look_ins local_error_def)

lemma bank_create_ok: "is_ok (bank_create ss ds) \<longleftrightarrow> length ss = length ds \<and> distinct ss"
  using bank_create_fold [of "[]" ss ds]
  by (auto simp: bank_create_def om.inv_emp om.look_emp local_error_def)

lemma ensure_all_ok: "mapM (ensure_non_existing b) ss = Inr us \<Longrightarrow> \<forall>s \<in> set ss. \<not> bank_has b s"
  by (induction ss arbitrary: us) (auto simp: ensure_non_existing_def)

lemma ensure_all: "\<forall>s \<in> set ss. \<not> bank_has b s \<Longrightarrow> \<exists>us. mapM (ensure_non_existing b) ss = Inr us"
  by (induction ss) (auto simp: ensure_non_existing_def)

lemma map_of_rev_distinct:
  assumes "distinct (map fst c)"
  shows "map_of (rev c) = map_of c"
proof
  fix k
  have rev: "distinct (map fst (rev c))" using assms by (simp flip: rev_map)
  show "map_of (rev c) k = map_of c k"
  proof (cases "map_of c k")
    case None
    then have "map_of (rev c) k = None" by (simp add: map_of_eq_None_iff)
    then show ?thesis using None by simp
  next
    case (Some v)
    then show ?thesis using rev by (auto dest: map_of_SomeD)
  qed
qed

lemma bank_try_extend_values:
  assumes "om_inv b" "om_inv c" and "\<And>s. om_lookup c s \<noteq> None \<Longrightarrow> om_lookup b s = None"
  shows "\<exists>e. bank_try_extend b c = Inr e \<and> om_inv e
       \<and> (\<forall>s. om_lookup e s = (case om_lookup c s of None \<Rightarrow> om_lookup b s | Some d \<Rightarrow> Some d))"
proof -
  have keys: "\<forall>s \<in> set (map fst c). \<not> bank_has b s"
  proof
    fix s assume "s \<in> set (map fst c)"
    then obtain d where "(s, d) \<in> set c" by auto
    then have "om_lookup c s \<noteq> None" using om.entries_look [OF assms(2)] by simp
    then show "\<not> bank_has b s" using assms(3) by (simp add: bank_has_def)
  qed
  have "map_of (rev c) = map_of c"
    using om.entries_distinct [OF assms(2)] by (rule map_of_rev_distinct)
  then have "om_lookup (fold (\<lambda>(s, d). om_insert s d) c b) s
      = (case om_lookup c s of None \<Rightarrow> om_lookup b s | Some d \<Rightarrow> Some d)" for s
    using om.look_fold [OF assms(1), of c s] by (simp add: om_lookup_def)
  then show ?thesis
    using ensure_all [OF keys] om.inv_fold [OF assms(1), of c] by (auto simp: bank_try_extend_def)
qed

section \<open>Data of several banks\<close>

type_synonym pcr_data = "(hashing_algorithm \<times> pcr_bank) list"

definition pcr_bank_of :: "pcr_data \<Rightarrow> hashing_algorithm \<Rightarrow> pcr_bank option" where
  "pcr_bank_of d h = map_of d h"

fun create_data :: "pcr_selection list \<Rightarrow> bytes list \<Rightarrow> pcr_data tss" where
  "create_data [] ds = Inr []"
| "create_data (p # ps) ds =
     (let ss = selected p in
      if length ss > length ds then local_error InconsistentParams
      else bnd (bank_create ss (take (length ss) ds)) (\<lambda>b.
           bnd (create_data ps (drop (length ss) ds)) (\<lambda>r.
           Inr ((sel_hash p, b) # r))))"

text \<open>A bank joins the data: into the first bank of its algorithm, or as a new one.\<close>

fun add_bank :: "hashing_algorithm \<times> pcr_bank \<Rightarrow> pcr_data \<Rightarrow> pcr_data tss" where
  "add_bank (h, b) [] = Inr [(h, b)]"
| "add_bank (h, b) ((k, c) # d) =
     (if k = h then map_ok (\<lambda>e. (k, e) # d) (bank_try_extend c b)
      else map_ok ((#) (k, c)) (add_bank (h, b) d))"

definition data_add :: "pcr_data \<Rightarrow> pcr_selection list \<Rightarrow> bytes list \<Rightarrow> pcr_data tss" where
  "data_add d sel ds = bnd (create_data sel ds) (\<lambda>bs. foldM add_bank bs d)"

text \<open>\<open>From<PcrData> for Vec<TPML_DIGEST>\<close>: all digests in order, eight to a list.\<close>

definition pcr_data_tpml :: "pcr_data \<Rightarrow> (u32 \<times> (u16 \<times> bytes) list) list" where
  "pcr_data_tpml d =
     map (\<lambda>c. (of_nat (length c), map (buffer_to_tss DIGEST_MAX) c
               @ replicate (DIGEST_LIST_MAX - length c) (0, replicate DIGEST_MAX 0)))
       (chunks DIGEST_LIST_MAX (concat (map (\<lambda>(h, b). map snd b) d)))"

definition data_lookup :: "pcr_data \<Rightarrow> hashing_algorithm \<Rightarrow> pcr_slot \<Rightarrow> bytes option" where
  "data_lookup d h s = (case pcr_bank_of d h of None \<Rightarrow> None | Some b \<Rightarrow> om_lookup b s)"

definition data_inv :: "pcr_data \<Rightarrow> bool" where
  "data_inv d \<longleftrightarrow> list_all (\<lambda>(h, b). om_inv b) d"

lemma data_Nil [simp]: "data_lookup [] h s = None" "data_inv []"
  by (simp_all add: data_lookup_def pcr_bank_of_def data_inv_def)

lemma add_bank_values:
  assumes "data_inv d" "om_inv b" and "\<And>s. om_lookup b s \<noteq> None \<Longrightarrow> data_lookup d h s = None"
  shows "\<exists>e. add_bank (h, b) d = Inr e \<and> data_inv e \<and>
     (\<forall>k s. data_lookup e k s = (if k = h \<and> om_lookup b s \<noteq> None then om_lookup b s else data_lookup d k s))"
  using assms
proof (induction d)
  case Nil
  then show ?case by (auto simp: data_inv_def data_lookup_def pcr_bank_of_def)
next
  case (Cons kc d)
  obtain k c where kc: "kc = (k, c)" by fastforce
  show ?case
  proof (cases "k = h")
    case True
    then have "\<And>s. om_lookup b s \<noteq> None \<Longrightarrow> om_lookup c s = None"
      using Cons.prems(3) kc by (simp add: data_lookup_def pcr_bank_of_def)
    moreover have "om_inv c" using Cons.prems(1) kc by (simp add: data_inv_def)
    ultimately obtain e where e: "bank_try_extend c b = Inr e" "om_inv e"
        "\<forall>s. om_lookup e s = (case om_lookup b s of None \<Rightarrow> om_lookup c s | Some d \<Rightarrow> Some d)"
      using bank_try_extend_values [of c b] Cons.prems(2) by blast
    then show ?thesis
      using Cons.prems(1) kc True
      by (auto simp: data_inv_def data_lookup_def pcr_bank_of_def split: option.splits)
  next
    case False
    have "\<exists>e. add_bank (h, b) d = Inr e \<and> data_inv e \<and>
       (\<forall>k s. data_lookup e k s = (if k = h \<and> om_lookup b s \<noteq> None then om_lookup b s else data_lookup d k s))"
      using Cons.prems kc False
      by (intro Cons.IH) (auto simp: data_inv_def data_lookup_def pcr_bank_of_def)
    then show ?thesis
      using Cons.prems(1) kc False by (auto simp: data_inv_def data_lookup_def pcr_bank_of_def)
  qed
qed

text \<open>No pair occurs twice.\<close>

definition nodup :: "'a multiset \<Rightarrow> bool" where
  "nodup M \<longleftrightarrow> (\<forall>x. count M x \<le> 1)"

lemma nodup_add: "nodup (A + B) \<longleftrightarrow> nodup A \<and> nodup B \<and> set_mset A \<inter> set_mset B = {}"
proof -
  have "count A x + count B x \<le> 1 \<longleftrightarrow>
      count A x \<le> 1 \<and> count B x \<le> 1 \<and> \<not> (0 < count A x \<and> 0 < count B x)" for x
    by arith
  then have "nodup (A + B) \<longleftrightarrow> (\<forall>x. count A x \<le> 1 \<and> count B x \<le> 1 \<and> \<not> (x \<in># A \<and> x \<in># B))"
    by (simp add: nodup_def)
  then show ?thesis by (auto simp: nodup_def)
qed

lemma nodup_empty [simp]: "nodup {#}"
  by (simp add: nodup_def)

text \<open>The digests a TPM gives for a selection: the values of its slots, in order.\<close>

definition values_of ::
  "(hashing_algorithm \<Rightarrow> pcr_slot \<Rightarrow> bytes) \<Rightarrow> pcr_selection list \<Rightarrow> bytes list" where
  "values_of pv sel = concat (map (\<lambda>p. map (pv (sel_hash p)) (selected p)) sel)"

lemma distinct_selected [simp]: "distinct (selected p)"
  by (simp add: selected_def)

lemma create_data_values:
  "\<exists>bs. create_data sel (values_of pv sel @ ds) = Inr bs
     \<and> list_all2 (\<lambda>p (h, b). h = sel_hash p \<and> om_inv b
          \<and> (\<forall>s. om_lookup b s = (if is_selected p s then Some (pv h s) else None))) sel bs"
proof (induction sel)
  case (Cons p sel)
  obtain bs where bs: "create_data sel (values_of pv sel @ ds) = Inr bs"
      "list_all2 (\<lambda>p (h, b). h = sel_hash p \<and> om_inv b
          \<and> (\<forall>s. om_lookup b s = (if is_selected p s then Some (pv h s) else None))) sel bs"
    using Cons by blast
  obtain b where b: "bank_create (selected p) (map (pv (sel_hash p)) (selected p)) = Inr b" "om_inv b"
      "\<forall>s. om_lookup b s = (if s \<in> set (selected p) then Some (pv (sel_hash p) s) else None)"
    using bank_create_values [OF distinct_selected] by blast
  have "s \<in> set (selected p) \<longleftrightarrow> is_selected p s" for s
    by (simp add: selected_def is_selected_def slot_simps)
  then show ?case
    using bs b by (intro exI [of _ "(sel_hash p, b) # bs"]) (simp add: values_of_def Let_def)
qed (simp add: values_of_def)

lemma foldM_add_bank_values:
  assumes "list_all2 (\<lambda>p (h, b). h = sel_hash p \<and> om_inv b
        \<and> (\<forall>s. om_lookup b s = (if is_selected p s then Some (pv h s) else None))) sel bs"
    and "data_inv d" and "nodup (sel_mset sel)"
    and "\<And>h s. (h, s) \<in># sel_mset sel \<Longrightarrow> data_lookup d h s = None"
  shows "\<exists>e. foldM add_bank bs d = Inr e \<and> data_inv e \<and>
     (\<forall>h s. data_lookup e h s = (if (h, s) \<in># sel_mset sel then Some (pv h s) else data_lookup d h s))"
  using assms
proof (induction sel bs arbitrary: d rule: list_all2_induct)
  case (Cons p sel hb bs)
  obtain b where hb: "hb = (sel_hash p, b)" "om_inv b"
      "\<And>s. om_lookup b s = (if is_selected p s then Some (pv (sel_hash p) s) else None)"
    using Cons.hyps(1) by (cases hb) auto
  have dis: "nodup (sel_mset sel)" "set_mset (sel_pairs p) \<inter> set_mset (sel_mset sel) = {}"
    using Cons.prems(2) by (simp_all add: nodup_add)
  have pre: "data_lookup d (sel_hash p) s = None" if "om_lookup b s \<noteq> None" for s
    using that hb(3) [of s] Cons.prems(3) by (simp add: in_sel_pairs split: if_splits)
  obtain e where add: "add_bank (sel_hash p, b) d = Inr e" "data_inv e"
      "\<And>k s. data_lookup e k s =
         (if k = sel_hash p \<and> om_lookup b s \<noteq> None then om_lookup b s else data_lookup d k s)"
    using add_bank_values [OF Cons.prems(1) hb(2) pre] by blast
  then have e: "add_bank hb d = Inr e" "data_inv e"
      "\<And>k s. data_lookup e k s =
         (if k = sel_hash p \<and> is_selected p s then Some (pv k s) else data_lookup d k s)"
    by (simp_all add: hb(1) hb(3))
  have fresh: "data_lookup e h s = None" if "(h, s) \<in># sel_mset sel" for h s
  proof -
    have "(h, s) \<notin># sel_pairs p" using that dis(2) by blast
    then show ?thesis using that e(3) Cons.prems(3) by (simp add: in_sel_pairs)
  qed
  obtain f where "foldM add_bank bs e = Inr f" "data_inv f"
      "\<forall>h s. data_lookup f h s = (if (h, s) \<in># sel_mset sel then Some (pv h s) else data_lookup e h s)"
    using Cons.IH [OF e(2) dis(1) fresh] by blast
  then show ?case using e by (auto simp: in_sel_pairs)
qed simp

lemma data_add_values:
  assumes "data_inv d" and "nodup (sel_mset sel)"
    and "\<And>h s. (h, s) \<in># sel_mset sel \<Longrightarrow> data_lookup d h s = None"
  shows "\<exists>e. data_add d sel (values_of pv sel) = Inr e \<and> data_inv e \<and>
     (\<forall>h s. data_lookup e h s = (if (h, s) \<in># sel_mset sel then Some (pv h s) else data_lookup d h s))"
proof -
  obtain bs where "create_data sel (values_of pv sel) = Inr bs" "list_all2 (\<lambda>p (h, b). h = sel_hash p \<and> om_inv b
        \<and> (\<forall>s. om_lookup b s = (if is_selected p s then Some (pv h s) else None))) sel bs"
    using create_data_values [of sel pv "[]"] by auto
  then show ?thesis using foldM_add_bank_values [OF _ assms] by (simp add: data_add_def)
qed

section \<open>Reading a whole selection\<close>

text \<open>
  \<open>read_all\<close> asks for what is left of the selection until nothing is. \<open>rd\<close> is one \<open>pcr_read\<close>
  on the TPM state: the update counter, the selection it read and the digests. Nothing makes
  the loop end when an answer is empty, so it is a partial function.
\<close>

type_synonym 's pcr_reader =
  "pcr_selection list \<Rightarrow> 's \<Rightarrow> (u32 \<times> pcr_selection list \<times> bytes list) tss \<times> 's"

partial_function (option) read_all_loop ::
  "'s pcr_reader \<Rightarrow> pcr_selection list \<Rightarrow> pcr_data \<Rightarrow> 's \<Rightarrow> (pcr_data tss \<times> 's) option" where
  "read_all_loop rd l data u =
     (if l = [] then Some (Inr data, u)
      else (case rd l u of
          (Inl e, u') \<Rightarrow> Some (Inl e, u')
        | (Inr (n, sel, ds), u') \<Rightarrow>
            (case bnd (data_add data sel ds) (\<lambda>data'.
                  map_ok (Pair data') (list_subtract l sel)) of
               Inl e \<Rightarrow> Some (Inl e, u')
             | Inr (data', l') \<Rightarrow> read_all_loop rd l' data' u')))"

definition read_all :: "'s pcr_reader \<Rightarrow> pcr_selection list \<Rightarrow> 's \<Rightarrow> (pcr_data tss \<times> 's) option" where
  "read_all rd l u = read_all_loop rd l [] u"

text \<open>
  What a TPM promises of one read (\<open>TPM2_PCR_Read\<close>): it reads some of the registers it is asked for
  and gives their values \<open>pv\<close> in order. It has the registers \<open>has\<close> only: of a bank or a register
  that it lacks nothing is read, but it reads at least one when it has one of those it is asked for.
\<close>

type_synonym pcr_values = "hashing_algorithm \<Rightarrow> pcr_slot \<Rightarrow> bytes"

definition answers :: "(hashing_algorithm \<times> pcr_slot \<Rightarrow> bool) \<Rightarrow> pcr_values \<Rightarrow> 's pcr_reader \<Rightarrow> bool" where
  "answers has pv rd \<longleftrightarrow> (\<forall>l u n sel ds u'. list_all selection_wf l \<longrightarrow> rd l u = (Inr (n, sel, ds), u') \<longrightarrow>
     sel_mset sel \<subseteq># sel_mset l \<and> ds = values_of pv sel \<and> (\<forall>x \<in># sel_mset sel. has x)
     \<and> ((\<exists>x \<in># sel_mset l. has x) \<longrightarrow> sel_mset sel \<noteq> {#}))"

definition has_all :: "(hashing_algorithm \<times> pcr_slot \<Rightarrow> bool) \<Rightarrow> pcr_selection list \<Rightarrow> bool" where
  "has_all has l \<longleftrightarrow> (\<forall>x \<in># sel_mset l. has x)"

definition reader_fails :: "'s pcr_reader \<Rightarrow> tss_error stop \<Rightarrow> bool" where
  "reader_fails rd e \<longleftrightarrow> (\<exists>l u u'. rd l u = (Inl e, u'))"

definition reads_exactly :: "pcr_values \<Rightarrow> pcr_selection list \<Rightarrow> pcr_data \<Rightarrow> bool" where
  "reads_exactly pv l d \<longleftrightarrow>
     (\<forall>h s. data_lookup d h s = (if (h, s) \<in># sel_mset l then Some (pv h s) else None))"

text \<open>One pass: what it reads is added and taken off, exactly.\<close>

lemma subtract_answer:
  assumes "l \<noteq> []" and "sel_mset sel \<subseteq># sel_mset l"
  obtains c where "list_subtract l sel = Inr c" "sel_mset l = sel_mset sel + sel_mset c"
    "list_all (\<lambda>p. \<not> selection_is_empty p) c"
  using assms by (cases rule: list_subtract_cases [of l sel]) auto

lemma pass:
  assumes "answers has pv rd" and "data_inv d" and "nodup (sel_mset l)" and "list_all selection_wf l"
    and "\<And>h s. (h, s) \<in># sel_mset l \<Longrightarrow> data_lookup d h s = None"
    and "l \<noteq> []" and "rd l u = (Inr (n, sel, ds), u')"
  shows "\<exists>e c. data_add d sel ds = Inr e \<and> list_subtract l sel = Inr c
    \<and> data_inv e \<and> nodup (sel_mset c) \<and> list_all selection_wf c
    \<and> (\<forall>h s. (h, s) \<in># sel_mset c \<longrightarrow> data_lookup e h s = None)
    \<and> (\<forall>h s. data_lookup e h s = (if (h, s) \<in># sel_mset sel then Some (pv h s) else data_lookup d h s))
    \<and> sel_mset l = sel_mset sel + sel_mset c \<and> list_all (\<lambda>p. \<not> selection_is_empty p) c"
proof -
  have ans: "sel_mset sel \<subseteq># sel_mset l" "ds = values_of pv sel"
    using assms(1,4,7) unfolding answers_def by blast+
  obtain c where c: "list_subtract l sel = Inr c" "sel_mset l = sel_mset sel + sel_mset c"
      "list_all (\<lambda>p. \<not> selection_is_empty p) c"
    by (rule subtract_answer [OF assms(6) ans(1)])
  have nd: "nodup (sel_mset sel)" "nodup (sel_mset c)" "set_mset (sel_mset sel) \<inter> set_mset (sel_mset c) = {}"
    using assms(3) c(2) by (simp_all add: nodup_add)
  obtain e where e: "data_add d sel ds = Inr e" "data_inv e"
      "\<And>h s. data_lookup e h s = (if (h, s) \<in># sel_mset sel then Some (pv h s) else data_lookup d h s)"
    using data_add_values [OF assms(2) nd(1), of pv] assms(5) c(2) ans(2) by auto
  have "data_lookup e h s = None" if "(h, s) \<in># sel_mset c" for h s
    using that nd(3) e(3) assms(5) [of h s] c(2) by auto
  then show ?thesis
    using c e nd(2) list_subtract_wf [OF assms(4) c(1)] by (intro exI [of _ e] exI [of _ c]) blast
qed

text \<open>What the loop returns, if it returns.\<close>

lemma read_all_loop_sound:
  assumes "read_all_loop rd l d u = Some (r, u')" and "answers has pv rd"
    and "data_inv d" and "nodup (sel_mset l)" and "list_all selection_wf l"
    and "\<And>h s. (h, s) \<in># sel_mset l \<Longrightarrow> data_lookup d h s = None"
  shows "case r of Inl e \<Rightarrow> reader_fails rd e
    | Inr d' \<Rightarrow> has_all has l \<and> data_inv d'
        \<and> (\<forall>h s. data_lookup d' h s = (if (h, s) \<in># sel_mset l then Some (pv h s) else data_lookup d h s))"
proof -
  have "answers has pv rd \<longrightarrow> data_inv d \<longrightarrow> nodup (sel_mset l) \<longrightarrow> list_all selection_wf l \<longrightarrow>
      (\<forall>h s. (h, s) \<in># sel_mset l \<longrightarrow> data_lookup d h s = None) \<longrightarrow>
      (case fst y of Inl e \<Rightarrow> reader_fails rd e
       | Inr d' \<Rightarrow> has_all has l \<and> data_inv d'
        \<and> (\<forall>h s. data_lookup d' h s = (if (h, s) \<in># sel_mset l then Some (pv h s) else data_lookup d h s)))"
    if "read_all_loop rd l d u = Some y" for rd :: "'a pcr_reader" and l d u y
  proof (rule read_all_loop.raw_induct [OF _ that], intro impI)
    fix rec and rd :: "'a pcr_reader" and l d u y
    assume IH: "\<And>rd l d u y. rec rd l d u = Some y \<Longrightarrow> answers has pv rd \<longrightarrow> data_inv d \<longrightarrow>
        nodup (sel_mset l) \<longrightarrow> list_all selection_wf l \<longrightarrow>
        (\<forall>h s. (h, s) \<in># sel_mset l \<longrightarrow> data_lookup d h s = None) \<longrightarrow>
        (case fst y of Inl e \<Rightarrow> reader_fails rd e
         | Inr d' \<Rightarrow> has_all has l \<and> data_inv d'
          \<and> (\<forall>h s. data_lookup d' h s = (if (h, s) \<in># sel_mset l then Some (pv h s) else data_lookup d h s)))"
      and body: "(if l = [] then Some (Inr d, u)
        else (case rd l u of
            (Inl e, u') \<Rightarrow> Some (Inl e, u')
          | (Inr (n, sel, ds), u') \<Rightarrow>
              (case bnd (data_add d sel ds) (\<lambda>data'. map_ok (Pair data') (list_subtract l sel)) of
                 Inl e \<Rightarrow> Some (Inl e, u')
               | Inr (data', l') \<Rightarrow> rec rd l' data' u'))) = Some y"
      and pre: "answers has pv rd" "data_inv d" "nodup (sel_mset l)" "list_all selection_wf l"
        "\<forall>h s. (h, s) \<in># sel_mset l \<longrightarrow> data_lookup d h s = None"
    show "case fst y of Inl e \<Rightarrow> reader_fails rd e
       | Inr d' \<Rightarrow> has_all has l \<and> data_inv d'
        \<and> (\<forall>h s. data_lookup d' h s = (if (h, s) \<in># sel_mset l then Some (pv h s) else data_lookup d h s))"
    proof (cases "l = []")
      case True
      then show ?thesis using body pre(2) by (auto simp: has_all_def)
    next
      case False
      obtain q u' where q: "rd l u = (q, u')" by fastforce
      show ?thesis
      proof (cases q)
        case (Inl e)
        then have "reader_fails rd e" unfolding reader_fails_def using q by blast
        then show ?thesis using False body q Inl by auto
      next
        case (Inr a)
        then obtain n sel ds where a: "rd l u = (Inr (n, sel, ds), u')" using q by (cases a) auto
        have fresh: "\<And>h s. (h, s) \<in># sel_mset l \<Longrightarrow> data_lookup d h s = None" using pre(5) by blast
        obtain e c where e: "data_add d sel ds = Inr e" "list_subtract l sel = Inr c" "data_inv e"
            "nodup (sel_mset c)" "list_all selection_wf c"
            "\<And>h s. (h, s) \<in># sel_mset c \<Longrightarrow> data_lookup e h s = None"
            "\<And>h s. data_lookup e h s = (if (h, s) \<in># sel_mset sel then Some (pv h s) else data_lookup d h s)"
            "sel_mset l = sel_mset sel + sel_mset c"
          using pass [OF pre(1-4) fresh False a] by blast
        then have "rec rd c e u' = Some y" using body False a by simp
        from IH [OF this] pre(1) e have res: "case fst y of Inl e \<Rightarrow> reader_fails rd e
         | Inr d' \<Rightarrow> has_all has c \<and> data_inv d'
          \<and> (\<forall>h s. data_lookup d' h s = (if (h, s) \<in># sel_mset c then Some (pv h s) else data_lookup e h s))"
          by blast
        have "\<forall>x \<in># sel_mset sel. has x" using pre(1,4) a unfolding answers_def by blast
        then show ?thesis using res e(7,8) by (cases "fst y") (auto simp: has_all_def)
      qed
    qed
  qed
  from this [OF assms(1)] show ?thesis using assms(2-5) assms(6) by simp
qed

text \<open>If the TPM has all that is selected, each pass makes progress: the measure below goes down.\<close>

definition left_to_read :: "pcr_selection list \<Rightarrow> nat" where
  "left_to_read l = (if l = [] then 0 else Suc (size (sel_mset l)))"

lemma read_all_loop_ends:
  assumes "answers has pv rd" and "data_inv d" and "nodup (sel_mset l)" and "list_all selection_wf l"
    and "\<And>h s. (h, s) \<in># sel_mset l \<Longrightarrow> data_lookup d h s = None" and "has_all has l"
  shows "read_all_loop rd l d u \<noteq> None"
  using assms(2-)
proof (induction "left_to_read l" arbitrary: l d u rule: less_induct)
  case less
  show ?case
  proof (cases "l = []")
    case True
    then show ?thesis by (simp add: read_all_loop.simps)
  next
    case False
    obtain q u' where q: "rd l u = (q, u')" by fastforce
    show ?thesis
    proof (cases q)
      case (Inl e)
      then show ?thesis using False q by (simp add: read_all_loop.simps)
    next
      case (Inr a)
      then obtain n sel ds where a: "rd l u = (Inr (n, sel, ds), u')" using q by (cases a) auto
      obtain e c where e: "data_add d sel ds = Inr e" "list_subtract l sel = Inr c" "data_inv e"
          "nodup (sel_mset c)" "list_all selection_wf c"
          "\<And>h s. (h, s) \<in># sel_mset c \<Longrightarrow> data_lookup e h s = None"
          "\<And>h s. data_lookup e h s = (if (h, s) \<in># sel_mset sel then Some (pv h s) else data_lookup d h s)"
          "sel_mset l = sel_mset sel + sel_mset c" "list_all (\<lambda>p. \<not> selection_is_empty p) c"
        using pass [OF assms(1) less.prems(1-4) False a] by blast
      have "left_to_read c < left_to_read l"
      proof (cases "sel_mset l = {#}")
        case True
        then have "c = []" using e(8,9) by (cases c) (auto simp: sel_pairs_empty)
        then show ?thesis using False by (simp add: left_to_read_def)
      next
        case ne: False
        then have "\<exists>x \<in># sel_mset l. has x" using less.prems(5) multiset_nonemptyE [OF ne] unfolding has_all_def by metis
        then have "sel_mset sel \<noteq> {#}" using assms(1) less.prems(3) a unfolding answers_def by blast
        then show ?thesis using False e(8) by (auto simp: left_to_read_def nonempty_has_size)
      qed
      moreover have "has_all has c" using less.prems(5) e(8) by (simp add: has_all_def)
      moreover have "read_all_loop rd l d u = read_all_loop rd c e u'"
        using False a e(1,2) by (subst read_all_loop.simps) simp
      ultimately show ?thesis using less.hyps [OF _ e(3-6)] by simp
    qed
  qed
qed

lemma read_all_result:
  assumes "answers has pv rd" and "nodup (sel_mset l)" and "list_all selection_wf l"
  shows "case read_all rd l u of
      None \<Rightarrow> \<not> has_all has l
    | Some (Inl e, u') \<Rightarrow> reader_fails rd e
    | Some (Inr d, u') \<Rightarrow> has_all has l \<and> reads_exactly pv l d \<and> data_inv d"
proof (cases "read_all rd l u")
  case None
  then have "\<not> has_all has l"
    using read_all_loop_ends [OF assms(1) _ assms(2,3), of "[]" u] by (auto simp: read_all_def)
  then show ?thesis using None by simp
next
  case (Some y)
  then have "read_all_loop rd l [] u = Some (fst y, snd y)" by (simp add: read_all_def)
  from read_all_loop_sound [OF this assms(1) _ assms(2,3)] show ?thesis
    using Some by (cases y) (auto simp: reads_exactly_def split: sum.splits cong: if_cong)
qed

text \<open>
  C17. What \<open>read_all\<close> does with a selection, in however many portions the TPM answers. If the TPM
  has every selected register, the loop ends; it ends with an error only when a read failed with
  that error; and when it ends with data, the TPM has every selected register and the data holds the
  value of each of them and nothing else. So a selection that names a register or a bank the TPM
  lacks is never answered: unless a read fails, the loop runs for ever. The selection is well formed and names no
  slot of a bank twice.
\<close>

theorem read_all_reads_selection:
  assumes "answers has pv rd" and "nodup (sel_mset l)" and "list_all selection_wf l"
  shows "case read_all rd l u of
      None \<Rightarrow> \<not> has_all has l
    | Some (Inl e, u') \<Rightarrow> reader_fails rd e
    | Some (Inr d, u') \<Rightarrow> has_all has l \<and> reads_exactly pv l d"
  using read_all_result [OF assms, of u] by (auto split: option.splits sum.splits)

text \<open>
  An instance: a TPM with some banks that gives the first slot it has of what it is asked for.
\<close>

definition first_slot_reader :: "(hashing_algorithm \<Rightarrow> bool) \<Rightarrow> pcr_values \<Rightarrow> 's pcr_reader" where
  "first_slot_reader banks pv l u =
     (let l' = filter (\<lambda>p. banks (sel_hash p)) (remove_empty_selections l) in
      (case l' of
         [] \<Rightarrow> (Inr (0, [], []), u)
       | p # ps \<Rightarrow>
           let s = hd (selected p);
               q = p \<lparr> sel_slots := (sel_slots p) \<lparr> pcr_slots := pcr_slot_u32 s \<rparr> \<rparr>
           in (Inr (0, [q], [pv (sel_hash p) s]), u)))"

definition sample_selection :: "pcr_selection list" where
  "sample_selection = [\<lparr> sel_hash = AlgSha256,
     sel_slots = \<lparr> pcr_select_size = ThreeOctets, pcr_slots = 0b101 \<rparr> \<rparr>]"

lemma nodup_sel_pairs: "nodup (sel_pairs p)"
proof -
  have "distinct (map (Pair (sel_hash p)) (selected p))"
    by (simp add: distinct_map inj_on_def)
  then show ?thesis by (simp add: nodup_def sel_pairs_selected distinct_count_atmost_1)
qed

lemma distinct_singleton: "distinct xs \<Longrightarrow> set xs = {x} \<Longrightarrow> xs = [x]"
  by (cases xs; cases "tl xs") auto

lemma single_slot_selected:
  "selected (p \<lparr> sel_slots := (sel_slots p) \<lparr> pcr_slots := pcr_slot_u32 s \<rparr> \<rparr>) = [s]"
proof -
  let ?q = "p \<lparr> sel_slots := (sel_slots p) \<lparr> pcr_slots := pcr_slot_u32 s \<rparr> \<rparr>"
  have "set (selected ?q) = {s}"
    by (auto simp: selected_def slot_simps slot_set_def bit_slot)
  then show ?thesis by (rule distinct_singleton [OF distinct_selected])
qed

lemma single_slot_pairs:
  "sel_pairs (p \<lparr> sel_slots := (sel_slots p) \<lparr> pcr_slots := pcr_slot_u32 s \<rparr> \<rparr>) = {#(sel_hash p, s)#}"
  by (simp add: sel_pairs_selected single_slot_selected)

lemma in_sel_mset: "x \<in># sel_mset l \<longleftrightarrow> (\<exists>p \<in> set l. x \<in># sel_pairs p)"
  by (induction l) auto

lemma empty_selections_pairs: "x \<in># sel_mset l \<longleftrightarrow> (\<exists>p \<in> set (remove_empty_selections l). x \<in># sel_pairs p)"
  unfolding in_sel_mset [symmetric] by simp

lemma first_slot_reader_answers:
  "answers (\<lambda>x. banks (fst x)) pv (first_slot_reader banks pv)"
  unfolding answers_def
proof (intro allI impI)
  fix l n sel ds u u'
  assume read: "first_slot_reader banks pv l u = (Inr (n, sel, ds), u')"
  let ?l = "filter (\<lambda>p. banks (sel_hash p)) (remove_empty_selections l)"
  show "sel_mset sel \<subseteq># sel_mset l \<and> ds = values_of pv sel \<and> (\<forall>x \<in># sel_mset sel. banks (fst x))
     \<and> ((\<exists>x \<in># sel_mset l. banks (fst x)) \<longrightarrow> sel_mset sel \<noteq> {#})"
  proof (cases ?l)
    case Nil
    then have "\<not> banks (fst x)" if "x \<in># sel_mset l" for x
      using that by (auto simp: empty_selections_pairs sel_pairs_selected filter_empty_conv)
    then show ?thesis using read Nil by (auto simp: first_slot_reader_def Let_def values_of_def)
  next
    case (Cons p ps)
    let ?s = "hd (selected p)"
    let ?q = "p \<lparr> sel_slots := (sel_slots p) \<lparr> pcr_slots := pcr_slot_u32 ?s \<rparr> \<rparr>"
    have "p \<in> set ?l" using Cons by simp
    then have p: "p \<in> set (remove_empty_selections l)" "banks (sel_hash p)" by simp_all
    then have "\<not> selection_is_empty p" by (simp add: remove_empty_selections_def)
    then have "sel_pairs p \<noteq> {#}" by (simp add: sel_pairs_empty)
    then have "selected p \<noteq> []" by (auto simp: sel_pairs_selected)
    then have "?s \<in> set (selected p)" by simp
    then have "(sel_hash p, ?s) \<in># sel_pairs p" by (auto simp: sel_pairs_selected)
    then have "(sel_hash p, ?s) \<in># sel_mset l" using p(1) empty_selections_pairs by blast
    then have sub: "{#(sel_hash p, ?s)#} \<subseteq># sel_mset l" by simp
    show ?thesis
      using read Cons sub p(2)
      by (auto simp: first_slot_reader_def Let_def values_of_def single_slot_pairs single_slot_selected)
  qed
qed

text \<open>Two banks are selected in the second list; the TPM has the first of them only.\<close>

definition sample_selections :: "pcr_selection list" where
  "sample_selections = sample_selection @ [\<lparr> sel_hash = AlgSha1,
     sel_slots = \<lparr> pcr_select_size = ThreeOctets, pcr_slots = 1 \<rparr> \<rparr>]"

abbreviation (input) sha256_reader :: "unit pcr_reader" where
  "sha256_reader \<equiv> first_slot_reader (\<lambda>h. h = AlgSha256) (\<lambda>h s. [of_nat (slot_index s)])"

lemma sample_selection_ok: "nodup (sel_mset sample_selection)" "list_all selection_wf sample_selection"
  by (simp_all add: sample_selection_def nodup_sel_pairs selection_wf_def wf_take_bit)

lemma sample_selections_ok: "nodup (sel_mset sample_selections)" "list_all selection_wf sample_selections"
proof -
  have "set_mset (sel_pairs p) \<inter> set_mset (sel_pairs q) = {}" if "sel_hash p \<noteq> sel_hash q" for p q
    using that by (auto simp: sel_pairs_selected)
  then show "nodup (sel_mset sample_selections)"
    by (simp add: sample_selections_def sample_selection_def nodup_sel_pairs nodup_add)
  show "list_all selection_wf sample_selections"
    by (simp add: sample_selections_def sample_selection_def selection_wf_def wf_take_bit)
qed

lemma sha256_reader_never_fails: "\<not> reader_fails (first_slot_reader banks pv) e"
  by (auto simp: reader_fails_def first_slot_reader_def Let_def split: list.splits)

theorem read_all_reads_selection_witness:
  "(\<exists>d. read_all sha256_reader sample_selection () = Some (Inr d, ())
     \<and> reads_exactly (\<lambda>h s. [of_nat (slot_index s)]) sample_selection d)
   \<and> read_all sha256_reader sample_selections () = None"
proof -
  note ans = first_slot_reader_answers [where banks = "\<lambda>h. h = AlgSha256" and pv = "\<lambda>h s. [of_nat (slot_index s)]"]
  have "has_all (\<lambda>x. fst x = AlgSha256) sample_selection"
    by (auto simp: has_all_def sample_selection_def sel_pairs_selected)
  moreover have "\<not> has_all (\<lambda>x. fst x = AlgSha256) sample_selections"
  proof -
    have "selected \<lparr> sel_hash = AlgSha1, sel_slots = \<lparr> pcr_select_size = ThreeOctets, pcr_slots = 1 \<rparr> \<rparr> = [Slot0]"
      by code_simp
    then show ?thesis by (auto simp: has_all_def sample_selections_def sel_pairs_selected)
  qed
  ultimately show ?thesis
    using read_all_reads_selection [OF ans sample_selection_ok, of "()"]
      read_all_reads_selection [OF ans sample_selections_ok, of "()"] sha256_reader_never_fails
    by (fastforce split: option.splits sum.splits)
qed

text \<open>
  Without that promise it need not end: a TPM that answers with no slot (it has no bank of the
  algorithm, say) is asked the same question for ever.
\<close>

definition always_empty :: "'s pcr_reader \<Rightarrow> bool" where
  "always_empty rd \<longleftrightarrow> (\<forall>l u. \<exists>n. rd l u = (Inr (n, [], []), u))"

lemma subtract_nothing: "l \<noteq> [] \<Longrightarrow> list_subtract l [] = Inr (remove_empty_selections l)"
  by (simp add: list_subtract_def)

theorem read_all_hangs:
  assumes "always_empty rd" and "sel_mset l \<noteq> {#}"
  shows "read_all rd l u = None"
proof -
  have "always_empty rd \<longrightarrow> sel_mset l = {#}" if "read_all_loop rd l d u = Some y"
    for rd :: "'a pcr_reader" and l d u y
  proof (rule read_all_loop.raw_induct [OF _ that], intro impI)
    fix rec and rd :: "'a pcr_reader" and l d u y
    assume IH: "\<And>rd l d u y. rec rd l d u = Some y \<Longrightarrow> always_empty rd \<longrightarrow> sel_mset l = {#}"
      and body: "(if l = [] then Some (Inr d, u)
        else (case rd l u of
            (Inl e, u') \<Rightarrow> Some (Inl e, u')
          | (Inr (n, sel, ds), u') \<Rightarrow>
              (case bnd (data_add d sel ds) (\<lambda>data'. map_ok (Pair data') (list_subtract l sel)) of
                 Inl e \<Rightarrow> Some (Inl e, u')
               | Inr (data', l') \<Rightarrow> rec rd l' data' u'))) = Some y"
      and rd: "always_empty rd"
    show "sel_mset l = {#}"
    proof (cases "l = []")
      case False
      obtain n where "rd l u = (Inr (n, [], []), u)" using rd by (auto simp: always_empty_def)
      then have "rec rd (remove_empty_selections l) d u = Some y"
        using body False by (simp add: subtract_nothing data_add_def)
      then have "sel_mset (remove_empty_selections l) = {#}" using IH rd by blast
      then show ?thesis by simp
    qed simp
  qed
  then show ?thesis using assms by (cases "read_all rd l u") (auto simp: read_all_def)
qed

theorem read_all_hangs_witness:
  "read_all (\<lambda>l u. (Inr (0, [], []), u)) sample_selection () = None"
proof (rule read_all_hangs)
  show "sel_mset sample_selection \<noteq> {#}"
    by (simp add: sample_selection_def sel_pairs_empty selection_is_empty_def collection_is_empty_def)
qed (simp add: always_empty_def)

end
