(* ===== verification/Tss_Capability.thy ===== *)
theory Tss_Capability
  imports Tss_Handles Ordered_Map
begin

text \<open>
  What a TPM reports of itself: property tags (\<open>constants/property_tag.rs\<close>), the capability data of
  \<open>TPM2_GetCapability\<close> (\<open>structures/capability_data.rs\<close>, \<open>structures/lists/handles.rs\<close>,
  \<open>tagged_tpm_property.rs\<close>), and two small types of the command interface: names
  (\<open>structures/names/name.rs\<close>) and digests for an extend (\<open>lists/digest_values.rs\<close>,
  \<open>hash/agile.rs\<close>).
\<close>

section \<open>Property tags\<close>

datatype property_tag =
    Pt_None | Pt_FamilyIndicator | Pt_Level | Pt_Revision | Pt_DayOfYear | Pt_Year |
    Pt_Manufacturer | Pt_VendorString1 | Pt_VendorString2 | Pt_VendorString3 | Pt_VendorString4 |
    Pt_VendorTPMType | Pt_FirmwareVersion1 | Pt_FirmwareVersion2 | Pt_InputBuffer |
    Pt_HrTransientMin | Pt_HrPersistentMin | Pt_HrLoadedMin | Pt_ActiveSessionsMax |
    Pt_PcrCount | Pt_PcrSelectMin | Pt_ContextGapMax | Pt_NvCountersMax | Pt_NvIndexMax |
    Pt_Memory | Pt_ClockUpdate | Pt_ContextHash | Pt_ContextSym | Pt_ContextSymSize |
    Pt_OrderlyCount | Pt_MaxCommandSize | Pt_MaxResponseSize | Pt_MaxDigest |
    Pt_MaxObjectContext | Pt_MaxSessionContext | Pt_PsFamilyIndicator | Pt_PsLevel |
    Pt_PsRevision | Pt_PsDayOfYear | Pt_PsYear | Pt_SplitMax | Pt_TotalCommands |
    Pt_LibraryCommands | Pt_VendorCommands | Pt_NvBufferMax | Pt_Modes | Pt_MaxCapBuffer |
    Pt_Permanent | Pt_StartupClear | Pt_HrNvIndex | Pt_HrLoaded | Pt_HrLoadedAvail |
    Pt_HrActive | Pt_HrActiveAvail | Pt_HrTransientAvail | Pt_HrPersistent |
    Pt_HrPersistentAvail | Pt_NvCounters | Pt_NvCountersAvail | Pt_AlgorithmSet |
    Pt_LoadedCurves | Pt_LockoutCounter | Pt_MaxAuthFail | Pt_LockoutInterval |
    Pt_LockoutRecovery | Pt_WriteRecovery | Pt_AuditCounter0 | Pt_AuditCounter1

primrec property_tag_u32 :: "property_tag \<Rightarrow> u32" where
  "property_tag_u32 Pt_None = 0x0"
| "property_tag_u32 Pt_FamilyIndicator = 0x100"
| "property_tag_u32 Pt_Level = 0x101"
| "property_tag_u32 Pt_Revision = 0x102"
| "property_tag_u32 Pt_DayOfYear = 0x103"
| "property_tag_u32 Pt_Year = 0x104"
| "property_tag_u32 Pt_Manufacturer = 0x105"
| "property_tag_u32 Pt_VendorString1 = 0x106"
| "property_tag_u32 Pt_VendorString2 = 0x107"
| "property_tag_u32 Pt_VendorString3 = 0x108"
| "property_tag_u32 Pt_VendorString4 = 0x109"
| "property_tag_u32 Pt_VendorTPMType = 0x10A"
| "property_tag_u32 Pt_FirmwareVersion1 = 0x10B"
| "property_tag_u32 Pt_FirmwareVersion2 = 0x10C"
| "property_tag_u32 Pt_InputBuffer = 0x10D"
| "property_tag_u32 Pt_HrTransientMin = 0x10E"
| "property_tag_u32 Pt_HrPersistentMin = 0x10F"
| "property_tag_u32 Pt_HrLoadedMin = 0x110"
| "property_tag_u32 Pt_ActiveSessionsMax = 0x111"
| "property_tag_u32 Pt_PcrCount = 0x112"
| "property_tag_u32 Pt_PcrSelectMin = 0x113"
| "property_tag_u32 Pt_ContextGapMax = 0x114"
| "property_tag_u32 Pt_NvCountersMax = 0x116"
| "property_tag_u32 Pt_NvIndexMax = 0x117"
| "property_tag_u32 Pt_Memory = 0x118"
| "property_tag_u32 Pt_ClockUpdate = 0x119"
| "property_tag_u32 Pt_ContextHash = 0x11A"
| "property_tag_u32 Pt_ContextSym = 0x11B"
| "property_tag_u32 Pt_ContextSymSize = 0x11C"
| "property_tag_u32 Pt_OrderlyCount = 0x11D"
| "property_tag_u32 Pt_MaxCommandSize = 0x11E"
| "property_tag_u32 Pt_MaxResponseSize = 0x11F"
| "property_tag_u32 Pt_MaxDigest = 0x120"
| "property_tag_u32 Pt_MaxObjectContext = 0x121"
| "property_tag_u32 Pt_MaxSessionContext = 0x122"
| "property_tag_u32 Pt_PsFamilyIndicator = 0x123"
| "property_tag_u32 Pt_PsLevel = 0x124"
| "property_tag_u32 Pt_PsRevision = 0x125"
| "property_tag_u32 Pt_PsDayOfYear = 0x126"
| "property_tag_u32 Pt_PsYear = 0x127"
| "property_tag_u32 Pt_SplitMax = 0x128"
| "property_tag_u32 Pt_TotalCommands = 0x129"
| "property_tag_u32 Pt_LibraryCommands = 0x12A"
| "property_tag_u32 Pt_VendorCommands = 0x12B"
| "property_tag_u32 Pt_NvBufferMax = 0x12C"
| "property_tag_u32 Pt_Modes = 0x12D"
| "property_tag_u32 Pt_MaxCapBuffer = 0x12E"
| "property_tag_u32 Pt_Permanent = 0x200"
| "property_tag_u32 Pt_StartupClear = 0x201"
| "property_tag_u32 Pt_HrNvIndex = 0x202"
| "property_tag_u32 Pt_HrLoaded = 0x203"
| "property_tag_u32 Pt_HrLoadedAvail = 0x204"
| "property_tag_u32 Pt_HrActive = 0x205"
| "property_tag_u32 Pt_HrActiveAvail = 0x206"
| "property_tag_u32 Pt_HrTransientAvail = 0x207"
| "property_tag_u32 Pt_HrPersistent = 0x208"
| "property_tag_u32 Pt_HrPersistentAvail = 0x209"
| "property_tag_u32 Pt_NvCounters = 0x20A"
| "property_tag_u32 Pt_NvCountersAvail = 0x20B"
| "property_tag_u32 Pt_AlgorithmSet = 0x20C"
| "property_tag_u32 Pt_LoadedCurves = 0x20D"
| "property_tag_u32 Pt_LockoutCounter = 0x20E"
| "property_tag_u32 Pt_MaxAuthFail = 0x20F"
| "property_tag_u32 Pt_LockoutInterval = 0x210"
| "property_tag_u32 Pt_LockoutRecovery = 0x211"
| "property_tag_u32 Pt_WriteRecovery = 0x212"
| "property_tag_u32 Pt_AuditCounter0 = 0x213"
| "property_tag_u32 Pt_AuditCounter1 = 0x214"

definition all_property_tags :: "property_tag list" where
  "all_property_tags = [
    Pt_None, Pt_FamilyIndicator, Pt_Level, Pt_Revision, Pt_DayOfYear, Pt_Year, Pt_Manufacturer,
    Pt_VendorString1, Pt_VendorString2, Pt_VendorString3, Pt_VendorString4, Pt_VendorTPMType,
    Pt_FirmwareVersion1, Pt_FirmwareVersion2, Pt_InputBuffer, Pt_HrTransientMin,
    Pt_HrPersistentMin, Pt_HrLoadedMin, Pt_ActiveSessionsMax, Pt_PcrCount, Pt_PcrSelectMin,
    Pt_ContextGapMax, Pt_NvCountersMax, Pt_NvIndexMax, Pt_Memory, Pt_ClockUpdate, Pt_ContextHash,
    Pt_ContextSym, Pt_ContextSymSize, Pt_OrderlyCount, Pt_MaxCommandSize, Pt_MaxResponseSize,
    Pt_MaxDigest, Pt_MaxObjectContext, Pt_MaxSessionContext, Pt_PsFamilyIndicator, Pt_PsLevel,
    Pt_PsRevision, Pt_PsDayOfYear, Pt_PsYear, Pt_SplitMax, Pt_TotalCommands, Pt_LibraryCommands,
    Pt_VendorCommands, Pt_NvBufferMax, Pt_Modes, Pt_MaxCapBuffer, Pt_Permanent, Pt_StartupClear,
    Pt_HrNvIndex, Pt_HrLoaded, Pt_HrLoadedAvail, Pt_HrActive, Pt_HrActiveAvail,
    Pt_HrTransientAvail, Pt_HrPersistent, Pt_HrPersistentAvail, Pt_NvCounters,
    Pt_NvCountersAvail, Pt_AlgorithmSet, Pt_LoadedCurves, Pt_LockoutCounter, Pt_MaxAuthFail,
    Pt_LockoutInterval, Pt_LockoutRecovery, Pt_WriteRecovery, Pt_AuditCounter0, Pt_AuditCounter1]"

definition property_tag_try_from :: "u32 \<Rightarrow> property_tag tss" where
  "property_tag_try_from w =
     some_or InvalidParam (List.find (\<lambda>t. property_tag_u32 t = w) all_property_tags)"

lemma property_tag_listed: "t \<in> set all_property_tags"
  by (cases t) (simp_all add: all_property_tags_def)

lemma property_tag_try_from_u32: "property_tag_try_from w = Inr t \<Longrightarrow> property_tag_u32 t = w"
  by (auto simp: property_tag_try_from_def find_Some_iff)

lemma property_tag_known:
  "is_ok (property_tag_try_from w) \<longleftrightarrow> (\<exists>t. property_tag_u32 t = w)"
  using property_tag_listed
  by (auto simp: property_tag_try_from_def local_error_def find_None_iff find_Some_iff some_or_def split: option.splits)

section \<open>Capability data\<close>

datatype capability_type =
    Cap_Algorithms | Cap_Handles | Cap_Command | Cap_PpCommands | Cap_AuditCommands
  | Cap_AssignedPcr | Cap_TpmProperties | Cap_PcrProperties | Cap_EccCurves
  | Cap_AuthPolicies | Cap_Act

primrec capability_type_u32 :: "capability_type \<Rightarrow> u32" where
  "capability_type_u32 Cap_Algorithms = 0"
| "capability_type_u32 Cap_Handles = 1"
| "capability_type_u32 Cap_Command = 2"
| "capability_type_u32 Cap_PpCommands = 3"
| "capability_type_u32 Cap_AuditCommands = 4"
| "capability_type_u32 Cap_AssignedPcr = 5"
| "capability_type_u32 Cap_TpmProperties = 6"
| "capability_type_u32 Cap_PcrProperties = 7"
| "capability_type_u32 Cap_EccCurves = 8"
| "capability_type_u32 Cap_AuthPolicies = 9"
| "capability_type_u32 Cap_Act = 10"

definition capability_type_try_from :: "u32 \<Rightarrow> capability_type tss" where
  "capability_type_try_from w = some_or InvalidParam
     (List.find (\<lambda>c. capability_type_u32 c = w)
        [Cap_Algorithms, Cap_Handles, Cap_Command, Cap_PpCommands, Cap_AuditCommands,
         Cap_AssignedPcr, Cap_TpmProperties, Cap_PcrProperties, Cap_EccCurves,
         Cap_AuthPolicies, Cap_Act])"

lemma capability_type_roundtrip [simp]: "capability_type_try_from (capability_type_u32 c) = Inr c"
  by (cases c) (simp_all add: capability_type_try_from_def)

text \<open>
  \<open>TPMS_CAPABILITY_DATA\<close> is a tag and a C union. The two members the wrapper's callers read are
  their count and array; of the others the model keeps the outcome of their conversion.
\<close>

record raw_capability =
  raw_capability_tag :: u32
  raw_handles :: "u32 \<times> u32 list"
  raw_tpm_properties :: "u32 \<times> (u32 \<times> u32) list"
  raw_others :: "unit tss"

definition max_cap_size :: "nat \<Rightarrow> nat" where
  "max_cap_size n = (1024 - 4 - 4) div n"

definition handle_list_try_from :: "u32 \<times> u32 list \<Rightarrow> tpm_handle list tss" where
  "handle_list_try_from t =
     (if unat (fst t) > max_cap_size 4 then local_error InvalidParam
      else bnd (index_range (snd t) 0 (unat (fst t))) (mapM tpm_handle_try_from))"

definition tagged_property_try_from :: "u32 \<times> u32 \<Rightarrow> (property_tag \<times> u32) tss" where
  "tagged_property_try_from t = map_ok (\<lambda>p. (p, snd t)) (property_tag_try_from (fst t))"

definition tagged_property_list_try_from ::
  "u32 \<times> (u32 \<times> u32) list \<Rightarrow> (property_tag \<times> u32) list tss" where
  "tagged_property_list_try_from t =
     (if unat (fst t) > max_cap_size 8 then local_error InvalidParam
      else bnd (index_range (snd t) 0 (unat (fst t))) (mapM tagged_property_try_from))"

datatype capability_data =
    CapHandles "tpm_handle list"
  | CapTpmProperties "(property_tag \<times> u32) list"
  | CapOther capability_type

definition capability_data_try_from :: "raw_capability \<Rightarrow> capability_data tss" where
  "capability_data_try_from t =
     bnd (capability_type_try_from (raw_capability_tag t)) (\<lambda>c. case c of
       Cap_Handles \<Rightarrow> map_ok CapHandles (handle_list_try_from (raw_handles t))
     | Cap_TpmProperties \<Rightarrow> map_ok CapTpmProperties (tagged_property_list_try_from (raw_tpm_properties t))
     | Cap_AuthPolicies \<Rightarrow> local_error UnsupportedParam
     | Cap_Act \<Rightarrow> local_error UnsupportedParam
     | _ \<Rightarrow> bnd (raw_others t) (\<lambda>_. Inr (CapOther c)))"

definition yes_no_try_from :: "u8 \<Rightarrow> bool tss" where
  "yes_no_try_from b = (if b = 0 then Inr False else if b = 1 then Inr True else local_error InvalidParam)"

text \<open>One tag outside the list fails the conversion of the whole answer.\<close>

lemma tagged_property_list_unknown:
  assumes "unat n \<le> length ps" and "(w, v) \<in> set (take (unat n) ps)"
    and "\<nexists>t. property_tag_u32 t = w"
  shows "\<not> is_ok (tagged_property_list_try_from (n, ps))"
proof -
  have "\<not> is_ok (tagged_property_try_from (w, v))"
    using assms(3) property_tag_known [of w]
    by (auto simp: tagged_property_try_from_def is_ok_iff)
  then have "\<not> is_ok (mapM tagged_property_try_from (take (unat n) ps))"
    using assms(2) by (auto simp: is_ok_mapM)
  then show ?thesis using assms(1) by (auto simp: tagged_property_list_try_from_def local_error_def)
qed

section \<open>Names and digests\<close>

definition NAME_MAX :: nat where "NAME_MAX = 68"

definition name_try_from :: "u16 \<times> bytes \<Rightarrow> (u16 \<times> bytes) tss" where
  "name_try_from t = (if unat (fst t) > NAME_MAX then local_error InvalidParam else Inr t)"

definition hash_agile_to_tss :: "hashing_algorithm \<times> bytes \<Rightarrow> (u16 \<times> bytes) tss" where
  "hash_agile_to_tss ha = (case ha of (alg, d) \<Rightarrow>
     bnd (case alg of
         AlgSha1 \<Rightarrow> digest_array 20 d
       | AlgSha256 \<Rightarrow> digest_array 32 d
       | AlgSha384 \<Rightarrow> digest_array 48 d
       | AlgSha512 \<Rightarrow> digest_array 64 d
       | AlgSm3_256 \<Rightarrow> digest_array 32 d
       | _ \<Rightarrow> local_error UnsupportedParam) (\<lambda>x. Inr (hash_alg_u16 alg, x)))"

text \<open>\<open>DigestValues\<close>: a map drained in some order; the C array holds 16 entries.\<close>

type_synonym digest_values = "(hashing_algorithm \<times> bytes) list"

definition digest_values_set :: "hashing_algorithm \<Rightarrow> bytes \<Rightarrow> digest_values \<Rightarrow> digest_values" where
  "digest_values_set alg d vs = (alg, d) # filter (\<lambda>(a, _). a \<noteq> alg) vs"

definition digest_values_to_tss :: "digest_values \<Rightarrow> (u16 \<times> bytes) list tss" where
  "digest_values_to_tss vs = mapM hash_agile_to_tss vs"

end
