(* ===== verification/Tss_Attest.thy ===== *)
theory Tss_Attest
  imports Tss_Capability Tss_Pcr
begin

text \<open>
  Attestation structures and signatures of the wrapper (\<open>structures/attestation/\<close>,
  \<open>structures/clock/\<close>, \<open>structures/signatures.rs\<close>, \<open>structures/tagged/signature.rs\<close>): what
  \<open>TPM2_Quote\<close> returns, and its conversions to and from the structures of the C library. A C
  union is a datatype with a constructor per member; reading it as another member than the one it
  holds, which the tag beside it rules out, stops the model.
\<close>

section \<open>Attestation types\<close>

datatype structure_tag =
    St_RspCommand | St_Null | St_NoSessions | St_Sessions | St_AttestNv | St_AttestCommandAudit
  | St_AttestSessionAudit | St_AttestCertify | St_AttestQuote | St_AttestTime
  | St_AttestCreation | St_AttestNvDigest | St_Creation | St_Verified | St_AuthSecret
  | St_Hashcheck | St_AuthSigned | St_FuManifest

primrec structure_tag_u16 :: "structure_tag \<Rightarrow> u16" where
  "structure_tag_u16 St_RspCommand = 0x00C4"
| "structure_tag_u16 St_Null = 0x8000"
| "structure_tag_u16 St_NoSessions = 0x8001"
| "structure_tag_u16 St_Sessions = 0x8002"
| "structure_tag_u16 St_AttestNv = 0x8014"
| "structure_tag_u16 St_AttestCommandAudit = 0x8015"
| "structure_tag_u16 St_AttestSessionAudit = 0x8016"
| "structure_tag_u16 St_AttestCertify = 0x8017"
| "structure_tag_u16 St_AttestQuote = 0x8018"
| "structure_tag_u16 St_AttestTime = 0x8019"
| "structure_tag_u16 St_AttestCreation = 0x801A"
| "structure_tag_u16 St_AttestNvDigest = 0x801C"
| "structure_tag_u16 St_Creation = 0x8021"
| "structure_tag_u16 St_Verified = 0x8022"
| "structure_tag_u16 St_AuthSecret = 0x8023"
| "structure_tag_u16 St_Hashcheck = 0x8024"
| "structure_tag_u16 St_AuthSigned = 0x8025"
| "structure_tag_u16 St_FuManifest = 0x8029"

definition structure_tag_try_from :: "u16 \<Rightarrow> structure_tag tss" where
  "structure_tag_try_from w = some_or InvalidParam
     (List.find (\<lambda>t. structure_tag_u16 t = w)
        [St_RspCommand, St_Null, St_NoSessions, St_Sessions, St_AttestNv, St_AttestCommandAudit,
         St_AttestSessionAudit, St_AttestCertify, St_AttestQuote, St_AttestTime,
         St_AttestCreation, St_AttestNvDigest, St_Creation, St_Verified, St_AuthSecret,
         St_Hashcheck, St_AuthSigned, St_FuManifest])"

datatype attestation_type =
    At_Certify | At_Quote | At_SessionAudit | At_CommandAudit | At_Time | At_Creation | At_Nv | At_NvDigest

primrec attestation_type_tag :: "attestation_type \<Rightarrow> structure_tag" where
  "attestation_type_tag At_Certify = St_AttestCertify"
| "attestation_type_tag At_Quote = St_AttestQuote"
| "attestation_type_tag At_SessionAudit = St_AttestSessionAudit"
| "attestation_type_tag At_CommandAudit = St_AttestCommandAudit"
| "attestation_type_tag At_Time = St_AttestTime"
| "attestation_type_tag At_Creation = St_AttestCreation"
| "attestation_type_tag At_Nv = St_AttestNv"
| "attestation_type_tag At_NvDigest = St_AttestNvDigest"

fun attestation_type_of_tag :: "structure_tag \<Rightarrow> attestation_type tss" where
  "attestation_type_of_tag St_AttestCertify = Inr At_Certify"
| "attestation_type_of_tag St_AttestQuote = Inr At_Quote"
| "attestation_type_of_tag St_AttestSessionAudit = Inr At_SessionAudit"
| "attestation_type_of_tag St_AttestCommandAudit = Inr At_CommandAudit"
| "attestation_type_of_tag St_AttestTime = Inr At_Time"
| "attestation_type_of_tag St_AttestCreation = Inr At_Creation"
| "attestation_type_of_tag St_AttestNv = Inr At_Nv"
| "attestation_type_of_tag St_AttestNvDigest = Inr At_NvDigest"
| "attestation_type_of_tag _ = local_error InvalidParam"

definition attestation_type_u16 :: "attestation_type \<Rightarrow> u16" where
  "attestation_type_u16 t = structure_tag_u16 (attestation_type_tag t)"

definition attestation_type_try_from :: "u16 \<Rightarrow> attestation_type tss" where
  "attestation_type_try_from w = bnd (structure_tag_try_from w) attestation_type_of_tag"

lemma attestation_type_roundtrip [simp]:
  "attestation_type_try_from (attestation_type_u16 t) = Inr t"
  by (cases t) (simp_all add: attestation_type_try_from_def attestation_type_u16_def structure_tag_try_from_def)

section \<open>Clock\<close>

record clock_info =
  clock :: u64
  reset_count :: u32
  restart_count :: u32
  clock_safe :: bool

record tpms_clock_info =
  raw_clock :: u64
  raw_reset_count :: u32
  raw_restart_count :: u32
  raw_safe :: u8

definition clock_info_try_from :: "tpms_clock_info \<Rightarrow> clock_info tss" where
  "clock_info_try_from t = bnd (yes_no_try_from (raw_safe t)) (\<lambda>s.
     Inr \<lparr> clock = raw_clock t, reset_count = raw_reset_count t,
           restart_count = raw_restart_count t, clock_safe = s \<rparr>)"

definition yes_no_u8 :: "bool \<Rightarrow> u8" where
  "yes_no_u8 b = (if b then 1 else 0)"

definition clock_info_to_tss :: "clock_info \<Rightarrow> tpms_clock_info" where
  "clock_info_to_tss c = \<lparr> raw_clock = clock c, raw_reset_count = reset_count c,
     raw_restart_count = restart_count c, raw_safe = yes_no_u8 (clock_safe c) \<rparr>"

lemma yes_no_roundtrip [simp]: "yes_no_try_from (yes_no_u8 b) = Inr b"
  by (simp add: yes_no_try_from_def yes_no_u8_def)

lemma clock_info_roundtrip [simp]: "clock_info_try_from (clock_info_to_tss c) = Inr c"
  by (simp add: clock_info_try_from_def clock_info_to_tss_def)

section \<open>The attested information\<close>

text \<open>
  Per type of attestation, the structure of the C library and the wrapper's; a quote names the
  selection of PCRs and the digest of their values.
\<close>

record quote_info =
  quoted_selection :: "pcr_selection list"
  quoted_digest :: bytes

type_synonym tpms_quote_info = "(u32 \<times> tpms_pcr_selection list) \<times> (u16 \<times> bytes)"

definition quote_info_try_from :: "tpms_quote_info \<Rightarrow> quote_info tss" where
  "quote_info_try_from t = bnd (selection_list_try_from (fst t)) (\<lambda>s.
     bnd (buffer_of_tss DIGEST_MAX (snd t)) (\<lambda>d.
     Inr \<lparr> quoted_selection = s, quoted_digest = d \<rparr>))"

definition quote_info_to_tss :: "quote_info \<Rightarrow> tpms_quote_info tss" where
  "quote_info_to_tss q = bnd (selection_list_to_tpml (quoted_selection q)) (\<lambda>s.
     Inr (s, buffer_to_tss DIGEST_MAX (quoted_digest q)))"

definition quote_info_wf :: "quote_info \<Rightarrow> bool" where
  "quote_info_wf q \<longleftrightarrow> length (quoted_selection q) \<le> SELECTION_LIST_MAX
     \<and> list_all selection_wf (quoted_selection q) \<and> length (quoted_digest q) \<le> DIGEST_MAX"

lemma selection_list_roundtrip:
  assumes "list_all selection_wf l" and "selection_list_to_tpml l = Inr t"
  shows "selection_list_try_from t = Inr l"
proof -
  have len: "length l \<le> 16" and t: "t = (of_nat (length l), map selection_to_tss l
      @ replicate (16 - length l) default_tpms)"
    using assms(2) by (auto simp: selection_list_to_tpml_def SELECTION_LIST_MAX_def split: if_splits)
  have "unat (of_nat (length l) :: u32) = length l"
    using len by (simp add: unat_of_nat)
  moreover have "mapM selection_try_from (map selection_to_tss l) = Inr l"
    using assms(1) by (intro mapM_id) (auto simp: list_all_iff intro: selection_roundtrip)
  ultimately show ?thesis
    using len by (simp add: t selection_list_try_from_def SELECTION_LIST_MAX_def)
qed

lemma digest_buffer_roundtrip [simp]:
  "length d \<le> DIGEST_MAX \<Longrightarrow> buffer_of_tss DIGEST_MAX (buffer_to_tss DIGEST_MAX d) = Inr d"
  by (rule buffer_roundtrip) (simp_all add: DIGEST_MAX_def)

lemma quote_info_roundtrip:
  assumes "quote_info_wf q"
  shows "\<exists>t. quote_info_to_tss q = Inr t \<and> quote_info_try_from t = Inr q"
proof -
  obtain s where s: "selection_list_to_tpml (quoted_selection q) = Inr s"
    using assms by (simp add: quote_info_wf_def selection_list_to_tpml_def)
  then have "selection_list_try_from s = Inr (quoted_selection q)"
    using assms by (intro selection_list_roundtrip) (simp_all add: quote_info_wf_def)
  then show ?thesis
    using s assms by (simp add: quote_info_to_tss_def quote_info_try_from_def quote_info_wf_def)
qed

text \<open>The other kinds: certification of an object, audits, time, creation, an NV index.\<close>

type_synonym name = "u16 \<times> bytes"

record certify_info =
  certified_name :: name
  certified_qualified_name :: name

definition certify_info_try_from :: "name \<times> name \<Rightarrow> certify_info tss" where
  "certify_info_try_from t = bnd (name_try_from (fst t)) (\<lambda>n. bnd (name_try_from (snd t)) (\<lambda>q.
     Inr \<lparr> certified_name = n, certified_qualified_name = q \<rparr>))"

definition certify_info_to_tss :: "certify_info \<Rightarrow> name \<times> name" where
  "certify_info_to_tss c = (certified_name c, certified_qualified_name c)"

record session_audit_info =
  exclusive_session :: bool
  session_digest :: bytes

definition session_audit_info_try_from :: "u8 \<times> (u16 \<times> bytes) \<Rightarrow> session_audit_info tss" where
  "session_audit_info_try_from t = bnd (yes_no_try_from (fst t)) (\<lambda>e.
     bnd (buffer_of_tss DIGEST_MAX (snd t)) (\<lambda>d.
     Inr \<lparr> exclusive_session = e, session_digest = d \<rparr>))"

definition session_audit_info_to_tss :: "session_audit_info \<Rightarrow> u8 \<times> (u16 \<times> bytes)" where
  "session_audit_info_to_tss s =
     (yes_no_u8 (exclusive_session s), buffer_to_tss DIGEST_MAX (session_digest s))"

record command_audit_info =
  audit_counter :: u64
  audit_hash :: hashing_algorithm
  audit_digest :: bytes
  command_digest :: bytes

definition command_audit_info_try_from ::
  "u64 \<times> u16 \<times> (u16 \<times> bytes) \<times> (u16 \<times> bytes) \<Rightarrow> command_audit_info tss" where
  "command_audit_info_try_from t = (case t of (n, alg, a, c) \<Rightarrow>
     bnd (bnd (alg_id_try_from alg) hash_alg_of_id) (\<lambda>h.
     bnd (buffer_of_tss DIGEST_MAX a) (\<lambda>ad.
     bnd (buffer_of_tss DIGEST_MAX c) (\<lambda>cd.
     Inr \<lparr> audit_counter = n, audit_hash = h, audit_digest = ad, command_digest = cd \<rparr>))))"

definition command_audit_info_to_tss ::
  "command_audit_info \<Rightarrow> u64 \<times> u16 \<times> (u16 \<times> bytes) \<times> (u16 \<times> bytes)" where
  "command_audit_info_to_tss c =
     (audit_counter c, alg_id_u16 (hash_alg_id (audit_hash c)),
      buffer_to_tss DIGEST_MAX (audit_digest c), buffer_to_tss DIGEST_MAX (command_digest c))"

record time_info =
  time_value :: u64
  time_clock_info :: clock_info

definition time_info_try_from :: "u64 \<times> tpms_clock_info \<Rightarrow> time_info tss" where
  "time_info_try_from t = bnd (clock_info_try_from (snd t)) (\<lambda>c.
     Inr \<lparr> time_value = fst t, time_clock_info = c \<rparr>)"

definition time_info_to_tss :: "time_info \<Rightarrow> u64 \<times> tpms_clock_info" where
  "time_info_to_tss i = (time_value i, clock_info_to_tss (time_clock_info i))"

record time_attest_info =
  attested_time :: time_info
  time_firmware_version :: u64

definition time_attest_info_try_from :: "(u64 \<times> tpms_clock_info) \<times> u64 \<Rightarrow> time_attest_info tss" where
  "time_attest_info_try_from t = bnd (time_info_try_from (fst t)) (\<lambda>i.
     Inr \<lparr> attested_time = i, time_firmware_version = snd t \<rparr>)"

definition time_attest_info_to_tss :: "time_attest_info \<Rightarrow> (u64 \<times> tpms_clock_info) \<times> u64" where
  "time_attest_info_to_tss i = (time_info_to_tss (attested_time i), time_firmware_version i)"

record creation_info =
  created_name :: name
  creation_hash :: bytes

definition creation_info_try_from :: "name \<times> (u16 \<times> bytes) \<Rightarrow> creation_info tss" where
  "creation_info_try_from t = bnd (name_try_from (fst t)) (\<lambda>n.
     bnd (buffer_of_tss DIGEST_MAX (snd t)) (\<lambda>h.
     Inr \<lparr> created_name = n, creation_hash = h \<rparr>))"

definition creation_info_to_tss :: "creation_info \<Rightarrow> name \<times> (u16 \<times> bytes)" where
  "creation_info_to_tss c = (created_name c, buffer_to_tss DIGEST_MAX (creation_hash c))"

record nv_certify_info =
  nv_index_name :: name
  nv_offset :: u16
  nv_contents :: bytes

definition nv_certify_info_try_from :: "name \<times> u16 \<times> (u16 \<times> bytes) \<Rightarrow> nv_certify_info tss" where
  "nv_certify_info_try_from t = (case t of (n, off, c) \<Rightarrow>
     bnd (name_try_from n) (\<lambda>n'. bnd (buffer_of_tss MAX_NV_BUFFER c) (\<lambda>b.
     Inr \<lparr> nv_index_name = n', nv_offset = off, nv_contents = b \<rparr>)))"

definition nv_certify_info_to_tss :: "nv_certify_info \<Rightarrow> name \<times> u16 \<times> (u16 \<times> bytes)" where
  "nv_certify_info_to_tss i =
     (nv_index_name i, nv_offset i, buffer_to_tss MAX_NV_BUFFER (nv_contents i))"

section \<open>Attestation data\<close>

datatype tpmu_attest =
    Raw_Certify "name \<times> name"
  | Raw_Quote tpms_quote_info
  | Raw_SessionAudit "u8 \<times> (u16 \<times> bytes)"
  | Raw_CommandAudit "u64 \<times> u16 \<times> (u16 \<times> bytes) \<times> (u16 \<times> bytes)"
  | Raw_Time "(u64 \<times> tpms_clock_info) \<times> u64"
  | Raw_Creation "name \<times> (u16 \<times> bytes)"
  | Raw_Nv "name \<times> u16 \<times> (u16 \<times> bytes)"

record tpms_attest =
  raw_magic :: u32
  raw_type :: u16
  raw_qualified_signer :: name
  raw_extra_data :: "u16 \<times> bytes"
  raw_clock_info :: tpms_clock_info
  raw_firmware_version :: u64
  raw_attested :: tpmu_attest

datatype attest_info =
    CertifyAttest certify_info
  | QuoteAttest quote_info
  | SessionAuditAttest session_audit_info
  | CommandAuditAttest command_audit_info
  | TimeAttest time_attest_info
  | CreationAttest creation_info
  | NvAttest nv_certify_info

record attest =
  attestation_type :: attestation_type
  qualified_signer :: name
  extra_data :: bytes
  attest_clock_info :: clock_info
  firmware_version :: u64
  attested :: attest_info

definition TPM2_GENERATED_VALUE :: u32 where "TPM2_GENERATED_VALUE = 0xff544347"

definition other_member :: "'a tss" where
  "other_member = Inl (Aborted ''read of another member of a union'')"

definition attested_try_from :: "attestation_type \<Rightarrow> tpmu_attest \<Rightarrow> attest_info tss" where
  "attested_try_from ty u = (case ty of
       At_Certify \<Rightarrow> (case u of Raw_Certify t \<Rightarrow> map_ok CertifyAttest (certify_info_try_from t) | _ \<Rightarrow> other_member)
     | At_Quote \<Rightarrow> (case u of Raw_Quote t \<Rightarrow> map_ok QuoteAttest (quote_info_try_from t) | _ \<Rightarrow> other_member)
     | At_SessionAudit \<Rightarrow>
         (case u of Raw_SessionAudit t \<Rightarrow> map_ok SessionAuditAttest (session_audit_info_try_from t) | _ \<Rightarrow> other_member)
     | At_CommandAudit \<Rightarrow>
         (case u of Raw_CommandAudit t \<Rightarrow> map_ok CommandAuditAttest (command_audit_info_try_from t) | _ \<Rightarrow> other_member)
     | At_Time \<Rightarrow> (case u of Raw_Time t \<Rightarrow> map_ok TimeAttest (time_attest_info_try_from t) | _ \<Rightarrow> other_member)
     | At_Creation \<Rightarrow> (case u of Raw_Creation t \<Rightarrow> map_ok CreationAttest (creation_info_try_from t) | _ \<Rightarrow> other_member)
     | At_Nv \<Rightarrow> (case u of Raw_Nv t \<Rightarrow> map_ok NvAttest (nv_certify_info_try_from t) | _ \<Rightarrow> other_member)
     | At_NvDigest \<Rightarrow> local_error UnsupportedParam)"

definition attest_try_from :: "tpms_attest \<Rightarrow> attest tss" where
  "attest_try_from t =
     (if raw_magic t \<noteq> TPM2_GENERATED_VALUE then local_error InvalidParam
      else bnd (attestation_type_try_from (raw_type t)) (\<lambda>ty.
           bnd (name_try_from (raw_qualified_signer t)) (\<lambda>n.
           bnd (buffer_of_tss DATA_MAX (raw_extra_data t)) (\<lambda>x.
           bnd (clock_info_try_from (raw_clock_info t)) (\<lambda>c.
           bnd (attested_try_from ty (raw_attested t)) (\<lambda>i.
           Inr \<lparr> attestation_type = ty, qualified_signer = n, extra_data = x,
                 attest_clock_info = c, firmware_version = raw_firmware_version t,
                 attested = i \<rparr>))))))"

primrec attested_to_tss :: "attest_info \<Rightarrow> tpmu_attest tss" where
  "attested_to_tss (CertifyAttest i) = Inr (Raw_Certify (certify_info_to_tss i))"
| "attested_to_tss (QuoteAttest i) = map_ok Raw_Quote (quote_info_to_tss i)"
| "attested_to_tss (SessionAuditAttest i) = Inr (Raw_SessionAudit (session_audit_info_to_tss i))"
| "attested_to_tss (CommandAuditAttest i) = Inr (Raw_CommandAudit (command_audit_info_to_tss i))"
| "attested_to_tss (TimeAttest i) = Inr (Raw_Time (time_attest_info_to_tss i))"
| "attested_to_tss (CreationAttest i) = Inr (Raw_Creation (creation_info_to_tss i))"
| "attested_to_tss (NvAttest i) = Inr (Raw_Nv (nv_certify_info_to_tss i))"

definition attest_to_tss :: "attest \<Rightarrow> tpms_attest tss" where
  "attest_to_tss a = bnd (attested_to_tss (attested a)) (\<lambda>u.
     Inr \<lparr> raw_magic = TPM2_GENERATED_VALUE,
           raw_type = attestation_type_u16 (attestation_type a),
           raw_qualified_signer = qualified_signer a,
           raw_extra_data = buffer_to_tss DATA_MAX (extra_data a),
           raw_clock_info = clock_info_to_tss (attest_clock_info a),
           raw_firmware_version = firmware_version a, raw_attested = u \<rparr>)"

text \<open>
  A well-formed quote: what a TPM signs is the byte form of such a structure. It survives the
  conversions, so it can be written out again as it was.
\<close>

definition quote_attest_wf :: "attest \<Rightarrow> bool" where
  "quote_attest_wf a \<longleftrightarrow> attestation_type a = At_Quote
     \<and> unat (fst (qualified_signer a)) \<le> NAME_MAX
     \<and> qualified_signer a = buffer_to_tss NAME_MAX (take (unat (fst (qualified_signer a))) (snd (qualified_signer a)))
     \<and> length (extra_data a) \<le> DATA_MAX
     \<and> (case attested a of QuoteAttest q \<Rightarrow> quote_info_wf q | _ \<Rightarrow> False)"

lemma quote_attest_roundtrip:
  assumes "quote_attest_wf a"
  shows "\<exists>t. attest_to_tss a = Inr t \<and> attest_try_from t = Inr a"
proof -
  obtain q where q: "attested a = QuoteAttest q" "quote_info_wf q"
    using assms by (auto simp: quote_attest_wf_def split: attest_info.splits)
  obtain u where u: "quote_info_to_tss q = Inr u" "quote_info_try_from u = Inr q"
    using quote_info_roundtrip [OF q(2)] by blast
  have "buffer_of_tss DATA_MAX (buffer_to_tss DATA_MAX (extra_data a)) = Inr (extra_data a)"
    using assms by (intro buffer_roundtrip) (simp_all add: quote_attest_wf_def DATA_MAX_def)
  then show ?thesis
    using assms q(1) u
    by (simp add: attest_to_tss_def attest_try_from_def attested_try_from_def name_try_from_def quote_attest_wf_def)
qed

text \<open>
  \<open>Tss2_MU_TPMS_ATTEST_Marshal\<close> and \<open>Unmarshal\<close> of the C library: a response code, and the bytes or
  the structure. \<open>mu_ok\<close> is their documented behaviour on what a TPM produces.
\<close>

record attest_mu =
  mu_marshal :: "tpms_attest \<Rightarrow> u32 \<times> bytes"
  mu_unmarshal :: "bytes \<Rightarrow> u32 \<times> tpms_attest"

definition mu_ok :: "attest_mu \<Rightarrow> bool" where
  "mu_ok M \<longleftrightarrow> (\<forall>a t. quote_attest_wf a \<longrightarrow> attest_to_tss a = Inr t \<longrightarrow>
     fst (mu_marshal M t) = 0 \<and> mu_unmarshal M (snd (mu_marshal M t)) = (0, t))"

definition attest_marshall :: "attest_mu \<Rightarrow> attest \<Rightarrow> bytes tss" where
  "attest_marshall M a = bnd (attest_to_tss a) (\<lambda>t.
     (case mu_marshal M t of (rc, b) \<Rightarrow>
        if \<not> rc_success (from_tss_rc rc) then Inl (Err (from_tss_rc rc)) else Inr b))"

definition attest_unmarshall :: "attest_mu \<Rightarrow> bytes \<Rightarrow> attest tss" where
  "attest_unmarshall M b =
     (case mu_unmarshal M b of (rc, t) \<Rightarrow>
        if \<not> rc_success (from_tss_rc rc) then Inl (Err (from_tss_rc rc)) else attest_try_from t)"

lemma attest_marshall_roundtrip:
  assumes "mu_ok M" and "quote_attest_wf a" and "attest_marshall M a = Inr b"
  shows "attest_unmarshall M b = Inr a"
proof -
  obtain t where t: "attest_to_tss a = Inr t" "attest_try_from t = Inr a"
    using quote_attest_roundtrip [OF assms(2)] by blast
  then show ?thesis
    using assms
    by (cases "mu_marshal M t") (force simp: attest_marshall_def attest_unmarshall_def mu_ok_def rc_success_iff split: if_splits)
qed

text \<open>The buffer of \<open>TPM2_Quote\<close> (\<open>structures/buffers/attest.rs\<close>).\<close>

definition ATTEST_BUFFER_MAX :: nat where "ATTEST_BUFFER_MAX = 2304"

definition attest_of_buffer :: "attest_mu \<Rightarrow> u16 \<times> bytes \<Rightarrow> attest tss" where
  "attest_of_buffer M t = bnd (buffer_of_tss ATTEST_BUFFER_MAX t) (attest_unmarshall M)"

section \<open>Signatures\<close>

definition PUBLIC_KEY_RSA_MAX :: nat where "PUBLIC_KEY_RSA_MAX = 512"
definition ECC_PARAMETER_MAX :: nat where "ECC_PARAMETER_MAX = 128"

record rsa_signature =
  rsa_hash :: hashing_algorithm
  rsa_sig :: bytes

definition rsa_signature_create :: "hashing_algorithm \<Rightarrow> bytes \<Rightarrow> rsa_signature tss" where
  "rsa_signature_create h b =
     (if h = AlgNull then local_error InvalidParam else Inr \<lparr> rsa_hash = h, rsa_sig = b \<rparr>)"

definition rsa_signature_try_from :: "u16 \<times> (u16 \<times> bytes) \<Rightarrow> rsa_signature tss" where
  "rsa_signature_try_from t = bnd (hash_alg_try_from (fst t)) (\<lambda>h.
     if h = AlgNull then local_error WrongValueFromTpm
     else bnd (buffer_of_tss PUBLIC_KEY_RSA_MAX (snd t)) (\<lambda>b. Inr \<lparr> rsa_hash = h, rsa_sig = b \<rparr>))"

definition rsa_signature_to_tss :: "rsa_signature \<Rightarrow> u16 \<times> (u16 \<times> bytes)" where
  "rsa_signature_to_tss s = (hash_alg_u16 (rsa_hash s), buffer_to_tss PUBLIC_KEY_RSA_MAX (rsa_sig s))"

record ecc_signature =
  ecc_hash :: hashing_algorithm
  ecc_r :: bytes
  ecc_s :: bytes

definition ecc_signature_create :: "hashing_algorithm \<Rightarrow> bytes \<Rightarrow> bytes \<Rightarrow> ecc_signature tss" where
  "ecc_signature_create h r s =
     (if h = AlgNull then local_error InvalidParam else Inr \<lparr> ecc_hash = h, ecc_r = r, ecc_s = s \<rparr>)"

definition ecc_signature_try_from :: "u16 \<times> (u16 \<times> bytes) \<times> (u16 \<times> bytes) \<Rightarrow> ecc_signature tss" where
  "ecc_signature_try_from t = (case t of (alg, r, s) \<Rightarrow>
     bnd (hash_alg_try_from alg) (\<lambda>h.
     if h = AlgNull then local_error WrongValueFromTpm
     else bnd (buffer_of_tss ECC_PARAMETER_MAX r) (\<lambda>r'.
          bnd (buffer_of_tss ECC_PARAMETER_MAX s) (\<lambda>s'.
          Inr \<lparr> ecc_hash = h, ecc_r = r', ecc_s = s' \<rparr>))))"

definition ecc_signature_to_tss :: "ecc_signature \<Rightarrow> u16 \<times> (u16 \<times> bytes) \<times> (u16 \<times> bytes)" where
  "ecc_signature_to_tss s = (hash_alg_u16 (ecc_hash s),
     buffer_to_tss ECC_PARAMETER_MAX (ecc_r s), buffer_to_tss ECC_PARAMETER_MAX (ecc_s s))"

datatype signature_scheme_algorithm =
    Sig_RsaSsa | Sig_RsaPss | Sig_EcDsa | Sig_EcDaa | Sig_Sm2 | Sig_EcSchnorr | Sig_Hmac | Sig_Null

primrec signature_scheme_id :: "signature_scheme_algorithm \<Rightarrow> algorithm_identifier" where
  "signature_scheme_id Sig_RsaSsa = Id_RsaSsa"
| "signature_scheme_id Sig_RsaPss = Id_RsaPss"
| "signature_scheme_id Sig_EcDsa = Id_EcDsa"
| "signature_scheme_id Sig_EcDaa = Id_EcDaa"
| "signature_scheme_id Sig_Sm2 = Id_Sm2"
| "signature_scheme_id Sig_EcSchnorr = Id_EcSchnorr"
| "signature_scheme_id Sig_Hmac = Id_Hmac"
| "signature_scheme_id Sig_Null = Id_Null"

fun signature_scheme_of_id :: "algorithm_identifier \<Rightarrow> signature_scheme_algorithm tss" where
  "signature_scheme_of_id Id_RsaSsa = Inr Sig_RsaSsa"
| "signature_scheme_of_id Id_RsaPss = Inr Sig_RsaPss"
| "signature_scheme_of_id Id_EcDsa = Inr Sig_EcDsa"
| "signature_scheme_of_id Id_EcDaa = Inr Sig_EcDaa"
| "signature_scheme_of_id Id_Sm2 = Inr Sig_Sm2"
| "signature_scheme_of_id Id_EcSchnorr = Inr Sig_EcSchnorr"
| "signature_scheme_of_id Id_Hmac = Inr Sig_Hmac"
| "signature_scheme_of_id Id_Null = Inr Sig_Null"
| "signature_scheme_of_id _ = local_error InvalidParam"

definition signature_scheme_try_from :: "u16 \<Rightarrow> signature_scheme_algorithm tss" where
  "signature_scheme_try_from w = bnd (alg_id_try_from w) signature_scheme_of_id"

datatype tpmu_signature =
    Raw_Rsa "u16 \<times> (u16 \<times> bytes)"
  | Raw_Ecc "u16 \<times> (u16 \<times> bytes) \<times> (u16 \<times> bytes)"
  | Raw_Hmac "u16 \<times> bytes"
  | Raw_NoSignature

type_synonym tpmt_signature = "u16 \<times> tpmu_signature"

datatype signature =
    RsaSsa rsa_signature
  | RsaPss rsa_signature
  | EcDsa ecc_signature
  | EcDaa ecc_signature
  | Sm2 ecc_signature
  | EcSchnorr ecc_signature
  | HmacSignature "hashing_algorithm \<times> bytes"
  | NullSignature

primrec signature_algorithm :: "signature \<Rightarrow> signature_scheme_algorithm" where
  "signature_algorithm (RsaSsa s) = Sig_RsaSsa"
| "signature_algorithm (RsaPss s) = Sig_RsaPss"
| "signature_algorithm (EcDsa s) = Sig_EcDsa"
| "signature_algorithm (EcDaa s) = Sig_EcDaa"
| "signature_algorithm (Sm2 s) = Sig_Sm2"
| "signature_algorithm (EcSchnorr s) = Sig_EcSchnorr"
| "signature_algorithm (HmacSignature h) = Sig_Hmac"
| "signature_algorithm NullSignature = Sig_Null"

text \<open>\<open>HashAgile\<close> from \<open>TPMT_HA\<close>: the member of the union has the size of the hash.\<close>

definition hash_agile_try_from :: "u16 \<times> bytes \<Rightarrow> (hashing_algorithm \<times> bytes) tss" where
  "hash_agile_try_from t = bnd (hash_alg_try_from (fst t)) (\<lambda>alg.
     bnd (case alg of
         AlgSha1 \<Rightarrow> index_range (snd t) 0 20
       | AlgSha256 \<Rightarrow> index_range (snd t) 0 32
       | AlgSha384 \<Rightarrow> index_range (snd t) 0 48
       | AlgSha512 \<Rightarrow> index_range (snd t) 0 64
       | AlgSm3_256 \<Rightarrow> index_range (snd t) 0 32
       | _ \<Rightarrow> local_error WrongValueFromTpm) (\<lambda>b.
     map_ok (Pair alg) (buffer_try_from DIGEST_MAX b)))"

definition signature_try_from :: "tpmt_signature \<Rightarrow> signature tss" where
  "signature_try_from t = bnd (signature_scheme_try_from (fst t)) (\<lambda>alg. case alg of
       Sig_RsaSsa \<Rightarrow> (case snd t of Raw_Rsa r \<Rightarrow> map_ok RsaSsa (rsa_signature_try_from r) | _ \<Rightarrow> other_member)
     | Sig_RsaPss \<Rightarrow> (case snd t of Raw_Rsa r \<Rightarrow> map_ok RsaPss (rsa_signature_try_from r) | _ \<Rightarrow> other_member)
     | Sig_EcDsa \<Rightarrow> (case snd t of Raw_Ecc r \<Rightarrow> map_ok EcDsa (ecc_signature_try_from r) | _ \<Rightarrow> other_member)
     | Sig_EcDaa \<Rightarrow> (case snd t of Raw_Ecc r \<Rightarrow> map_ok EcDaa (ecc_signature_try_from r) | _ \<Rightarrow> other_member)
     | Sig_Sm2 \<Rightarrow> (case snd t of Raw_Ecc r \<Rightarrow> map_ok Sm2 (ecc_signature_try_from r) | _ \<Rightarrow> other_member)
     | Sig_EcSchnorr \<Rightarrow> (case snd t of Raw_Ecc r \<Rightarrow> map_ok EcSchnorr (ecc_signature_try_from r) | _ \<Rightarrow> other_member)
     | Sig_Hmac \<Rightarrow> (case snd t of Raw_Hmac r \<Rightarrow> map_ok HmacSignature (hash_agile_try_from r) | _ \<Rightarrow> other_member)
     | Sig_Null \<Rightarrow> Inr NullSignature)"

definition signature_to_tss :: "signature \<Rightarrow> tpmt_signature tss" where
  "signature_to_tss s =
     (let alg = alg_id_u16 (signature_scheme_id (signature_algorithm s)) in
      map_ok (Pair alg) (case s of
         RsaSsa r \<Rightarrow> Inr (Raw_Rsa (rsa_signature_to_tss r))
       | RsaPss r \<Rightarrow> Inr (Raw_Rsa (rsa_signature_to_tss r))
       | EcDsa e \<Rightarrow> Inr (Raw_Ecc (ecc_signature_to_tss e))
       | EcDaa e \<Rightarrow> Inr (Raw_Ecc (ecc_signature_to_tss e))
       | Sm2 e \<Rightarrow> Inr (Raw_Ecc (ecc_signature_to_tss e))
       | EcSchnorr e \<Rightarrow> Inr (Raw_Ecc (ecc_signature_to_tss e))
       | HmacSignature h \<Rightarrow> map_ok Raw_Hmac (hash_agile_to_tss h)
       | NullSignature \<Rightarrow> Inr Raw_NoSignature))"

text \<open>What \<open>create\<close> accepts survives the conversions: no signature is on the hash Null.\<close>

definition rsa_signature_wf :: "rsa_signature \<Rightarrow> bool" where
  "rsa_signature_wf s \<longleftrightarrow> rsa_hash s \<noteq> AlgNull \<and> length (rsa_sig s) \<le> PUBLIC_KEY_RSA_MAX"

definition ecc_signature_wf :: "ecc_signature \<Rightarrow> bool" where
  "ecc_signature_wf s \<longleftrightarrow> ecc_hash s \<noteq> AlgNull
     \<and> length (ecc_r s) \<le> ECC_PARAMETER_MAX \<and> length (ecc_s s) \<le> ECC_PARAMETER_MAX"

primrec signature_wf :: "signature \<Rightarrow> bool" where
  "signature_wf (RsaSsa s) = rsa_signature_wf s"
| "signature_wf (RsaPss s) = rsa_signature_wf s"
| "signature_wf (EcDsa s) = ecc_signature_wf s"
| "signature_wf (EcDaa s) = ecc_signature_wf s"
| "signature_wf (Sm2 s) = ecc_signature_wf s"
| "signature_wf (EcSchnorr s) = ecc_signature_wf s"
| "signature_wf (HmacSignature h) = is_ok (hash_agile_to_tss h)"
| "signature_wf NullSignature = True"

lemma rsa_signature_roundtrip:
  "rsa_signature_wf s \<Longrightarrow> rsa_signature_try_from (rsa_signature_to_tss s) = Inr s"
  by (simp add: rsa_signature_try_from_def rsa_signature_to_tss_def rsa_signature_wf_def
      buffer_roundtrip PUBLIC_KEY_RSA_MAX_def)

lemma ecc_signature_roundtrip:
  "ecc_signature_wf s \<Longrightarrow> ecc_signature_try_from (ecc_signature_to_tss s) = Inr s"
  by (simp add: ecc_signature_try_from_def ecc_signature_to_tss_def ecc_signature_wf_def
      buffer_roundtrip ECC_PARAMETER_MAX_def)

lemma hash_agile_roundtrip:
  "hash_agile_to_tss h = Inr t \<Longrightarrow> hash_agile_try_from t = Inr h"
  by (cases h; cases "fst h")
    (auto simp: hash_agile_to_tss_def hash_agile_try_from_def digest_array_def DIGEST_MAX_def
      local_error_def split: if_splits)

lemma signature_scheme_roundtrip [simp]:
  "signature_scheme_try_from (alg_id_u16 (signature_scheme_id a)) = Inr a"
  by (cases a) (simp_all add: signature_scheme_try_from_def del: alg_id_u16.simps)

lemma signature_roundtrip:
  assumes "signature_wf s"
  shows "bnd (signature_to_tss s) signature_try_from = Inr s"
  using assms
  by (cases s) (auto simp: signature_to_tss_def signature_try_from_def Let_def rsa_signature_roundtrip
      ecc_signature_roundtrip is_ok_iff hash_agile_roundtrip
      simp del: signature_scheme_id.simps)

end
