(* ===== verification/Tss_Context.thy ===== *)
theory Tss_Context
  imports Tss_Nv_Public Tss_Pcr_Read Tss_Attest "HOL-Library.AList"
begin

text \<open>
  The wrapper's context (\<open>context.rs\<close>, \<open>context/\<close>): the device, the three sessions, the
  table of open ESYS handles and the cache of TPM properties, and the commands the virtual TPM
  crate uses. The ESYS library and the TPM behind it are the record \<open>esys\<close> of functions on a
  device state \<open>'d\<close>: each returns a response code, its outputs and the new device state.
\<close>

section \<open>The handle manager\<close>

datatype drop_action = CloseHandle | FlushHandle

type_synonym handle_manager = "(object_handle \<times> drop_action) list"

definition add_handle ::
  "object_handle \<Rightarrow> drop_action \<Rightarrow> handle_manager \<Rightarrow> unit tss \<times> handle_manager" where
  "add_handle h a m =
     (if h = ESYS_TR_NONE \<or> h = ESYS_TR_RH_NULL then (local_error InvalidParam, m)
      else (case map_of m h of
          Some b \<Rightarrow> if a \<noteq> b then (local_error InconsistentParams, m) else (Inr (), AList.update h a m)
        | None \<Rightarrow> (Inr (), AList.update h a m)))"

text \<open>The handle is removed even when the action does not match.\<close>

definition set_as :: "drop_action \<Rightarrow> object_handle \<Rightarrow> handle_manager \<Rightarrow> unit tss \<times> handle_manager" where
  "set_as a h m =
     ((case map_of m h of
         None \<Rightarrow> local_error InvalidHandleState
       | Some b \<Rightarrow> if b = a then Inr () else local_error InvalidHandleState),
      AList.delete h m)"

definition set_as_flushed :: "object_handle \<Rightarrow> handle_manager \<Rightarrow> unit tss \<times> handle_manager" where
  "set_as_flushed = set_as FlushHandle"

definition set_as_closed :: "object_handle \<Rightarrow> handle_manager \<Rightarrow> unit tss \<times> handle_manager" where
  "set_as_closed = set_as CloseHandle"

definition handles_to :: "drop_action \<Rightarrow> handle_manager \<Rightarrow> object_handle list" where
  "handles_to a m = map fst (filter (\<lambda>(h, b). b = a) m)"

definition has_open_handles :: "handle_manager \<Rightarrow> bool" where
  "has_open_handles m \<longleftrightarrow> m \<noteq> []"

definition manager_inv :: "handle_manager \<Rightarrow> bool" where
  "manager_inv m \<longleftrightarrow> distinct (map fst m) \<and> ESYS_TR_NONE \<notin> fst ` set m \<and> ESYS_TR_RH_NULL \<notin> fst ` set m"

lemma manager_inv_empty: "manager_inv []"
  by (simp add: manager_inv_def)

lemma manager_inv_update:
  "manager_inv m \<Longrightarrow> h \<noteq> ESYS_TR_NONE \<Longrightarrow> h \<noteq> ESYS_TR_RH_NULL \<Longrightarrow> manager_inv (AList.update h a m)"
  by (auto simp: manager_inv_def distinct_update dom_update)

lemma manager_inv_add: "manager_inv m \<Longrightarrow> add_handle h a m = (r, m') \<Longrightarrow> manager_inv m'"
  by (auto simp: add_handle_def manager_inv_update split: if_splits option.splits)

lemma delete_absent: "map_of m h = None \<Longrightarrow> AList.delete h m = m"
  by (force simp: AList.delete_eq map_of_eq_None_iff intro!: filter_True)

lemma manager_inv_delete: "manager_inv m \<Longrightarrow> manager_inv (AList.delete h m)"
  unfolding manager_inv_def AList.delete_eq by (auto intro: distinct_map_filter)

lemma manager_inv_set_as: "manager_inv m \<Longrightarrow> set_as a h m = (r, m') \<Longrightarrow> manager_inv m'"
  by (auto simp: set_as_def manager_inv_delete)

lemma set_as_registered: "manager_inv m \<Longrightarrow> (h, a) \<in> set m \<Longrightarrow> set_as a h m = (Inr (), AList.delete h m)"
  by (simp add: set_as_def manager_inv_def)

lemma handles_to_delete: "handles_to a (AList.delete h m) = removeAll h (handles_to a m)"
  by (induction m) (auto simp: handles_to_def AList.delete_eq)

lemma in_handles_to: "h \<in> set (handles_to a m) \<longleftrightarrow> (h, a) \<in> set m"
  by (force simp: handles_to_def)

section \<open>The context\<close>

type_synonym sessions = "auth_session option \<times> auth_session option \<times> auth_session option"
type_synonym esys_sessions = "u32 \<times> u32 \<times> u32"

record 'd tpm_context =
  device :: 'd
  ctx_sessions :: sessions
  handle_manager :: handle_manager
  cached_tpm_properties :: "(property_tag \<times> u32) list"

text \<open>
  The functions of ESYS the modelled commands call: the handles, then the sessions, then the
  parameters are what they are given beside the device.
\<close>

record 'd esys =
  esys_tr_from_tpm_public :: "u32 \<Rightarrow> esys_sessions \<Rightarrow> 'd \<Rightarrow> u32 \<times> u32 \<times> 'd"
  esys_tr_close :: "u32 \<Rightarrow> 'd \<Rightarrow> u32 \<times> u32 \<times> 'd"
  esys_flush_context :: "u32 \<Rightarrow> 'd \<Rightarrow> u32 \<times> unit \<times> 'd"
  esys_get_capability :: "u32 \<Rightarrow> u32 \<Rightarrow> u32 \<Rightarrow> esys_sessions \<Rightarrow> 'd \<Rightarrow> u32 \<times> (raw_capability \<times> u8) \<times> 'd"
  esys_nv_define_space :: "u32 \<Rightarrow> u16 \<times> bytes \<Rightarrow> tpm2b_nv_public \<Rightarrow> esys_sessions \<Rightarrow> 'd \<Rightarrow> u32 \<times> u32 \<times> 'd"
  esys_nv_undefine_space :: "u32 \<Rightarrow> u32 \<Rightarrow> esys_sessions \<Rightarrow> 'd \<Rightarrow> u32 \<times> unit \<times> 'd"
  esys_nv_read_public :: "u32 \<Rightarrow> esys_sessions \<Rightarrow> 'd \<Rightarrow> u32 \<times> (tpm2b_nv_public \<times> name) \<times> 'd"
  esys_nv_write :: "u32 \<Rightarrow> u32 \<Rightarrow> u16 \<times> bytes \<Rightarrow> u16 \<Rightarrow> esys_sessions \<Rightarrow> 'd \<Rightarrow> u32 \<times> unit \<times> 'd"
  esys_nv_increment :: "u32 \<Rightarrow> u32 \<Rightarrow> esys_sessions \<Rightarrow> 'd \<Rightarrow> u32 \<times> unit \<times> 'd"
  esys_nv_read :: "u32 \<Rightarrow> u32 \<Rightarrow> u16 \<Rightarrow> u16 \<Rightarrow> esys_sessions \<Rightarrow> 'd \<Rightarrow> u32 \<times> (u16 \<times> bytes) \<times> 'd"
  esys_pcr_extend :: "u32 \<Rightarrow> (u16 \<times> bytes) list \<Rightarrow> esys_sessions \<Rightarrow> 'd \<Rightarrow> u32 \<times> unit \<times> 'd"
  esys_pcr_read :: "u32 \<times> tpms_pcr_selection list \<Rightarrow> esys_sessions \<Rightarrow> 'd \<Rightarrow>
      u32 \<times> (u32 \<times> (u32 \<times> tpms_pcr_selection list) \<times> (u32 \<times> (u16 \<times> bytes) list)) \<times> 'd"
  esys_pcr_reset :: "u32 \<Rightarrow> esys_sessions \<Rightarrow> 'd \<Rightarrow> u32 \<times> unit \<times> 'd"
  esys_quote :: "u32 \<Rightarrow> u16 \<times> bytes \<Rightarrow> u16 \<Rightarrow> u32 \<times> tpms_pcr_selection list \<Rightarrow> esys_sessions \<Rightarrow> 'd \<Rightarrow>
      u32 \<times> ((u16 \<times> bytes) \<times> tpmt_signature) \<times> 'd"

section \<open>Operations on the context\<close>

type_synonym ('d, 'a) tpm = "'d tpm_context \<Rightarrow> 'a tss \<times> 'd tpm_context"

definition tret :: "'a \<Rightarrow> ('d, 'a) tpm" where
  "tret x c = (Inr x, c)"

definition tlift :: "'a tss \<Rightarrow> ('d, 'a) tpm" where
  "tlift r c = (r, c)"

definition tbind :: "('d, 'a) tpm \<Rightarrow> ('a \<Rightarrow> ('d, 'b) tpm) \<Rightarrow> ('d, 'b) tpm" where
  "tbind m k c = (case m c of (Inl e, c') \<Rightarrow> (Inl e, c') | (Inr x, c') \<Rightarrow> k x c')"

text \<open>A loop over a list whose body may fail, collecting the results.\<close>

fun tmapM :: "('a \<Rightarrow> ('d, 'b) tpm) \<Rightarrow> 'a list \<Rightarrow> ('d, 'b list) tpm" where
  "tmapM f [] = tret []"
| "tmapM f (x # xs) = tbind (f x) (\<lambda>y. tbind (tmapM f xs) (\<lambda>ys. tret (y # ys)))"

text \<open>\<open>optional_session_1\<close> to \<open>3\<close>, and a call of ESYS with its response code checked.\<close>

definition optional_sessions :: "'d tpm_context \<Rightarrow> esys_sessions" where
  "optional_sessions c = (case ctx_sessions c of (s1, s2, s3) \<Rightarrow>
     (opt_session_esys s1, opt_session_esys s2, opt_session_esys s3))"

definition esys_call :: "(esys_sessions \<Rightarrow> 'd \<Rightarrow> u32 \<times> 'o \<times> 'd) \<Rightarrow> ('d, 'o) tpm" where
  "esys_call f c =
     (case f (optional_sessions c) (device c) of
        (rc, x, d) \<Rightarrow>
          (if rc_success (from_tss_rc rc) then Inr x else Inl (Err (from_tss_rc rc)),
           c \<lparr> device := d \<rparr>))"

definition manage :: "(handle_manager \<Rightarrow> unit tss \<times> handle_manager) \<Rightarrow> ('d, unit) tpm" where
  "manage f c = (case f (handle_manager c) of (r, m) \<Rightarrow> (r, c \<lparr> handle_manager := m \<rparr>))"

definition required_session_1 :: "'d tpm_context \<Rightarrow> object_handle tss" where
  "required_session_1 c =
     some_or MissingAuthSession (map_option session_esys (fst (ctx_sessions c)))"

definition required_session_2 :: "'d tpm_context \<Rightarrow> object_handle tss" where
  "required_session_2 c =
     some_or MissingAuthSession (map_option session_esys (fst (snd (ctx_sessions c))))"

definition new_context :: "'d \<Rightarrow> 'd tpm_context" where
  "new_context d = \<lparr> device = d, ctx_sessions = (None, None, None), handle_manager = [],
                     cached_tpm_properties = [] \<rparr>"

definition set_sessions :: "sessions \<Rightarrow> 'd tpm_context \<Rightarrow> 'd tpm_context" where
  "set_sessions s c = c \<lparr> ctx_sessions := s \<rparr>"

definition clear_sessions :: "'d tpm_context \<Rightarrow> 'd tpm_context" where
  "clear_sessions c = c \<lparr> ctx_sessions := (None, None, None) \<rparr>"

definition execute_with_sessions :: "sessions \<Rightarrow> ('d, 'a) tpm \<Rightarrow> ('d, 'a) tpm" where
  "execute_with_sessions s f c =
     (let old = ctx_sessions c; (r, c') = f (set_sessions s c) in (r, set_sessions old c'))"

definition execute_with_session :: "auth_session option \<Rightarrow> ('d, 'a) tpm \<Rightarrow> ('d, 'a) tpm" where
  "execute_with_session s = execute_with_sessions (s, None, None)"

definition execute_without_session :: "('d, 'a) tpm \<Rightarrow> ('d, 'a) tpm" where
  "execute_without_session = execute_with_sessions (None, None, None)"

lemma tbind_Inr [simp]: "tbind m k c = (Inr y, c') \<longleftrightarrow>
    (\<exists>x c1. m c = (Inr x, c1) \<and> k x c1 = (Inr y, c'))"
  by (auto simp: tbind_def split: prod.splits sum.splits)

lemma tret_simps [simp]: "tret x c = (Inr y, c') \<longleftrightarrow> x = y \<and> c = c'"
  by (auto simp: tret_def)

lemma tlift_Inr [simp]: "tlift r c = (Inr y, c') \<longleftrightarrow> r = Inr y \<and> c = c'"
  by (auto simp: tlift_def)

lemma esys_call_Inr: "esys_call f c = (Inr x, c') \<longleftrightarrow>
    (\<exists>d. f (optional_sessions c) (device c) = (0, x, d) \<and> c' = c \<lparr> device := d \<rparr>)"
  by (auto simp: esys_call_def rc_success_iff split: prod.splits)

text \<open>The sessions a closure runs with are gone afterwards, whatever it does.\<close>

lemma execute_with_sessions_restores:
  "ctx_sessions (snd (execute_with_sessions s f c)) = ctx_sessions c"
  by (simp add: execute_with_sessions_def set_sessions_def Let_def split: prod.split)

section \<open>Handles of the device\<close>

definition tr_from_tpm_public :: "'d esys \<Rightarrow> tpm_handle \<Rightarrow> ('d, object_handle) tpm" where
  "tr_from_tpm_public E h =
     tbind (esys_call (esys_tr_from_tpm_public E (tpm_handle_u32 h))) (\<lambda>ob.
     tbind (manage (add_handle ob (if may_be_flushed h then FlushHandle else CloseHandle))) (\<lambda>_.
     tret ob))"

text \<open>\<open>tr_close\<close> overwrites the caller's handle with the one ESYS leaves; it is the result here.\<close>

definition tr_close :: "'d esys \<Rightarrow> object_handle \<Rightarrow> ('d, object_handle) tpm" where
  "tr_close E ob =
     tbind (tlift (try_into_not_none ob)) (\<lambda>r.
     tbind (esys_call (\<lambda>s. esys_tr_close E r)) (\<lambda>r'.
     tbind (manage (set_as_closed ob)) (\<lambda>_. tret r')))"

definition flush_context :: "'d esys \<Rightarrow> object_handle \<Rightarrow> ('d, unit) tpm" where
  "flush_context E ob =
     tbind (tlift (try_into_not_none ob)) (\<lambda>r.
     tbind (esys_call (\<lambda>s. esys_flush_context E r)) (\<lambda>_.
     manage (set_as_flushed ob)))"

text \<open>The object is flushed after the closure, failed or not; its error comes second.\<close>

definition execute_with_temporary_object ::
  "'d esys \<Rightarrow> object_handle \<Rightarrow> (object_handle \<Rightarrow> ('d, 'a) tpm) \<Rightarrow> ('d, 'a) tpm" where
  "execute_with_temporary_object E ob f c =
     (let (res, c1) = f ob c in
      case flush_context E ob c1 of (Inl e, c2) \<Rightarrow> (Inl e, c2) | (Inr _, c2) \<Rightarrow> (res, c2))"

text \<open>\<open>Drop for Context\<close>: flush, then close, every open handle; errors are only logged.\<close>

definition context_drop :: "'d esys \<Rightarrow> 'd tpm_context \<Rightarrow> 'd tpm_context" where
  "context_drop E c =
     (let c1 = fold (\<lambda>h c. snd (flush_context E h c)) (handles_to FlushHandle (handle_manager c)) c
      in fold (\<lambda>h c. snd (tr_close E h c)) (handles_to CloseHandle (handle_manager c1)) c1)"

section \<open>Capabilities\<close>

definition get_capability :: "'d esys \<Rightarrow> capability_type \<Rightarrow> u32 \<Rightarrow> u32 \<Rightarrow> ('d, capability_data \<times> bool) tpm" where
  "get_capability E c prop n =
     tbind (esys_call (esys_get_capability E (capability_type_u32 c) prop n)) (\<lambda>(t, yn).
     tbind (tlift (capability_data_try_from t)) (\<lambda>d.
     tbind (tlift (yes_no_try_from yn)) (\<lambda>m. tret (d, m))))"

text \<open>
  A property comes from the cache, or from the TPM: the four properties from its tag on go into
  the cache. An answer with a tag outside the enum fails as a whole.
\<close>

definition cache_properties :: "(property_tag \<times> u32) list \<Rightarrow> 'd tpm_context \<Rightarrow> 'd tpm_context" where
  "cache_properties ps c =
     c \<lparr> cached_tpm_properties := fold (\<lambda>(t, v). AList.update t v) ps (cached_tpm_properties c) \<rparr>"

definition get_tpm_property :: "'d esys \<Rightarrow> property_tag \<Rightarrow> ('d, u32 option) tpm" where
  "get_tpm_property E p c =
     (case map_of (cached_tpm_properties c) p of
        Some v \<Rightarrow> (Inr (Some v), c)
      | None \<Rightarrow>
          (case execute_without_session
                  (get_capability E Cap_TpmProperties (property_tag_u32 p) 4) c of
             (Inl e, c1) \<Rightarrow> (Inl e, c1)
           | (Inr (d, yn), c1) \<Rightarrow>
               (case d of
                  CapTpmProperties ps \<Rightarrow>
                    (let c2 = cache_properties ps c1 in
                     (Inr (map_of (cached_tpm_properties c2) p), c2))
                | _ \<Rightarrow> (local_error WrongValueFromTpm, c1))))"

section \<open>PCR and quote commands\<close>

definition pcr_extend :: "'d esys \<Rightarrow> pcr_handle \<Rightarrow> digest_values \<Rightarrow> ('d, unit) tpm" where
  "pcr_extend E h vs = tbind (tlift (digest_values_to_tss vs)) (\<lambda>ds.
     esys_call (esys_pcr_extend E (pcr_handle_esys h) ds))"

definition pcr_read :: "'d esys \<Rightarrow> pcr_selection list \<Rightarrow> ('d, u32 \<times> pcr_selection list \<times> bytes list) tpm" where
  "pcr_read E l = tbind (tlift (selection_list_to_tpml l)) (\<lambda>t.
     tbind (esys_call (esys_pcr_read E t)) (\<lambda>(n, sel, ds).
     tbind (tlift (selection_list_try_from sel)) (\<lambda>sel'.
     tbind (tlift (digest_list_try_from ds)) (\<lambda>ds'. tret (n, sel', ds')))))"

definition pcr_reset :: "'d esys \<Rightarrow> pcr_handle \<Rightarrow> ('d, unit) tpm" where
  "pcr_reset E h = esys_call (esys_pcr_reset E (pcr_handle_esys h))"

text \<open>\<open>SignatureScheme::Null\<close> is the only scheme the callers use; its tag is \<open>TPM2_ALG_NULL\<close>.\<close>

definition quote_null :: "'d esys \<Rightarrow> attest_mu \<Rightarrow> object_handle \<Rightarrow> bytes \<Rightarrow> pcr_selection list \<Rightarrow>
    ('d, attest \<times> signature) tpm" where
  "quote_null E M key qd l = tbind (tlift (selection_list_to_tpml l)) (\<lambda>t.
     tbind (esys_call (esys_quote E key (buffer_to_tss DATA_MAX qd) (alg_id_u16 Id_Null) t)) (\<lambda>(b, s).
     tbind (tlift (attest_of_buffer M b)) (\<lambda>a.
     tbind (tlift (signature_try_from s)) (\<lambda>sig. tret (a, sig)))))"

section \<open>NV commands\<close>

definition nv_define_space ::
  "'d esys \<Rightarrow> provision \<Rightarrow> bytes option \<Rightarrow> nv_public \<Rightarrow> ('d, object_handle) tpm" where
  "nv_define_space E p auth pub =
     tbind (tlift (nv_public_to_tss pub)) (\<lambda>t.
     tbind (esys_call (esys_nv_define_space E (provision_esys p)
       (buffer_to_tss DIGEST_MAX (case auth of None \<Rightarrow> [] | Some a \<Rightarrow> a)) t)) (\<lambda>h.
     tbind (manage (add_handle h CloseHandle)) (\<lambda>_. tret h)))"

definition nv_undefine_space :: "'d esys \<Rightarrow> provision \<Rightarrow> object_handle \<Rightarrow> ('d, unit) tpm" where
  "nv_undefine_space E p h =
     tbind (esys_call (esys_nv_undefine_space E (provision_esys p) h)) (\<lambda>_.
     manage (set_as_closed h))"

definition nv_read_public :: "'d esys \<Rightarrow> object_handle \<Rightarrow> ('d, nv_public \<times> name) tpm" where
  "nv_read_public E h =
     tbind (esys_call (esys_nv_read_public E h)) (\<lambda>(t, n).
     tbind (tlift (nv_public_try_from t)) (\<lambda>p.
     tbind (tlift (name_try_from n)) (\<lambda>n'. tret (p, n'))))"

definition nv_write :: "'d esys \<Rightarrow> nv_auth \<Rightarrow> object_handle \<Rightarrow> bytes \<Rightarrow> u16 \<Rightarrow> ('d, unit) tpm" where
  "nv_write E auth h b off =
     esys_call (esys_nv_write E (nv_auth_esys auth) h (buffer_to_tss MAX_NV_BUFFER b) off)"

definition nv_increment :: "'d esys \<Rightarrow> nv_auth \<Rightarrow> object_handle \<Rightarrow> ('d, unit) tpm" where
  "nv_increment E auth h = esys_call (esys_nv_increment E (nv_auth_esys auth) h)"

definition nv_read :: "'d esys \<Rightarrow> nv_auth \<Rightarrow> object_handle \<Rightarrow> u16 \<Rightarrow> u16 \<Rightarrow> ('d, bytes) tpm" where
  "nv_read E auth h n off =
     tbind (esys_call (esys_nv_read E (nv_auth_esys auth) h n off)) (\<lambda>t.
     tlift (buffer_of_tss MAX_NV_BUFFER t))"

section \<open>What the commands keep\<close>

text \<open>The table of handles stays well formed, and the sessions are what they were.\<close>

definition keeps :: "('d, 'a) tpm \<Rightarrow> bool" where
  "keeps m \<longleftrightarrow> (\<forall>c. manager_inv (handle_manager c) \<longrightarrow> manager_inv (handle_manager (snd (m c))))
     \<and> (\<forall>c. ctx_sessions (snd (m c)) = ctx_sessions c)"

named_theorems keeps_intros \<open>commands that keep the context well formed\<close>

lemma keepsD: "keeps m \<Longrightarrow> m c = (r, c') \<Longrightarrow>
    (manager_inv (handle_manager c) \<longrightarrow> manager_inv (handle_manager c')) \<and> ctx_sessions c' = ctx_sessions c"
  by (metis keeps_def snd_conv)

lemma keepsI:
  assumes "\<And>c r c'. m c = (r, c') \<Longrightarrow>
    (manager_inv (handle_manager c) \<longrightarrow> manager_inv (handle_manager c')) \<and> ctx_sessions c' = ctx_sessions c"
  shows "keeps m"
  using assms by (metis keeps_def prod.collapse)

lemma keeps_tret [keeps_intros]: "keeps (tret x)" "keeps (tlift r)"
  by (simp_all add: keeps_def tret_def tlift_def)

lemma keeps_tbind [keeps_intros]: "keeps m \<Longrightarrow> (\<And>x. keeps (k x)) \<Longrightarrow> keeps (tbind m k)"
  by (rule keepsI) (force simp: tbind_def split: prod.splits sum.splits dest: keepsD)

lemma keeps_esys_call [keeps_intros]: "keeps (esys_call f)"
  by (simp add: keeps_def esys_call_def split: prod.split)

lemma keeps_manage [keeps_intros]: "keeps (manage (add_handle h a))" "keeps (manage (set_as a h))"
    "keeps (manage (set_as_closed h))" "keeps (manage (set_as_flushed h))"
  by (auto simp: keeps_def manage_def set_as_closed_def set_as_flushed_def split: prod.split
      intro: manager_inv_add manager_inv_set_as)

lemma keeps_split [keeps_intros]: "(\<And>x y. keeps (k x y)) \<Longrightarrow> keeps (case p of (x, y) \<Rightarrow> k x y)"
  by (cases p) simp

lemma keeps_execute [keeps_intros]: "keeps m \<Longrightarrow> keeps (execute_with_sessions s m)"
  by (rule keepsI) (auto simp: execute_with_sessions_def set_sessions_def Let_def split: prod.splits dest: keepsD)

lemma keeps_execute_without [keeps_intros]: "keeps m \<Longrightarrow> keeps (execute_without_session m)"
  by (simp add: execute_without_session_def keeps_execute)

lemma keeps_tmapM [keeps_intros]: "(\<And>x. keeps (f x)) \<Longrightarrow> keeps (tmapM f xs)"
  by (induction xs) (auto intro!: keeps_intros)

lemma keeps_commands [keeps_intros]:
  "keeps (tr_from_tpm_public E th)" "keeps (tr_close E ob)" "keeps (flush_context E ob)"
  "keeps (get_capability E cap prop n)" "keeps (pcr_extend E ph vs)" "keeps (pcr_read E l)"
  "keeps (pcr_reset E ph)" "keeps (quote_null E M ob qd l)" "keeps (nv_define_space E pr auth pub)"
  "keeps (nv_undefine_space E pr ob)" "keeps (nv_read_public E ob)" "keeps (nv_write E na ob b off)"
  "keeps (nv_increment E na ob)" "keeps (nv_read E na ob sz off)"
  unfolding tr_from_tpm_public_def tr_close_def flush_context_def get_capability_def pcr_extend_def
    pcr_read_def pcr_reset_def quote_null_def nv_define_space_def nv_undefine_space_def
    nv_read_public_def nv_write_def nv_increment_def nv_read_def
  by (intro keeps_intros)+

lemma keeps_get_tpm_property [keeps_intros]: "keeps (get_tpm_property E p)"
proof (rule keepsI)
  fix c r c' assume *: "get_tpm_property E p c = (r, c')"
  show "(manager_inv (handle_manager c) \<longrightarrow> manager_inv (handle_manager c')) \<and> ctx_sessions c' = ctx_sessions c"
  proof (cases "map_of (cached_tpm_properties c) p")
    case None
    obtain q c1 where q: "execute_without_session
        (get_capability E Cap_TpmProperties (property_tag_u32 p) 4) c = (q, c1)" by fastforce
    have "handle_manager c' = handle_manager c1 \<and> ctx_sessions c' = ctx_sessions c1"
      using * None q by (auto simp: get_tpm_property_def cache_properties_def Let_def
          split: sum.splits prod.splits capability_data.splits)
    moreover have "keeps (execute_without_session
        (get_capability E Cap_TpmProperties (property_tag_u32 p) 4))"
      by (intro keeps_intros)
    ultimately show ?thesis using keepsD q by metis
  qed (use * in \<open>simp add: get_tpm_property_def\<close>)
qed

section \<open>Dropping a context\<close>

definition flush_all :: "'d esys \<Rightarrow> object_handle list \<Rightarrow> 'd \<Rightarrow> 'd" where
  "flush_all E hs d = fold (\<lambda>h d. snd (snd (esys_flush_context E h d))) hs d"

definition close_all :: "'d esys \<Rightarrow> object_handle list \<Rightarrow> 'd \<Rightarrow> 'd" where
  "close_all E hs d = fold (\<lambda>h d. snd (snd (esys_tr_close E h d))) hs d"

definition releases :: "'d esys \<Rightarrow> bool" where
  "releases E \<longleftrightarrow> (\<forall>h d. fst (esys_flush_context E h d) = 0 \<and> fst (esys_tr_close E h d) = 0)"

text \<open>
  What one call does to a registered handle \<open>h\<close>: the device takes the step \<open>D h\<close>, and the handle
  is removed from the table or, unless \<open>R\<close>, kept.
\<close>

definition gives_back :: "drop_action \<Rightarrow> (object_handle \<Rightarrow> 'd tpm_context \<Rightarrow> 'd tpm_context) \<Rightarrow>
    (object_handle \<Rightarrow> 'd \<Rightarrow> 'd) \<Rightarrow> bool \<Rightarrow> bool" where
  "gives_back a f D R \<longleftrightarrow> (\<forall>c h. manager_inv (handle_manager c) \<longrightarrow> (h, a) \<in> set (handle_manager c) \<longrightarrow>
      device (f h c) = D h (device c)
      \<and> handle_manager (f h c) \<in> {handle_manager c, AList.delete h (handle_manager c)}
      \<and> (R \<longrightarrow> handle_manager (f h c) = AList.delete h (handle_manager c)))"

lemma flush_context_gives:
  "gives_back FlushHandle (\<lambda>h c. snd (flush_context E h c)) (\<lambda>h d. snd (snd (esys_flush_context E h d))) (releases E)"
  unfolding gives_back_def
proof (intro allI impI)
  fix c :: "'a tpm_context" and h
  assume *: "manager_inv (handle_manager c)" "(h, FlushHandle) \<in> set (handle_manager c)"
  have "h \<noteq> ESYS_TR_NONE" using * by (force simp: manager_inv_def)
  moreover have "releases E \<Longrightarrow> fst (esys_flush_context E h (device c)) = 0"
    by (simp add: releases_def)
  ultimately show "device (snd (flush_context E h c)) = snd (snd (esys_flush_context E h (device c)))
     \<and> handle_manager (snd (flush_context E h c)) \<in> {handle_manager c, AList.delete h (handle_manager c)}
     \<and> (releases E \<longrightarrow> handle_manager (snd (flush_context E h c)) = AList.delete h (handle_manager c))"
    using set_as_registered [OF *]
    by (cases "esys_flush_context E h (device c)")
      (auto simp: flush_context_def tbind_def tlift_def try_into_not_none_def esys_call_def manage_def
        set_as_flushed_def rc_success_iff)
qed

lemma tr_close_gives:
  "gives_back CloseHandle (\<lambda>h c. snd (tr_close E h c)) (\<lambda>h d. snd (snd (esys_tr_close E h d))) (releases E)"
  unfolding gives_back_def
proof (intro allI impI)
  fix c :: "'a tpm_context" and h
  assume *: "manager_inv (handle_manager c)" "(h, CloseHandle) \<in> set (handle_manager c)"
  have "h \<noteq> ESYS_TR_NONE" using * by (force simp: manager_inv_def)
  moreover have "releases E \<Longrightarrow> fst (esys_tr_close E h (device c)) = 0"
    by (simp add: releases_def)
  ultimately show "device (snd (tr_close E h c)) = snd (snd (esys_tr_close E h (device c)))
     \<and> handle_manager (snd (tr_close E h c)) \<in> {handle_manager c, AList.delete h (handle_manager c)}
     \<and> (releases E \<longrightarrow> handle_manager (snd (tr_close E h c)) = AList.delete h (handle_manager c))"
    using set_as_registered [OF *]
    by (cases "esys_tr_close E h (device c)")
      (auto simp: tr_close_def tbind_def tlift_def try_into_not_none_def esys_call_def manage_def
        set_as_closed_def tret_def rc_success_iff)
qed

lemma fold_release:
  assumes step: "gives_back a f D R"
    and "manager_inv (handle_manager c)" and "distinct hs"
    and "\<And>h. h \<in> set hs \<Longrightarrow> (h, a) \<in> set (handle_manager c)"
  shows "device (fold f hs c) = fold D hs (device c)
     \<and> manager_inv (handle_manager (fold f hs c))
     \<and> (\<forall>b. b \<noteq> a \<longrightarrow> handles_to b (handle_manager (fold f hs c)) = handles_to b (handle_manager c))
     \<and> set (handle_manager (fold f hs c)) \<subseteq> set (handle_manager c)
     \<and> (R \<longrightarrow> (\<forall>h \<in> set hs. (h, a) \<notin> set (handle_manager (fold f hs c))))"
  using assms(2-)
proof (induction hs arbitrary: c)
  case (Cons h hs)
  let ?m = "handle_manager c" and ?m1 = "handle_manager (f h c)"
  have reg: "(h, a) \<in> set ?m" using Cons.prems(3) by simp
  have st: "device (f h c) = D h (device c)" "?m1 \<in> {?m, AList.delete h ?m}"
      "R \<Longrightarrow> ?m1 = AList.delete h ?m"
    using step Cons.prems(1) reg unfolding gives_back_def by blast+
  then have m1: "?m1 = ?m \<or> ?m1 = AList.delete h ?m" by blast
  have inv: "manager_inv ?m1" using m1 Cons.prems(1) manager_inv_delete by auto
  have keep: "(k, a) \<in> set ?m1" if "k \<in> set hs" for k
    using m1 that Cons.prems(2,3) by (auto simp: AList.delete_eq)
  have uniq: "(h, b) \<in> set ?m \<Longrightarrow> b = a" for b
    using Cons.prems(1) reg by (auto simp: manager_inv_def dest: eq_key_imp_eq_value)
  have others: "handles_to b ?m1 = handles_to b ?m" if "b \<noteq> a" for b
    using m1 that uniq by (auto simp: handles_to_delete in_handles_to intro!: removeAll_id)
  have "set ?m1 \<subseteq> set ?m" using m1 by (auto simp: AList.delete_eq)
  moreover have "R \<longrightarrow> (h, a) \<notin> set ?m1" using st by (auto simp: AList.delete_eq)
  moreover have "distinct hs" using Cons.prems(2) by simp
  note Cons.IH [OF inv this keep]
  ultimately show ?case using st others by auto
qed simp

text \<open>The same over all handles of an action.\<close>

definition release_all :: "drop_action \<Rightarrow> (object_handle \<Rightarrow> 'd tpm_context \<Rightarrow> 'd tpm_context) \<Rightarrow>
    'd tpm_context \<Rightarrow> 'd tpm_context" where
  "release_all a f c = fold f (handles_to a (handle_manager c)) c"

lemma release_all_effect:
  assumes step: "gives_back a f D R"
    and inv: "manager_inv (handle_manager c)"
  shows "device (release_all a f c) = fold D (handles_to a (handle_manager c)) (device c)"
    and "manager_inv (handle_manager (release_all a f c))"
    and "b \<noteq> a \<Longrightarrow> handles_to b (handle_manager (release_all a f c)) = handles_to b (handle_manager c)"
    and "set (handle_manager (release_all a f c)) \<subseteq> set (handle_manager c)"
    and "R \<Longrightarrow> (h, a) \<notin> set (handle_manager (release_all a f c))"
proof -
  have "distinct (handles_to a (handle_manager c))"
    using inv by (auto simp: manager_inv_def handles_to_def distinct_map_filter)
  note * = fold_release [where f = f and D = D and R = R and hs = "handles_to a (handle_manager c)",
      OF step inv this, unfolded in_handles_to]
  show "device (release_all a f c) = fold D (handles_to a (handle_manager c)) (device c)"
    "manager_inv (handle_manager (release_all a f c))"
    "b \<noteq> a \<Longrightarrow> handles_to b (handle_manager (release_all a f c)) = handles_to b (handle_manager c)"
    and sub: "set (handle_manager (release_all a f c)) \<subseteq> set (handle_manager c)"
    using * unfolding release_all_def by blast+
  show "(h, a) \<notin> set (handle_manager (release_all a f c))" if R
    using * sub that unfolding release_all_def by (auto simp: in_handles_to)
qed

text \<open>
  C19. Dropping a context gives every handle back, each in its own way. The device sees one flush
  for every handle registered to be flushed and then one close for every handle registered to be
  closed, whether or not the calls before succeeded, and nothing else; when they all succeed no
  handle is left open.
\<close>

theorem context_drop_releases:
  assumes "manager_inv (handle_manager c)"
  shows "device (context_drop E c) = close_all E (handles_to CloseHandle (handle_manager c))
           (flush_all E (handles_to FlushHandle (handle_manager c)) (device c))
     \<and> (releases E \<longrightarrow> \<not> has_open_handles (handle_manager (context_drop E c)))"
proof -
  define c1 where "c1 = release_all FlushHandle (\<lambda>h c. snd (flush_context E h c)) c"
  define c2 where "c2 = release_all CloseHandle (\<lambda>h c. snd (tr_close E h c)) c1"
  note flush = release_all_effect [OF flush_context_gives [where E = E] assms, folded c1_def]
  note close = release_all_effect [OF tr_close_gives [where E = E] flush(2), folded c2_def]
  have drop: "context_drop E c = c2"
    by (simp add: context_drop_def c1_def c2_def release_all_def Let_def)
  have "device c2 = close_all E (handles_to CloseHandle (handle_manager c))
           (flush_all E (handles_to FlushHandle (handle_manager c)) (device c))"
    using flush(1,3) close(1) by (simp add: flush_all_def close_all_def)
  moreover have "handle_manager c2 = []" if R: "releases E"
  proof -
    have "(h, b) \<notin> set (handle_manager c2)" for h b
      using flush(5) [OF R] close(4) close(5) [OF R] by (cases b) blast+
    then show ?thesis by (metis list.set_intros(1) neq_Nil_conv prod.collapse)
  qed
  ultimately show ?thesis by (simp add: drop has_open_handles_def)
qed

text \<open>
  An instance: a device that logs the handles it is given back and refuses every other command.
\<close>

definition no_capability :: raw_capability where
  "no_capability = \<lparr> raw_capability_tag = 0, raw_handles = (0, []), raw_tpm_properties = (0, []),
     raw_others = Inr () \<rparr>"

definition no_nv_public :: tpm2b_nv_public where
  "no_nv_public = \<lparr> raw_nv_size = 0, raw_nv_index = 0, raw_name_alg = 0, raw_attributes = 0,
     raw_auth_policy = (0, []), raw_data_size = 0 \<rparr>"

definition logging_esys :: "(drop_action \<times> u32) list esys" where
  "logging_esys = \<lparr>
     esys_tr_from_tpm_public = \<lambda>h s d. (1, 0, d),
     esys_tr_close = \<lambda>h d. (0, ESYS_TR_NONE, d @ [(CloseHandle, h)]),
     esys_flush_context = \<lambda>h d. (0, (), d @ [(FlushHandle, h)]),
     esys_get_capability = \<lambda>c p n s d. (1, (no_capability, 0), d),
     esys_nv_define_space = \<lambda>h a p s d. (1, 0, d),
     esys_nv_undefine_space = \<lambda>a h s d. (1, (), d),
     esys_nv_read_public = \<lambda>h s d. (1, (no_nv_public, (0, [])), d),
     esys_nv_write = \<lambda>a h b n s d. (1, (), d),
     esys_nv_increment = \<lambda>a h s d. (1, (), d),
     esys_nv_read = \<lambda>a h n k s d. (1, (0, []), d),
     esys_pcr_extend = \<lambda>h vs s d. (1, (), d),
     esys_pcr_read = \<lambda>l s d. (1, (0, (0, []), (0, [])), d),
     esys_pcr_reset = \<lambda>h s d. (1, (), d),
     esys_quote = \<lambda>k q a l s d. (1, ((0, []), (0, Raw_NoSignature)), d) \<rparr>"

definition sample_context :: "(drop_action \<times> u32) list tpm_context" where
  "sample_context = (new_context []) \<lparr> handle_manager :=
     [(4403000, FlushHandle), (4403001, CloseHandle), (4403002, FlushHandle)] \<rparr>"

theorem context_drop_releases_witness:
  "device (context_drop logging_esys sample_context)
     = [(FlushHandle, 4403000), (FlushHandle, 4403002), (CloseHandle, 4403001)]
   \<and> \<not> has_open_handles (handle_manager (context_drop logging_esys sample_context))"
proof -
  have inv: "manager_inv (handle_manager sample_context)"
    by (simp add: sample_context_def manager_inv_def ESYS_TR_NONE_def ESYS_TR_RH_NULL_def)
  have "releases logging_esys"
    by (simp add: releases_def logging_esys_def)
  then show ?thesis
    using context_drop_releases [OF inv, of logging_esys]
    by (simp add: flush_all_def close_all_def handles_to_def sample_context_def new_context_def logging_esys_def)
qed

end
