(* ===== verification/Tss_Tcti.thy ===== *)
theory Tss_Tcti
  imports Tss_Context
begin

text \<open>
  Opening and closing the device (\<open>tcti_ldr.rs\<close>, \<open>context.rs\<close>): the direct path, which allocates the
  transmission interface itself and initialises the device in it, since a static binary cannot load
  the plugins of the C library, beside the loader's path, and the end of a context. The state is
  what the process holds: allocated buffers, interfaces initialised in them, interfaces of the
  loader and ESYS contexts.
\<close>

section \<open>Resources\<close>

record resources =
  live_buffers :: "nat list"
  open_interfaces :: "nat list"
  loader_interfaces :: "nat list"
  esys_contexts :: nat

text \<open>
  The C library and \<open>malloc\<close>. \<open>tcti_size\<close> is the first call of \<open>Tss2_Tcti_Device_Init\<close>, with no
  buffer; \<open>tcti_init\<close> the second; both give a response code. \<open>tcti_finalize\<close> says whether an
  initialised interface has a function to finalise it.
\<close>

record tcti_lib =
  tcti_size :: "bytes \<Rightarrow> u32 \<times> nat"
  tcti_malloc :: "resources \<Rightarrow> nat \<Rightarrow> nat option"
  tcti_init :: "nat \<Rightarrow> bytes \<Rightarrow> u32"
  tcti_finalize :: "nat \<Rightarrow> bool"
  loader_init :: "resources \<Rightarrow> bytes \<Rightarrow> u32 \<times> nat"
  esys_initialize :: "nat \<Rightarrow> u32"

definition lib_ok :: "tcti_lib \<Rightarrow> bool" where
  "lib_ok L \<longleftrightarrow> (\<forall>r n p. tcti_malloc L r n = Some p \<longrightarrow> p \<notin> set (live_buffers r) \<and> p \<notin> set (open_interfaces r))
     \<and> (\<forall>r b rc p. loader_init L r b = (rc, p) \<longrightarrow> p \<notin> set (loader_interfaces r))
     \<and> (\<forall>p. tcti_finalize L p)"

definition free_buffer :: "nat \<Rightarrow> resources \<Rightarrow> resources" where
  "free_buffer p r = r \<lparr> live_buffers := removeAll p (live_buffers r) \<rparr>"

text \<open>The function to finalise is read out of the buffer, so the buffer must still be there.\<close>

definition finalize_interface :: "tcti_lib \<Rightarrow> nat \<Rightarrow> resources \<Rightarrow> resources" where
  "finalize_interface L p r =
     (if p \<in> set (live_buffers r) \<and> tcti_finalize L p then r \<lparr> open_interfaces := removeAll p (open_interfaces r) \<rparr> else r)"

section \<open>The interface\<close>

datatype tcti_init_mode = Loader | Direct

record tcti_context =
  tcti_pointer :: nat
  tcti_mode :: tcti_init_mode

text \<open>A C string: the text must not contain a zero byte.\<close>

definition c_string :: "bytes \<Rightarrow> bytes option" where
  "c_string b = (if 0 \<in> set b then None else Some b)"

text \<open>\<open>initialize\<close>, on the configuration string; a failed call of the loader leaves nothing open.\<close>

definition tcti_initialize :: "tcti_lib \<Rightarrow> bytes tss \<Rightarrow> resources \<Rightarrow> tcti_context tss \<times> resources" where
  "tcti_initialize L conf r =
     (case conf of Inl e \<Rightarrow> (Inl e, r)
      | Inr b \<Rightarrow> (case loader_init L r b of (rc, p) \<Rightarrow>
          if \<not> rc_success (from_tss_rc rc) then (Inl (Err (from_tss_rc rc)), r)
          else (Inr \<lparr> tcti_pointer = p, tcti_mode = Loader \<rparr>,
                r \<lparr> loader_interfaces := p # loader_interfaces r \<rparr>)))"

text \<open>\<open>path\<close> is the device's path as text, when it is valid UTF-8.\<close>

definition initialize_device_direct ::
  "tcti_lib \<Rightarrow> bytes option \<Rightarrow> resources \<Rightarrow> tcti_context tss \<times> resources" where
  "initialize_device_direct L path r =
     (case Option.bind path c_string of
        None \<Rightarrow> (local_error InvalidParam, r)
      | Some conf \<Rightarrow>
          (case tcti_size L conf of (rc, n) \<Rightarrow>
             if \<not> rc_success (from_tss_rc rc) then (Inl (Err (from_tss_rc rc)), r)
             else (case tcti_malloc L r n of
                 None \<Rightarrow> (local_error InternalError, r)
               | Some p \<Rightarrow>
                   (let r1 = r \<lparr> live_buffers := p # live_buffers r \<rparr>; rc = tcti_init L p conf in
                    if \<not> rc_success (from_tss_rc rc)
                    then (Inl (Err (from_tss_rc rc)), free_buffer p r1)
                    else (Inr \<lparr> tcti_pointer = p, tcti_mode = Direct \<rparr>,
                          r1 \<lparr> open_interfaces := p # open_interfaces r1 \<rparr>)))))"

definition tcti_drop :: "tcti_lib \<Rightarrow> tcti_context \<Rightarrow> resources \<Rightarrow> resources" where
  "tcti_drop L t r = (case tcti_mode t of
       Loader \<Rightarrow> r \<lparr> loader_interfaces := removeAll (tcti_pointer t) (loader_interfaces r) \<rparr>
     | Direct \<Rightarrow> free_buffer (tcti_pointer t) (finalize_interface L (tcti_pointer t) r))"

section \<open>A context over a device\<close>

text \<open>
  \<open>new_with_tcti\<close> owns the interface: when ESYS cannot be initialised it is dropped on the way out.
\<close>

definition new_with_tcti :: "tcti_lib \<Rightarrow> tcti_context \<Rightarrow> resources \<Rightarrow> tcti_context tss \<times> resources" where
  "new_with_tcti L t r =
     (let rc = esys_initialize L (tcti_pointer t) in
      if rc_success (from_tss_rc rc) then (Inr t, r \<lparr> esys_contexts := Suc (esys_contexts r) \<rparr>)
      else (Inl (Err (from_tss_rc rc)), tcti_drop L t r))"

definition new_device_direct :: "tcti_lib \<Rightarrow> bytes option \<Rightarrow> resources \<Rightarrow> tcti_context tss \<times> resources" where
  "new_device_direct L path r =
     (case initialize_device_direct L path r of
        (Inl e, r1) \<Rightarrow> (Inl e, r1)
      | (Inr t, r1) \<Rightarrow> new_with_tcti L t r1)"

definition context_new :: "tcti_lib \<Rightarrow> bytes tss \<Rightarrow> resources \<Rightarrow> tcti_context tss \<times> resources" where
  "context_new L conf r =
     (case tcti_initialize L conf r of
        (Inl e, r1) \<Rightarrow> (Inl e, r1)
      | (Inr t, r1) \<Rightarrow> new_with_tcti L t r1)"

text \<open>The end of a context: \<open>Esys_Finalize\<close>, then the drop of the interface it owns.\<close>

definition context_finalize :: "tcti_lib \<Rightarrow> tcti_context \<Rightarrow> resources \<Rightarrow> resources" where
  "context_finalize L t r = tcti_drop L t (r \<lparr> esys_contexts := esys_contexts r - 1 \<rparr>)"

text \<open>
  A function that opens the device, works with a context and lets it go: what every function of
  the virtual TPM crate does. The context is dropped whatever the outcome of the work; \<open>wrap\<close> takes
  an error of the opening to the function's own error. The work may not return.
\<close>

definition with_device :: "tcti_lib \<Rightarrow> 'd esys \<Rightarrow> bytes option \<Rightarrow> (tss_error stop \<Rightarrow> 'x) \<Rightarrow>
    ('d tpm_context \<Rightarrow> ('x \<times> 'd tpm_context) option) \<Rightarrow> resources \<times> 'd \<Rightarrow> ('x \<times> (resources \<times> 'd)) option" where
  "with_device L E path wrap body s =
     (case new_device_direct L path (fst s) of
        (Inl e, r) \<Rightarrow> Some (wrap e, (r, snd s))
      | (Inr t, r) \<Rightarrow>
          (case body (new_context (snd s)) of
             None \<Rightarrow> None
           | Some (x, c) \<Rightarrow> Some (x, (context_finalize L t r, device (context_drop E c)))))"

text \<open>Opening either fails and leaves the resources as they were, or adds what closing takes away.\<close>

lemma new_device_direct_cases:
  assumes "lib_ok L"
  shows "(\<exists>e. new_device_direct L path r = (Inl e, r))
     \<or> (\<exists>t r1. new_device_direct L path r = (Inr t, r1) \<and> context_finalize L t r1 = r)"
proof -
  let ?i = "initialize_device_direct L path r"
  have undo: "free_buffer p (r \<lparr> live_buffers := p # live_buffers r \<rparr>) = r"
    if "tcti_malloc L r n = Some p" for n p
  proof -
    have "p \<notin> set (live_buffers r)" using that assms unfolding lib_ok_def by blast
    then show ?thesis by (cases r) (simp add: free_buffer_def)
  qed
  have close: "tcti_drop L \<lparr> tcti_pointer = p, tcti_mode = Direct \<rparr>
      (r \<lparr> live_buffers := p # live_buffers r, open_interfaces := p # open_interfaces r \<rparr>) = r"
    if "tcti_malloc L r n = Some p" for n p
  proof -
    have "p \<notin> set (live_buffers r)" "p \<notin> set (open_interfaces r)" "tcti_finalize L p"
      using that assms by (auto simp: lib_ok_def)
    then show ?thesis
      by (cases r) (simp add: tcti_drop_def free_buffer_def finalize_interface_def)
  qed
  consider (fail) e where "?i = (Inl e, r)"
    | (made) p n where "tcti_malloc L r n = Some p"
        "?i = (Inr \<lparr> tcti_pointer = p, tcti_mode = Direct \<rparr>,
           r \<lparr> live_buffers := p # live_buffers r, open_interfaces := p # open_interfaces r \<rparr>)"
  proof (cases "Option.bind path c_string")
    case None
    then show thesis using fail by (simp add: initialize_device_direct_def local_error_def)
  next
    case (Some conf)
    obtain rc n where q: "tcti_size L conf = (rc, n)" by fastforce
    show thesis
    proof (cases "tcti_malloc L r n")
      case None
      then show thesis using fail Some q
        by (cases "rc_success (from_tss_rc rc)") (auto simp: initialize_device_direct_def local_error_def)
    next
      case (Some p)
      show thesis
        using fail made [OF Some] undo [OF Some] Some \<open>Option.bind path c_string = _\<close> q
        by (cases "rc_success (from_tss_rc rc)"; cases "rc_success (from_tss_rc (tcti_init L p conf))")
          (simp_all add: initialize_device_direct_def Let_def)
    qed
  qed
  then show ?thesis
  proof cases
    case fail
    then show ?thesis by (simp add: new_device_direct_def)
  next
    case made
    then show ?thesis using close [OF made(1)]
      by (cases r) (simp add: new_device_direct_def new_with_tcti_def context_finalize_def Let_def)
  qed
qed

text \<open>
  C18. A function on the device leaks nothing: whatever fails on the way (the path, the size query,
  the allocation, the initialisation of the device or of ESYS, the work itself), the buffers, open
  interfaces and ESYS contexts of the process are afterwards what they were before.
\<close>

theorem with_device_leaks_nothing:
  assumes "lib_ok L"
  shows "case with_device L E path wrap body (r, d) of
      None \<Rightarrow> body (new_context d) = None
    | Some (x, (r', d')) \<Rightarrow> r' = r"
  using new_device_direct_cases [OF assms, of path r]
  by (auto simp: with_device_def split: option.splits)

definition sample_tcti :: tcti_lib where
  "sample_tcti = \<lparr>
     tcti_size = \<lambda>conf. (0, 128),
     tcti_malloc = \<lambda>r n. Some (Suc (Max (insert 0 (set (live_buffers r) \<union> set (open_interfaces r))))),
     tcti_init = \<lambda>p conf. 0,
     tcti_finalize = \<lambda>p. True,
     loader_init = \<lambda>r b. (0, Suc (Max (insert 0 (set (loader_interfaces r))))),
     esys_initialize = \<lambda>p. 0 \<rparr>"

lemma Suc_Max_fresh: "finite A \<Longrightarrow> Suc (Max (insert 0 A)) \<notin> A"
  by (metis Max_ge Suc_n_not_le_n finite_insert insertI2)

lemma sample_tcti_ok: "lib_ok sample_tcti"
proof -
  have "Suc (Max (insert 0 (set xs \<union> set ys))) \<notin> set xs \<union> set ys" for xs ys :: "nat list"
    by (rule Suc_Max_fresh) simp
  moreover have "Suc (Max (insert 0 (set xs))) \<notin> set xs" for xs :: "nat list"
    by (rule Suc_Max_fresh) simp
  ultimately show ?thesis by (auto simp: lib_ok_def sample_tcti_def)
qed

theorem with_device_leaks_nothing_witness:
  "\<exists>x d'. with_device sample_tcti logging_esys (Some [47, 100]) Inl
      (\<lambda>c. Some (tr_from_tpm_public logging_esys (Pcr_Handle 0) c))
      (\<lparr> live_buffers = [7], open_interfaces = [7], loader_interfaces = [], esys_contexts = 1 \<rparr>, [])
    = Some (x, (\<lparr> live_buffers = [7], open_interfaces = [7], loader_interfaces = [], esys_contexts = 1 \<rparr>, d'))"
  using with_device_leaks_nothing [OF sample_tcti_ok, where E = logging_esys and path = "Some [47, 100]"
      and wrap = Inl and body = "\<lambda>c. Some (tr_from_tpm_public logging_esys (Pcr_Handle 0) c)" and d = "[]"
      and r = "\<lparr> live_buffers = [7], open_interfaces = [7], loader_interfaces = [], esys_contexts = 1 \<rparr>"]
  by (auto split: option.splits)

end
