(* ===== verification/Tss_Nv.thy ===== *)
theory Tss_Nv
  imports Tss_Context
begin

text \<open>
  Non-volatile indices as the wrapper offers them (\<open>abstraction/nv.rs\<close>): listing the defined
  indices, opening one, and reading, writing and seeking in it in portions no larger than the
  TPM's buffer.
\<close>

section \<open>Listing\<close>

text \<open>The handle is closed again, whether or not the public area could be read.\<close>

definition get_nv_index_info :: "'d esys \<Rightarrow> u32 \<Rightarrow> ('d, nv_public \<times> name) tpm" where
  "get_nv_index_info E th =
     tbind (tr_from_tpm_public E (NvIndex_Handle th)) (\<lambda>ob c.
       case nv_read_public E ob c of
         (Inl e, c1) \<Rightarrow> (Inl e, snd (tr_close E ob c1))
       | (Inr p, c1) \<Rightarrow> tbind (tr_close E ob) (\<lambda>_. tret p) c1)"

definition nv_index_of_handle :: "tpm_handle \<Rightarrow> u32 tss" where
  "nv_index_of_handle h = (case h of NvIndex_Handle v \<Rightarrow> Inr v | _ \<Rightarrow> local_error InvalidParam)"

definition TPM2_NV_INDEX_FIRST :: u32 where "TPM2_NV_INDEX_FIRST = 0x01000000"
definition TPM2_PT_NV_INDEX_MAX :: u32 where "TPM2_PT_NV_INDEX_MAX = 0x117"

text \<open>The number of handles asked for is the tag of a property; that more exist is ignored.\<close>

definition nv_list :: "'d esys \<Rightarrow> ('d, (nv_public \<times> name) list) tpm" where
  "nv_list E = execute_without_session
     (tbind (get_capability E Cap_Handles TPM2_NV_INDEX_FIRST TPM2_PT_NV_INDEX_MAX) (\<lambda>(d, _).
      tbind (tlift (case d of CapHandles hs \<Rightarrow> Inr hs | _ \<Rightarrow> local_error WrongValueFromTpm)) (\<lambda>hs.
      tmapM (\<lambda>h. tbind (tlift (nv_index_of_handle h)) (get_nv_index_info E)) hs)))"

section \<open>Opening\<close>

datatype nv_open_options =
    NewIndex nv_public nv_auth
  | ExistingIndex u32 nv_auth

text \<open>\<open>NvReaderWriter\<close>, the context it borrows apart.\<close>

record nv_reader_writer =
  rw_auth :: nv_auth
  rw_buffer_size :: nat
  rw_index :: object_handle
  rw_data_size :: nat
  rw_offset :: nat

definition max_nv_buffer_size :: "'d esys \<Rightarrow> ('d, nat) tpm" where
  "max_nv_buffer_size E = tbind (get_tpm_property E Pt_NvBufferMax) (\<lambda>v.
     tret (case v of None \<Rightarrow> MAX_NV_BUFFER | Some w \<Rightarrow> unat w))"

definition nv_open :: "'d esys \<Rightarrow> nv_open_options \<Rightarrow> ('d, nv_reader_writer) tpm" where
  "nv_open E opts =
     tbind (max_nv_buffer_size E) (\<lambda>bs.
       case opts of
         ExistingIndex th auth \<Rightarrow>
           tbind (execute_without_session (tr_from_tpm_public E (NvIndex_Handle th))) (\<lambda>ob.
           tbind (execute_without_session (nv_read_public E ob)) (\<lambda>(p, _).
           tret \<lparr> rw_auth = auth, rw_buffer_size = bs, rw_index = ob,
                  rw_data_size = nv_data_size p, rw_offset = 0 \<rparr>))
       | NewIndex p auth \<Rightarrow>
           tbind (tlift (provision_try_from (nv_auth_esys auth))) (\<lambda>pr.
           tbind (nv_define_space E pr None p) (\<lambda>ob.
           tret \<lparr> rw_auth = auth, rw_buffer_size = bs, rw_index = ob,
                  rw_data_size = nv_data_size p, rw_offset = 0 \<rparr>)))"

section \<open>Reading, writing, seeking\<close>

text \<open>
  \<open>read\<close> into a buffer of length \<open>n\<close>: the bytes stored in it, and the reader afterwards. The size
  and the offset are cut to 16 bits for the command.
\<close>

definition nv_rw_read :: "'d esys \<Rightarrow> nv_reader_writer \<Rightarrow> nat \<Rightarrow> ('d, bytes \<times> nv_reader_writer) tpm" where
  "nv_rw_read E rw n =
     (if rw_data_size rw \<le> rw_offset rw then tret ([], rw)
      else (let desired = min n (rw_data_size rw - rw_offset rw);
                sz = (of_nat (min (rw_buffer_size rw) desired) :: u16)
            in tbind (nv_read E (rw_auth rw) (rw_index rw) sz (of_nat (rw_offset rw))) (\<lambda>res.
               tbind (tlift (if length res = unat sz then Inr ()
                             else Inl (Aborted ''source slice length does not match''))) (\<lambda>_.
               tret (res, rw \<lparr> rw_offset := rw_offset rw + unat sz \<rparr>)))))"

definition nv_rw_write :: "'d esys \<Rightarrow> nv_reader_writer \<Rightarrow> bytes \<Rightarrow> ('d, nat \<times> nv_reader_writer) tpm" where
  "nv_rw_write E rw b =
     (if rw_data_size rw < rw_offset rw then tret (0, rw)
      else (let desired = min (length b) (rw_data_size rw - rw_offset rw);
                sz = (of_nat (min (rw_buffer_size rw) desired) :: u16)
            in tbind (tlift (bnd (index_range b 0 (unat sz)) (buffer_try_from MAX_NV_BUFFER))) (\<lambda>data.
               tbind (nv_write E (rw_auth rw) (rw_index rw) data (of_nat (rw_offset rw))) (\<lambda>_.
               tret (unat sz, rw \<lparr> rw_offset := rw_offset rw + unat sz \<rparr>)))))"

text \<open>
  \<open>seek\<close>, on 64-bit positions: a base and a signed offset, added in 64-bit signed arithmetic.
  \<open>None\<close> is the error of an invalid position.
\<close>

datatype seek_from = SeekStart nat | SeekEnd int | SeekCurrent int

definition in_i64 :: "int \<Rightarrow> bool" where
  "in_i64 x \<longleftrightarrow> - (2 ^ 63) \<le> x \<and> x < 2 ^ 63"

definition nv_rw_seek :: "nv_reader_writer \<Rightarrow> seek_from \<Rightarrow> (nat \<times> nv_reader_writer) option" where
  "nv_rw_seek rw pos =
     (let (base, off) = (case pos of
          SeekStart o' \<Rightarrow> (o', 0)
        | SeekEnd o' \<Rightarrow> (rw_data_size rw, o')
        | SeekCurrent o' \<Rightarrow> (rw_offset rw, o'))
      in if \<not> in_i64 (int base) then None
         else if \<not> in_i64 (int base + off) then None
         else if int base + off < 0 then None
         else Some (nat (int base + off), rw \<lparr> rw_offset := nat (int base + off) \<rparr>))"

text \<open>\<open>Drop\<close> closes the handle and ignores the outcome.\<close>

definition nv_rw_drop :: "'d esys \<Rightarrow> nv_reader_writer \<Rightarrow> 'd tpm_context \<Rightarrow> 'd tpm_context" where
  "nv_rw_drop E rw c = snd (execute_without_session (tr_close E (rw_index rw)) c)"

text \<open>
  \<open>read_to_end\<close> of the standard library calls \<open>read\<close> until it returns 0, each time with a
  non-empty buffer whose length \<open>lens i\<close> the library chooses.
\<close>

function nv_read_to_end :: "'d esys \<Rightarrow> (nat \<Rightarrow> nat) \<Rightarrow> nat \<Rightarrow> bytes \<Rightarrow> nv_reader_writer \<Rightarrow>
    'd tpm_context \<Rightarrow> (bytes tss \<times> nv_reader_writer) \<times> 'd tpm_context" where
  "nv_read_to_end E lens i acc rw c =
     (case nv_rw_read E rw (Suc (lens i)) c of
        (Inl e, c1) \<Rightarrow> ((Inl e, rw), c1)
      | (Inr (b, rw1), c1) \<Rightarrow>
          if b = [] then ((Inr acc, rw1), c1)
          else nv_read_to_end E lens (Suc i) (acc @ b) rw1 c1)"
  by pat_completeness auto

lemma nv_rw_read_Inr:
  assumes "nv_rw_read E rw n c = (Inr (b, rw1), c1)"
  shows "rw1 = rw \<lparr> rw_offset := rw_offset rw + length b \<rparr>
     \<and> (b \<noteq> [] \<longrightarrow> rw_offset rw < rw_data_size rw)"
  using assms by (cases rw) (auto simp: nv_rw_read_def Let_def split: if_splits)

lemma nv_rw_read_progress:
  assumes "nv_rw_read E rw n c = (Inr (b, rw1), c1)" and "b \<noteq> []"
  shows "rw_data_size rw1 - rw_offset rw1 < rw_data_size rw - rw_offset rw"
  using nv_rw_read_Inr [OF assms(1)] assms(2) by (cases b) auto

termination nv_read_to_end
  by (relation "measure (\<lambda>(E, lens, i, acc, rw, c). rw_data_size rw - rw_offset rw)")
    (auto intro: nv_rw_read_progress [OF sym])

declare nv_read_to_end.simps [simp del]

text \<open>\<open>read_full\<close>: an error of the TPM passes through \<open>std::io::Error\<close> and back unchanged.\<close>

definition read_full :: "'d esys \<Rightarrow> (nat \<Rightarrow> nat) \<Rightarrow> nv_auth \<Rightarrow> u32 \<Rightarrow> ('d, bytes) tpm" where
  "read_full E lens auth th =
     tbind (nv_open E (ExistingIndex th auth)) (\<lambda>rw c.
       case nv_read_to_end E lens 0 [] rw c of
         ((r, rw1), c1) \<Rightarrow> (r, nv_rw_drop E rw1 c1))"

section \<open>What the TPM promises\<close>

text \<open>
  The indices of a TPM as its specification describes them: a public area and, once written, the
  data. A view reads them, what the ESYS handles stand for, and whether the password of an entity
  authorises reading an index, off the state of the device.
\<close>

record nv_entry =
  entry_public :: nv_public
  entry_data :: "bytes option"

record 'd nv_view =
  view_index :: "'d \<Rightarrow> u32 \<Rightarrow> nv_entry option"
  view_object :: "'d \<Rightarrow> u32 \<Rightarrow> u32 option"
  view_readable :: "'d \<Rightarrow> u32 \<Rightarrow> u32 \<Rightarrow> bool"

definition same_view :: "'d nv_view \<Rightarrow> 'd \<Rightarrow> 'd \<Rightarrow> bool" where
  "same_view V d d' \<longleftrightarrow> view_index V d' = view_index V d \<and> view_object V d' = view_object V d
     \<and> view_readable V d' = view_readable V d"

text \<open>Opening an object gives a handle that may stand for something else from then on.\<close>

definition open_law :: "'d esys \<Rightarrow> 'd nv_view \<Rightarrow> bool" where
  "open_law E V \<longleftrightarrow> (\<forall>h s d rc ob d'. esys_tr_from_tpm_public E h s d = (rc, ob, d') \<longrightarrow>
     view_index V d' = view_index V d
     \<and> view_object V d' = (if rc = 0 then (view_object V d)(ob \<mapsto> h) else view_object V d)
     \<and> (\<forall>a. a \<noteq> ob \<longrightarrow> view_readable V d' a = view_readable V d a))"

definition close_law :: "'d esys \<Rightarrow> 'd nv_view \<Rightarrow> bool" where
  "close_law E V \<longleftrightarrow> (\<forall>ob d rc x d'. esys_tr_close E ob d = (rc, x, d') \<longrightarrow>
     view_index V d' = view_index V d
     \<and> view_object V d' = (if rc = 0 then (view_object V d)(ob := None) else view_object V d))"

definition capability_law :: "'d esys \<Rightarrow> 'd nv_view \<Rightarrow> bool" where
  "capability_law E V \<longleftrightarrow> (\<forall>cap p n s d rc x d'. esys_get_capability E cap p n s d = (rc, x, d') \<longrightarrow>
     same_view V d d')"

text \<open>
  A public area is sent back with the size of its byte form, which the wrapper leaves to the C library
  when it sends one.
\<close>

definition public_law :: "'d esys \<Rightarrow> 'd nv_view \<Rightarrow> bool" where
  "public_law E V \<longleftrightarrow> (\<forall>ob s d rc t n d'. esys_nv_read_public E ob s d = (rc, (t, n), d') \<longrightarrow>
     same_view V d d' \<and> (rc = 0 \<longrightarrow> (\<exists>h e. view_object V d ob = Some h \<and> view_index V d h = Some e
       \<and> (\<exists>t0 sz. nv_public_to_tss (entry_public e) = Inr t0 \<and> unat sz \<le> NV_PUBLIC_MAX
            \<and> t = t0 \<lparr> raw_nv_size := sz \<rparr>))))"

definition read_law :: "'d esys \<Rightarrow> 'd nv_view \<Rightarrow> bool" where
  "read_law E V \<longleftrightarrow> (\<forall>a ob n off s d rc t d'. esys_nv_read E a ob n off s d = (rc, t, d') \<longrightarrow>
     same_view V d d' \<and> (rc = 0 \<longrightarrow> (\<exists>h e b. view_object V d ob = Some h \<and> view_index V d h = Some e
       \<and> entry_data e = Some b \<and> unat off + unat n \<le> length b
       \<and> t = (n, pad_to MAX_NV_BUFFER (take (unat n) (drop (unat off) b))))))"

text \<open>
  A write needs room; what it does not reach stays, and is arbitrary if never written. It sets the
  attribute \<open>Written\<close> of the index.
\<close>

definition written :: "nv_public \<Rightarrow> nv_public" where
  "written p = p \<lparr> nv_attributes := with_nv_attr (nv_attributes p) Written True \<rparr>"

definition write_law :: "'d esys \<Rightarrow> 'd nv_view \<Rightarrow> bool" where
  "write_law E V \<longleftrightarrow> (\<forall>a ob t off s d rc x d'. esys_nv_write E a ob t off s d = (rc, x, d') \<longrightarrow>
     (rc \<noteq> 0 \<longrightarrow> same_view V d d')
     \<and> (rc = 0 \<longrightarrow> (\<exists>h e b old. view_object V d ob = Some h \<and> view_index V d h = Some e
       \<and> buffer_of_tss MAX_NV_BUFFER t = Inr b \<and> unat off + length b \<le> nv_data_size (entry_public e)
       \<and> length old = nv_data_size (entry_public e) \<and> (\<forall>w. entry_data e = Some w \<longrightarrow> old = w)
       \<and> view_index V d' = (view_index V d)(h \<mapsto>
            \<lparr> entry_public = written (entry_public e), entry_data = Some (put_at (unat off) b old) \<rparr>)
       \<and> view_object V d' = view_object V d)))"

definition define_law :: "'d esys \<Rightarrow> 'd nv_view \<Rightarrow> bool" where
  "define_law E V \<longleftrightarrow> (\<forall>a au t s d rc ob d'. esys_nv_define_space E a au t s d = (rc, ob, d') \<longrightarrow>
     (rc \<noteq> 0 \<longrightarrow> same_view V d d')
     \<and> (rc = 0 \<longrightarrow> (\<forall>p. nv_public_wf p \<longrightarrow> nv_public_to_tss p = Inr t \<longrightarrow>
       view_index V d (nv_index p) = None
       \<and> view_index V d' = (view_index V d)(nv_index p \<mapsto> \<lparr> entry_public = p, entry_data = None \<rparr>)
       \<and> view_object V d' = (view_object V d)(ob \<mapsto> nv_index p))))"

definition undefine_law :: "'d esys \<Rightarrow> 'd nv_view \<Rightarrow> bool" where
  "undefine_law E V \<longleftrightarrow> (\<forall>a ob s d rc x d'. esys_nv_undefine_space E a ob s d = (rc, x, d') \<longrightarrow>
     (rc \<noteq> 0 \<longrightarrow> same_view V d d')
     \<and> (rc = 0 \<longrightarrow> (\<exists>h. view_object V d ob = Some h \<and> view_index V d' = (view_index V d)(h := None)
       \<and> view_object V d' = (view_object V d)(ob := None))))"

definition nv_laws :: "'d esys \<Rightarrow> 'd nv_view \<Rightarrow> bool" where
  "nv_laws E V \<longleftrightarrow> open_law E V \<and> close_law E V \<and> capability_law E V \<and> public_law E V
     \<and> read_law E V \<and> write_law E V \<and> define_law E V \<and> undefine_law E V"

definition indices_ok :: "(u32 \<Rightarrow> nv_entry option) \<Rightarrow> bool" where
  "indices_ok ix \<longleftrightarrow> (\<forall>h e. ix h = Some e \<longrightarrow> nv_index (entry_public e) = h \<and> nv_public_wf (entry_public e)
     \<and> (\<forall>b. entry_data e = Some b \<longrightarrow> length b = nv_data_size (entry_public e)))"

definition nv_state_ok :: "'d nv_view \<Rightarrow> 'd \<Rightarrow> bool" where
  "nv_state_ok V d \<longleftrightarrow> indices_ok (view_index V d)"

lemma written_simps [simp]: "nv_index (written p) = nv_index p" "nv_data_size (written p) = nv_data_size p"
  by (simp_all add: written_def)

lemma written_wf: "nv_public_wf p \<Longrightarrow> nv_public_wf (written p)"
proof -
  have "nv_attributes_validate (with_nv_attr a Written True) = nv_attributes_validate a" for a
    unfolding nv_attributes_validate_def nv_index_type_of_def with_nv_attr_get with_nv_attr_index_type by simp
  then show "nv_public_wf p \<Longrightarrow> nv_public_wf (written p)" by (simp add: nv_public_wf_def written_def)
qed

text \<open>Whatever size it came with, a public area is read back.\<close>

lemma nv_public_read_back:
  assumes "nv_public_wf p" and "nv_public_to_tss p = Inr t" and "unat sz \<le> NV_PUBLIC_MAX"
  shows "nv_public_try_from (t \<lparr> raw_nv_size := sz \<rparr>) = Inr p"
proof -
  have "nv_public_try_from t = Inr p" using nv_public_roundtrip [OF assms(1)] assms(2) by simp
  then show ?thesis using assms(3) by (simp add: nv_public_try_from_def split: if_splits)
qed

section \<open>What the operations do to the indices\<close>

text \<open>Operations that only read: they leave all indices as they are, even when they fail.\<close>

definition only_reads :: "'d nv_view \<Rightarrow> ('d, 'a) tpm \<Rightarrow> bool" where
  "only_reads V m \<longleftrightarrow> (\<forall>c. view_index V (device (snd (m c))) = view_index V (device c))"

named_theorems reads_intros \<open>operations that only read\<close>

lemma only_readsD: "only_reads V m \<Longrightarrow> m c = (r, c') \<Longrightarrow> view_index V (device c') = view_index V (device c)"
  by (metis only_reads_def snd_conv)

lemma only_readsI:
  "(\<And>c r c'. m c = (r, c') \<Longrightarrow> view_index V (device c') = view_index V (device c)) \<Longrightarrow> only_reads V m"
  by (metis only_reads_def prod.collapse)

lemma only_reads_basic [reads_intros]:
  "only_reads V (tret x)" "only_reads V (tlift r)" "only_reads V (manage f)"
  by (simp_all add: only_reads_def tret_def tlift_def manage_def split: prod.split)

lemma only_reads_tbind [reads_intros]:
  "only_reads V m \<Longrightarrow> (\<And>x. only_reads V (k x)) \<Longrightarrow> only_reads V (tbind m k)"
  unfolding only_reads_def tbind_def
  by (auto split: prod.splits sum.splits) (metis snd_conv)+

lemma only_reads_split [reads_intros]:
  "(\<And>x y. only_reads V (k x y)) \<Longrightarrow> only_reads V (case p of (x, y) \<Rightarrow> k x y)"
  by (cases p) simp

lemma only_reads_execute [reads_intros]:
  "only_reads V m \<Longrightarrow> only_reads V (execute_with_sessions s m)"
  "only_reads V m \<Longrightarrow> only_reads V (execute_without_session m)"
  by (rule only_readsI, auto simp: execute_with_sessions_def execute_without_session_def
      set_sessions_def Let_def split: prod.splits dest: only_readsD)+

lemma only_reads_tmapM [reads_intros]: "(\<And>x. only_reads V (f x)) \<Longrightarrow> only_reads V (tmapM f xs)"
  by (induction xs) (auto intro!: reads_intros)

lemma only_reads_call:
  "(\<And>s d rc x d'. f s d = (rc, x, d') \<Longrightarrow> view_index V d' = view_index V d) \<Longrightarrow> only_reads V (esys_call f)"
  by (rule only_readsI) (auto simp: esys_call_def split: prod.splits)

lemma only_reads_esys:
  assumes "nv_laws E V"
  shows "only_reads V (esys_call (esys_tr_from_tpm_public E h))"
    "only_reads V (esys_call (\<lambda>s. esys_tr_close E ob))"
    "only_reads V (esys_call (esys_get_capability E cap p n))"
    "only_reads V (esys_call (esys_nv_read_public E ob))"
    "only_reads V (esys_call (esys_nv_read E a ob sz off))"
  using assms
  by (intro only_reads_call; auto simp: nv_laws_def open_law_def close_law_def capability_law_def
      public_law_def read_law_def same_view_def)+

lemma only_reads_commands:
  assumes "nv_laws E V"
  shows "only_reads V (tr_from_tpm_public E th)" "only_reads V (tr_close E ob)"
    "only_reads V (get_capability E cap p n)" "only_reads V (nv_read_public E ob)"
    "only_reads V (nv_read E na ob sz off)"
  unfolding tr_from_tpm_public_def tr_close_def get_capability_def nv_read_public_def nv_read_def
  by (intro reads_intros only_reads_esys [OF assms])+

lemma manage_Inr: "manage f c = (Inr x, c') \<longleftrightarrow>
    (\<exists>m. f (handle_manager c) = (Inr x, m) \<and> c' = c \<lparr> handle_manager := m \<rparr>)"
  by (auto simp: manage_def split: prod.splits)

lemma execute_Inr: "execute_without_session m c = (Inr x, c') \<longleftrightarrow>
    (\<exists>c1. m (set_sessions (None, None, None) c) = (Inr x, c1) \<and> c' = set_sessions (ctx_sessions c) c1)"
  by (auto simp: execute_without_session_def execute_with_sessions_def Let_def split: prod.splits)

text \<open>A listed public area is that of a defined index.\<close>

lemma nv_read_public_Inr:
  assumes "nv_laws E V" and "nv_state_ok V (device c)" and "nv_read_public E ob c = (Inr (p, n), c')"
  shows "\<exists>h e. view_object V (device c) ob = Some h \<and> view_index V (device c) h = Some e
     \<and> entry_public e = p \<and> same_view V (device c) (device c')"
proof -
  obtain t m d where call: "esys_nv_read_public E ob (optional_sessions c) (device c) = (0, (t, m), d)"
      and p: "nv_public_try_from t = Inr p" and c': "c' = c \<lparr> device := d \<rparr>"
    using assms(3) by (auto simp: nv_read_public_def esys_call_Inr)
  then obtain h e where he: "view_object V (device c) ob = Some h" "view_index V (device c) h = Some e"
      "same_view V (device c) d" and t: "\<exists>t0 sz. nv_public_to_tss (entry_public e) = Inr t0
        \<and> unat sz \<le> NV_PUBLIC_MAX \<and> t = t0 \<lparr> raw_nv_size := sz \<rparr>"
    using assms(1) unfolding nv_laws_def public_law_def by blast
  moreover have "nv_public_wf (entry_public e)"
    using assms(2) he(2) by (simp add: nv_state_ok_def indices_ok_def)
  then have "entry_public e = p" using nv_public_read_back [of "entry_public e"] t p by auto
  ultimately show ?thesis using c' by auto
qed

lemma open_lawD: "nv_laws E V \<Longrightarrow> esys_tr_from_tpm_public E h s d = (0, ob, d') \<Longrightarrow>
    view_index V d' = view_index V d \<and> view_object V d' = (view_object V d)(ob \<mapsto> h)
    \<and> (\<forall>a. a \<noteq> ob \<longrightarrow> view_readable V d' a = view_readable V d a)"
  unfolding nv_laws_def open_law_def by (cases s) force

lemma tr_from_tpm_public_Inr:
  assumes "nv_laws E V" and "tr_from_tpm_public E th c = (Inr ob, c')"
  shows "view_index V (device c') = view_index V (device c)
     \<and> view_object V (device c') = (view_object V (device c))(ob \<mapsto> tpm_handle_u32 th)"
proof -
  obtain d where call: "esys_tr_from_tpm_public E (tpm_handle_u32 th) (optional_sessions c) (device c) = (0, ob, d)"
      and dev: "device c' = d"
    using assms(2) by (auto simp: tr_from_tpm_public_def esys_call_Inr manage_Inr)
  then show ?thesis using open_lawD [OF assms(1)] by simp
qed

lemma get_nv_index_info_Inr:
  assumes "nv_laws E V" and "nv_state_ok V (device c)" and "get_nv_index_info E th c = (Inr (p, n), c')"
  shows "\<exists>e. view_index V (device c) th = Some e \<and> entry_public e = p"
proof -
  obtain ob c1 where 1: "tr_from_tpm_public E (NvIndex_Handle th) c = (Inr ob, c1)"
      and rest: "(case nv_read_public E ob c1 of
         (Inl e, c2) \<Rightarrow> (Inl e, snd (tr_close E ob c2))
       | (Inr q, c2) \<Rightarrow> tbind (tr_close E ob) (\<lambda>_. tret q) c2) = (Inr (p, n), c')"
    using assms(3) unfolding get_nv_index_info_def tbind_Inr by blast
  then obtain c2 where 2: "nv_read_public E ob c1 = (Inr (p, n), c2)"
    by (cases "nv_read_public E ob c1"; cases "fst (nv_read_public E ob c1)") auto
  have v: "view_index V (device c1) = view_index V (device c)" "view_object V (device c1) ob = Some th"
    using tr_from_tpm_public_Inr [OF assms(1) 1] by simp_all
  then have "nv_state_ok V (device c1)" using assms(2) by (simp add: nv_state_ok_def)
  from nv_read_public_Inr [OF assms(1) this 2] v show ?thesis by auto
qed

lemma only_reads_info:
  assumes "nv_laws E V"
  shows "only_reads V (get_nv_index_info E th)"
proof -
  have "only_reads V (\<lambda>c. case nv_read_public E ob c of
         (Inl e, c1) \<Rightarrow> (Inl e, snd (tr_close E ob c1))
       | (Inr p, c1) \<Rightarrow> tbind (tr_close E ob) (\<lambda>_. tret p) c1)" for ob
  proof (rule only_readsI)
    fix c r c'
    assume *: "(case nv_read_public E ob c of
         (Inl e, c1) \<Rightarrow> (Inl e, snd (tr_close E ob c1))
       | (Inr p, c1) \<Rightarrow> tbind (tr_close E ob) (\<lambda>_. tret p) c1) = (r, c')"
    obtain q c1 where q: "nv_read_public E ob c = (q, c1)" by fastforce
    have "only_reads V (tbind (tr_close E ob) (\<lambda>_. tret p))" for p :: "nv_public \<times> name"
      by (intro reads_intros only_reads_commands [OF assms])
    then have reads: "view_index V (device (snd (tbind (tr_close E ob) (\<lambda>_. tret p) c1))) = view_index V (device c1)"
      for p :: "nv_public \<times> name"
      by (simp add: only_reads_def)
    have "view_index V (device c') = view_index V (device c1)"
    proof (cases q)
      case (Inl e)
      then show ?thesis
        using * q only_reads_commands(2) [OF assms, of ob] by (auto simp: only_reads_def)
    next
      case (Inr p)
      then show ?thesis using * q reads [of p] by simp
    qed
    then show "view_index V (device c') = view_index V (device c)"
      using only_readsD [OF only_reads_commands(4) [OF assms] q] by simp
  qed
  then show ?thesis
    unfolding get_nv_index_info_def by (intro reads_intros only_reads_commands [OF assms])
qed

lemma tmapM_reads:
  assumes "\<And>x. only_reads V (f x)"
    and "\<And>x c y c'. f x c = (Inr y, c') \<Longrightarrow> I (view_index V (device c)) \<Longrightarrow> P (view_index V (device c)) y"
    and "I (view_index V (device c))" and "tmapM f xs c = (Inr ys, c')"
  shows "\<forall>y \<in> set ys. P (view_index V (device c)) y"
  using assms(3,4)
proof (induction xs arbitrary: c ys)
  case (Cons x xs)
  obtain y c1 zs where y: "f x c = (Inr y, c1)" and zs: "tmapM f xs c1 = (Inr zs, c')" "ys = y # zs"
    using Cons.prems(2) by auto
  have same: "view_index V (device c1) = view_index V (device c)"
    using only_readsD [OF assms(1) y] .
  then have "\<forall>z \<in> set zs. P (view_index V (device c)) z"
    using Cons.IH [OF _ zs(1)] Cons.prems(1) by simp
  then show ?case using assms(2) [OF y Cons.prems(1)] zs(2) by simp
qed simp

lemma nv_list_only_reads: "nv_laws E V \<Longrightarrow> only_reads V (nv_list E)"
  unfolding nv_list_def by (intro reads_intros only_reads_commands only_reads_info)

lemma nv_list_sound:
  assumes "nv_laws E V" and "nv_state_ok V (device c)" and "nv_list E c = (Inr l, c')" and "(p, n) \<in> set l"
  shows "\<exists>e. view_index V (device c) (nv_index p) = Some e \<and> entry_public e = p"
proof -
  let ?f = "\<lambda>h. tbind (tlift (nv_index_of_handle h)) (get_nv_index_info E)"
  obtain x c0 c1 hs c2 where 0: "device c0 = device c"
      and 1: "get_capability E Cap_Handles TPM2_NV_INDEX_FIRST TPM2_PT_NV_INDEX_MAX c0 = (Inr x, c1)"
      and 2: "tmapM ?f hs c1 = (Inr l, c2)"
  proof -
    let ?c0 = "set_sessions (None, None, None) c"
    let ?k = "\<lambda>(d, _). tbind (tlift (case d of CapHandles hs \<Rightarrow> Inr hs | _ \<Rightarrow> local_error WrongValueFromTpm))
        (\<lambda>hs. tmapM ?f hs)"
    obtain c2 where "tbind (get_capability E Cap_Handles TPM2_NV_INDEX_FIRST TPM2_PT_NV_INDEX_MAX) ?k ?c0 = (Inr l, c2)"
      using assms(3) unfolding nv_list_def execute_Inr by blast
    then obtain d m c1 where 1: "get_capability E Cap_Handles TPM2_NV_INDEX_FIRST TPM2_PT_NV_INDEX_MAX ?c0 = (Inr (d, m), c1)"
      and "?k (d, m) c1 = (Inr l, c2)"
      unfolding tbind_Inr by (metis prod.collapse)
    then obtain hs where "tmapM ?f hs c1 = (Inr l, c2)" by auto
    with 1 show thesis by (intro that [of ?c0]) (simp_all add: set_sessions_def)
  qed
  have same: "view_index V (device c1) = view_index V (device c)"
    using only_readsD [OF only_reads_commands(3) [OF assms(1)] 1] 0 by simp
  have ok1: "indices_ok (view_index V (device c1))" using assms(2) same by (simp add: nv_state_ok_def)
  have "\<forall>y \<in> set l. \<exists>e. view_index V (device c1) (nv_index (fst y)) = Some e \<and> entry_public e = fst y"
  proof (rule tmapM_reads [where f = ?f and I = indices_ok, OF _ _ ok1 2])
    show "only_reads V (?f h)" for h by (intro reads_intros only_reads_info assms(1))
    show "\<exists>e. view_index V (device c) (nv_index (fst y)) = Some e \<and> entry_public e = fst y"
      if f: "?f h c = (Inr y, c')" and ok: "indices_ok (view_index V (device c))" for h c y c'
    proof -
      obtain th where th: "get_nv_index_info E th c = (Inr (fst y, snd y), c')" using f by auto
      have "nv_state_ok V (device c)" using ok by (simp add: nv_state_ok_def)
      from get_nv_index_info_Inr [OF assms(1) this th] obtain e
        where e: "view_index V (device c) th = Some e" "entry_public e = fst y" by blast
      then have "nv_index (fst y) = th" using ok unfolding indices_ok_def by metis
      then show ?thesis using e by blast
    qed
  qed
  then show ?thesis using assms(4) same by auto
qed

end
