(* ===== verification/Tss_Nv_Full.thy ===== *)
theory Tss_Nv_Full
  imports Tss_Nv
begin

text \<open>
  \<open>read_full\<close> of \<open>abstraction/nv.rs\<close> returns an index as the TPM stores it, and a simulated TPM
  that keeps to the laws, on which the examples run.
\<close>

section \<open>Reading a whole index\<close>

text \<open>
  What makes the TPM serve index \<open>h\<close> to \<open>auth\<close>, in portions of up to \<open>m\<close> bytes: as long as the password
  of \<open>auth\<close> authorises reading the index, the TPM opens the index under a handle not in use, describes
  it, and reads any range of its data that is no longer than \<open>m\<close> for a password session; and it
  names \<open>m\<close> as its \<open>NvBufferMax\<close>.
\<close>

definition no_sessions :: esys_sessions where
  "no_sessions = (ESYS_TR_NONE, ESYS_TR_NONE, ESYS_TR_NONE)"

definition password_session_only :: esys_sessions where
  "password_session_only = (ESYS_TR_PASSWORD, ESYS_TR_NONE, ESYS_TR_NONE)"

definition names_buffer_max :: "'d esys \<Rightarrow> nat \<Rightarrow> bool" where
  "names_buffer_max E m \<longleftrightarrow> 0 < m \<and> m \<le> MAX_NV_BUFFER
     \<and> (\<forall>d. \<exists>t y d' ps w b. esys_get_capability E (capability_type_u32 Cap_TpmProperties)
           (property_tag_u32 Pt_NvBufferMax) 4 no_sessions d = (0, (t, y), d')
         \<and> yes_no_try_from y = Inr b \<and> capability_data_try_from t = Inr (CapTpmProperties ps)
         \<and> distinct (map fst ps) \<and> map_of ps Pt_NvBufferMax = Some w \<and> unat w = m)"

definition serves_index :: "'d esys \<Rightarrow> 'd nv_view \<Rightarrow> nv_auth \<Rightarrow> u32 \<Rightarrow> nat \<Rightarrow> bool" where
  "serves_index E V auth h m \<longleftrightarrow> names_buffer_max E m
     \<and> (\<forall>d e b. nv_state_ok V d \<longrightarrow> view_index V d h = Some e \<longrightarrow> entry_data e = Some b \<longrightarrow>
         view_readable V d (nv_auth_esys auth) h \<longrightarrow>
         (\<exists>ob d'. esys_tr_from_tpm_public E h no_sessions d = (0, ob, d')
            \<and> ob \<noteq> ESYS_TR_NONE \<and> ob \<noteq> ESYS_TR_RH_NULL \<and> ob \<noteq> nv_auth_esys auth)
       \<and> (\<forall>ob. view_object V d ob = Some h \<longrightarrow>
            (\<exists>t n d'. esys_nv_read_public E ob no_sessions d = (0, (t, n), d') \<and> unat (fst n) \<le> NAME_MAX))
       \<and> (\<forall>ob n off. view_object V d ob = Some h \<longrightarrow> unat off + unat n \<le> length b \<longrightarrow> unat n \<le> m \<longrightarrow>
            fst (esys_nv_read E (nv_auth_esys auth) ob n off password_session_only d) = 0))"

definition by_password :: "'d tpm_context \<Rightarrow> bool" where
  "by_password c \<longleftrightarrow> optional_sessions c = password_session_only"

lemma map_of_updates: "distinct (map fst ps) \<Longrightarrow>
    map_of (fold (\<lambda>(t, v). AList.update t v) ps al) = map_of al ++ map_of ps"
proof (induction ps arbitrary: al)
  case (Cons p ps)
  then have fresh: "map_of ps (fst p) = None" by (simp add: map_of_eq_None_iff)
  show ?case
  proof
    fix k
    show "map_of (fold (\<lambda>(t, v). AList.update t v) (p # ps) al) k = (map_of al ++ map_of (p # ps)) k"
      using Cons fresh by (cases p) (auto simp: update_conv' map_add_def split: option.splits)
  qed
qed simp

lemma optional_sessions_none [simp]: "optional_sessions (set_sessions (None, None, None) c) = no_sessions"
  by (simp add: optional_sessions_def set_sessions_def no_sessions_def opt_session_esys_def)

lemma set_sessions_fields [simp]: "device (set_sessions s c) = device c"
    "handle_manager (set_sessions s c) = handle_manager c"
    "cached_tpm_properties (set_sessions s c) = cached_tpm_properties c"
    "ctx_sessions (set_sessions s c) = s"
  by (simp_all add: set_sessions_def)

lemma max_nv_buffer_size_served:
  assumes "nv_laws E V" and "names_buffer_max E m" and "cached_tpm_properties c = []"
  shows "\<exists>c'. max_nv_buffer_size E c = (Inr m, c') \<and> same_view V (device c) (device c')
     \<and> ctx_sessions c' = ctx_sessions c \<and> handle_manager c' = handle_manager c"
proof -
  obtain t y d' ps w b where *: "esys_get_capability E (capability_type_u32 Cap_TpmProperties)
        (property_tag_u32 Pt_NvBufferMax) 4 no_sessions (device c) = (0, (t, y), d')"
      "yes_no_try_from y = Inr b" "capability_data_try_from t = Inr (CapTpmProperties ps)"
      "distinct (map fst ps)" "map_of ps Pt_NvBufferMax = Some w" "unat w = m"
    using assms(2) unfolding names_buffer_max_def by blast
  have view: "same_view V (device c) d'"
    using assms(1) *(1) unfolding nv_laws_def capability_law_def by blast
  have call: "get_capability E Cap_TpmProperties (property_tag_u32 Pt_NvBufferMax) 4 (set_sessions (None, None, None) c)
      = (Inr (CapTpmProperties ps, b), set_sessions (None, None, None) c \<lparr> device := d' \<rparr>)"
    using * by (simp add: get_capability_def esys_call_def tbind_def tlift_def tret_def rc_success_iff
        del: capability_type_u32.simps property_tag_u32.simps)
  have run: "execute_without_session (get_capability E Cap_TpmProperties (property_tag_u32 Pt_NvBufferMax) 4) c
      = (Inr (CapTpmProperties ps, b), set_sessions (ctx_sessions c) (set_sessions (None, None, None) c \<lparr> device := d' \<rparr>))"
    using call by (simp add: execute_Inr)
  have "map_of (fold (\<lambda>(t, v). AList.update t v) ps []) Pt_NvBufferMax = Some w"
    using *(4,5) by (simp add: map_of_updates map_add_def)
  then show ?thesis
    using run view *(6) assms(3)
    by (simp add: max_nv_buffer_size_def get_tpm_property_def tbind_def tret_def cache_properties_def
        set_sessions_def)
qed

text \<open>One portion, and then the loop over them, whatever buffers the library offers.\<close>

definition reading :: "'d nv_view \<Rightarrow> nv_auth \<Rightarrow> u32 \<Rightarrow> nat \<Rightarrow> bytes \<Rightarrow> nv_reader_writer \<Rightarrow> 'd tpm_context \<Rightarrow> bool" where
  "reading V auth h m b rw c \<longleftrightarrow> nv_state_ok V (device c) \<and> view_object V (device c) (rw_index rw) = Some h
     \<and> (\<exists>e. view_index V (device c) h = Some e \<and> entry_data e = Some b)
     \<and> rw_auth rw = auth \<and> rw_buffer_size rw = m \<and> rw_data_size rw = length b
     \<and> rw_offset rw \<le> length b \<and> length b < 65536 \<and> by_password c
     \<and> view_readable V (device c) (nv_auth_esys auth) h"

lemma nv_rw_read_served:
  assumes "nv_laws E V" and "serves_index E V auth h m" and "reading V auth h m b rw c"
    and "rw_offset rw < length b" and k_def: "k = min m (min (Suc n) (length b - rw_offset rw))"
  shows "\<exists>c'. nv_rw_read E rw (Suc n) c
       = (Inr (take k (drop (rw_offset rw) b), rw \<lparr> rw_offset := rw_offset rw + k \<rparr>), c')
     \<and> same_view V (device c) (device c') \<and> ctx_sessions c' = ctx_sessions c \<and> 0 < k"
proof -
  let ?off = "rw_offset rw"
  obtain e where e: "view_index V (device c) h = Some e" "entry_data e = Some b"
      and ob: "view_object V (device c) (rw_index rw) = Some h" and ok: "nv_state_ok V (device c)"
    using assms(3) by (auto simp: reading_def)
  have m: "0 < m" "m \<le> MAX_NV_BUFFER" using assms(2) by (auto simp: serves_index_def names_buffer_max_def)
  have k: "0 < k" "?off + k \<le> length b" "k \<le> m" "k \<le> length b - ?off"
    using m assms(4) by (auto simp: k_def)
  have words: "unat (of_nat k :: u16) = k" "unat (of_nat ?off :: u16) = ?off"
    using k assms(3,4) by (auto simp: reading_def unat_of_nat)
  obtain rc t d where call: "esys_nv_read E (nv_auth_esys auth) (rw_index rw) (of_nat k) (of_nat ?off)
      (optional_sessions c) (device c) = (rc, t, d)" by (metis prod.collapse)
  have "rc = 0"
  proof -
    have "fst (esys_nv_read E (nv_auth_esys auth) (rw_index rw) (of_nat k) (of_nat ?off)
      (optional_sessions c) (device c)) = 0"
      using assms(2,3) e ob ok k words unfolding serves_index_def reading_def by_password_def by metis
    then show ?thesis using call by simp
  qed
  then have law: "same_view V (device c) d" "t = (of_nat k, pad_to MAX_NV_BUFFER (take k (drop ?off b)))"
    using assms(1) call e ob words unfolding nv_laws_def read_law_def by (metis option.inject)+
  have "buffer_of_tss MAX_NV_BUFFER t = Inr (take k (drop ?off b))"
    using k m words(1) by (auto simp: law(2) buffer_of_tss_def pad_to_def MAX_NV_BUFFER_def)
  then have "nv_read E auth (rw_index rw) (of_nat k) (of_nat ?off) c = (Inr (take k (drop ?off b)), c \<lparr> device := d \<rparr>)"
    using call \<open>rc = 0\<close> by (simp add: nv_read_def tbind_def tlift_def esys_call_def rc_success_iff)
  then show ?thesis
    using assms(3,4) k words law(1)
    by (simp add: nv_rw_read_def reading_def Let_def tbind_def tlift_def tret_def flip: k_def)
qed

lemma nv_read_to_end_served:
  assumes "nv_laws E V" and "serves_index E V auth h m" and "reading V auth h m b rw c"
    and "acc = take (rw_offset rw) b"
  shows "\<exists>rw' c'. nv_read_to_end E lens i acc rw c = ((Inr b, rw'), c')
     \<and> same_view V (device c) (device c')"
  using assms(3,4)
proof (induction "length b - rw_offset rw" arbitrary: i acc rw c rule: less_induct)
  case less
  show ?case
  proof (cases "rw_offset rw < length b")
    case False
    then show ?thesis
      using less.prems by (auto simp: nv_read_to_end.simps nv_rw_read_def tret_def reading_def same_view_def)
  next
    case True
    define k where "k = min m (min (Suc (lens i)) (length b - rw_offset rw))"
    let ?rw = "rw \<lparr> rw_offset := rw_offset rw + k \<rparr>"
    let ?part = "take k (drop (rw_offset rw) b)"
    obtain c1 where c1: "nv_rw_read E rw (Suc (lens i)) c = (Inr (?part, ?rw), c1)"
        "same_view V (device c) (device c1)" "ctx_sessions c1 = ctx_sessions c" "0 < k"
      using nv_rw_read_served [OF assms(1,2) less.prems(1) True k_def] by blast
    have "k \<le> length b - rw_offset rw" by (simp add: k_def)
    then have rd: "reading V auth h m b ?rw c1"
      using less.prems(1) c1(2,3) by (auto simp: reading_def same_view_def by_password_def optional_sessions_def nv_state_ok_def)
    have acc: "acc @ ?part = take (rw_offset ?rw) b"
      using less.prems(2) by (simp add: take_add)
    have "?part \<noteq> []" using True c1(4) by simp
    then have "nv_read_to_end E lens i acc rw c = nv_read_to_end E lens (Suc i) (acc @ ?part) ?rw c1"
      using c1(1) by (subst nv_read_to_end.simps) simp
    moreover have "length b - rw_offset ?rw < length b - rw_offset rw" using True c1(4) by simp
    ultimately show ?thesis
      using less.hyps [OF _ rd acc, of "Suc i"] c1(2) by (auto simp: same_view_def)
  qed
qed

definition closes_only :: "'d tpm_context \<Rightarrow> bool" where
  "closes_only c \<longleftrightarrow> handles_to FlushHandle (handle_manager c) = []"

lemma closes_only_add:
  "closes_only c \<Longrightarrow> ob \<noteq> ESYS_TR_NONE \<Longrightarrow> ob \<noteq> ESYS_TR_RH_NULL \<Longrightarrow>
     add_handle ob CloseHandle (handle_manager c) = (Inr (), AList.update ob CloseHandle (handle_manager c))"
proof -
  assume *: "closes_only c" "ob \<noteq> ESYS_TR_NONE" "ob \<noteq> ESYS_TR_RH_NULL"
  have "map_of (handle_manager c) ob \<noteq> Some FlushHandle"
    using *(1) by (auto simp: closes_only_def handles_to_def filter_empty_conv dest!: map_of_SomeD)
  then show ?thesis
    using *(2,3) by (auto simp: add_handle_def split: option.split) (metis drop_action.exhaust)
qed

lemma nv_open_served:
  assumes "nv_laws E V" and "nv_state_ok V (device c)" and "serves_index E V auth h m"
    and ix: "view_index V (device c) h = Some e" "entry_data e = Some b"
    and "by_password c" "cached_tpm_properties c = []" "closes_only c"
    and rdb: "view_readable V (device c) (nv_auth_esys auth) h"
  shows "\<exists>rw c'. nv_open E (ExistingIndex h auth) c = (Inr rw, c') \<and> reading V auth h m b rw c'
     \<and> rw_offset rw = 0 \<and> view_index V (device c') = view_index V (device c)"
proof -
  have serve: "names_buffer_max E m" using assms(3) by (simp add: serves_index_def)
  obtain c1 where c1: "max_nv_buffer_size E c = (Inr m, c1)" "same_view V (device c) (device c1)"
      "ctx_sessions c1 = ctx_sessions c" "handle_manager c1 = handle_manager c"
    using max_nv_buffer_size_served [OF assms(1) serve assms(7)] by blast
  then have ix1: "view_index V (device c1) h = Some e" "nv_state_ok V (device c1)"
      "view_readable V (device c1) (nv_auth_esys auth) h"
    using ix(1) assms(2) rdb by (simp_all add: same_view_def nv_state_ok_def)
  obtain ob d2 where ob: "esys_tr_from_tpm_public E h no_sessions (device c1) = (0, ob, d2)"
      "ob \<noteq> ESYS_TR_NONE" "ob \<noteq> ESYS_TR_RH_NULL" "ob \<noteq> nv_auth_esys auth"
    using assms(3) ix1 ix(2) unfolding serves_index_def by blast
  define c2 where "c2 = c1 \<lparr> device := d2, handle_manager := AList.update ob CloseHandle (handle_manager c1) \<rparr>"
  have "add_handle ob CloseHandle (handle_manager c1)
      = (Inr (), AList.update ob CloseHandle (handle_manager c1))"
    using closes_only_add [of c1 ob] assms(8) c1(4) ob by (simp add: closes_only_def)
  then have "execute_without_session (tr_from_tpm_public E (NvIndex_Handle h)) c1 = (Inr ob, c2)"
    using ob(1) by (simp add: execute_without_session_def execute_with_sessions_def tr_from_tpm_public_def
        tbind_def tret_def manage_def esys_call_def rc_success_iff Let_def c2_def set_sessions_def
        no_sessions_def optional_sessions_def opt_session_esys_def)
  moreover have v2: "view_index V d2 = view_index V (device c1)" "view_object V d2 ob = Some h"
      "view_readable V d2 (nv_auth_esys auth) h"
    using open_lawD [OF assms(1) ob(1)] ob(4) ix1(3) by auto
  obtain t n d3 where pub: "esys_nv_read_public E ob no_sessions d2 = (0, (t, n), d3)" "unat (fst n) \<le> NAME_MAX"
  proof -
    have "nv_state_ok V d2" using v2 ix1(2) by (simp add: nv_state_ok_def)
    then show thesis using assms(3) v2 ix1(1) ix(2) that unfolding serves_index_def by metis
  qed
  have law: "same_view V d2 d3" "\<exists>t0 sz. nv_public_to_tss (entry_public e) = Inr t0
      \<and> unat sz \<le> NV_PUBLIC_MAX \<and> t = t0 \<lparr> raw_nv_size := sz \<rparr>"
    using assms(1) pub(1) v2 ix1 unfolding nv_laws_def public_law_def by (metis option.inject)+
  have wf: "nv_public_wf (entry_public e)" "length b = nv_data_size (entry_public e)"
    using assms(2) ix unfolding nv_state_ok_def indices_ok_def by metis+
  have "nv_public_try_from t = Inr (entry_public e)"
    using nv_public_read_back [OF wf(1)] law(2) by auto
  then have "execute_without_session (nv_read_public E ob) c2 = (Inr (entry_public e, n), c2 \<lparr> device := d3 \<rparr>)"
    using pub by (simp add: execute_without_session_def execute_with_sessions_def nv_read_public_def
        tbind_def tlift_def tret_def esys_call_def rc_success_iff Let_def c2_def set_sessions_def
        name_try_from_def no_sessions_def optional_sessions_def opt_session_esys_def)
  ultimately have run: "nv_open E (ExistingIndex h auth) c
      = (Inr \<lparr> rw_auth = auth, rw_buffer_size = m, rw_index = ob, rw_data_size = nv_data_size (entry_public e),
              rw_offset = 0 \<rparr>, c2 \<lparr> device := d3 \<rparr>)"
    using c1(1) by (simp add: nv_open_def tbind_def tret_def)
  have "nv_data_size (entry_public e) < 65536" using wf(1) by (simp add: nv_public_wf_def)
  then show ?thesis
    using run wf(2) law(1) v2 ix1 ix(2) assms(6) c1
    by (simp add: reading_def same_view_def c2_def by_password_def optional_sessions_def nv_state_ok_def)
qed

section \<open>A simulated TPM\<close>

text \<open>
  Indices and ESYS objects in two lists; one object at a time, and a buffer of four bytes.
\<close>

record sim_tpm =
  sim_indices :: "(u32 \<times> nv_entry) list"
  sim_objects :: "(u32 \<times> u32) list"

definition SIM_OBJECT :: u32 where "SIM_OBJECT = 0x404000"

definition sim_entry :: "sim_tpm \<Rightarrow> u32 \<Rightarrow> (u32 \<times> nv_entry) option" where
  "sim_entry d ob = (case map_of (sim_objects d) ob of None \<Rightarrow> None
     | Some h \<Rightarrow> map_option (Pair h) (map_of (sim_indices d) h))"

definition sim_open :: "u32 \<Rightarrow> sim_tpm \<Rightarrow> u32 \<times> u32 \<times> sim_tpm" where
  "sim_open h d = (if map_of (sim_indices d) h = None then (0x18B, ESYS_TR_NONE, d)
     else (0, SIM_OBJECT, d \<lparr> sim_objects := AList.update SIM_OBJECT h (sim_objects d) \<rparr>))"

definition sim_capability :: "u32 \<Rightarrow> sim_tpm \<Rightarrow> raw_capability \<times> u8" where
  "sim_capability c d =
     (\<lparr> raw_capability_tag = c,
        raw_handles = (of_nat (length (sim_indices d)), map fst (sim_indices d)),
        raw_tpm_properties = (1, [(0x12C, 4)]), raw_others = Inr () \<rparr>, 0)"

definition sim_public :: "u32 \<Rightarrow> sim_tpm \<Rightarrow> u32 \<times> (tpm2b_nv_public \<times> name) \<times> sim_tpm" where
  "sim_public ob d = (case sim_entry d ob of
       None \<Rightarrow> (0x18B, (no_nv_public, (0, [])), d)
     | Some (h, e) \<Rightarrow> (case nv_public_to_tss (entry_public e) of
           Inl _ \<Rightarrow> (0x101, (no_nv_public, (0, [])), d)
         | Inr t \<Rightarrow> (0, (t \<lparr> raw_nv_size := of_nat (14 + min 64 (length (authorization_policy (entry_public e)))) \<rparr>,
                (0, [])), d)))"

text \<open>The owner reads an index by password if it has \<open>OwnerRead\<close> and is not locked.\<close>

definition sim_readable :: "sim_tpm \<Rightarrow> u32 \<Rightarrow> u32 \<Rightarrow> bool" where
  "sim_readable d a h = (case map_of (sim_indices d) h of None \<Rightarrow> False
     | Some e \<Rightarrow> a = ESYS_TR_RH_OWNER \<and> nv_attr (nv_attributes (entry_public e)) OwnerRead
         \<and> \<not> nv_attr (nv_attributes (entry_public e)) ReadLocked)"

definition sim_read :: "u32 \<Rightarrow> u32 \<Rightarrow> u16 \<Rightarrow> u16 \<Rightarrow> esys_sessions \<Rightarrow> sim_tpm \<Rightarrow>
    u32 \<times> (u16 \<times> bytes) \<times> sim_tpm" where
  "sim_read a ob n off s d = (case sim_entry d ob of
       None \<Rightarrow> (0x18B, (0, []), d)
     | Some (h, e) \<Rightarrow> (case entry_data e of
           None \<Rightarrow> (0x14A, (0, []), d)
         | Some b \<Rightarrow>
             if fst s \<noteq> ESYS_TR_PASSWORD \<or> \<not> sim_readable d a h then (0x149, (0, []), d)
             else if unat off + unat n > length b then (0x146, (0, []), d)
             else (0, (n, pad_to MAX_NV_BUFFER (take (unat n) (drop (unat off) b))), d)))"

definition sim_write :: "u32 \<Rightarrow> u16 \<times> bytes \<Rightarrow> u16 \<Rightarrow> sim_tpm \<Rightarrow> u32 \<times> unit \<times> sim_tpm" where
  "sim_write ob t off d = (case sim_entry d ob of
       None \<Rightarrow> (0x18B, (), d)
     | Some (h, e) \<Rightarrow> (case buffer_of_tss MAX_NV_BUFFER t of
           Inl _ \<Rightarrow> (0x1D5, (), d)
         | Inr b \<Rightarrow>
             (let n = nv_data_size (entry_public e);
                  old = (case entry_data e of None \<Rightarrow> replicate n 0 | Some w \<Rightarrow> w) in
              if unat off + length b > n \<or> length old \<noteq> n then (0x146, (), d)
              else (0, (), d \<lparr> sim_indices :=
                AList.update h
                \<lparr> entry_public = written (entry_public e), entry_data = Some (put_at (unat off) b old) \<rparr> (sim_indices d) \<rparr>))))"

definition sim_define :: "tpm2b_nv_public \<Rightarrow> sim_tpm \<Rightarrow> u32 \<times> u32 \<times> sim_tpm" where
  "sim_define t d = (case nv_public_try_from t of
       Inl _ \<Rightarrow> (0x2D5, ESYS_TR_NONE, d)
     | Inr p \<Rightarrow>
         if map_of (sim_indices d) (nv_index p) \<noteq> None then (0x14C, ESYS_TR_NONE, d)
         else (0, SIM_OBJECT, d \<lparr>
           sim_indices := AList.update (nv_index p) \<lparr> entry_public = p, entry_data = None \<rparr> (sim_indices d),
           sim_objects := AList.update SIM_OBJECT (nv_index p) (sim_objects d) \<rparr>))"

definition sim_undefine :: "u32 \<Rightarrow> sim_tpm \<Rightarrow> u32 \<times> unit \<times> sim_tpm" where
  "sim_undefine ob d = (case map_of (sim_objects d) ob of
       None \<Rightarrow> (0x18B, (), d)
     | Some h \<Rightarrow> (0, (), d \<lparr> sim_indices := AList.delete h (sim_indices d),
                          sim_objects := AList.delete ob (sim_objects d) \<rparr>))"

definition sim_esys :: "sim_tpm esys" where
  "sim_esys = \<lparr>
     esys_tr_from_tpm_public = \<lambda>h s. sim_open h,
     esys_tr_close = \<lambda>ob d. (0, ESYS_TR_NONE, d \<lparr> sim_objects := AList.delete ob (sim_objects d) \<rparr>),
     esys_flush_context = \<lambda>h d. (1, (), d),
     esys_get_capability = \<lambda>c p n s d. (0, sim_capability c d, d),
     esys_nv_define_space = \<lambda>h a p s. sim_define p,
     esys_nv_undefine_space = \<lambda>a h s. sim_undefine h,
     esys_nv_read_public = \<lambda>h s. sim_public h,
     esys_nv_write = \<lambda>a h b n s. sim_write h b n,
     esys_nv_increment = \<lambda>a h s d. (1, (), d),
     esys_nv_read = sim_read,
     esys_pcr_extend = \<lambda>h vs s d. (1, (), d),
     esys_pcr_read = \<lambda>l s d. (1, (0, (0, []), (0, [])), d),
     esys_pcr_reset = \<lambda>h s d. (1, (), d),
     esys_quote = \<lambda>k q a l s d. (1, ((0, []), (0, Raw_NoSignature)), d) \<rparr>"

definition sim_view :: "sim_tpm nv_view" where
  "sim_view = \<lparr> view_index = \<lambda>d. map_of (sim_indices d), view_object = \<lambda>d. map_of (sim_objects d),
     view_readable = sim_readable \<rparr>"

lemma sim_laws: "nv_laws sim_esys sim_view"
proof -
  have "open_law sim_esys sim_view"
    by (auto simp: open_law_def sim_esys_def sim_view_def sim_open_def sim_readable_def update_conv' split: if_splits)
  moreover have "close_law sim_esys sim_view"
    by (auto simp: close_law_def sim_esys_def sim_view_def delete_conv')
  moreover have "capability_law sim_esys sim_view"
    by (auto simp: capability_law_def sim_esys_def same_view_def)
  moreover have "public_law sim_esys sim_view"
    unfolding public_law_def
  proof (intro allI impI conjI)
    fix ob s d rc t n d' assume call: "esys_nv_read_public sim_esys ob s d = (rc, (t, n), d')"
    then show "same_view sim_view d d'"
      by (auto simp: sim_esys_def sim_public_def same_view_def split: option.splits sum.splits)
    assume "rc = 0"
    then obtain h e t0 where e: "sim_entry d ob = Some (h, e)" "nv_public_to_tss (entry_public e) = Inr t0"
        "t = t0 \<lparr> raw_nv_size := of_nat (14 + min 64 (length (authorization_policy (entry_public e)))) \<rparr>"
      using call by (auto simp: sim_esys_def sim_public_def split: option.splits sum.splits)
    have "unat (of_nat k :: u16) \<le> k" for k by (simp add: unat_of_nat)
    then have "unat (of_nat (14 + min 64 (length (authorization_policy (entry_public e)))) :: u16) \<le> NV_PUBLIC_MAX"
      by (rule order_trans) (simp add: NV_PUBLIC_MAX_def)
    then show "\<exists>h e. view_object sim_view d ob = Some h \<and> view_index sim_view d h = Some e
       \<and> (\<exists>t0 sz. nv_public_to_tss (entry_public e) = Inr t0 \<and> unat sz \<le> NV_PUBLIC_MAX \<and> t = t0 \<lparr> raw_nv_size := sz \<rparr>)"
      using e by (auto simp: sim_entry_def sim_view_def split: option.splits)
  qed
  moreover have "read_law sim_esys sim_view"
    by (auto simp: read_law_def sim_esys_def sim_view_def sim_read_def sim_entry_def same_view_def
        split: option.splits if_splits)
  moreover have "write_law sim_esys sim_view"
    by (auto simp: write_law_def sim_esys_def sim_view_def sim_write_def sim_entry_def same_view_def
        Let_def update_conv' split: option.splits sum.splits if_splits) (metis length_replicate)
  moreover have "define_law sim_esys sim_view"
    unfolding define_law_def
  proof (intro allI impI conjI)
    fix a au t s d rc ob d'
    assume call: "esys_nv_define_space sim_esys a au t s d = (rc, ob, d')"
    show "same_view sim_view d d'" if "rc \<noteq> 0"
      using call that by (auto simp: sim_esys_def sim_define_def same_view_def split: sum.splits if_splits)
    fix p assume "rc = 0" and p: "nv_public_wf p" "nv_public_to_tss p = Inr t"
    moreover have "nv_public_try_from t = Inr p" using nv_public_roundtrip [OF p(1)] p(2) by simp
    ultimately show "view_index sim_view d (nv_index p) = None"
      "view_index sim_view d' = (view_index sim_view d)(nv_index p \<mapsto> \<lparr> entry_public = p, entry_data = None \<rparr>)"
      "view_object sim_view d' = (view_object sim_view d)(ob \<mapsto> nv_index p)"
      using call by (auto simp: sim_esys_def sim_define_def sim_view_def update_conv' split: if_splits)
  qed
  moreover have "undefine_law sim_esys sim_view"
    by (auto simp: undefine_law_def sim_esys_def sim_view_def sim_undefine_def same_view_def delete_conv'
        split: option.splits)
  ultimately show ?thesis by (simp add: nv_laws_def)
qed

lemma sim_buffer_max: "names_buffer_max sim_esys 4"
proof -
  have cap: "capability_data_try_from (fst (sim_capability 6 d)) = Inr (CapTpmProperties [(Pt_NvBufferMax, 4)])" for d
    by (simp add: capability_data_try_from_def capability_type_try_from_def sim_capability_def
        tagged_property_list_try_from_def tagged_property_try_from_def property_tag_try_from_def
        all_property_tags_def max_cap_size_def)
  show ?thesis
    unfolding names_buffer_max_def
  proof (intro conjI allI)
    fix d
    show "\<exists>t y d' ps w b. esys_get_capability sim_esys (capability_type_u32 Cap_TpmProperties)
           (property_tag_u32 Pt_NvBufferMax) 4 no_sessions d = (0, (t, y), d')
         \<and> yes_no_try_from y = Inr b \<and> capability_data_try_from t = Inr (CapTpmProperties ps)
         \<and> distinct (map fst ps) \<and> map_of ps Pt_NvBufferMax = Some w \<and> unat w = 4"
      using cap [of d]
      by (intro exI [of _ "fst (sim_capability 6 d)"] exI [of _ 0] exI [of _ d]
          exI [of _ "[(Pt_NvBufferMax, 4)]"] exI [of _ 4] exI [of _ False])
        (simp add: sim_esys_def sim_capability_def yes_no_try_from_def)
  qed (simp_all add: MAX_NV_BUFFER_def)
qed

lemma sim_serves: "serves_index sim_esys sim_view NvAuthOwner h 4"
  unfolding serves_index_def
proof (intro conjI allI impI sim_buffer_max)
  fix d e b assume ok: "nv_state_ok sim_view d" "view_index sim_view d h = Some e" "entry_data e = Some b"
    "view_readable sim_view d (nv_auth_esys NvAuthOwner) h"
  then have ix: "map_of (sim_indices d) h = Some e" and rd: "sim_readable d ESYS_TR_RH_OWNER h"
    by (simp_all add: sim_view_def)
  show "\<exists>ob d'. esys_tr_from_tpm_public sim_esys h no_sessions d = (0, ob, d')
      \<and> ob \<noteq> ESYS_TR_NONE \<and> ob \<noteq> ESYS_TR_RH_NULL \<and> ob \<noteq> nv_auth_esys NvAuthOwner"
    using ix by (simp add: sim_esys_def sim_open_def SIM_OBJECT_def ESYS_TR_NONE_def ESYS_TR_RH_NULL_def
        ESYS_TR_RH_OWNER_def)
  fix ob assume ob: "view_object sim_view d ob = Some h"
  have "nv_public_wf (entry_public e)"
    using ok(1,2) unfolding nv_state_ok_def indices_ok_def by metis
  then show "\<exists>t n d'. esys_nv_read_public sim_esys ob no_sessions d = (0, (t, n), d') \<and> unat (fst n) \<le> NAME_MAX"
    using ix ob
    by (simp add: sim_esys_def sim_public_def sim_entry_def sim_view_def nv_public_wf_def nv_public_to_tss_def
        nv_attributes_to_tss_def)
  fix n off :: u16 assume "unat off + unat n \<le> length b"
  then show "fst (esys_nv_read sim_esys (nv_auth_esys NvAuthOwner) ob n off password_session_only d) = 0"
    using ix ob ok(3) rd by (simp add: sim_esys_def sim_read_def sim_entry_def sim_view_def password_session_only_def)
qed

section \<open>The result of \<open>read_full\<close>\<close>

lemma read_full_result:
  assumes "nv_laws E V" and "nv_state_ok V (device c)" and "serves_index E V auth h m"
    and "view_index V (device c) h = Some e" and "entry_data e = Some b"
    and "by_password c" and "cached_tpm_properties c = []" and "closes_only c"
    and "view_readable V (device c) (nv_auth_esys auth) h"
  shows "fst (read_full E lens auth h c) = Inr b
     \<and> view_index V (device (snd (read_full E lens auth h c))) = view_index V (device c)"
proof -
  obtain rw c1 where op: "nv_open E (ExistingIndex h auth) c = (Inr rw, c1)" "reading V auth h m b rw c1"
      "rw_offset rw = 0" "view_index V (device c1) = view_index V (device c)"
    using nv_open_served [OF assms] by blast
  from this(3) obtain rw' c2 where rd: "nv_read_to_end E lens 0 [] rw c1 = ((Inr b, rw'), c2)"
      "same_view V (device c1) (device c2)"
    using nv_read_to_end_served [OF assms(1,3) op(2), of "[]" lens 0] by auto
  have "only_reads V (execute_without_session (tr_close E (rw_index rw')))"
    by (intro reads_intros only_reads_commands assms(1))
  then have "view_index V (device (nv_rw_drop E rw' c2)) = view_index V (device c2)"
    by (simp add: nv_rw_drop_def only_reads_def)
  then show ?thesis
    using op(1,4) rd by (simp add: read_full_def tbind_def same_view_def)
qed

text \<open>
  C16. \<open>read_full\<close> returns the whole data of the index, byte for byte, whatever the size of the TPM's
  buffer and of the portions the standard library asks for. If the TPM keeps to its
  specification and serves the index to whoever its password authorises, reading a written index
  through a fresh context with a password session, by an entity whose password authorises it,
  succeeds with exactly the stored bytes and changes no index.
\<close>

theorem read_full_returns_index:
  assumes "nv_laws E V" and "nv_state_ok V (device c)" and "serves_index E V auth h m"
    and "view_index V (device c) h = Some e" and "entry_data e = Some b"
    and "by_password c" and "cached_tpm_properties c = []" and "closes_only c"
    and "view_readable V (device c) (nv_auth_esys auth) h"
  shows "fst (read_full E lens auth h c) = Inr b
     \<and> view_index V (device (snd (read_full E lens auth h c))) = view_index V (device c)"
  by (rule read_full_result [OF assms])

text \<open>An index of ten bytes, read in three portions.\<close>

definition sample_public :: nv_public where
  "sample_public = \<lparr> nv_index = 0x01400001, name_algorithm = AlgSha256, nv_attributes = 0x20020002,
     authorization_policy = [], nv_data_size = 10 \<rparr>"

definition sample_tpm :: sim_tpm where
  "sample_tpm = \<lparr> sim_indices = [(0x01400001, \<lparr> entry_public = sample_public,
       entry_data = Some [1, 2, 3, 4, 5, 6, 7, 8, 9, 10] \<rparr>)], sim_objects = [] \<rparr>"

definition password_context :: "'d \<Rightarrow> 'd tpm_context" where
  "password_context d = set_sessions (Some Password, None, None) (new_context d)"

lemma sample_public_wf: "nv_public_wf sample_public"
  by (simp add: nv_public_wf_def sample_public_def handle_new_def msb_byte_def handle_base_def
      nv_attributes_validate_def nv_attr_def nv_index_type_of_def nv_index_type_try_from_def
      tss_index_type_def DIGEST_MAX_def)

lemma password_context_ready:
  "by_password (password_context d)" "cached_tpm_properties (password_context d) = []"
  "closes_only (password_context d)" "device (password_context d) = d"
  "manager_inv (handle_manager (password_context d))"
  by (simp_all add: password_context_def new_context_def by_password_def password_session_only_def
      optional_sessions_def set_sessions_def opt_session_esys_def closes_only_def
      handles_to_def manager_inv_def)

lemma sample_tpm_ok: "nv_state_ok sim_view sample_tpm"
  using sample_public_wf
  by (auto simp: nv_state_ok_def indices_ok_def sim_view_def sample_tpm_def split: if_splits)
    (simp_all add: sample_public_def)

theorem read_full_returns_index_witness:
  "fst (read_full sim_esys (\<lambda>i. 2) NvAuthOwner 0x01400001 (password_context sample_tpm))
     = Inr [1, 2, 3, 4, 5, 6, 7, 8, 9, 10]"
proof -
  let ?e = "\<lparr> entry_public = sample_public, entry_data = Some [1, 2, 3, 4, 5, 6, 7, 8, 9, 10] \<rparr>"
  have ok: "nv_state_ok sim_view (device (password_context sample_tpm))"
    using sample_tpm_ok by (simp add: password_context_ready)
  have "view_index sim_view (device (password_context sample_tpm)) 0x01400001 = Some ?e"
    by (simp add: password_context_ready sim_view_def sample_tpm_def)
  moreover have "view_readable sim_view (device (password_context sample_tpm)) (nv_auth_esys NvAuthOwner) 0x01400001"
    by (simp add: password_context_ready sim_view_def sample_tpm_def sim_readable_def sample_public_def nv_attr_def)
  ultimately show ?thesis
    using read_full_returns_index [OF sim_laws ok sim_serves, of "0x01400001" ?e]
    by (simp add: password_context_ready)
qed

end
