(* ===== verification/Vtpm_Nv.thy ===== *)
theory Vtpm_Nv
  imports Tss_Tcti Tss_Nv_Full
begin

text \<open>
  The virtual TPM's non-volatile indices and registers (\<open>crates/az-cvm-vtpm/src/vtpm/mod.rs\<close>):
  writing an index that may exist with another size, reading the HCL report, with or without
  caller data, and extending a PCR. Every function opens the device afresh. Inside, errors
  are those of the TSS wrapper; the functions that callers see wrap them in their own error.
\<close>

section \<open>Constants\<close>

definition VTPM_HCL_REPORT_NV_INDEX :: u32 where "VTPM_HCL_REPORT_NV_INDEX = 0x01400001"
definition INDEX_REPORT_DATA :: u32 where "INDEX_REPORT_DATA = 0x01400002"
definition VTPM_AK_HANDLE :: u32 where "VTPM_AK_HANDLE = 0x81000003"

text \<open>\<open>/dev/tpm0\<close>.\<close>

definition TPM_DEVICE :: bytes where
  "TPM_DEVICE = [47, 100, 101, 118, 47, 116, 112, 109, 48]"

datatype extend_error = ExtendTpm tss_error | InvalidPcr

datatype report_error = ReportTpm tss_error | NvWriteFailed

definition to_pcr_handle :: "u8 \<Rightarrow> extend_error stop + pcr_handle" where
  "to_pcr_handle pcr =
     (case map_of (zip (map of_nat [0..<24])
        [Pcr0, Pcr1, Pcr2, Pcr3, Pcr4, Pcr5, Pcr6, Pcr7, Pcr8, Pcr9, Pcr10, Pcr11,
         Pcr12, Pcr13, Pcr14, Pcr15, Pcr16, Pcr17, Pcr18, Pcr19, Pcr20, Pcr21, Pcr22, Pcr23]) pcr of
        None \<Rightarrow> Inl (Err InvalidPcr)
      | Some h \<Rightarrow> Inr h)"

lemma to_pcr_handle_test:
  "to_pcr_handle 0 = Inr Pcr0" "to_pcr_handle 23 = Inr Pcr23" "to_pcr_handle 24 = Inl (Err InvalidPcr)"
  by (simp_all add: to_pcr_handle_def upt_rec)

section \<open>Indices\<close>

datatype nv_search_result = Found | NotFound | SizeMismatch

definition find_index :: "'d esys \<Rightarrow> u32 \<Rightarrow> nat \<Rightarrow> ('d, nv_search_result) tpm" where
  "find_index E h n = tbind (nv_list E) (\<lambda>l. tret
     (case List.find (\<lambda>(p, _). nv_index p = h) l of
        None \<Rightarrow> NotFound
      | Some (p, _) \<Rightarrow> if nv_data_size p \<noteq> n then SizeMismatch else Found))"

definition index_attributes :: "u32 tss" where
  "index_attributes = nv_attributes_build (with_nv_attr (with_nv_attr 0 OwnerWrite True) OwnerRead True)"

definition index_public :: "u32 \<Rightarrow> nat \<Rightarrow> nv_public tss" where
  "index_public h n = bnd index_attributes (\<lambda>a.
     nv_public_build (nv_public_builder_new \<lparr> b_nv_index := Some h, b_name_algorithm := Some AlgSha256,
       b_attributes := Some a, b_data_size := Some n \<rparr>))"

definition create_index :: "'d esys \<Rightarrow> u32 \<Rightarrow> nat \<Rightarrow> ('d, object_handle) tpm" where
  "create_index E h n = tbind (tlift (index_public h n)) (nv_define_space E ProvisionOwner None)"

definition resolve_handle :: "'d esys \<Rightarrow> u32 \<Rightarrow> ('d, object_handle) tpm" where
  "resolve_handle E h = execute_without_session (tr_from_tpm_public E (NvIndex_Handle h))"

definition delete_index :: "'d esys \<Rightarrow> u32 \<Rightarrow> ('d, unit) tpm" where
  "delete_index E h = tbind (resolve_handle E h) (nv_undefine_space E ProvisionOwner)"

definition write_nv_index :: "'d esys \<Rightarrow> u32 \<Rightarrow> bytes \<Rightarrow> ('d, unit) tpm" where
  "write_nv_index E h b =
     tbind (tlift (buffer_try_from MAX_NV_BUFFER b)) (\<lambda>buffer.
     tbind (find_index E h (length b)) (\<lambda>found.
     tbind (case found of
         NotFound \<Rightarrow> create_index E h (length b)
       | SizeMismatch \<Rightarrow> tbind (delete_index E h) (\<lambda>_. create_index E h (length b))
       | Found \<Rightarrow> resolve_handle E h) (\<lambda>index.
     nv_write E NvAuthOwner index buffer 0)))"

section \<open>The functions of the crate\<close>

text \<open>
  \<open>get_session_context\<close> sets a password session. \<open>lens\<close> are the buffer lengths of the standard
  library's \<open>read_to_end\<close>, \<open>wait\<close> what the device does in the three seconds the code sleeps.
\<close>

definition password_session :: "'d tpm_context \<Rightarrow> 'd tpm_context" where
  "password_session = set_sessions (Some Password, None, None)"

definition report_wrap :: "tss_error stop + 'a \<Rightarrow> report_error stop + 'a" where
  "report_wrap = map_err (map_stop ReportTpm)"

definition get_report :: "tcti_lib \<Rightarrow> 'd esys \<Rightarrow> (nat \<Rightarrow> nat) \<Rightarrow> resources \<times> 'd \<Rightarrow>
    (report_error stop + bytes) \<times> (resources \<times> 'd)" where
  "get_report L E lens s =
     (case handle_new KNvIndex VTPM_HCL_REPORT_NV_INDEX of
        Inl e \<Rightarrow> (report_wrap (Inl e), s)
      | Inr h \<Rightarrow> map_prod report_wrap id
          (the (with_device L E (Some TPM_DEVICE) Inl
                 (\<lambda>c. Some (read_full E lens NvAuthOwner h (password_session c))) s)))"

definition get_report_with_report_data :: "tcti_lib \<Rightarrow> 'd esys \<Rightarrow> ('d \<Rightarrow> 'd) \<Rightarrow> (nat \<Rightarrow> nat) \<Rightarrow> bytes \<Rightarrow>
    resources \<times> 'd \<Rightarrow> (report_error stop + bytes) \<times> (resources \<times> 'd)" where
  "get_report_with_report_data L E wait lens rd s = map_prod report_wrap id
     (the (with_device L E (Some TPM_DEVICE) Inl (\<lambda>c. Some
        (tbind (tlift (handle_new KNvIndex INDEX_REPORT_DATA)) (\<lambda>h.
         tbind (write_nv_index E h rd) (\<lambda>_.
         tbind (\<lambda>c. (Inr (), c \<lparr> device := wait (device c) \<rparr>)) (\<lambda>_.
         tbind (tlift (handle_new KNvIndex VTPM_HCL_REPORT_NV_INDEX)) (\<lambda>h'.
         read_full E lens NvAuthOwner h')))) (password_session c))) s))"

definition extend_wrap :: "tss_error stop + 'a \<Rightarrow> extend_error stop + 'a" where
  "extend_wrap = map_err (map_stop ExtendTpm)"

text \<open>The digest is an array of 32 bytes, which fits a \<open>Digest\<close>.\<close>

definition extend_pcr :: "tcti_lib \<Rightarrow> 'd esys \<Rightarrow> u8 \<Rightarrow> bytes \<Rightarrow> resources \<times> 'd \<Rightarrow>
    (extend_error stop + unit) \<times> (resources \<times> 'd)" where
  "extend_pcr L E pcr digest s =
     (case to_pcr_handle pcr of
        Inl e \<Rightarrow> (Inl e, s)
      | Inr h \<Rightarrow>
          (case buffer_try_from DIGEST_MAX digest of
             Inl e \<Rightarrow> (extend_wrap (Inl e), s)
           | Inr d \<Rightarrow> map_prod extend_wrap id
               (the (with_device L E (Some TPM_DEVICE) Inl
                 (\<lambda>c. Some (pcr_extend E h (digest_values_set AlgSha256 d []) (password_session c))) s))))"

section \<open>Writing an index\<close>

lemma index_public_Inr:
  assumes "handle_new KNvIndex h = Inr h" and "index_public h n = Inr p"
  shows "nv_public_wf p \<and> nv_index p = h \<and> nv_data_size p = n"
proof -
  define a where "a = with_nv_attr (with_nv_attr 0 OwnerWrite True) OwnerRead True"
  have "nv_attr a OwnerRead" "nv_attr a OwnerWrite"
    by (simp_all add: a_def with_nv_attr_get)
  moreover have "nv_index_type_of a = Inr Ordinary"
    by (simp add: a_def nv_index_type_of_def with_nv_attr_index_type nv_index_type_try_from_def)
      (simp add: tss_index_type_def)
  ultimately have valid: "nv_attributes_validate a = Inr ()"
    by (simp add: nv_attributes_validate_def)
  then have attrs: "index_attributes = Inr a"
    by (simp add: index_attributes_def nv_attributes_build_def a_def)
  show ?thesis
    using assms
    by (auto simp: valid attrs index_public_def nv_public_build_def nv_public_builder_new_def nv_public_wf_def
        split: if_splits)
qed

definition only_index :: "'d nv_view \<Rightarrow> u32 \<Rightarrow> 'd \<Rightarrow> 'd \<Rightarrow> bool" where
  "only_index V h d d' \<longleftrightarrow> (\<forall>k. k \<noteq> h \<longrightarrow> view_index V d' k = view_index V d k)"

lemma find_index_reads: "nv_laws E V \<Longrightarrow> only_reads V (find_index E h n)"
  unfolding find_index_def by (intro reads_intros nv_list_only_reads)

lemma find_index_Found:
  assumes "nv_laws E V" and "nv_state_ok V (device c)" and "find_index E h n c = (Inr Found, c')"
  shows "\<exists>e. view_index V (device c) h = Some e \<and> nv_data_size (entry_public e) = n"
proof -
  obtain l c1 where l: "nv_list E c = (Inr l, c1)"
      and r: "(case List.find (\<lambda>(p, _). nv_index p = h) l of
        None \<Rightarrow> NotFound
      | Some (p, _) \<Rightarrow> if nv_data_size p \<noteq> n then SizeMismatch else Found) = Found"
    using assms(3) by (auto simp: find_index_def)
  then obtain p m where f: "List.find (\<lambda>(p, _). nv_index p = h) l = Some (p, m)" and n: "nv_data_size p = n"
    by (auto split: option.splits if_splits)
  then have "(p, m) \<in> set l" "nv_index p = h"
    by (auto simp: find_Some_iff in_set_conv_nth)
  then show ?thesis using nv_list_sound [OF assms(1,2) l, of p m] n by auto
qed

lemma nv_define_space_Inr:
  assumes "nv_laws E V" and "nv_public_wf p" and "nv_define_space E pr au p c = (Inr ob, c')"
  shows "view_index V (device c') = (view_index V (device c))(nv_index p \<mapsto> \<lparr> entry_public = p, entry_data = None \<rparr>)
     \<and> view_object V (device c') ob = Some (nv_index p)"
proof -
  let ?au = "buffer_to_tss DIGEST_MAX (case au of None \<Rightarrow> [] | Some a \<Rightarrow> a)"
  obtain t d where t: "nv_public_to_tss p = Inr t"
      and call: "esys_nv_define_space E (provision_esys pr) ?au t (optional_sessions c) (device c) = (0, ob, d)"
      and dev: "device c' = d"
    using assms(3) by (auto simp: nv_define_space_def esys_call_Inr manage_Inr)
  from assms(1) have "define_law E V" by (simp add: nv_laws_def)
  with call t assms(2) have "view_index V d = (view_index V (device c))(nv_index p \<mapsto> \<lparr> entry_public = p, entry_data = None \<rparr>)
      \<and> view_object V d = (view_object V (device c))(ob \<mapsto> nv_index p)"
    unfolding define_law_def by blast
  then show ?thesis using dev by simp
qed

lemma nv_write_Inr:
  assumes "nv_laws E V" and "nv_write E a ob b off c = (Inr u, c')" and "length b \<le> MAX_NV_BUFFER"
  shows "\<exists>h e old. view_object V (device c) ob = Some h \<and> view_index V (device c) h = Some e
     \<and> unat off + length b \<le> nv_data_size (entry_public e) \<and> length old = nv_data_size (entry_public e)
     \<and> view_index V (device c') = (view_index V (device c))(h \<mapsto>
            \<lparr> entry_public = written (entry_public e), entry_data = Some (put_at (unat off) b old) \<rparr>)"
proof -
  obtain d where call: "esys_nv_write E (nv_auth_esys a) ob (buffer_to_tss MAX_NV_BUFFER b) off
      (optional_sessions c) (device c) = (0, (), d)" and dev: "device c' = d"
    using assms(2) by (auto simp: nv_write_def esys_call_Inr)
  have "buffer_of_tss MAX_NV_BUFFER (buffer_to_tss MAX_NV_BUFFER b) = Inr b"
    using assms(3) by (intro buffer_roundtrip) (simp_all add: MAX_NV_BUFFER_def)
  moreover from assms(1) have "write_law E V" by (simp add: nv_laws_def)
  then have "\<exists>h e b' old. view_object V (device c) ob = Some h \<and> view_index V (device c) h = Some e
     \<and> buffer_of_tss MAX_NV_BUFFER (buffer_to_tss MAX_NV_BUFFER b) = Inr b'
     \<and> unat off + length b' \<le> nv_data_size (entry_public e) \<and> length old = nv_data_size (entry_public e)
     \<and> view_index V d = (view_index V (device c))(h \<mapsto>
            \<lparr> entry_public = written (entry_public e), entry_data = Some (put_at (unat off) b' old) \<rparr>)"
    using call unfolding write_law_def by blast
  ultimately show ?thesis using dev by auto
qed

lemma resolve_handle_Inr:
  assumes "nv_laws E V" and "resolve_handle E h c = (Inr ob, c')"
  shows "view_index V (device c') = view_index V (device c) \<and> view_object V (device c') ob = Some h"
  using assms(2) tr_from_tpm_public_Inr [OF assms(1)]
  by (force simp: resolve_handle_def execute_Inr)

lemma delete_index_Inr:
  assumes "nv_laws E V" and "delete_index E h c = (Inr u, c')"
  shows "view_index V (device c') = (view_index V (device c))(h := None)"
proof -
  obtain ob c1 where 1: "resolve_handle E h c = (Inr ob, c1)"
      and 2: "nv_undefine_space E ProvisionOwner ob c1 = (Inr u, c')"
    using assms(2) by (auto simp: delete_index_def)
  obtain d where call: "esys_nv_undefine_space E (provision_esys ProvisionOwner) ob
      (optional_sessions c1) (device c1) = (0, (), d)" and dev: "device c' = d"
    using 2 by (auto simp: nv_undefine_space_def esys_call_Inr manage_Inr)
  from assms(1) have "undefine_law E V" by (simp add: nv_laws_def)
  then have "\<exists>k. view_object V (device c1) ob = Some k \<and> view_index V d = (view_index V (device c1))(k := None)"
    using call unfolding undefine_law_def by blast
  then show ?thesis using resolve_handle_Inr [OF assms(1) 1] dev by auto
qed

text \<open>After the middle step the handle stands for an index of the right size.\<close>

lemma prepare_index:
  assumes "nv_laws E V" and "nv_state_ok V (device c)" and h: "handle_new KNvIndex h = Inr h"
    and "find_index E h n c = (Inr found, c1)"
    and "(case found of
         NotFound \<Rightarrow> create_index E h n
       | SizeMismatch \<Rightarrow> tbind (delete_index E h) (\<lambda>_. create_index E h n)
       | Found \<Rightarrow> resolve_handle E h) c1 = (Inr ob, c2)"
  shows "\<exists>e. view_object V (device c2) ob = Some h \<and> view_index V (device c2) h = Some e
     \<and> nv_data_size (entry_public e) = n \<and> nv_index (entry_public e) = h \<and> nv_public_wf (entry_public e)
     \<and> only_index V h (device c) (device c2)"
proof -
  have same: "view_index V (device c1) = view_index V (device c)"
    using only_readsD [OF find_index_reads [OF assms(1)] assms(4)] .
  have create: "\<exists>e. view_object V (device c'') ob = Some h \<and> view_index V (device c'') h = Some e
     \<and> nv_data_size (entry_public e) = n \<and> nv_index (entry_public e) = h \<and> nv_public_wf (entry_public e)
     \<and> only_index V h (device c') (device c'')" if cr: "create_index E h n c' = (Inr ob, c'')" for c' c''
  proof -
    obtain p where p: "index_public h n = Inr p" and d: "nv_define_space E ProvisionOwner None p c' = (Inr ob, c'')"
      using cr by (auto simp: create_index_def)
    note wf = index_public_Inr [OF h p]
    from nv_define_space_Inr [OF assms(1) _ d] wf show ?thesis by (auto simp: only_index_def)
  qed
  show ?thesis
  proof (cases found)
    case Found
    then have r: "resolve_handle E h c1 = (Inr ob, c2)" using assms(5) by simp
    obtain e where e: "view_index V (device c) h = Some e" "nv_data_size (entry_public e) = n"
      using find_index_Found assms(1,2,4) Found by blast
    moreover have "nv_index (entry_public e) = h \<and> nv_public_wf (entry_public e)"
      using assms(2) e(1) unfolding nv_state_ok_def indices_ok_def by blast
    ultimately show ?thesis using resolve_handle_Inr [OF assms(1) r] same by (simp add: only_index_def)
  next
    case NotFound
    then show ?thesis using create [of c1 c2] assms(5) same by (auto simp: only_index_def)
  next
    case SizeMismatch
    then obtain c' where d: "delete_index E h c1 = (Inr (), c')" "create_index E h n c' = (Inr ob, c2)"
      using assms(5) by auto
    have "only_index V h (device c) (device c')"
      using delete_index_Inr [OF assms(1) d(1)] same by (simp add: only_index_def)
    then show ?thesis using create [OF d(2)] by (auto simp: only_index_def)
  qed
qed

lemma write_nv_index_result:
  assumes "nv_laws E V" and "nv_state_ok V (device c)" and "handle_new KNvIndex h = Inr h"
  shows "case write_nv_index E h b c of
      (Inr u, c') \<Rightarrow> (\<exists>e. view_index V (device c') h = Some e \<and> entry_data e = Some b
          \<and> nv_data_size (entry_public e) = length b)
        \<and> only_index V h (device c) (device c') \<and> nv_state_ok V (device c')
    | (Inl e, c') \<Rightarrow> length b > MAX_NV_BUFFER \<longrightarrow> e = Err (WrapperError WrongParamSize) \<and> c' = c"
proof (cases "write_nv_index E h b c")
  case (Pair r c')
  show ?thesis
  proof (cases r)
    case (Inl e)
    then show ?thesis
      using Pair by (auto simp: write_nv_index_def tbind_def tlift_def buffer_try_from_def local_error_def)
  next
    case (Inr u)
    obtain found c1 ob c2 where 1: "find_index E h (length b) c = (Inr found, c1)"
      and 2: "(case found of
         NotFound \<Rightarrow> create_index E h (length b)
       | SizeMismatch \<Rightarrow> tbind (delete_index E h) (\<lambda>_. create_index E h (length b))
       | Found \<Rightarrow> resolve_handle E h) c1 = (Inr ob, c2)"
      and 3: "nv_write E NvAuthOwner ob b 0 c2 = (Inr (), c')" and len: "length b \<le> MAX_NV_BUFFER"
      using Pair Inr by (auto simp: write_nv_index_def)
    obtain e where e: "view_object V (device c2) ob = Some h" "view_index V (device c2) h = Some e"
        "nv_data_size (entry_public e) = length b" "nv_index (entry_public e) = h" "nv_public_wf (entry_public e)"
        "only_index V h (device c) (device c2)"
      using prepare_index [OF assms 1 2] by blast
    obtain old where old: "length old = length b"
        "view_index V (device c') = (view_index V (device c2))(h \<mapsto>
            \<lparr> entry_public = written (entry_public e), entry_data = Some (put_at 0 b old) \<rparr>)"
      using nv_write_Inr [OF assms(1) 3 len] e(1-3) by auto
    then have b: "view_index V (device c') = (view_index V (device c2))(h \<mapsto>
            \<lparr> entry_public = written (entry_public e), entry_data = Some b \<rparr>)"
      by (simp add: put_at_def)
    have "nv_state_ok V (device c')"
      using assms(2) e(3-6) by (auto simp: nv_state_ok_def indices_ok_def only_index_def b written_wf)
    then show ?thesis
      using Pair Inr e(3,6) by (auto simp: b only_index_def)
  qed
qed

text \<open>
  C15. A successful write leaves the index with exactly the caller's data. Whether the index was
  missing, had another size or had the right one, after \<open>write_nv_index\<close> succeeds on a TPM that
  keeps to its specification the index has the size of the data and holds the data, no other index
  has changed, and the indices are consistent again; data larger than the TPM's buffer type is
  refused before anything is sent.
\<close>

theorem write_nv_index_stores:
  assumes "nv_laws E V" and "nv_state_ok V (device c)" and "handle_new KNvIndex h = Inr h"
  shows "case write_nv_index E h b c of
      (Inr u, c') \<Rightarrow> (\<exists>e. view_index V (device c') h = Some e \<and> entry_data e = Some b
          \<and> nv_data_size (entry_public e) = length b)
        \<and> only_index V h (device c) (device c') \<and> nv_state_ok V (device c')
    | (Inl e, c') \<Rightarrow> length b > MAX_NV_BUFFER \<longrightarrow> e = Err (WrapperError WrongParamSize) \<and> c' = c"
  by (rule write_nv_index_result [OF assms])

section \<open>An example\<close>

text \<open>The ten-byte index of the simulated TPM is rewritten with three bytes: it is deleted and made anew.\<close>

definition sample_run :: "sim_tpm tpm_context" where
  "sample_run = password_context sample_tpm"

lemmas run_simps = tbind_def tlift_def tret_def esys_call_def rc_success_iff sim_esys_def manage_def Let_def
  password_context_def new_context_def set_sessions_def execute_without_session_def execute_with_sessions_def

lemma sample_capability: "get_capability sim_esys Cap_Handles TPM2_NV_INDEX_FIRST TPM2_PT_NV_INDEX_MAX
    (set_sessions (None, None, None) sample_run)
  = (Inr (CapHandles [NvIndex_Handle 0x01400001], False), set_sessions (None, None, None) sample_run)"
  by (simp add: get_capability_def run_simps sim_capability_def sample_run_def
    capability_data_try_from_def capability_type_try_from_def handle_list_try_from_def max_cap_size_def sample_tpm_def
    tpm_handle_try_from_def msb_byte_def handle_new_def handle_base_def yes_no_try_from_def)

lemma sample_info: "get_nv_index_info sim_esys 0x01400001 (set_sessions (None, None, None) sample_run)
    = (Inr (sample_public, (0, [])), set_sessions (None, None, None) sample_run)"
proof -
  obtain t where t: "nv_public_to_tss sample_public = Inr t"
    using nv_public_roundtrip [OF sample_public_wf] by auto
  moreover have "nv_public_try_from (t \<lparr> raw_nv_size := 14 \<rparr>) = Inr sample_public"
    by (rule nv_public_read_back [OF sample_public_wf t]) (simp add: NV_PUBLIC_MAX_def)
  moreover have "authorization_policy sample_public = []" by (simp add: sample_public_def)
  ultimately show ?thesis
    by (simp add: get_nv_index_info_def tr_from_tpm_public_def run_simps sim_open_def sample_run_def
      nv_read_public_def sim_public_def sim_entry_def sample_tpm_def add_handle_def name_try_from_def
      NAME_MAX_def tr_close_def try_into_not_none_def set_as_closed_def set_as_def SIM_OBJECT_def
      ESYS_TR_NONE_def ESYS_TR_RH_NULL_def)
qed

lemma sample_find_index: "find_index sim_esys 0x01400001 3 sample_run = (Inr SizeMismatch, sample_run)"
proof -
  have "nv_list sim_esys sample_run = (Inr [(sample_public, (0, []))], sample_run)"
    using sample_capability sample_info
    by (simp add: nv_list_def execute_without_session_def execute_with_sessions_def tbind_def tret_def tlift_def
        nv_index_of_handle_def Let_def)
  then show ?thesis by (simp add: find_index_def tbind_def tret_def sample_public_def)
qed

definition sample_deleted :: "sim_tpm tpm_context" where
  "sample_deleted = password_context \<lparr> sim_indices = [], sim_objects = [] \<rparr>"

lemma sample_delete: "delete_index sim_esys 0x01400001 sample_run = (Inr (), sample_deleted)"
  by (simp add: delete_index_def resolve_handle_def tr_from_tpm_public_def run_simps sim_open_def sample_run_def
      sample_tpm_def add_handle_def nv_undefine_space_def sim_undefine_def set_as_closed_def set_as_def
      SIM_OBJECT_def ESYS_TR_NONE_def ESYS_TR_RH_NULL_def sample_deleted_def)

lemma sample_create: "\<exists>p c. create_index sim_esys 0x01400001 3 sample_deleted = (Inr SIM_OBJECT, c)
    \<and> nv_data_size p = 3 
    \<and> device c = \<lparr> sim_indices = [(0x01400001, \<lparr> entry_public = p, entry_data = None \<rparr>)],
                    sim_objects = [(SIM_OBJECT, 0x01400001)] \<rparr>"
proof -
  have h: "handle_new KNvIndex 0x01400001 = Inr 0x01400001"
    by (simp add: handle_new_def msb_byte_def handle_base_def)
  have "is_ok (index_public 0x01400001 3)"
    by (simp add: index_public_def index_attributes_def nv_attributes_build_def nv_public_build_def nv_public_builder_new_def
     nv_attributes_validate_def with_nv_attr_get nv_index_type_of_def with_nv_attr_index_type nv_index_type_try_from_def)
     (simp add: tss_index_type_def)
  then obtain p where p: "index_public 0x01400001 3 = Inr p" by (auto simp: is_ok_iff)
  note wf = index_public_Inr [OF h p]
  obtain t where "nv_public_to_tss p = Inr t" "nv_public_try_from t = Inr p"
    using nv_public_roundtrip [of p] wf by auto
  then show ?thesis using p wf
    by (intro exI [of _ p]) (simp add: create_index_def nv_define_space_def run_simps sim_define_def sample_deleted_def
      add_handle_def SIM_OBJECT_def ESYS_TR_NONE_def ESYS_TR_RH_NULL_def)
qed

lemma nv_buffer_roundtrip: "length b \<le> MAX_NV_BUFFER \<Longrightarrow> buffer_of_tss MAX_NV_BUFFER (buffer_to_tss MAX_NV_BUFFER b) = Inr b"
  by (rule buffer_roundtrip) (simp_all add: MAX_NV_BUFFER_def)

lemma sample_write: "is_ok (fst (write_nv_index sim_esys 0x01400001 [7, 8, 9] sample_run))"
proof -
  obtain p c where c: "create_index sim_esys 0x01400001 3 sample_deleted = (Inr SIM_OBJECT, c)" "nv_data_size p = 3" 
    "device c = \<lparr> sim_indices = [(0x01400001, \<lparr> entry_public = p, entry_data = None \<rparr>)],
                    sim_objects = [(SIM_OBJECT, 0x01400001)] \<rparr>"
    using sample_create by blast
  have "is_ok (fst (nv_write sim_esys NvAuthOwner SIM_OBJECT [7, 8, 9] 0 c))"
    using c(2,3) nv_buffer_roundtrip [of "[7, 8, 9]"]
    by (simp add: nv_write_def esys_call_def sim_esys_def sim_write_def sim_entry_def rc_success_iff MAX_NV_BUFFER_def)
  then show ?thesis
    using c(1) sample_find_index sample_delete
    by (simp add: write_nv_index_def tbind_def tlift_def buffer_try_from_def MAX_NV_BUFFER_def
        numeral_3_eq_3 [symmetric])
qed

theorem write_nv_index_stores_witness:
  "\<exists>c' e. write_nv_index sim_esys 0x01400001 [7, 8, 9] sample_run = (Inr (), c')
     \<and> view_index sim_view (device c') 0x01400001 = Some e \<and> entry_data e = Some [7, 8, 9]
     \<and> nv_data_size (entry_public e) = length [7 :: u8, 8, 9]"
proof -
  obtain c' where run: "write_nv_index sim_esys 0x01400001 [7, 8, 9] sample_run = (Inr (), c')"
    using sample_write by (cases "write_nv_index sim_esys 0x01400001 [7, 8, 9] sample_run") (auto simp: is_ok_iff)
  have h: "handle_new KNvIndex 0x01400001 = Inr 0x01400001"
    by (simp add: handle_new_def msb_byte_def handle_base_def)
  have "nv_state_ok sim_view (device sample_run)"
    using sample_tpm_ok by (simp add: sample_run_def password_context_ready)
  from write_nv_index_stores [OF sim_laws this h, of "[7, 8, 9]"] run show ?thesis by auto
qed

section \<open>What the operations leave of the context\<close>

text \<open>
  The cache of properties and the sessions stay, and no handle is registered to be flushed: the
  context stays fit for \<open>read_full\<close>.
\<close>

definition steady :: "('d, 'a) tpm \<Rightarrow> bool" where
  "steady m \<longleftrightarrow> (\<forall>c. cached_tpm_properties (snd (m c)) = cached_tpm_properties c
     \<and> ctx_sessions (snd (m c)) = ctx_sessions c \<and> (closes_only c \<longrightarrow> closes_only (snd (m c))))"

named_theorems steady_intros \<open>operations that leave the context fit for reading\<close>

lemma steadyD: "steady m \<Longrightarrow> m c = (r, c') \<Longrightarrow> cached_tpm_properties c' = cached_tpm_properties c
     \<and> ctx_sessions c' = ctx_sessions c \<and> (closes_only c \<longrightarrow> closes_only c')"
  by (metis steady_def snd_conv)

lemma steadyI: "(\<And>c r c'. m c = (r, c') \<Longrightarrow> cached_tpm_properties c' = cached_tpm_properties c
     \<and> ctx_sessions c' = ctx_sessions c \<and> (closes_only c \<longrightarrow> closes_only c')) \<Longrightarrow> steady m"
  by (metis steady_def prod.collapse)

lemma steady_basic [steady_intros]: "steady (tret x)" "steady (tlift r)" "steady (esys_call f)"
  by (auto simp: steady_def tret_def tlift_def esys_call_def closes_only_def split: prod.split)

lemma steady_tbind [steady_intros]: "steady m \<Longrightarrow> (\<And>x. steady (k x)) \<Longrightarrow> steady (tbind m k)"
  by (rule steadyI) (force simp: tbind_def split: prod.splits sum.splits dest: steadyD)

lemma steady_split [steady_intros]: "(\<And>x y. steady (k x y)) \<Longrightarrow> steady (case p of (x, y) \<Rightarrow> k x y)"
  by (cases p) simp

lemma steady_execute [steady_intros]: "steady m \<Longrightarrow> steady (execute_without_session m)"
  by (rule steadyI) (force simp: execute_without_session_def execute_with_sessions_def set_sessions_def
      Let_def closes_only_def split: prod.splits dest: steadyD)

lemma quiet_tmapM [steady_intros]: "(\<And>x. steady (f x)) \<Longrightarrow> steady (tmapM f xs)"
  by (induction xs) (auto intro!: steady_intros)

lemma steady_set_as [steady_intros]: "steady (manage (set_as_closed h))"
  by (auto simp: steady_def manage_def set_as_closed_def set_as_def closes_only_def handles_to_delete)

lemma handles_to_update:
  "handles_to FlushHandle m = [] \<Longrightarrow> handles_to FlushHandle (AList.update h CloseHandle m) = []"
  by (induction m) (auto simp: handles_to_def split: if_splits)

lemma steady_add [steady_intros]: "steady (manage (add_handle h CloseHandle))"
  by (auto simp: steady_def manage_def add_handle_def closes_only_def handles_to_update split: option.split)

lemma steady_commands [steady_intros]:
  "steady (tr_from_tpm_public E (NvIndex_Handle h))" "steady (tr_close E ob)"
  "steady (get_capability E cap p n)" "steady (nv_define_space E pr au pub)"
  "steady (nv_undefine_space E pr ob)" "steady (nv_read_public E ob)" "steady (nv_write E na ob b off)"
  unfolding tr_from_tpm_public_def tr_close_def get_capability_def nv_define_space_def
    nv_undefine_space_def nv_read_public_def nv_write_def
  by (simp_all, (intro steady_intros)+)

lemma steady_info [steady_intros]: "steady (get_nv_index_info E th)"
proof -
  have "steady (\<lambda>c. case nv_read_public E ob c of
         (Inl e, c1) \<Rightarrow> (Inl e, snd (tr_close E ob c1))
       | (Inr p, c1) \<Rightarrow> tbind (tr_close E ob) (\<lambda>_. tret p) c1)" (is "steady ?m") for ob
  proof (rule steadyI)
    fix c r c' assume *: "?m c = (r, c')"
    obtain q c1 where q: "nv_read_public E ob c = (q, c1)" by fastforce
    have "\<exists>r'. tr_close E ob c1 = (r', c')"
      using * q by (cases "tr_close E ob c1") (auto simp: tbind_def tret_def split: sum.splits)
    then show "cached_tpm_properties c' = cached_tpm_properties c
     \<and> ctx_sessions c' = ctx_sessions c \<and> (closes_only c \<longrightarrow> closes_only c')"
      using steadyD [OF steady_commands(6) q] steadyD [OF steady_commands(2)] by metis
  qed
  then show ?thesis unfolding get_nv_index_info_def by (intro steady_intros)
qed

lemma steady_write: "steady (write_nv_index E h b)"
proof -
  have "steady (find_index E h n)" for n
    unfolding find_index_def nv_list_def by (intro steady_intros)
  moreover have "steady (create_index E h n)" for n
    unfolding create_index_def by (intro steady_intros)
  moreover have "steady (resolve_handle E h)" unfolding resolve_handle_def by (intro steady_intros)
  moreover from this have "steady (delete_index E h)" unfolding delete_index_def by (intro steady_intros)
  ultimately show ?thesis
    unfolding write_nv_index_def
    by (intro steady_intros; auto split: nv_search_result.split intro!: steady_intros)
qed

section \<open>A report on the caller's data\<close>

text \<open>
  The hypervisor answers in the pause: from the data in the one index it makes the report \<open>F\<close> of it
  in the other, which the owner may read by password.
\<close>

definition hcl_reports :: "'d nv_view \<Rightarrow> ('d \<Rightarrow> 'd) \<Rightarrow> (bytes \<Rightarrow> bytes) \<Rightarrow> bool" where
  "hcl_reports V wait F \<longleftrightarrow> (\<forall>d e rd. nv_state_ok V d \<longrightarrow> view_index V d INDEX_REPORT_DATA = Some e \<longrightarrow>
     entry_data e = Some rd \<longrightarrow> nv_state_ok V (wait d) \<and>
       (\<exists>e'. view_index V (wait d) VTPM_HCL_REPORT_NV_INDEX = Some e' \<and> entry_data e' = Some (F rd))
       \<and> view_readable V (wait d) (nv_auth_esys NvAuthOwner) VTPM_HCL_REPORT_NV_INDEX)"

lemma with_device_total:
  "with_device L E path wrap (\<lambda>c. Some (f c)) (r, d) =
     Some (case new_device_direct L path r of
        (Inl e, r') \<Rightarrow> (wrap e, (r', d))
      | (Inr t, r') \<Rightarrow> (case f (new_context d) of (x, c) \<Rightarrow> (x, (context_finalize L t r', device (context_drop E c)))))"
  by (simp add: with_device_def split: prod.split sum.split)

lemma nv_handles:
  "handle_new KNvIndex VTPM_HCL_REPORT_NV_INDEX = Inr VTPM_HCL_REPORT_NV_INDEX"
  "handle_new KNvIndex INDEX_REPORT_DATA = Inr INDEX_REPORT_DATA"
  by (simp_all add: handle_new_def msb_byte_def handle_base_def VTPM_HCL_REPORT_NV_INDEX_def INDEX_REPORT_DATA_def)

lemma report_wrap_simps [simp]: "report_wrap (Inr x) = Inr x" "report_wrap (Inl e) = Inl (map_stop ReportTpm e)"
  by (simp_all add: report_wrap_def)

text \<open>
  C12. The report that is returned is the report on the caller's own data. On a TPM that keeps to
  its specification and serves the report's index, and with a hypervisor that answers in the pause
  with the report of what the data index holds, \<open>get_report_with_report_data\<close> returns exactly the
  report of the given data; it fails only when the device does not open or the data cannot be
  written, with that error.
\<close>

theorem report_is_on_callers_data:
  assumes "nv_laws E V" and "nv_state_ok V d"
    and "serves_index E V NvAuthOwner VTPM_HCL_REPORT_NV_INDEX m" and "hcl_reports V wait F"
  shows "case fst (get_report_with_report_data L E wait lens rd (r, d)) of
      Inr report \<Rightarrow> report = F rd
    | Inl e \<Rightarrow> (\<exists>e'. e = map_stop ReportTpm e' \<and>
        (fst (new_device_direct L (Some TPM_DEVICE) r) = Inl e'
         \<or> fst (write_nv_index E INDEX_REPORT_DATA rd (password_context d)) = Inl e'))"
proof (cases "new_device_direct L (Some TPM_DEVICE) r")
  case (Pair t r')
  let ?c = "password_context d"
  have ctx: "password_session (new_context d) = ?c" by (simp add: password_session_def password_context_def)
  let ?body = "tbind (tlift (handle_new KNvIndex INDEX_REPORT_DATA)) (\<lambda>h.
         tbind (write_nv_index E h rd) (\<lambda>_.
         tbind (\<lambda>c. (Inr (), c \<lparr> device := wait (device c) \<rparr>)) (\<lambda>_.
         tbind (tlift (handle_new KNvIndex VTPM_HCL_REPORT_NV_INDEX)) (\<lambda>h'.
         read_full E lens NvAuthOwner h')))) ?c"
  have res: "fst (get_report_with_report_data L E wait lens rd (r, d))
      = report_wrap (case t of Inl e \<Rightarrow> Inl e | Inr _ \<Rightarrow> fst ?body)"
    by (simp add: get_report_with_report_data_def with_device_total Pair ctx split: sum.split prod.split)
  obtain w c1 where w: "write_nv_index E INDEX_REPORT_DATA rd ?c = (w, c1)" by fastforce
  show ?thesis
  proof (cases t)
    case (Inl e)
    then show ?thesis using res Pair by auto
  next
    case t: (Inr x)
    show ?thesis
    proof (cases w)
      case (Inl e)
      then have "fst ?body = Inl e" using w by (simp add: tbind_def tlift_def nv_handles)
      then show ?thesis using res t w Inl by auto
    next
      case (Inr u)
      have "nv_state_ok V (device ?c)" using assms(2) by (simp add: password_context_ready)
      from write_nv_index_result [OF assms(1) this nv_handles(2), of rd] w Inr
      obtain e where "view_index V (device c1) INDEX_REPORT_DATA = Some e" "entry_data e = Some rd"
          "nv_state_ok V (device c1)" by auto
      then obtain e' where e': "nv_state_ok V (wait (device c1))"
          "view_index V (wait (device c1)) VTPM_HCL_REPORT_NV_INDEX = Some e'" "entry_data e' = Some (F rd)"
          "view_readable V (wait (device c1)) (nv_auth_esys NvAuthOwner) VTPM_HCL_REPORT_NV_INDEX"
        using assms(4) unfolding hcl_reports_def by blast
      let ?c2 = "c1 \<lparr> device := wait (device c1) \<rparr>"
      have fit: "by_password ?c2" "cached_tpm_properties ?c2 = []" "closes_only ?c2"
        using steadyD [OF steady_write w] password_context_ready [of d]
        by (simp_all add: by_password_def optional_sessions_def closes_only_def)
      have "fst (read_full E lens NvAuthOwner VTPM_HCL_REPORT_NV_INDEX ?c2) = Inr (F rd)"
        using read_full_result [OF assms(1) _ assms(3) _ e'(3) fit] e'
        by simp
      moreover have "?body = read_full E lens NvAuthOwner VTPM_HCL_REPORT_NV_INDEX ?c2"
        using w Inr by (simp add: tbind_def tlift_def nv_handles)
      ultimately show ?thesis using res t by simp
    qed
  qed
qed

text \<open>An instance: the report of some data is the data reversed.\<close>

definition sim_wait :: "sim_tpm \<Rightarrow> sim_tpm" where
  "sim_wait d =
     (case Option.bind (map_of (sim_indices d) INDEX_REPORT_DATA) entry_data of
        None \<Rightarrow> d
      | Some rd \<Rightarrow> d \<lparr> sim_indices := AList.update VTPM_HCL_REPORT_NV_INDEX
          \<lparr> entry_public = sample_public \<lparr> nv_data_size := length rd \<rparr>, entry_data = Some (rev rd) \<rparr> (sim_indices d) \<rparr>)"

lemma sim_hcl_reports: "hcl_reports sim_view sim_wait rev"
  unfolding hcl_reports_def
proof (intro allI impI)
  fix d e rd
  assume ok: "nv_state_ok sim_view d" and ix: "view_index sim_view d INDEX_REPORT_DATA = Some e"
    and rd: "entry_data e = Some rd"
  let ?e = "\<lparr> entry_public = sample_public \<lparr> nv_data_size := length rd \<rparr>, entry_data = Some (rev rd) \<rparr>"
  have w: "view_index sim_view (sim_wait d) = (view_index sim_view d)(VTPM_HCL_REPORT_NV_INDEX \<mapsto> ?e)"
    using ix rd by (simp add: sim_wait_def sim_view_def update_conv')
  have "length rd = nv_data_size (entry_public e)" "nv_data_size (entry_public e) < 65536"
    using ok ix rd unfolding nv_state_ok_def indices_ok_def nv_public_wf_def by blast+
  then have "nv_public_wf (entry_public ?e)"
    using sample_public_wf by (simp add: nv_public_wf_def)
  then have "nv_state_ok sim_view (sim_wait d)"
    using ok w by (simp add: nv_state_ok_def indices_ok_def sample_public_def VTPM_HCL_REPORT_NV_INDEX_def)
  then show "nv_state_ok sim_view (sim_wait d) \<and>
       (\<exists>e'. view_index sim_view (sim_wait d) VTPM_HCL_REPORT_NV_INDEX = Some e' \<and> entry_data e' = Some (rev rd))
       \<and> view_readable sim_view (sim_wait d) (nv_auth_esys NvAuthOwner) VTPM_HCL_REPORT_NV_INDEX"
    using w by (simp add: sim_view_def sim_readable_def sample_public_def nv_attr_def)
qed

theorem report_is_on_callers_data_witness:
  "case fst (get_report_with_report_data sample_tcti sim_esys sim_wait (\<lambda>i. 31) [7, 8, 9]
       (\<lparr> live_buffers = [], open_interfaces = [], loader_interfaces = [], esys_contexts = 0 \<rparr>, sample_tpm)) of
      Inr report \<Rightarrow> report = [9, 8, 7]
    | Inl e \<Rightarrow> (\<exists>e'. fst (write_nv_index sim_esys INDEX_REPORT_DATA [7, 8, 9] (password_context sample_tpm)) = Inl e')"
proof -
  let ?r = "\<lparr> live_buffers = [], open_interfaces = [], loader_interfaces = [], esys_contexts = 0 \<rparr>"
  have "fst (new_device_direct sample_tcti (Some TPM_DEVICE) ?r) \<noteq> Inl e'" for e'
    by (simp add: new_device_direct_def initialize_device_direct_def new_with_tcti_def sample_tcti_def
        TPM_DEVICE_def c_string_def rc_success_iff Let_def)
  then show ?thesis
    using report_is_on_callers_data [OF sim_laws sample_tpm_ok sim_serves sim_hcl_reports,
        where L = sample_tcti and lens = "\<lambda>i. 31" and rd = "[7, 8, 9]" and r = ?r]
    by (auto split: sum.splits)
qed

end
