(* ===== verification/Vtpm_Hcl.thy ===== *)
theory Vtpm_Hcl
  imports Vtpm_Base Externals
begin

text \<open>
  The report an Azure paravisor leaves in the virtual TPM: the TDX report structures
  (\<open>az-cvm-vtpm/src/tdx/mod.rs\<close>) and the HCL report around the hardware report
  (\<open>az-cvm-vtpm/src/hcl/mod.rs\<close>), with its variable data and the attestation key inside it.
\<close>

section \<open>The TDX report\<close>

record td_report_type =
  td_type :: u8
  td_subtype :: u8
  td_version :: u8
  td_type_reserved :: u8

record report_mac =
  reporttype :: td_report_type
  mac_reserved_1 :: bytes
  cpusvn :: bytes
  tee_tcb_info_hash :: bytes
  tee_info_hash :: bytes
  reportdata :: bytes
  mac_reserved_2 :: bytes
  mac :: bytes

record td_info =
  attributes :: bytes
  xfam :: bytes
  mrtd :: bytes
  mrconfigid :: bytes
  mrowner :: bytes
  mrownerconfig :: bytes
  rtmr :: "bytes list"
  info_reserved :: bytes

record td_report =
  td_mac :: report_mac
  tee_tcb_info :: bytes
  td_reserved :: bytes
  tdinfo :: td_info

definition td_report_type_bytes :: "td_report_type \<Rightarrow> bytes" where
  "td_report_type_bytes x = [td_type x, td_subtype x, td_version x, td_type_reserved x]"

definition td_report_type_of :: "bytes \<Rightarrow> td_report_type" where
  "td_report_type_of b = \<lparr> td_type = b ! 0, td_subtype = b ! 1, td_version = b ! 2,
                           td_type_reserved = b ! 3 \<rparr>"

definition report_mac_sizes :: "nat list" where
  "report_mac_sizes = [4, 12, 16, 48, 48, 64, 32, 32]"

definition report_mac_bytes :: "report_mac \<Rightarrow> bytes" where
  "report_mac_bytes x = concat
     [td_report_type_bytes (reporttype x), mac_reserved_1 x, cpusvn x, tee_tcb_info_hash x,
      tee_info_hash x, reportdata x, mac_reserved_2 x, mac x]"

definition report_mac_of :: "bytes \<Rightarrow> report_mac" where
  "report_mac_of b = (let f = cut report_mac_sizes b in
     \<lparr> reporttype = td_report_type_of (f ! 0), mac_reserved_1 = f ! 1, cpusvn = f ! 2,
       tee_tcb_info_hash = f ! 3, tee_info_hash = f ! 4, reportdata = f ! 5,
       mac_reserved_2 = f ! 6, mac = f ! 7 \<rparr>)"

definition report_mac_ok :: "report_mac \<Rightarrow> bool" where
  "report_mac_ok x \<longleftrightarrow> map length
     [mac_reserved_1 x, cpusvn x, tee_tcb_info_hash x, tee_info_hash x, reportdata x,
      mac_reserved_2 x, mac x] = tl report_mac_sizes"

definition td_info_sizes :: "nat list" where
  "td_info_sizes = [8, 8, 48, 48, 48, 48, 48, 48, 48, 48, 112]"

definition td_info_bytes :: "td_info \<Rightarrow> bytes" where
  "td_info_bytes x = concat
     ([attributes x, xfam x, mrtd x, mrconfigid x, mrowner x, mrownerconfig x]
      @ rtmr x @ [info_reserved x])"

definition td_info_of :: "bytes \<Rightarrow> td_info" where
  "td_info_of b = (let f = cut td_info_sizes b in
     \<lparr> attributes = f ! 0, xfam = f ! 1, mrtd = f ! 2, mrconfigid = f ! 3, mrowner = f ! 4,
       mrownerconfig = f ! 5, rtmr = [f ! 6, f ! 7, f ! 8, f ! 9], info_reserved = f ! 10 \<rparr>)"

definition td_info_ok :: "td_info \<Rightarrow> bool" where
  "td_info_ok x \<longleftrightarrow> length (rtmr x) = 4 \<and> map length
     ([attributes x, xfam x, mrtd x, mrconfigid x, mrowner x, mrownerconfig x]
      @ rtmr x @ [info_reserved x]) = td_info_sizes"

definition td_report_sizes :: "nat list" where
  "td_report_sizes = [sum_list report_mac_sizes, 239, 17, sum_list td_info_sizes]"

definition td_report_bytes :: "td_report \<Rightarrow> bytes" where
  "td_report_bytes x = concat
     [report_mac_bytes (td_mac x), tee_tcb_info x, td_reserved x, td_info_bytes (tdinfo x)]"

definition td_report_of :: "bytes \<Rightarrow> td_report" where
  "td_report_of b = (let f = cut td_report_sizes b in
     \<lparr> td_mac = report_mac_of (f ! 0), tee_tcb_info = f ! 1, td_reserved = f ! 2,
       tdinfo = td_info_of (f ! 3) \<rparr>)"

definition td_report_ok :: "td_report \<Rightarrow> bool" where
  "td_report_ok x \<longleftrightarrow> report_mac_ok (td_mac x) \<and> td_info_ok (tdinfo x)
     \<and> length (tee_tcb_info x) = 239 \<and> length (td_reserved x) = 17"

definition td_report_size :: nat where
  "td_report_size = sum_list td_report_sizes"

lemma td_report_size_eq: "td_report_size = 1024"
  by (simp add: td_report_size_def td_report_sizes_def report_mac_sizes_def td_info_sizes_def)

lemma length_4_split: "length b = 4 \<Longrightarrow> [b ! 0, b ! 1, b ! 2, b ! 3] = b"
  by (auto simp: numeral_eq_Suc length_Suc_conv)

interpretation td_type: sized_codec td_report_type_bytes td_report_type_of "\<lambda>_. True" 4
  using length_4_split
  by unfold_locales (simp_all add: td_report_type_bytes_def td_report_type_of_def)

interpretation report_mac: sized_codec report_mac_bytes report_mac_of report_mac_ok 256
proof unfold_locales
  fix x :: report_mac assume "report_mac_ok x"
  then have len: "map length [td_report_type_bytes (reporttype x), mac_reserved_1 x, cpusvn x,
      tee_tcb_info_hash x, tee_info_hash x, reportdata x, mac_reserved_2 x, mac x] = report_mac_sizes"
    by (simp add: report_mac_ok_def report_mac_sizes_def td_report_type_bytes_def)
  then show "report_mac_of (report_mac_bytes x) = x"
    unfolding report_mac_bytes_def report_mac_of_def
    by (simp only: cut_concat) (simp add: td_type.dec_enc)
  show "length (report_mac_bytes x) = 256"
    using len by (simp add: report_mac_bytes_def report_mac_sizes_def)
next
  fix b :: bytes assume b: "length b = 256"
  then show "report_mac_bytes (report_mac_of b) = b"
    using concat_cut [of b report_mac_sizes]
    by (simp add: report_mac_bytes_def report_mac_of_def report_mac_sizes_def td_type.enc_dec)
  show "report_mac_ok (report_mac_of b)"
    using b by (simp add: report_mac_ok_def report_mac_of_def report_mac_sizes_def)
qed

interpretation td_info: sized_codec td_info_bytes td_info_of td_info_ok 512
proof unfold_locales
  fix x :: td_info assume ok: "td_info_ok x"
  then obtain r0 r1 r2 r3 where r: "rtmr x = [r0, r1, r2, r3]"
    by (auto simp: td_info_ok_def numeral_eq_Suc length_Suc_conv)
  have "map length ([attributes x, xfam x, mrtd x, mrconfigid x, mrowner x, mrownerconfig x]
      @ rtmr x @ [info_reserved x]) = td_info_sizes"
    using ok by (simp only: td_info_ok_def)
  note len = this [unfolded r, simplified append.simps]
  show "td_info_of (td_info_bytes x) = x"
    unfolding td_info_bytes_def td_info_of_def r append.simps
    by (simp only: cut_concat [OF len]) (simp flip: r)
  show "length (td_info_bytes x) = 512"
    using len by (simp add: td_info_bytes_def r td_info_sizes_def)
next
  fix b :: bytes assume b: "length b = 512"
  then show "td_info_bytes (td_info_of b) = b"
    using concat_cut [of b td_info_sizes]
    by (simp add: td_info_bytes_def td_info_of_def td_info_sizes_def)
  show "td_info_ok (td_info_of b)"
    using b by (simp add: td_info_ok_def td_info_of_def td_info_sizes_def)
qed

lemma td_report_sizes_eq: "td_report_sizes = [256, 239, 17, 512]"
  by (simp add: td_report_sizes_def report_mac_sizes_def td_info_sizes_def)

interpretation td_report: sized_codec td_report_bytes td_report_of td_report_ok td_report_size
proof unfold_locales
  fix x :: td_report assume ok: "td_report_ok x"
  then have len: "map length [report_mac_bytes (td_mac x), tee_tcb_info x, td_reserved x,
      td_info_bytes (tdinfo x)] = td_report_sizes"
    by (simp add: td_report_ok_def td_report_sizes_eq report_mac.enc_length td_info.enc_length)
  then show "td_report_of (td_report_bytes x) = x"
    using ok unfolding td_report_bytes_def td_report_of_def
    by (simp only: cut_concat) (simp add: td_report_ok_def report_mac.dec_enc td_info.dec_enc)
  show "length (td_report_bytes x) = td_report_size"
    using len by (simp add: td_report_bytes_def td_report_sizes_eq td_report_size_eq)
next
  fix b :: bytes assume b: "length b = td_report_size"
  then show "td_report_bytes (td_report_of b) = b"
    using concat_cut [of b td_report_sizes]
    by (simp add: td_report_bytes_def td_report_of_def td_report_sizes_eq td_report_size_eq
        report_mac.enc_dec td_info.enc_dec)
  show "td_report_ok (td_report_of b)"
    using b by (simp add: td_report_ok_def td_report_of_def td_report_sizes_eq td_report_size_eq
        report_mac.dec_ok td_info.dec_ok)
qed

section \<open>The attestation report around the hardware report\<close>

definition SNP_REPORT_SIZE :: nat where "SNP_REPORT_SIZE = 1184"

definition MAX_REPORT_SIZE :: nat where
  "MAX_REPORT_SIZE = (if SNP_REPORT_SIZE > td_report_size then SNP_REPORT_SIZE else td_report_size)"

definition SNP_REPORT_TYPE :: u32 where "SNP_REPORT_TYPE = 2"
definition TDX_REPORT_TYPE :: u32 where "TDX_REPORT_TYPE = 4"
definition HCL_AKPUB_KEY_ID :: string where "HCL_AKPUB_KEY_ID = ''HCLAkPub''"

datatype hcl_error = InvalidReportSize | InvalidReportType | AkPubNotFound | JsonParseError string

datatype igvm_hash_type = HashInvalid | HashSha256 | HashSha384 | HashSha512

fun igvm_hash_type_u32 :: "igvm_hash_type \<Rightarrow> u32" where
  "igvm_hash_type_u32 HashInvalid = 0"
| "igvm_hash_type_u32 HashSha256 = 1"
| "igvm_hash_type_u32 HashSha384 = 2"
| "igvm_hash_type_u32 HashSha512 = 3"

record attestation_header =
  signature :: u32
  header_version :: u32
  report_size :: u32
  request_type :: u32
  status :: u32
  header_reserved :: "u32 list"

record igvm_request_data =
  data_size :: u32
  data_version :: u32
  data_report_type :: u32
  report_data_hash_type :: u32
  variable_data_size :: u32

record attestation_report =
  header :: attestation_header
  hw_report :: bytes
  hcl_data :: igvm_request_data

definition attestation_header_bytes :: "attestation_header \<Rightarrow> bytes" where
  "attestation_header_bytes x = concat (map u32_le
     ([signature x, header_version x, report_size x, request_type x, status x] @ header_reserved x))"

definition attestation_header_of :: "bytes \<Rightarrow> attestation_header" where
  "attestation_header_of b = (let f = map le_u32 (cut (replicate 8 4) b) in
     \<lparr> signature = f ! 0, header_version = f ! 1, report_size = f ! 2, request_type = f ! 3,
       status = f ! 4, header_reserved = [f ! 5, f ! 6, f ! 7] \<rparr>)"

text \<open>The \<open>variable_data\<close> array of the request data has length 0.\<close>

definition igvm_request_data_bytes :: "igvm_request_data \<Rightarrow> bytes" where
  "igvm_request_data_bytes x = concat (map u32_le
     [data_size x, data_version x, data_report_type x, report_data_hash_type x, variable_data_size x])"

definition igvm_request_data_of :: "bytes \<Rightarrow> igvm_request_data" where
  "igvm_request_data_of b = (let f = map le_u32 (cut (replicate 5 4) b) in
     \<lparr> data_size = f ! 0, data_version = f ! 1, data_report_type = f ! 2,
       report_data_hash_type = f ! 3, variable_data_size = f ! 4 \<rparr>)"

definition attestation_report_sizes :: "nat list" where
  "attestation_report_sizes = [32, MAX_REPORT_SIZE, 20]"

definition attestation_report_bytes :: "attestation_report \<Rightarrow> bytes" where
  "attestation_report_bytes x = concat
     [attestation_header_bytes (header x), hw_report x, igvm_request_data_bytes (hcl_data x)]"

definition attestation_report_of :: "bytes \<Rightarrow> attestation_report" where
  "attestation_report_of b = (let f = cut attestation_report_sizes b in
     \<lparr> header = attestation_header_of (f ! 0), hw_report = f ! 1,
       hcl_data = igvm_request_data_of (f ! 2) \<rparr>)"

definition attestation_report_ok :: "attestation_report \<Rightarrow> bool" where
  "attestation_report_ok x \<longleftrightarrow>
     length (header_reserved (header x)) = 3 \<and> length (hw_report x) = MAX_REPORT_SIZE"

definition attestation_report_size :: nat where
  "attestation_report_size = sum_list attestation_report_sizes"

text \<open>\<open>offset_of!\<close> of the hardware report, and the end of the fixed structure.\<close>

definition HW_REPORT_OFFSET :: nat where
  "HW_REPORT_OFFSET = sum_list (take 1 attestation_report_sizes)"

definition var_data_offset :: nat where
  "var_data_offset = sum_list (take 2 attestation_report_sizes) + 20"

lemma MAX_REPORT_SIZE_eq: "MAX_REPORT_SIZE = 1184"
  by (simp add: MAX_REPORT_SIZE_def SNP_REPORT_SIZE_def td_report_size_eq)

lemma attestation_sizes_eq:
  "attestation_report_sizes = [32, 1184, 20]" "attestation_report_size = 1236"
  "HW_REPORT_OFFSET = 32" "var_data_offset = 1236"
  by (simp_all add: attestation_report_size_def attestation_report_sizes_def MAX_REPORT_SIZE_eq
      HW_REPORT_OFFSET_def var_data_offset_def)

interpretation header: sized_codec attestation_header_bytes attestation_header_of
    "\<lambda>x. length (header_reserved x) = 3" 32
proof unfold_locales
  fix x :: attestation_header assume "length (header_reserved x) = 3"
  then obtain r0 r1 r2 where r: "header_reserved x = [r0, r1, r2]"
    by (auto simp: numeral_eq_Suc length_Suc_conv)
  have len: "map length (map u32_le ([signature x, header_version x, report_size x,
      request_type x, status x] @ header_reserved x)) = replicate 8 4"
    by (simp add: r le32.enc_length eval_nat_numeral)
  show "attestation_header_of (attestation_header_bytes x) = x"
    unfolding attestation_header_bytes_def attestation_header_of_def cut_concat [OF len]
    by (simp add: r le32.dec_enc)
  show "length (attestation_header_bytes x) = 32"
    by (simp add: attestation_header_bytes_def r le32.enc_length)
next
  fix b :: bytes assume b: "length b = 32"
  then show "attestation_header_bytes (attestation_header_of b) = b"
    using concat_cut [of b "replicate 8 4"]
    by (simp add: attestation_header_bytes_def attestation_header_of_def le32.enc_dec eval_nat_numeral)
  show "length (header_reserved (attestation_header_of b)) = 3"
    by (simp add: attestation_header_of_def Let_def)
qed

interpretation request: sized_codec igvm_request_data_bytes igvm_request_data_of "\<lambda>_. True" 20
proof unfold_locales
  fix x :: igvm_request_data
  show "igvm_request_data_of (igvm_request_data_bytes x) = x"
    unfolding igvm_request_data_bytes_def igvm_request_data_of_def
    by (subst cut_concat) (simp_all add: le32.enc_length le32.dec_enc numeral_eq_Suc o_def)
  show "length (igvm_request_data_bytes x) = 20"
    by (simp add: igvm_request_data_bytes_def le32.enc_length)
next
  fix b :: bytes assume b: "length b = 20"
  then show "igvm_request_data_bytes (igvm_request_data_of b) = b"
    using concat_cut [of b "replicate 5 4"]
    by (simp add: igvm_request_data_bytes_def igvm_request_data_of_def le32.enc_dec eval_nat_numeral)
qed simp

interpretation att: sized_codec attestation_report_bytes attestation_report_of
    attestation_report_ok attestation_report_size
proof unfold_locales
  fix x :: attestation_report assume ok: "attestation_report_ok x"
  then have len: "map length [attestation_header_bytes (header x), hw_report x,
      igvm_request_data_bytes (hcl_data x)] = attestation_report_sizes"
    by (simp add: attestation_report_ok_def attestation_sizes_eq MAX_REPORT_SIZE_eq
        header.enc_length request.enc_length)
  then show "attestation_report_of (attestation_report_bytes x) = x"
    using ok unfolding attestation_report_bytes_def attestation_report_of_def
    by (simp only: cut_concat) (simp add: attestation_report_ok_def header.dec_enc request.dec_enc)
  show "length (attestation_report_bytes x) = attestation_report_size"
    using len by (simp add: attestation_report_bytes_def attestation_sizes_eq)
next
  fix b :: bytes assume b: "length b = attestation_report_size"
  then show "attestation_report_bytes (attestation_report_of b) = b"
    using concat_cut [of b attestation_report_sizes]
    by (simp add: attestation_report_bytes_def attestation_report_of_def attestation_sizes_eq
        header.enc_dec request.enc_dec)
  show "attestation_report_ok (attestation_report_of b)"
    using b by (simp add: attestation_report_ok_def attestation_report_of_def attestation_sizes_eq
        MAX_REPORT_SIZE_eq header.dec_ok)
qed

section \<open>The HCL report\<close>

datatype hcl_report_type = Tdx | Snp

record hcl_report =
  hcl_bytes :: bytes
  hcl_attestation :: attestation_report
  hcl_type :: hcl_report_type

definition hcl_new :: "bytes \<Rightarrow> hcl_error stop + hcl_report" where
  "hcl_new b =
     (if length b < attestation_report_size then Inl (Err InvalidReportSize)
      else bnd (index_range b 0 attestation_report_size) (\<lambda>struct_bytes.
        bnd (ok_or InvalidReportSize
              (read_exact attestation_report_size attestation_report_of struct_bytes)) (\<lambda>a.
        let n = unat (variable_data_size (hcl_data a)) in
        if 0 < n \<and> length b < attestation_report_size + n then Inl (Err InvalidReportSize)
        else bnd (if data_report_type (hcl_data a) = TDX_REPORT_TYPE then Inr Tdx
                  else if data_report_type (hcl_data a) = SNP_REPORT_TYPE then Inr Snp
                  else Inl (Err InvalidReportType)) (\<lambda>t.
          Inr \<lparr> hcl_bytes = b, hcl_attestation = a, hcl_type = t \<rparr>))))"

definition report_range :: "nat \<Rightarrow> nat \<times> nat" where
  "report_range n = (HW_REPORT_OFFSET, HW_REPORT_OFFSET + n)"

definition report_slice :: "hcl_report \<Rightarrow> hcl_error stop + bytes" where
  "report_slice r =
     (let (lo, hi) = (case hcl_type r of Tdx \<Rightarrow> report_range td_report_size
                                      | Snp \<Rightarrow> report_range SNP_REPORT_SIZE)
      in index_range (hcl_bytes r) lo hi)"

definition var_data :: "hcl_report \<Rightarrow> hcl_error stop + bytes" where
  "var_data r = index_range (hcl_bytes r) var_data_offset
     (var_data_offset + unat (variable_data_size (hcl_data (hcl_attestation r))))"

definition var_data_sha256 :: "lib \<Rightarrow> hcl_report \<Rightarrow> hcl_error stop + bytes" where
  "var_data_sha256 L r =
     (if report_data_hash_type (hcl_data (hcl_attestation r)) \<noteq> igvm_hash_type_u32 HashSha256
      then Inl (Aborted ''Only SHA256 is supported'')
      else map_ok (sha256 L) (var_data r))"

text \<open>
  The key set in the variable data: \<open>of_j\<close> is \<open>Deserialize\<close> of \<open>jsonwebkey::JsonWebKey\<close>, \<open>kid\<close>
  its \<open>key_id\<close> field.
\<close>

definition var_data_keys_of_j :: "(json \<Rightarrow> 'k option) \<Rightarrow> json \<Rightarrow> 'k list option" where
  "var_data_keys_of_j of_j v =
     Option.bind (as_members [''keys''] v) (req_field (vec_of_j of_j) ''keys'')"

definition ak_pub ::
  "lib \<Rightarrow> (json \<Rightarrow> 'k option) \<Rightarrow> ('k \<Rightarrow> string option) \<Rightarrow> hcl_report \<Rightarrow> hcl_error stop + 'k" where
  "ak_pub L of_j kid r =
     bnd (var_data r) (\<lambda>d.
     bnd (ok_or (JsonParseError (serde_msg L d))
            (Option.bind (json_parse L d) (var_data_keys_of_j of_j))) (\<lambda>ks.
     ok_or AkPubNotFound (List.find (\<lambda>k. kid k = Some HCL_AKPUB_KEY_ID) ks)))"

definition td_report_of_hcl :: "hcl_report \<Rightarrow> hcl_error stop + td_report" where
  "td_report_of_hcl r =
     (if hcl_type r \<noteq> Tdx then Inl (Err InvalidReportType)
      else bnd (report_slice r) (\<lambda>b.
        ok_or InvalidReportSize (read_exact td_report_size td_report_of b)))"

text \<open>\<open>from_bytes\<close> is the parser of the \<open>sev\<close> library for SNP reports.\<close>

definition snp_report_of_hcl ::
  "(bytes \<Rightarrow> 's option) \<Rightarrow> hcl_report \<Rightarrow> hcl_error stop + 's" where
  "snp_report_of_hcl from_bytes r =
     (if hcl_type r \<noteq> Snp then Inl (Err InvalidReportType)
      else bnd (report_slice r) (\<lambda>b. ok_or InvalidReportType (from_bytes b)))"

section \<open>What an accepted report guarantees\<close>

definition var_size :: "bytes \<Rightarrow> nat" where
  "var_size b = le_nat (take 4 (drop 1232 b))"

definition type_field :: "bytes \<Rightarrow> nat" where
  "type_field b = le_nat (take 4 (drop 1224 b))"

definition hash_field :: "bytes \<Rightarrow> nat" where
  "hash_field b = le_nat (take 4 (drop 1228 b))"

lemma five_fields: "replicate 5 (4::nat) = [4, 4, 4, 4, 4]"
  by (simp add: eval_nat_numeral)

lemma request_fields:
  assumes "1236 \<le> length b"
  shows "unat (variable_data_size (hcl_data (attestation_report_of (take 1236 b)))) = var_size b"
    and "unat (data_report_type (hcl_data (attestation_report_of (take 1236 b)))) = type_field b"
    and "unat (report_data_hash_type (hcl_data (attestation_report_of (take 1236 b)))) = hash_field b"
  using assms by (simp_all add: attestation_report_of_def attestation_sizes_eq
      igvm_request_data_of_def five_fields le_u32_nat var_size_def type_field_def
      hash_field_def drop_take)

lemma type_codes: "w = TDX_REPORT_TYPE \<longleftrightarrow> unat w = 4" "w = SNP_REPORT_TYPE \<longleftrightarrow> unat w = 2"
  by (simp_all add: TDX_REPORT_TYPE_def SNP_REPORT_TYPE_def word_unat_eq_iff)

text \<open>The constructor, on every input: which error it gives, and the report it builds.\<close>

lemma hcl_new_eq:
  "hcl_new b =
     (if length b < 1236 \<or> length b < 1236 + var_size b then Inl (Err InvalidReportSize)
      else if type_field b \<noteq> 4 \<and> type_field b \<noteq> 2 then Inl (Err InvalidReportType)
      else Inr \<lparr> hcl_bytes = b, hcl_attestation = attestation_report_of (take 1236 b),
                 hcl_type = (if type_field b = 4 then Tdx else Snp) \<rparr>)"
proof (cases "length b < 1236")
  case False
  then have "1236 \<le> length b" by simp
  note f = request_fields [OF this]
  show ?thesis
    unfolding hcl_new_def attestation_sizes_eq
    using False by (simp add: read_exact_def Let_def f type_codes)
qed (simp add: hcl_new_def attestation_sizes_eq)

lemma hcl_new_not_aborts: "\<not> aborts (hcl_new b)"
  by (simp add: hcl_new_eq)

lemma hcl_new_InrD:
  assumes "hcl_new b = Inr r"
  shows "1236 + var_size b \<le> length b" and "hcl_bytes r = b"
    and "hcl_attestation r = attestation_report_of (take 1236 b)"
    and "hcl_type r = (if type_field b = 4 then Tdx else Snp)" and "type_field b \<in> {2, 4}"
  using assms by (auto simp: hcl_new_eq split: if_splits)

lemma var_data_eq:
  assumes "hcl_new b = Inr r"
  shows "var_data r = Inr (take (var_size b) (drop 1236 b))"
  using hcl_new_InrD [OF assms] request_fields [of b]
  by (simp add: var_data_def attestation_sizes_eq)

lemma report_slice_eq:
  assumes "hcl_new b = Inr r"
  shows "report_slice r = Inr (take (case hcl_type r of Tdx \<Rightarrow> 1024 | Snp \<Rightarrow> 1184) (drop 32 b))"
  using hcl_new_InrD [OF assms]
  by (simp add: report_slice_def report_range_def attestation_sizes_eq td_report_size_eq
      SNP_REPORT_SIZE_def split: hcl_report_type.split)

lemma td_report_of_hcl_iff:
  assumes "hcl_new b = Inr r"
  shows "td_report_of_hcl r = Inr t \<longleftrightarrow>
     hcl_type r = Tdx \<and> td_report_ok t \<and> td_report_bytes t = take 1024 (drop 32 b)"
  by (auto simp: td_report_of_hcl_def report_slice_eq [OF assms] td_report.read_exact_iff)

lemma ak_pub_iff:
  assumes "hcl_new b = Inr r"
  shows "ak_pub L of_j kid r = Inr k \<longleftrightarrow>
     (\<exists>v ks. json_parse L (take (var_size b) (drop 1236 b)) = Some v
        \<and> var_data_keys_of_j of_j v = Some ks
        \<and> List.find (\<lambda>k. kid k = Some HCL_AKPUB_KEY_ID) ks = Some k)"
  by (auto simp: ak_pub_def var_data_eq [OF assms] bind_eq_Some_conv)

lemma aborts_var_data_sha256:
  assumes "hcl_new b = Inr r"
  shows "aborts (var_data_sha256 L r) \<longleftrightarrow> hash_field b \<noteq> 1"
proof -
  have "1236 \<le> length b" using hcl_new_InrD(1) [OF assms] by simp
  from request_fields(3) [OF this] show ?thesis
    by (simp add: var_data_sha256_def var_data_eq [OF assms] word_unat_eq_iff
        hcl_new_InrD(3) [OF assms])
qed

text \<open>What the accessors give, by the fields of the image.\<close>

lemma var_data_sha256_eq:
  assumes "hcl_new b = Inr r"
  shows "var_data_sha256 L r = (if hash_field b = 1 then Inr (sha256 L (take (var_size b) (drop 1236 b)))
     else Inl (Aborted ''Only SHA256 is supported''))"
proof -
  have "1236 \<le> length b" using hcl_new_InrD(1) [OF assms] by simp
  from request_fields(3) [OF this] show ?thesis
    by (simp add: var_data_sha256_def var_data_eq [OF assms] word_unat_eq_iff hcl_new_InrD(3) [OF assms])
qed

lemma snp_report_of_hcl_eq:
  assumes "hcl_new b = Inr r"
  shows "snp_report_of_hcl fb r = (if hcl_type r = Snp then ok_or InvalidReportType (fb (take 1184 (drop 32 b)))
     else Inl (Err InvalidReportType))"
  by (cases "hcl_type r") (simp_all add: snp_report_of_hcl_def report_slice_eq [OF assms])

text \<open>
  C14. \<open>HclReport::new\<close> and what it gives, on every buffer. A buffer is refused for its size exactly when
  it is shorter than the fixed structure with the variable data it declares, and otherwise for its type
  exactly when the type field is neither 4 (TDX) nor 2 (SNP). An accepted one has the type of that field,
  and hands out bytes of its image only: the variable data is the stretch of the declared size behind
  the structure, whole; the hardware report is the 1024 (TDX) or 1184 (SNP) bytes at offset 32; the TDX
  report it converts to is the one whose layout is exactly those bytes, the SNP report what the \<open>sev\<close>
  library reads from them, and each exists for reports of its type only; the hash of the variable data
  is its SHA-256 if the report declares SHA-256, and a panic otherwise.
\<close>

theorem hcl_report_reads_image:
  "case hcl_new b of
     Inl e \<Rightarrow>
       (e = Err InvalidReportSize \<and> length b < 1236 + (if length b < 1236 then 0 else var_size b))
       \<or> (e = Err InvalidReportType \<and> 1236 + var_size b \<le> length b \<and> type_field b \<notin> {2, 4})
   | Inr r \<Rightarrow>
       1236 + var_size b \<le> length b \<and> type_field b \<in> {2, 4} \<and> hcl_type r = (if type_field b = 4 then Tdx else Snp)
       \<and> var_data r = Inr (take (var_size b) (drop 1236 b))
       \<and> length (take (var_size b) (drop 1236 b)) = var_size b
       \<and> report_slice r = Inr (take (case hcl_type r of Tdx \<Rightarrow> 1024 | Snp \<Rightarrow> 1184) (drop 32 b))
       \<and> (td_report_of_hcl r = Inr t \<longleftrightarrow>
            hcl_type r = Tdx \<and> td_report_ok t \<and> td_report_bytes t = take 1024 (drop 32 b))
       \<and> snp_report_of_hcl fb r = (if hcl_type r = Snp then ok_or InvalidReportType (fb (take 1184 (drop 32 b)))
            else Inl (Err InvalidReportType))
       \<and> var_data_sha256 L r = (if hash_field b = 1 then Inr (sha256 L (take (var_size b) (drop 1236 b)))
            else Inl (Aborted ''Only SHA256 is supported''))
       \<and> \<not> aborts (ak_pub L of_j kid r)"
proof (cases "hcl_new b")
  case (Inl e)
  then show ?thesis by (auto simp: hcl_new_eq split: if_splits)
next
  case (Inr r)
  note new = hcl_new_InrD [OF Inr]
  have "length (take (var_size b) (drop 1236 b)) = var_size b" using new(1) by simp
  moreover have "\<not> aborts (ak_pub L of_j kid r)"
    by (simp add: ak_pub_def var_data_eq [OF Inr] aborts_bnd)
  ultimately show ?thesis
    using Inr new(1,4,5) var_data_eq [OF Inr] report_slice_eq [OF Inr] td_report_of_hcl_iff [OF Inr]
      snp_report_of_hcl_eq [OF Inr, of fb] var_data_sha256_eq [OF Inr]
    by simp
qed

definition sample_hcl :: bytes where
  "sample_hcl = replicate 1216 0 @
     [2, 0, 0, 0, 1, 0, 0, 0, 2, 0, 0, 0, 1, 0, 0, 0, 2, 0, 0, 0, 7, 9]"

lemma sample_hcl_accepted:
  "hcl_new sample_hcl = Inr \<lparr> hcl_bytes = sample_hcl,
     hcl_attestation = attestation_report_of (take 1236 sample_hcl), hcl_type = Snp \<rparr>"
proof -
  have "length sample_hcl = 1238" "var_size sample_hcl = 2" "type_field sample_hcl = 2"
    by (simp_all add: sample_hcl_def var_size_def type_field_def)
  then show ?thesis by (simp add: hcl_new_eq)
qed

text \<open>
  A report put together from its parts is read back: its type, the hardware report of that type and
  the variable data, for every well-formed report structure and variable data of the declared size.
\<close>

theorem hcl_report_roundtrip:
  assumes "attestation_report_ok a" and "length vd = unat (variable_data_size (hcl_data a))"
    and "data_report_type (hcl_data a) = (case ty of Tdx \<Rightarrow> TDX_REPORT_TYPE | Snp \<Rightarrow> SNP_REPORT_TYPE)"
    and "ty = Tdx \<longrightarrow> td_report_ok t \<and> take 1024 (hw_report a) = td_report_bytes t"
  shows "\<exists>r. hcl_new (attestation_report_bytes a @ vd) = Inr r \<and> hcl_type r = ty \<and> var_data r = Inr vd
       \<and> hcl_attestation r = a
       \<and> (case ty of Tdx \<Rightarrow> td_report_of_hcl r = Inr t
          | Snp \<Rightarrow> snp_report_of_hcl fb r = ok_or InvalidReportType (fb (hw_report a)))"
proof -
  let ?b = "attestation_report_bytes a @ vd"
  have len: "length (attestation_report_bytes a) = 1236"
    using att.enc_length [OF assms(1)] by (simp add: attestation_sizes_eq)
  then have pre: "take 1236 ?b = attestation_report_bytes a" by simp
  have f: "var_size ?b = length vd" "type_field ?b = (case ty of Tdx \<Rightarrow> 4 | Snp \<Rightarrow> 2)"
    using request_fields [of ?b, unfolded pre] assms len
    by (simp_all add: att.dec_enc) (cases ty; simp add: TDX_REPORT_TYPE_def SNP_REPORT_TYPE_def)
  then have new: "hcl_new ?b = Inr \<lparr> hcl_bytes = ?b, hcl_attestation = a, hcl_type = ty \<rparr>"
    using len assms(1) by (simp add: hcl_new_eq att.dec_enc split: hcl_report_type.split)
  have hdr: "length (attestation_header_bytes (header a)) = 32"
    using assms(1) by (intro header.enc_length) (simp add: attestation_report_ok_def)
  have hw: "length (hw_report a) = 1184"
    using assms(1) by (simp add: attestation_report_ok_def MAX_REPORT_SIZE_eq)
  have "take 1024 (drop 32 ?b) = take 1024 (hw_report a)" "take 1184 (drop 32 ?b) = hw_report a"
    using hdr hw by (simp_all add: attestation_report_bytes_def)
  then show ?thesis
    using new len f assms(4) var_data_eq [OF new] td_report_of_hcl_iff [OF new, of t]
      snp_report_of_hcl_eq [OF new, of fb]
    by (cases ty) simp_all
qed

text \<open>The sample's structure, with its two bytes of variable data.\<close>

theorem hcl_report_roundtrip_witness:
  "\<exists>r. hcl_new sample_hcl = Inr r \<and> hcl_type r = Snp \<and> var_data r = Inr [7, 9]"
proof -
  let ?a = "attestation_report_of (take 1236 sample_hcl)"
  have b: "length (take 1236 sample_hcl) = attestation_report_size"
    by (simp add: attestation_sizes_eq sample_hcl_def)
  have split: "attestation_report_bytes ?a @ [7, 9] = sample_hcl"
    unfolding att.enc_dec [OF b] by (simp add: sample_hcl_def)
  have f: "unat (variable_data_size (hcl_data ?a)) = 2" "data_report_type (hcl_data ?a) = SNP_REPORT_TYPE"
    using request_fields [of sample_hcl] type_codes(2)
    by (simp_all add: sample_hcl_def var_size_def type_field_def)
  from hcl_report_roundtrip [OF att.dec_ok [OF b], of "[7, 9]" Snp] f show ?thesis by (auto simp: split)
qed

end
