(* ===== verification/Vtpm_Quote.thy ===== *)
theory Vtpm_Quote
  imports Vtpm_Nv Vtpm_Hcl
begin

text \<open>
  Quotes of the virtual TPM: taking one (\<open>get_quote\<close> in \<open>vtpm/mod.rs\<close>), which signs the SHA-256
  bank's first 24 registers and then reads them, and verifying one (\<open>vtpm/verify.rs\<close>). OpenSSL's
  verifier is a parameter, as are SHA-256 and the C library's byte form of attestations.
\<close>

section \<open>Taking a quote\<close>

definition VTPM_QUOTE_PCR_SLOTS :: "pcr_slot list" where
  "VTPM_QUOTE_PCR_SLOTS = [
     Slot0, Slot1, Slot2, Slot3, Slot4, Slot5, Slot6, Slot7, Slot8, Slot9, Slot10, Slot11,
     Slot12, Slot13, Slot14, Slot15, Slot16, Slot17, Slot18, Slot19, Slot20, Slot21, Slot22,
     Slot23]"

datatype quote_error =
    QuoteTpm tss_error | DataTooLarge | NotAQuote | WrongSignature | PcrBankNotFound | PcrRead

record quote =
  quote_signature :: bytes
  quote_message :: bytes
  quote_pcrs :: "bytes list"

definition quote_wrap :: "tss_error stop + 'a \<Rightarrow> quote_error stop + 'a" where
  "quote_wrap = map_err (map_stop QuoteTpm)"

definition quote_nonce :: "attest_mu \<Rightarrow> quote \<Rightarrow> quote_error stop + bytes" where
  "quote_nonce M q = map_ok extra_data (quote_wrap (attest_unmarshall M (quote_message q)))"

text \<open>The part up to the quote itself; \<open>iter\<close> is the iteration order of the builder's map.\<close>

type_synonym bank_order =
  "(hashing_algorithm \<times> pcr_slot list) list \<Rightarrow> (hashing_algorithm \<times> pcr_slot list) list"

definition take_quote :: "'d esys \<Rightarrow> attest_mu \<Rightarrow> bank_order \<Rightarrow> bytes \<Rightarrow>
    ('d, attest \<times> signature \<times> pcr_selection list) tpm" where
  "take_quote E M iter data =
     tbind (tlift (tpm_handle_try_from VTPM_AK_HANDLE)) (\<lambda>th.
     tbind (tr_from_tpm_public E th) (\<lambda>key.
     tbind (tlift (buffer_try_from DATA_MAX data)) (\<lambda>quote_data.
     tbind (tlift (builder_build iter (with_selection selection_builder_new AlgSha256 VTPM_QUOTE_PCR_SLOTS))) (\<lambda>l.
     tbind (\<lambda>c. (Inr (), set_sessions (Some Password, None, None) c)) (\<lambda>_.
     tbind (quote_null E M key quote_data l) (\<lambda>(a, sig). tret (a, sig, l)))))))"

text \<open>The values of the bank, as arrays of 32 bytes.\<close>

definition bank_arrays :: "pcr_data \<Rightarrow> quote_error stop + bytes list" where
  "bank_arrays d = bnd (ok_or PcrBankNotFound (pcr_bank_of d AlgSha256)) (\<lambda>bank.
     mapM (\<lambda>(s, v). map_err (\<lambda>e. Err PcrRead) (digest_array 32 v)) bank)"

definition finish_quote :: "'d esys \<Rightarrow> attest_mu \<Rightarrow> attest \<times> signature \<times> pcr_selection list \<Rightarrow>
    'd tpm_context \<Rightarrow> ((quote_error stop + quote) \<times> 'd tpm_context) option" where
  "finish_quote E M t c = (case t of (a, sig, l) \<Rightarrow>
     (case attested a of
        QuoteAttest _ \<Rightarrow>
          (case sig of
             RsaSsa rs \<Rightarrow>
               (case attest_marshall M a of
                  Inl e \<Rightarrow> Some (quote_wrap (Inl e), c)
                | Inr msg \<Rightarrow>
                    map_option (\<lambda>(r, c1).
                      (bnd (quote_wrap r) (\<lambda>d. map_ok (\<lambda>pcrs.
                         \<lparr> quote_signature = rsa_sig rs, quote_message = msg, quote_pcrs = pcrs \<rparr>)
                         (bank_arrays d)), c1))
                      (read_all (pcr_read E) l (clear_sessions c)))
           | _ \<Rightarrow> Some (Inl (Err WrongSignature), c))
      | _ \<Rightarrow> Some (Inl (Err NotAQuote), c)))"

definition get_quote :: "tcti_lib \<Rightarrow> 'd esys \<Rightarrow> attest_mu \<Rightarrow> bank_order \<Rightarrow> bytes \<Rightarrow> resources \<times> 'd \<Rightarrow>
    ((quote_error stop + quote) \<times> (resources \<times> 'd)) option" where
  "get_quote L E M iter data s =
     (if length data > DATA_MAX then Some (Inl (Err DataTooLarge), s)
      else with_device L E (Some TPM_DEVICE) (\<lambda>e. quote_wrap (Inl e)) (\<lambda>c.
        case take_quote E M iter data c of
          (Inl e, c1) \<Rightarrow> Some (quote_wrap (Inl e), c1)
        | (Inr t, c1) \<Rightarrow> finish_quote E M t c1) s)"

section \<open>Verifying a quote\<close>

text \<open>
  OpenSSL's \<open>Verifier\<close>: made for a key and SHA-256, fed with the message, asked about a signature.
\<close>

record ('k, 'v) openssl =
  ossl_new :: "'k \<Rightarrow> string + 'v"
  ossl_update :: "'v \<Rightarrow> bytes \<Rightarrow> string + 'v"
  ossl_verify :: "'v \<Rightarrow> bytes \<Rightarrow> string + bool"

datatype verify_error =
    VerifyTss tss_error | VerifyOpenSsl string | SignatureMismatch | NonceMismatch
  | VerifyQuote quote_error | PcrMismatch

definition verify_quote_signature :: "('k, 'v) openssl \<Rightarrow> 'k \<Rightarrow> quote \<Rightarrow> verify_error stop + unit" where
  "verify_quote_signature O' key q =
     bnd (map_err (\<lambda>e. Err (VerifyOpenSsl e)) (ossl_new O' key)) (\<lambda>v.
     bnd (map_err (\<lambda>e. Err (VerifyOpenSsl e)) (ossl_update O' v (quote_message q))) (\<lambda>v'.
     bnd (map_err (\<lambda>e. Err (VerifyOpenSsl e)) (ossl_verify O' v' (quote_signature q))) (\<lambda>ok.
     if \<not> ok then Inl (Err SignatureMismatch) else Inr ())))"

definition verify_pcrs :: "lib \<Rightarrow> attest_mu \<Rightarrow> quote \<Rightarrow> verify_error stop + unit" where
  "verify_pcrs L M q =
     bnd (map_err (map_stop VerifyTss) (attest_unmarshall M (quote_message q))) (\<lambda>a.
     (case attested a of
        QuoteAttest i \<Rightarrow>
          if sha256 L (concat (quote_pcrs q)) \<noteq> quoted_digest i then Inl (Err PcrMismatch) else Inr ()
      | _ \<Rightarrow> Inl (Err (VerifyQuote NotAQuote))))"

definition verify_quote :: "('k, 'v) openssl \<Rightarrow> lib \<Rightarrow> attest_mu \<Rightarrow> 'k \<Rightarrow> bytes \<Rightarrow> quote \<Rightarrow> verify_error stop + unit" where
  "verify_quote O' L M key nonce q =
     bnd (verify_quote_signature O' key q) (\<lambda>_.
     bnd (map_err (map_stop VerifyQuote) (quote_nonce M q)) (\<lambda>n.
     if nonce \<noteq> n then Inl (Err NonceMismatch) else verify_pcrs L M q))"

section \<open>What verification checks\<close>

definition signs :: "('k, 'v) openssl \<Rightarrow> 'k \<Rightarrow> bytes \<Rightarrow> bytes \<Rightarrow> bool" where
  "signs O' key msg sig \<longleftrightarrow>
     (\<exists>v v'. ossl_new O' key = Inr v \<and> ossl_update O' v msg = Inr v' \<and> ossl_verify O' v' sig = Inr True)"

definition quotes_pcrs :: "lib \<Rightarrow> attest_mu \<Rightarrow> bytes \<Rightarrow> bytes \<Rightarrow> bytes list \<Rightarrow> bool" where
  "quotes_pcrs L M msg nonce pcrs \<longleftrightarrow>
     (\<exists>a i. attest_unmarshall M msg = Inr a \<and> extra_data a = nonce \<and> attested a = QuoteAttest i
        \<and> quoted_digest i = sha256 L (concat pcrs))"

lemma verify_quote_signature_iff: "verify_quote_signature O' key q = Inr () \<longleftrightarrow> signs O' key (quote_message q) (quote_signature q)"
  by (auto simp: verify_quote_signature_def signs_def split: if_splits)

lemma verify_quote_eq: "verify_quote O' L M key nonce q = Inr () \<longleftrightarrow>
     signs O' key (quote_message q) (quote_signature q)
     \<and> quotes_pcrs L M (quote_message q) nonce (quote_pcrs q)"
proof (cases "attest_unmarshall M (quote_message q)")
  case (Inl e)
  then show ?thesis
    by (simp add: verify_quote_def quote_nonce_def quote_wrap_def quotes_pcrs_def)
next
  case (Inr a)
  then show ?thesis
    by (cases "attested a")
      (auto simp: verify_quote_def verify_quote_signature_iff quote_nonce_def quote_wrap_def verify_pcrs_def quotes_pcrs_def)
qed

lemma concat_blocks_inject:
  assumes "list_all (\<lambda>x. length x = n) xs" "list_all (\<lambda>x. length x = n) ys" "0 < n"
    and "concat xs = concat ys"
  shows "xs = ys"
  using assms(1,2,4)
proof (induction xs arbitrary: ys)
  case Nil
  then show ?case using assms(3) by (cases ys) auto
next
  case (Cons x xs)
  then obtain y ys' where ys: "ys = y # ys'" using assms(3) by (cases ys) auto
  then have "length x = length y" using Cons.prems by simp
  then have "x = y" "concat xs = concat ys'" using Cons.prems(3) ys by simp_all
  then show ?case using Cons.IH [of ys'] Cons.prems(1,2) ys by simp
qed

text \<open>
  A quote verifies exactly when the key signed its message, the message is a TPM quote with the
  caller's nonce, and the digest in it is that of the register values beside it. (Which
  registers the quote selects is not looked at.)
\<close>

theorem verify_quote_iff:
  "verify_quote O' L M key nonce q = Inr () \<longleftrightarrow>
     signs O' key (quote_message q) (quote_signature q)
     \<and> quotes_pcrs L M (quote_message q) nonce (quote_pcrs q)"
  by (rule verify_quote_eq)

section \<open>A quote that was taken verifies\<close>

text \<open>
  What the TPM and the library around it promise while the registers hold \<open>pv\<close>. A read gives values of
  registers it was asked for, of those the TPM has (\<open>TPM2_PCR_Read\<close>). Opening a key gives a handle that
  stands for it: \<open>ko\<close> reads off the device what an ESYS handle stands for. A quote of registers the TPM
  has, by the attestation key under its own scheme, is the byte form of an attestation on the caller's
  data and the digest of the selected registers, signed by that key; the scheme of the attestation key
  is RSASSA with SHA-256. Nothing is promised of any other key.
\<close>

definition pcr_read_law :: "'d esys \<Rightarrow> (hashing_algorithm \<times> pcr_slot \<Rightarrow> bool) \<Rightarrow> pcr_values \<Rightarrow> bool" where
  "pcr_read_law E has pv \<longleftrightarrow> (\<forall>l t s d rc n sel ds d'. list_all selection_wf l \<longrightarrow>
     selection_list_to_tpml l = Inr t \<longrightarrow> esys_pcr_read E t s d = (rc, (n, sel, ds), d') \<longrightarrow> rc = 0 \<longrightarrow>
     (\<exists>sel'. selection_list_try_from sel = Inr sel' \<and> sel_mset sel' \<subseteq># sel_mset l
        \<and> digest_list_try_from ds = Inr (values_of pv sel') \<and> (\<forall>x \<in># sel_mset sel'. has x)
        \<and> ((\<exists>x \<in># sel_mset l. has x) \<longrightarrow> sel_mset sel' \<noteq> {#})))"

definition object_law :: "'d esys \<Rightarrow> ('d \<Rightarrow> u32 \<Rightarrow> u32 option) \<Rightarrow> bool" where
  "object_law E ko \<longleftrightarrow> (\<forall>h s d rc ob d'. esys_tr_from_tpm_public E h s d = (rc, ob, d') \<longrightarrow> rc = 0 \<longrightarrow>
     ko d' ob = Some h)"

definition quote_law :: "'d esys \<Rightarrow> ('d \<Rightarrow> u32 \<Rightarrow> u32 option) \<Rightarrow> lib \<Rightarrow> attest_mu \<Rightarrow> ('k, 'v) openssl \<Rightarrow> 'k \<Rightarrow>
    (hashing_algorithm \<times> pcr_slot \<Rightarrow> bool) \<Rightarrow> pcr_values \<Rightarrow> bool" where
  "quote_law E ko L M O' ak has pv \<longleftrightarrow> (\<forall>ob data l t s d rc b sg d'. ko d ob = Some VTPM_AK_HANDLE \<longrightarrow>
     list_all selection_wf l \<longrightarrow> has_all has l \<longrightarrow> length data \<le> DATA_MAX \<longrightarrow> selection_list_to_tpml l = Inr t \<longrightarrow>
     esys_quote E ob (buffer_to_tss DATA_MAX data) (alg_id_u16 Id_Null) t s d = (rc, (b, sg), d') \<longrightarrow> rc = 0 \<longrightarrow>
     (\<exists>a msg rs. quote_attest_wf a \<and> attest_marshall M a = Inr msg \<and> length msg \<le> ATTEST_BUFFER_MAX
        \<and> b = buffer_to_tss ATTEST_BUFFER_MAX msg \<and> extra_data a = data
        \<and> attested a = QuoteAttest \<lparr> quoted_selection = l, quoted_digest = sha256 L (concat (values_of pv l)) \<rparr>
        \<and> rsa_signature_wf rs \<and> signature_to_tss (RsaSsa rs) = Inr sg \<and> signs O' ak msg (rsa_sig rs)))"

lemma pcr_read_answers:
  assumes "pcr_read_law E has pv"
  shows "answers has pv (pcr_read E)"
  unfolding answers_def
proof (intro allI impI)
  fix l c n sel ds c'
  assume wf: "list_all selection_wf l" and rd: "pcr_read E l c = (Inr (n, sel, ds), c')"
  obtain t k rs rd' d where t: "selection_list_to_tpml l = Inr t"
      and call: "esys_pcr_read E t (optional_sessions c) (device c) = (0, (k, rs, rd'), d)"
      and conv: "selection_list_try_from rs = Inr sel" "digest_list_try_from rd' = Inr ds"
    using rd by (auto simp: pcr_read_def esys_call_Inr)
  from assms wf t call have "\<exists>sel'. selection_list_try_from rs = Inr sel' \<and> sel_mset sel' \<subseteq># sel_mset l
        \<and> digest_list_try_from rd' = Inr (values_of pv sel') \<and> (\<forall>x \<in># sel_mset sel'. has x)
        \<and> ((\<exists>x \<in># sel_mset l. has x) \<longrightarrow> sel_mset sel' \<noteq> {#})"
    unfolding pcr_read_law_def by blast
  then show "sel_mset sel \<subseteq># sel_mset l \<and> ds = values_of pv sel \<and> (\<forall>x \<in># sel_mset sel. has x)
      \<and> ((\<exists>x \<in># sel_mset l. has x) \<longrightarrow> sel_mset sel \<noteq> {#})"
    using conv by auto
qed

text \<open>The selection of the code: one bank, its first 24 registers, in order.\<close>

definition quote_selection :: pcr_selection where
  "quote_selection = \<lparr> sel_hash = AlgSha256,
     sel_slots = \<lparr> pcr_select_size = ThreeOctets, pcr_slots = 0xFFFFFF \<rparr> \<rparr>"

lemma quote_selection_built:
  assumes "\<And>x. iter [x] = [x]"
  shows "builder_build iter (with_selection selection_builder_new AlgSha256 VTPM_QUOTE_PCR_SLOTS) = Inr [quote_selection]"
proof -
  have "selection_create AlgSha256 select_size_default VTPM_QUOTE_PCR_SLOTS = Inr quote_selection"
    by code_simp
  then show ?thesis
    using assms by (simp add: builder_build_def with_selection_def selection_builder_new_def)
qed

lemma quote_selection_slots: "selected quote_selection = VTPM_QUOTE_PCR_SLOTS"
  by code_simp

lemma quote_selection_wf: "list_all selection_wf [quote_selection]"
  by (simp add: quote_selection_def selection_wf_def wf_take_bit)

lemma quote_pairs: "(h, s) \<in># sel_pairs quote_selection \<longleftrightarrow> h = AlgSha256 \<and> s \<in> set VTPM_QUOTE_PCR_SLOTS"
  by (auto simp: sel_pairs_selected quote_selection_slots) (simp add: quote_selection_def)+

lemma quote_values: "values_of pv [quote_selection] = map (pv AlgSha256) VTPM_QUOTE_PCR_SLOTS"
  by (simp add: values_of_def quote_selection_slots) (simp add: quote_selection_def)

lemma quote_slots_sorted: "sorted_wrt (<) VTPM_QUOTE_PCR_SLOTS"
  by code_simp

text \<open>The bank of the data read is the list of the selected registers' values, in order.\<close>

lemma bank_read:
  assumes "reads_exactly pv [quote_selection] d" and "data_inv d"
  shows "pcr_bank_of d AlgSha256 = Some (map (\<lambda>s. (s, pv AlgSha256 s)) VTPM_QUOTE_PCR_SLOTS)"
proof -
  let ?m = "map (\<lambda>s. (s, pv AlgSha256 s)) VTPM_QUOTE_PCR_SLOTS"
  have look: "data_lookup d AlgSha256 s = (if s \<in> set VTPM_QUOTE_PCR_SLOTS then Some (pv AlgSha256 s) else None)" for s
    using assms(1) by (simp add: reads_exactly_def quote_pairs)
  have "data_lookup d AlgSha256 Slot0 \<noteq> None"
    by (simp add: look VTPM_QUOTE_PCR_SLOTS_def)
  then obtain b where b: "pcr_bank_of d AlgSha256 = Some b"
    by (auto simp: data_lookup_def split: option.splits)
  have "om_inv b"
    using assms(2) b by (auto simp: data_inv_def pcr_bank_of_def list_all_iff dest!: map_of_SomeD)
  moreover have "om_inv ?m"
    using quote_slots_sorted by (simp add: om_inv_def comp_def)
  moreover have "om_lookup b = om_lookup ?m"
    using look b by (auto simp: data_lookup_def om_lookup_def map_of_map_restrict restrict_map_def)
  ultimately show ?thesis using om.entries_determined b by metis
qed

lemma bank_arrays_read:
  assumes "reads_exactly pv [quote_selection] d" and "data_inv d" and "\<And>s. length (pv AlgSha256 s) = 32"
  shows "bank_arrays d = Inr (values_of pv [quote_selection])"
proof -
  have "mapM (\<lambda>(s, v). map_err (\<lambda>e. Err PcrRead) (digest_array 32 v))
      (map (\<lambda>s. (s, pv AlgSha256 s)) ss) = Inr (map (pv AlgSha256) ss)" for ss
    by (induction ss) (simp_all add: digest_array_def assms(3))
  then show ?thesis
    using bank_read [OF assms(1,2)] by (simp add: bank_arrays_def ok_or_def quote_values)
qed

text \<open>What \<open>take_quote\<close> hands on when it succeeds.\<close>

definition good_quote :: "lib \<Rightarrow> attest_mu \<Rightarrow> ('k, 'v) openssl \<Rightarrow> 'k \<Rightarrow> (hashing_algorithm \<Rightarrow> pcr_slot \<Rightarrow> bytes) \<Rightarrow>
    bytes \<Rightarrow> attest \<times> signature \<times> pcr_selection list \<Rightarrow> bool" where
  "good_quote L M O' key pv data t \<longleftrightarrow> (\<exists>a msg rs. t = (a, RsaSsa rs, [quote_selection])
     \<and> attest_marshall M a = Inr msg \<and> attest_unmarshall M msg = Inr a \<and> extra_data a = data
     \<and> attested a = QuoteAttest \<lparr> quoted_selection = [quote_selection],
          quoted_digest = sha256 L (concat (values_of pv [quote_selection])) \<rparr>
     \<and> signs O' key msg (rsa_sig rs))"

lemma ak_handle: "tpm_handle_try_from VTPM_AK_HANDLE = Inr th \<Longrightarrow> tpm_handle_u32 th = VTPM_AK_HANDLE"
  by (auto simp: VTPM_AK_HANDLE_def tpm_handle_try_from_def msb_byte_def handle_new_def handle_base_def)

lemma tr_from_tpm_public_object:
  assumes "object_law E ko" and "tr_from_tpm_public E th c = (Inr ob, c')"
  shows "ko (device c') ob = Some (tpm_handle_u32 th)"
proof -
  obtain d where "esys_tr_from_tpm_public E (tpm_handle_u32 th) (optional_sessions c) (device c) = (0, ob, d)"
      and "device c' = d"
    using assms(2) by (auto simp: tr_from_tpm_public_def esys_call_Inr manage_Inr)
  then show ?thesis using assms(1) unfolding object_law_def by blast
qed

text \<open>The TPM has the registers that are quoted.\<close>

definition has_quoted :: "(hashing_algorithm \<times> pcr_slot \<Rightarrow> bool) \<Rightarrow> bool" where
  "has_quoted has \<longleftrightarrow> (\<forall>s \<in> set VTPM_QUOTE_PCR_SLOTS. has (AlgSha256, s))"

lemma has_quoted_selection: "has_quoted has \<Longrightarrow> has_all has [quote_selection]"
  by (auto simp: has_quoted_def has_all_def quote_pairs)

lemma take_quote_good:
  assumes "mu_ok M" and "quote_law E ko L M O' ak has pv" and iter: "\<And>x. iter [x] = [x]"
    and "length data \<le> DATA_MAX" and "take_quote E M iter data c = (Inr t, c')"
    and "object_law E ko" and "has_quoted has"
  shows "good_quote L M O' ak pv data t"
proof -
  obtain th ob a sig c0 c1 c2 where t: "t = (a, sig, [quote_selection])"
      and th: "tpm_handle_try_from VTPM_AK_HANDLE = Inr th" "tr_from_tpm_public E th c = (Inr ob, c0)"
      and c1: "device c1 = device c0"
      and q: "quote_null E M ob data [quote_selection] c1 = (Inr (a, sig), c2)"
  proof -
    obtain th ob c0 a sig where *: "tpm_handle_try_from VTPM_AK_HANDLE = Inr th" "tr_from_tpm_public E th c = (Inr ob, c0)"
        "quote_null E M ob data [quote_selection] (set_sessions (Some Password, None, None) c0) = (Inr (a, sig), c')"
        "t = (a, sig, [quote_selection])"
      using assms(5) by (auto simp: take_quote_def quote_selection_built [of iter, OF iter])
    then show thesis by (intro that [OF *(4,1,2) _ *(3)]) simp
  qed
  have ob: "ko (device c1) ob = Some VTPM_AK_HANDLE"
    using tr_from_tpm_public_object [OF assms(6) th(2)] ak_handle [OF th(1)] c1 by simp
  obtain s b sg d where s: "selection_list_to_tpml [quote_selection] = Inr s"
      and call: "esys_quote E ob (buffer_to_tss DATA_MAX data) (alg_id_u16 Id_Null) s (optional_sessions c1) (device c1)
          = (0, (b, sg), d)"
      and conv: "attest_of_buffer M b = Inr a" "signature_try_from sg = Inr sig"
    using q by (auto simp: quote_null_def esys_call_Inr)
  obtain a' msg rs where law: "quote_attest_wf a'" "attest_marshall M a' = Inr msg" "length msg \<le> ATTEST_BUFFER_MAX"
      "b = buffer_to_tss ATTEST_BUFFER_MAX msg" "extra_data a' = data"
      "attested a' = QuoteAttest \<lparr> quoted_selection = [quote_selection],
          quoted_digest = sha256 L (concat (values_of pv [quote_selection])) \<rparr>"
      "rsa_signature_wf rs" "signature_to_tss (RsaSsa rs) = Inr sg" "signs O' ak msg (rsa_sig rs)"
    using assms(2,4) quote_selection_wf has_quoted_selection [OF assms(7)] ob s call unfolding quote_law_def by blast
  have mu: "attest_unmarshall M msg = Inr a'"
    by (rule attest_marshall_roundtrip [OF assms(1) law(1,2)])
  have "attest_of_buffer M b = Inr a'"
    using mu law(3,4) by (simp add: attest_of_buffer_def buffer_roundtrip ATTEST_BUFFER_MAX_def)
  moreover have "signature_try_from sg = Inr (RsaSsa rs)"
    using signature_roundtrip [of "RsaSsa rs"] law(7,8) by (simp add: signature_wf_def)
  ultimately show ?thesis
    using t conv mu law by (auto simp: good_quote_def)
qed

lemma finish_quote_verifies:
  assumes "good_quote L M O' key pv data t" and "pcr_read_law E has pv" and "\<And>s. length (pv AlgSha256 s) = 32"
    and "has_quoted has"
  shows "case finish_quote E M t c of
      None \<Rightarrow> False
    | Some (Inr q, c') \<Rightarrow> verify_quote O' L M key data q = Inr ()
    | Some (Inl e, c') \<Rightarrow> \<exists>e'. e = map_stop QuoteTpm e'"
proof -
  obtain a msg rs where t: "t = (a, RsaSsa rs, [quote_selection])"
      and mu: "attest_marshall M a = Inr msg" "attest_unmarshall M msg = Inr a"
      and a: "extra_data a = data" "attested a = QuoteAttest \<lparr> quoted_selection = [quote_selection],
          quoted_digest = sha256 L (concat (values_of pv [quote_selection])) \<rparr>"
      and sg: "signs O' key msg (rsa_sig rs)"
    using assms(1) by (auto simp: good_quote_def)
  have nd: "nodup (sel_mset [quote_selection])" by (simp add: nodup_sel_pairs)
  have res: "case read_all (pcr_read E) [quote_selection] (clear_sessions c) of
      None \<Rightarrow> \<not> has_all has [quote_selection]
    | Some (Inl e, u') \<Rightarrow> reader_fails (pcr_read E) e
    | Some (Inr d, u') \<Rightarrow> has_all has [quote_selection] \<and> reads_exactly pv [quote_selection] d \<and> data_inv d"
    by (rule read_all_result [OF pcr_read_answers [OF assms(2)] nd quote_selection_wf])
  show ?thesis
  proof (cases "read_all (pcr_read E) [quote_selection] (clear_sessions c)")
    case None
    then show ?thesis using res has_quoted_selection [OF assms(4)] by simp
  next
    case (Some ru)
    obtain r u where ru: "ru = (r, u)" by fastforce
    show ?thesis
    proof (cases r)
      case (Inl e)
      then show ?thesis using Some ru t mu a by (auto simp: finish_quote_def quote_wrap_def)
    next
      case (Inr d)
      then have "bank_arrays d = Inr (values_of pv [quote_selection])"
        using res Some ru assms(3) by (intro bank_arrays_read) simp_all
      then have "finish_quote E M t c = Some (Inr \<lparr> quote_signature = rsa_sig rs, quote_message = msg,
          quote_pcrs = values_of pv [quote_selection] \<rparr>, u)"
        using Some ru Inr t mu a by (simp add: finish_quote_def quote_wrap_def)
      then show ?thesis using mu a sg by (simp add: verify_quote_eq quotes_pcrs_def)
    qed
  qed
qed

end
