(* ===== verification/Vtpm_Quote_Run.thy ===== *)
theory Vtpm_Quote_Run
  imports Vtpm_Quote
begin

text \<open>
  Taking a quote and verifying it, composed: a quote that \<open>get_quote\<close> took from a TPM that keeps its
  promises is one that \<open>verify\<close> accepts for the caller's nonce. The promises are then shown to be
  those of a simulated quoting TPM with a fixed-width byte form of attestations.
\<close>

section \<open>The composition\<close>

lemma get_quote_verifies:
  assumes "mu_ok M" and "object_law E ko" and "pcr_read_law E has pv" and "quote_law E ko L M O' ak has pv"
    and "has_quoted has" and "\<forall>s. length (pv AlgSha256 s) = 32" and "\<forall>x. iter [x] = [x]"
  shows "case get_quote T E M iter data s of
      None \<Rightarrow> False
    | Some (Inr q, s') \<Rightarrow> length data \<le> DATA_MAX \<and> verify_quote O' L M ak data q = Inr ()
    | Some (Inl e, s') \<Rightarrow> (DATA_MAX < length data \<and> e = Err DataTooLarge) \<or> (\<exists>e'. e = map_stop QuoteTpm e')"
proof (cases "DATA_MAX < length data")
  case True
  then show ?thesis by (simp add: get_quote_def)
next
  case False
  have body: "case (case take_quote E M iter data c of
          (Inl e, c1) \<Rightarrow> Some (quote_wrap (Inl e), c1)
        | (Inr t, c1) \<Rightarrow> finish_quote E M t c1) of
      None \<Rightarrow> False
    | Some (Inr q, s') \<Rightarrow> verify_quote O' L M ak data q = Inr ()
    | Some (Inl e, s') \<Rightarrow> \<exists>e'. e = map_stop QuoteTpm e'" for c
  proof -
    obtain r c1 where r: "take_quote E M iter data c = (r, c1)" by fastforce
    show ?thesis
    proof (cases r)
      case (Inl e)
      then show ?thesis using r by (auto simp: quote_wrap_def)
    next
      case (Inr t)
      have order: "iter [x] = [x]" for x using assms(7) by blast
      have "good_quote L M O' ak pv data t"
        using False r Inr by (intro take_quote_good [OF assms(1,4) order _ _ assms(2,5)]) simp_all
      then show ?thesis
        using finish_quote_verifies [OF _ assms(3) _ assms(5), of L M O' ak data t] assms(6) r Inr by simp
    qed
  qed
  obtain o1 r1 where dev: "new_device_direct T (Some TPM_DEVICE) (fst s) = (o1, r1)" by fastforce
  show ?thesis
    using body [of "new_context (snd s)"] False dev
    by (cases o1) (auto simp: get_quote_def with_device_def quote_wrap_def split: option.splits sum.splits)
qed

section \<open>A byte form of attestations\<close>

text \<open>Fields of fixed widths, one after the other.\<close>

definition selection_bytes :: "tpms_pcr_selection \<Rightarrow> bytes" where
  "selection_bytes p = u16_le (raw_hash p) @ raw_size p # raw_octets p"

definition bytes_selection :: "bytes \<Rightarrow> tpms_pcr_selection" where
  "bytes_selection b = \<lparr> raw_hash = le_u16 (take 2 b), raw_size = b ! 2, raw_octets = drop 3 b \<rparr>"

lemma selection_bytes_roundtrip [simp]: "bytes_selection (selection_bytes p) = p"
  by (simp add: bytes_selection_def selection_bytes_def le16.enc_length le16.dec_enc nth_append)

definition attest_fields :: "tpms_attest \<Rightarrow> (u32 \<times> tpms_pcr_selection list) \<times> (u16 \<times> bytes) \<Rightarrow> bytes list" where
  "attest_fields t i =
     [u32_le (raw_magic t), u16_le (raw_type t),
      u16_le (fst (raw_qualified_signer t)), snd (raw_qualified_signer t),
      u16_le (fst (raw_extra_data t)), snd (raw_extra_data t),
      u64_le (raw_clock (raw_clock_info t)), u32_le (raw_reset_count (raw_clock_info t)),
      u32_le (raw_restart_count (raw_clock_info t)), [raw_safe (raw_clock_info t)],
      u64_le (raw_firmware_version t), u32_le (fst (fst i)),
      concat (map selection_bytes (snd (fst i))), u16_le (fst (snd i)), snd (snd i)]"

definition attest_widths :: "nat list" where
  "attest_widths = [4, 2, 2, NAME_MAX, 2, DATA_MAX, 8, 4, 4, 1, 8, 4, 112, 2, DIGEST_MAX]"

definition fields_attest :: "bytes list \<Rightarrow> tpms_attest" where
  "fields_attest f = \<lparr> raw_magic = le_u32 (f ! 0), raw_type = le_u16 (f ! 1),
     raw_qualified_signer = (le_u16 (f ! 2), f ! 3), raw_extra_data = (le_u16 (f ! 4), f ! 5),
     raw_clock_info = \<lparr> raw_clock = le_u64 (f ! 6), raw_reset_count = le_u32 (f ! 7),
       raw_restart_count = le_u32 (f ! 8), raw_safe = f ! 9 ! 0 \<rparr>,
     raw_firmware_version = le_u64 (f ! 10),
     raw_attested = Raw_Quote ((le_u32 (f ! 11), map bytes_selection (cut (replicate 16 7) (f ! 12))),
       (le_u16 (f ! 13), f ! 14)) \<rparr>"

definition fixed_mu :: attest_mu where
  "fixed_mu = \<lparr>
     mu_marshal = \<lambda>t. (case raw_attested t of Raw_Quote i \<Rightarrow> (0, concat (attest_fields t i)) | _ \<Rightarrow> (1, [])),
     mu_unmarshal = \<lambda>b. (0, fields_attest (cut attest_widths b)) \<rparr>"

lemma selection_bytes_length [simp]: "length (selection_bytes (selection_to_tss p)) = 7"
    "length (selection_bytes default_tpms) = 7"
  by (simp_all add: selection_bytes_def selection_to_tss_def default_tpms_def collection_octets_eq
      TPM2_PCR_SELECT_MAX_def le16.enc_length le32.enc_length Let_def split: prod.split)

lemma tpml_selections:
  assumes "selection_list_to_tpml l = Inr t"
  shows "map length (map selection_bytes (snd t)) = replicate 16 7"
proof -
  have "map length (map selection_bytes (snd t)) = map (\<lambda>p. 7) l @ replicate (16 - length l) 7" "length l \<le> 16"
    using assms by (auto simp: selection_list_to_tpml_def SELECTION_LIST_MAX_def comp_def split: if_splits)
  then show ?thesis by (simp add: map_replicate_const flip: replicate_add)
qed

lemma selections_roundtrip:
  assumes "selection_list_to_tpml l = Inr t"
  shows "map bytes_selection (cut (replicate 16 7) (concat (map selection_bytes (snd t)))) = snd t"
  using cut_concat [OF tpml_selections [OF assms]] by (simp add: comp_def)

lemma buffer_to_tss_length [simp]: "length (snd (buffer_to_tss n b)) = n"
  by (simp add: buffer_to_tss_def)

text \<open>It keeps every well-formed quote.\<close>

lemma fixed_fields:
  assumes "quote_attest_wf a" and "attest_to_tss a = Inr t"
  shows "\<exists>i. raw_attested t = Raw_Quote i \<and> map length (attest_fields t i) = attest_widths
     \<and> fields_attest (attest_fields t i) = t"
proof -
  obtain q where q: "attested a = QuoteAttest q"
    using assms(1) by (auto simp: quote_attest_wf_def split: attest_info.splits)
  then obtain s where s: "selection_list_to_tpml (quoted_selection q) = Inr s"
      and t: "t = \<lparr> raw_magic = TPM2_GENERATED_VALUE,
           raw_type = attestation_type_u16 (attestation_type a),
           raw_qualified_signer = qualified_signer a,
           raw_extra_data = buffer_to_tss DATA_MAX (extra_data a),
           raw_clock_info = clock_info_to_tss (attest_clock_info a),
           raw_firmware_version = firmware_version a,
           raw_attested = Raw_Quote (s, buffer_to_tss DIGEST_MAX (quoted_digest q)) \<rparr>"
    using assms(2) by (auto simp: attest_to_tss_def quote_info_to_tss_def)
  have name: "length (snd (qualified_signer a)) = NAME_MAX"
    using assms(1) buffer_to_tss_length unfolding quote_attest_wf_def by metis
  have "length (concat (map selection_bytes (snd s))) = 112"
    using tpml_selections [OF s] by (simp add: length_concat sum_list_replicate)
  then show ?thesis
    using name selections_roundtrip [OF s]
    by (simp add: t attest_fields_def attest_widths_def fields_attest_def
        le16.enc_length le32.enc_length le64.enc_length le16.dec_enc le32.dec_enc le64.dec_enc)
qed

lemma fixed_mu_ok: "mu_ok fixed_mu"
  unfolding mu_ok_def
proof (intro allI impI)
  fix a t
  assume "quote_attest_wf a" and "attest_to_tss a = Inr t"
  then obtain i where i: "raw_attested t = Raw_Quote i" "map length (attest_fields t i) = attest_widths"
      "fields_attest (attest_fields t i) = t"
    using fixed_fields by blast
  then show "fst (mu_marshal fixed_mu t) = 0 \<and> mu_unmarshal fixed_mu (snd (mu_marshal fixed_mu t)) = (0, t)"
    using cut_concat [OF i(2)] by (simp add: fixed_mu_def)
qed

section \<open>A quoting TPM\<close>

text \<open>
  Registers \<open>pv\<close> of the SHA-256 bank that stay as they are; a read gives the first register asked for; a
  quote signs the fixed-width form of the attestation with the key that the handle stands for. The
  signature scheme is the key followed by the message.
\<close>

definition sim_attest :: "lib \<Rightarrow> (hashing_algorithm \<Rightarrow> pcr_slot \<Rightarrow> bytes) \<Rightarrow> bytes \<Rightarrow> pcr_selection list \<Rightarrow> attest" where
  "sim_attest L pv data l = \<lparr> attestation_type = At_Quote, qualified_signer = buffer_to_tss NAME_MAX [0, 11],
     extra_data = data, attest_clock_info = \<lparr> clock = 5, reset_count = 1, restart_count = 0, clock_safe = True \<rparr>,
     firmware_version = 3,
     attested = QuoteAttest \<lparr> quoted_selection = l, quoted_digest = sha256 L (concat (values_of pv l)) \<rparr> \<rparr>"

definition sim_sign :: "bytes \<Rightarrow> bytes \<Rightarrow> rsa_signature" where
  "sim_sign key msg = \<lparr> rsa_hash = AlgSha256, rsa_sig = take PUBLIC_KEY_RSA_MAX (key @ msg) \<rparr>"

definition sim_openssl :: "(bytes, bytes \<times> bytes) openssl" where
  "sim_openssl = \<lparr> ossl_new = \<lambda>k. Inr (k, []), ossl_update = \<lambda>v b. Inr (fst v, snd v @ b),
     ossl_verify = \<lambda>v sg. Inr (sg = rsa_sig (sim_sign (fst v) (snd v))) \<rparr>"

definition sim_quote :: "lib \<Rightarrow> (hashing_algorithm \<Rightarrow> pcr_slot \<Rightarrow> bytes) \<Rightarrow> bytes \<Rightarrow> u16 \<times> bytes \<Rightarrow>
    u32 \<times> tpms_pcr_selection list \<Rightarrow> u32 \<times> (u16 \<times> bytes) \<times> tpmt_signature" where
  "sim_quote L pv key nonce t =
     (case bnd (selection_list_try_from t) (\<lambda>l.
           bnd (buffer_of_tss DATA_MAX nonce) (\<lambda>data.
           bnd (attest_marshall fixed_mu (sim_attest L pv data l)) (\<lambda>msg.
           bnd (signature_to_tss (RsaSsa (sim_sign key msg))) (\<lambda>sg.
           Inr (buffer_to_tss ATTEST_BUFFER_MAX msg, sg))))) of
        Inl e \<Rightarrow> (1, (0, []), (0, Raw_NoSignature))
      | Inr r \<Rightarrow> (0, r))"

definition sim_pcr_read :: "(hashing_algorithm \<Rightarrow> pcr_slot \<Rightarrow> bytes) \<Rightarrow> u32 \<times> tpms_pcr_selection list \<Rightarrow>
    u32 \<times> u32 \<times> (u32 \<times> tpms_pcr_selection list) \<times> (u32 \<times> (u16 \<times> bytes) list)" where
  "sim_pcr_read pv t =
     (case bnd (selection_list_try_from t) (\<lambda>l.
           bnd (fst (first_slot_reader (\<lambda>h. h = AlgSha256) pv l ())) (\<lambda>(n, sel, ds).
           bnd (selection_list_to_tpml sel) (\<lambda>rs.
           bnd (digest_list_to_tpml ds) (\<lambda>rd. Inr (n, rs, rd))))) of
        Inl e \<Rightarrow> (1, 0, (0, []), (0, []))
      | Inr r \<Rightarrow> (0, r))"

text \<open>\<open>keys\<close> are the signing keys by their handles; a handle of the library is that of the TPM.\<close>

definition quoting_esys :: "lib \<Rightarrow> pcr_values \<Rightarrow> (u32 \<Rightarrow> bytes) \<Rightarrow> (drop_action \<times> u32) list esys" where
  "quoting_esys L pv keys = logging_esys \<lparr>
     esys_tr_from_tpm_public := \<lambda>h s d. (0, h, d),
     esys_pcr_read := \<lambda>t s d. (case sim_pcr_read pv t of (rc, r) \<Rightarrow> (rc, r, d)),
     esys_quote := \<lambda>ob nonce alg t s d. (case sim_quote L pv (keys ob) nonce t of (rc, r) \<Rightarrow> (rc, r, d)) \<rparr>"

definition sim_objects_of :: "(drop_action \<times> u32) list \<Rightarrow> u32 \<Rightarrow> u32 option" where
  "sim_objects_of d ob = Some ob"

definition sha256_bank :: "hashing_algorithm \<times> pcr_slot \<Rightarrow> bool" where
  "sha256_bank x \<longleftrightarrow> fst x = AlgSha256"

lemma quoting_object_law: "object_law (quoting_esys L pv keys) sim_objects_of"
  by (auto simp: object_law_def quoting_esys_def sim_objects_of_def)

lemma has_sha256_bank: "has_quoted sha256_bank"
  by (simp add: has_quoted_def sha256_bank_def)

lemma sim_signs: "signs sim_openssl key msg (rsa_sig (sim_sign key msg))"
  by (simp add: signs_def sim_openssl_def)

lemma first_slot_reader_wf:
  assumes "first_slot_reader banks pv l u = (Inr (n, sel, ds), u')" and "list_all selection_wf l"
  shows "list_all selection_wf sel"
proof (cases "filter (\<lambda>p. banks (sel_hash p)) (remove_empty_selections l)")
  case Nil
  then show ?thesis using assms(1) by (simp add: first_slot_reader_def)
next
  case (Cons p ps)
  then have "p \<in> set (filter (\<lambda>p. banks (sel_hash p)) (remove_empty_selections l))" by simp
  then have p: "p \<in> set (remove_empty_selections l)" by simp
  then have "p \<in> set l" by (simp add: remove_empty_selections_def)
  then have wf: "selection_wf p" using assms(2) by (simp add: list_all_iff)
  have "selected p \<noteq> []"
    using p by (auto simp: remove_empty_selections_def sel_pairs_selected simp flip: sel_pairs_empty)
  then have "hd (selected p) \<in> set (selected p)" by simp
  then have "selection_wf (p \<lparr> sel_slots := (sel_slots p) \<lparr> pcr_slots := pcr_slot_u32 (hd (selected p)) \<rparr> \<rparr>)"
    using wf by (auto simp: selection_wf_def collection_wf_def selected_def slot_simps slot_set_def bit_slot)
  then show ?thesis using assms(1) Cons by (auto simp: first_slot_reader_def Let_def)
qed

lemma quoting_pcr_read_law:
  assumes "\<And>h s. length (pv h s) \<le> DIGEST_MAX"
  shows "pcr_read_law (quoting_esys L pv keys) sha256_bank pv"
  unfolding pcr_read_law_def
proof (intro allI impI)
  fix l t s d rc n sel ds d'
  assume wf: "list_all selection_wf l" and t: "selection_list_to_tpml l = Inr t"
    and read: "esys_pcr_read (quoting_esys L pv keys) t s d = (rc, (n, sel, ds), d')" and ok: "rc = (0 :: u32)"
  let ?rd = "first_slot_reader (\<lambda>h. h = AlgSha256) pv :: unit pcr_reader"
  have "selection_list_try_from t = Inr l"
    by (rule selection_list_roundtrip [OF wf t])
  then obtain sel' ds' where rd: "?rd l () = (Inr (n, sel', ds'), ())"
      and conv: "selection_list_to_tpml sel' = Inr sel" "digest_list_to_tpml ds' = Inr ds"
    using read ok
    by (cases "?rd l ()") (auto simp: quoting_esys_def sim_pcr_read_def split: sum.splits prod.splits)
  have "sel_mset sel' \<subseteq># sel_mset l \<and> ds' = values_of pv sel' \<and> (\<forall>x \<in># sel_mset sel'. fst x = AlgSha256)
      \<and> ((\<exists>x \<in># sel_mset l. fst x = AlgSha256) \<longrightarrow> sel_mset sel' \<noteq> {#})"
    using first_slot_reader_answers [of "\<lambda>h. h = AlgSha256" pv, where 'a = unit] wf rd
    unfolding answers_def by blast
  then have ans: "sel_mset sel' \<subseteq># sel_mset l" "ds' = values_of pv sel'" "\<forall>x \<in># sel_mset sel'. sha256_bank x"
      "(\<exists>x \<in># sel_mset l. sha256_bank x) \<longrightarrow> sel_mset sel' \<noteq> {#}"
    by (auto simp: sha256_bank_def)
  have "selection_list_try_from sel = Inr sel'"
    by (rule selection_list_roundtrip [OF first_slot_reader_wf [OF rd wf] conv(1)])
  moreover have "digest_list_try_from ds = Inr ds'"
    using assms conv(2) ans(2) by (intro digest_list_roundtrip) (auto simp: list_all_iff values_of_def)
  ultimately show "\<exists>sel'. selection_list_try_from sel = Inr sel' \<and> sel_mset sel' \<subseteq># sel_mset l
        \<and> digest_list_try_from ds = Inr (values_of pv sel') \<and> (\<forall>x \<in># sel_mset sel'. sha256_bank x)
        \<and> ((\<exists>x \<in># sel_mset l. sha256_bank x) \<longrightarrow> sel_mset sel' \<noteq> {#})"
    using ans by blast
qed

lemma sim_attest_wf:
  assumes "length l \<le> SELECTION_LIST_MAX" and "list_all selection_wf l" and "length data \<le> DATA_MAX"
    and "\<And>b. length (sha256 L b) \<le> DIGEST_MAX"
  shows "quote_attest_wf (sim_attest L pv data l)"
  using assms by (simp add: quote_attest_wf_def sim_attest_def quote_info_wf_def buffer_to_tss_def pad_to_def NAME_MAX_def)

lemma fixed_marshall_length:
  assumes "quote_attest_wf a" and "attest_marshall fixed_mu a = Inr msg"
  shows "length msg \<le> ATTEST_BUFFER_MAX"
proof -
  obtain t where t: "attest_to_tss a = Inr t"
    using assms(2) by (cases "attest_to_tss a") (auto simp: attest_marshall_def)
  then have m: "mu_marshal fixed_mu t = (0, msg)"
    using assms(2) by (cases "mu_marshal fixed_mu t") (auto simp: attest_marshall_def rc_success_iff split: if_splits)
  obtain i where "raw_attested t = Raw_Quote i" "map length (attest_fields t i) = attest_widths"
    using fixed_fields [OF assms(1) t] by blast
  then have "length msg = sum_list attest_widths"
    using m by (auto simp: fixed_mu_def length_concat)
  then show ?thesis
    by (simp add: attest_widths_def NAME_MAX_def DATA_MAX_def DIGEST_MAX_def ATTEST_BUFFER_MAX_def)
qed

lemma quoting_quote_law:
  assumes "\<And>b. length (sha256 L b) \<le> DIGEST_MAX"
  shows "quote_law (quoting_esys L pv keys) sim_objects_of L fixed_mu sim_openssl (keys VTPM_AK_HANDLE) sha256_bank pv"
  unfolding quote_law_def
proof (intro allI impI)
  fix ob data l t s d rc b sg d'
  let ?key = "keys VTPM_AK_HANDLE"
  assume ob: "sim_objects_of d ob = Some VTPM_AK_HANDLE" and wf: "list_all selection_wf l" and len: "length data \<le> DATA_MAX"
    and t: "selection_list_to_tpml l = Inr t" and ok: "rc = (0 :: u32)"
    and call: "esys_quote (quoting_esys L pv keys) ob (buffer_to_tss DATA_MAX data) (alg_id_u16 Id_Null) t s d
      = (rc, (b, sg), d')"
  let ?a = "sim_attest L pv data l"
  have l: "selection_list_try_from t = Inr l"
    by (rule selection_list_roundtrip [OF wf t])
  have data: "buffer_of_tss DATA_MAX (buffer_to_tss DATA_MAX data) = Inr data"
    using len by (intro buffer_roundtrip) (simp_all add: DATA_MAX_def)
  obtain msg where msg: "attest_marshall fixed_mu ?a = Inr msg"
      "signature_to_tss (RsaSsa (sim_sign ?key msg)) = Inr sg" "b = buffer_to_tss ATTEST_BUFFER_MAX msg"
    using call ok l data ob by (auto simp: quoting_esys_def sim_quote_def sim_objects_of_def split: sum.splits)
  have a: "quote_attest_wf ?a"
    using assms wf len t
    by (intro sim_attest_wf) (auto simp: selection_list_to_tpml_def split: if_splits)
  have "rsa_signature_wf (sim_sign ?key msg)"
    by (simp add: rsa_signature_wf_def sim_sign_def)
  moreover have "extra_data ?a = data"
      "attested ?a = QuoteAttest \<lparr> quoted_selection = l, quoted_digest = sha256 L (concat (values_of pv l)) \<rparr>"
    by (simp_all add: sim_attest_def)
  ultimately show "\<exists>a msg rs. quote_attest_wf a \<and> attest_marshall fixed_mu a = Inr msg
        \<and> length msg \<le> ATTEST_BUFFER_MAX
        \<and> b = buffer_to_tss ATTEST_BUFFER_MAX msg \<and> extra_data a = data
        \<and> attested a = QuoteAttest \<lparr> quoted_selection = l, quoted_digest = sha256 L (concat (values_of pv l)) \<rparr>
        \<and> rsa_signature_wf rs \<and> signature_to_tss (RsaSsa rs) = Inr sg
        \<and> signs sim_openssl ?key msg (rsa_sig rs)"
    using a msg fixed_marshall_length [OF a msg(1)] sim_signs by blast
qed

text \<open>
  C10. A quote that was taken verifies. On a TPM that has the quoted registers, while they hold \<open>pv\<close>, and
  that promises of its attestation key, the one at \<open>VTPM_AK_HANDLE\<close>, that quotes under its own scheme are
  signed RSASSA with SHA-256: \<open>get_quote\<close> returns; it fails only for data longer than 64 bytes or with
  an error of the TPM library, and otherwise \<open>verify\<close> with that key and the same data accepts the quote.
\<close>

theorem taken_quote_verifies:
  assumes "mu_ok M" and "object_law E ko" and "pcr_read_law E has pv" and "quote_law E ko L M O' ak has pv"
    and "has_quoted has" and "\<forall>s. length (pv AlgSha256 s) = 32" and "\<forall>x. iter [x] = [x]"
  shows "case get_quote T E M iter data s of
      None \<Rightarrow> False
    | Some (Inr q, s') \<Rightarrow> length data \<le> DATA_MAX \<and> verify_quote O' L M ak data q = Inr ()
    | Some (Inl e, s') \<Rightarrow> (DATA_MAX < length data \<and> e = Err DataTooLarge) \<or> (\<exists>e'. e = map_stop QuoteTpm e')"
  by (rule get_quote_verifies [OF assms])

definition sample_registers :: "hashing_algorithm \<Rightarrow> pcr_slot \<Rightarrow> bytes" where
  "sample_registers h s = replicate 32 (of_nat (slot_index s))"

text \<open>The attestation key signs with 7, 9; any other key of the TPM is empty.\<close>

definition sample_keys :: "u32 \<Rightarrow> bytes" where
  "sample_keys h = (if h = VTPM_AK_HANDLE then [7, 9] else [])"

theorem taken_quote_verifies_witness:
  "case get_quote sample_tcti (quoting_esys sample_lib sample_registers sample_keys) fixed_mu (\<lambda>m. m) [1, 2, 3]
      (\<lparr> live_buffers = [], open_interfaces = [], loader_interfaces = [], esys_contexts = 0 \<rparr>, []) of
      None \<Rightarrow> False
    | Some (Inr q, s') \<Rightarrow> verify_quote sim_openssl sample_lib fixed_mu [7, 9] [1, 2, 3] q = Inr ()
    | Some (Inl e, s') \<Rightarrow> \<exists>e'. e = map_stop QuoteTpm e'"
proof -
  have "pcr_read_law (quoting_esys sample_lib sample_registers sample_keys) sha256_bank sample_registers"
    by (rule quoting_pcr_read_law) (simp add: sample_registers_def DIGEST_MAX_def)
  moreover have "quote_law (quoting_esys sample_lib sample_registers sample_keys) sim_objects_of sample_lib fixed_mu
      sim_openssl (sample_keys VTPM_AK_HANDLE) sha256_bank sample_registers"
    by (rule quoting_quote_law) (simp add: toy_digest_def DIGEST_MAX_def)
  then have "quote_law (quoting_esys sample_lib sample_registers sample_keys) sim_objects_of sample_lib fixed_mu
      sim_openssl [7, 9] sha256_bank sample_registers"
    by (simp add: sample_keys_def)
  ultimately show ?thesis
    using taken_quote_verifies [OF fixed_mu_ok quoting_object_law, where iter = "\<lambda>m. m" and data = "[1, 2, 3]"
        and T = sample_tcti and has = sha256_bank and pv = sample_registers
        and s = "(\<lparr> live_buffers = [], open_interfaces = [], loader_interfaces = [], esys_contexts = 0 \<rparr>, [])"]
      has_sha256_bank
    by (fastforce simp: sample_registers_def DATA_MAX_def split: option.splits sum.splits)
qed

text \<open>
  C13. A signed message fixes the register values: two quotes with the same message that both verify,
  each for its nonce, are for the same nonce and carry the same 32-byte values, unless SHA-256
  collides on them.
\<close>

theorem verified_quote_binds_pcrs:
  assumes "verify_quote O' L M key nonce q = Inr ()" and "verify_quote O'' L M key' nonce' q' = Inr ()"
    and "quote_message q = quote_message q'"
    and "list_all (\<lambda>v. length v = 32) (quote_pcrs q)" and "list_all (\<lambda>v. length v = 32) (quote_pcrs q')"
  shows "nonce = nonce' \<and> (quote_pcrs q = quote_pcrs q'
     \<or> (concat (quote_pcrs q) \<noteq> concat (quote_pcrs q')
        \<and> sha256 L (concat (quote_pcrs q)) = sha256 L (concat (quote_pcrs q'))))"
  using assms concat_blocks_inject [OF assms(4,5)]
  by (auto simp: verify_quote_eq quotes_pcrs_def)

text \<open>Two quotes over the same message, signed with different keys.\<close>

definition sample_message :: bytes where
  "sample_message = (case attest_marshall fixed_mu (sim_attest sample_lib sample_registers [1, 2, 3] [quote_selection]) of
     Inr msg \<Rightarrow> msg | Inl e \<Rightarrow> [])"

definition sample_tpm_quote :: "bytes \<Rightarrow> quote" where
  "sample_tpm_quote key = \<lparr> quote_signature = rsa_sig (sim_sign key sample_message), quote_message = sample_message,
     quote_pcrs = values_of sample_registers [quote_selection] \<rparr>"

lemma sample_tpm_quote_verifies: "verify_quote sim_openssl sample_lib fixed_mu key [1, 2, 3] (sample_tpm_quote key) = Inr ()"
proof -
  let ?a = "sim_attest sample_lib sample_registers [1, 2, 3] [quote_selection]"
  have wf: "quote_attest_wf ?a"
    using quote_selection_wf
    by (intro sim_attest_wf) (simp_all add: SELECTION_LIST_MAX_def DATA_MAX_def DIGEST_MAX_def toy_digest_def)
  obtain t where t: "attest_to_tss ?a = Inr t"
    using quote_attest_roundtrip [OF wf] by blast
  then have "mu_marshal fixed_mu t = (0, snd (mu_marshal fixed_mu t))"
    using fixed_mu_ok wf unfolding mu_ok_def by (metis prod.collapse)
  then obtain msg where msg: "attest_marshall fixed_mu ?a = Inr msg"
    using t by (cases "mu_marshal fixed_mu t") (auto simp: attest_marshall_def rc_success_iff)
  then have "attest_unmarshall fixed_mu sample_message = Inr ?a"
    using attest_marshall_roundtrip [OF fixed_mu_ok wf msg] by (simp add: sample_message_def)
  then show ?thesis
    by (simp add: verify_quote_eq sample_tpm_quote_def quotes_pcrs_def sim_signs) (simp add: sim_attest_def)
qed

theorem verified_quote_binds_pcrs_witness:
  "quote_pcrs (sample_tpm_quote [7]) = quote_pcrs (sample_tpm_quote [8, 8])"
proof -
  have "list_all (\<lambda>v. length v = 32) (quote_pcrs (sample_tpm_quote key))" for key
    by (simp add: sample_tpm_quote_def quote_values list_all_iff sample_registers_def)
  moreover have "quote_message (sample_tpm_quote [7]) = quote_message (sample_tpm_quote [8, 8])"
    by (simp add: sample_tpm_quote_def)
  ultimately have "quote_pcrs (sample_tpm_quote [7]) = quote_pcrs (sample_tpm_quote [8, 8])
      \<or> concat (quote_pcrs (sample_tpm_quote [7])) \<noteq> concat (quote_pcrs (sample_tpm_quote [8, 8]))"
    using verified_quote_binds_pcrs [OF sample_tpm_quote_verifies [of "[7]"] sample_tpm_quote_verifies [of "[8, 8]"]] by blast
  moreover have "concat (quote_pcrs (sample_tpm_quote [7])) = concat (quote_pcrs (sample_tpm_quote [8, 8]))"
    by (simp add: sample_tpm_quote_def)
  ultimately show ?thesis by blast
qed

end
