(* ===== verification/Tss_Algorithms.thy ===== *)
theory Tss_Algorithms
  imports Tss_Attest
begin

text \<open>
  The algorithm types of the TPM interfaces (\<open>interface_types/algorithm.rs\<close>), each a subset of the
  algorithm identifiers, the key sizes (\<open>interface_types/key_bits.rs\<close>) and the elliptic curves
  (\<open>constants/ecc.rs\<close>, \<open>interface_types/ecc.rs\<close>). All of them go to a 16-bit value of the C library
  and back, which the locale \<open>tss_codes\<close> states once.
\<close>

section \<open>Types with a 16-bit code\<close>

locale tss_codes =
  fixes code :: "'a \<Rightarrow> u16" and decode :: "u16 \<Rightarrow> 'a tss"
  assumes decode_code: "decode (code x) = Inr x"
    and code_decode: "decode w = Inr x \<Longrightarrow> code x = w"
begin

lemma decode_iff: "decode w = Inr x \<longleftrightarrow> code x = w"
  using decode_code code_decode by blast

lemma code_inject: "code x = code y \<longleftrightarrow> x = y"
  by (metis decode_code sum.inject(2))

lemma decode_fails_iff: "is_ok (decode w) \<longleftrightarrow> w \<in> range code"
  using decode_iff by (fastforce simp: is_ok_iff)

end

text \<open>A subset of the algorithm identifiers goes through the identifier.\<close>

lemma tss_codes_subset:
  assumes "\<And>x. of_id (to_id x) = Inr x" and "\<And>i x. of_id i = Inr x \<Longrightarrow> to_id x = i"
  shows "tss_codes (\<lambda>x. alg_id_u16 (to_id x)) (\<lambda>w. bnd (alg_id_try_from w) of_id)"
  using assms by unfold_locales (auto simp: alg_id_try_from_iff)

section \<open>Subsets of the algorithm identifiers\<close>

datatype keyed_hash_scheme_algorithm =
    Khs_Hmac | Khs_Xor | Khs_Null

primrec keyed_hash_alg_id :: "keyed_hash_scheme_algorithm \<Rightarrow> algorithm_identifier" where
  "keyed_hash_alg_id Khs_Hmac = Id_Hmac"
| "keyed_hash_alg_id Khs_Xor = Id_Xor"
| "keyed_hash_alg_id Khs_Null = Id_Null"

definition keyed_hash_alg_of_id :: "algorithm_identifier \<Rightarrow> keyed_hash_scheme_algorithm tss" where
  "keyed_hash_alg_of_id i = (case i of
       Id_Hmac \<Rightarrow> Inr Khs_Hmac
     | Id_Xor \<Rightarrow> Inr Khs_Xor
     | Id_Null \<Rightarrow> Inr Khs_Null
     | _ \<Rightarrow> local_error InvalidParam)"

definition keyed_hash_alg_u16 :: "keyed_hash_scheme_algorithm \<Rightarrow> u16" where
  "keyed_hash_alg_u16 x = alg_id_u16 (keyed_hash_alg_id x)"

definition keyed_hash_alg_try_from :: "u16 \<Rightarrow> keyed_hash_scheme_algorithm tss" where
  "keyed_hash_alg_try_from w = bnd (alg_id_try_from w) keyed_hash_alg_of_id"

interpretation khs_codes: tss_codes keyed_hash_alg_u16 keyed_hash_alg_try_from
  unfolding keyed_hash_alg_u16_def [abs_def] keyed_hash_alg_try_from_def [abs_def]
proof (rule tss_codes_subset)
  show "keyed_hash_alg_of_id (keyed_hash_alg_id x) = Inr x" for x by (cases x) (simp_all add: keyed_hash_alg_of_id_def)
  show "keyed_hash_alg_id x = i" if "keyed_hash_alg_of_id i = Inr x" for i x
    using that by (cases i) (auto simp: keyed_hash_alg_of_id_def)
qed

datatype key_derivation_function =
    Kdf_Kdf1Sp800_56a | Kdf_Kdf2 | Kdf_Kdf1Sp800_108 | Kdf_Mgf1 | Kdf_Null

primrec kdf_id :: "key_derivation_function \<Rightarrow> algorithm_identifier" where
  "kdf_id Kdf_Kdf1Sp800_56a = Id_Kdf1Sp800_56a"
| "kdf_id Kdf_Kdf2 = Id_Kdf2"
| "kdf_id Kdf_Kdf1Sp800_108 = Id_Kdf1Sp800_108"
| "kdf_id Kdf_Mgf1 = Id_Mgf1"
| "kdf_id Kdf_Null = Id_Null"

definition kdf_of_id :: "algorithm_identifier \<Rightarrow> key_derivation_function tss" where
  "kdf_of_id i = (case i of
       Id_Kdf1Sp800_56a \<Rightarrow> Inr Kdf_Kdf1Sp800_56a
     | Id_Kdf2 \<Rightarrow> Inr Kdf_Kdf2
     | Id_Kdf1Sp800_108 \<Rightarrow> Inr Kdf_Kdf1Sp800_108
     | Id_Mgf1 \<Rightarrow> Inr Kdf_Mgf1
     | Id_Null \<Rightarrow> Inr Kdf_Null
     | _ \<Rightarrow> local_error InvalidParam)"

definition kdf_u16 :: "key_derivation_function \<Rightarrow> u16" where
  "kdf_u16 x = alg_id_u16 (kdf_id x)"

definition kdf_try_from :: "u16 \<Rightarrow> key_derivation_function tss" where
  "kdf_try_from w = bnd (alg_id_try_from w) kdf_of_id"

interpretation kdf_codes: tss_codes kdf_u16 kdf_try_from
  unfolding kdf_u16_def [abs_def] kdf_try_from_def [abs_def]
proof (rule tss_codes_subset)
  show "kdf_of_id (kdf_id x) = Inr x" for x by (cases x) (simp_all add: kdf_of_id_def)
  show "kdf_id x = i" if "kdf_of_id i = Inr x" for i x
    using that by (cases i) (auto simp: kdf_of_id_def)
qed

datatype symmetric_algorithm =
    Sym_Tdes | Sym_Aes | Sym_Sm4 | Sym_Camellia | Sym_Xor | Sym_Null

primrec symmetric_id :: "symmetric_algorithm \<Rightarrow> algorithm_identifier" where
  "symmetric_id Sym_Tdes = Id_Tdes"
| "symmetric_id Sym_Aes = Id_Aes"
| "symmetric_id Sym_Sm4 = Id_Sm4"
| "symmetric_id Sym_Camellia = Id_Camellia"
| "symmetric_id Sym_Xor = Id_Xor"
| "symmetric_id Sym_Null = Id_Null"

definition symmetric_of_id :: "algorithm_identifier \<Rightarrow> symmetric_algorithm tss" where
  "symmetric_of_id i = (case i of
       Id_Tdes \<Rightarrow> Inr Sym_Tdes
     | Id_Aes \<Rightarrow> Inr Sym_Aes
     | Id_Sm4 \<Rightarrow> Inr Sym_Sm4
     | Id_Camellia \<Rightarrow> Inr Sym_Camellia
     | Id_Xor \<Rightarrow> Inr Sym_Xor
     | Id_Null \<Rightarrow> Inr Sym_Null
     | _ \<Rightarrow> local_error InvalidParam)"

definition symmetric_u16 :: "symmetric_algorithm \<Rightarrow> u16" where
  "symmetric_u16 x = alg_id_u16 (symmetric_id x)"

definition symmetric_try_from :: "u16 \<Rightarrow> symmetric_algorithm tss" where
  "symmetric_try_from w = bnd (alg_id_try_from w) symmetric_of_id"

interpretation sym_codes: tss_codes symmetric_u16 symmetric_try_from
  unfolding symmetric_u16_def [abs_def] symmetric_try_from_def [abs_def]
proof (rule tss_codes_subset)
  show "symmetric_of_id (symmetric_id x) = Inr x" for x by (cases x) (simp_all add: symmetric_of_id_def)
  show "symmetric_id x = i" if "symmetric_of_id i = Inr x" for i x
    using that by (cases i) (auto simp: symmetric_of_id_def)
qed

datatype symmetric_mode =
    Mode_Ctr | Mode_Ofb | Mode_Cbc | Mode_Cfb | Mode_Ecb | Mode_Null

primrec mode_id :: "symmetric_mode \<Rightarrow> algorithm_identifier" where
  "mode_id Mode_Ctr = Id_Ctr"
| "mode_id Mode_Ofb = Id_Ofb"
| "mode_id Mode_Cbc = Id_Cbc"
| "mode_id Mode_Cfb = Id_Cfb"
| "mode_id Mode_Ecb = Id_Ecb"
| "mode_id Mode_Null = Id_Null"

definition mode_of_id :: "algorithm_identifier \<Rightarrow> symmetric_mode tss" where
  "mode_of_id i = (case i of
       Id_Ctr \<Rightarrow> Inr Mode_Ctr
     | Id_Ofb \<Rightarrow> Inr Mode_Ofb
     | Id_Cbc \<Rightarrow> Inr Mode_Cbc
     | Id_Cfb \<Rightarrow> Inr Mode_Cfb
     | Id_Ecb \<Rightarrow> Inr Mode_Ecb
     | Id_Null \<Rightarrow> Inr Mode_Null
     | _ \<Rightarrow> local_error InvalidParam)"

definition mode_u16 :: "symmetric_mode \<Rightarrow> u16" where
  "mode_u16 x = alg_id_u16 (mode_id x)"

definition mode_try_from :: "u16 \<Rightarrow> symmetric_mode tss" where
  "mode_try_from w = bnd (alg_id_try_from w) mode_of_id"

interpretation mode_codes: tss_codes mode_u16 mode_try_from
  unfolding mode_u16_def [abs_def] mode_try_from_def [abs_def]
proof (rule tss_codes_subset)
  show "mode_of_id (mode_id x) = Inr x" for x by (cases x) (simp_all add: mode_of_id_def)
  show "mode_id x = i" if "mode_of_id i = Inr x" for i x
    using that by (cases i) (auto simp: mode_of_id_def)
qed

datatype asymmetric_algorithm =
    Asym_Rsa | Asym_Ecc | Asym_Null

primrec asymmetric_id :: "asymmetric_algorithm \<Rightarrow> algorithm_identifier" where
  "asymmetric_id Asym_Rsa = Id_Rsa"
| "asymmetric_id Asym_Ecc = Id_Ecc"
| "asymmetric_id Asym_Null = Id_Null"

definition asymmetric_of_id :: "algorithm_identifier \<Rightarrow> asymmetric_algorithm tss" where
  "asymmetric_of_id i = (case i of
       Id_Rsa \<Rightarrow> Inr Asym_Rsa
     | Id_Ecc \<Rightarrow> Inr Asym_Ecc
     | Id_Null \<Rightarrow> Inr Asym_Null
     | _ \<Rightarrow> local_error InvalidParam)"

definition asymmetric_u16 :: "asymmetric_algorithm \<Rightarrow> u16" where
  "asymmetric_u16 x = alg_id_u16 (asymmetric_id x)"

definition asymmetric_try_from :: "u16 \<Rightarrow> asymmetric_algorithm tss" where
  "asymmetric_try_from w = bnd (alg_id_try_from w) asymmetric_of_id"

interpretation asym_codes: tss_codes asymmetric_u16 asymmetric_try_from
  unfolding asymmetric_u16_def [abs_def] asymmetric_try_from_def [abs_def]
proof (rule tss_codes_subset)
  show "asymmetric_of_id (asymmetric_id x) = Inr x" for x by (cases x) (simp_all add: asymmetric_of_id_def)
  show "asymmetric_id x = i" if "asymmetric_of_id i = Inr x" for i x
    using that by (cases i) (auto simp: asymmetric_of_id_def)
qed

definition asymmetric_of_signature :: "signature_scheme_algorithm \<Rightarrow> asymmetric_algorithm tss" where
  "asymmetric_of_signature s = (case s of
       Sig_RsaSsa \<Rightarrow> Inr Asym_Rsa
     | Sig_RsaPss \<Rightarrow> Inr Asym_Rsa
     | Sig_EcDsa \<Rightarrow> Inr Asym_Ecc
     | Sig_EcDaa \<Rightarrow> Inr Asym_Ecc
     | Sig_Sm2 \<Rightarrow> Inr Asym_Ecc
     | Sig_EcSchnorr \<Rightarrow> Inr Asym_Ecc
     | _ \<Rightarrow> local_error InvalidParam)"

datatype symmetric_object =
    Obj_Tdes | Obj_Aes | Obj_Sm4 | Obj_Camellia | Obj_Null

primrec symmetric_object_id :: "symmetric_object \<Rightarrow> algorithm_identifier" where
  "symmetric_object_id Obj_Tdes = Id_Tdes"
| "symmetric_object_id Obj_Aes = Id_Aes"
| "symmetric_object_id Obj_Sm4 = Id_Sm4"
| "symmetric_object_id Obj_Camellia = Id_Camellia"
| "symmetric_object_id Obj_Null = Id_Null"

definition symmetric_object_of_id :: "algorithm_identifier \<Rightarrow> symmetric_object tss" where
  "symmetric_object_of_id i = (case i of
       Id_Tdes \<Rightarrow> Inr Obj_Tdes
     | Id_Aes \<Rightarrow> Inr Obj_Aes
     | Id_Sm4 \<Rightarrow> Inr Obj_Sm4
     | Id_Camellia \<Rightarrow> Inr Obj_Camellia
     | Id_Null \<Rightarrow> Inr Obj_Null
     | _ \<Rightarrow> local_error InvalidParam)"

definition symmetric_object_u16 :: "symmetric_object \<Rightarrow> u16" where
  "symmetric_object_u16 x = alg_id_u16 (symmetric_object_id x)"

definition symmetric_object_try_from :: "u16 \<Rightarrow> symmetric_object tss" where
  "symmetric_object_try_from w = bnd (alg_id_try_from w) symmetric_object_of_id"

interpretation obj_codes: tss_codes symmetric_object_u16 symmetric_object_try_from
  unfolding symmetric_object_u16_def [abs_def] symmetric_object_try_from_def [abs_def]
proof (rule tss_codes_subset)
  show "symmetric_object_of_id (symmetric_object_id x) = Inr x" for x by (cases x) (simp_all add: symmetric_object_of_id_def)
  show "symmetric_object_id x = i" if "symmetric_object_of_id i = Inr x" for i x
    using that by (cases i) (auto simp: symmetric_object_of_id_def)
qed

datatype public_algorithm =
    Pub_Rsa | Pub_KeyedHash | Pub_Ecc | Pub_SymCipher

primrec public_alg_id :: "public_algorithm \<Rightarrow> algorithm_identifier" where
  "public_alg_id Pub_Rsa = Id_Rsa"
| "public_alg_id Pub_KeyedHash = Id_KeyedHash"
| "public_alg_id Pub_Ecc = Id_Ecc"
| "public_alg_id Pub_SymCipher = Id_SymCipher"

definition public_alg_of_id :: "algorithm_identifier \<Rightarrow> public_algorithm tss" where
  "public_alg_of_id i = (case i of
       Id_Rsa \<Rightarrow> Inr Pub_Rsa
     | Id_KeyedHash \<Rightarrow> Inr Pub_KeyedHash
     | Id_Ecc \<Rightarrow> Inr Pub_Ecc
     | Id_SymCipher \<Rightarrow> Inr Pub_SymCipher
     | _ \<Rightarrow> local_error InvalidParam)"

definition public_alg_u16 :: "public_algorithm \<Rightarrow> u16" where
  "public_alg_u16 x = alg_id_u16 (public_alg_id x)"

definition public_alg_try_from :: "u16 \<Rightarrow> public_algorithm tss" where
  "public_alg_try_from w = bnd (alg_id_try_from w) public_alg_of_id"

interpretation pub_codes: tss_codes public_alg_u16 public_alg_try_from
  unfolding public_alg_u16_def [abs_def] public_alg_try_from_def [abs_def]
proof (rule tss_codes_subset)
  show "public_alg_of_id (public_alg_id x) = Inr x" for x by (cases x) (simp_all add: public_alg_of_id_def)
  show "public_alg_id x = i" if "public_alg_of_id i = Inr x" for i x
    using that by (cases i) (auto simp: public_alg_of_id_def)
qed

datatype rsa_scheme_algorithm =
    RsaAlg_RsaSsa | RsaAlg_RsaEs | RsaAlg_RsaPss | RsaAlg_Oaep | RsaAlg_Null

primrec rsa_scheme_alg_id :: "rsa_scheme_algorithm \<Rightarrow> algorithm_identifier" where
  "rsa_scheme_alg_id RsaAlg_RsaSsa = Id_RsaSsa"
| "rsa_scheme_alg_id RsaAlg_RsaEs = Id_RsaEs"
| "rsa_scheme_alg_id RsaAlg_RsaPss = Id_RsaPss"
| "rsa_scheme_alg_id RsaAlg_Oaep = Id_Oaep"
| "rsa_scheme_alg_id RsaAlg_Null = Id_Null"

definition rsa_scheme_alg_of_id :: "algorithm_identifier \<Rightarrow> rsa_scheme_algorithm tss" where
  "rsa_scheme_alg_of_id i = (case i of
       Id_RsaSsa \<Rightarrow> Inr RsaAlg_RsaSsa
     | Id_RsaEs \<Rightarrow> Inr RsaAlg_RsaEs
     | Id_RsaPss \<Rightarrow> Inr RsaAlg_RsaPss
     | Id_Oaep \<Rightarrow> Inr RsaAlg_Oaep
     | Id_Null \<Rightarrow> Inr RsaAlg_Null
     | _ \<Rightarrow> local_error InvalidParam)"

definition rsa_scheme_alg_u16 :: "rsa_scheme_algorithm \<Rightarrow> u16" where
  "rsa_scheme_alg_u16 x = alg_id_u16 (rsa_scheme_alg_id x)"

definition rsa_scheme_alg_try_from :: "u16 \<Rightarrow> rsa_scheme_algorithm tss" where
  "rsa_scheme_alg_try_from w = bnd (alg_id_try_from w) rsa_scheme_alg_of_id"

interpretation rsa_alg_codes: tss_codes rsa_scheme_alg_u16 rsa_scheme_alg_try_from
  unfolding rsa_scheme_alg_u16_def [abs_def] rsa_scheme_alg_try_from_def [abs_def]
proof (rule tss_codes_subset)
  show "rsa_scheme_alg_of_id (rsa_scheme_alg_id x) = Inr x" for x by (cases x) (simp_all add: rsa_scheme_alg_of_id_def)
  show "rsa_scheme_alg_id x = i" if "rsa_scheme_alg_of_id i = Inr x" for i x
    using that by (cases i) (auto simp: rsa_scheme_alg_of_id_def)
qed

datatype ecc_scheme_algorithm =
    EccAlg_EcDsa | EccAlg_EcDh | EccAlg_EcDaa | EccAlg_Sm2 | EccAlg_EcSchnorr | EccAlg_EcMqv | EccAlg_Null

primrec ecc_scheme_alg_id :: "ecc_scheme_algorithm \<Rightarrow> algorithm_identifier" where
  "ecc_scheme_alg_id EccAlg_EcDsa = Id_EcDsa"
| "ecc_scheme_alg_id EccAlg_EcDh = Id_EcDh"
| "ecc_scheme_alg_id EccAlg_EcDaa = Id_EcDaa"
| "ecc_scheme_alg_id EccAlg_Sm2 = Id_Sm2"
| "ecc_scheme_alg_id EccAlg_EcSchnorr = Id_EcSchnorr"
| "ecc_scheme_alg_id EccAlg_EcMqv = Id_EcMqv"
| "ecc_scheme_alg_id EccAlg_Null = Id_Null"

definition ecc_scheme_alg_of_id :: "algorithm_identifier \<Rightarrow> ecc_scheme_algorithm tss" where
  "ecc_scheme_alg_of_id i = (case i of
       Id_EcDsa \<Rightarrow> Inr EccAlg_EcDsa
     | Id_EcDh \<Rightarrow> Inr EccAlg_EcDh
     | Id_EcDaa \<Rightarrow> Inr EccAlg_EcDaa
     | Id_Sm2 \<Rightarrow> Inr EccAlg_Sm2
     | Id_EcSchnorr \<Rightarrow> Inr EccAlg_EcSchnorr
     | Id_EcMqv \<Rightarrow> Inr EccAlg_EcMqv
     | Id_Null \<Rightarrow> Inr EccAlg_Null
     | _ \<Rightarrow> local_error InvalidParam)"

definition ecc_scheme_alg_u16 :: "ecc_scheme_algorithm \<Rightarrow> u16" where
  "ecc_scheme_alg_u16 x = alg_id_u16 (ecc_scheme_alg_id x)"

definition ecc_scheme_alg_try_from :: "u16 \<Rightarrow> ecc_scheme_algorithm tss" where
  "ecc_scheme_alg_try_from w = bnd (alg_id_try_from w) ecc_scheme_alg_of_id"

interpretation ecc_alg_codes: tss_codes ecc_scheme_alg_u16 ecc_scheme_alg_try_from
  unfolding ecc_scheme_alg_u16_def [abs_def] ecc_scheme_alg_try_from_def [abs_def]
proof (rule tss_codes_subset)
  show "ecc_scheme_alg_of_id (ecc_scheme_alg_id x) = Inr x" for x by (cases x) (simp_all add: ecc_scheme_alg_of_id_def)
  show "ecc_scheme_alg_id x = i" if "ecc_scheme_alg_of_id i = Inr x" for i x
    using that by (cases i) (auto simp: ecc_scheme_alg_of_id_def)
qed

datatype rsa_decrypt_algorithm =
    DecAlg_RsaEs | DecAlg_Oaep | DecAlg_Null

primrec rsa_decrypt_alg_id :: "rsa_decrypt_algorithm \<Rightarrow> algorithm_identifier" where
  "rsa_decrypt_alg_id DecAlg_RsaEs = Id_RsaEs"
| "rsa_decrypt_alg_id DecAlg_Oaep = Id_Oaep"
| "rsa_decrypt_alg_id DecAlg_Null = Id_Null"

definition rsa_decrypt_alg_of_id :: "algorithm_identifier \<Rightarrow> rsa_decrypt_algorithm tss" where
  "rsa_decrypt_alg_of_id i = (case i of
       Id_RsaEs \<Rightarrow> Inr DecAlg_RsaEs
     | Id_Oaep \<Rightarrow> Inr DecAlg_Oaep
     | Id_Null \<Rightarrow> Inr DecAlg_Null
     | _ \<Rightarrow> local_error InvalidParam)"

definition rsa_decrypt_alg_u16 :: "rsa_decrypt_algorithm \<Rightarrow> u16" where
  "rsa_decrypt_alg_u16 x = alg_id_u16 (rsa_decrypt_alg_id x)"

definition rsa_decrypt_alg_try_from :: "u16 \<Rightarrow> rsa_decrypt_algorithm tss" where
  "rsa_decrypt_alg_try_from w = bnd (alg_id_try_from w) rsa_decrypt_alg_of_id"

interpretation dec_alg_codes: tss_codes rsa_decrypt_alg_u16 rsa_decrypt_alg_try_from
  unfolding rsa_decrypt_alg_u16_def [abs_def] rsa_decrypt_alg_try_from_def [abs_def]
proof (rule tss_codes_subset)
  show "rsa_decrypt_alg_of_id (rsa_decrypt_alg_id x) = Inr x" for x by (cases x) (simp_all add: rsa_decrypt_alg_of_id_def)
  show "rsa_decrypt_alg_id x = i" if "rsa_decrypt_alg_of_id i = Inr x" for i x
    using that by (cases i) (auto simp: rsa_decrypt_alg_of_id_def)
qed

section \<open>Key sizes\<close>

datatype aes_key_bits = Aes128 | Aes192 | Aes256

primrec aes_bits_u16 :: "aes_key_bits \<Rightarrow> u16" where
  "aes_bits_u16 Aes128 = 128"
| "aes_bits_u16 Aes192 = 192"
| "aes_bits_u16 Aes256 = 256"

definition aes_bits_try_from :: "u16 \<Rightarrow> aes_key_bits tss" where
  "aes_bits_try_from w =
     (if w = 128 then Inr Aes128
      else if w = 192 then Inr Aes192
      else if w = 256 then Inr Aes256
      else local_error InvalidParam)"

interpretation aes_bits_codes: tss_codes aes_bits_u16 aes_bits_try_from
proof unfold_locales
  show "aes_bits_try_from (aes_bits_u16 x) = Inr x" for x by (cases x) (simp_all add: aes_bits_try_from_def)
  show "aes_bits_u16 x = w" if "aes_bits_try_from w = Inr x" for w x
    using that by (auto simp: aes_bits_try_from_def split: if_splits)
qed

datatype sm4_key_bits = Sm4_128

primrec sm4_bits_u16 :: "sm4_key_bits \<Rightarrow> u16" where
  "sm4_bits_u16 Sm4_128 = 128"

definition sm4_bits_try_from :: "u16 \<Rightarrow> sm4_key_bits tss" where
  "sm4_bits_try_from w =
     (if w = 128 then Inr Sm4_128
      else local_error InvalidParam)"

interpretation sm4_bits_codes: tss_codes sm4_bits_u16 sm4_bits_try_from
proof unfold_locales
  show "sm4_bits_try_from (sm4_bits_u16 x) = Inr x" for x by (cases x) (simp_all add: sm4_bits_try_from_def)
  show "sm4_bits_u16 x = w" if "sm4_bits_try_from w = Inr x" for w x
    using that by (auto simp: sm4_bits_try_from_def split: if_splits)
qed

datatype camellia_key_bits = Camellia128 | Camellia192 | Camellia256

primrec camellia_bits_u16 :: "camellia_key_bits \<Rightarrow> u16" where
  "camellia_bits_u16 Camellia128 = 128"
| "camellia_bits_u16 Camellia192 = 192"
| "camellia_bits_u16 Camellia256 = 256"

definition camellia_bits_try_from :: "u16 \<Rightarrow> camellia_key_bits tss" where
  "camellia_bits_try_from w =
     (if w = 128 then Inr Camellia128
      else if w = 192 then Inr Camellia192
      else if w = 256 then Inr Camellia256
      else local_error InvalidParam)"

interpretation camellia_bits_codes: tss_codes camellia_bits_u16 camellia_bits_try_from
proof unfold_locales
  show "camellia_bits_try_from (camellia_bits_u16 x) = Inr x" for x by (cases x) (simp_all add: camellia_bits_try_from_def)
  show "camellia_bits_u16 x = w" if "camellia_bits_try_from w = Inr x" for w x
    using that by (auto simp: camellia_bits_try_from_def split: if_splits)
qed

datatype rsa_key_bits = Rsa1024 | Rsa2048 | Rsa3072 | Rsa4096

primrec rsa_bits_u16 :: "rsa_key_bits \<Rightarrow> u16" where
  "rsa_bits_u16 Rsa1024 = 1024"
| "rsa_bits_u16 Rsa2048 = 2048"
| "rsa_bits_u16 Rsa3072 = 3072"
| "rsa_bits_u16 Rsa4096 = 4096"

definition rsa_bits_try_from :: "u16 \<Rightarrow> rsa_key_bits tss" where
  "rsa_bits_try_from w =
     (if w = 1024 then Inr Rsa1024
      else if w = 2048 then Inr Rsa2048
      else if w = 3072 then Inr Rsa3072
      else if w = 4096 then Inr Rsa4096
      else local_error InvalidParam)"

interpretation rsa_bits_codes: tss_codes rsa_bits_u16 rsa_bits_try_from
proof unfold_locales
  show "rsa_bits_try_from (rsa_bits_u16 x) = Inr x" for x by (cases x) (simp_all add: rsa_bits_try_from_def)
  show "rsa_bits_u16 x = w" if "rsa_bits_try_from w = Inr x" for w x
    using that by (auto simp: rsa_bits_try_from_def split: if_splits)
qed

section \<open>Elliptic curves\<close>

text \<open>The identifiers of the constants and the interface type have the same variants.\<close>

datatype ecc_curve_identifier = Curve_NistP192 | Curve_NistP224 | Curve_NistP256 | Curve_NistP384 | Curve_NistP521 | Curve_BnP256 | Curve_BnP638 | Curve_Sm2P256

primrec curve_identifier_u16 :: "ecc_curve_identifier \<Rightarrow> u16" where
  "curve_identifier_u16 Curve_NistP192 = 1"
| "curve_identifier_u16 Curve_NistP224 = 2"
| "curve_identifier_u16 Curve_NistP256 = 3"
| "curve_identifier_u16 Curve_NistP384 = 4"
| "curve_identifier_u16 Curve_NistP521 = 5"
| "curve_identifier_u16 Curve_BnP256 = 0x10"
| "curve_identifier_u16 Curve_BnP638 = 0x11"
| "curve_identifier_u16 Curve_Sm2P256 = 0x20"

definition all_curve_identifiers :: "ecc_curve_identifier list" where
  "all_curve_identifiers = [
     Curve_NistP192, Curve_NistP224, Curve_NistP256, Curve_NistP384, Curve_NistP521, Curve_BnP256, Curve_BnP638, Curve_Sm2P256]"

definition curve_identifier_try_from :: "u16 \<Rightarrow> ecc_curve_identifier tss" where
  "curve_identifier_try_from w =
     some_or InvalidParam (List.find (\<lambda>c. curve_identifier_u16 c = w) all_curve_identifiers)"

datatype ecc_curve = NistP192 | NistP224 | NistP256 | NistP384 | NistP521 | BnP256 | BnP638 | Sm2P256

primrec curve_identifier :: "ecc_curve \<Rightarrow> ecc_curve_identifier" where
  "curve_identifier NistP192 = Curve_NistP192"
| "curve_identifier NistP224 = Curve_NistP224"
| "curve_identifier NistP256 = Curve_NistP256"
| "curve_identifier NistP384 = Curve_NistP384"
| "curve_identifier NistP521 = Curve_NistP521"
| "curve_identifier BnP256 = Curve_BnP256"
| "curve_identifier BnP638 = Curve_BnP638"
| "curve_identifier Sm2P256 = Curve_Sm2P256"

primrec curve_of_identifier :: "ecc_curve_identifier \<Rightarrow> ecc_curve" where
  "curve_of_identifier Curve_NistP192 = NistP192"
| "curve_of_identifier Curve_NistP224 = NistP224"
| "curve_of_identifier Curve_NistP256 = NistP256"
| "curve_of_identifier Curve_NistP384 = NistP384"
| "curve_of_identifier Curve_NistP521 = NistP521"
| "curve_of_identifier Curve_BnP256 = BnP256"
| "curve_of_identifier Curve_BnP638 = BnP638"
| "curve_of_identifier Curve_Sm2P256 = Sm2P256"

definition curve_u16 :: "ecc_curve \<Rightarrow> u16" where
  "curve_u16 c = curve_identifier_u16 (curve_identifier c)"

definition curve_try_from :: "u16 \<Rightarrow> ecc_curve tss" where
  "curve_try_from w = map_ok curve_of_identifier (curve_identifier_try_from w)"

interpretation curve_codes: tss_codes curve_u16 curve_try_from
proof unfold_locales
  show "curve_try_from (curve_u16 x) = Inr x" for x
    by (cases x) (simp_all add: curve_try_from_def curve_u16_def curve_identifier_try_from_def
        all_curve_identifiers_def some_or_def)
  show "curve_u16 x = w" if d: "curve_try_from w = Inr x" for w x
  proof -
    obtain i where i: "curve_identifier_u16 i = w" "curve_of_identifier i = x"
      using d by (auto simp: curve_try_from_def curve_identifier_try_from_def find_Some_iff)
    then show ?thesis by (cases i) (auto simp: curve_u16_def)
  qed
qed

text \<open>Every code of these types is decoded to the value it came from.\<close>

lemmas tss_codes_roundtrip [simp] =
  khs_codes.decode_code
  kdf_codes.decode_code
  sym_codes.decode_code
  mode_codes.decode_code
  asym_codes.decode_code
  obj_codes.decode_code
  pub_codes.decode_code
  rsa_alg_codes.decode_code
  ecc_alg_codes.decode_code
  dec_alg_codes.decode_code
  aes_bits_codes.decode_code
  sm4_bits_codes.decode_code
  camellia_bits_codes.decode_code
  rsa_bits_codes.decode_code
  curve_codes.decode_code

end
