(* ===== verification/Tss_Schemes.thy ===== *)
theory Tss_Schemes
  imports Tss_Algorithms
begin

text \<open>
  Schemes of keys and signatures (\<open>structures/schemes.rs\<close>, \<open>structures/tagged/schemes.rs\<close>) and
  symmetric definitions (\<open>structures/tagged/symmetric.rs\<close>). Every member of the unions of these
  C structures is a prefix of two 16-bit words, so a union is a pair of words; what a
  conversion to it does not set is zero.
\<close>

section \<open>The parts of schemes\<close>

type_synonym scheme_union = "u16 \<times> u16"
type_synonym tpmt_scheme = "u16 \<times> scheme_union"

text \<open>\<open>HashScheme\<close> and \<open>HmacScheme\<close> hold an algorithm and nothing else.\<close>

type_synonym hash_scheme = hashing_algorithm
type_synonym hmac_scheme = hashing_algorithm

definition hash_scheme_to_tss :: "hash_scheme \<Rightarrow> scheme_union" where
  "hash_scheme_to_tss h = (hash_alg_u16 h, 0)"

definition hash_scheme_try_from :: "scheme_union \<Rightarrow> hash_scheme tss" where
  "hash_scheme_try_from u = hash_alg_try_from (fst u)"

record xor_scheme =
  xor_hash :: hashing_algorithm
  xor_kdf :: key_derivation_function

definition xor_scheme_to_tss :: "xor_scheme \<Rightarrow> scheme_union" where
  "xor_scheme_to_tss x = (hash_alg_u16 (xor_hash x), kdf_u16 (xor_kdf x))"

definition xor_scheme_try_from :: "scheme_union \<Rightarrow> xor_scheme tss" where
  "xor_scheme_try_from u = bnd (hash_alg_try_from (fst u)) (\<lambda>h. bnd (kdf_try_from (snd u)) (\<lambda>k.
     Inr \<lparr> xor_hash = h, xor_kdf = k \<rparr>))"

record ecdaa_scheme =
  ecdaa_hash :: hashing_algorithm
  ecdaa_count :: u16

definition ecdaa_scheme_to_tss :: "ecdaa_scheme \<Rightarrow> scheme_union" where
  "ecdaa_scheme_to_tss x = (hash_alg_u16 (ecdaa_hash x), ecdaa_count x)"

definition ecdaa_scheme_try_from :: "scheme_union \<Rightarrow> ecdaa_scheme tss" where
  "ecdaa_scheme_try_from u = bnd (hash_alg_try_from (fst u)) (\<lambda>h.
     Inr \<lparr> ecdaa_hash = h, ecdaa_count = snd u \<rparr>)"

lemma scheme_parts_roundtrip [simp]:
  "hash_scheme_try_from (hash_scheme_to_tss h) = Inr h"
  "xor_scheme_try_from (xor_scheme_to_tss x) = Inr x"
  "ecdaa_scheme_try_from (ecdaa_scheme_to_tss d) = Inr d"
  by (simp_all add: hash_scheme_try_from_def hash_scheme_to_tss_def xor_scheme_try_from_def
      xor_scheme_to_tss_def ecdaa_scheme_try_from_def ecdaa_scheme_to_tss_def)

section \<open>Keyed hash\<close>

datatype keyed_hash_scheme = XorScheme xor_scheme | HmacScheme hmac_scheme | NullKeyedHash

definition keyed_hash_scheme_to_tss :: "keyed_hash_scheme \<Rightarrow> tpmt_scheme" where
  "keyed_hash_scheme_to_tss s = (case s of
       XorScheme x \<Rightarrow> (keyed_hash_alg_u16 Khs_Xor, xor_scheme_to_tss x)
     | HmacScheme h \<Rightarrow> (keyed_hash_alg_u16 Khs_Hmac, hash_scheme_to_tss h)
     | NullKeyedHash \<Rightarrow> (keyed_hash_alg_u16 Khs_Null, (0, 0)))"

definition keyed_hash_scheme_try_from :: "tpmt_scheme \<Rightarrow> keyed_hash_scheme tss" where
  "keyed_hash_scheme_try_from t = bnd (keyed_hash_alg_try_from (fst t)) (\<lambda>a. case a of
       Khs_Xor \<Rightarrow> map_ok XorScheme (xor_scheme_try_from (snd t))
     | Khs_Hmac \<Rightarrow> map_ok HmacScheme (hash_scheme_try_from (snd t))
     | Khs_Null \<Rightarrow> Inr NullKeyedHash)"

lemma keyed_hash_scheme_roundtrip [simp]:
  "keyed_hash_scheme_try_from (keyed_hash_scheme_to_tss s) = Inr s"
  by (cases s) (simp_all add: keyed_hash_scheme_try_from_def keyed_hash_scheme_to_tss_def)

section \<open>RSA\<close>

datatype rsa_scheme =
    RsaSsaScheme hash_scheme | RsaEsScheme | RsaPssScheme hash_scheme | OaepScheme hash_scheme | NullRsa

primrec rsa_scheme_alg :: "rsa_scheme \<Rightarrow> rsa_scheme_algorithm" where
  "rsa_scheme_alg (RsaSsaScheme h) = RsaAlg_RsaSsa"
| "rsa_scheme_alg RsaEsScheme = RsaAlg_RsaEs"
| "rsa_scheme_alg (RsaPssScheme h) = RsaAlg_RsaPss"
| "rsa_scheme_alg (OaepScheme h) = RsaAlg_Oaep"
| "rsa_scheme_alg NullRsa = RsaAlg_Null"

definition rsa_scheme_create :: "rsa_scheme_algorithm \<Rightarrow> hashing_algorithm option \<Rightarrow> rsa_scheme tss" where
  "rsa_scheme_create a h = (case a of
       RsaAlg_RsaSsa \<Rightarrow> map_ok RsaSsaScheme (some_or InconsistentParams h)
     | RsaAlg_RsaEs \<Rightarrow> (if h = None then Inr RsaEsScheme else local_error InconsistentParams)
     | RsaAlg_RsaPss \<Rightarrow> map_ok RsaPssScheme (some_or InconsistentParams h)
     | RsaAlg_Oaep \<Rightarrow> map_ok OaepScheme (some_or InconsistentParams h)
     | RsaAlg_Null \<Rightarrow> (if h = None then Inr NullRsa else local_error InconsistentParams))"

definition rsa_scheme_to_tss :: "rsa_scheme \<Rightarrow> tpmt_scheme" where
  "rsa_scheme_to_tss s = (rsa_scheme_alg_u16 (rsa_scheme_alg s), (case s of
       RsaSsaScheme h \<Rightarrow> hash_scheme_to_tss h
     | RsaEsScheme \<Rightarrow> (0, 0)
     | RsaPssScheme h \<Rightarrow> hash_scheme_to_tss h
     | OaepScheme h \<Rightarrow> hash_scheme_to_tss h
     | NullRsa \<Rightarrow> (0, 0)))"

definition rsa_scheme_try_from :: "tpmt_scheme \<Rightarrow> rsa_scheme tss" where
  "rsa_scheme_try_from t = bnd (rsa_scheme_alg_try_from (fst t)) (\<lambda>a. case a of
       RsaAlg_RsaSsa \<Rightarrow> map_ok RsaSsaScheme (hash_scheme_try_from (snd t))
     | RsaAlg_RsaEs \<Rightarrow> Inr RsaEsScheme
     | RsaAlg_RsaPss \<Rightarrow> map_ok RsaPssScheme (hash_scheme_try_from (snd t))
     | RsaAlg_Oaep \<Rightarrow> map_ok OaepScheme (hash_scheme_try_from (snd t))
     | RsaAlg_Null \<Rightarrow> Inr NullRsa)"

lemma rsa_scheme_roundtrip [simp]: "rsa_scheme_try_from (rsa_scheme_to_tss s) = Inr s"
  by (cases s) (simp_all add: rsa_scheme_try_from_def rsa_scheme_to_tss_def)

lemma rsa_scheme_create_algorithm: "rsa_scheme_create a h = Inr s \<Longrightarrow> rsa_scheme_alg s = a"
  by (cases a) (auto simp: rsa_scheme_create_def split: if_splits)

datatype rsa_decryption_scheme = RsaEsDecrypt | OaepDecrypt hash_scheme | NullDecrypt

primrec rsa_decryption_algorithm :: "rsa_decryption_scheme \<Rightarrow> rsa_decrypt_algorithm" where
  "rsa_decryption_algorithm RsaEsDecrypt = DecAlg_RsaEs"
| "rsa_decryption_algorithm (OaepDecrypt h) = DecAlg_Oaep"
| "rsa_decryption_algorithm NullDecrypt = DecAlg_Null"

definition rsa_decryption_create ::
  "rsa_decrypt_algorithm \<Rightarrow> hashing_algorithm option \<Rightarrow> rsa_decryption_scheme tss" where
  "rsa_decryption_create a h = (case a of
       DecAlg_RsaEs \<Rightarrow> (if h = None then Inr RsaEsDecrypt else local_error InconsistentParams)
     | DecAlg_Oaep \<Rightarrow> map_ok OaepDecrypt (some_or ParamsMissing h)
     | DecAlg_Null \<Rightarrow> (if h = None then Inr NullDecrypt else local_error InconsistentParams))"

definition rsa_decryption_to_tss :: "rsa_decryption_scheme \<Rightarrow> tpmt_scheme" where
  "rsa_decryption_to_tss s = (rsa_decrypt_alg_u16 (rsa_decryption_algorithm s), (case s of
       RsaEsDecrypt \<Rightarrow> (0, 0) | OaepDecrypt h \<Rightarrow> hash_scheme_to_tss h | NullDecrypt \<Rightarrow> (0, 0)))"

definition rsa_decryption_try_from :: "tpmt_scheme \<Rightarrow> rsa_decryption_scheme tss" where
  "rsa_decryption_try_from t = bnd (rsa_decrypt_alg_try_from (fst t)) (\<lambda>a. case a of
       DecAlg_RsaEs \<Rightarrow> Inr RsaEsDecrypt
     | DecAlg_Oaep \<Rightarrow> map_ok OaepDecrypt (hash_scheme_try_from (snd t))
     | DecAlg_Null \<Rightarrow> Inr NullDecrypt)"

definition rsa_decryption_of_scheme :: "rsa_scheme \<Rightarrow> rsa_decryption_scheme tss" where
  "rsa_decryption_of_scheme s = (case s of
       RsaEsScheme \<Rightarrow> Inr RsaEsDecrypt
     | OaepScheme h \<Rightarrow> Inr (OaepDecrypt h)
     | NullRsa \<Rightarrow> Inr NullDecrypt
     | _ \<Rightarrow> local_error InvalidParam)"

lemma rsa_decryption_roundtrip [simp]: "rsa_decryption_try_from (rsa_decryption_to_tss s) = Inr s"
  by (cases s) (simp_all add: rsa_decryption_try_from_def rsa_decryption_to_tss_def)

text \<open>A scheme that serves decryption has the same C structure as the decryption scheme it becomes.\<close>

lemma alg_codes_shared: "rsa_decrypt_alg_u16 DecAlg_RsaEs = rsa_scheme_alg_u16 RsaAlg_RsaEs"
    "rsa_decrypt_alg_u16 DecAlg_Oaep = rsa_scheme_alg_u16 RsaAlg_Oaep"
    "rsa_decrypt_alg_u16 DecAlg_Null = rsa_scheme_alg_u16 RsaAlg_Null"
  by (simp_all add: rsa_decrypt_alg_u16_def rsa_scheme_alg_u16_def)

lemma rsa_decryption_same_structure:
  "rsa_decryption_of_scheme s = Inr d \<Longrightarrow> rsa_decryption_to_tss d = rsa_scheme_to_tss s"
  by (cases s) (auto simp: rsa_decryption_of_scheme_def rsa_decryption_to_tss_def rsa_scheme_to_tss_def alg_codes_shared)

section \<open>Elliptic curves\<close>

datatype ecc_scheme =
    EcDsaScheme hash_scheme | EcDhScheme hash_scheme | EcDaaScheme ecdaa_scheme | Sm2Scheme hash_scheme
  | EcSchnorrScheme hash_scheme | EcMqvScheme hash_scheme | NullEcc

primrec ecc_scheme_alg :: "ecc_scheme \<Rightarrow> ecc_scheme_algorithm" where
  "ecc_scheme_alg (EcDsaScheme h) = EccAlg_EcDsa"
| "ecc_scheme_alg (EcDhScheme h) = EccAlg_EcDh"
| "ecc_scheme_alg (EcDaaScheme d) = EccAlg_EcDaa"
| "ecc_scheme_alg (Sm2Scheme h) = EccAlg_Sm2"
| "ecc_scheme_alg (EcSchnorrScheme h) = EccAlg_EcSchnorr"
| "ecc_scheme_alg (EcMqvScheme h) = EccAlg_EcMqv"
| "ecc_scheme_alg NullEcc = EccAlg_Null"

definition ecc_scheme_create ::
  "ecc_scheme_algorithm \<Rightarrow> hashing_algorithm option \<Rightarrow> u16 option \<Rightarrow> ecc_scheme tss" where
  "ecc_scheme_create a h n = (case a of
       EccAlg_EcDsa \<Rightarrow> map_ok EcDsaScheme (some_or ParamsMissing h)
     | EccAlg_EcDh \<Rightarrow> map_ok EcDhScheme (some_or ParamsMissing h)
     | EccAlg_EcDaa \<Rightarrow> bnd (some_or ParamsMissing h) (\<lambda>g. bnd (some_or ParamsMissing n) (\<lambda>k.
         Inr (EcDaaScheme \<lparr> ecdaa_hash = g, ecdaa_count = k \<rparr>)))
     | EccAlg_Sm2 \<Rightarrow> map_ok Sm2Scheme (some_or ParamsMissing h)
     | EccAlg_EcSchnorr \<Rightarrow> map_ok EcSchnorrScheme (some_or ParamsMissing h)
     | EccAlg_EcMqv \<Rightarrow> map_ok EcMqvScheme (some_or ParamsMissing h)
     | EccAlg_Null \<Rightarrow> (if h = None then Inr NullEcc else local_error InconsistentParams))"

definition ecc_scheme_to_tss :: "ecc_scheme \<Rightarrow> tpmt_scheme" where
  "ecc_scheme_to_tss s = (ecc_scheme_alg_u16 (ecc_scheme_alg s), (case s of
       EcDsaScheme h \<Rightarrow> hash_scheme_to_tss h
     | EcDhScheme h \<Rightarrow> hash_scheme_to_tss h
     | EcDaaScheme d \<Rightarrow> ecdaa_scheme_to_tss d
     | Sm2Scheme h \<Rightarrow> hash_scheme_to_tss h
     | EcSchnorrScheme h \<Rightarrow> hash_scheme_to_tss h
     | EcMqvScheme h \<Rightarrow> hash_scheme_to_tss h
     | NullEcc \<Rightarrow> (0, 0)))"

definition ecc_scheme_try_from :: "tpmt_scheme \<Rightarrow> ecc_scheme tss" where
  "ecc_scheme_try_from t = bnd (ecc_scheme_alg_try_from (fst t)) (\<lambda>a. case a of
       EccAlg_EcDsa \<Rightarrow> map_ok EcDsaScheme (hash_scheme_try_from (snd t))
     | EccAlg_EcDh \<Rightarrow> map_ok EcDhScheme (hash_scheme_try_from (snd t))
     | EccAlg_EcDaa \<Rightarrow> map_ok EcDaaScheme (ecdaa_scheme_try_from (snd t))
     | EccAlg_Sm2 \<Rightarrow> map_ok Sm2Scheme (hash_scheme_try_from (snd t))
     | EccAlg_EcSchnorr \<Rightarrow> map_ok EcSchnorrScheme (hash_scheme_try_from (snd t))
     | EccAlg_EcMqv \<Rightarrow> map_ok EcMqvScheme (hash_scheme_try_from (snd t))
     | EccAlg_Null \<Rightarrow> Inr NullEcc)"

lemma ecc_scheme_roundtrip [simp]: "ecc_scheme_try_from (ecc_scheme_to_tss s) = Inr s"
  by (cases s) (simp_all add: ecc_scheme_try_from_def ecc_scheme_to_tss_def)

lemma ecc_scheme_create_algorithm: "ecc_scheme_create a h n = Inr s \<Longrightarrow> ecc_scheme_alg s = a"
  by (cases a) (auto simp: ecc_scheme_create_def split: if_splits)

datatype kdf_scheme =
    Kdf1Sp800_56aScheme hash_scheme | Kdf2Scheme hash_scheme | Kdf1Sp800_108Scheme hash_scheme
  | Mgf1Scheme hash_scheme | NullKdf

definition kdf_scheme_to_tss :: "kdf_scheme \<Rightarrow> tpmt_scheme" where
  "kdf_scheme_to_tss s = (case s of
       Kdf1Sp800_56aScheme h \<Rightarrow> (kdf_u16 Kdf_Kdf1Sp800_56a, hash_scheme_to_tss h)
     | Kdf2Scheme h \<Rightarrow> (kdf_u16 Kdf_Kdf2, hash_scheme_to_tss h)
     | Kdf1Sp800_108Scheme h \<Rightarrow> (kdf_u16 Kdf_Kdf1Sp800_108, hash_scheme_to_tss h)
     | Mgf1Scheme h \<Rightarrow> (kdf_u16 Kdf_Mgf1, hash_scheme_to_tss h)
     | NullKdf \<Rightarrow> (kdf_u16 Kdf_Null, (0, 0)))"

definition kdf_scheme_try_from :: "tpmt_scheme \<Rightarrow> kdf_scheme tss" where
  "kdf_scheme_try_from t = bnd (kdf_try_from (fst t)) (\<lambda>a. case a of
       Kdf_Kdf1Sp800_56a \<Rightarrow> map_ok Kdf1Sp800_56aScheme (hash_scheme_try_from (snd t))
     | Kdf_Kdf2 \<Rightarrow> map_ok Kdf2Scheme (hash_scheme_try_from (snd t))
     | Kdf_Kdf1Sp800_108 \<Rightarrow> map_ok Kdf1Sp800_108Scheme (hash_scheme_try_from (snd t))
     | Kdf_Mgf1 \<Rightarrow> map_ok Mgf1Scheme (hash_scheme_try_from (snd t))
     | Kdf_Null \<Rightarrow> Inr NullKdf)"

lemma kdf_scheme_roundtrip [simp]: "kdf_scheme_try_from (kdf_scheme_to_tss s) = Inr s"
  by (cases s) (simp_all add: kdf_scheme_try_from_def kdf_scheme_to_tss_def)

section \<open>Signatures\<close>

datatype signature_scheme =
    RsaSsaSig hash_scheme | RsaPssSig hash_scheme | EcDsaSig hash_scheme | Sm2Sig hash_scheme
  | EcSchnorrSig hash_scheme | EcDaaSig ecdaa_scheme | HmacSig hmac_scheme | NullSig

text \<open>The hash of a signing scheme, read and replaced through the member common to all of them.\<close>

definition signing_scheme :: "signature_scheme \<Rightarrow> hashing_algorithm tss" where
  "signing_scheme s = (case s of
       RsaSsaSig h \<Rightarrow> Inr h | RsaPssSig h \<Rightarrow> Inr h | EcDsaSig h \<Rightarrow> Inr h | Sm2Sig h \<Rightarrow> Inr h
     | EcSchnorrSig h \<Rightarrow> Inr h
     | EcDaaSig d \<Rightarrow> Inr (ecdaa_hash d)
     | _ \<Rightarrow> local_error InvalidParam)"

definition set_signing_scheme :: "signature_scheme \<Rightarrow> hashing_algorithm \<Rightarrow> signature_scheme tss" where
  "set_signing_scheme s g = (case s of
       RsaSsaSig h \<Rightarrow> Inr (RsaSsaSig g) | RsaPssSig h \<Rightarrow> Inr (RsaPssSig g)
     | EcDsaSig h \<Rightarrow> Inr (EcDsaSig g) | Sm2Sig h \<Rightarrow> Inr (Sm2Sig g)
     | EcSchnorrSig h \<Rightarrow> Inr (EcSchnorrSig g)
     | EcDaaSig d \<Rightarrow> Inr (EcDaaSig \<lparr> ecdaa_hash = g, ecdaa_count = ecdaa_count d \<rparr>)
     | _ \<Rightarrow> local_error InvalidParam)"

definition signature_scheme_to_tss :: "signature_scheme \<Rightarrow> tpmt_scheme" where
  "signature_scheme_to_tss s = (case s of
       EcDaaSig d \<Rightarrow> (alg_id_u16 (signature_scheme_id Sig_EcDaa), ecdaa_scheme_to_tss d)
     | EcDsaSig h \<Rightarrow> (alg_id_u16 (signature_scheme_id Sig_EcDsa), hash_scheme_to_tss h)
     | EcSchnorrSig h \<Rightarrow> (alg_id_u16 (signature_scheme_id Sig_EcSchnorr), hash_scheme_to_tss h)
     | HmacSig h \<Rightarrow> (alg_id_u16 (signature_scheme_id Sig_Hmac), hash_scheme_to_tss h)
     | NullSig \<Rightarrow> (alg_id_u16 (signature_scheme_id Sig_Null), (0, 0))
     | RsaPssSig h \<Rightarrow> (alg_id_u16 (signature_scheme_id Sig_RsaPss), hash_scheme_to_tss h)
     | RsaSsaSig h \<Rightarrow> (alg_id_u16 (signature_scheme_id Sig_RsaSsa), hash_scheme_to_tss h)
     | Sm2Sig h \<Rightarrow> (alg_id_u16 (signature_scheme_id Sig_Sm2), hash_scheme_to_tss h))"

definition signature_scheme_of_tss :: "tpmt_scheme \<Rightarrow> signature_scheme tss" where
  "signature_scheme_of_tss t = bnd (signature_scheme_try_from (fst t)) (\<lambda>a. case a of
       Sig_EcDaa \<Rightarrow> map_ok EcDaaSig (ecdaa_scheme_try_from (snd t))
     | Sig_EcDsa \<Rightarrow> map_ok EcDsaSig (hash_scheme_try_from (snd t))
     | Sig_EcSchnorr \<Rightarrow> map_ok EcSchnorrSig (hash_scheme_try_from (snd t))
     | Sig_Hmac \<Rightarrow> map_ok HmacSig (hash_scheme_try_from (snd t))
     | Sig_Null \<Rightarrow> Inr NullSig
     | Sig_RsaPss \<Rightarrow> map_ok RsaPssSig (hash_scheme_try_from (snd t))
     | Sig_RsaSsa \<Rightarrow> map_ok RsaSsaSig (hash_scheme_try_from (snd t))
     | Sig_Sm2 \<Rightarrow> map_ok Sm2Sig (hash_scheme_try_from (snd t)))"

lemma signature_scheme_of_tss_roundtrip [simp]:
  "signature_scheme_of_tss (signature_scheme_to_tss s) = Inr s"
  by (cases s) (simp_all add: signature_scheme_of_tss_def signature_scheme_to_tss_def
      del: signature_scheme_id.simps)

lemma signing_scheme_set:
  "set_signing_scheme s g = Inr t \<Longrightarrow> signing_scheme t = Inr g"
  "is_ok (set_signing_scheme s g) \<longleftrightarrow> is_ok (signing_scheme s)"
  by (cases s, auto simp: set_signing_scheme_def signing_scheme_def local_error_def)+

section \<open>Symmetric definitions\<close>

type_synonym tpmt_sym_def = "u16 \<times> u16 \<times> u16"

datatype symmetric_definition =
    SymAes aes_key_bits symmetric_mode | SymSm4 sm4_key_bits symmetric_mode
  | SymCamellia camellia_key_bits symmetric_mode | SymXor hashing_algorithm | SymNull

definition symmetric_definition_to_tss :: "symmetric_definition \<Rightarrow> tpmt_sym_def tss" where
  "symmetric_definition_to_tss s = (case s of
       SymAes k m \<Rightarrow> Inr (symmetric_u16 Sym_Aes, aes_bits_u16 k, mode_u16 m)
     | SymSm4 k m \<Rightarrow> Inr (symmetric_u16 Sym_Sm4, sm4_bits_u16 k, mode_u16 m)
     | SymCamellia k m \<Rightarrow> Inr (symmetric_u16 Sym_Camellia, camellia_bits_u16 k, mode_u16 m)
     | SymXor h \<Rightarrow> (if h \<noteq> AlgNull then Inr (symmetric_u16 Sym_Xor, hash_alg_u16 h, 0)
                   else local_error InvalidParam)
     | SymNull \<Rightarrow> Inr (symmetric_u16 Sym_Null, 0, 0))"

definition symmetric_definition_try_from :: "tpmt_sym_def \<Rightarrow> symmetric_definition tss" where
  "symmetric_definition_try_from t = (case t of (alg, bits, md) \<Rightarrow>
     bnd (symmetric_try_from alg) (\<lambda>a. case a of
       Sym_Aes \<Rightarrow> bnd (aes_bits_try_from bits) (\<lambda>k. map_ok (SymAes k) (mode_try_from md))
     | Sym_Sm4 \<Rightarrow> bnd (sm4_bits_try_from bits) (\<lambda>k. map_ok (SymSm4 k) (mode_try_from md))
     | Sym_Camellia \<Rightarrow> bnd (camellia_bits_try_from bits) (\<lambda>k. map_ok (SymCamellia k) (mode_try_from md))
     | Sym_Xor \<Rightarrow> bnd (hash_alg_try_from bits) (\<lambda>h.
         if h \<noteq> AlgNull then Inr (SymXor h) else local_error InvalidParam)
     | Sym_Null \<Rightarrow> Inr SymNull
     | Sym_Tdes \<Rightarrow> local_error WrongValueFromTpm))"

lemma symmetric_definition_roundtrip:
  "symmetric_definition_to_tss s = Inr t \<Longrightarrow> symmetric_definition_try_from t = Inr s"
  by (cases s) (auto simp: symmetric_definition_to_tss_def symmetric_definition_try_from_def split: if_splits)

datatype symmetric_definition_object =
    ObjAes aes_key_bits symmetric_mode | ObjSm4 sm4_key_bits symmetric_mode
  | ObjCamellia camellia_key_bits symmetric_mode | ObjNull

primrec symmetric_object_to_tss :: "symmetric_definition_object \<Rightarrow> tpmt_sym_def" where
  "symmetric_object_to_tss (ObjAes k m) = (symmetric_u16 Sym_Aes, aes_bits_u16 k, mode_u16 m)"
| "symmetric_object_to_tss (ObjSm4 k m) = (symmetric_u16 Sym_Sm4, sm4_bits_u16 k, mode_u16 m)"
| "symmetric_object_to_tss (ObjCamellia k m) = (symmetric_u16 Sym_Camellia, camellia_bits_u16 k, mode_u16 m)"
| "symmetric_object_to_tss ObjNull = (symmetric_u16 Sym_Null, 0, 0)"

primrec symmetric_of_object :: "symmetric_definition_object \<Rightarrow> symmetric_definition" where
  "symmetric_of_object (ObjAes k m) = SymAes k m"
| "symmetric_of_object (ObjSm4 k m) = SymSm4 k m"
| "symmetric_of_object (ObjCamellia k m) = SymCamellia k m"
| "symmetric_of_object ObjNull = SymNull"

definition symmetric_object_is_null :: "symmetric_definition_object \<Rightarrow> bool" where
  "symmetric_object_is_null s \<longleftrightarrow> s = ObjNull"

definition symmetric_definition_object_try_from :: "tpmt_sym_def \<Rightarrow> symmetric_definition_object tss" where
  "symmetric_definition_object_try_from t = (case t of (alg, bits, md) \<Rightarrow>
     bnd (symmetric_object_try_from alg) (\<lambda>a. case a of
       Obj_Aes \<Rightarrow> bnd (aes_bits_try_from bits) (\<lambda>k. map_ok (ObjAes k) (mode_try_from md))
     | Obj_Sm4 \<Rightarrow> bnd (sm4_bits_try_from bits) (\<lambda>k. map_ok (ObjSm4 k) (mode_try_from md))
     | Obj_Camellia \<Rightarrow> bnd (camellia_bits_try_from bits) (\<lambda>k. map_ok (ObjCamellia k) (mode_try_from md))
     | Obj_Null \<Rightarrow> Inr ObjNull
     | Obj_Tdes \<Rightarrow> local_error WrongValueFromTpm))"

text \<open>Objects are written with the code of the algorithm type and read with that of the object type.\<close>

lemma object_codes: "symmetric_u16 Sym_Aes = symmetric_object_u16 Obj_Aes"
    "symmetric_u16 Sym_Sm4 = symmetric_object_u16 Obj_Sm4"
    "symmetric_u16 Sym_Camellia = symmetric_object_u16 Obj_Camellia"
    "symmetric_u16 Sym_Null = symmetric_object_u16 Obj_Null"
  by (simp_all add: symmetric_u16_def symmetric_object_u16_def)

lemma symmetric_object_roundtrip [simp]:
  "symmetric_definition_object_try_from (symmetric_object_to_tss s) = Inr s"
  by (cases s) (simp_all add: symmetric_definition_object_try_from_def object_codes)

lemma symmetric_of_object_structure:
  "symmetric_definition_to_tss (symmetric_of_object s) = Inr (symmetric_object_to_tss s)"
  by (cases s) (simp_all add: symmetric_definition_to_tss_def)

end
