(* ===== verification/Tss_Public.thy ===== *)
theory Tss_Public
  imports Tss_Schemes
begin

text \<open>
  Public areas of TPM objects: attributes (\<open>attributes/object.rs\<close>), the parameters of the four kinds
  of objects with the builders of RSA and ECC parameters (\<open>structures/tagged/public/\<close>,
  \<open>structures/parameters.rs\<close>, \<open>structures/tagged/parameters.rs\<close>), and the area itself
  (\<open>structures/tagged/public.rs\<close>).
\<close>

unbundle bit_operations_syntax

section \<open>Object attributes\<close>

type_synonym object_attributes = u32

datatype object_flag =
    FixedTpm | StClear | FixedParent | SensitiveDataOrigin | UserWithAuth | AdminWithPolicy | ObjectNoDa
  | EncryptedDuplication | Restricted | Decrypt | SignEncrypt | X509Sign

primrec object_flag_bit :: "object_flag \<Rightarrow> nat" where
  "object_flag_bit FixedTpm = 1"
| "object_flag_bit StClear = 2"
| "object_flag_bit FixedParent = 4"
| "object_flag_bit SensitiveDataOrigin = 5"
| "object_flag_bit UserWithAuth = 6"
| "object_flag_bit AdminWithPolicy = 7"
| "object_flag_bit ObjectNoDa = 10"
| "object_flag_bit EncryptedDuplication = 11"
| "object_flag_bit Restricted = 16"
| "object_flag_bit Decrypt = 17"
| "object_flag_bit SignEncrypt = 18"
| "object_flag_bit X509Sign = 19"

definition object_attr :: "object_attributes \<Rightarrow> object_flag \<Rightarrow> bool" where
  "object_attr a f = bit a (object_flag_bit f)"

definition set_object_attr :: "object_flag \<Rightarrow> bool \<Rightarrow> object_attributes \<Rightarrow> object_attributes" where
  "set_object_attr f b a = (if b then set_bit (object_flag_bit f) a else unset_bit (object_flag_bit f) a)"

definition new_fixed_parent_key :: object_attributes where
  "new_fixed_parent_key = fold (\<lambda>f. set_object_attr f True)
     [FixedTpm, FixedParent, SensitiveDataOrigin, UserWithAuth, Decrypt, Restricted] 0"

definition new_fixed_signing_key :: object_attributes where
  "new_fixed_signing_key = fold (\<lambda>f. set_object_attr f True)
     [FixedTpm, FixedParent, SensitiveDataOrigin, UserWithAuth, SignEncrypt] 0"

lemma object_flag_bit_less: "object_flag_bit f < 32"
  by (cases f) simp_all

lemma object_flag_bit_inject: "object_flag_bit f = object_flag_bit g \<longleftrightarrow> f = g"
  by (cases f; cases g) simp_all

lemma set_object_attr_get [simp]:
  "object_attr (set_object_attr f b a) g = (if g = f then b else object_attr a g)"
  using object_flag_bit_less [of f]
  by (auto simp: object_attr_def set_object_attr_def bit_simps object_flag_bit_inject)

lemma new_fixed_keys:
  "object_attr new_fixed_parent_key f \<longleftrightarrow>
     f \<in> {FixedTpm, FixedParent, SensitiveDataOrigin, UserWithAuth, Decrypt, Restricted}"
  "object_attr new_fixed_signing_key f \<longleftrightarrow>
     f \<in> {FixedTpm, FixedParent, SensitiveDataOrigin, UserWithAuth, SignEncrypt}"
proof -
  have "\<not> object_attr 0 f" by (simp add: object_attr_def)
  then show "object_attr new_fixed_parent_key f \<longleftrightarrow>
       f \<in> {FixedTpm, FixedParent, SensitiveDataOrigin, UserWithAuth, Decrypt, Restricted}"
    and "object_attr new_fixed_signing_key f \<longleftrightarrow>
       f \<in> {FixedTpm, FixedParent, SensitiveDataOrigin, UserWithAuth, SignEncrypt}"
    by (auto simp: new_fixed_parent_key_def new_fixed_signing_key_def)
qed

section \<open>RSA parameters\<close>

type_synonym rsa_exponent = u32

definition ZERO_EXPONENT :: rsa_exponent where "ZERO_EXPONENT = 0"

record rsa_parameters =
  rsa_symmetric :: symmetric_definition_object
  rsa_scheme :: rsa_scheme
  rsa_key_bits :: rsa_key_bits
  rsa_exponent :: rsa_exponent

record tpms_rsa_parms =
  raw_rsa_symmetric :: tpmt_sym_def
  raw_rsa_scheme :: tpmt_scheme
  raw_rsa_key_bits :: u16
  raw_rsa_exponent :: u32

definition rsa_parameters_to_tss :: "rsa_parameters \<Rightarrow> tpms_rsa_parms" where
  "rsa_parameters_to_tss p = \<lparr> raw_rsa_symmetric = symmetric_object_to_tss (rsa_symmetric p),
     raw_rsa_scheme = rsa_scheme_to_tss (rsa_scheme p), raw_rsa_key_bits = rsa_bits_u16 (rsa_key_bits p),
     raw_rsa_exponent = rsa_exponent p \<rparr>"

definition rsa_parameters_try_from :: "tpms_rsa_parms \<Rightarrow> rsa_parameters tss" where
  "rsa_parameters_try_from t =
     bnd (symmetric_definition_object_try_from (raw_rsa_symmetric t)) (\<lambda>y.
     bnd (rsa_scheme_try_from (raw_rsa_scheme t)) (\<lambda>s.
     bnd (rsa_bits_try_from (raw_rsa_key_bits t)) (\<lambda>k.
     Inr \<lparr> rsa_symmetric = y, rsa_scheme = s, rsa_key_bits = k, rsa_exponent = raw_rsa_exponent t \<rparr>)))"

lemma rsa_parameters_roundtrip [simp]: "rsa_parameters_try_from (rsa_parameters_to_tss p) = Inr p"
  by (simp add: rsa_parameters_try_from_def rsa_parameters_to_tss_def)

text \<open>The builder, with the three flags that say what the key is for.\<close>

record rsa_builder =
  rb_symmetric :: "symmetric_definition_object option"
  rb_scheme :: "rsa_scheme option"
  rb_key_bits :: "rsa_key_bits option"
  rb_exponent :: "rsa_exponent option"
  rb_signing :: bool
  rb_decryption :: bool
  rb_restricted :: bool

definition rsa_builder_new :: rsa_builder where
  "rsa_builder_new = \<lparr> rb_symmetric = None, rb_scheme = None, rb_key_bits = None, rb_exponent = None,
     rb_signing = False, rb_decryption = False, rb_restricted = False \<rparr>"

definition rsa_restricted_decryption_key ::
  "symmetric_definition_object \<Rightarrow> rsa_key_bits \<Rightarrow> rsa_exponent \<Rightarrow> rsa_builder" where
  "rsa_restricted_decryption_key y k e = \<lparr> rb_symmetric = Some y, rb_scheme = Some NullRsa,
     rb_key_bits = Some k, rb_exponent = Some e,
     rb_signing = False, rb_decryption = True, rb_restricted = True \<rparr>"

definition rsa_unrestricted_signing_key ::
  "rsa_scheme \<Rightarrow> rsa_key_bits \<Rightarrow> rsa_exponent \<Rightarrow> rsa_builder" where
  "rsa_unrestricted_signing_key s k e = \<lparr> rb_symmetric = None, rb_scheme = Some s,
     rb_key_bits = Some k, rb_exponent = Some e,
     rb_signing = True, rb_decryption = False, rb_restricted = False \<rparr>"

text \<open>Both builders check the symmetric definition alike.\<close>

definition check_symmetric :: "bool \<Rightarrow> symmetric_definition_object option \<Rightarrow> unit tss" where
  "check_symmetric storage y =
     (if storage then
        (case y of
           Some o1 \<Rightarrow> if symmetric_object_is_null o1 then local_error InconsistentParams else Inr ()
         | None \<Rightarrow> local_error ParamsMissing)
      else
        (case y of
           Some o1 \<Rightarrow> if \<not> symmetric_object_is_null o1 then local_error InconsistentParams else Inr ()
         | None \<Rightarrow> Inr ()))"

definition rsa_build :: "rsa_builder \<Rightarrow> rsa_parameters tss" where
  "rsa_build b =
     bnd (some_or ParamsMissing (rb_scheme b)) (\<lambda>s.
     bnd (some_or ParamsMissing (rb_key_bits b)) (\<lambda>k.
     bnd (check_symmetric (rb_restricted b \<and> rb_decryption b) (rb_symmetric b)) (\<lambda>_.
     let a = rsa_scheme_alg s;
         bad = (if rb_restricted b
                then (rb_signing b \<and> a \<noteq> RsaAlg_RsaPss \<and> a \<noteq> RsaAlg_RsaSsa)
                   \<or> (rb_decryption b \<and> a \<noteq> RsaAlg_Null)
                else (rb_decryption b \<and> rb_signing b \<and> a \<noteq> RsaAlg_Null)
                   \<or> (rb_signing b \<and> a \<noteq> RsaAlg_RsaPss \<and> a \<noteq> RsaAlg_RsaSsa \<and> a \<noteq> RsaAlg_Null)
                   \<or> (rb_decryption b \<and> a \<noteq> RsaAlg_RsaEs \<and> a \<noteq> RsaAlg_Oaep \<and> a \<noteq> RsaAlg_Null))
     in if bad then local_error InconsistentParams
        else Inr \<lparr> rsa_symmetric = (case rb_symmetric b of None \<Rightarrow> ObjNull | Some y \<Rightarrow> y),
                   rsa_scheme = s, rsa_key_bits = k,
                   rsa_exponent = (case rb_exponent b of None \<Rightarrow> 0 | Some e \<Rightarrow> e) \<rparr>)))"

section \<open>ECC parameters\<close>

record ecc_parameters =
  ecc_symmetric :: symmetric_definition_object
  ecc_scheme :: ecc_scheme
  ecc_curve :: ecc_curve
  ecc_kdf :: kdf_scheme

type_synonym tpms_ecc_parms = "tpmt_sym_def \<times> tpmt_scheme \<times> u16 \<times> tpmt_scheme"

definition ecc_parameters_to_tss :: "ecc_parameters \<Rightarrow> tpms_ecc_parms" where
  "ecc_parameters_to_tss p = (symmetric_object_to_tss (ecc_symmetric p), ecc_scheme_to_tss (ecc_scheme p),
     curve_u16 (ecc_curve p), kdf_scheme_to_tss (ecc_kdf p))"

definition ecc_parameters_try_from :: "tpms_ecc_parms \<Rightarrow> ecc_parameters tss" where
  "ecc_parameters_try_from t = (case t of (y, s, c, k) \<Rightarrow>
     bnd (symmetric_definition_object_try_from y) (\<lambda>y'.
     bnd (ecc_scheme_try_from s) (\<lambda>s'.
     bnd (curve_try_from c) (\<lambda>c'.
     bnd (kdf_scheme_try_from k) (\<lambda>k'.
     Inr \<lparr> ecc_symmetric = y', ecc_scheme = s', ecc_curve = c', ecc_kdf = k' \<rparr>)))))"

lemma ecc_parameters_roundtrip [simp]: "ecc_parameters_try_from (ecc_parameters_to_tss p) = Inr p"
  by (simp add: ecc_parameters_try_from_def ecc_parameters_to_tss_def)

record ecc_builder =
  eb_symmetric :: "symmetric_definition_object option"
  eb_scheme :: "ecc_scheme option"
  eb_curve :: "ecc_curve option"
  eb_kdf :: "kdf_scheme option"
  eb_signing :: bool
  eb_decryption :: bool
  eb_restricted :: bool

definition ecc_builder_new :: ecc_builder where
  "ecc_builder_new = \<lparr> eb_symmetric = None, eb_scheme = None, eb_curve = None, eb_kdf = None,
     eb_signing = False, eb_decryption = False, eb_restricted = False \<rparr>"

definition ecc_restricted_decryption_key :: "symmetric_definition_object \<Rightarrow> ecc_curve \<Rightarrow> ecc_builder" where
  "ecc_restricted_decryption_key y c = \<lparr> eb_symmetric = Some y, eb_scheme = Some NullEcc,
     eb_curve = Some c, eb_kdf = Some NullKdf,
     eb_signing = False, eb_decryption = True, eb_restricted = True \<rparr>"

definition ecc_unrestricted_signing_key :: "ecc_scheme \<Rightarrow> ecc_curve \<Rightarrow> ecc_builder" where
  "ecc_unrestricted_signing_key s c = \<lparr> eb_symmetric = None, eb_scheme = Some s,
     eb_curve = Some c, eb_kdf = Some NullKdf,
     eb_signing = True, eb_decryption = False, eb_restricted = False \<rparr>"

definition curve_serves :: "ecc_curve \<Rightarrow> ecc_scheme_algorithm \<Rightarrow> bool" where
  "curve_serves c a =
     (if c \<in> {BnP256, BnP638} \<and> a = EccAlg_EcDaa then True
      else if c = Sm2P256 \<and> a = EccAlg_Sm2 then True
      else if c \<in> {NistP192, NistP224, NistP256, NistP384, NistP521}
              \<and> a \<in> {EccAlg_EcDh, EccAlg_EcDaa, EccAlg_EcDsa, EccAlg_EcMqv, EccAlg_EcSchnorr} then True
      else a = EccAlg_Null)"

definition ecc_build :: "ecc_builder \<Rightarrow> ecc_parameters tss" where
  "ecc_build b =
     bnd (some_or ParamsMissing (eb_scheme b)) (\<lambda>s.
     bnd (some_or ParamsMissing (eb_curve b)) (\<lambda>c.
     bnd (some_or ParamsMissing (eb_kdf b)) (\<lambda>k.
     bnd (check_symmetric (eb_restricted b \<and> eb_decryption b) (eb_symmetric b)) (\<lambda>_.
     let a = ecc_scheme_alg s in
     if eb_decryption b \<and> eb_signing b then local_error InconsistentParams
     else if eb_signing b \<and> a \<noteq> EccAlg_EcDsa \<and> a \<noteq> EccAlg_EcDaa \<and> a \<noteq> EccAlg_Sm2 \<and> a \<noteq> EccAlg_EcSchnorr
     then local_error InconsistentParams
     else if eb_decryption b \<and> a \<noteq> EccAlg_Sm2 \<and> a \<noteq> EccAlg_EcDh \<and> a \<noteq> EccAlg_EcMqv \<and> a \<noteq> EccAlg_Null
     then local_error InconsistentParams
     else if \<not> curve_serves c a then local_error InconsistentParams
     else Inr \<lparr> ecc_symmetric = (case eb_symmetric b of None \<Rightarrow> ObjNull | Some y \<Rightarrow> y),
                ecc_scheme = s, ecc_curve = c, ecc_kdf = k \<rparr>))))"

end
