(* ===== verification/Tss_Public_Area.thy ===== *)
theory Tss_Public_Area
  imports Tss_Public
begin

text \<open>
  The public area of an object (\<open>structures/tagged/public.rs\<close>): a key, a keyed hash or a
  symmetric cipher object with its attributes, its parameters and the value that identifies it;
  its builder, its conversions to and from \<open>TPMT_PUBLIC\<close> and its byte form, which the C library
  writes and reads (\<open>structures/buffers/public.rs\<close>).
\<close>

section \<open>The other parameters\<close>

text \<open>Keyed hashes and ciphers have one parameter each.\<close>

type_synonym keyed_hash_parameters = keyed_hash_scheme
type_synonym symmetric_cipher_parameters = symmetric_definition_object

definition keyed_hash_parameters_to_tss :: "keyed_hash_parameters \<Rightarrow> tpmt_scheme" where
  "keyed_hash_parameters_to_tss p = keyed_hash_scheme_to_tss p"

definition keyed_hash_parameters_try_from :: "tpmt_scheme \<Rightarrow> keyed_hash_parameters tss" where
  "keyed_hash_parameters_try_from t = keyed_hash_scheme_try_from t"

definition symmetric_cipher_parameters_to_tss :: "symmetric_cipher_parameters \<Rightarrow> tpmt_sym_def" where
  "symmetric_cipher_parameters_to_tss p = symmetric_object_to_tss p"

definition symmetric_cipher_parameters_try_from :: "tpmt_sym_def \<Rightarrow> symmetric_cipher_parameters tss" where
  "symmetric_cipher_parameters_try_from t = symmetric_definition_object_try_from t"

text \<open>A point: its two coordinates, big-endian.\<close>

record ecc_point =
  point_x :: bytes
  point_y :: bytes

type_synonym tpms_ecc_point = "(u16 \<times> bytes) \<times> (u16 \<times> bytes)"

definition ecc_point_default :: ecc_point where
  "ecc_point_default = \<lparr> point_x = [], point_y = [] \<rparr>"

definition ecc_point_to_tss :: "ecc_point \<Rightarrow> tpms_ecc_point" where
  "ecc_point_to_tss p =
     (buffer_to_tss ECC_PARAMETER_MAX (point_x p), buffer_to_tss ECC_PARAMETER_MAX (point_y p))"

text \<open>\<open>TPM2B_ECC_POINT\<close>, with the size of the marshalled point.\<close>

definition ecc_point_to_tpm2b :: "ecc_point \<Rightarrow> u16 \<times> tpms_ecc_point" where
  "ecc_point_to_tpm2b p = (of_nat (2 + length (point_x p) + 2 + length (point_y p)), ecc_point_to_tss p)"

definition ecc_point_try_from :: "tpms_ecc_point \<Rightarrow> ecc_point tss" where
  "ecc_point_try_from t =
     bnd (buffer_of_tss ECC_PARAMETER_MAX (fst t)) (\<lambda>x.
     bnd (buffer_of_tss ECC_PARAMETER_MAX (snd t)) (\<lambda>y.
     Inr \<lparr> point_x = x, point_y = y \<rparr>))"

text \<open>
  RSA public keys (\<open>structures/buffers.rs\<close>): an empty one of a key's size, and the array of a key,
  whose length is tested on one side only: copying a shorter key to the array aborts.
\<close>

primrec public_key_rsa_empty :: "rsa_key_bits \<Rightarrow> bytes" where
  "public_key_rsa_empty Rsa1024 = replicate 128 0"
| "public_key_rsa_empty Rsa2048 = replicate 256 0"
| "public_key_rsa_empty Rsa3072 = replicate 384 0"
| "public_key_rsa_empty Rsa4096 = replicate 512 0"

definition public_key_rsa_array :: "nat \<Rightarrow> bytes \<Rightarrow> bytes tss" where
  "public_key_rsa_array n k =
     (if length k > n then local_error WrongParamSize
      else if length k \<noteq> n then Inl (Aborted ''copy_from_slice: lengths differ'')
      else Inr k)"

lemma public_key_rsa_array_cases:
  "is_ok (public_key_rsa_array n k) \<longleftrightarrow> length k = n"
  "aborts (public_key_rsa_array n k) \<longleftrightarrow> length k < n"
  by (auto simp: public_key_rsa_array_def is_ok_iff)

lemma ecc_point_roundtrip:
  assumes "length (point_x p) \<le> ECC_PARAMETER_MAX" and "length (point_y p) \<le> ECC_PARAMETER_MAX"
  shows "ecc_point_try_from (ecc_point_to_tss p) = Inr p"
    and "unat (fst (ecc_point_to_tpm2b p)) = 4 + length (point_x p) + length (point_y p)"
proof -
  show "ecc_point_try_from (ecc_point_to_tss p) = Inr p"
    using assms by (simp add: ecc_point_try_from_def ecc_point_to_tss_def buffer_roundtrip ECC_PARAMETER_MAX_def)
  have "2 + length (point_x p) + 2 + length (point_y p) < 65536"
    using assms by (simp add: ECC_PARAMETER_MAX_def)
  then have "unat (of_nat (2 + length (point_x p) + 2 + length (point_y p)) :: u16)
      = 2 + length (point_x p) + 2 + length (point_y p)"
    unfolding unat_of_nat by simp
  then show "unat (fst (ecc_point_to_tpm2b p)) = 4 + length (point_x p) + length (point_y p)"
    unfolding ecc_point_to_tpm2b_def by simp
qed

section \<open>The area\<close>

record public_head =
  object_attributes :: object_attributes
  name_hashing_algorithm :: hashing_algorithm
  public_auth_policy :: bytes

datatype public_area =
    PublicRsa public_head rsa_parameters bytes
  | PublicKeyedHash public_head keyed_hash_parameters bytes
  | PublicEcc public_head ecc_parameters ecc_point
  | PublicSymCipher public_head symmetric_cipher_parameters bytes

primrec public_head_of :: "public_area \<Rightarrow> public_head" where
  "public_head_of (PublicRsa h p u) = h"
| "public_head_of (PublicKeyedHash h k u) = h"
| "public_head_of (PublicEcc h e pt) = h"
| "public_head_of (PublicSymCipher h s u) = h"

definition public_symmetric_algorithm :: "public_area \<Rightarrow> symmetric_definition_object option" where
  "public_symmetric_algorithm p = (case p of
       PublicRsa _ r _ \<Rightarrow> Some (rsa_symmetric r)
     | PublicKeyedHash _ _ _ \<Rightarrow> None
     | PublicEcc _ e _ \<Rightarrow> Some (ecc_symmetric e)
     | PublicSymCipher _ s _ \<Rightarrow> Some s)"

text \<open>The unions of \<open>TPMT_PUBLIC\<close>, with a constructor per member.\<close>

datatype tpmu_public_parms =
    Raw_Rsa_Detail tpms_rsa_parms | Raw_KeyedHash_Detail tpmt_scheme
  | Raw_Ecc_Detail tpms_ecc_parms | Raw_Sym_Detail tpmt_sym_def

datatype tpmu_public_id =
    Raw_Id_Rsa "u16 \<times> bytes" | Raw_Id_KeyedHash "u16 \<times> bytes"
  | Raw_Id_Ecc tpms_ecc_point | Raw_Id_Sym "u16 \<times> bytes"

record tpmt_public =
  raw_public_type :: u16
  raw_public_name_alg :: u16
  raw_object_attributes :: u32
  raw_public_auth_policy :: "u16 \<times> bytes"
  raw_public_parameters :: tpmu_public_parms
  raw_public_unique :: tpmu_public_id

definition public_to_tss :: "public_area \<Rightarrow> tpmt_public" where
  "public_to_tss p =
     (let h = public_head_of p;
          fill = (\<lambda>a ps u. \<lparr> raw_public_type = public_alg_u16 a,
            raw_public_name_alg = hash_alg_u16 (name_hashing_algorithm h),
            raw_object_attributes = object_attributes h,
            raw_public_auth_policy = buffer_to_tss DIGEST_MAX (public_auth_policy h),
            raw_public_parameters = ps, raw_public_unique = u \<rparr>) in
      case p of
        PublicRsa _ r u \<Rightarrow> fill Pub_Rsa (Raw_Rsa_Detail (rsa_parameters_to_tss r))
          (Raw_Id_Rsa (buffer_to_tss PUBLIC_KEY_RSA_MAX u))
      | PublicKeyedHash _ k u \<Rightarrow> fill Pub_KeyedHash (Raw_KeyedHash_Detail (keyed_hash_parameters_to_tss k))
          (Raw_Id_KeyedHash (buffer_to_tss DIGEST_MAX u))
      | PublicEcc _ e pt \<Rightarrow> fill Pub_Ecc (Raw_Ecc_Detail (ecc_parameters_to_tss e))
          (Raw_Id_Ecc (ecc_point_to_tss pt))
      | PublicSymCipher _ s u \<Rightarrow> fill Pub_SymCipher (Raw_Sym_Detail (symmetric_cipher_parameters_to_tss s))
          (Raw_Id_Sym (buffer_to_tss DIGEST_MAX u)))"

definition public_try_from :: "tpmt_public \<Rightarrow> public_area tss" where
  "public_try_from t =
     bnd (public_alg_try_from (raw_public_type t)) (\<lambda>a.
     bnd (hash_alg_try_from (raw_public_name_alg t)) (\<lambda>n.
     bnd (buffer_of_tss DIGEST_MAX (raw_public_auth_policy t)) (\<lambda>ap.
     let h = \<lparr> object_attributes = raw_object_attributes t, name_hashing_algorithm = n,
               public_auth_policy = ap \<rparr> in
     case a of
       Pub_Rsa \<Rightarrow>
         bnd (case raw_public_parameters t of Raw_Rsa_Detail r \<Rightarrow> rsa_parameters_try_from r | _ \<Rightarrow> other_member) (\<lambda>ps.
         bnd (case raw_public_unique t of Raw_Id_Rsa u \<Rightarrow> buffer_of_tss PUBLIC_KEY_RSA_MAX u | _ \<Rightarrow> other_member) (\<lambda>u.
         Inr (PublicRsa h ps u)))
     | Pub_KeyedHash \<Rightarrow>
         bnd (case raw_public_parameters t of Raw_KeyedHash_Detail k \<Rightarrow> keyed_hash_parameters_try_from k | _ \<Rightarrow> other_member) (\<lambda>ps.
         bnd (case raw_public_unique t of Raw_Id_KeyedHash u \<Rightarrow> buffer_of_tss DIGEST_MAX u | _ \<Rightarrow> other_member) (\<lambda>u.
         Inr (PublicKeyedHash h ps u)))
     | Pub_Ecc \<Rightarrow>
         bnd (case raw_public_parameters t of Raw_Ecc_Detail e \<Rightarrow> ecc_parameters_try_from e | _ \<Rightarrow> other_member) (\<lambda>ps.
         bnd (case raw_public_unique t of Raw_Id_Ecc u \<Rightarrow> ecc_point_try_from u | _ \<Rightarrow> other_member) (\<lambda>u.
         Inr (PublicEcc h ps u)))
     | Pub_SymCipher \<Rightarrow>
         bnd (case raw_public_parameters t of Raw_Sym_Detail s \<Rightarrow> symmetric_cipher_parameters_try_from s | _ \<Rightarrow> other_member) (\<lambda>ps.
         bnd (case raw_public_unique t of Raw_Id_Sym u \<Rightarrow> buffer_of_tss DIGEST_MAX u | _ \<Rightarrow> other_member) (\<lambda>u.
         Inr (PublicSymCipher h ps u))))))"

text \<open>Buffers have their maximal sizes by construction in the code; here that is a condition.\<close>

definition public_wf :: "public_area \<Rightarrow> bool" where
  "public_wf p \<longleftrightarrow> length (public_auth_policy (public_head_of p)) \<le> DIGEST_MAX \<and> (case p of
       PublicRsa _ _ u \<Rightarrow> length u \<le> PUBLIC_KEY_RSA_MAX
     | PublicKeyedHash _ _ u \<Rightarrow> length u \<le> DIGEST_MAX
     | PublicEcc _ _ pt \<Rightarrow> length (point_x pt) \<le> ECC_PARAMETER_MAX \<and> length (point_y pt) \<le> ECC_PARAMETER_MAX
     | PublicSymCipher _ _ u \<Rightarrow> length u \<le> DIGEST_MAX)"

lemma public_roundtrip:
  assumes "public_wf p"
  shows "public_try_from (public_to_tss p) = Inr p"
proof -
  have rsa: "buffer_of_tss PUBLIC_KEY_RSA_MAX (buffer_to_tss PUBLIC_KEY_RSA_MAX u) = Inr u"
    if "length u \<le> PUBLIC_KEY_RSA_MAX" for u
    using that by (intro buffer_roundtrip) (simp_all add: PUBLIC_KEY_RSA_MAX_def)
  show ?thesis
    using assms
    by (cases p) (simp_all add: public_wf_def public_to_tss_def public_try_from_def rsa
        ecc_point_roundtrip(1) keyed_hash_parameters_to_tss_def keyed_hash_parameters_try_from_def
        symmetric_cipher_parameters_to_tss_def symmetric_cipher_parameters_try_from_def)
qed

section \<open>The builder\<close>

record public_builder =
  pb_algorithm :: "public_algorithm option"
  pb_attributes :: "object_attributes option"
  pb_name_hash :: "hashing_algorithm option"
  pb_auth_policy :: "bytes option"
  pb_rsa :: "rsa_parameters option"
  pb_rsa_unique :: "bytes option"
  pb_keyed_hash :: "keyed_hash_parameters option"
  pb_keyed_hash_unique :: "bytes option"
  pb_ecc :: "ecc_parameters option"
  pb_ecc_unique :: "ecc_point option"
  pb_cipher :: "symmetric_cipher_parameters option"
  pb_cipher_unique :: "bytes option"

definition public_builder_new :: public_builder where
  "public_builder_new = \<lparr> pb_algorithm = None, pb_attributes = None, pb_name_hash = None,
     pb_auth_policy = None, pb_rsa = None, pb_rsa_unique = None, pb_keyed_hash = None,
     pb_keyed_hash_unique = None, pb_ecc = None, pb_ecc_unique = None, pb_cipher = None,
     pb_cipher_unique = None \<rparr>"

definition public_build :: "public_builder \<Rightarrow> public_area tss" where
  "public_build b =
     bnd (some_or ParamsMissing (pb_algorithm b)) (\<lambda>a.
     bnd (some_or ParamsMissing (pb_attributes b)) (\<lambda>at.
     bnd (some_or ParamsMissing (pb_name_hash b)) (\<lambda>n.
     let h = \<lparr> object_attributes = at, name_hashing_algorithm = n,
               public_auth_policy = (case pb_auth_policy b of None \<Rightarrow> [] | Some d \<Rightarrow> d) \<rparr> in
     case a of
       Pub_Rsa \<Rightarrow> bnd (some_or ParamsMissing (pb_rsa b)) (\<lambda>ps.
         bnd (some_or ParamsMissing (pb_rsa_unique b)) (\<lambda>u. Inr (PublicRsa h ps u)))
     | Pub_KeyedHash \<Rightarrow> bnd (some_or ParamsMissing (pb_keyed_hash b)) (\<lambda>ps.
         bnd (some_or ParamsMissing (pb_keyed_hash_unique b)) (\<lambda>u. Inr (PublicKeyedHash h ps u)))
     | Pub_Ecc \<Rightarrow> bnd (some_or ParamsMissing (pb_ecc b)) (\<lambda>ps.
         bnd (some_or ParamsMissing (pb_ecc_unique b)) (\<lambda>u. Inr (PublicEcc h ps u)))
     | Pub_SymCipher \<Rightarrow> bnd (some_or ParamsMissing (pb_cipher b)) (\<lambda>ps.
         bnd (some_or ParamsMissing (pb_cipher_unique b)) (\<lambda>u. Inr (PublicSymCipher h ps u))))))"

section \<open>Parameters with their tag\<close>

datatype public_parameters =
    ParamsRsa rsa_parameters | ParamsKeyedHash keyed_hash_parameters
  | ParamsEcc ecc_parameters | ParamsSymCipher symmetric_cipher_parameters

primrec public_parameters_algorithm :: "public_parameters \<Rightarrow> public_algorithm" where
  "public_parameters_algorithm (ParamsRsa r) = Pub_Rsa"
| "public_parameters_algorithm (ParamsKeyedHash k) = Pub_KeyedHash"
| "public_parameters_algorithm (ParamsEcc e) = Pub_Ecc"
| "public_parameters_algorithm (ParamsSymCipher s) = Pub_SymCipher"

definition public_parameters_to_tss :: "public_parameters \<Rightarrow> u16 \<times> tpmu_public_parms" where
  "public_parameters_to_tss p = (public_alg_u16 (public_parameters_algorithm p), (case p of
       ParamsRsa r \<Rightarrow> Raw_Rsa_Detail (rsa_parameters_to_tss r)
     | ParamsKeyedHash k \<Rightarrow> Raw_KeyedHash_Detail (keyed_hash_parameters_to_tss k)
     | ParamsEcc e \<Rightarrow> Raw_Ecc_Detail (ecc_parameters_to_tss e)
     | ParamsSymCipher s \<Rightarrow> Raw_Sym_Detail (symmetric_cipher_parameters_to_tss s)))"

definition public_parameters_try_from :: "u16 \<times> tpmu_public_parms \<Rightarrow> public_parameters tss" where
  "public_parameters_try_from t = bnd (public_alg_try_from (fst t)) (\<lambda>a. case a of
       Pub_Rsa \<Rightarrow> (case snd t of Raw_Rsa_Detail r \<Rightarrow> map_ok ParamsRsa (rsa_parameters_try_from r) | _ \<Rightarrow> other_member)
     | Pub_KeyedHash \<Rightarrow> (case snd t of
         Raw_KeyedHash_Detail k \<Rightarrow> map_ok ParamsKeyedHash (keyed_hash_parameters_try_from k) | _ \<Rightarrow> other_member)
     | Pub_Ecc \<Rightarrow> (case snd t of Raw_Ecc_Detail e \<Rightarrow> map_ok ParamsEcc (ecc_parameters_try_from e) | _ \<Rightarrow> other_member)
     | Pub_SymCipher \<Rightarrow> (case snd t of
         Raw_Sym_Detail s \<Rightarrow> map_ok ParamsSymCipher (symmetric_cipher_parameters_try_from s) | _ \<Rightarrow> other_member))"

lemma public_parameters_roundtrip: "public_parameters_try_from (public_parameters_to_tss p) = Inr p"
  by (cases p) (simp_all add: public_parameters_try_from_def public_parameters_to_tss_def
      keyed_hash_parameters_to_tss_def keyed_hash_parameters_try_from_def
      symmetric_cipher_parameters_to_tss_def symmetric_cipher_parameters_try_from_def)

section \<open>The byte form\<close>

text \<open>
  The C library's functions: a response code and the bytes written, of which there can be no more
  than the buffer the code gives it has, or the structure read.
\<close>

record public_mu =
  mu_public_marshal :: "tpmt_public \<Rightarrow> u32 \<times> bytes"
  mu_public_unmarshal :: "bytes \<Rightarrow> u32 \<times> tpmt_public"

definition TPMT_PUBLIC_SIZE :: nat where "TPMT_PUBLIC_SIZE = 612"

definition public_mu_ok :: "public_mu \<Rightarrow> bool" where
  "public_mu_ok M \<longleftrightarrow> (\<forall>p. public_wf p \<longrightarrow>
     (case mu_public_marshal M (public_to_tss p) of (rc, b) \<Rightarrow>
        rc = 0 \<and> length b \<le> TPMT_PUBLIC_SIZE \<and> mu_public_unmarshal M b = (0, public_to_tss p)))"

definition public_marshall :: "public_mu \<Rightarrow> public_area \<Rightarrow> bytes tss" where
  "public_marshall M p = (case mu_public_marshal M (public_to_tss p) of (rc, b) \<Rightarrow>
     if \<not> rc_success (from_tss_rc rc) then Inl (Err (from_tss_rc rc)) else Inr b)"

definition public_unmarshall :: "public_mu \<Rightarrow> bytes \<Rightarrow> public_area tss" where
  "public_unmarshall M b = (case mu_public_unmarshal M b of (rc, t) \<Rightarrow>
     if \<not> rc_success (from_tss_rc rc) then Inl (Err (from_tss_rc rc)) else public_try_from t)"

text \<open>\<open>TPM2B_PUBLIC\<close>: the size of the byte form beside the area; reading it ignores the size.\<close>

type_synonym tpm2b_public = "u16 \<times> tpmt_public"

definition public_of_tpm2b :: "tpm2b_public \<Rightarrow> public_area tss" where
  "public_of_tpm2b t = public_try_from (snd t)"

definition public_to_tpm2b :: "public_mu \<Rightarrow> public_area \<Rightarrow> tpm2b_public tss" where
  "public_to_tpm2b M p = (case mu_public_marshal M (public_to_tss p) of (rc, b) \<Rightarrow>
     if \<not> rc_success (from_tss_rc rc) then Inl (Err (from_tss_rc rc))
     else if length b > 65535 then local_error InvalidParam
     else Inr (of_nat (length b), public_to_tss p))"

text \<open>\<open>PublicBuffer\<close>: the bytes of a public area.\<close>

definition public_buffer_try_from :: "bytes \<Rightarrow> bytes tss" where
  "public_buffer_try_from b = buffer_try_from TPMT_PUBLIC_SIZE b"

definition public_buffer_of_tpm2b :: "public_mu \<Rightarrow> tpm2b_public \<Rightarrow> bytes tss" where
  "public_buffer_of_tpm2b M t =
     (if unat (fst t) > TPMT_PUBLIC_SIZE then local_error WrongParamSize
      else bnd (public_try_from (snd t)) (public_marshall M))"

definition public_buffer_to_tpm2b :: "public_mu \<Rightarrow> bytes \<Rightarrow> tpm2b_public tss" where
  "public_buffer_to_tpm2b M b = bnd (public_unmarshall M b) (\<lambda>p. Inr (of_nat (length b), public_to_tss p))"

text \<open>
  The byte form and the C structure carry the same area: bytes are read back, a structure comes
  back from the buffer with the same size, and its size field is the length of the bytes.
\<close>

lemma public_forms_agree:
  assumes "public_mu_ok M" and "public_wf p"
  obtains b where "public_marshall M p = Inr b" "public_unmarshall M b = Inr p"
    "public_to_tpm2b M p = Inr (of_nat (length b), public_to_tss p)"
    "public_buffer_of_tpm2b M (of_nat (length b), public_to_tss p) = Inr b"
    "public_buffer_to_tpm2b M b = Inr (of_nat (length b), public_to_tss p)"
proof -
  obtain rc b where m: "mu_public_marshal M (public_to_tss p) = (rc, b)" by fastforce
  with assms have b: "rc = 0" "length b \<le> TPMT_PUBLIC_SIZE" "mu_public_unmarshal M b = (0, public_to_tss p)"
    by (auto simp: public_mu_ok_def split: prod.splits)
  have u: "unat (of_nat (length b) :: u16) = length b"
    using b(2) by (simp add: TPMT_PUBLIC_SIZE_def unat_of_nat)
  have un: "public_unmarshall M b = Inr p"
    using b(3) public_roundtrip [OF assms(2)] by (simp add: public_unmarshall_def rc_success_iff)
  show thesis
    using that [of b] m b un u public_roundtrip [OF assms(2)]
    by (simp add: public_marshall_def public_to_tpm2b_def public_buffer_of_tpm2b_def
        public_buffer_to_tpm2b_def rc_success_iff TPMT_PUBLIC_SIZE_def)
qed

end
