(* ===== verification/Vtpm_Key.thy ===== *)
theory Vtpm_Key
  imports Tss_Public_Area Vtpm_Nv
begin

text \<open>
  The attestation key's public part: reading an object's public area
  (\<open>context/tpm_commands/object_commands.rs\<close>), its conversion to the types of an X.509 library
  (\<open>abstraction/public.rs\<close>) and \<open>get_ak_pub\<close> of the virtual TPM crate. The integers of the ASN.1
  library are a parameter: what the code relies on is that they keep the number.
\<close>

section \<open>Big-endian numbers\<close>

definition be_nat :: "bytes \<Rightarrow> nat" where
  "be_nat b = le_nat (rev b)"

definition u32_be :: "u32 \<Rightarrow> bytes" where
  "u32_be w = rev (u32_le w)"

lemma be_nat_u32_be [simp]: "be_nat (u32_be w) = unat w"
proof -
  have "length (u32_le w) = 4" by (simp add: u32_le_def)
  then have "unat (le_u32 (u32_le w)) = le_nat (u32_le w)" by (rule le_u32_nat)
  then show ?thesis by (simp add: be_nat_def u32_be_def le32.dec_enc)
qed

lemma le_bytes_last: "le_bytes (Suc w) n = le_bytes w n @ [of_nat (n div 256 ^ w)]"
  by (induction w arbitrary: n) (simp_all add: div_mult2_eq)

lemma u32_be_hd: "u32_be w = of_nat (unat w div 256 ^ 3) # rev (le_bytes 3 (unat w))"
proof -
  have "u32_be w = rev (le_bytes (Suc 3) (unat w))" by (simp add: u32_be_def u32_le_def)
  then show ?thesis unfolding le_bytes_last by simp
qed

lemma u32_be_not_Nil [simp]: "u32_be w \<noteq> []"
  by (simp add: u32_be_hd)

lemma u32_be_high_bit: "unat w < 2 ^ 31 \<Longrightarrow> hd (u32_be w) < 128"
proof -
  assume "unat w < 2 ^ 31"
  then have "unat w div 256 ^ 3 < 128" by (simp add: less_mult_imp_div_less)
  then show ?thesis by (simp add: u32_be_hd word_less_nat_alt unat_of_nat8)
qed

section \<open>Reading a public area\<close>

text \<open>\<open>Esys_ReadPublic\<close>: on a handle and the sessions, the area, the name and the qualified name.\<close>

type_synonym 'd esys_read_public =
  "u32 \<Rightarrow> esys_sessions \<Rightarrow> 'd \<Rightarrow> u32 \<times> (tpm2b_public \<times> name \<times> name) \<times> 'd"

definition read_public :: "'d esys_read_public \<Rightarrow> u32 \<Rightarrow> ('d, public_area \<times> name \<times> name) tpm" where
  "read_public RP h =
     tbind (esys_call (RP h)) (\<lambda>(t, n, q).
     tbind (tlift (public_of_tpm2b t)) (\<lambda>p.
     tbind (tlift (name_try_from n)) (\<lambda>n'.
     tbind (tlift (name_try_from q)) (\<lambda>q'. tret (p, n', q')))))"

section \<open>Decoded keys\<close>

record 'i asn1 =
  asn1_of_unsigned :: "bytes \<Rightarrow> 'i"
  asn1_of_signed :: "bytes \<Rightarrow> 'i"
  asn1_as_unsigned :: "'i \<Rightarrow> bytes"

text \<open>Numbers that are not negative come back as they went in.\<close>

definition asn1_ok :: "'i asn1 \<Rightarrow> bool" where
  "asn1_ok A \<longleftrightarrow> (\<forall>b. b \<noteq> [] \<longrightarrow>
     be_nat (asn1_as_unsigned A (asn1_of_unsigned A b)) = be_nat b
     \<and> (hd b < 128 \<longrightarrow> be_nat (asn1_as_unsigned A (asn1_of_signed A b)) = be_nat b))"

datatype 'i decoded_key = DecodedRsa 'i 'i | DecodedPoint bytes

definition point_octets :: "bytes \<Rightarrow> bytes \<Rightarrow> bytes" where
  "point_octets x y = [4] @ x @ y"

definition public_to_decoded_key :: "'i asn1 \<Rightarrow> public_area \<Rightarrow> 'i decoded_key tss" where
  "public_to_decoded_key A p = (case p of
       PublicRsa _ ps u \<Rightarrow>
         let e = u32_be (if rsa_exponent ps = ZERO_EXPONENT then 65537 else rsa_exponent ps)
         in Inr (DecodedRsa (asn1_of_unsigned A u) (asn1_of_signed A e))
     | PublicEcc _ _ pt \<Rightarrow> Inr (DecodedPoint (point_octets (point_x pt) (point_y pt)))
     | _ \<Rightarrow> local_error UnsupportedParam)"

text \<open>Object identifiers: four of the library's, and one the code spells out.\<close>

datatype oid = Secp192r1 | Secp256r1 | Secp384r1 | Secp521r1 | Oid "nat list"

primrec curve_oid :: "ecc_curve \<Rightarrow> oid tss" where
  "curve_oid NistP192 = Inr Secp192r1"
| "curve_oid NistP224 = Inr Secp256r1"
| "curve_oid NistP256 = Inr Secp256r1"
| "curve_oid NistP384 = Inr Secp384r1"
| "curve_oid NistP521 = Inr Secp521r1"
| "curve_oid BnP256 = local_error UnsupportedParam"
| "curve_oid BnP638 = local_error UnsupportedParam"
| "curve_oid Sm2P256 = Inr (Oid [1, 2, 156, 10197, 1, 301])"

datatype 'i subject_public_key_info = SpkiRsa 'i 'i | SpkiEc oid bytes

definition public_to_spki :: "'i asn1 \<Rightarrow> public_area \<Rightarrow> 'i subject_public_key_info tss" where
  "public_to_spki A p = bnd (public_to_decoded_key A p) (\<lambda>k. case (p, k) of
       (PublicRsa _ _ _, DecodedRsa n e) \<Rightarrow> Inr (SpkiRsa n e)
     | (PublicEcc _ ps _, DecodedPoint pt) \<Rightarrow> bnd (curve_oid (ecc_curve ps)) (\<lambda>i. Inr (SpkiEc i pt))
     | _ \<Rightarrow> local_error UnsupportedParam)"

text \<open>The key that is converted is the one of the area, so the last branch is never taken.\<close>

lemma public_to_spki_eq:
  "public_to_spki A (PublicRsa h ps u) =
     bnd (public_to_decoded_key A (PublicRsa h ps u)) (\<lambda>k. case k of DecodedRsa n e \<Rightarrow> Inr (SpkiRsa n e))"
  "public_to_spki A (PublicEcc h es pt) =
     bnd (curve_oid (ecc_curve es)) (\<lambda>i. Inr (SpkiEc i (point_octets (point_x pt) (point_y pt))))"
  "public_to_spki A (PublicKeyedHash h k u) = local_error UnsupportedParam"
  "public_to_spki A (PublicSymCipher h s u) = local_error UnsupportedParam"
  by (simp_all add: public_to_spki_def public_to_decoded_key_def Let_def)

text \<open>
  The octets of a point name it when both coordinates have the length of the field; shorter ones are
  not padded, and then two points can have the same octets. Two curves share an identifier.
\<close>

lemma point_octets_inject:
  "length x = length x' \<Longrightarrow> point_octets x y = point_octets x' y' \<longleftrightarrow> x = x' \<and> y = y'"
  by (simp add: point_octets_def)

lemma point_octets_unpadded: "point_octets [1] [2, 3] = point_octets [1, 2] [3]"
  by (simp add: point_octets_def)

lemma curve_oid_collision: "curve_oid NistP224 = curve_oid NistP256"
  by simp

lemma curve_oid_inject_else:
  assumes "curve_oid c = Inr i" and "curve_oid c' = Inr i" and "c \<noteq> NistP224" and "c' \<noteq> NistP224"
  shows "c = c'"
  using assms by (cases c; cases c') simp_all

section \<open>The attestation key\<close>

datatype ak_pub_error = AkTpm tss_error | WrongKeyType

record ak_public_key =
  key_modulus :: bytes
  key_exponent :: bytes

definition ak_wrap :: "tss_error stop + 'a \<Rightarrow> ak_pub_error stop + 'a" where
  "ak_wrap = map_err (map_stop AkTpm)"

definition ak_key_of :: "'i asn1 \<Rightarrow> public_area \<Rightarrow> ak_pub_error stop + ak_public_key" where
  "ak_key_of A p = bnd (ak_wrap (public_to_decoded_key A p)) (\<lambda>k. case k of
       DecodedRsa n e \<Rightarrow> Inr \<lparr> key_modulus = asn1_as_unsigned A n, key_exponent = asn1_as_unsigned A e \<rparr>
     | DecodedPoint _ \<Rightarrow> Inl (Err WrongKeyType))"

definition get_ak_pub :: "'i asn1 \<Rightarrow> tcti_lib \<Rightarrow> 'd esys \<Rightarrow> 'd esys_read_public \<Rightarrow> resources \<times> 'd \<Rightarrow>
    (ak_pub_error stop + ak_public_key) \<times> (resources \<times> 'd)" where
  "get_ak_pub A L E RP s =
     map_prod (\<lambda>r. bnd r (\<lambda>(p, n, q). ak_key_of A p)) id
       (the (with_device L E (Some TPM_DEVICE) (\<lambda>e. ak_wrap (Inl e)) (\<lambda>c. Some (map_prod ak_wrap id
          (tbind (tlift (tpm_handle_try_from VTPM_AK_HANDLE)) (\<lambda>th.
           tbind (tr_from_tpm_public E th) (\<lambda>h. read_public RP h)) c))) s))"

text \<open>
  The TPM has the key \<open>p\<close> at the attestation key's handle: it resolves the handle and reports the
  area, with names that fit.
\<close>

definition ak_answers :: "'d esys \<Rightarrow> 'd esys_read_public \<Rightarrow> public_area \<Rightarrow> 'd \<Rightarrow> bool" where
  "ak_answers E RP p d \<longleftrightarrow>
     (case esys_tr_from_tpm_public E VTPM_AK_HANDLE (optional_sessions (new_context d)) d of
        (rc, ob, d1) \<Rightarrow> rc = 0 \<and> ob \<noteq> ESYS_TR_NONE \<and> ob \<noteq> ESYS_TR_RH_NULL \<and>
          (case RP ob (optional_sessions (new_context d)) d1 of
             (rc', (t, n, q), d2) \<Rightarrow> rc' = 0 \<and> snd t = public_to_tss p
               \<and> unat (fst n) \<le> NAME_MAX \<and> unat (fst q) \<le> NAME_MAX))"

lemma get_ak_pub_result:
  assumes "public_wf p" and "ak_answers E RP p d"
    and "new_device_direct L (Some TPM_DEVICE) r = (Inr t, r1)"
  shows "fst (get_ak_pub A L E RP (r, d)) = ak_key_of A p"
proof -
  let ?c = "new_context d"
  obtain ob d1 where tr: "esys_tr_from_tpm_public E VTPM_AK_HANDLE (optional_sessions ?c) d = (0, ob, d1)"
      and ob: "ob \<noteq> ESYS_TR_NONE" "ob \<noteq> ESYS_TR_RH_NULL"
    using assms(2) by (auto simp: ak_answers_def split: prod.splits)
  obtain z n q d2 where rp: "RP ob (optional_sessions ?c) d1 = (0, ((z, public_to_tss p), n, q), d2)"
      and names: "unat (fst n) \<le> NAME_MAX" "unat (fst q) \<le> NAME_MAX"
    using assms(2) tr by (auto simp: ak_answers_def split: prod.splits)
  have h: "tpm_handle_try_from VTPM_AK_HANDLE = Inr (Persistent_Handle VTPM_AK_HANDLE)"
    by (simp add: VTPM_AK_HANDLE_def tpm_handle_try_from_def handle_new_def msb_byte_def handle_base_def Let_def)
  define c1 where "c1 = ?c \<lparr> device := d1, handle_manager := AList.update ob CloseHandle [] \<rparr>"
  have step1: "tr_from_tpm_public E (Persistent_Handle VTPM_AK_HANDLE) ?c = (Inr ob, c1)"
    using tr ob by (simp add: tr_from_tpm_public_def tbind_def esys_call_def manage_def add_handle_def
        tret_def c1_def rc_success_iff new_context_def)
  have same: "optional_sessions c1 = optional_sessions ?c" "device c1 = d1"
    by (simp_all add: c1_def optional_sessions_def)
  have step2: "read_public RP ob c1 = (Inr (p, n, q), c1 \<lparr> device := d2 \<rparr>)"
    using rp names same public_roundtrip [OF assms(1)]
    by (simp add: read_public_def tbind_def esys_call_def tlift_def tret_def rc_success_iff
        public_of_tpm2b_def name_try_from_def)
  show ?thesis
    using assms(3) h step1 step2
    by (simp add: get_ak_pub_def with_device_def tbind_def tlift_def ak_wrap_def)
qed

lemma ak_key_of_number:
  assumes "asn1_ok A"
  shows "case ak_key_of A p of
      Inr k \<Rightarrow> (\<exists>h ps u. p = PublicRsa h ps u
        \<and> (u \<noteq> [] \<longrightarrow> be_nat (key_modulus k) = be_nat u)
        \<and> (unat (rsa_exponent ps) < 2 ^ 31 \<longrightarrow>
             be_nat (key_exponent k) = (if rsa_exponent ps = 0 then 65537 else unat (rsa_exponent ps))))
    | Inl e \<Rightarrow> (case p of PublicRsa _ _ _ \<Rightarrow> False | PublicEcc _ _ _ \<Rightarrow> e = Err WrongKeyType
        | _ \<Rightarrow> e = Err (AkTpm (WrapperError UnsupportedParam)))"
proof (cases p)
  case (PublicRsa h ps u)
  have "hd (u32_be (if rsa_exponent ps = 0 then 65537 else rsa_exponent ps)) < 128"
    if "unat (rsa_exponent ps) < 2 ^ 31"
    using that by (intro u32_be_high_bit) simp
  then show ?thesis
    using assms PublicRsa
    by (simp add: ak_key_of_def ak_wrap_def public_to_decoded_key_def Let_def ZERO_EXPONENT_def asn1_ok_def)
qed (simp_all add: ak_key_of_def ak_wrap_def public_to_decoded_key_def local_error_def)

text \<open>
  C11. The attestation key's public part is the TPM's key: when the device opens and the TPM reports
  the area \<open>p\<close> at the attestation key's handle, \<open>get_ak_pub\<close> succeeds exactly on an RSA area, its
  modulus is the number of the area's unique value, and its exponent the area's exponent, or 65537
  where that is 0 (up to 2^31, from where on the code would read it as negative); on an ECC area it
  reports a wrong key type, on other areas an unsupported parameter.
\<close>

theorem ak_pub_is_tpm_key:
  assumes "asn1_ok A" and "public_wf p" and "ak_answers E RP p d"
    and "new_device_direct L (Some TPM_DEVICE) r = (Inr t, r1)"
  shows "case fst (get_ak_pub A L E RP (r, d)) of
      Inr k \<Rightarrow> (\<exists>h ps u. p = PublicRsa h ps u
        \<and> (u \<noteq> [] \<longrightarrow> be_nat (key_modulus k) = be_nat u)
        \<and> (unat (rsa_exponent ps) < 2 ^ 31 \<longrightarrow>
             be_nat (key_exponent k) = (if rsa_exponent ps = 0 then 65537 else unat (rsa_exponent ps))))
    | Inl e \<Rightarrow> (case p of PublicRsa _ _ _ \<Rightarrow> False | PublicEcc _ _ _ \<Rightarrow> e = Err WrongKeyType
        | _ \<Rightarrow> e = Err (AkTpm (WrapperError UnsupportedParam)))"
  unfolding get_ak_pub_result [OF assms(2-4)] by (rule ak_key_of_number [OF assms(1)])

text \<open>Integers that are their bytes, a TPM with one key and the device of the TCTI theory.\<close>

definition byte_asn1 :: "bytes asn1" where
  "byte_asn1 = \<lparr> asn1_of_unsigned = \<lambda>b. if b \<noteq> [] \<and> hd b \<ge> 128 then 0 # b else b,
     asn1_of_signed = \<lambda>b. b,
     asn1_as_unsigned = \<lambda>b. if b \<noteq> [] \<and> hd b = 0 then tl b else b \<rparr>"

definition sample_ak :: public_area where
  "sample_ak = PublicRsa \<lparr> object_attributes = new_fixed_signing_key, name_hashing_algorithm = AlgSha256,
       public_auth_policy = [] \<rparr>
     \<lparr> rsa_symmetric = ObjNull, rsa_scheme = RsaSsaScheme AlgSha256, rsa_key_bits = Rsa2048, rsa_exponent = 0 \<rparr>
     [200, 1]"

definition key_esys :: "(drop_action \<times> u32) list esys" where
  "key_esys = logging_esys \<lparr> esys_tr_from_tpm_public := \<lambda>h s d. (0, h, d) \<rparr>"

definition key_read_public :: "(drop_action \<times> u32) list esys_read_public" where
  "key_read_public = (\<lambda>h s d. (0, ((0, public_to_tss sample_ak), (0, []), (0, [])), d))"

lemma le_nat_snoc_0: "le_nat (b @ [0]) = le_nat b"
  by (induction b) simp_all

lemma byte_asn1_ok: "asn1_ok byte_asn1"
proof -
  have "be_nat (0 # b) = be_nat b" for b by (simp add: be_nat_def le_nat_snoc_0)
  moreover from this have "be_nat (tl b) = be_nat b" if "hd b = 0" "b \<noteq> []" for b
    using that by (cases b) auto
  ultimately show ?thesis by (auto simp: asn1_ok_def byte_asn1_def)
qed

lemma key_esys_answers: "ak_answers key_esys key_read_public sample_ak []"
  by (simp add: ak_answers_def key_esys_def key_read_public_def logging_esys_def VTPM_AK_HANDLE_def
      ESYS_TR_NONE_def ESYS_TR_RH_NULL_def)

lemma sample_device_opens:
  "\<exists>t r1. new_device_direct sample_tcti (Some TPM_DEVICE)
     \<lparr> live_buffers = [], open_interfaces = [], loader_interfaces = [], esys_contexts = 0 \<rparr> = (Inr t, r1)"
  by (simp add: new_device_direct_def initialize_device_direct_def new_with_tcti_def sample_tcti_def
      TPM_DEVICE_def c_string_def rc_success_iff Let_def)

theorem ak_pub_is_tpm_key_witness:
  "case fst (get_ak_pub byte_asn1 sample_tcti key_esys key_read_public
      (\<lparr> live_buffers = [], open_interfaces = [], loader_interfaces = [], esys_contexts = 0 \<rparr>, [])) of
      Inr k \<Rightarrow> be_nat (key_modulus k) = 51201 \<and> be_nat (key_exponent k) = 65537
    | Inl e \<Rightarrow> False"
proof -
  obtain t r1 where o: "new_device_direct sample_tcti (Some TPM_DEVICE)
     \<lparr> live_buffers = [], open_interfaces = [], loader_interfaces = [], esys_contexts = 0 \<rparr> = (Inr t, r1)"
    using sample_device_opens by blast
  have wf: "public_wf sample_ak"
    by (simp add: public_wf_def sample_ak_def DIGEST_MAX_def PUBLIC_KEY_RSA_MAX_def)
  show ?thesis
    using ak_pub_is_tpm_key [OF byte_asn1_ok wf key_esys_answers o]
    by (auto simp: sample_ak_def be_nat_def split: sum.splits)
qed

end
