(* ===== verification/Tss_Templates.thy ===== *)
theory Tss_Templates
  imports Tss_Public_Area
begin

text \<open>
  The public areas the wrapper makes for its callers: keys of \<open>utils/mod.rs\<close>, endorsement keys
  (\<open>abstraction/ek.rs\<close>) and attestation keys (\<open>abstraction/ak.rs\<close>), with a caller's
  customisation (\<open>abstraction/mod.rs\<close>). What makes an area
  consistent, that its parameters fit what its attributes say the key is for, is stated once, and
  the parameter builders are shown to accept exactly that.
\<close>

section \<open>What a key is for\<close>

text \<open>
  A storage key, restricted and for decryption, has a symmetric cipher for its children and other
  keys have none; the schemes depend on the use.
\<close>

definition symmetric_fits :: "bool \<Rightarrow> symmetric_definition_object \<Rightarrow> bool" where
  "symmetric_fits storage y \<longleftrightarrow> (y \<noteq> ObjNull) = storage"

definition rsa_schemes_for :: "bool \<Rightarrow> bool \<Rightarrow> bool \<Rightarrow> rsa_scheme_algorithm set" where
  "rsa_schemes_for restr sign decr =
     (if restr
      then (if sign then {RsaAlg_RsaSsa, RsaAlg_RsaPss} else UNIV) \<inter> (if decr then {RsaAlg_Null} else UNIV)
      else if sign \<and> decr then {RsaAlg_Null}
      else if sign then {RsaAlg_RsaSsa, RsaAlg_RsaPss, RsaAlg_Null}
      else if decr then {RsaAlg_RsaEs, RsaAlg_Oaep, RsaAlg_Null}
      else UNIV)"

definition ecc_schemes_for :: "bool \<Rightarrow> bool \<Rightarrow> ecc_scheme_algorithm set" where
  "ecc_schemes_for sign decr =
     (if sign \<and> decr then {}
      else if sign then {EccAlg_EcDsa, EccAlg_EcDaa, EccAlg_Sm2, EccAlg_EcSchnorr}
      else if decr then {EccAlg_Sm2, EccAlg_EcDh, EccAlg_EcMqv, EccAlg_Null}
      else UNIV)"

lemma check_symmetric_iff:
  "check_symmetric storage y = Inr () \<longleftrightarrow>
     symmetric_fits storage (case y of None \<Rightarrow> ObjNull | Some o1 \<Rightarrow> o1)"
  by (cases y) (auto simp: check_symmetric_def symmetric_fits_def symmetric_object_is_null_def)

lemma bnd_unit_Inr: "bnd (m :: 'e + unit) k = Inr x \<longleftrightarrow> m = Inr () \<and> k () = Inr x"
  by (cases m) auto

text \<open>
  The RSA parameter builder makes parameters exactly when scheme and key size are set, the
  symmetric definition is there for storage keys and for no others, and the scheme is one for what
  the key is said to be for; what it makes is what it was given, with no cipher and exponent 0 by
  default.
\<close>

lemma rsa_build_accepts:
  "rsa_build b = Inr ps \<longleftrightarrow>
     rb_scheme b = Some (rsa_scheme ps) \<and> rb_key_bits b = Some (rsa_key_bits ps)
     \<and> rsa_exponent ps = (case rb_exponent b of None \<Rightarrow> 0 | Some e \<Rightarrow> e)
     \<and> rsa_symmetric ps = (case rb_symmetric b of None \<Rightarrow> ObjNull | Some y \<Rightarrow> y)
     \<and> symmetric_fits (rb_restricted b \<and> rb_decryption b) (rsa_symmetric ps)
     \<and> rsa_scheme_alg (rsa_scheme ps) \<in> rsa_schemes_for (rb_restricted b) (rb_signing b) (rb_decryption b)"
proof (cases "rb_scheme b = None \<or> rb_key_bits b = None")
  case False
  then obtain s k where sk: "rb_scheme b = Some s" "rb_key_bits b = Some k" by auto
  let ?a = "rsa_scheme_alg s"
  let ?bad = "if rb_restricted b
      then (rb_signing b \<and> ?a \<noteq> RsaAlg_RsaPss \<and> ?a \<noteq> RsaAlg_RsaSsa) \<or> (rb_decryption b \<and> ?a \<noteq> RsaAlg_Null)
      else (rb_decryption b \<and> rb_signing b \<and> ?a \<noteq> RsaAlg_Null)
         \<or> (rb_signing b \<and> ?a \<noteq> RsaAlg_RsaPss \<and> ?a \<noteq> RsaAlg_RsaSsa \<and> ?a \<noteq> RsaAlg_Null)
         \<or> (rb_decryption b \<and> ?a \<noteq> RsaAlg_RsaEs \<and> ?a \<noteq> RsaAlg_Oaep \<and> ?a \<noteq> RsaAlg_Null)"
  have fits: "?bad \<longleftrightarrow> ?a \<notin> rsa_schemes_for (rb_restricted b) (rb_signing b) (rb_decryption b)"
    by (cases ?a) (simp_all add: rsa_schemes_for_def)
  have "rsa_build b = Inr ps \<longleftrightarrow>
      check_symmetric (rb_restricted b \<and> rb_decryption b) (rb_symmetric b) = Inr () \<and> \<not> ?bad
      \<and> ps = \<lparr> rsa_symmetric = (case rb_symmetric b of None \<Rightarrow> ObjNull | Some y \<Rightarrow> y),
               rsa_scheme = s, rsa_key_bits = k,
               rsa_exponent = (case rb_exponent b of None \<Rightarrow> 0 | Some e \<Rightarrow> e) \<rparr>"
    unfolding rsa_build_def sk Let_def some_or_simps bnd.simps bnd_unit_Inr by (rule conj_cong [OF refl]) auto
  then show ?thesis unfolding fits check_symmetric_iff using sk by (cases ps) auto
qed (auto simp: rsa_build_def)

lemma ecc_build_accepts:
  "ecc_build b = Inr ps \<longleftrightarrow>
     eb_scheme b = Some (ecc_scheme ps) \<and> eb_curve b = Some (ecc_curve ps) \<and> eb_kdf b = Some (ecc_kdf ps)
     \<and> ecc_symmetric ps = (case eb_symmetric b of None \<Rightarrow> ObjNull | Some y \<Rightarrow> y)
     \<and> symmetric_fits (eb_restricted b \<and> eb_decryption b) (ecc_symmetric ps)
     \<and> ecc_scheme_alg (ecc_scheme ps) \<in> ecc_schemes_for (eb_signing b) (eb_decryption b)
     \<and> curve_serves (ecc_curve ps) (ecc_scheme_alg (ecc_scheme ps))"
proof (cases "eb_scheme b")
  case (Some s)
  note s = Some
  show ?thesis
  proof (cases "eb_curve b")
    case (Some c)
    note c = Some
    show ?thesis
    proof (cases "eb_kdf b")
      case (Some k)
      have fits: "a \<in> ecc_schemes_for (eb_signing b) (eb_decryption b) \<longleftrightarrow>
          \<not> (eb_decryption b \<and> eb_signing b)
          \<and> \<not> (eb_signing b \<and> a \<noteq> EccAlg_EcDsa \<and> a \<noteq> EccAlg_EcDaa \<and> a \<noteq> EccAlg_Sm2 \<and> a \<noteq> EccAlg_EcSchnorr)
          \<and> \<not> (eb_decryption b \<and> a \<noteq> EccAlg_Sm2 \<and> a \<noteq> EccAlg_EcDh \<and> a \<noteq> EccAlg_EcMqv \<and> a \<noteq> EccAlg_Null)" for a
        by (cases a) (auto simp: ecc_schemes_for_def)
      show ?thesis
        using s c Some
        by (cases ps) (auto simp: ecc_build_def bnd_unit_Inr check_symmetric_iff Let_def fits)
    qed (use s c in \<open>simp add: ecc_build_def\<close>)
  qed (use s in \<open>simp add: ecc_build_def\<close>)
qed (simp add: ecc_build_def)

text \<open>An area is consistent when its parameters are what the builders accept for its attributes.\<close>

definition area_consistent :: "public_area \<Rightarrow> bool" where
  "area_consistent p \<longleftrightarrow>
     (let at = object_attributes (public_head_of p);
          sign = object_attr at SignEncrypt; decr = object_attr at Decrypt; restr = object_attr at Restricted in
      case p of
        PublicRsa _ ps _ \<Rightarrow> symmetric_fits (restr \<and> decr) (rsa_symmetric ps)
          \<and> rsa_scheme_alg (rsa_scheme ps) \<in> rsa_schemes_for restr sign decr
      | PublicEcc _ ps _ \<Rightarrow> symmetric_fits (restr \<and> decr) (ecc_symmetric ps)
          \<and> ecc_scheme_alg (ecc_scheme ps) \<in> ecc_schemes_for sign decr
          \<and> curve_serves (ecc_curve ps) (ecc_scheme_alg (ecc_scheme ps))
      | _ \<Rightarrow> True)"

section \<open>Keys of the utilities\<close>

text \<open>The attributes all of them set, and then decrypt, sign and restricted.\<close>

definition util_attributes :: "bool \<Rightarrow> bool \<Rightarrow> bool \<Rightarrow> object_attributes" where
  "util_attributes decr sign restr =
     set_object_attr Restricted restr (set_object_attr SignEncrypt sign (set_object_attr Decrypt decr
       (set_object_attr UserWithAuth True (set_object_attr SensitiveDataOrigin True
         (set_object_attr FixedParent True (set_object_attr FixedTpm True 0))))))"

definition rsa_public_of :: "object_attributes \<Rightarrow> rsa_builder \<Rightarrow> bytes \<Rightarrow> public_area tss" where
  "rsa_public_of at rb u = bnd (rsa_build rb) (\<lambda>ps.
     public_build (public_builder_new \<lparr> pb_algorithm := Some Pub_Rsa, pb_name_hash := Some AlgSha256,
       pb_attributes := Some at, pb_rsa := Some ps, pb_rsa_unique := Some u \<rparr>))"

definition create_restricted_decryption_rsa_public ::
  "symmetric_definition_object \<Rightarrow> rsa_key_bits \<Rightarrow> rsa_exponent \<Rightarrow> public_area tss" where
  "create_restricted_decryption_rsa_public y k e =
     rsa_public_of (util_attributes True False True) (rsa_restricted_decryption_key y k e) []"

definition create_unrestricted_encryption_decryption_rsa_public ::
  "rsa_key_bits \<Rightarrow> rsa_exponent \<Rightarrow> public_area tss" where
  "create_unrestricted_encryption_decryption_rsa_public k e =
     rsa_public_of (util_attributes True True False)
       (rsa_builder_new \<lparr> rb_scheme := Some NullRsa, rb_key_bits := Some k, rb_exponent := Some e,
          rb_signing := True, rb_decryption := True, rb_restricted := False \<rparr>) []"

definition create_unrestricted_signing_rsa_public ::
  "rsa_scheme \<Rightarrow> rsa_key_bits \<Rightarrow> rsa_exponent \<Rightarrow> public_area tss" where
  "create_unrestricted_signing_rsa_public s k e =
     rsa_public_of (util_attributes False True False) (rsa_unrestricted_signing_key s k e) []"

definition create_unrestricted_signing_rsa_public_with_unique ::
  "rsa_scheme \<Rightarrow> rsa_key_bits \<Rightarrow> rsa_exponent \<Rightarrow> bytes \<Rightarrow> public_area tss" where
  "create_unrestricted_signing_rsa_public_with_unique s k e u =
     rsa_public_of (util_attributes False True False) (rsa_unrestricted_signing_key s k e) u"

definition create_unrestricted_signing_ecc_public :: "ecc_scheme \<Rightarrow> ecc_curve \<Rightarrow> public_area tss" where
  "create_unrestricted_signing_ecc_public s c = bnd (ecc_build (ecc_unrestricted_signing_key s c)) (\<lambda>ps.
     public_build (public_builder_new \<lparr> pb_algorithm := Some Pub_Ecc, pb_name_hash := Some AlgSha256,
       pb_attributes := Some (util_attributes False True False), pb_ecc := Some ps,
       pb_ecc_unique := Some ecc_point_default \<rparr>))"

lemma util_attributes_get [simp]:
  "object_attr (util_attributes d s r) Decrypt = d" "object_attr (util_attributes d s r) SignEncrypt = s"
  "object_attr (util_attributes d s r) Restricted = r"
  by (simp_all add: util_attributes_def)

lemma public_build_rsa:
  "public_build (b \<lparr> pb_algorithm := Some Pub_Rsa, pb_name_hash := Some n, pb_attributes := Some at,
       pb_rsa := Some ps, pb_rsa_unique := Some u \<rparr>) =
     Inr (PublicRsa \<lparr> object_attributes = at, name_hashing_algorithm = n,
       public_auth_policy = (case pb_auth_policy b of None \<Rightarrow> [] | Some d \<Rightarrow> d) \<rparr> ps u)"
  by (simp add: public_build_def Let_def)

lemma rsa_public_of_iff:
  "rsa_public_of at rb u = Inr p \<longleftrightarrow> (\<exists>ps. rsa_build rb = Inr ps
     \<and> p = PublicRsa \<lparr> object_attributes = at, name_hashing_algorithm = AlgSha256, public_auth_policy = [] \<rparr> ps u)"
proof -
  have "pb_auth_policy public_builder_new = None" by (simp add: public_builder_new_def)
  then show ?thesis by (auto simp: rsa_public_of_def public_build_rsa)
qed

text \<open>
  What they make is consistent; a storage key needs a cipher, a signing key a scheme that signs or
  none, and an ECC signing key one that its curve serves.
\<close>

lemma util_rsa_keys:
  "create_restricted_decryption_rsa_public y k e = Inr p \<Longrightarrow> area_consistent p"
  "create_unrestricted_encryption_decryption_rsa_public k e = Inr p \<Longrightarrow> area_consistent p"
  "create_unrestricted_signing_rsa_public s k e = Inr p \<Longrightarrow> area_consistent p"
  "create_unrestricted_signing_rsa_public_with_unique s k e u = Inr p \<Longrightarrow> area_consistent p"
  by (auto simp: create_restricted_decryption_rsa_public_def create_unrestricted_encryption_decryption_rsa_public_def
      create_unrestricted_signing_rsa_public_def create_unrestricted_signing_rsa_public_with_unique_def
      rsa_public_of_iff rsa_build_accepts rsa_restricted_decryption_key_def rsa_unrestricted_signing_key_def
      rsa_builder_new_def area_consistent_def Let_def)

lemma util_storage_key:
  "is_ok (create_restricted_decryption_rsa_public y k e) \<longleftrightarrow> y \<noteq> ObjNull"
proof -
  have "rsa_build (rsa_restricted_decryption_key y k e)
      = Inr \<lparr> rsa_symmetric = y, rsa_scheme = NullRsa, rsa_key_bits = k, rsa_exponent = e \<rparr>" if "y \<noteq> ObjNull"
    using that by (simp add: rsa_build_accepts rsa_restricted_decryption_key_def symmetric_fits_def rsa_schemes_for_def)
  moreover have "rsa_build (rsa_restricted_decryption_key ObjNull k e) \<noteq> Inr ps" for ps
    by (auto simp: rsa_build_accepts rsa_restricted_decryption_key_def symmetric_fits_def)
  ultimately show ?thesis
    by (auto simp: is_ok_iff create_restricted_decryption_rsa_public_def rsa_public_of_iff)
qed

lemma util_ecc_key:
  assumes "create_unrestricted_signing_ecc_public s c = Inr p"
  shows "area_consistent p \<and> public_wf p"
proof -
  obtain ps where ps: "ecc_build (ecc_unrestricted_signing_key s c) = Inr ps"
    and p: "p = PublicEcc \<lparr> object_attributes = util_attributes False True False, name_hashing_algorithm = AlgSha256,
       public_auth_policy = [] \<rparr> ps ecc_point_default"
    using assms by (auto simp: create_unrestricted_signing_ecc_public_def public_build_def public_builder_new_def Let_def)
  show ?thesis
    using ps p unfolding ecc_build_accepts
    by (auto simp: ecc_unrestricted_signing_key_def area_consistent_def Let_def public_wf_def ecc_point_default_def)
qed

section \<open>Customisation\<close>

type_synonym key_customization =
  "((object_attributes \<Rightarrow> object_attributes) \<times> (public_builder \<Rightarrow> public_builder)) option"

definition custom_attributes :: "key_customization \<Rightarrow> object_attributes \<Rightarrow> object_attributes" where
  "custom_attributes k at = (case k of None \<Rightarrow> at | Some (f, g) \<Rightarrow> f at)"

definition custom_template :: "key_customization \<Rightarrow> public_builder \<Rightarrow> public_builder" where
  "custom_template k b = (case k of None \<Rightarrow> b | Some (f, g) \<Rightarrow> g b)"

datatype algorithm_selection = SelectRsa rsa_key_bits | SelectEcc ecc_curve

definition algorithm_selection_of :: "asymmetric_algorithm \<Rightarrow> algorithm_selection tss" where
  "algorithm_selection_of a = (case a of
       Asym_Rsa \<Rightarrow> Inr (SelectRsa Rsa2048)
     | Asym_Ecc \<Rightarrow> Inr (SelectEcc NistP256)
     | Asym_Null \<Rightarrow> local_error UnsupportedParam)"

section \<open>Endorsement keys\<close>

definition AUTH_POLICY_A_SHA256 :: bytes where
  "AUTH_POLICY_A_SHA256 = [
     0x83, 0x71, 0x97, 0x67, 0x44, 0x84, 0xb3, 0xf8, 0x1a, 0x90, 0xcc, 0x8d, 0x46, 0xa5, 0xd7, 0x24,
     0xfd, 0x52, 0xd7, 0x6e, 0x06, 0x52, 0x0b, 0x64, 0xf2, 0xa1, 0xda, 0x1b, 0x33, 0x14, 0x69, 0xaa]"

definition AUTH_POLICY_B_SHA384 :: bytes where
  "AUTH_POLICY_B_SHA384 = [
     0xb2, 0x6e, 0x7d, 0x28, 0xd1, 0x1a, 0x50, 0xbc, 0x53, 0xd8, 0x82, 0xbc, 0xf5, 0xfd, 0x3a, 0x1a,
     0x07, 0x41, 0x48, 0xbb, 0x35, 0xd3, 0xb4, 0xe4, 0xcb, 0x1c, 0x0a, 0xd9, 0xbd, 0xe4, 0x19, 0xca,
     0xcb, 0x47, 0xba, 0x09, 0x69, 0x96, 0x46, 0x15, 0x0f, 0x9f, 0xc0, 0x00, 0xf3, 0xf8, 0x0e, 0x12]"

definition AUTH_POLICY_B_SHA512 :: bytes where
  "AUTH_POLICY_B_SHA512 = [
     0xb8, 0x22, 0x1c, 0xa6, 0x9e, 0x85, 0x50, 0xa4, 0x91, 0x4d, 0xe3, 0xfa, 0xa6, 0xa1, 0x8c, 0x07,
     0x2c, 0xc0, 0x12, 0x08, 0x07, 0x3a, 0x92, 0x8d, 0x5d, 0x66, 0xd5, 0x9e, 0xf7, 0x9e, 0x49, 0xa4,
     0x29, 0xc4, 0x1a, 0x6b, 0x26, 0x95, 0x71, 0xd5, 0x7e, 0xdb, 0x25, 0xfb, 0xdb, 0x18, 0x38, 0x42,
     0x56, 0x08, 0xb4, 0x13, 0xcd, 0x61, 0x6a, 0x5f, 0x6d, 0xb5, 0xb6, 0x07, 0x1a, 0xf9, 0x9b, 0xea]"

definition AUTH_POLICY_B_SM3_256 :: bytes where
  "AUTH_POLICY_B_SM3_256 = [
     0x16, 0x78, 0x60, 0xa3, 0x5f, 0x2c, 0x5c, 0x35, 0x67, 0xf9, 0xc9, 0x27, 0xac, 0x56, 0xc0, 0x32,
     0xf3, 0xb3, 0xa6, 0x46, 0x2f, 0x8d, 0x03, 0x79, 0x98, 0xe7, 0xa1, 0x0f, 0x77, 0xfa, 0x45, 0x4a]"

definition AES_128_CFB :: symmetric_definition_object where "AES_128_CFB = ObjAes Aes128 Mode_Cfb"
definition AES_256_CFB :: symmetric_definition_object where "AES_256_CFB = ObjAes Aes256 Mode_Cfb"
definition SM4_128_CFB :: symmetric_definition_object where "SM4_128_CFB = ObjSm4 Sm4_128 Mode_Cfb"

definition ek_attributes :: "algorithm_selection \<Rightarrow> object_attributes" where
  "ek_attributes alg = (let user = alg \<notin> {SelectRsa Rsa2048, SelectEcc NistP256} in
     set_object_attr SignEncrypt False (set_object_attr Decrypt True (set_object_attr Restricted True
       (set_object_attr EncryptedDuplication False (set_object_attr ObjectNoDa False
         (set_object_attr AdminWithPolicy True (set_object_attr UserWithAuth user
           (set_object_attr SensitiveDataOrigin True (set_object_attr FixedParent True
             (set_object_attr StClear False (set_object_attr FixedTpm True 0)))))))))))"

text \<open>What the profile says of a key size or a curve: name hash, policy, cipher and unique value.\<close>

definition ek_rsa_profile ::
  "rsa_key_bits \<Rightarrow> (hashing_algorithm \<times> bytes \<times> symmetric_definition_object \<times> bytes) tss" where
  "ek_rsa_profile k = (case k of
       Rsa2048 \<Rightarrow> Inr (AlgSha256, AUTH_POLICY_A_SHA256, AES_128_CFB, public_key_rsa_empty Rsa2048)
     | Rsa3072 \<Rightarrow> Inr (AlgSha384, AUTH_POLICY_B_SHA384, AES_256_CFB, [])
     | Rsa4096 \<Rightarrow> Inr (AlgSha384, AUTH_POLICY_B_SHA384, AES_256_CFB, [])
     | _ \<Rightarrow> local_error UnsupportedParam)"

definition ek_ecc_profile ::
  "ecc_curve \<Rightarrow> (hashing_algorithm \<times> bytes \<times> symmetric_definition_object \<times> nat) tss" where
  "ek_ecc_profile c = (case c of
       NistP256 \<Rightarrow> Inr (AlgSha256, AUTH_POLICY_A_SHA256, AES_128_CFB, 32)
     | NistP384 \<Rightarrow> Inr (AlgSha384, AUTH_POLICY_B_SHA384, AES_256_CFB, 0)
     | NistP521 \<Rightarrow> Inr (AlgSha512, AUTH_POLICY_B_SHA512, AES_256_CFB, 0)
     | Sm2P256 \<Rightarrow> Inr (AlgSm3_256, AUTH_POLICY_B_SM3_256, SM4_128_CFB, 0)
     | _ \<Rightarrow> local_error UnsupportedParam)"

definition ek_public_2 :: "algorithm_selection \<Rightarrow> key_customization \<Rightarrow> public_area tss" where
  "ek_public_2 alg kc =
     (let at = custom_attributes kc (ek_attributes alg) in
      bnd (case alg of
        SelectRsa k \<Rightarrow>
          bnd (ek_rsa_profile k) (\<lambda>(h, pol, y, u).
          bnd (buffer_try_from DIGEST_MAX pol) (\<lambda>pol'.
          bnd (rsa_build (rsa_builder_new \<lparr> rb_symmetric := Some y, rb_scheme := Some NullRsa,
                 rb_key_bits := Some k, rb_exponent := Some 0,
                 rb_signing := object_attr at SignEncrypt, rb_decryption := object_attr at Decrypt,
                 rb_restricted := object_attr at Decrypt \<rparr>)) (\<lambda>ps.
          Inr (public_builder_new \<lparr> pb_algorithm := Some Pub_Rsa, pb_name_hash := Some h,
                 pb_attributes := Some at, pb_auth_policy := Some pol', pb_rsa := Some ps,
                 pb_rsa_unique := Some u \<rparr>))))
      | SelectEcc c \<Rightarrow>
          bnd (ek_ecc_profile c) (\<lambda>(h, pol, y, n).
          bnd (buffer_try_from DIGEST_MAX pol) (\<lambda>pol'.
          bnd (ecc_build (ecc_builder_new \<lparr> eb_symmetric := Some y, eb_scheme := Some NullEcc,
                 eb_curve := Some c, eb_kdf := Some NullKdf,
                 eb_signing := object_attr at SignEncrypt, eb_decryption := object_attr at Decrypt,
                 eb_restricted := object_attr at Decrypt \<rparr>)) (\<lambda>ps.
          bnd (buffer_try_from ECC_PARAMETER_MAX (replicate n 0)) (\<lambda>x.
          bnd (buffer_try_from ECC_PARAMETER_MAX (replicate n 0)) (\<lambda>y.
          Inr (public_builder_new \<lparr> pb_algorithm := Some Pub_Ecc, pb_name_hash := Some h,
                 pb_attributes := Some at, pb_auth_policy := Some pol', pb_ecc := Some ps,
                 pb_ecc_unique := Some \<lparr> point_x = x, point_y = y \<rparr> \<rparr>)))))))
      (\<lambda>b. public_build (custom_template kc b)))"

definition ek_public :: "asymmetric_algorithm \<Rightarrow> key_customization \<Rightarrow> public_area tss" where
  "ek_public a kc = bnd (algorithm_selection_of a) (\<lambda>alg. ek_public_2 alg kc)"

definition hash_length :: "hashing_algorithm \<Rightarrow> nat" where
  "hash_length h = (case h of AlgSha1 \<Rightarrow> 20 | AlgSha256 \<Rightarrow> 32 | AlgSha384 \<Rightarrow> 48 | AlgSha512 \<Rightarrow> 64
     | AlgSm3_256 \<Rightarrow> 32 | AlgSha3_256 \<Rightarrow> 32 | AlgSha3_384 \<Rightarrow> 48 | AlgSha3_512 \<Rightarrow> 64 | AlgNull \<Rightarrow> 0)"

lemma ek_attributes_get [simp]:
  "object_attr (ek_attributes alg) SignEncrypt = False" "object_attr (ek_attributes alg) Decrypt = True"
  "object_attr (ek_attributes alg) Restricted = True" "object_attr (ek_attributes alg) FixedTpm = True"
  "object_attr (ek_attributes alg) FixedParent = True" "object_attr (ek_attributes alg) AdminWithPolicy = True"
  "object_attr (ek_attributes alg) UserWithAuth = (alg \<notin> {SelectRsa Rsa2048, SelectEcc NistP256})"
  by (simp_all add: ek_attributes_def Let_def)

lemmas policy_defs = AUTH_POLICY_A_SHA256_def AUTH_POLICY_B_SHA384_def AUTH_POLICY_B_SHA512_def AUTH_POLICY_B_SM3_256_def

lemma policy_lengths [simp]: "length AUTH_POLICY_A_SHA256 = 32" "length AUTH_POLICY_B_SHA384 = 48"
    "length AUTH_POLICY_B_SHA512 = 64" "length AUTH_POLICY_B_SM3_256 = 32"
  by (simp_all add: policy_defs)

definition ek_supported :: "algorithm_selection \<Rightarrow> bool" where
  "ek_supported alg \<longleftrightarrow> alg \<in> SelectRsa ` {Rsa2048, Rsa3072, Rsa4096}
     \<union> SelectEcc ` {NistP256, NistP384, NistP521, Sm2P256}"

text \<open>
  Without customisation, the areas of the supported algorithms, and an error for the others.
\<close>

lemma ek_rsa_area:
  assumes "ek_rsa_profile k = Inr (h, pol, y, u)"
  shows "ek_public_2 (SelectRsa k) None = Inr (PublicRsa \<lparr> object_attributes = ek_attributes (SelectRsa k),
      name_hashing_algorithm = h, public_auth_policy = pol \<rparr>
      \<lparr> rsa_symmetric = y, rsa_scheme = NullRsa, rsa_key_bits = k, rsa_exponent = 0 \<rparr> u)"
  using assms
  by (cases k)
    (auto simp: ek_public_2_def custom_attributes_def custom_template_def ek_rsa_profile_def rsa_build_def
      rsa_builder_new_def check_symmetric_def symmetric_object_is_null_def AES_128_CFB_def AES_256_CFB_def
      public_build_def Let_def buffer_try_from_def DIGEST_MAX_def)

lemma ek_ecc_area:
  assumes "ek_ecc_profile c = Inr (h, pol, y, n)"
  shows "ek_public_2 (SelectEcc c) None = Inr (PublicEcc \<lparr> object_attributes = ek_attributes (SelectEcc c),
      name_hashing_algorithm = h, public_auth_policy = pol \<rparr>
      \<lparr> ecc_symmetric = y, ecc_scheme = NullEcc, ecc_curve = c, ecc_kdf = NullKdf \<rparr>
      \<lparr> point_x = replicate n 0, point_y = replicate n 0 \<rparr>)"
  using assms
  by (cases c)
    (auto simp: ek_public_2_def custom_attributes_def custom_template_def ek_ecc_profile_def ecc_build_def
      ecc_builder_new_def check_symmetric_def symmetric_object_is_null_def curve_serves_def
      AES_128_CFB_def AES_256_CFB_def SM4_128_CFB_def
      public_build_def Let_def buffer_try_from_def DIGEST_MAX_def ECC_PARAMETER_MAX_def)

lemma ek_unsupported: "\<not> ek_supported alg \<Longrightarrow> ek_public_2 alg None = local_error UnsupportedParam"
  by (cases alg; rename_tac x; case_tac x)
    (auto simp: ek_supported_def ek_public_2_def ek_rsa_profile_def ek_ecc_profile_def Let_def)

text \<open>
  A default endorsement key is a storage key of the profile: for the algorithms of the profile,
  and only for them, there is an area, it is well-formed and consistent with its attributes, it is
  restricted, for decryption and fixed to the TPM, its policy is as long as its name hash, and its
  authorisation by a user is off exactly for RSA 2048 and P-256.
\<close>

lemma ek_template_is_storage_key:
  "case ek_public_2 alg None of
     Inl e \<Rightarrow> e = Err (WrapperError UnsupportedParam) \<and> \<not> ek_supported alg
   | Inr p \<Rightarrow> ek_supported alg \<and> public_wf p \<and> area_consistent p
       \<and> object_attributes (public_head_of p) = ek_attributes alg
       \<and> public_symmetric_algorithm p \<noteq> Some ObjNull
       \<and> length (public_auth_policy (public_head_of p)) = hash_length (name_hashing_algorithm (public_head_of p))"
proof (cases "ek_supported alg")
  case False
  then show ?thesis by (simp add: ek_unsupported local_error_def)
next
  case True
  note goal_simps = public_wf_def area_consistent_def symmetric_fits_def rsa_schemes_for_def ecc_schemes_for_def
    curve_serves_def public_symmetric_algorithm_def hash_length_def DIGEST_MAX_def PUBLIC_KEY_RSA_MAX_def
    ECC_PARAMETER_MAX_def AES_128_CFB_def AES_256_CFB_def SM4_128_CFB_def Let_def
  show ?thesis
  proof (cases alg)
    case (SelectRsa k)
    have "is_ok (ek_rsa_profile k)" using True SelectRsa
      by (cases k) (auto simp: ek_supported_def ek_rsa_profile_def)
    then obtain h pol y u where "ek_rsa_profile k = Inr (h, pol, y, u)"
      by (auto simp: is_ok_iff)
    moreover from this True SelectRsa have "(h, pol, y, length u) \<in> {(AlgSha256, AUTH_POLICY_A_SHA256, AES_128_CFB, 256),
        (AlgSha384, AUTH_POLICY_B_SHA384, AES_256_CFB, 0)}"
      by (cases k) (auto simp: ek_rsa_profile_def)
    ultimately show ?thesis using SelectRsa True ek_rsa_area by (auto simp: goal_simps)
  next
    case (SelectEcc c)
    have "is_ok (ek_ecc_profile c)" using True SelectEcc
      by (cases c) (auto simp: ek_supported_def ek_ecc_profile_def)
    then obtain h pol y n where "ek_ecc_profile c = Inr (h, pol, y, n)"
      by (auto simp: is_ok_iff)
    moreover from this True SelectEcc have "(h, pol, y, n) \<in> {(AlgSha256, AUTH_POLICY_A_SHA256, AES_128_CFB, 32),
        (AlgSha384, AUTH_POLICY_B_SHA384, AES_256_CFB, 0), (AlgSha512, AUTH_POLICY_B_SHA512, AES_256_CFB, 0),
        (AlgSm3_256, AUTH_POLICY_B_SM3_256, SM4_128_CFB, 0)}"
      by (cases c) (auto simp: ek_ecc_profile_def)
    ultimately show ?thesis using SelectEcc True ek_ecc_area by (auto simp: goal_simps)
  qed
qed

text \<open>
  The parameter builders are told that the key is restricted when it is for decryption, whatever the
  attribute is: a customisation that lifts the restriction gives an area that is not consistent.
\<close>

lemma ek_customised_inconsistent:
  "\<exists>p. ek_public_2 (SelectRsa Rsa2048) (Some (set_object_attr Restricted False, \<lambda>b. b)) = Inr p
     \<and> \<not> object_attr (object_attributes (public_head_of p)) Restricted \<and> \<not> area_consistent p"
  by (simp add: ek_public_2_def custom_attributes_def custom_template_def ek_rsa_profile_def rsa_build_def
      rsa_builder_new_def check_symmetric_def symmetric_object_is_null_def AES_128_CFB_def
      public_build_def Let_def buffer_try_from_def DIGEST_MAX_def area_consistent_def symmetric_fits_def)

section \<open>Attestation keys\<close>

definition POLICY_A_SHA384 :: bytes where
  "POLICY_A_SHA384 = [
     0x8b, 0xbf, 0x22, 0x66, 0x53, 0x7c, 0x17, 0x1c, 0xb5, 0x6e, 0x40, 0x3c, 0x4d, 0xc1, 0xd4, 0xb6,
     0x4f, 0x43, 0x26, 0x11, 0xdc, 0x38, 0x6e, 0x6f, 0x53, 0x20, 0x50, 0xc3, 0x27, 0x8c, 0x93, 0x0e,
     0x14, 0x3e, 0x8b, 0xb1, 0x13, 0x38, 0x24, 0xcc, 0xb4, 0x31, 0x05, 0x38, 0x71, 0xc6, 0xdb, 0x53]"

definition POLICY_A_SHA512 :: bytes where
  "POLICY_A_SHA512 = [
     0x1e, 0x3b, 0x76, 0x50, 0x2c, 0x8a, 0x14, 0x25, 0xaa, 0x0b, 0x7b, 0x3f, 0xc6, 0x46, 0xa1, 0xb0,
     0xfa, 0xe0, 0x63, 0xb0, 0x3b, 0x53, 0x68, 0xf9, 0xc4, 0xcd, 0xde, 0xca, 0xff, 0x08, 0x91, 0xdd,
     0x68, 0x2b, 0xac, 0x1a, 0x85, 0xd4, 0xd8, 0x32, 0xb7, 0x81, 0xea, 0x45, 0x19, 0x15, 0xde, 0x5f,
     0xc5, 0xbf, 0x0d, 0xc4, 0xa1, 0x91, 0x7c, 0xd4, 0x2f, 0xa0, 0x41, 0xe3, 0xf9, 0x98, 0xe0, 0xee]"

definition POLICY_A_SM3_256 :: bytes where
  "POLICY_A_SM3_256 = [
     0xc6, 0x7f, 0x7d, 0x35, 0xf6, 0x6f, 0x3b, 0xec, 0x13, 0xc8, 0x9f, 0xe8, 0x98, 0x92, 0x1c, 0x65,
     0x1b, 0x0c, 0xb5, 0xa3, 0x8a, 0x92, 0x69, 0x0a, 0x62, 0xa4, 0x3c, 0x00, 0x12, 0xe4, 0xfb, 0x8b]"

definition POLICY_C_SHA384 :: bytes where
  "POLICY_C_SHA384 = [
     0xd6, 0x03, 0x2c, 0xe6, 0x1f, 0x2f, 0xb3, 0xc2, 0x40, 0xeb, 0x3c, 0xf6, 0xa3, 0x32, 0x37, 0xef,
     0x2b, 0x6a, 0x16, 0xf4, 0x29, 0x3c, 0x22, 0xb4, 0x55, 0xe2, 0x61, 0xcf, 0xfd, 0x21, 0x7a, 0xd5,
     0xb4, 0x94, 0x7c, 0x2d, 0x73, 0xe6, 0x30, 0x05, 0xee, 0xd2, 0xdc, 0x2b, 0x35, 0x93, 0xd1, 0x65]"

definition POLICY_C_SHA512 :: bytes where
  "POLICY_C_SHA512 = [
     0x58, 0x9e, 0xe1, 0xe1, 0x46, 0x54, 0x47, 0x16, 0xe8, 0xde, 0xaf, 0xe6, 0xdb, 0x24, 0x7b, 0x01,
     0xb8, 0x1e, 0x9f, 0x9c, 0x7d, 0xd1, 0x6b, 0x81, 0x4a, 0xa1, 0x59, 0x13, 0x87, 0x49, 0x10, 0x5f,
     0xba, 0x53, 0x88, 0xdd, 0x1d, 0xea, 0x70, 0x2f, 0x35, 0x24, 0x0c, 0x18, 0x49, 0x33, 0x12, 0x1e,
     0x2c, 0x61, 0xb8, 0xf5, 0x0d, 0x3e, 0xf9, 0x13, 0x93, 0xa4, 0x9a, 0x38, 0xc3, 0xf7, 0x3f, 0xc8]"

definition POLICY_C_SM3_256 :: bytes where
  "POLICY_C_SM3_256 = [
     0x2d, 0x4e, 0x81, 0x57, 0x8c, 0x35, 0x31, 0xd9, 0xbd, 0x1c, 0xdd, 0x7d, 0x02, 0xba, 0x29, 0x8d,
     0x56, 0x99, 0xa3, 0xe3, 0x9f, 0xc3, 0x55, 0x1b, 0xfe, 0xff, 0xcf, 0x13, 0x2b, 0x49, 0xe1, 0x1d]"

definition ak_attributes :: object_attributes where
  "ak_attributes = set_object_attr SensitiveDataOrigin True (set_object_attr FixedParent True
     (set_object_attr FixedTpm True (set_object_attr Decrypt False (set_object_attr SignEncrypt True
       (set_object_attr UserWithAuth True (set_object_attr Restricted True 0))))))"

definition ak_public :: "algorithm_selection \<Rightarrow> hashing_algorithm \<Rightarrow> signature_scheme_algorithm \<Rightarrow>
    key_customization \<Rightarrow> public_area tss" where
  "ak_public alg h sg kc =
     (let at = custom_attributes kc ak_attributes in
      bnd (case alg of
        SelectRsa k \<Rightarrow>
          bnd (rsa_scheme_alg_of_id (signature_scheme_id sg)) (\<lambda>a.
          bnd (rsa_scheme_create a (Some h)) (\<lambda>s.
          bnd (rsa_build (rsa_builder_new \<lparr> rb_scheme := Some s, rb_key_bits := Some k, rb_exponent := Some 0,
                 rb_signing := object_attr at SignEncrypt, rb_decryption := object_attr at Decrypt,
                 rb_restricted := object_attr at Restricted \<rparr>)) (\<lambda>ps.
          Inr (public_builder_new \<lparr> pb_algorithm := Some Pub_Rsa, pb_name_hash := Some h,
                 pb_attributes := Some at, pb_rsa := Some ps, pb_rsa_unique := Some [] \<rparr>))))
      | SelectEcc c \<Rightarrow>
          bnd (ecc_scheme_alg_of_id (signature_scheme_id sg)) (\<lambda>a.
          bnd (ecc_scheme_create a (Some h) (if sg = Sig_EcDaa then Some 0 else None)) (\<lambda>s.
          bnd (ecc_build (ecc_builder_new \<lparr> eb_symmetric := Some ObjNull, eb_scheme := Some s,
                 eb_curve := Some c, eb_kdf := Some NullKdf \<rparr>)) (\<lambda>ps.
          Inr (public_builder_new \<lparr> pb_algorithm := Some Pub_Ecc, pb_name_hash := Some h,
                 pb_attributes := Some at, pb_ecc := Some ps, pb_ecc_unique := Some ecc_point_default \<rparr>)))))
      (\<lambda>b. public_build (custom_template kc b)))"

text \<open>The digests of the policies a parent key may be used under, by its name hash.\<close>

definition parent_policies :: "hashing_algorithm \<Rightarrow> bytes list tss" where
  "parent_policies h =
     (let two = (\<lambda>a b. bnd (buffer_try_from DIGEST_MAX a) (\<lambda>a'. bnd (digest_list_add [] a') (\<lambda>l.
                 bnd (buffer_try_from DIGEST_MAX b) (digest_list_add l)))) in
      case h of
        AlgSha384 \<Rightarrow> two POLICY_A_SHA384 POLICY_C_SHA384
      | AlgSha512 \<Rightarrow> two POLICY_A_SHA512 POLICY_C_SHA512
      | AlgSm3_256 \<Rightarrow> two POLICY_A_SM3_256 POLICY_C_SM3_256
      | _ \<Rightarrow> Inr [])"

lemma ak_attributes_get [simp]:
  "object_attr ak_attributes SignEncrypt" "\<not> object_attr ak_attributes Decrypt"
  "object_attr ak_attributes Restricted"
  by (simp_all add: ak_attributes_def)

lemma ak_signature_scheme:
  "ecc_scheme_alg_of_id (signature_scheme_id sg) = Inr a \<Longrightarrow> ecc_scheme_create a (Some h) n = Inr s \<Longrightarrow>
     ecc_scheme_alg s \<in> {EccAlg_EcDsa, EccAlg_EcDaa, EccAlg_Sm2, EccAlg_EcSchnorr}"
  by (cases sg) (auto simp: ecc_scheme_alg_of_id_def ecc_scheme_create_def local_error_def)

lemma ak_template_is_signing_key:
  assumes "ak_public alg h sg None = Inr p"
  shows "public_wf p \<and> area_consistent p \<and> object_attributes (public_head_of p) = ak_attributes
     \<and> name_hashing_algorithm (public_head_of p) = h"
proof (cases alg)
  case (SelectRsa k)
  then obtain a s ps where s: "rsa_scheme_create a (Some h) = Inr s"
      and ps: "rsa_build (rsa_builder_new \<lparr> rb_scheme := Some s, rb_key_bits := Some k, rb_exponent := Some 0,
        rb_signing := True, rb_decryption := False, rb_restricted := True \<rparr>) = Inr ps"
      and p: "p = PublicRsa \<lparr> object_attributes = ak_attributes, name_hashing_algorithm = h, public_auth_policy = [] \<rparr> ps []"
    using assms by (auto simp: ak_public_def custom_attributes_def custom_template_def public_build_def
        public_builder_new_def Let_def bnd_eq_Inr)
  show ?thesis
    using ps p unfolding rsa_build_accepts
    by (simp add: public_wf_def area_consistent_def rsa_builder_new_def symmetric_fits_def Let_def)
next
  case (SelectEcc c)
  then obtain a s ps where s: "ecc_scheme_alg_of_id (signature_scheme_id sg) = Inr a"
      "ecc_scheme_create a (Some h) (if sg = Sig_EcDaa then Some 0 else None) = Inr s"
      and ps: "ecc_build (ecc_builder_new \<lparr> eb_symmetric := Some ObjNull, eb_scheme := Some s,
        eb_curve := Some c, eb_kdf := Some NullKdf \<rparr>) = Inr ps"
      and p: "p = PublicEcc \<lparr> object_attributes = ak_attributes, name_hashing_algorithm = h, public_auth_policy = [] \<rparr> ps
        ecc_point_default"
    using assms by (auto simp: ak_public_def custom_attributes_def custom_template_def public_build_def
        public_builder_new_def Let_def bnd_eq_Inr)
  show ?thesis
    using ps p ak_signature_scheme [OF s] unfolding ecc_build_accepts
    by (auto simp: public_wf_def area_consistent_def Let_def ecc_schemes_for_def ecc_builder_new_def
        ecc_point_default_def ECC_PARAMETER_MAX_def)
qed

lemma parent_policies_lengths:
  "\<exists>l. parent_policies h = Inr l \<and> (\<forall>d \<in> set l. length d = hash_length h)"
  by (cases h) (auto simp: parent_policies_def buffer_try_from_def DIGEST_MAX_def digest_list_add_def
      DIGEST_LIST_MAX_def hash_length_def POLICY_A_SHA384_def POLICY_A_SHA512_def POLICY_A_SM3_256_def
      POLICY_C_SHA384_def POLICY_C_SHA512_def POLICY_C_SM3_256_def Let_def)

end
