(* ===== verification/Tss_Utils.thy ===== *)
theory Tss_Utils
  imports Tss_Templates Tss_Context
begin

text \<open>
  The rest of the utilities (\<open>utils/mod.rs\<close>): saved contexts, the key values of a public area, the
  TPM's vendor string; and the abstract ciphers of \<open>abstraction/cipher.rs\<close>.
\<close>

section \<open>Saved contexts\<close>

record saved_context =
  saved_sequence :: u64
  saved_handle :: u32
  saved_hierarchy :: u32
  context_blob :: bytes

type_synonym tpms_context = "u64 \<times> u32 \<times> u32 \<times> (u16 \<times> bytes)"

definition CONTEXT_BLOB_MAX :: nat where "CONTEXT_BLOB_MAX = 5188"

definition saved_context_try_from :: "tpms_context \<Rightarrow> saved_context tss" where
  "saved_context_try_from t = (case t of (q, h, r, n, b) \<Rightarrow>
     Inr \<lparr> saved_sequence = q, saved_handle = h, saved_hierarchy = r, context_blob = take (unat n) b \<rparr>)"

definition saved_context_to_tss :: "saved_context \<Rightarrow> tpms_context tss" where
  "saved_context_to_tss c =
     (if length (context_blob c) > CONTEXT_BLOB_MAX then local_error WrongParamSize
      else Inr (saved_sequence c, saved_handle c, saved_hierarchy c,
                of_nat (length (context_blob c)), pad_to CONTEXT_BLOB_MAX (context_blob c)))"

lemma saved_context_roundtrip:
  assumes "saved_context_to_tss c = Inr t"
  shows "saved_context_try_from t = Inr c"
proof -
  have len: "length (context_blob c) \<le> CONTEXT_BLOB_MAX"
    using assms by (auto simp: saved_context_to_tss_def split: if_splits)
  then have "unat (of_nat (length (context_blob c)) :: u16) = length (context_blob c)"
    by (simp add: CONTEXT_BLOB_MAX_def unat_of_nat)
  then show ?thesis using assms len
    by (auto simp: saved_context_to_tss_def saved_context_try_from_def pad_to_def)
qed

section \<open>Key values\<close>

datatype key_value = RsaValue bytes | EccValue bytes bytes

definition key_value_of :: "public_area \<Rightarrow> key_value tss" where
  "key_value_of p = (case p of
       PublicRsa _ _ u \<Rightarrow> Inr (RsaValue u)
     | PublicEcc _ _ pt \<Rightarrow> Inr (EccValue (point_x pt) (point_y pt))
     | _ \<Rightarrow> local_error WrongValueFromTpm)"

section \<open>The vendor\<close>

text \<open>The bytes of a number from the most significant one, without the zeros, as characters.\<close>

definition tpm_int_to_string :: "u32 \<Rightarrow> string" where
  "tpm_int_to_string w = map (\<lambda>b. char_of (unat b)) (filter (\<lambda>b. b \<noteq> 0) (rev (u32_le w)))"

definition get_tpm_vendor :: "'d esys \<Rightarrow> ('d, string) tpm" where
  "get_tpm_vendor E =
     tbind (tmapM (get_tpm_property E)
       [Pt_VendorString1, Pt_VendorString2, Pt_VendorString3, Pt_VendorString4]) (\<lambda>vs.
     tret (concat (map tpm_int_to_string (filter (\<lambda>v. v \<noteq> 0) (concat (map (\<lambda>v. case v of None \<Rightarrow> [] | Some x \<Rightarrow> [x]) vs))))))"

lemma u32_le_bytes:
  "u32_le w = [of_nat (unat w), of_nat (unat w div 256), of_nat (unat w div 256 div 256),
     of_nat (unat w div 256 div 256 div 256)]"
proof -
  have "le_bytes (Suc (Suc (Suc (Suc 0)))) n = [of_nat n, of_nat (n div 256), of_nat (n div 256 div 256),
      of_nat (n div 256 div 256 div 256)]" for n
    by (simp only: le_bytes.simps)
  moreover have "(4 :: nat) = Suc (Suc (Suc (Suc 0)))" by simp
  ultimately show ?thesis unfolding u32_le_def by metis
qed

lemma tpm_int_to_string_test:
  "tpm_int_to_string 0x4D534654 = ''MSFT''" "tpm_int_to_string 0x41420000 = ''AB''" "tpm_int_to_string 0 = ''''"
  by (simp_all add: tpm_int_to_string_def u32_le_bytes char_of_def bit_simps)

lemma get_tpm_vendor_cached:
  assumes "map_of (cached_tpm_properties c) Pt_VendorString1 = Some a"
    and "map_of (cached_tpm_properties c) Pt_VendorString2 = Some b"
    and "map_of (cached_tpm_properties c) Pt_VendorString3 = Some e"
    and "map_of (cached_tpm_properties c) Pt_VendorString4 = Some f"
  shows "get_tpm_vendor E c = (Inr (concat (map tpm_int_to_string (filter (\<lambda>v. v \<noteq> 0) [a, b, e, f]))), c)"
  using assms by (simp add: get_tpm_vendor_def tbind_def tret_def get_tpm_property_def)

lemma keeps_get_tpm_vendor: "keeps (get_tpm_vendor E)"
  unfolding get_tpm_vendor_def by (intro keeps_intros)

section \<open>Ciphers\<close>

record cipher =
  cipher_algorithm :: symmetric_algorithm
  cipher_mode :: "symmetric_mode option"
  cipher_key_bits :: "u16 option"
  cipher_hash :: "hashing_algorithm option"

definition sized_cipher :: "symmetric_algorithm \<Rightarrow> u16 set \<Rightarrow> symmetric_mode \<Rightarrow> u16 \<Rightarrow> cipher tss" where
  "sized_cipher a sizes m k =
     (if k \<in> sizes then Inr \<lparr> cipher_algorithm = a, cipher_mode = Some m, cipher_key_bits = Some k, cipher_hash = None \<rparr>
      else local_error InvalidParam)"

definition cipher_aes :: "symmetric_mode \<Rightarrow> u16 \<Rightarrow> cipher tss" where
  "cipher_aes = sized_cipher Sym_Aes {128, 192, 256}"

definition cipher_camellia :: "symmetric_mode \<Rightarrow> u16 \<Rightarrow> cipher tss" where
  "cipher_camellia = sized_cipher Sym_Camellia {128, 192, 256}"

definition cipher_tdes :: "symmetric_mode \<Rightarrow> u16 \<Rightarrow> cipher tss" where
  "cipher_tdes = sized_cipher Sym_Tdes {56, 112, 168}"

definition cipher_sm4 :: "symmetric_mode \<Rightarrow> cipher" where
  "cipher_sm4 m = \<lparr> cipher_algorithm = Sym_Sm4, cipher_mode = Some m, cipher_key_bits = Some 128, cipher_hash = None \<rparr>"

definition cipher_xor :: "hashing_algorithm \<Rightarrow> cipher" where
  "cipher_xor h = \<lparr> cipher_algorithm = Sym_Xor, cipher_mode = None, cipher_key_bits = None, cipher_hash = Some h \<rparr>"

definition cipher_aes_cfb :: "u16 \<Rightarrow> cipher" where
  "cipher_aes_cfb k = \<lparr> cipher_algorithm = Sym_Aes, cipher_mode = Some Mode_Cfb, cipher_key_bits = Some k, cipher_hash = None \<rparr>"

text \<open>Both conversions take the key size, then the mode.\<close>

definition sized_definition ::
  "(u16 \<Rightarrow> 'k tss) \<Rightarrow> ('k \<Rightarrow> symmetric_mode \<Rightarrow> 'a) \<Rightarrow> cipher \<Rightarrow> 'a tss" where
  "sized_definition bits con c =
     bnd (bnd (some_or ParamsMissing (cipher_key_bits c)) bits) (\<lambda>k.
     bnd (some_or ParamsMissing (cipher_mode c)) (\<lambda>m. Inr (con k m)))"

definition cipher_definition :: "cipher \<Rightarrow> symmetric_definition tss" where
  "cipher_definition c = (case cipher_algorithm c of
       Sym_Aes \<Rightarrow> sized_definition aes_bits_try_from SymAes c
     | Sym_Sm4 \<Rightarrow> sized_definition sm4_bits_try_from SymSm4 c
     | Sym_Camellia \<Rightarrow> sized_definition camellia_bits_try_from SymCamellia c
     | Sym_Xor \<Rightarrow> bnd (some_or ParamsMissing (cipher_hash c)) (\<lambda>h.
         if h \<noteq> AlgNull then Inr (SymXor h) else local_error InvalidParam)
     | Sym_Null \<Rightarrow> Inr SymNull
     | Sym_Tdes \<Rightarrow> local_error UnsupportedParam)"

definition cipher_definition_object :: "cipher \<Rightarrow> symmetric_definition_object tss" where
  "cipher_definition_object c = bnd (symmetric_object_of_id (symmetric_id (cipher_algorithm c))) (\<lambda>a. case a of
       Obj_Aes \<Rightarrow> sized_definition aes_bits_try_from ObjAes c
     | Obj_Sm4 \<Rightarrow> sized_definition sm4_bits_try_from ObjSm4 c
     | Obj_Camellia \<Rightarrow> sized_definition camellia_bits_try_from ObjCamellia c
     | Obj_Null \<Rightarrow> Inr ObjNull
     | Obj_Tdes \<Rightarrow> local_error UnsupportedParam)"

definition cipher_parameters :: "cipher \<Rightarrow> symmetric_cipher_parameters tss" where
  "cipher_parameters c = cipher_definition_object c"

text \<open>A cipher that serves objects is the same cipher as a definition, with one exception: none.\<close>

lemma cipher_definitions_agree:
  "cipher_definition_object c = Inr ob \<Longrightarrow> cipher_definition c = Inr (symmetric_of_object ob)"
  by (cases "cipher_algorithm c")
    (auto simp: cipher_definition_object_def cipher_definition_def symmetric_object_of_id_def sized_definition_def local_error_def)

lemma ciphers_convert:
  "cipher_aes m k = Inr c \<Longrightarrow> \<exists>b. cipher_definition c = Inr (SymAes b m) \<and> aes_bits_u16 b = k"
  "cipher_camellia m k = Inr c \<Longrightarrow> \<exists>b. cipher_definition c = Inr (SymCamellia b m) \<and> camellia_bits_u16 b = k"
  "cipher_definition (cipher_sm4 m) = Inr (SymSm4 Sm4_128 m)"
  "is_ok (cipher_definition (cipher_xor h)) \<longleftrightarrow> h \<noteq> AlgNull"
  "cipher_tdes m k = Inr c \<Longrightarrow> cipher_definition c = local_error UnsupportedParam"
  "cipher_definition_object (cipher_aes_cfb 128) = Inr AES_128_CFB"
  "cipher_definition_object (cipher_aes_cfb 256) = Inr AES_256_CFB"
  by (auto simp: cipher_aes_def cipher_camellia_def cipher_tdes_def cipher_sm4_def cipher_xor_def cipher_aes_cfb_def
      sized_cipher_def cipher_definition_def cipher_definition_object_def sized_definition_def is_ok_iff
      symmetric_object_of_id_def AES_128_CFB_def AES_256_CFB_def
      aes_bits_try_from_def camellia_bits_try_from_def sm4_bits_try_from_def split: if_splits)

end
