(* ===== verification/Tss_Session.thy ===== *)
theory Tss_Session
  imports Tss_Utils
begin

unbundle bit_operations_syntax

text \<open>
  Sessions: their attributes (\<open>attributes/session.rs\<close>), starting one and setting its attributes
  (\<open>context/tpm_commands/session_commands.rs\<close>, \<open>context/session_administration.rs\<close>), the objects'
  authorisation and name (\<open>context/general_esys_tr.rs\<close>), and the fresh session that
  \<open>execute_with_nullauth_session\<close> of \<open>context.rs\<close> runs a closure in.
\<close>

section \<open>Attributes\<close>

datatype session_flag =
    SessContinue | SessAuditExclusive | SessAuditReset | SessDecrypt | SessEncrypt | SessAudit

primrec session_flag_bit :: "session_flag \<Rightarrow> nat" where
  "session_flag_bit SessContinue = 0"
| "session_flag_bit SessAuditExclusive = 1"
| "session_flag_bit SessAuditReset = 2"
| "session_flag_bit SessDecrypt = 5"
| "session_flag_bit SessEncrypt = 6"
| "session_flag_bit SessAudit = 7"

text \<open>The builder: the attributes, and the mask of those that were given.\<close>

type_synonym session_attributes_builder = "u8 \<times> u8"

definition session_builder_new :: session_attributes_builder where
  "session_builder_new = (0, 0)"

definition with_session_flag :: "session_flag \<Rightarrow> bool \<Rightarrow> session_attributes_builder \<Rightarrow> session_attributes_builder" where
  "with_session_flag f b p = (let n = session_flag_bit f in
     ((if b then set_bit n (fst p) else unset_bit n (fst p)), set_bit n (snd p)))"

definition nullauth_attributes :: session_attributes_builder where
  "nullauth_attributes = with_session_flag SessEncrypt True (with_session_flag SessDecrypt True session_builder_new)"

lemma session_flag_bit_less: "session_flag_bit f < 8"
  by (cases f) simp_all

lemma session_flag_bit_inject: "session_flag_bit f = session_flag_bit g \<longleftrightarrow> f = g"
  by (cases f; cases g) simp_all

lemma with_session_flag_bits:
  "bit (fst (with_session_flag f b p)) (session_flag_bit g) = (if g = f then b else bit (fst p) (session_flag_bit g))"
  "bit (snd (with_session_flag f b p)) (session_flag_bit g) \<longleftrightarrow> g = f \<or> bit (snd p) (session_flag_bit g)"
  using session_flag_bit_less [of f]
  by (auto simp: with_session_flag_def Let_def bit_simps session_flag_bit_inject)

lemma nullauth_attributes_value: "nullauth_attributes = (0x60, 0x60)"
  by (simp add: nullauth_attributes_def with_session_flag_def session_builder_new_def Let_def)

section \<open>The calls of ESYS\<close>

record 'd esys_sess =
  esys_start_auth_session :: "u32 \<Rightarrow> u32 \<Rightarrow> (u16 \<times> bytes) option \<Rightarrow> u8 \<Rightarrow> tpmt_sym_def \<Rightarrow> u16 \<Rightarrow>
      esys_sessions \<Rightarrow> 'd \<Rightarrow> u32 \<times> u32 \<times> 'd"
  esys_policy_restart :: "u32 \<Rightarrow> esys_sessions \<Rightarrow> 'd \<Rightarrow> u32 \<times> unit \<times> 'd"
  esys_sess_set_attributes :: "u32 \<Rightarrow> u8 \<Rightarrow> u8 \<Rightarrow> 'd \<Rightarrow> u32 \<times> unit \<times> 'd"
  esys_sess_get_attributes :: "u32 \<Rightarrow> 'd \<Rightarrow> u32 \<times> u8 \<times> 'd"
  esys_tr_set_auth :: "u32 \<Rightarrow> u16 \<times> bytes \<Rightarrow> 'd \<Rightarrow> u32 \<times> unit \<times> 'd"
  esys_tr_get_name :: "u32 \<Rightarrow> 'd \<Rightarrow> u32 \<times> name \<times> 'd"

primrec session_type_u8 :: "session_type \<Rightarrow> u8" where
  "session_type_u8 Hmac = 0"
| "session_type_u8 Policy = 1"
| "session_type_u8 Trial = 3"

definition session_type_try_from :: "u8 \<Rightarrow> session_type tss" where
  "session_type_try_from w =
     (if w = 0 then Inr Hmac else if w = 1 then Inr Policy else if w = 3 then Inr Trial
      else local_error InvalidParam)"

definition NONCE_MAX :: nat where "NONCE_MAX = 64"
definition AUTH_VALUE_MAX :: nat where "AUTH_VALUE_MAX = 64"

definition or_none :: "object_handle option \<Rightarrow> object_handle" where
  "or_none h = (case h of None \<Rightarrow> ESYS_TR_NONE | Some x \<Rightarrow> x)"

definition start_auth_session :: "'d esys_sess \<Rightarrow> object_handle option \<Rightarrow> object_handle option \<Rightarrow> bytes option \<Rightarrow>
    session_type \<Rightarrow> symmetric_definition \<Rightarrow> hashing_algorithm \<Rightarrow> ('d, auth_session option) tpm" where
  "start_auth_session S key bind nonce ty sd h =
     tbind (tlift (symmetric_definition_to_tss sd)) (\<lambda>y.
     tbind (esys_call (esys_start_auth_session S (or_none key) (or_none bind)
              (map_option (buffer_to_tss NONCE_MAX) nonce) (session_type_u8 ty) y (hash_alg_u16 h))) (\<lambda>sh.
     tbind (manage (add_handle sh FlushHandle)) (\<lambda>_.
     tret (auth_session_create ty sh h))))"

definition policy_restart :: "'d esys_sess \<Rightarrow> object_handle \<Rightarrow> ('d, unit) tpm" where
  "policy_restart S h = esys_call (esys_policy_restart S h)"

definition tr_sess_set_attributes :: "'d esys_sess \<Rightarrow> auth_session \<Rightarrow> u8 \<Rightarrow> u8 \<Rightarrow> ('d, unit) tpm" where
  "tr_sess_set_attributes S s at mk = esys_call (\<lambda>_. esys_sess_set_attributes S (session_esys s) at mk)"

definition tr_sess_get_attributes :: "'d esys_sess \<Rightarrow> auth_session \<Rightarrow> ('d, u8) tpm" where
  "tr_sess_get_attributes S s = esys_call (\<lambda>_. esys_sess_get_attributes S (session_esys s))"

definition tr_set_auth :: "'d esys_sess \<Rightarrow> object_handle \<Rightarrow> bytes \<Rightarrow> ('d, unit) tpm" where
  "tr_set_auth S ob a = esys_call (\<lambda>_. esys_tr_set_auth S ob (buffer_to_tss AUTH_VALUE_MAX a))"

definition tr_get_name :: "'d esys_sess \<Rightarrow> object_handle \<Rightarrow> ('d, name) tpm" where
  "tr_get_name S ob = tbind (esys_call (\<lambda>_. esys_tr_get_name S ob)) (\<lambda>n. tlift (name_try_from n))"

text \<open>
  The session is flushed after the closure, failed or not, and an error of the flush wins; it is not
  flushed when its attributes cannot be set.
\<close>

definition execute_with_nullauth_session :: "'d esys \<Rightarrow> 'd esys_sess \<Rightarrow> ('d, 'a) tpm \<Rightarrow> ('d, 'a) tpm" where
  "execute_with_nullauth_session E S f =
     tbind (start_auth_session S None None None Hmac (SymAes Aes128 Mode_Cfb) AlgSha256) (\<lambda>os. case os of
         None \<Rightarrow> tlift (local_error WrongValueFromTpm)
       | Some s \<Rightarrow>
           tbind (tr_sess_set_attributes S s (fst nullauth_attributes) (snd nullauth_attributes)) (\<lambda>_ c.
           (let (res, c1) = execute_with_session (Some s) f c in
            case flush_context E (session_esys s) c1 of (Inl e, c2) \<Rightarrow> (Inl e, c2) | (Inr _, c2) \<Rightarrow> (res, c2))))"

section \<open>What they keep\<close>

lemma session_type_roundtrip: "session_type_try_from w = Inr t \<longleftrightarrow> session_type_u8 t = w"
  by (cases t) (auto simp: session_type_try_from_def)

text \<open>
  A session that is started is an open handle to flush. The code allows for ESYS to return no
  handle, and documents that there is then no session; the handle manager refuses it before.
\<close>

lemma manage_add_handle_Inr:
  "manage (add_handle h a) c = (Inr u, c') \<Longrightarrow>
     h \<noteq> ESYS_TR_NONE \<and> c' = c \<lparr> handle_manager := AList.update h a (handle_manager c) \<rparr>"
  by (cases "map_of (handle_manager c) h") (auto simp: manage_def add_handle_def split: if_splits)

lemma start_auth_session_Inr:
  assumes "start_auth_session S key bind nonce ty sd h c = (Inr os, c')"
  shows "\<exists>sh. sh \<noteq> ESYS_TR_NONE \<and> os = auth_session_create ty sh h \<and> os \<noteq> None
    \<and> map_of (handle_manager c') sh = Some FlushHandle \<and> ctx_sessions c' = ctx_sessions c"
proof -
  obtain y where y: "symmetric_definition_to_tss sd = Inr y"
    using assms by (cases "symmetric_definition_to_tss sd") (simp_all add: start_auth_session_def tbind_def tlift_def)
  obtain sh d where call: "esys_call (esys_start_auth_session S (or_none key) (or_none bind)
      (map_option (buffer_to_tss NONCE_MAX) nonce) (session_type_u8 ty) y (hash_alg_u16 h)) c = (Inr sh, c \<lparr> device := d \<rparr>)"
    and rest: "tbind (manage (add_handle sh FlushHandle)) (\<lambda>_. tret (auth_session_create ty sh h)) (c \<lparr> device := d \<rparr>) = (Inr os, c')"
    using assms y unfolding start_auth_session_def tbind_Inr by (auto simp: tlift_def esys_call_Inr)
  from rest have "sh \<noteq> ESYS_TR_NONE" "os = auth_session_create ty sh h"
      "c' = c \<lparr> device := d, handle_manager := AList.update sh FlushHandle (handle_manager c) \<rparr>"
    unfolding tbind_Inr by (auto simp: tret_def dest!: manage_add_handle_Inr)
  then show ?thesis by (intro exI [of _ sh]) (simp add: auth_session_create_def update_conv')
qed

lemma keeps_start_auth_session [keeps_intros]: "keeps (start_auth_session S key bind nonce ty sd h)"
  unfolding start_auth_session_def by (intro keeps_intros)

lemma keeps_sess_commands [keeps_intros]:
  "keeps (policy_restart S ob)" "keeps (tr_sess_set_attributes S s at m)" "keeps (tr_sess_get_attributes S s)"
  "keeps (tr_set_auth S ob a)" "keeps (tr_get_name S ob)"
  unfolding policy_restart_def tr_sess_set_attributes_def tr_sess_get_attributes_def tr_set_auth_def tr_get_name_def
  by (intro keeps_intros)+

lemma keeps_execute_with_session [keeps_intros]: "keeps m \<Longrightarrow> keeps (execute_with_session s m)"
  by (simp add: execute_with_session_def keeps_execute)

lemma keeps_after [keeps_intros]:
  assumes "keeps m" and "keeps (n :: ('d, 'b) tpm)"
  shows "keeps (\<lambda>c. let (res, c1) = m c in case n c1 of (Inl e, c2) \<Rightarrow> (Inl e, c2) | (Inr _, c2) \<Rightarrow> (res, c2))"
proof (rule keepsI)
  fix c r c'
  assume run: "(let (res, c1) = m c in case n c1 of (Inl e, c2) \<Rightarrow> (Inl e, c2) | (Inr _, c2) \<Rightarrow> (res, c2)) = (r, c')"
  obtain res c1 where m: "m c = (res, c1)" by fastforce
  obtain q c2 where n: "n c1 = (q, c2)" by fastforce
  have "c' = c2" using run m n by (auto split: sum.splits)
  then show "(manager_inv (handle_manager c) \<longrightarrow> manager_inv (handle_manager c')) \<and> ctx_sessions c' = ctx_sessions c"
    using keepsD [OF assms(1) m] keepsD [OF assms(2) n] by auto
qed

lemma keeps_option [keeps_intros]:
  "keeps a \<Longrightarrow> (\<And>x. keeps (b x)) \<Longrightarrow> keeps (case m of None \<Rightarrow> a | Some x \<Rightarrow> b x)"
  by (cases m) simp_all

lemma keeps_nullauth [keeps_intros]: "keeps f \<Longrightarrow> keeps (execute_with_nullauth_session E S f)"
  unfolding execute_with_nullauth_session_def by (intro keeps_intros)

section \<open>The fresh session\<close>

text \<open>
  What the closure runs in: the handle of the session is open, and it is the only session.
\<close>

definition in_nullauth_session :: "object_handle \<Rightarrow> 'd \<Rightarrow> 'd tpm_context \<Rightarrow> 'd tpm_context" where
  "in_nullauth_session h d c = c \<lparr> device := d, handle_manager := AList.update h FlushHandle (handle_manager c),
     ctx_sessions := (Some (HmacSession AlgSha256 h), None, None) \<rparr>"

definition nullauth_started :: "'d esys_sess \<Rightarrow> 'd tpm_context \<Rightarrow> object_handle \<Rightarrow> 'd \<Rightarrow> bool" where
  "nullauth_started S c h d \<longleftrightarrow> h \<noteq> ESYS_TR_NONE \<and> h \<noteq> ESYS_TR_RH_NULL \<and> map_of (handle_manager c) h = None
     \<and> (\<exists>y d1. symmetric_definition_to_tss (SymAes Aes128 Mode_Cfb) = Inr y
          \<and> esys_start_auth_session S ESYS_TR_NONE ESYS_TR_NONE None 0 y (hash_alg_u16 AlgSha256)
              (optional_sessions c) (device c) = (0, h, d1)
          \<and> esys_sess_set_attributes S h 0x60 0x60 d1 = (0, (), d))"

lemma nullauth_session_run:
  assumes start: "nullauth_started S c h d"
    and run: "f (in_nullauth_session h d c) = (r, c1)"
    and flush: "esys_flush_context E h (device c1) = (0, (), d2)"
  shows "execute_with_nullauth_session E S f c =
     ((if map_of (handle_manager c1) h = Some FlushHandle then r else local_error InvalidHandleState),
      c1 \<lparr> ctx_sessions := ctx_sessions c, device := d2, handle_manager := AList.delete h (handle_manager c1) \<rparr>)"
proof -
  obtain y d1 where y: "symmetric_definition_to_tss (SymAes Aes128 Mode_Cfb) = Inr y"
    and s: "esys_start_auth_session S ESYS_TR_NONE ESYS_TR_NONE None 0 y (hash_alg_u16 AlgSha256)
              (optional_sessions c) (device c) = (0, h, d1)"
    and a: "esys_sess_set_attributes S h 0x60 0x60 d1 = (0, (), d)"
    and h: "h \<noteq> ESYS_TR_NONE" "h \<noteq> ESYS_TR_RH_NULL" "map_of (handle_manager c) h = None"
    using start by (auto simp: nullauth_started_def)
  let ?c = "c \<lparr> device := d1, handle_manager := AList.update h FlushHandle (handle_manager c) \<rparr>"
  have "start_auth_session S None None None Hmac (SymAes Aes128 Mode_Cfb) AlgSha256 c
      = (Inr (Some (HmacSession AlgSha256 h)), ?c)"
    using y s h by (simp add: start_auth_session_def tbind_def tlift_def esys_call_def or_none_def rc_success_iff
        manage_def add_handle_def tret_def auth_session_create_def)
  moreover have "tr_sess_set_attributes S (HmacSession AlgSha256 h) 0x60 0x60 ?c = (Inr (), ?c \<lparr> device := d \<rparr>)"
    using a by (simp add: tr_sess_set_attributes_def esys_call_def rc_success_iff)
  moreover have "execute_with_session (Some (HmacSession AlgSha256 h)) f (?c \<lparr> device := d \<rparr>)
      = (r, c1 \<lparr> ctx_sessions := ctx_sessions c \<rparr>)"
    using run by (cases c) (simp add: execute_with_session_def execute_with_sessions_def set_sessions_def in_nullauth_session_def)
  moreover have "flush_context E h (c1 \<lparr> ctx_sessions := ctx_sessions c \<rparr>)
      = ((if map_of (handle_manager c1) h = Some FlushHandle then Inr () else local_error InvalidHandleState),
         c1 \<lparr> ctx_sessions := ctx_sessions c, device := d2, handle_manager := AList.delete h (handle_manager c1) \<rparr>)"
    using flush h(1)
    by (simp add: flush_context_def tbind_def tlift_def try_into_not_none_def esys_call_def rc_success_iff
        manage_def set_as_flushed_def set_as_def split: option.split)
  ultimately show ?thesis
    by (simp add: execute_with_nullauth_session_def tbind_def nullauth_attributes_value local_error_def)
qed

text \<open>
  C20. A closure that runs in a fresh session has that session for its own and leaves nothing of it
  behind: it sees exactly one session, the one that was started, with its handle open; whether it
  fails or not, its result comes through, the caller's sessions are in place again, the session is
  flushed in the TPM, its handle is not open any more, and every other handle is as the closure left
  it.
\<close>

theorem nullauth_session_released:
  assumes "nullauth_started S c h d"
    and "f (in_nullauth_session h d c) = (r, c1)"
    and "map_of (handle_manager c1) h = Some FlushHandle"
    and "esys_flush_context E h (device c1) = (0, (), d2)"
  shows "case execute_with_nullauth_session E S f c of (r', c') \<Rightarrow>
     r' = r \<and> ctx_sessions c' = ctx_sessions c \<and> device c' = d2
     \<and> map_of (handle_manager c') = (map_of (handle_manager c1))(h := None)"
  using nullauth_session_run [where f = f, OF assms(1,2,4)] assms(3) by (simp add: delete_conv')

text \<open>
  When the attributes cannot be set the session stays open, until the context is dropped.
\<close>

lemma nullauth_session_left_open:
  assumes "start_auth_session S None None None Hmac (SymAes Aes128 Mode_Cfb) AlgSha256 c = (Inr (Some s), c1)"
    and "fst (esys_sess_set_attributes S (session_esys s) 0x60 0x60 (device c1)) = rc" and "rc \<noteq> 0"
  shows "fst (execute_with_nullauth_session E S f c) = Inl (Err (from_tss_rc rc))
     \<and> map_of (handle_manager (snd (execute_with_nullauth_session E S f c))) (session_esys s) = Some FlushHandle"
proof -
  have "map_of (handle_manager c1) (session_esys s) = Some FlushHandle"
    using start_auth_session_Inr [OF assms(1)] auth_session_create_esys by (metis option.inject)
  then show ?thesis
    using assms
    by (cases "esys_sess_set_attributes S (session_esys s) 0x60 0x60 (device c1)")
      (simp add: execute_with_nullauth_session_def tbind_def nullauth_attributes_value tr_sess_set_attributes_def
        esys_call_def rc_success_iff)
qed

text \<open>A TPM whose next session has a fixed handle.\<close>

definition logging_sess :: "(drop_action \<times> u32) list esys_sess" where
  "logging_sess = \<lparr>
     esys_start_auth_session = \<lambda>k b n t y h s d. (0, 4403010, d),
     esys_policy_restart = \<lambda>h s d. (0, (), d),
     esys_sess_set_attributes = \<lambda>h a m d. (0, (), d),
     esys_sess_get_attributes = \<lambda>h d. (0, 0x60, d),
     esys_tr_set_auth = \<lambda>h a d. (0, (), d),
     esys_tr_get_name = \<lambda>h d. (0, (0, []), d) \<rparr>"

theorem nullauth_session_released_witness:
  "case execute_with_nullauth_session logging_esys logging_sess (tr_sess_get_attributes logging_sess Password)
      sample_context of (r', c') \<Rightarrow>
     r' = Inr 0x60 \<and> device c' = [(FlushHandle, 4403010)] \<and> map_of (handle_manager c') 4403010 = None"
proof -
  have "nullauth_started logging_sess sample_context 4403010 []"
    by (simp add: nullauth_started_def logging_sess_def sample_context_def new_context_def
        symmetric_definition_to_tss_def ESYS_TR_NONE_def ESYS_TR_RH_NULL_def)
  moreover have "tr_sess_get_attributes logging_sess Password (in_nullauth_session 4403010 [] sample_context)
      = (Inr 0x60, in_nullauth_session 4403010 [] sample_context)"
    by (simp add: tr_sess_get_attributes_def esys_call_def logging_sess_def rc_success_iff in_nullauth_session_def)
  moreover have "map_of (handle_manager (in_nullauth_session 4403010 [] sample_context)) 4403010 = Some FlushHandle"
    by (simp add: in_nullauth_session_def update_conv')
  moreover have "esys_flush_context logging_esys 4403010 (device (in_nullauth_session 4403010 [] sample_context))
      = (0, (), [(FlushHandle, 4403010)])"
    by (simp add: logging_esys_def in_nullauth_session_def)
  ultimately show ?thesis
    using nullauth_session_released [where S = logging_sess and E = logging_esys and c = sample_context
        and h = 4403010 and d = "[]" and f = "tr_sess_get_attributes logging_sess Password"
        and r = "Inr 0x60" and ?c1.0 = "in_nullauth_session 4403010 [] sample_context" and ?d2.0 = "[(FlushHandle, 4403010)]"]
    by (simp split: prod.splits)
qed

end
