(* ===== verification/Tss_Sensitive.thy ===== *)
theory Tss_Sensitive
  imports Tss_Public_Area
begin

text \<open>
  The sensitive area of an object (\<open>structures/tagged/sensitive.rs\<close>,
  \<open>structures/buffers/sensitive.rs\<close>), hierarchies (\<open>interface_types/resource_handles.rs\<close>) and the
  tickets a TPM gives out (\<open>structures/tickets.rs\<close>).
\<close>

section \<open>Sensitive areas\<close>

definition AUTH_MAX :: nat where "AUTH_MAX = 64"
definition PRIVATE_KEY_RSA_MAX :: nat where "PRIVATE_KEY_RSA_MAX = 512 div 2"
definition SENSITIVE_DATA_MAX :: nat where "SENSITIVE_DATA_MAX = 258 - 2"
definition SYMMETRIC_KEY_MAX :: nat where "SYMMETRIC_KEY_MAX = 32"

text \<open>Each kind with its authorisation value, its seed and its secret.\<close>

datatype sensitive =
    SensitiveRsa bytes bytes bytes | SensitiveEcc bytes bytes bytes
  | SensitiveBits bytes bytes bytes | SensitiveSymmetric bytes bytes bytes

primrec auth_value :: "sensitive \<Rightarrow> bytes" where
  "auth_value (SensitiveRsa a s x) = a"
| "auth_value (SensitiveEcc a s x) = a"
| "auth_value (SensitiveBits a s x) = a"
| "auth_value (SensitiveSymmetric a s x) = a"

primrec seed_value :: "sensitive \<Rightarrow> bytes" where
  "seed_value (SensitiveRsa a s x) = s"
| "seed_value (SensitiveEcc a s x) = s"
| "seed_value (SensitiveBits a s x) = s"
| "seed_value (SensitiveSymmetric a s x) = s"

primrec sensitive_type :: "sensitive \<Rightarrow> public_algorithm" where
  "sensitive_type (SensitiveRsa a s x) = Pub_Rsa"
| "sensitive_type (SensitiveEcc a s x) = Pub_Ecc"
| "sensitive_type (SensitiveBits a s x) = Pub_KeyedHash"
| "sensitive_type (SensitiveSymmetric a s x) = Pub_SymCipher"

datatype tpmu_sensitive =
    Raw_Sens_Rsa "u16 \<times> bytes" | Raw_Sens_Ecc "u16 \<times> bytes"
  | Raw_Sens_Bits "u16 \<times> bytes" | Raw_Sens_Sym "u16 \<times> bytes"

record tpmt_sensitive =
  raw_sensitive_type :: u16
  raw_auth_value :: "u16 \<times> bytes"
  raw_seed_value :: "u16 \<times> bytes"
  raw_sensitive :: tpmu_sensitive

definition sensitive_to_tss :: "sensitive \<Rightarrow> tpmt_sensitive" where
  "sensitive_to_tss s = \<lparr> raw_sensitive_type = public_alg_u16 (sensitive_type s),
     raw_auth_value = buffer_to_tss AUTH_MAX (auth_value s),
     raw_seed_value = buffer_to_tss DIGEST_MAX (seed_value s),
     raw_sensitive = (case s of
         SensitiveRsa _ _ x \<Rightarrow> Raw_Sens_Rsa (buffer_to_tss PRIVATE_KEY_RSA_MAX x)
       | SensitiveEcc _ _ x \<Rightarrow> Raw_Sens_Ecc (buffer_to_tss ECC_PARAMETER_MAX x)
       | SensitiveBits _ _ x \<Rightarrow> Raw_Sens_Bits (buffer_to_tss SENSITIVE_DATA_MAX x)
       | SensitiveSymmetric _ _ x \<Rightarrow> Raw_Sens_Sym (buffer_to_tss SYMMETRIC_KEY_MAX x)) \<rparr>"

definition sensitive_try_from :: "tpmt_sensitive \<Rightarrow> sensitive tss" where
  "sensitive_try_from t =
     bnd (public_alg_try_from (raw_sensitive_type t)) (\<lambda>ty.
     bnd (buffer_of_tss AUTH_MAX (raw_auth_value t)) (\<lambda>a.
     bnd (buffer_of_tss DIGEST_MAX (raw_seed_value t)) (\<lambda>s.
     case ty of
       Pub_Rsa \<Rightarrow> (case raw_sensitive t of
         Raw_Sens_Rsa x \<Rightarrow> map_ok (SensitiveRsa a s) (buffer_of_tss PRIVATE_KEY_RSA_MAX x) | _ \<Rightarrow> other_member)
     | Pub_Ecc \<Rightarrow> (case raw_sensitive t of
         Raw_Sens_Ecc x \<Rightarrow> map_ok (SensitiveEcc a s) (buffer_of_tss ECC_PARAMETER_MAX x) | _ \<Rightarrow> other_member)
     | Pub_KeyedHash \<Rightarrow> (case raw_sensitive t of
         Raw_Sens_Bits x \<Rightarrow> map_ok (SensitiveBits a s) (buffer_of_tss SENSITIVE_DATA_MAX x) | _ \<Rightarrow> other_member)
     | Pub_SymCipher \<Rightarrow> (case raw_sensitive t of
         Raw_Sens_Sym x \<Rightarrow> map_ok (SensitiveSymmetric a s) (buffer_of_tss SYMMETRIC_KEY_MAX x) | _ \<Rightarrow> other_member))))"

definition sensitive_wf :: "sensitive \<Rightarrow> bool" where
  "sensitive_wf s \<longleftrightarrow> length (auth_value s) \<le> AUTH_MAX \<and> length (seed_value s) \<le> DIGEST_MAX \<and> (case s of
       SensitiveRsa _ _ x \<Rightarrow> length x \<le> PRIVATE_KEY_RSA_MAX
     | SensitiveEcc _ _ x \<Rightarrow> length x \<le> ECC_PARAMETER_MAX
     | SensitiveBits _ _ x \<Rightarrow> length x \<le> SENSITIVE_DATA_MAX
     | SensitiveSymmetric _ _ x \<Rightarrow> length x \<le> SYMMETRIC_KEY_MAX)"

lemma sensitive_roundtrip:
  assumes "sensitive_wf s"
  shows "sensitive_try_from (sensitive_to_tss s) = Inr s"
proof -
  have b: "buffer_of_tss m (buffer_to_tss m x) = Inr x" if "length x \<le> m" "m < 65536" for m x
    using that by (rule buffer_roundtrip)
  show ?thesis
    using assms
    by (cases s) (simp_all add: sensitive_wf_def sensitive_to_tss_def sensitive_try_from_def b AUTH_MAX_def
        PRIVATE_KEY_RSA_MAX_def SENSITIVE_DATA_MAX_def SYMMETRIC_KEY_MAX_def ECC_PARAMETER_MAX_def DIGEST_MAX_def)
qed

text \<open>The byte form, written and read by the C library, and the buffer that holds it.\<close>

record sensitive_mu =
  mu_sensitive_marshal :: "tpmt_sensitive \<Rightarrow> u32 \<times> bytes"
  mu_sensitive_unmarshal :: "bytes \<Rightarrow> u32 \<times> tpmt_sensitive"

definition TPMT_SENSITIVE_SIZE :: nat where "TPMT_SENSITIVE_SIZE = 1416"

definition sensitive_marshall :: "sensitive_mu \<Rightarrow> sensitive \<Rightarrow> bytes tss" where
  "sensitive_marshall M s = (case mu_sensitive_marshal M (sensitive_to_tss s) of (rc, b) \<Rightarrow>
     if \<not> rc_success (from_tss_rc rc) then Inl (Err (from_tss_rc rc)) else Inr b)"

definition sensitive_unmarshall :: "sensitive_mu \<Rightarrow> bytes \<Rightarrow> sensitive tss" where
  "sensitive_unmarshall M b = (case mu_sensitive_unmarshal M b of (rc, t) \<Rightarrow>
     if \<not> rc_success (from_tss_rc rc) then Inl (Err (from_tss_rc rc)) else sensitive_try_from t)"

type_synonym tpm2b_sensitive = "u16 \<times> tpmt_sensitive"

definition sensitive_of_tpm2b :: "tpm2b_sensitive \<Rightarrow> sensitive tss" where
  "sensitive_of_tpm2b t = sensitive_try_from (snd t)"

definition sensitive_to_tpm2b :: "sensitive_mu \<Rightarrow> sensitive \<Rightarrow> tpm2b_sensitive tss" where
  "sensitive_to_tpm2b M s = (case mu_sensitive_marshal M (sensitive_to_tss s) of (rc, b) \<Rightarrow>
     if \<not> rc_success (from_tss_rc rc) then Inl (Err (from_tss_rc rc))
     else if length b > 65535 then local_error InvalidParam
     else Inr (of_nat (length b), sensitive_to_tss s))"

definition sensitive_buffer_try_from :: "bytes \<Rightarrow> bytes tss" where
  "sensitive_buffer_try_from b = buffer_try_from TPMT_SENSITIVE_SIZE b"

definition sensitive_buffer_of_tpm2b :: "sensitive_mu \<Rightarrow> tpm2b_sensitive \<Rightarrow> bytes tss" where
  "sensitive_buffer_of_tpm2b M t =
     (if unat (fst t) > TPMT_SENSITIVE_SIZE then local_error WrongParamSize
      else bnd (sensitive_try_from (snd t)) (sensitive_marshall M))"

definition sensitive_buffer_to_tpm2b :: "sensitive_mu \<Rightarrow> bytes \<Rightarrow> tpm2b_sensitive tss" where
  "sensitive_buffer_to_tpm2b M b =
     bnd (sensitive_unmarshall M b) (\<lambda>s. Inr (of_nat (length b), sensitive_to_tss s))"

definition sensitive_mu_ok :: "sensitive_mu \<Rightarrow> bool" where
  "sensitive_mu_ok M \<longleftrightarrow> (\<forall>s. sensitive_wf s \<longrightarrow>
     (case mu_sensitive_marshal M (sensitive_to_tss s) of (rc, b) \<Rightarrow>
        rc = 0 \<and> length b \<le> TPMT_SENSITIVE_SIZE \<and> mu_sensitive_unmarshal M b = (0, sensitive_to_tss s)))"

lemma sensitive_forms_agree:
  assumes "sensitive_mu_ok M" and "sensitive_wf s"
  obtains b where "sensitive_marshall M s = Inr b" "sensitive_unmarshall M b = Inr s"
    "sensitive_to_tpm2b M s = Inr (of_nat (length b), sensitive_to_tss s)"
    "sensitive_buffer_of_tpm2b M (of_nat (length b), sensitive_to_tss s) = Inr b"
    "sensitive_buffer_to_tpm2b M b = Inr (of_nat (length b), sensitive_to_tss s)"
proof -
  obtain rc b where m: "mu_sensitive_marshal M (sensitive_to_tss s) = (rc, b)" by fastforce
  with assms have b: "rc = 0" "length b \<le> TPMT_SENSITIVE_SIZE" "mu_sensitive_unmarshal M b = (0, sensitive_to_tss s)"
    by (auto simp: sensitive_mu_ok_def split: prod.splits)
  have u: "unat (of_nat (length b) :: u16) = length b"
    using b(2) by (simp add: TPMT_SENSITIVE_SIZE_def unat_of_nat)
  show thesis
    using that [of b] m b u sensitive_roundtrip [OF assms(2)]
    by (simp add: sensitive_marshall_def sensitive_unmarshall_def sensitive_to_tpm2b_def
        sensitive_buffer_of_tpm2b_def sensitive_buffer_to_tpm2b_def rc_success_iff TPMT_SENSITIVE_SIZE_def)
qed

section \<open>Hierarchies\<close>

datatype hierarchy = H_Owner | H_Platform | H_Endorsement | H_Null

primrec hierarchy_u32 :: "hierarchy \<Rightarrow> u32" where
  "hierarchy_u32 H_Owner = 0x40000001"
| "hierarchy_u32 H_Platform = 0x4000000C"
| "hierarchy_u32 H_Endorsement = 0x4000000B"
| "hierarchy_u32 H_Null = 0x40000007"

definition hierarchy_of_handle :: "tpm_handle \<Rightarrow> hierarchy tss" where
  "hierarchy_of_handle h = (case h of
       Permanent_Handle v \<Rightarrow> some_or InvalidParam
         (List.find (\<lambda>k. hierarchy_u32 k = v) [H_Owner, H_Platform, H_Endorsement, H_Null])
     | _ \<Rightarrow> local_error InvalidParam)"

definition hierarchy_try_from :: "u32 \<Rightarrow> hierarchy tss" where
  "hierarchy_try_from w = bnd (tpm_handle_try_from w) hierarchy_of_handle"

lemma hierarchy_roundtrip [simp]: "hierarchy_try_from (hierarchy_u32 h) = Inr h"
  by (cases h) (simp_all add: hierarchy_try_from_def hierarchy_of_handle_def tpm_handle_try_from_def
      handle_new_def msb_byte_def handle_base_def)

section \<open>Tickets\<close>

text \<open>The kinds of tickets differ in the tags they may have.\<close>

datatype ticket_kind = AuthTicket | HashcheckTicket | VerifiedTicket | CreationTicket

primrec possible_tags :: "ticket_kind \<Rightarrow> structure_tag list" where
  "possible_tags AuthTicket = [St_AuthSecret, St_AuthSigned]"
| "possible_tags HashcheckTicket = [St_Hashcheck]"
| "possible_tags VerifiedTicket = [St_Verified]"
| "possible_tags CreationTicket = [St_Creation]"

record ticket =
  ticket_tag :: structure_tag
  ticket_hierarchy :: hierarchy
  ticket_digest :: bytes

type_synonym tpmt_tk = "u16 \<times> u32 \<times> (u16 \<times> bytes)"

definition ticket_to_tss :: "ticket \<Rightarrow> tpmt_tk tss" where
  "ticket_to_tss t =
     (if length (ticket_digest t) > DIGEST_MAX then local_error WrongParamSize
      else Inr (structure_tag_u16 (ticket_tag t), hierarchy_u32 (ticket_hierarchy t),
                buffer_to_tss DIGEST_MAX (ticket_digest t)))"

definition ticket_try_from :: "ticket_kind \<Rightarrow> tpmt_tk \<Rightarrow> ticket tss" where
  "ticket_try_from k t = (case t of (tag, h, (n, b)) \<Rightarrow>
     bnd (case structure_tag_try_from tag of
            Inr g \<Rightarrow> if g \<notin> set (possible_tags k) then local_error InconsistentParams else Inr g
          | Inl e \<Rightarrow> local_error InvalidParam) (\<lambda>g.
     if unat n > DIGEST_MAX then local_error InvalidParam
     else bnd (hierarchy_try_from h) (\<lambda>r.
       Inr \<lparr> ticket_tag = g, ticket_hierarchy = r, ticket_digest = take (unat n) b \<rparr>)))"

lemma structure_tag_roundtrip [simp]: "structure_tag_try_from (structure_tag_u16 t) = Inr t"
  by (cases t) (simp_all add: structure_tag_try_from_def)

text \<open>A ticket comes back as the kind its tag belongs to, and as no other.\<close>

lemma ticket_roundtrip:
  assumes "ticket_to_tss t = Inr u"
  shows "ticket_try_from k u =
     (if ticket_tag t \<in> set (possible_tags k) then Inr t else local_error InconsistentParams)"
proof -
  have len: "length (ticket_digest t) \<le> DIGEST_MAX"
    using assms by (auto simp: ticket_to_tss_def split: if_splits)
  then have "unat (of_nat (length (ticket_digest t)) :: u16) = length (ticket_digest t)"
    by (simp add: DIGEST_MAX_def unat_of_nat)
  then show ?thesis using assms len
    by (auto simp: ticket_to_tss_def ticket_try_from_def buffer_to_tss_def pad_to_def)
qed

lemma ticket_kinds_disjoint:
  "g \<in> set (possible_tags k) \<Longrightarrow> g \<in> set (possible_tags l) \<Longrightarrow> k = l"
  by (cases k; cases l) auto

end
